(* ===== verification/Prelude.thy ===== *)
theory Prelude
  imports Main "HOL-Library.Word" "HOL-Library.List_Lexorder" "HOL-Library.Char_ord"
begin

text \<open>
  What every component shares: the machine integers of the Rust sources, results as sums (with
  the \<open>?\<close> operator as \<open>res_bind\<close>), strings as their UTF-8 bytes, and the pieces of the Rust
  standard library the sources call on strings and integers: \<open>to_string\<close> and \<open>parse\<close> of unsigned
  integers, \<open>saturating_add\<close> and \<open>saturating_sub\<close>, \<open>splitn\<close>, \<open>chars\<close>, and the
  insertion-order-preserving deduplication loop that several functions repeat.
  The lemma collections \<open>res_simps\<close> and \<open>inv_simps\<close> are filled by the components.
\<close>

named_theorems res_simps "unfolding rules for results"
named_theorems inv_simps "definitions of the component invariants"

type_synonym u8 = "8 word"
type_synonym u16 = "16 word"
type_synonym u64 = "64 word"
type_synonym bytes = "u8 list"

section \<open>Results\<close>

definition res_bind :: "'e + 'a \<Rightarrow> ('a \<Rightarrow> 'e + 'b) \<Rightarrow> 'e + 'b" where
  "res_bind r f = (case r of Inl e \<Rightarrow> Inl e | Inr x \<Rightarrow> f x)"

definition map_err :: "('e \<Rightarrow> 'f) \<Rightarrow> 'e + 'a \<Rightarrow> 'f + 'a" where
  "map_err f r = (case r of Inl e \<Rightarrow> Inl (f e) | Inr x \<Rightarrow> Inr x)"

definition res_ok :: "'e + 'a \<Rightarrow> 'a option" where
  "res_ok r = (case r of Inl e \<Rightarrow> None | Inr x \<Rightarrow> Some x)"

definition ok_or :: "'e \<Rightarrow> 'a option \<Rightarrow> 'e + 'a" where
  "ok_or e x = (case x of None \<Rightarrow> Inl e | Some v \<Rightarrow> Inr v)"

section \<open>Integers\<close>

datatype int_error_kind = Empty | InvalidDigit | PosOverflow

definition is_ascii_digit :: "char \<Rightarrow> bool" where
  "is_ascii_digit c \<longleftrightarrow> 48 \<le> (of_char c :: nat) \<and> (of_char c :: nat) \<le> 57"

definition digit_value :: "char \<Rightarrow> nat" where
  "digit_value c = of_char c - 48"

definition digit_char :: "nat \<Rightarrow> char" where
  "digit_char d = char_of (48 + d)"

fun show_nat :: "nat \<Rightarrow> string" where
  "show_nat n = (if n < 10 then [digit_char n] else show_nat (n div 10) @ [digit_char (n mod 10)])"

fun parse_digits :: "nat \<Rightarrow> nat \<Rightarrow> string \<Rightarrow> int_error_kind + nat" where
  "parse_digits mx acc [] = Inr acc"
| "parse_digits mx acc (c # cs) =
     (if \<not> is_ascii_digit c then Inl InvalidDigit
      else let v = acc * 10 + digit_value c
           in if mx < v then Inl PosOverflow else parse_digits mx v cs)"

text \<open>
  \<open>str::parse\<close> for an unsigned integer type with largest value \<open>mx\<close>: one leading plus sign is
  accepted (but not alone), a minus sign is not a digit.
\<close>

definition parse_uint :: "nat \<Rightarrow> string \<Rightarrow> int_error_kind + nat" where
  "parse_uint mx s =
     (case s of
        [] \<Rightarrow> Inl Empty
      | c # cs \<Rightarrow>
          if (c = CHR ''+'' \<or> c = CHR ''-'') \<and> cs = [] then Inl InvalidDigit
          else if c = CHR ''+'' then parse_digits mx 0 cs
          else parse_digits mx 0 s)"

definition parse_u16 :: "string \<Rightarrow> int_error_kind + u16" where
  "parse_u16 s = (case parse_uint 65535 s of Inl e \<Rightarrow> Inl e | Inr n \<Rightarrow> Inr (of_nat n))"

definition parse_u64 :: "string \<Rightarrow> int_error_kind + u64" where
  "parse_u64 s =
     (case parse_uint 18446744073709551615 s of Inl e \<Rightarrow> Inl e | Inr n \<Rightarrow> Inr (of_nat n))"

definition show_word :: "'a::len word \<Rightarrow> string" where
  "show_word w = show_nat (unat w)"

definition saturating_add :: "'a::len word \<Rightarrow> 'a word \<Rightarrow> 'a word" where
  "saturating_add a b = (if unat a + unat b < 2 ^ LENGTH('a) then a + b else - 1)"

definition saturating_sub :: "'a::len word \<Rightarrow> 'a word \<Rightarrow> 'a word" where
  "saturating_sub a b = (if a < b then 0 else a - b)"

section \<open>Strings\<close>

text \<open>\<open>str::splitn\<close>: at most \<open>n\<close> pieces, the last one keeps the remaining separators.\<close>

fun splitn :: "nat \<Rightarrow> char \<Rightarrow> string \<Rightarrow> string list" where
  "splitn 0 c s = []"
| "splitn (Suc 0) c s = [s]"
| "splitn (Suc (Suc n)) c s =
     (case dropWhile (\<lambda>x. x \<noteq> c) s of
        [] \<Rightarrow> [s]
      | _ # rest \<Rightarrow> takeWhile (\<lambda>x. x \<noteq> c) s # splitn (Suc n) c rest)"

text \<open>
  A Rust \<open>char\<close> is modelled by its UTF-8 bytes; \<open>str::chars\<close> cuts a string before every byte
  that is not a continuation byte (\<open>10xxxxxx\<close>).
\<close>

type_synonym uchar = string

definition is_continuation :: "char \<Rightarrow> bool" where
  "is_continuation c \<longleftrightarrow> 128 \<le> (of_char c :: nat) \<and> (of_char c :: nat) < 192"

function utf8_chars :: "string \<Rightarrow> uchar list" where
  "utf8_chars [] = []"
| "utf8_chars (c # cs) =
     (c # takeWhile is_continuation cs) # utf8_chars (dropWhile is_continuation cs)"
  by pat_completeness auto
termination
  by (relation "measure length") (auto simp: less_Suc_eq_le length_dropWhile_le)

section \<open>Deduplication that keeps the first occurrence\<close>

definition push_new :: "'a list \<Rightarrow> 'a \<Rightarrow> 'a list" where
  "push_new bucket x = (if x \<in> set bucket then bucket else bucket @ [x])"

definition extend_new :: "'a list \<Rightarrow> 'a list \<Rightarrow> 'a list" where
  "extend_new bucket xs = foldl push_new bucket xs"

section \<open>Lemmas\<close>

lemma res_bind_simps [simp, res_simps]:
  "res_bind (Inl e) f = Inl e" "res_bind (Inr x) f = f x"
  by (simp_all add: res_bind_def)

lemma res_bind_Inr_iff: "res_bind r f = Inr y \<longleftrightarrow> (\<exists>x. r = Inr x \<and> f x = Inr y)"
  by (cases r) auto

lemma map_err_simps [simp, res_simps]:
  "map_err f (Inl e) = Inl (f e)" "map_err f (Inr x) = Inr x"
  by (simp_all add: map_err_def)

lemma map_err_Inr_iff [simp]: "map_err f r = Inr x \<longleftrightarrow> r = Inr x"
  by (cases r) auto

lemma res_ok_simps [simp, res_simps]: "res_ok (Inl e) = None" "res_ok (Inr x) = Some x"
  by (simp_all add: res_ok_def)

lemma res_ok_Some_iff [simp]: "res_ok r = Some x \<longleftrightarrow> r = Inr x"
  by (cases r) auto

lemma ok_or_simps [simp, res_simps]: "ok_or e None = Inl e" "ok_or e (Some x) = Inr x"
  by (simp_all add: ok_or_def)

declare show_nat.simps [simp del]

lemma digit_char_digit [simp]: "d < 10 \<Longrightarrow> is_ascii_digit (digit_char d)"
  by (simp add: is_ascii_digit_def digit_char_def)

lemma digit_value_char [simp]: "d < 10 \<Longrightarrow> digit_value (digit_char d) = d"
  by (simp add: digit_value_def digit_char_def)

lemma show_nat_ne_Nil [simp]: "show_nat n \<noteq> []"
  by (subst show_nat.simps) simp

lemma show_nat_digits: "c \<in> set (show_nat n) \<Longrightarrow> is_ascii_digit c"
proof (induction n rule: show_nat.induct)
  case (1 n)
  then show ?case
    by (cases "n < 10") (auto simp: show_nat.simps [of n])
qed

lemma parse_digits_append:
  "parse_digits mx acc (s @ t) =
     (case parse_digits mx acc s of Inl e \<Rightarrow> Inl e | Inr v \<Rightarrow> parse_digits mx v t)"
  by (induction s arbitrary: acc) (auto simp: Let_def)

lemma parse_digits_show_nat:
  "n \<le> mx \<Longrightarrow> parse_digits mx 0 (show_nat n) = Inr n"
proof (induction n rule: show_nat.induct)
  case (1 n)
  show ?case
  proof (cases "n < 10")
    case True
    with "1.prems" show ?thesis by (simp add: show_nat.simps [of n])
  next
    case False
    then have "parse_digits mx 0 (show_nat (n div 10)) = Inr (n div 10)"
      using 1 by simp
    with False "1.prems" show ?thesis
      by (simp add: show_nat.simps [of n] parse_digits_append)
  qed
qed

lemma parse_uint_digits:
  assumes "s \<noteq> []" and "\<forall>c \<in> set s. is_ascii_digit c"
  shows "parse_uint mx s = parse_digits mx 0 s"
proof (cases s)
  case Nil
  with assms show ?thesis by simp
next
  case (Cons c cs)
  with assms(2) have "is_ascii_digit c" by simp
  then have "c \<noteq> CHR ''+''" and "c \<noteq> CHR ''-''" by (auto simp: is_ascii_digit_def)
  with Cons show ?thesis by (simp add: parse_uint_def)
qed

lemma parse_uint_show_nat: "n \<le> mx \<Longrightarrow> parse_uint mx (show_nat n) = Inr n"
  by (simp add: parse_uint_digits show_nat_digits parse_digits_show_nat)

lemma parse_digits_bound: "parse_digits mx acc s = Inr n \<Longrightarrow> acc \<le> mx \<Longrightarrow> n \<le> mx"
  by (induction s arbitrary: acc) (auto simp: Let_def split: if_splits)

lemma parse_uint_bound: "parse_uint mx s = Inr n \<Longrightarrow> n \<le> mx"
  by (auto simp del: parse_digits.simps simp: parse_uint_def split: list.splits if_splits
      dest: parse_digits_bound)

lemma parse_u16_show_word [simp]: "parse_u16 (show_word (k :: u16)) = Inr k"
proof -
  have "unat k < 2 ^ LENGTH(16)" by (rule unsigned_less)
  then show ?thesis by (simp add: parse_u16_def show_word_def parse_uint_show_nat)
qed

lemma parse_u64_show_word [simp]: "parse_u64 (show_word (k :: u64)) = Inr k"
proof -
  have "unat k < 2 ^ LENGTH(64)" by (rule unsigned_less)
  then show ?thesis by (simp add: parse_u64_def show_word_def parse_uint_show_nat)
qed

lemma show_word_chars: "c \<in> set (show_word w) \<Longrightarrow> is_ascii_digit c"
  by (auto simp: show_word_def dest: show_nat_digits)

lemma unat_saturating_add:
  "unat (saturating_add a b) = min (2 ^ LENGTH('a) - 1) (unat a + unat (b :: 'a::len word))"
proof (cases "unat a + unat b < 2 ^ LENGTH('a)")
  case True
  then show ?thesis by (simp add: saturating_add_def unat_word_ariths)
next
  case False
  then show ?thesis by (simp add: saturating_add_def unsigned_minus_1_eq_mask mask_eq_exp_minus_1)
qed

lemma unat_saturating_sub: "unat (saturating_sub a b) = unat a - unat (b :: 'a::len word)"
  by (simp add: saturating_sub_def unat_sub word_less_nat_alt word_le_nat_alt not_less)

lemma splitn_two:
  "c \<notin> set s \<Longrightarrow> splitn (Suc (Suc n)) c (s @ c # t) = s # splitn (Suc n) c t"
  by (simp add: dropWhile_append3 takeWhile_append2 dropWhile_append)

lemma set_push_new [simp]: "set (push_new b x) = insert x (set b)"
  by (auto simp: push_new_def)

lemma distinct_push_new [simp]: "distinct b \<Longrightarrow> distinct (push_new b x)"
  by (auto simp: push_new_def)

lemma set_extend_new [simp]: "set (extend_new b xs) = set b \<union> set xs"
  unfolding extend_new_def by (induction xs arbitrary: b) auto

lemma distinct_extend_new [simp]: "distinct b \<Longrightarrow> distinct (extend_new b xs)"
  unfolding extend_new_def by (induction xs arbitrary: b) auto

lemma extend_new_snoc: "extend_new b (xs @ [x]) = push_new (extend_new b xs) x"
  by (simp add: extend_new_def)

lemma extend_new_id: "distinct (b @ xs) \<Longrightarrow> extend_new b xs = b @ xs"
  unfolding extend_new_def by (induction xs arbitrary: b) (auto simp: push_new_def)

lemma map_filter_append [simp]: "List.map_filter f (xs @ ys) = List.map_filter f xs @ List.map_filter f ys"
  by (simp add: List.map_filter_def)

lemma set_map_filter: "y \<in> set (List.map_filter f xs) \<longleftrightarrow> (\<exists>x \<in> set xs. f x = Some y)"
  by (force simp: List.map_filter_def)

end
