(* ===== verification/Collections.thy ===== *)
theory Collections
  imports Prelude "HOL-Library.AList"
begin

text \<open>
  The collections of the Rust standard library that the components keep their state in.
  A \<open>HashMap\<close> is an association list with distinct keys (its iteration order is never
  relied on), a \<open>BTreeMap\<close> an association list in strictly ascending key order and a
  \<open>BTreeSet\<close> a strictly ascending list, so that iterating them is reading the list.
  The locale \<open>kv_map\<close> is the interface both maps offer to the components; it is interpreted
  on both, and the components' index lemmas use its facts \<open>hm.\<dots>\<close> and \<open>bt.\<dots>\<close>.
\<close>

type_synonym ('k, 'v) hash_map = "('k \<times> 'v) list"
type_synonym ('k, 'v) btree_map = "('k \<times> 'v) list"
type_synonym 'k btree_set = "'k list"

section \<open>Operations\<close>

definition hm_insert :: "'k \<Rightarrow> 'v \<Rightarrow> ('k, 'v) hash_map \<Rightarrow> ('k, 'v) hash_map" where
  "hm_insert k v m = AList.update k v m"

definition hm_remove :: "'k \<Rightarrow> ('k, 'v) hash_map \<Rightarrow> ('k, 'v) hash_map" where
  "hm_remove k m = AList.delete k m"

definition hm_invar :: "('k, 'v) hash_map \<Rightarrow> bool" where
  "hm_invar m \<longleftrightarrow> distinct (map fst m)"

fun bt_insert :: "'k::linorder \<Rightarrow> 'v \<Rightarrow> ('k, 'v) btree_map \<Rightarrow> ('k, 'v) btree_map" where
  "bt_insert k v [] = [(k, v)]"
| "bt_insert k v (e # m) =
     (if fst e < k then e # bt_insert k v m
      else if fst e = k then (k, v) # m
      else (k, v) # e # m)"

definition bt_remove :: "'k::linorder \<Rightarrow> ('k, 'v) btree_map \<Rightarrow> ('k, 'v) btree_map" where
  "bt_remove k m = filter (\<lambda>e. fst e \<noteq> k) m"

definition bt_invar :: "('k::linorder, 'v) btree_map \<Rightarrow> bool" where
  "bt_invar m \<longleftrightarrow> sorted_wrt (<) (map fst m)"

fun bs_insert :: "'k::linorder \<Rightarrow> 'k btree_set \<Rightarrow> 'k btree_set" where
  "bs_insert k [] = [k]"
| "bs_insert k (x # s) =
     (if x < k then x # bs_insert k s else if x = k then x # s else k # x # s)"

definition bs_remove :: "'k::linorder \<Rightarrow> 'k btree_set \<Rightarrow> 'k btree_set" where
  "bs_remove k s = filter (\<lambda>x. x \<noteq> k) s"

abbreviation bs_invar :: "'k::linorder btree_set \<Rightarrow> bool" where
  "bs_invar s \<equiv> sorted_wrt (<) s"

text \<open>\<open>map.entry(k).or_default()\<close> followed by an in-place update of the slot.\<close>

definition hm_entry :: "'v \<Rightarrow> 'k \<Rightarrow> ('v \<Rightarrow> 'v) \<Rightarrow> ('k, 'v) hash_map \<Rightarrow> ('k, 'v) hash_map" where
  "hm_entry dflt k f m = hm_insert k (f (case map_of m k of None \<Rightarrow> dflt | Some v \<Rightarrow> v)) m"

definition bt_entry ::
  "'v \<Rightarrow> 'k::linorder \<Rightarrow> ('v \<Rightarrow> 'v) \<Rightarrow> ('k, 'v) btree_map \<Rightarrow> ('k, 'v) btree_map" where
  "bt_entry dflt k f m = bt_insert k (f (case map_of m k of None \<Rightarrow> dflt | Some v \<Rightarrow> v)) m"

text \<open>
  \<open>if let Some(set) = map.get_mut(&k) { set.remove(&x); if set.is_empty() { map.remove(&k); } }\<close>
\<close>

definition hm_set_remove ::
  "'k \<Rightarrow> 'x::linorder \<Rightarrow> ('k, 'x btree_set) hash_map \<Rightarrow> ('k, 'x btree_set) hash_map" where
  "hm_set_remove k x m =
     (case map_of m k of
        None \<Rightarrow> m
      | Some s \<Rightarrow>
          let s' = bs_remove x s
          in if s' = [] then hm_remove k m else hm_insert k s' m)"

definition hm_set :: "('k, 'x list) hash_map \<Rightarrow> 'k \<Rightarrow> 'x set" where
  "hm_set m k = (case map_of m k of None \<Rightarrow> {} | Some s \<Rightarrow> set s)"

section \<open>The map interface\<close>

locale kv_map =
  fixes ins :: "'k \<Rightarrow> 'v \<Rightarrow> ('k \<times> 'v) list \<Rightarrow> ('k \<times> 'v) list"
    and del :: "'k \<Rightarrow> ('k \<times> 'v) list \<Rightarrow> ('k \<times> 'v) list"
    and invar :: "('k \<times> 'v) list \<Rightarrow> bool"
  assumes invar_empty: "invar []"
    and invar_ins: "invar m \<Longrightarrow> invar (ins k v m)"
    and invar_del: "invar m \<Longrightarrow> invar (del k m)"
    and lookup_ins: "invar m \<Longrightarrow> map_of (ins k v m) = (map_of m)(k \<mapsto> v)"
    and lookup_del: "invar m \<Longrightarrow> map_of (del k m) = (map_of m)(k := None)"
    and distinct_keys: "invar m \<Longrightarrow> distinct (map fst m)"
begin

lemma entries_iff: "invar m \<Longrightarrow> (k, v) \<in> set m \<longleftrightarrow> map_of m k = Some v"
  by (simp add: distinct_keys)

lemma set_ins: "invar m \<Longrightarrow> set (ins k v m) = insert (k, v) {e \<in> set m. fst e \<noteq> k}"
  by (auto simp: entries_iff invar_ins lookup_ins split: if_splits)

lemma set_del: "invar m \<Longrightarrow> set (del k m) = {e \<in> set m. fst e \<noteq> k}"
  by (auto simp: entries_iff invar_del lookup_del split: if_splits)

lemma length_card: "invar m \<Longrightarrow> length m = card (dom (map_of m))"
proof -
  assume "invar m"
  then have "distinct (map fst m)" by (rule distinct_keys)
  then have "length (map fst m) = card (set (map fst m))" by (rule distinct_card [symmetric])
  then show ?thesis by (simp add: dom_map_of_conv_image_fst)
qed

lemma length_ins:
  "invar m \<Longrightarrow> length (ins k v m) = (if map_of m k = None then Suc (length m) else length m)"
  by (auto simp: length_card invar_ins lookup_ins card_insert_if finite_dom_map_of domIff)

lemma length_del:
  "invar m \<Longrightarrow> length (del k m) = (if map_of m k = None then length m else length m - 1)"
  by (auto simp: length_card invar_del lookup_del finite_dom_map_of card_Diff_singleton_if)

end

lemma bt_insert_keys: "set (map fst (bt_insert k v m)) = insert k (set (map fst m))"
  by (induction m) auto

lemma map_of_bt_insert:
  "bt_invar m \<Longrightarrow> map_of (bt_insert k v m) = (map_of m)(k \<mapsto> v)"
  by (induction m) (auto simp: bt_invar_def fun_eq_iff)

lemma bt_invar_insert: "bt_invar m \<Longrightarrow> bt_invar (bt_insert k v m)"
proof (induction m)
  case Nil
  then show ?case by (simp add: bt_invar_def)
next
  case (Cons e m)
  then show ?case
    using bt_insert_keys [of k v m] by (force simp: bt_invar_def)
qed

lemma bt_invar_remove: "bt_invar m \<Longrightarrow> bt_invar (bt_remove k m)"
  unfolding bt_invar_def bt_remove_def by (induction m) auto

lemma map_of_bt_remove: "map_of (bt_remove k m) = (map_of m)(k := None)"
  by (induction m) (auto simp: bt_remove_def fun_eq_iff)

interpretation hm: kv_map hm_insert hm_remove hm_invar
proof
  fix m :: "('k \<times> 'v) list" and k :: 'k and v :: 'v
  show "hm_invar ([] :: ('k \<times> 'v) list)" by (simp add: hm_invar_def)
  assume inv: "hm_invar m"
  then show "hm_invar (hm_insert k v m)"
    by (simp add: hm_invar_def hm_insert_def distinct_update)
  show "hm_invar (hm_remove k m)"
    using inv by (simp add: hm_invar_def hm_remove_def distinct_delete)
  show "map_of (hm_insert k v m) = (map_of m)(k \<mapsto> v)"
    by (simp add: hm_insert_def update_conv')
  show "map_of (hm_remove k m) = (map_of m)(k := None)"
    by (simp add: hm_remove_def delete_conv')
  show "distinct (map fst m)" using inv by (simp add: hm_invar_def)
qed

interpretation bt: kv_map bt_insert bt_remove bt_invar
proof
  fix m :: "('k::linorder \<times> 'v) list" and k :: 'k and v :: 'v
  show "bt_invar ([] :: ('k \<times> 'v) list)" by (simp add: bt_invar_def)
  assume inv: "bt_invar m"
  then show "bt_invar (bt_insert k v m)" by (rule bt_invar_insert)
  show "bt_invar (bt_remove k m)" using inv by (rule bt_invar_remove)
  show "map_of (bt_insert k v m) = (map_of m)(k \<mapsto> v)" using inv by (rule map_of_bt_insert)
  show "map_of (bt_remove k m) = (map_of m)(k := None)" by (rule map_of_bt_remove)
  show "distinct (map fst m)" using inv by (auto simp: bt_invar_def strict_sorted_iff)
qed

section \<open>Sets and maps of sets\<close>

lemma set_bs_insert [simp]: "set (bs_insert k s) = insert k (set s)"
  by (induction s) auto

lemma bs_invar_insert [simp]: "bs_invar s \<Longrightarrow> bs_invar (bs_insert k s)"
  by (induction s) auto

lemma set_bs_remove [simp]: "set (bs_remove k s) = set s - {k}"
  by (auto simp: bs_remove_def)

lemma bs_invar_remove [simp]: "bs_invar s \<Longrightarrow> bs_invar (bs_remove k s)"
  unfolding bs_remove_def by (induction s) auto

lemma bs_insert_ne_Nil [simp]: "bs_insert k s \<noteq> []"
  by (cases s) auto

lemma bs_remove_Nil_iff: "bs_remove k s = [] \<longleftrightarrow> set s \<subseteq> {k}"
  by (auto simp: bs_remove_def filter_empty_conv)

text \<open>A map whose values are non-empty \<open>BTreeSet\<close>s, as the secondary indexes are.\<close>

definition hm_sets_invar :: "('k, 'x::linorder btree_set) hash_map \<Rightarrow> bool" where
  "hm_sets_invar m \<longleftrightarrow>
     hm_invar m \<and> (\<forall>k s. map_of m k = Some s \<longrightarrow> s \<noteq> [] \<and> bs_invar s)"

lemma hm_sets_invar_insert:
  "hm_sets_invar m \<Longrightarrow> hm_sets_invar (hm_entry [] k (bs_insert x) m)"
  by (auto simp: hm_sets_invar_def hm_entry_def hm.invar_ins hm.lookup_ins split: if_splits option.splits)

lemma hm_set_insert:
  "hm_sets_invar m \<Longrightarrow>
   hm_set (hm_entry [] k (bs_insert x) m) k' = (if k' = k then insert x (hm_set m k) else hm_set m k')"
  by (auto simp: hm_sets_invar_def hm_set_def hm_entry_def hm.lookup_ins split: option.splits)

lemma hm_sets_invar_remove: "hm_sets_invar m \<Longrightarrow> hm_sets_invar (hm_set_remove k x m)"
  by (auto simp: hm_sets_invar_def hm_set_remove_def Let_def hm.invar_ins hm.invar_del
      hm.lookup_ins hm.lookup_del split: if_splits option.splits)

lemma hm_set_remove_set:
  "hm_sets_invar m \<Longrightarrow>
   hm_set (hm_set_remove k x m) k' = (if k' = k then hm_set m k - {x} else hm_set m k')"
  by (auto simp: hm_sets_invar_def hm_set_def hm_set_remove_def Let_def hm.lookup_ins hm.lookup_del
      bs_remove_Nil_iff split: option.splits)

lemma sorted_list_eq:
  "bs_invar (xs :: 'a::linorder list) \<Longrightarrow> bs_invar ys \<Longrightarrow> set xs = set ys \<Longrightarrow> xs = ys"
  by (simp add: strict_sorted_equal)

end
