(* ===== verification/Identifiers.thy ===== *)
theory Identifiers
  imports Prelude
begin

text \<open>
  The scalar types of \<open>nula-core\<close>: \<open>Timestamp\<close> (types/timestamp.rs), \<open>Kind\<close> (event/kind.rs),
  the hex helpers (util/hex.rs), \<open>EventId\<close> (event/id.rs), \<open>PublicKey\<close> (key/public_key.rs) and
  \<open>Coordinate\<close> (event/coordinate.rs).
  The crates the code calls and that are not part of the repository are the record
  \<open>crates\<close>, an argument of every definition that reaches one of them: \<open>faster_hex\<close>,
  \<open>secp256k1\<close>, \<open>sha2\<close> and \<open>serde_json\<close>. What is relied on of them is stated in \<open>hex_laws\<close>.
  A \<open>PublicKey\<close> is modelled by the 32 bytes it serializes to.
\<close>

type_synonym kind = u16
type_synonym timestamp = u64
type_synonym event_id = bytes
type_synonym public_key = bytes
type_synonym signature = bytes

section \<open>Crates outside the repository\<close>

datatype faster_hex_error = FHInvalidChar | FHInvalidLength nat | FHOverflow

text \<open>JSON values as \<open>serde\<close> presents them; an object keeps the order of its entries.\<close>

datatype json =
    JNull
  | JBool bool
  | JNum int
  | JFloat string
  | JStr string
  | JArr "json list"
  | JObj "(string \<times> json) list"

record crates =
  hex_string :: "bytes \<Rightarrow> string"
  hex_decode :: "string \<Rightarrow> faster_hex_error + bytes"
  xonly_valid :: "bytes \<Rightarrow> bool"
  sha256 :: "bytes \<Rightarrow> bytes"
  json_bytes :: "json \<Rightarrow> bytes"
  verify_schnorr_ok :: "signature \<Rightarrow> bytes \<Rightarrow> public_key \<Rightarrow> bool"
  keypair_public :: "bytes \<Rightarrow> public_key"
  keypair_sign :: "bytes \<Rightarrow> bytes \<Rightarrow> signature"

section \<open>Timestamp\<close>

definition TIMESTAMP_ZERO :: timestamp where
  "TIMESTAMP_ZERO = 0"

definition TIMESTAMP_MAX :: timestamp where
  "TIMESTAMP_MAX = 18446744073709551615"

definition timestamp_add :: "timestamp \<Rightarrow> u64 \<Rightarrow> timestamp" where
  "timestamp_add ts secs = saturating_add ts secs"

definition timestamp_sub :: "timestamp \<Rightarrow> u64 \<Rightarrow> timestamp" where
  "timestamp_sub ts secs = saturating_sub ts secs"

definition timestamp_from_str :: "string \<Rightarrow> int_error_kind + timestamp" where
  "timestamp_from_str s = parse_u64 s"

definition timestamp_to_string :: "timestamp \<Rightarrow> string" where
  "timestamp_to_string ts = show_word ts"

section \<open>Kind\<close>

definition METADATA :: kind where "METADATA = 0"
definition TEXT_NOTE :: kind where "TEXT_NOTE = 1"
definition CONTACTS :: kind where "CONTACTS = 3"
definition EVENT_DELETION :: kind where "EVENT_DELETION = 5"
definition REQUEST_TO_VANISH :: kind where "REQUEST_TO_VANISH = 62"

definition is_replaceable :: "kind \<Rightarrow> bool" where
  "is_replaceable k \<longleftrightarrow> k = 0 \<or> k = 3 \<or> (10000 \<le> k \<and> k \<le> 19999)"

definition is_addressable :: "kind \<Rightarrow> bool" where
  "is_addressable k \<longleftrightarrow> 30000 \<le> k \<and> k \<le> 39999"

definition is_ephemeral :: "kind \<Rightarrow> bool" where
  "is_ephemeral k \<longleftrightarrow> 20000 \<le> k \<and> k \<le> 29999"

definition is_regular :: "kind \<Rightarrow> bool" where
  "is_regular k \<longleftrightarrow> k = 1 \<or> k = 2 \<or> (4 \<le> k \<and> k < 45) \<or> (1000 \<le> k \<and> k < 10000)"

definition is_reserved :: "kind \<Rightarrow> bool" where
  "is_reserved k \<longleftrightarrow> 40000 \<le> k \<and> k \<le> 65535"

definition is_unclassified :: "kind \<Rightarrow> bool" where
  "is_unclassified k \<longleftrightarrow> \<not> (is_regular k \<or> is_replaceable k \<or> is_addressable k \<or> is_ephemeral k)"

definition kind_to_string :: "kind \<Rightarrow> string" where
  "kind_to_string k = show_word k"

definition kind_from_str :: "string \<Rightarrow> int_error_kind + kind" where
  "kind_from_str s = parse_u16 s"

section \<open>Hex\<close>

datatype hex_error =
    HexInvalidChar
  | HexInvalidLength nat
  | HexLengthMismatch nat nat
  | HexOverflow

fun hex_error_from :: "faster_hex_error \<Rightarrow> hex_error" where
  "hex_error_from FHInvalidChar = HexInvalidChar"
| "hex_error_from (FHInvalidLength n) = HexInvalidLength n"
| "hex_error_from FHOverflow = HexOverflow"

definition hex_encode :: "crates \<Rightarrow> bytes \<Rightarrow> string" where
  "hex_encode X bs = hex_string X bs"

definition hex_decode_vec :: "crates \<Rightarrow> string \<Rightarrow> hex_error + bytes" where
  "hex_decode_vec X input =
     (if length input mod 2 \<noteq> 0 then Inl (HexInvalidLength (length input))
      else map_err hex_error_from (hex_decode X input))"

text \<open>\<open>decode_to_slice\<close>, for a buffer of \<open>n\<close> bytes: the result is what the buffer holds.\<close>

definition hex_decode_to_slice :: "crates \<Rightarrow> string \<Rightarrow> nat \<Rightarrow> hex_error + bytes" where
  "hex_decode_to_slice X input n =
     (let expected = n * 2
      in if length input \<noteq> expected then Inl (HexLengthMismatch expected (length input))
         else map_err hex_error_from (hex_decode X input))"

text \<open>\<open>write!(f, "{byte:02x}")\<close> for every byte.\<close>

definition hex_digit :: "nat \<Rightarrow> char" where
  "hex_digit d = (if d < 10 then char_of (48 + d) else char_of (87 + d))"

definition byte_02x :: "u8 \<Rightarrow> string" where
  "byte_02x b = [hex_digit (unat b div 16), hex_digit (unat b mod 16)]"

definition fmt_lower :: "bytes \<Rightarrow> string" where
  "fmt_lower bs = concat (map byte_02x bs)"

text \<open>What the code relies on of \<open>faster_hex\<close>: encoding is lowercase hex, decoding inverts it
  and halves the length.\<close>

definition hex_laws :: "crates \<Rightarrow> bool" where
  "hex_laws X \<longleftrightarrow>
     (\<forall>bs. hex_string X bs = fmt_lower bs) \<and>
     (\<forall>bs. hex_decode X (fmt_lower bs) = Inr bs) \<and>
     (\<forall>s bs. hex_decode X s = Inr bs \<longrightarrow> length s = 2 * length bs)"

section \<open>EventId and PublicKey\<close>

definition EVENT_ID_SIZE :: nat where "EVENT_ID_SIZE = 32"
definition PUBLIC_KEY_SIZE :: nat where "PUBLIC_KEY_SIZE = 32"

datatype event_id_error = EventIdHex hex_error | EventIdInvalidLength nat

definition event_id_from_slice :: "bytes \<Rightarrow> event_id_error + event_id" where
  "event_id_from_slice bs =
     (if length bs = EVENT_ID_SIZE then Inr bs else Inl (EventIdInvalidLength (length bs)))"

definition event_id_parse :: "crates \<Rightarrow> string \<Rightarrow> event_id_error + event_id" where
  "event_id_parse X input =
     res_bind (map_err EventIdHex (hex_decode_vec X input)) event_id_from_slice"

definition event_id_to_hex :: "crates \<Rightarrow> event_id \<Rightarrow> string" where
  "event_id_to_hex X i = hex_encode X i"

definition compute_from_canonical :: "crates \<Rightarrow> bytes \<Rightarrow> event_id" where
  "compute_from_canonical X canonical = sha256 X canonical"

datatype public_key_error = PkHex hex_error | PkInvalidLength nat | PkInvalidPoint

definition public_key_from_byte_array :: "crates \<Rightarrow> bytes \<Rightarrow> public_key_error + public_key" where
  "public_key_from_byte_array X bs = (if xonly_valid X bs then Inr bs else Inl PkInvalidPoint)"

definition public_key_from_slice :: "crates \<Rightarrow> bytes \<Rightarrow> public_key_error + public_key" where
  "public_key_from_slice X bs =
     (if length bs = PUBLIC_KEY_SIZE then public_key_from_byte_array X bs
      else Inl (PkInvalidLength (length bs)))"

definition public_key_parse :: "crates \<Rightarrow> string \<Rightarrow> public_key_error + public_key" where
  "public_key_parse X input =
     res_bind (map_err PkHex (hex_decode_vec X input)) (public_key_from_slice X)"

definition public_key_to_hex :: "crates \<Rightarrow> public_key \<Rightarrow> string" where
  "public_key_to_hex X pk = hex_encode X pk"

section \<open>Coordinate\<close>

record coordinate =
  c_kind :: kind
  c_author :: public_key
  c_identifier :: string

datatype coordinate_error =
    CoordMalformed string
  | CoordInvalidKind string
  | CoordInvalidAuthor public_key_error

definition coordinate_to_wire :: "crates \<Rightarrow> coordinate \<Rightarrow> string" where
  "coordinate_to_wire X c =
     show_word (c_kind c) @ '':'' @ public_key_to_hex X (c_author c) @ '':'' @ c_identifier c"

definition coordinate_from_str :: "crates \<Rightarrow> string \<Rightarrow> coordinate_error + coordinate" where
  "coordinate_from_str X s =
     (case splitn 3 CHR '':'' s of
        [k, a, i] \<Rightarrow>
          res_bind (map_err (\<lambda>_. CoordInvalidKind k) (parse_u16 k)) (\<lambda>kind.
          res_bind (map_err CoordInvalidAuthor (public_key_parse X a)) (\<lambda>author.
          Inr \<lparr>c_kind = kind, c_author = author, c_identifier = i\<rparr>))
      | _ \<Rightarrow> Inl (CoordMalformed s))"

text \<open>A value of the type: 32 bytes, and for a key a point of the curve.\<close>

definition event_id_wf :: "event_id \<Rightarrow> bool" where
  "event_id_wf i \<longleftrightarrow> length i = EVENT_ID_SIZE"

definition public_key_wf :: "crates \<Rightarrow> public_key \<Rightarrow> bool" where
  "public_key_wf X pk \<longleftrightarrow> length pk = PUBLIC_KEY_SIZE \<and> xonly_valid X pk"

section \<open>Wire formats\<close>

text \<open>
  The interface of a type with a text form: printing and parsing back. Interpreted below on
  kinds and timestamps, and on tag letters where they are defined.
\<close>

locale wire_format =
  fixes to_wire :: "'a \<Rightarrow> string"
    and from_wire :: "string \<Rightarrow> 'e + 'a"
  assumes round_trip: "from_wire (to_wire x) = Inr x"
begin

lemma to_wire_inject: "to_wire x = to_wire y \<longleftrightarrow> x = y"
proof
  assume "to_wire x = to_wire y"
  then have "(Inr x :: 'e + 'a) = Inr y"
    by (metis round_trip)
  then show "x = y" by simp
qed simp

lemma parse_printed_list: "List.map_filter (\<lambda>s. res_ok (from_wire s)) (map to_wire xs) = xs"
  by (simp add: List.map_filter_def comp_def round_trip)

end

interpretation kind_wire: wire_format kind_to_string kind_from_str
  by unfold_locales (simp add: kind_to_string_def kind_from_str_def)

interpretation timestamp_wire: wire_format timestamp_to_string timestamp_from_str
  by unfold_locales (simp add: timestamp_to_string_def timestamp_from_str_def)

section \<open>Lemmas\<close>

lemmas kind_defs = is_replaceable_def is_addressable_def is_ephemeral_def is_regular_def
  is_reserved_def is_unclassified_def

lemma length_fmt_lower [simp]: "length (fmt_lower bs) = 2 * length bs"
  by (induction bs) (simp_all add: fmt_lower_def byte_02x_def)

lemma hex_digit_ne_colon: "d < 16 \<Longrightarrow> hex_digit d \<noteq> CHR '':''"
proof
  assume d: "d < 16" and "hex_digit d = CHR '':''"
  then have "(of_char (hex_digit d) :: nat) = 58" by simp
  with d show False by (auto simp: hex_digit_def split: if_splits)
qed

lemma fmt_lower_no_colon: "CHR '':'' \<notin> set (fmt_lower bs)"
proof -
  have "unat b div 16 < 16" for b :: u8
  proof -
    have "unat b < 2 ^ LENGTH(8)" by (rule unsigned_less)
    then show ?thesis by simp
  qed
  then show ?thesis
    by (auto simp: fmt_lower_def byte_02x_def hex_digit_ne_colon [symmetric])
qed

lemma hex_laws_decode_vec: "hex_laws X \<Longrightarrow> hex_decode_vec X (hex_encode X bs) = Inr bs"
  by (simp add: hex_laws_def hex_decode_vec_def hex_encode_def)

lemma event_id_parse_hex:
  "hex_laws X \<Longrightarrow> event_id_wf i \<Longrightarrow> event_id_parse X (event_id_to_hex X i) = Inr i"
  by (simp add: event_id_parse_def event_id_to_hex_def hex_laws_decode_vec event_id_from_slice_def
      event_id_wf_def)

lemma public_key_parse_hex:
  "hex_laws X \<Longrightarrow> public_key_wf X pk \<Longrightarrow> public_key_parse X (public_key_to_hex X pk) = Inr pk"
  by (simp add: public_key_parse_def public_key_to_hex_def hex_laws_decode_vec
      public_key_from_slice_def public_key_from_byte_array_def public_key_wf_def)

lemma hex_encode_inject: "hex_laws X \<Longrightarrow> hex_encode X a = hex_encode X b \<longleftrightarrow> a = b"
  by (metis hex_laws_decode_vec sum.inject(2))

lemma show_word_no_colon: "CHR '':'' \<notin> set (show_word w)"
  using show_word_chars [of "CHR '':''" w] by (auto simp: is_ascii_digit_def)

lemma coordinate_round_trip_aux:
  assumes "hex_laws X" and "public_key_wf X (c_author c)"
  shows "coordinate_from_str X (coordinate_to_wire X c) = Inr c"
proof -
  let ?a = "public_key_to_hex X (c_author c)"
  have "CHR '':'' \<notin> set ?a"
    using assms(1) by (simp add: public_key_to_hex_def hex_encode_def hex_laws_def fmt_lower_no_colon)
  then have "splitn 3 CHR '':'' (coordinate_to_wire X c) = [show_word (c_kind c), ?a, c_identifier c]"
    by (simp add: coordinate_to_wire_def numeral_3_eq_3 splitn_two show_word_no_colon
        del: splitn.simps(3))
  with assms show ?thesis
    by (simp add: coordinate_from_str_def public_key_parse_hex)
qed

end
