(* ===== verification/Tags.thy ===== *)
theory Tags
  imports Collections Identifiers
begin

text \<open>
  The tag model of \<open>nula-core\<close> (event/tag/): the 26 letters and the single-letter tag
  (single_letter.rs), the typed tag head (kind.rs), a single tag (tag.rs) and the ordered tag
  list with its lazily built single-letter index (list.rs).
  \<open>Tags\<close> keeps the index in a \<open>OnceLock\<close> that every mutator erases; \<open>tags_list\<close> models that
  cell explicitly, and \<open>cache_ok\<close> is the invariant that makes the cache unobservable, which is
  why events and filters below work on the bare list of tags.
  A relay or web URL argument is the string its \<open>as_str\<close> returns. \<open>Tag::t\<close> is not modelled:
  it lowercases over all of Unicode.
\<close>

section \<open>Letters (single_letter.rs)\<close>

datatype alphabet =
    L_A | L_B | L_C | L_D | L_E | L_F | L_G | L_H | L_I | L_J | L_K | L_L | L_M
  | L_N | L_O | L_P | L_Q | L_R | L_S | L_T | L_U | L_V | L_W | L_X | L_Y | L_Z

datatype alphabet_error = NotAsciiLetter uchar

definition alphabet_from_char :: "uchar \<Rightarrow> alphabet_error + alphabet" where
  "alphabet_from_char c =
     (if c = ''a'' \<or> c = ''A'' then Inr L_A
      else if c = ''b'' \<or> c = ''B'' then Inr L_B
      else if c = ''c'' \<or> c = ''C'' then Inr L_C
      else if c = ''d'' \<or> c = ''D'' then Inr L_D
      else if c = ''e'' \<or> c = ''E'' then Inr L_E
      else if c = ''f'' \<or> c = ''F'' then Inr L_F
      else if c = ''g'' \<or> c = ''G'' then Inr L_G
      else if c = ''h'' \<or> c = ''H'' then Inr L_H
      else if c = ''i'' \<or> c = ''I'' then Inr L_I
      else if c = ''j'' \<or> c = ''J'' then Inr L_J
      else if c = ''k'' \<or> c = ''K'' then Inr L_K
      else if c = ''l'' \<or> c = ''L'' then Inr L_L
      else if c = ''m'' \<or> c = ''M'' then Inr L_M
      else if c = ''n'' \<or> c = ''N'' then Inr L_N
      else if c = ''o'' \<or> c = ''O'' then Inr L_O
      else if c = ''p'' \<or> c = ''P'' then Inr L_P
      else if c = ''q'' \<or> c = ''Q'' then Inr L_Q
      else if c = ''r'' \<or> c = ''R'' then Inr L_R
      else if c = ''s'' \<or> c = ''S'' then Inr L_S
      else if c = ''t'' \<or> c = ''T'' then Inr L_T
      else if c = ''u'' \<or> c = ''U'' then Inr L_U
      else if c = ''v'' \<or> c = ''V'' then Inr L_V
      else if c = ''w'' \<or> c = ''W'' then Inr L_W
      else if c = ''x'' \<or> c = ''X'' then Inr L_X
      else if c = ''y'' \<or> c = ''Y'' then Inr L_Y
      else if c = ''z'' \<or> c = ''Z'' then Inr L_Z
      else Inl (NotAsciiLetter c))"

primrec as_lower_char :: "alphabet \<Rightarrow> char" where
  "as_lower_char L_A = CHR ''a''"
| "as_lower_char L_B = CHR ''b''"
| "as_lower_char L_C = CHR ''c''"
| "as_lower_char L_D = CHR ''d''"
| "as_lower_char L_E = CHR ''e''"
| "as_lower_char L_F = CHR ''f''"
| "as_lower_char L_G = CHR ''g''"
| "as_lower_char L_H = CHR ''h''"
| "as_lower_char L_I = CHR ''i''"
| "as_lower_char L_J = CHR ''j''"
| "as_lower_char L_K = CHR ''k''"
| "as_lower_char L_L = CHR ''l''"
| "as_lower_char L_M = CHR ''m''"
| "as_lower_char L_N = CHR ''n''"
| "as_lower_char L_O = CHR ''o''"
| "as_lower_char L_P = CHR ''p''"
| "as_lower_char L_Q = CHR ''q''"
| "as_lower_char L_R = CHR ''r''"
| "as_lower_char L_S = CHR ''s''"
| "as_lower_char L_T = CHR ''t''"
| "as_lower_char L_U = CHR ''u''"
| "as_lower_char L_V = CHR ''v''"
| "as_lower_char L_W = CHR ''w''"
| "as_lower_char L_X = CHR ''x''"
| "as_lower_char L_Y = CHR ''y''"
| "as_lower_char L_Z = CHR ''z''"

primrec as_upper_char :: "alphabet \<Rightarrow> char" where
  "as_upper_char L_A = CHR ''A''"
| "as_upper_char L_B = CHR ''B''"
| "as_upper_char L_C = CHR ''C''"
| "as_upper_char L_D = CHR ''D''"
| "as_upper_char L_E = CHR ''E''"
| "as_upper_char L_F = CHR ''F''"
| "as_upper_char L_G = CHR ''G''"
| "as_upper_char L_H = CHR ''H''"
| "as_upper_char L_I = CHR ''I''"
| "as_upper_char L_J = CHR ''J''"
| "as_upper_char L_K = CHR ''K''"
| "as_upper_char L_L = CHR ''L''"
| "as_upper_char L_M = CHR ''M''"
| "as_upper_char L_N = CHR ''N''"
| "as_upper_char L_O = CHR ''O''"
| "as_upper_char L_P = CHR ''P''"
| "as_upper_char L_Q = CHR ''Q''"
| "as_upper_char L_R = CHR ''R''"
| "as_upper_char L_S = CHR ''S''"
| "as_upper_char L_T = CHR ''T''"
| "as_upper_char L_U = CHR ''U''"
| "as_upper_char L_V = CHR ''V''"
| "as_upper_char L_W = CHR ''W''"
| "as_upper_char L_X = CHR ''X''"
| "as_upper_char L_Y = CHR ''Y''"
| "as_upper_char L_Z = CHR ''Z''"

datatype single_letter_tag = SingleLetterTag (character: alphabet) (uppercase: bool)

datatype single_letter_tag_error = SltAlphabet alphabet_error | NotSingleChar nat

abbreviation lowercase_tag :: "alphabet \<Rightarrow> single_letter_tag" where
  "lowercase_tag a \<equiv> SingleLetterTag a False"

abbreviation uppercase_tag :: "alphabet \<Rightarrow> single_letter_tag" where
  "uppercase_tag a \<equiv> SingleLetterTag a True"

definition is_ascii_uppercase :: "uchar \<Rightarrow> bool" where
  "is_ascii_uppercase c =
     (case c of [b] \<Rightarrow> 65 \<le> (of_char b :: nat) \<and> (of_char b :: nat) \<le> 90 | _ \<Rightarrow> False)"

definition slt_from_char :: "uchar \<Rightarrow> single_letter_tag_error + single_letter_tag" where
  "slt_from_char c =
     (case alphabet_from_char c of
        Inl e \<Rightarrow> Inl (SltAlphabet e)
      | Inr a \<Rightarrow> Inr (SingleLetterTag a (is_ascii_uppercase c)))"

definition as_char :: "single_letter_tag \<Rightarrow> char" where
  "as_char t = (if uppercase t then as_upper_char (character t) else as_lower_char (character t))"

definition slt_is_lowercase :: "single_letter_tag \<Rightarrow> bool" where
  "slt_is_lowercase t \<longleftrightarrow> \<not> uppercase t"

definition slt_to_string :: "single_letter_tag \<Rightarrow> string" where
  "slt_to_string t = [as_char t]"

definition slt_from_str :: "string \<Rightarrow> single_letter_tag_error + single_letter_tag" where
  "slt_from_str s =
     (case utf8_chars s of
        [] \<Rightarrow> Inl (NotSingleChar 0)
      | [first] \<Rightarrow> slt_from_char first
      | cs \<Rightarrow> Inl (NotSingleChar (length cs)))"

text \<open>The derived \<open>Ord\<close>: declaration order of the letters, then lowercase before uppercase.\<close>

primrec alphabet_index :: "alphabet \<Rightarrow> nat" where
  "alphabet_index L_A = 0"
| "alphabet_index L_B = 1"
| "alphabet_index L_C = 2"
| "alphabet_index L_D = 3"
| "alphabet_index L_E = 4"
| "alphabet_index L_F = 5"
| "alphabet_index L_G = 6"
| "alphabet_index L_H = 7"
| "alphabet_index L_I = 8"
| "alphabet_index L_J = 9"
| "alphabet_index L_K = 10"
| "alphabet_index L_L = 11"
| "alphabet_index L_M = 12"
| "alphabet_index L_N = 13"
| "alphabet_index L_O = 14"
| "alphabet_index L_P = 15"
| "alphabet_index L_Q = 16"
| "alphabet_index L_R = 17"
| "alphabet_index L_S = 18"
| "alphabet_index L_T = 19"
| "alphabet_index L_U = 20"
| "alphabet_index L_V = 21"
| "alphabet_index L_W = 22"
| "alphabet_index L_X = 23"
| "alphabet_index L_Y = 24"
| "alphabet_index L_Z = 25"

lemma alphabet_index_inject: "alphabet_index a = alphabet_index b \<longleftrightarrow> a = b"
proof
  have "[L_A, L_B, L_C, L_D, L_E, L_F, L_G, L_H, L_I, L_J, L_K, L_L, L_M,
    L_N, L_O, L_P, L_Q, L_R, L_S, L_T, L_U, L_V, L_W, L_X, L_Y, L_Z] ! alphabet_index x = x" for x
    by (cases x) simp_all
  then show "alphabet_index a = alphabet_index b \<Longrightarrow> a = b" by metis
qed simp

instantiation alphabet :: linorder
begin

definition less_eq_alphabet :: "alphabet \<Rightarrow> alphabet \<Rightarrow> bool" where
  "less_eq_alphabet a b \<longleftrightarrow> alphabet_index a \<le> alphabet_index b"

definition less_alphabet :: "alphabet \<Rightarrow> alphabet \<Rightarrow> bool" where
  "less_alphabet a b \<longleftrightarrow> alphabet_index a < alphabet_index b"

instance
  by standard (auto simp: less_eq_alphabet_def less_alphabet_def alphabet_index_inject)

end

instantiation single_letter_tag :: linorder
begin

definition less_eq_single_letter_tag :: "single_letter_tag \<Rightarrow> single_letter_tag \<Rightarrow> bool" where
  "less_eq_single_letter_tag a b \<longleftrightarrow>
     character a < character b \<or> (character a = character b \<and> uppercase a \<le> uppercase b)"

definition less_single_letter_tag :: "single_letter_tag \<Rightarrow> single_letter_tag \<Rightarrow> bool" where
  "less_single_letter_tag a b \<longleftrightarrow>
     character a < character b \<or> (character a = character b \<and> uppercase a < uppercase b)"

instance
  by standard
    (auto simp: less_eq_single_letter_tag_def less_single_letter_tag_def single_letter_tag.expand)

end

section \<open>Tag heads (tag/kind.rs)\<close>

datatype tag_kind = SingleLetter single_letter_tag | Custom string

datatype tag_kind_error = TagKindEmpty

definition single_letter_from_str :: "string \<Rightarrow> single_letter_tag option" where
  "single_letter_from_str value =
     (case utf8_chars value of [first] \<Rightarrow> res_ok (slt_from_char first) | _ \<Rightarrow> None)"

definition single_letter_str :: "single_letter_tag \<Rightarrow> string" where
  "single_letter_str t =
     (if uppercase t then [as_upper_char (character t)] else [as_lower_char (character t)])"

definition tag_kind_as_str :: "tag_kind \<Rightarrow> string" where
  "tag_kind_as_str k = (case k of SingleLetter t \<Rightarrow> single_letter_str t | Custom name \<Rightarrow> name)"

definition tag_kind_parse :: "string \<Rightarrow> tag_kind_error + tag_kind" where
  "tag_kind_parse value =
     (if value = [] then Inl TagKindEmpty
      else case single_letter_from_str value of
             Some letter \<Rightarrow> Inr (SingleLetter letter)
           | None \<Rightarrow> Inr (Custom value))"

definition tag_kind_from_wire :: "string \<Rightarrow> tag_kind" where
  "tag_kind_from_wire value =
     (case tag_kind_parse value of Inr k \<Rightarrow> k | Inl _ \<Rightarrow> Custom value)"

section \<open>A tag (tag/tag.rs)\<close>

datatype tag = Tag (tag_values: "string list")

datatype tag_error = TagEmpty

definition tag_new :: "string list \<Rightarrow> tag_error + tag" where
  "tag_new values = (if values = [] then Inl TagEmpty else Inr (Tag values))"

definition tag_with :: "tag_kind \<Rightarrow> string list \<Rightarrow> tag" where
  "tag_with head args = Tag (tag_kind_as_str head # args)"

definition tag_e :: "crates \<Rightarrow> event_id \<Rightarrow> tag" where
  "tag_e X i = tag_with (SingleLetter (lowercase_tag L_E)) [event_id_to_hex X i]"

definition tag_e_with_relay :: "crates \<Rightarrow> event_id \<Rightarrow> string \<Rightarrow> tag" where
  "tag_e_with_relay X i relay =
     tag_with (SingleLetter (lowercase_tag L_E)) [event_id_to_hex X i, relay]"

definition tag_e_marker :: "crates \<Rightarrow> event_id \<Rightarrow> string \<Rightarrow> string \<Rightarrow> tag" where
  "tag_e_marker X i relay marker =
     tag_with (SingleLetter (lowercase_tag L_E)) [event_id_to_hex X i, relay, marker]"

definition tag_p :: "crates \<Rightarrow> public_key \<Rightarrow> tag" where
  "tag_p X pk = tag_with (SingleLetter (lowercase_tag L_P)) [public_key_to_hex X pk]"

definition tag_p_with_relay :: "crates \<Rightarrow> public_key \<Rightarrow> string \<Rightarrow> tag" where
  "tag_p_with_relay X pk relay =
     tag_with (SingleLetter (lowercase_tag L_P)) [public_key_to_hex X pk, relay]"

definition tag_a :: "crates \<Rightarrow> coordinate \<Rightarrow> tag" where
  "tag_a X c = tag_with (SingleLetter (lowercase_tag L_A)) [coordinate_to_wire X c]"

definition tag_a_with_relay :: "crates \<Rightarrow> coordinate \<Rightarrow> string \<Rightarrow> tag" where
  "tag_a_with_relay X c relay =
     tag_with (SingleLetter (lowercase_tag L_A)) [coordinate_to_wire X c, relay]"

definition tag_k :: "kind \<Rightarrow> tag" where
  "tag_k k = tag_with (SingleLetter (lowercase_tag L_K)) [show_word k]"

definition tag_d :: "string \<Rightarrow> tag" where
  "tag_d identifier = tag_with (SingleLetter (lowercase_tag L_D)) [identifier]"

definition tag_r :: "string \<Rightarrow> tag" where
  "tag_r url = tag_with (SingleLetter (lowercase_tag L_R)) [url]"

definition tag_i :: "string \<Rightarrow> tag" where
  "tag_i external_id = tag_with (SingleLetter (lowercase_tag L_I)) [external_id]"

definition tag_i_with_context :: "string \<Rightarrow> string \<Rightarrow> tag" where
  "tag_i_with_context external_id context =
     tag_with (SingleLetter (lowercase_tag L_I)) [external_id, context]"

definition tag_title :: "string \<Rightarrow> tag" where
  "tag_title title = tag_with (Custom ''title'') [title]"

definition tag_alt :: "string \<Rightarrow> tag" where
  "tag_alt summary = tag_with (Custom ''alt'') [summary]"

definition tag_subject :: "string \<Rightarrow> tag" where
  "tag_subject subject = tag_with (Custom ''subject'') [subject]"

definition tag_q :: "crates \<Rightarrow> event_id \<Rightarrow> string \<Rightarrow> public_key \<Rightarrow> tag" where
  "tag_q X i relay author =
     tag_with (SingleLetter (lowercase_tag L_Q))
       [event_id_to_hex X i, relay, public_key_to_hex X author]"

definition tag_q_addressable :: "crates \<Rightarrow> coordinate \<Rightarrow> string \<Rightarrow> tag" where
  "tag_q_addressable X c relay =
     tag_with (SingleLetter (lowercase_tag L_Q)) [coordinate_to_wire X c, relay]"

definition tag_get :: "tag \<Rightarrow> nat \<Rightarrow> string option" where
  "tag_get t i = (if i < length (tag_values t) then Some (tag_values t ! i) else None)"

definition tag_name :: "tag \<Rightarrow> string" where
  "tag_name t = (case tag_values t of [] \<Rightarrow> [] | v # _ \<Rightarrow> v)"

definition tag_head :: "tag \<Rightarrow> tag_kind" where
  "tag_head t = tag_kind_from_wire (case tag_values t of [] \<Rightarrow> [] | v # _ \<Rightarrow> v)"

definition tag_content :: "tag \<Rightarrow> string option" where
  "tag_content t = tag_get t 1"

definition tag_single_letter :: "tag \<Rightarrow> single_letter_tag option" where
  "tag_single_letter t = res_ok (slt_from_str (tag_name t))"

definition tag_len :: "tag \<Rightarrow> nat" where
  "tag_len t = length (tag_values t)"

section \<open>The tag list (tag/list.rs)\<close>

type_synonym tags_indexes = "(single_letter_tag, string btree_set) btree_map"

record tags_list =
  items :: "tag list"
  indexes_cell :: "tags_indexes option"

definition tags_from_vec :: "tag list \<Rightarrow> tags_list" where
  "tags_from_vec ts = \<lparr>items = ts, indexes_cell = None\<rparr>"

definition tags_new :: tags_list where
  "tags_new = \<lparr>items = [], indexes_cell = None\<rparr>"

definition tags_clone :: "tags_list \<Rightarrow> tags_list" where
  "tags_clone T = tags_from_vec (items T)"

definition tags_eq :: "tags_list \<Rightarrow> tags_list \<Rightarrow> bool" where
  "tags_eq T U \<longleftrightarrow> items T = items U"

definition erase_indexes :: "tags_list \<Rightarrow> tags_list" where
  "erase_indexes T = T\<lparr>indexes_cell := None\<rparr>"

definition tags_push :: "tag \<Rightarrow> tags_list \<Rightarrow> tags_list" where
  "tags_push t T = (let T' = erase_indexes T in T'\<lparr>items := items T' @ [t]\<rparr>)"

definition tags_extend :: "tag list \<Rightarrow> tags_list \<Rightarrow> tags_list" where
  "tags_extend ts T = (let T' = erase_indexes T in T'\<lparr>items := items T' @ ts\<rparr>)"

fun replace_first :: "('a \<Rightarrow> bool) \<Rightarrow> 'a \<Rightarrow> 'a list \<Rightarrow> 'a list option" where
  "replace_first P y [] = None"
| "replace_first P y (x # xs) =
     (if P x then Some (y # xs) else map_option (\<lambda>r. x # r) (replace_first P y xs))"

definition replace_or_push_items :: "tag_kind \<Rightarrow> tag \<Rightarrow> tag list \<Rightarrow> tag list" where
  "replace_or_push_items k t ts =
     (case replace_first (\<lambda>x. tag_head x = k) t ts of Some ts' \<Rightarrow> ts' | None \<Rightarrow> ts @ [t])"

definition tags_replace_or_push :: "tag_kind \<Rightarrow> tag \<Rightarrow> tags_list \<Rightarrow> tags_list" where
  "tags_replace_or_push k t T =
     (let T' = erase_indexes T in T'\<lparr>items := replace_or_push_items k t (items T')\<rparr>)"

definition tags_push_unique_kind :: "tag \<Rightarrow> tags_list \<Rightarrow> tags_list" where
  "tags_push_unique_kind t T =
     (if \<exists>x \<in> set (items T). tag_head x = tag_head t then T
      else let T' = erase_indexes T in T'\<lparr>items := items T' @ [t]\<rparr>)"

definition find_first :: "tag_kind \<Rightarrow> tag list \<Rightarrow> tag option" where
  "find_first k ts = List.find (\<lambda>t. tag_head t = k) ts"

definition find_all :: "tag_kind \<Rightarrow> tag list \<Rightarrow> tag list" where
  "find_all k ts = filter (\<lambda>t. tag_head t = k) ts"

definition find_letter :: "alphabet \<Rightarrow> tag list \<Rightarrow> tag list" where
  "find_letter a ts = filter (\<lambda>t. tag_head t = SingleLetter (lowercase_tag a)) ts"

definition tags_identifier :: "tag list \<Rightarrow> string option" where
  "tags_identifier ts = (case find_letter L_D ts of [] \<Rightarrow> None | t # _ \<Rightarrow> tag_content t)"

definition tags_public_keys :: "crates \<Rightarrow> tag list \<Rightarrow> public_key list" where
  "tags_public_keys X ts =
     List.map_filter (\<lambda>t. Option.bind (tag_content t) (\<lambda>v. res_ok (public_key_parse X v)))
       (find_letter L_P ts)"

definition tags_event_ids :: "crates \<Rightarrow> tag list \<Rightarrow> event_id list" where
  "tags_event_ids X ts =
     List.map_filter (\<lambda>t. Option.bind (tag_content t) (\<lambda>v. res_ok (event_id_parse X v)))
       (find_letter L_E ts)"

definition tags_coordinates :: "crates \<Rightarrow> tag list \<Rightarrow> coordinate list" where
  "tags_coordinates X ts =
     List.map_filter (\<lambda>t. Option.bind (tag_content t) (\<lambda>v. res_ok (coordinate_from_str X v)))
       (find_letter L_A ts)"

definition tags_hashtags :: "tag list \<Rightarrow> string list" where
  "tags_hashtags ts = List.map_filter tag_content (find_letter L_T ts)"

definition tags_expiration :: "tag list \<Rightarrow> timestamp option" where
  "tags_expiration ts =
     Option.bind (find_first (Custom ''expiration'') ts) (\<lambda>t.
     Option.bind (tag_content t) (\<lambda>v. res_ok (parse_u64 v)))"

definition tags_challenge :: "tag list \<Rightarrow> string option" where
  "tags_challenge ts = Option.bind (find_first (Custom ''challenge'') ts) tag_content"

text \<open>\<open>dedup\<close>: per key (head, content) the first index and the index of the longest tag; then
  one slot per key, at the first index.\<close>

definition dedup_key :: "tag \<Rightarrow> string \<times> string option" where
  "dedup_key t = (tag_name t, tag_content t)"

type_synonym dedup_map = "(string \<times> string option, nat \<times> nat) hash_map"

definition dedup_step :: "tag list \<Rightarrow> dedup_map \<Rightarrow> nat \<times> tag \<Rightarrow> dedup_map" where
  "dedup_step ts m it =
     (let idx = fst it; t = snd it; key = dedup_key t;
          ent = (case map_of m key of None \<Rightarrow> (idx, idx) | Some v \<Rightarrow> v);
          best_len = (if snd ent < length ts then tag_len (ts ! snd ent) else 0);
          ent' = (if best_len < tag_len t then (fst ent, idx) else ent)
      in hm_insert key ent' m)"

definition dedup_place :: "tag list \<Rightarrow> tag option list \<Rightarrow> nat \<times> nat \<Rightarrow> tag option list" where
  "dedup_place ts slots v =
     (if fst v < length slots \<and> snd v < length ts then slots[fst v := Some (ts ! snd v)] else slots)"

definition dedup_items :: "tag list \<Rightarrow> tag list" where
  "dedup_items ts =
     (if ts = [] then ts
      else let m = foldl (dedup_step ts) [] (enumerate 0 ts);
               slots = foldl (dedup_place ts) (replicate (length ts) None) (map snd m)
           in List.map_filter id slots)"

definition tags_dedup :: "tags_list \<Rightarrow> tags_list" where
  "tags_dedup T =
     (if items T = [] then T
      else let T' = erase_indexes T in T'\<lparr>items := dedup_items (items T')\<rparr>)"

definition build_indexes :: "tag list \<Rightarrow> tags_indexes" where
  "build_indexes ts =
     foldl (\<lambda>ix t. case (tag_single_letter t, tag_content t) of
                     (Some letter, Some content) \<Rightarrow> bt_entry [] letter (bs_insert content) ix
                   | _ \<Rightarrow> ix) [] ts"

text \<open>\<open>indexes\<close> fills the cell on first use: it returns the index and the list with the filled
  cell.\<close>

definition tags_indexes_get :: "tags_list \<Rightarrow> tags_indexes \<times> tags_list" where
  "tags_indexes_get T =
     (case indexes_cell T of
        Some ix \<Rightarrow> (ix, T)
      | None \<Rightarrow> let ix = build_indexes (items T) in (ix, T\<lparr>indexes_cell := Some ix\<rparr>))"

definition tag_wf :: "tag \<Rightarrow> bool" where
  "tag_wf t \<longleftrightarrow> tag_values t \<noteq> []"

definition cache_ok :: "tags_list \<Rightarrow> bool" where
  [inv_simps]: "cache_ok T \<longleftrightarrow>
     (case indexes_cell T of None \<Rightarrow> True | Some ix \<Rightarrow> ix = build_indexes (items T))"

text \<open>What \<open>dedup\<close> promises: of the tags with one key, the first longest.\<close>

definition longer_tag :: "tag option \<Rightarrow> tag \<Rightarrow> tag option" where
  "longer_tag best t =
     (case best of None \<Rightarrow> Some t | Some u \<Rightarrow> if tag_len u < tag_len t then Some t else Some u)"

definition longest_with :: "string \<times> string option \<Rightarrow> tag list \<Rightarrow> tag option" where
  "longest_with k ts = foldl longer_tag None (filter (\<lambda>t. dedup_key t = k) ts)"

section \<open>Letters: lemmas\<close>

lemma alphabet_from_lower [simp]: "alphabet_from_char [as_lower_char a] = Inr a"
  by (cases a) (simp_all add: alphabet_from_char_def)

lemma alphabet_from_upper [simp]: "alphabet_from_char [as_upper_char a] = Inr a"
  by (cases a) (simp_all add: alphabet_from_char_def)

lemma upper_is_upper [simp]: "is_ascii_uppercase [as_upper_char a]"
  by (cases a) (simp_all add: is_ascii_uppercase_def)

lemma lower_is_not_upper [simp]: "\<not> is_ascii_uppercase [as_lower_char a]"
  by (cases a) (simp_all add: is_ascii_uppercase_def)

lemma as_char_ascii: "\<not> is_continuation (as_char t)"
  by (cases t; cases "character t") (simp_all add: as_char_def is_continuation_def)

lemma slt_from_char_as_char [simp]: "slt_from_char [as_char t] = Inr t"
  by (cases t) (simp add: slt_from_char_def as_char_def)

lemma utf8_chars_single [simp]: "utf8_chars [c] = [[c]]"
  by simp

lemma concat_utf8_chars: "concat (utf8_chars s) = s"
  by (induction s rule: utf8_chars.induct) simp_all

lemma utf8_chars_singleD: "utf8_chars s = [c] \<Longrightarrow> s = c"
  using concat_utf8_chars [of s] by simp

interpretation letter_wire: wire_format slt_to_string slt_from_str
  by unfold_locales (simp add: slt_to_string_def slt_from_str_def)

lemma alphabet_from_char_cases:
  "alphabet_from_char c = Inr a \<Longrightarrow> c = [as_lower_char a] \<or> c = [as_upper_char a]"
  unfolding alphabet_from_char_def by (auto split: if_split_asm)

lemma slt_from_char_Inr: "slt_from_char c = Inr t \<Longrightarrow> c = [as_char t]"
  by (auto simp: slt_from_char_def as_char_def split: sum.splits dest!: alphabet_from_char_cases)

lemma slt_from_str_iff: "slt_from_str s = Inr t \<longleftrightarrow> s = slt_to_string t"
proof
  assume "slt_from_str s = Inr t"
  then obtain c where "utf8_chars s = [c]" and "slt_from_char c = Inr t"
    by (auto simp: slt_from_str_def split: list.splits)
  then show "s = slt_to_string t"
    by (auto simp: slt_to_string_def dest: utf8_chars_singleD slt_from_char_Inr)
qed (simp add: letter_wire.round_trip)

section \<open>Tag heads: lemmas\<close>

lemma single_letter_str_eq: "single_letter_str t = slt_to_string t"
  by (simp add: single_letter_str_def slt_to_string_def as_char_def)

lemma single_letter_from_str_iff: "single_letter_from_str s = Some t \<longleftrightarrow> s = slt_to_string t"
proof -
  have "single_letter_from_str s = res_ok (slt_from_str s)"
    by (auto simp: single_letter_from_str_def slt_from_str_def split: list.splits)
  then show ?thesis by (simp add: slt_from_str_iff)
qed

lemma tag_kind_from_wire_eq:
  "tag_kind_from_wire s =
     (case single_letter_from_str s of Some t \<Rightarrow> SingleLetter t | None \<Rightarrow> Custom s)"
  by (auto simp: tag_kind_from_wire_def tag_kind_parse_def single_letter_from_str_def
      split: option.splits)

lemma as_str_from_wire: "tag_kind_as_str (tag_kind_from_wire s) = s"
  by (auto simp: tag_kind_from_wire_eq tag_kind_as_str_def single_letter_str_eq
      single_letter_from_str_iff split: option.splits)

lemma from_wire_inject: "tag_kind_from_wire s = tag_kind_from_wire t \<longleftrightarrow> s = t"
  by (metis as_str_from_wire)

lemma from_wire_single [simp]: "tag_kind_from_wire (slt_to_string l) = SingleLetter l"
  using single_letter_from_str_iff [of "slt_to_string l" l] by (simp add: tag_kind_from_wire_eq)

lemma tag_head_name: "tag_head t = tag_kind_from_wire (tag_name t)"
  by (simp add: tag_head_def tag_name_def)

lemma tag_head_iff: "tag_head t = tag_kind_from_wire s \<longleftrightarrow> tag_name t = s"
  by (simp add: tag_head_name from_wire_inject)

lemma tag_head_letter: "tag_head t = SingleLetter l \<longleftrightarrow> tag_name t = slt_to_string l"
  using tag_head_iff [of t "slt_to_string l"] by simp

lemma tag_single_letter_iff: "tag_single_letter t = Some l \<longleftrightarrow> tag_name t = slt_to_string l"
  by (simp add: tag_single_letter_def slt_from_str_iff)

lemma tag_with_simps [simp]:
  "tag_name (tag_with k args) = tag_kind_as_str k"
  "tag_content (tag_with k (a # args)) = Some a"
  "tag_content (tag_with k []) = None"
  "tag_wf (tag_with k args)"
  by (simp_all add: tag_with_def tag_name_def tag_content_def tag_get_def tag_wf_def)

lemma tag_head_with_letter [simp]: "tag_head (tag_with (SingleLetter l) args) = SingleLetter l"
  by (simp add: tag_head_letter tag_kind_as_str_def single_letter_str_eq)

lemma tag_head_with_wire: "tag_head (tag_with (tag_kind_from_wire s) args) = tag_kind_from_wire s"
  by (simp add: tag_head_name as_str_from_wire)

lemma from_wire_two: "tag_kind_from_wire (a # b # s) = Custom (a # b # s)"
proof -
  have "single_letter_from_str (a # b # s) \<noteq> Some l" for l
    by (simp add: single_letter_from_str_iff slt_to_string_def)
  then show ?thesis by (auto simp: tag_kind_from_wire_eq split: option.splits)
qed

section \<open>The tag list: lemmas\<close>

lemma bt_entry_set:
  assumes "bt_invar ix"
  shows "bt_invar (bt_entry [] l (bs_insert v) ix)"
    and "hm_set (bt_entry [] l (bs_insert v) ix) l' =
      (if l' = l then insert v (hm_set ix l) else hm_set ix l')"
  using assms by (auto simp: bt_entry_def bt.invar_ins bt.lookup_ins hm_set_def split: option.splits)

lemma build_indexes_snoc:
  "build_indexes (ts @ [t]) =
     (case (tag_single_letter t, tag_content t) of
        (Some letter, Some content) \<Rightarrow> bt_entry [] letter (bs_insert content) (build_indexes ts)
      | _ \<Rightarrow> build_indexes ts)"
  by (simp only: build_indexes_def foldl_append foldl.simps)

lemma build_indexes_spec:
  "bt_invar (build_indexes ts) \<and>
   hm_set (build_indexes ts) l =
     {v. \<exists>t \<in> set ts. tag_single_letter t = Some l \<and> tag_content t = Some v}"
proof (induction ts rule: rev_induct)
  case Nil
  then show ?case by (simp add: build_indexes_def bt.invar_empty hm_set_def)
next
  case (snoc t ts)
  then show ?case
    by (auto simp: build_indexes_snoc bt_entry_set split: option.splits)
qed

lemma cache_ok_from_vec: "cache_ok (tags_from_vec ts)"
  by (simp add: cache_ok_def tags_from_vec_def)

lemma cache_ok_ops:
  "cache_ok (tags_push t T)" "cache_ok (tags_extend ts T)" "cache_ok (tags_replace_or_push k t T)"
  "cache_ok (tags_clone T)"
  "cache_ok T \<Longrightarrow> cache_ok (tags_push_unique_kind t T)" "cache_ok T \<Longrightarrow> cache_ok (tags_dedup T)"
  "cache_ok T \<Longrightarrow> cache_ok (snd (tags_indexes_get T))"
  by (auto simp: cache_ok_def tags_push_def tags_extend_def tags_replace_or_push_def
      tags_push_unique_kind_def tags_dedup_def tags_indexes_get_def erase_indexes_def Let_def
      tags_clone_def tags_from_vec_def split: option.splits)

lemma indexes_get_value: "cache_ok T \<Longrightarrow> fst (tags_indexes_get T) = build_indexes (items T)"
  by (auto simp: cache_ok_def tags_indexes_get_def Let_def split: option.splits)

lemma replace_first_None: "replace_first P y xs = None \<longleftrightarrow> filter P xs = []"
  by (induction xs) auto

lemma replace_first_Some:
  "replace_first P y xs = Some ys \<Longrightarrow> P y \<Longrightarrow>
   filter P ys = y # tl (filter P xs) \<and> filter (\<lambda>x. \<not> P x) ys = filter (\<lambda>x. \<not> P x) xs"
  by (induction xs arbitrary: ys) (auto split: if_splits)

lemma replace_or_push_filter:
  assumes "tag_head t = k"
  shows "find_all k (replace_or_push_items k t ts) = t # tl (find_all k ts)"
    and "filter (\<lambda>x. tag_head x \<noteq> k) (replace_or_push_items k t ts) =
         filter (\<lambda>x. tag_head x \<noteq> k) ts"
  using assms replace_first_None [of "\<lambda>x. tag_head x = k" t ts]
    replace_first_Some [of "\<lambda>x. tag_head x = k" t ts]
  by (auto simp: replace_or_push_items_def find_all_def split: option.splits)

lemma find_first_find_all: "find_first k ts = (case find_all k ts of [] \<Rightarrow> None | t # _ \<Rightarrow> Some t)"
  unfolding find_first_def find_all_def by (induction ts) auto

subsection \<open>Deduplication\<close>

lemma update_absent: "map_of m k = None \<Longrightarrow> AList.update k v m = m @ [(k, v)]"
  by (induction m) (auto split: if_splits)

lemma update_present:
  "map_of m k = Some w \<Longrightarrow> fst v = fst w \<Longrightarrow>
   map fst (AList.update k v m) = map fst m \<and>
   map (\<lambda>e. fst (snd e)) (AList.update k v m) = map (\<lambda>e. fst (snd e)) m"
  by (induction m) (auto split: if_splits)

definition dedup_inv :: "tag list \<Rightarrow> nat \<Rightarrow> dedup_map \<Rightarrow> bool" where
  "dedup_inv ts n m \<longleftrightarrow>
     map fst m = extend_new [] (map dedup_key (take n ts)) \<and>
     sorted_wrt (<) (map (\<lambda>e. fst (snd e)) m) \<and>
     (\<forall>k f b. map_of m k = Some (f, b) \<longrightarrow>
        f < n \<and> b < n \<and> longest_with k (take n ts) = Some (ts ! b))"

lemma longest_with_snoc:
  "longest_with k (ts @ [t]) =
     (if dedup_key t = k then longer_tag (longest_with k ts) t else longest_with k ts)"
  by (simp add: longest_with_def)

lemma dedup_keys_iff: "map_of m k = None \<longleftrightarrow> k \<notin> set (map fst m)"
  by (simp add: map_of_eq_None_iff)

lemma dedup_inv_step:
  assumes inv: "dedup_inv ts n m" and n: "n < length ts"
  shows "dedup_inv ts (Suc n) (dedup_step ts m (n, ts ! n))"
proof -
  let ?k = "dedup_key (ts ! n)"
  note take = take_Suc_conv_app_nth [OF n]
  have keys: "map fst m = extend_new [] (map dedup_key (take n ts))"
    using inv by (simp only: dedup_inv_def)
  show ?thesis
  proof (cases "map_of m ?k")
    case None
    then have "?k \<notin> set (map fst m)" by (simp only: dedup_keys_iff not_False_eq_True)
    with keys have new: "?k \<notin> set (extend_new [] (map dedup_key (take n ts)))" by simp
    then have "filter (\<lambda>t. dedup_key t = ?k) (take n ts) = []"
      unfolding filter_empty_conv set_extend_new set_map by (metis UnCI imageI)
    then have "longest_with ?k (take n ts) = None" by (simp add: longest_with_def)
    moreover have "dedup_step ts m (n, ts ! n) = m @ [(?k, (n, n))]"
      using None n by (simp add: dedup_step_def hm_insert_def update_absent)
    moreover have "map_of (m @ [(?k, (n, n))]) = (map_of m)(?k \<mapsto> (n, n))"
      using None by (auto simp: map_add_def fun_eq_iff split: option.splits)
    moreover have "f < n" if "f \<in> set (map (\<lambda>e. fst (snd e)) m)" for f
    proof -
      have "distinct (map fst m)" using inv by (simp add: dedup_inv_def)
      with that obtain k b where "map_of m k = Some (f, b)" by force
      with inv show ?thesis unfolding dedup_inv_def by blast
    qed
    ultimately show ?thesis
      using inv new
      by (auto simp: dedup_inv_def take extend_new_snoc push_new_def longest_with_snoc
          longer_tag_def sorted_wrt_append less_Suc_eq)
  next
    case (Some v)
    obtain f b where v: "v = (f, b)" by (cases v)
    from Some v inv have b: "f < n" "b < n" "longest_with ?k (take n ts) = Some (ts ! b)"
      unfolding dedup_inv_def by blast+
    define v' where "v' = (f, if tag_len (ts ! b) < tag_len (ts ! n) then n else b)"
    have step: "dedup_step ts m (n, ts ! n) = hm_insert ?k v' m"
      using Some v b n by (auto simp: dedup_step_def v'_def)
    have "?k \<in> set (map fst m)" using Some dedup_keys_iff [of m ?k] by auto
    then have seen: "?k \<in> set (extend_new [] (map dedup_key (take n ts)))"
      by (simp only: keys)
    have "map_of (hm_insert ?k v' m) = (map_of m)(?k \<mapsto> v')"
      by (simp add: hm_insert_def update_conv')
    then show ?thesis
      using inv seen b step update_present [OF Some, of v'] v
      by (auto simp: dedup_inv_def take extend_new_snoc push_new_def longest_with_snoc
          longer_tag_def hm_insert_def v'_def less_Suc_eq nth_append)
  qed
qed

lemma dedup_inv_run:
  "n \<le> length ts \<Longrightarrow> dedup_inv ts n (foldl (dedup_step ts) [] (enumerate 0 (take n ts)))"
proof (induction n)
  case 0
  show ?case by (simp add: dedup_inv_def extend_new_def)
next
  case (Suc n)
  then have "enumerate 0 (take (Suc n) ts) = enumerate 0 (take n ts) @ [(n, ts ! n)]"
    by (simp add: take_Suc_conv_app_nth enumerate_append_eq)
  with Suc show ?case by (simp add: dedup_inv_step)
qed

lemma dedup_place_run:
  assumes "\<forall>v \<in> set vs. fst v < length slots \<and> snd v < length ts" and "distinct (map fst vs)"
  shows "foldl (dedup_place ts) slots vs =
    map (\<lambda>i. case map_of vs i of None \<Rightarrow> slots ! i | Some b \<Rightarrow> Some (ts ! b)) [0..<length slots]"
  using assms
proof (induction vs arbitrary: slots)
  case Nil
  then show ?case by (simp add: map_nth)
next
  case (Cons v vs)
  let ?slots = "slots[fst v := Some (ts ! snd v)]"
  have "foldl (dedup_place ts) slots (v # vs) = foldl (dedup_place ts) ?slots vs"
    using Cons.prems by (simp add: dedup_place_def)
  also have "\<dots> = map (\<lambda>i. case map_of vs i of None \<Rightarrow> ?slots ! i | Some b \<Rightarrow> Some (ts ! b))
      [0..<length slots]"
    using Cons.IH [of ?slots] Cons.prems by simp
  also have "\<dots> = map (\<lambda>i. case map_of (v # vs) i of None \<Rightarrow> slots ! i | Some b \<Rightarrow> Some (ts ! b))
      [0..<length slots]"
  proof -
    have "map_of vs (fst v) = None" using Cons.prems(2) by (simp add: map_of_eq_None_iff)
    then show ?thesis by (cases v) (auto split: option.splits)
  qed
  finally show ?case .
qed

lemma map_filter_lookup:
  assumes sorted: "sorted_wrt (<) (map fst vs)" and bound: "\<forall>v \<in> set vs. fst v < (n :: nat)"
  shows "List.map_filter (\<lambda>i. map_option g (map_of vs i)) [0..<n] = map (\<lambda>v. g (snd v)) vs"
proof -
  have "filter (\<lambda>i. map_of vs i \<noteq> None) [0..<n] = map fst vs"
    by (rule sorted_list_eq) (use sorted bound in \<open>auto simp: sorted_wrt_filter map_of_eq_None_iff\<close>)
  moreover have "map_of vs (fst v) = Some (snd v)" if "v \<in> set vs" for v
    using sorted that by (simp add: strict_sorted_iff)
  ultimately show ?thesis by (simp add: List.map_filter_def)
qed

lemma dedup_items_eq:
  "dedup_items ts =
     List.map_filter (\<lambda>k. longest_with k ts) (extend_new [] (map dedup_key ts))"
proof (cases "ts = []")
  case True
  then show ?thesis by (simp add: dedup_items_def extend_new_def)
next
  case False
  define m where "m = foldl (dedup_step ts) [] (enumerate 0 ts)"
  have inv: "dedup_inv ts (length ts) m"
    using dedup_inv_run [of "length ts" ts] by (simp add: m_def)
  then have dist: "distinct (map fst m)" by (simp add: dedup_inv_def)
  have range: "fst v < length ts \<and> snd v < length ts" if "v \<in> set (map snd m)" for v
    using inv dist that by (cases v) (fastforce simp: dedup_inv_def)
  have sorted: "sorted_wrt (<) (map fst (map snd m))"
    using inv by (simp add: dedup_inv_def comp_def)
  have "foldl (dedup_place ts) (replicate (length ts) None) (map snd m) =
      map (\<lambda>i. map_option (\<lambda>b. ts ! b) (map_of (map snd m) i)) [0..<length ts]"
    using dedup_place_run [of "map snd m" "replicate (length ts) None" ts] range sorted
    by (auto simp: strict_sorted_iff split: option.splits)
  with False have "dedup_items ts =
      List.map_filter id (map (\<lambda>i. map_option (\<lambda>b. ts ! b) (map_of (map snd m) i)) [0..<length ts])"
    by (simp add: dedup_items_def m_def [symmetric])
  also have "\<dots> = map (\<lambda>v. ts ! snd v) (map snd m)"
    using map_filter_lookup [OF sorted, of "length ts" "(!) ts"] range
    by (simp add: List.map_filter_def filter_map comp_def)
  also have "\<dots> = List.map_filter (\<lambda>k. longest_with k ts) (map fst m)"
  proof -
    have "longest_with (fst e) ts = Some (ts ! snd (snd e))" if "e \<in> set m" for e
      using inv dist that by (cases e) (fastforce simp: dedup_inv_def)
    then show ?thesis by (simp add: List.map_filter_def filter_map comp_def)
  qed
  finally show ?thesis using inv by (simp add: dedup_inv_def)
qed

end
