(* ===== verification/Sample_Crates.thy ===== *)
theory Sample_Crates
  imports Identifiers
begin

text \<open>
  A concrete instance of the crates outside the repository, so that theorems which assume
  their laws can be applied at a closed input: hex coding is implemented, every 32-byte
  string counts as a curve point, JSON is printed without
  escapes, the digest is 30 zero bytes, the length and the sum of the bytes, and a signature is the
  message followed by the key.
\<close>

definition hex_value :: "char \<Rightarrow> nat option" where
  "hex_value c =
     (let n = (of_char c :: nat)
      in if 48 \<le> n \<and> n \<le> 57 then Some (n - 48)
         else if 97 \<le> n \<and> n \<le> 102 then Some (n - 87)
         else if 65 \<le> n \<and> n \<le> 70 then Some (n - 55)
         else None)"

fun unhex :: "string \<Rightarrow> faster_hex_error + bytes" where
  "unhex [] = Inr []"
| "unhex [c] = Inl (FHInvalidLength 1)"
| "unhex (c # d # s) =
     (case (hex_value c, hex_value d) of
        (Some a, Some b) \<Rightarrow> res_bind (unhex s) (\<lambda>bs. Inr (of_nat (16 * a + b) # bs))
      | _ \<Rightarrow> Inl FHInvalidChar)"

fun json_text :: "json \<Rightarrow> string" where
  "json_text JNull = ''null''"
| "json_text (JBool b) = (if b then ''true'' else ''false'')"
| "json_text (JNum n) = (if n < 0 then [CHR ''-''] else []) @ show_nat (nat \<bar>n\<bar>)"
| "json_text (JFloat s) = s"
| "json_text (JStr s) = [CHR 0x22] @ s @ [CHR 0x22]"
| "json_text (JArr js) = ''['' @ concat (map (\<lambda>j. json_text j @ '','') js) @ '']''"
| "json_text (JObj es) =
     ''{'' @ concat (map (\<lambda>e. fst e @ '':'' @ json_text (snd e) @ '','') es) @ ''}''"

definition sample_digest :: "bytes \<Rightarrow> bytes" where
  "sample_digest bs = replicate 30 0 @ [of_nat (length bs), sum_list bs]"

definition sample_crates :: crates where
  "sample_crates = \<lparr>
     hex_string = fmt_lower,
     hex_decode = unhex,
     xonly_valid = (\<lambda>_. True),
     sha256 = sample_digest,
     json_bytes = (\<lambda>j. map (\<lambda>c. of_nat (of_char c)) (json_text j)),
     verify_schnorr_ok = (\<lambda>sig msg pk. sig = msg @ pk),
     keypair_public = (\<lambda>sk. sk),
     keypair_sign = (\<lambda>sk msg. msg @ sk)\<rparr>"

lemma hex_value_digit: "d < 16 \<Longrightarrow> hex_value (hex_digit d) = Some d"
  by (auto simp: hex_value_def hex_digit_def Let_def)

lemma unhex_fmt_lower: "unhex (fmt_lower bs) = Inr bs"
proof (induction bs)
  case Nil
  then show ?case by (simp add: fmt_lower_def)
next
  case (Cons b bs)
  have "unat b < 2 ^ LENGTH(8)" by (rule unsigned_less)
  then have "unat b div 16 < 16" by simp
  then have "unhex (byte_02x b @ fmt_lower bs) = Inr (of_nat (16 * (unat b div 16) + unat b mod 16) # bs)"
    using Cons.IH by (simp add: byte_02x_def hex_value_digit)
  then show ?case by (simp add: fmt_lower_def)
qed

lemma unhex_length: "unhex s = Inr bs \<Longrightarrow> length s = 2 * length bs"
  by (induction s arbitrary: bs rule: unhex.induct)
    (auto split: option.splits simp: res_bind_Inr_iff)

lemma sample_hex_laws: "hex_laws sample_crates"
  by (simp add: hex_laws_def sample_crates_def unhex_fmt_lower unhex_length)

end
