(* ===== verification/Event_Model.thy ===== *)
theory Event_Model
  imports Tags Sample_Crates
begin

text \<open>
  The event of \<open>nula-core\<close> and what is read off it: the canonical form and its digest
  (event/mod.rs), the signed and the unsigned event with verification and signing
  (event/event.rs, event/unsigned.rs, key/keys.rs), the builder (event/builder.rs), the
  protected marker (nips/nip70.rs), expiration (nips/nip40.rs) and deletion requests
  (nips/nip09.rs). The wall clock is an argument, \<open>None\<close> when it is before the epoch.
\<close>

section \<open>Events\<close>

record event =
  ev_id :: event_id
  ev_pubkey :: public_key
  ev_created_at :: timestamp
  ev_kind :: kind
  ev_tags :: "tag list"
  ev_content :: string
  ev_sig :: signature

record unsigned_event =
  u_id :: event_id
  u_pubkey :: public_key
  u_created_at :: timestamp
  u_kind :: kind
  u_tags :: "tag list"
  u_content :: string

definition tag_to_json :: "tag \<Rightarrow> json" where
  "tag_to_json t = JArr (map JStr (tag_values t))"

definition canonical_value ::
  "crates \<Rightarrow> public_key \<Rightarrow> timestamp \<Rightarrow> kind \<Rightarrow> tag list \<Rightarrow> string \<Rightarrow> json" where
  "canonical_value X pubkey created_at kind tags content =
     JArr [JNum 0, JStr (public_key_to_hex X pubkey), JNum (uint created_at), JNum (uint kind),
           JArr (map tag_to_json tags), JStr content]"

definition canonical_bytes ::
  "crates \<Rightarrow> public_key \<Rightarrow> timestamp \<Rightarrow> kind \<Rightarrow> tag list \<Rightarrow> string \<Rightarrow> bytes" where
  "canonical_bytes X pubkey created_at kind tags content =
     json_bytes X (canonical_value X pubkey created_at kind tags content)"

definition compute_event_id ::
  "crates \<Rightarrow> public_key \<Rightarrow> timestamp \<Rightarrow> kind \<Rightarrow> tag list \<Rightarrow> string \<Rightarrow> event_id" where
  "compute_event_id X pubkey created_at kind tags content =
     compute_from_canonical X (canonical_bytes X pubkey created_at kind tags content)"

datatype event_error = InvalidId | InvalidSignature

definition verify_id :: "crates \<Rightarrow> event \<Rightarrow> bool" where
  "verify_id X e \<longleftrightarrow>
     compute_event_id X (ev_pubkey e) (ev_created_at e) (ev_kind e) (ev_tags e) (ev_content e) = ev_id e"

definition verify_signature :: "crates \<Rightarrow> event \<Rightarrow> bool" where
  "verify_signature X e \<longleftrightarrow> verify_schnorr_ok X (ev_sig e) (ev_id e) (ev_pubkey e)"

definition verify :: "crates \<Rightarrow> event \<Rightarrow> event_error + unit" where
  "verify X e =
     (if \<not> verify_id X e then Inl InvalidId
      else if \<not> verify_signature X e then Inl InvalidSignature
      else Inr ())"

section \<open>Keys, unsigned events and the builder\<close>

record keys =
  keys_secret :: bytes
  keys_public :: public_key

definition keys_from_secret_key :: "crates \<Rightarrow> bytes \<Rightarrow> keys" where
  "keys_from_secret_key X sk = \<lparr>keys_secret = sk, keys_public = keypair_public X sk\<rparr>"

definition keys_sign_schnorr :: "crates \<Rightarrow> keys \<Rightarrow> bytes \<Rightarrow> signature" where
  "keys_sign_schnorr X ks message = keypair_sign X (keys_secret ks) message"

datatype unsigned_event_error = SignerMismatch

definition unsigned_new ::
  "crates \<Rightarrow> public_key \<Rightarrow> timestamp \<Rightarrow> kind \<Rightarrow> tag list \<Rightarrow> string \<Rightarrow> unsigned_event" where
  "unsigned_new X pubkey created_at kind tags content =
     \<lparr>u_id = compute_event_id X pubkey created_at kind tags content, u_pubkey = pubkey,
      u_created_at = created_at, u_kind = kind, u_tags = tags, u_content = content\<rparr>"

definition compute_id :: "crates \<Rightarrow> unsigned_event \<Rightarrow> event_id" where
  "compute_id X u =
     compute_event_id X (u_pubkey u) (u_created_at u) (u_kind u) (u_tags u) (u_content u)"

definition unsigned_sign_with_keys ::
  "crates \<Rightarrow> unsigned_event \<Rightarrow> keys \<Rightarrow> unsigned_event_error + event" where
  "unsigned_sign_with_keys X u ks =
     (if keys_public ks \<noteq> u_pubkey u then Inl SignerMismatch
      else let canonical_id = compute_id X u;
               sig = keys_sign_schnorr X ks canonical_id
           in Inr \<lparr>ev_id = canonical_id, ev_pubkey = u_pubkey u, ev_created_at = u_created_at u,
                   ev_kind = u_kind u, ev_tags = u_tags u, ev_content = u_content u, ev_sig = sig\<rparr>)"

record event_builder =
  b_kind :: kind
  b_content :: string
  b_tags :: tags_list
  b_created_at :: "timestamp option"

datatype event_builder_error = BuilderClock | BuilderSigner unsigned_event_error

definition builder_new :: "kind \<Rightarrow> string \<Rightarrow> event_builder" where
  "builder_new k content = \<lparr>b_kind = k, b_content = content, b_tags = tags_new, b_created_at = None\<rparr>"

definition builder_text_note :: "string \<Rightarrow> event_builder" where
  "builder_text_note content = builder_new TEXT_NOTE content"

definition builder_kind :: "kind \<Rightarrow> event_builder \<Rightarrow> event_builder" where
  "builder_kind k b = b\<lparr>b_kind := k\<rparr>"

definition builder_content :: "string \<Rightarrow> event_builder \<Rightarrow> event_builder" where
  "builder_content content b = b\<lparr>b_content := content\<rparr>"

definition builder_tag :: "tag \<Rightarrow> event_builder \<Rightarrow> event_builder" where
  "builder_tag t b = b\<lparr>b_tags := tags_push t (b_tags b)\<rparr>"

definition builder_tags :: "tag list \<Rightarrow> event_builder \<Rightarrow> event_builder" where
  "builder_tags ts b = b\<lparr>b_tags := tags_extend ts (b_tags b)\<rparr>"

definition builder_created_at :: "timestamp \<Rightarrow> event_builder \<Rightarrow> event_builder" where
  "builder_created_at ts b = b\<lparr>b_created_at := Some ts\<rparr>"

definition build_unsigned ::
  "crates \<Rightarrow> timestamp option \<Rightarrow> event_builder \<Rightarrow> public_key \<Rightarrow> event_builder_error + unsigned_event" where
  "build_unsigned X clock b pubkey =
     (case (case b_created_at b of Some ts \<Rightarrow> Some ts | None \<Rightarrow> clock) of
        None \<Rightarrow> Inl BuilderClock
      | Some created_at \<Rightarrow>
          Inr (unsigned_new X pubkey created_at (b_kind b) (items (b_tags b)) (b_content b)))"

definition builder_sign_with_keys ::
  "crates \<Rightarrow> timestamp option \<Rightarrow> event_builder \<Rightarrow> keys \<Rightarrow> event_builder_error + event" where
  "builder_sign_with_keys X clock b ks =
     res_bind (build_unsigned X clock b (keys_public ks)) (\<lambda>u.
     map_err BuilderSigner (unsigned_sign_with_keys X u ks))"

section \<open>Protected events (NIP-70)\<close>

definition PROTECTED_TAG :: string where "PROTECTED_TAG = ''-''"

definition is_protected :: "event \<Rightarrow> bool" where
  "is_protected e \<longleftrightarrow> find_first (tag_kind_from_wire PROTECTED_TAG) (ev_tags e) \<noteq> None"

definition builder_protected :: "event_builder \<Rightarrow> event_builder" where
  "builder_protected b =
     b\<lparr>b_tags := tags_push_unique_kind (tag_with (tag_kind_from_wire PROTECTED_TAG) []) (b_tags b)\<rparr>"

section \<open>Expiration (NIP-40)\<close>

definition EXPIRATION_TAG :: string where "EXPIRATION_TAG = ''expiration''"

datatype expiration_error = MissingValue | InvalidTimestamp string

definition parse_expiration :: "event \<Rightarrow> expiration_error + timestamp option" where
  "parse_expiration e =
     (case find_first (tag_kind_from_wire EXPIRATION_TAG) (ev_tags e) of
        None \<Rightarrow> Inr None
      | Some t \<Rightarrow>
          (case tag_get t 1 of
             None \<Rightarrow> Inl MissingValue
           | Some value \<Rightarrow>
               res_bind (map_err (\<lambda>_. InvalidTimestamp value) (parse_u64 value)) (\<lambda>secs.
               Inr (Some secs))))"

definition is_expired :: "event \<Rightarrow> timestamp \<Rightarrow> expiration_error + bool" where
  "is_expired e now =
     res_bind (parse_expiration e) (\<lambda>deadline.
     Inr (case deadline of None \<Rightarrow> False | Some d \<Rightarrow> d \<le> now))"

definition builder_expiration :: "timestamp \<Rightarrow> event_builder \<Rightarrow> event_builder" where
  "builder_expiration ts b =
     (let k = tag_kind_from_wire EXPIRATION_TAG; t = tag_with k [show_word ts]
      in b\<lparr>b_tags := tags_replace_or_push k t (b_tags b)\<rparr>)"

section \<open>Deletion requests (NIP-09)\<close>

record deletion_request =
  dr_event_ids :: "event_id list"
  dr_coordinates :: "coordinate list"
  dr_kinds :: "kind list"
  dr_reason :: string

datatype deletion_error =
    UnexpectedKind kind
  | MissingTagValue string
  | InvalidEventId event_id_error
  | InvalidCoordinate coordinate_error
  | InvalidKindHint string

definition deletion_new :: deletion_request where
  "deletion_new = \<lparr>dr_event_ids = [], dr_coordinates = [], dr_kinds = [], dr_reason = []\<rparr>"

definition deletion_delete_event :: "event_id \<Rightarrow> deletion_request \<Rightarrow> deletion_request" where
  "deletion_delete_event i r = r\<lparr>dr_event_ids := dr_event_ids r @ [i]\<rparr>"

definition deletion_delete_events :: "event_id list \<Rightarrow> deletion_request \<Rightarrow> deletion_request" where
  "deletion_delete_events is r = r\<lparr>dr_event_ids := dr_event_ids r @ is\<rparr>"

definition deletion_delete_coordinate :: "coordinate \<Rightarrow> deletion_request \<Rightarrow> deletion_request" where
  "deletion_delete_coordinate c r = r\<lparr>dr_coordinates := dr_coordinates r @ [c]\<rparr>"

definition deletion_hint_kind :: "kind \<Rightarrow> deletion_request \<Rightarrow> deletion_request" where
  "deletion_hint_kind k r = r\<lparr>dr_kinds := dr_kinds r @ [k]\<rparr>"

definition deletion_with_reason :: "string \<Rightarrow> deletion_request \<Rightarrow> deletion_request" where
  "deletion_with_reason reason r = r\<lparr>dr_reason := reason\<rparr>"

definition deletion_to_tags :: "crates \<Rightarrow> deletion_request \<Rightarrow> tag list" where
  "deletion_to_tags X r =
     map (tag_e X) (dr_event_ids r) @ map (tag_a X) (dr_coordinates r) @ map tag_k (dr_kinds r)"

definition deletion_add_tag ::
  "crates \<Rightarrow> deletion_request \<Rightarrow> tag \<Rightarrow> deletion_error + deletion_request" where
  "deletion_add_tag X r t =
     (let head = tag_head t
      in if head = SingleLetter (lowercase_tag L_E) then
           res_bind (ok_or (MissingTagValue ''e'') (tag_get t 1)) (\<lambda>value.
           res_bind (map_err InvalidEventId (event_id_parse X value)) (\<lambda>i.
           Inr (r\<lparr>dr_event_ids := dr_event_ids r @ [i]\<rparr>)))
         else if head = SingleLetter (lowercase_tag L_A) then
           res_bind (ok_or (MissingTagValue ''a'') (tag_get t 1)) (\<lambda>value.
           res_bind (map_err InvalidCoordinate (coordinate_from_str X value)) (\<lambda>c.
           Inr (r\<lparr>dr_coordinates := dr_coordinates r @ [c]\<rparr>)))
         else if head = tag_kind_from_wire ''k'' then
           res_bind (ok_or (MissingTagValue ''k'') (tag_get t 1)) (\<lambda>value.
           res_bind (map_err (\<lambda>_. InvalidKindHint value) (parse_u16 value)) (\<lambda>raw.
           Inr (r\<lparr>dr_kinds := dr_kinds r @ [raw]\<rparr>)))
         else Inr r)"

fun deletion_add_tags ::
  "crates \<Rightarrow> deletion_request \<Rightarrow> tag list \<Rightarrow> deletion_error + deletion_request" where
  "deletion_add_tags X r [] = Inr r"
| "deletion_add_tags X r (t # ts) =
     res_bind (deletion_add_tag X r t) (\<lambda>r'. deletion_add_tags X r' ts)"

definition deletion_from_event :: "crates \<Rightarrow> event \<Rightarrow> deletion_error + deletion_request" where
  "deletion_from_event X e =
     (if ev_kind e \<noteq> EVENT_DELETION then Inl (UnexpectedKind (ev_kind e))
      else deletion_add_tags X (deletion_with_reason (ev_content e) deletion_new) (ev_tags e))"

definition builder_deletion :: "crates \<Rightarrow> deletion_request \<Rightarrow> event_builder" where
  "builder_deletion X r =
     builder_tags (deletion_to_tags X r) (builder_new EVENT_DELETION (dr_reason r))"

datatype authority_error = AuthorMismatch

definition validate_target_authority :: "event \<Rightarrow> public_key \<Rightarrow> authority_error + unit" where
  "validate_target_authority deletion target_author =
     (if ev_pubkey deletion = target_author then Inr () else Inl AuthorMismatch)"

section \<open>Lemmas\<close>

text \<open>What the code relies on of \<open>secp256k1\<close>: a signature made with a key verifies under its
  public key.\<close>

definition schnorr_laws :: "crates \<Rightarrow> bool" where
  "schnorr_laws X \<longleftrightarrow>
     (\<forall>sk msg. verify_schnorr_ok X (keypair_sign X sk msg) msg (keypair_public X sk))"

lemma sample_schnorr_laws: "schnorr_laws sample_crates"
  by (simp add: schnorr_laws_def sample_crates_def)

lemma tag_to_json_inject: "tag_to_json t = tag_to_json u \<longleftrightarrow> t = u"
  by (cases t; cases u) (simp add: tag_to_json_def inj_map_eq_map inj_def)

lemma canonical_value_inject:
  assumes "hex_laws X"
  shows "canonical_value X p c k ts s = canonical_value X p' c' k' ts' s' \<longleftrightarrow>
    p = p' \<and> c = c' \<and> k = k' \<and> ts = ts' \<and> s = s'"
  using assms
  by (auto simp: canonical_value_def public_key_to_hex_def hex_encode_inject tag_to_json_inject
      inj_map_eq_map inj_def simp flip: word_uint_eq_iff)

lemma sign_verifies_aux:
  assumes "schnorr_laws X" and "unsigned_sign_with_keys X u (keys_from_secret_key X sk) = Inr e"
  shows "verify X e = Inr () \<and> ev_pubkey e = keypair_public X sk"
  using assms
  by (auto simp: unsigned_sign_with_keys_def keys_from_secret_key_def keys_sign_schnorr_def Let_def
      verify_def verify_id_def verify_signature_def compute_id_def schnorr_laws_def split: if_splits)
    metis

lemma tags_expiration_eq:
  "tags_expiration (ev_tags e) = Option.bind (res_ok (parse_expiration e)) (\<lambda>x. x)"
  by (auto simp: tags_expiration_def parse_expiration_def EXPIRATION_TAG_def from_wire_two
      tag_content_def res_ok_def split: option.splits sum.splits)

lemma parse_expiration_builder:
  assumes "ev_tags e = items (b_tags (builder_expiration ts b))"
  shows "parse_expiration e = Inr (Some ts)"
    and "find_all (tag_kind_from_wire EXPIRATION_TAG) (ev_tags e) =
      tag_with (tag_kind_from_wire EXPIRATION_TAG) [show_word ts] #
        tl (find_all (tag_kind_from_wire EXPIRATION_TAG) (items (b_tags b)))"
proof -
  let ?k = "tag_kind_from_wire EXPIRATION_TAG"
  let ?t = "tag_with ?k [show_word ts]"
  have all: "find_all ?k (ev_tags e) = ?t # tl (find_all ?k (items (b_tags b)))"
    using assms by (simp add: builder_expiration_def tags_replace_or_push_def erase_indexes_def
        replace_or_push_filter tag_head_with_wire Let_def)
  then show "find_all ?k (ev_tags e) = ?t # tl (find_all ?k (items (b_tags b)))" .
  have "tag_get ?t 1 = Some (show_word ts)"
    using tag_with_simps(2) [of ?k "show_word ts" "[]"] by (simp add: tag_content_def)
  with all show "parse_expiration e = Inr (Some ts)"
    by (simp add: parse_expiration_def find_first_find_all)
qed

lemma letter_k_wire: "tag_kind_from_wire ''k'' = SingleLetter (lowercase_tag L_K)"
  using from_wire_single [of "lowercase_tag L_K"] by (simp add: slt_to_string_def as_char_def)

lemma tag_get_with: "tag_get (tag_with h (a # args)) (Suc 0) = Some a"
  by (simp add: tag_with_def tag_get_def)

lemma deletion_add_tag_wire:
  assumes "hex_laws X"
  shows "event_id_wf i \<Longrightarrow>
      deletion_add_tag X r (tag_e X i) = Inr (r\<lparr>dr_event_ids := dr_event_ids r @ [i]\<rparr>)"
    and "public_key_wf X (c_author c) \<Longrightarrow>
      deletion_add_tag X r (tag_a X c) = Inr (r\<lparr>dr_coordinates := dr_coordinates r @ [c]\<rparr>)"
    and "deletion_add_tag X r (tag_k k) = Inr (r\<lparr>dr_kinds := dr_kinds r @ [k]\<rparr>)"
  using assms
  by (simp_all add: deletion_add_tag_def tag_e_def tag_a_def tag_k_def Let_def letter_k_wire
      tag_get_with event_id_parse_hex coordinate_round_trip_aux)

lemma deletion_add_tags_append:
  "deletion_add_tags X r (ts @ us) =
     res_bind (deletion_add_tags X r ts) (\<lambda>r'. deletion_add_tags X r' us)"
  by (induction ts arbitrary: r) (auto simp: res_bind_def split: sum.splits)

lemma deletion_add_event_ids:
  "hex_laws X \<Longrightarrow> \<forall>i \<in> set is. event_id_wf i \<Longrightarrow>
   deletion_add_tags X r (map (tag_e X) is) = Inr (r\<lparr>dr_event_ids := dr_event_ids r @ is\<rparr>)"
  by (induction "is" arbitrary: r) (simp_all add: deletion_add_tag_wire)

lemma deletion_add_coordinates:
  "hex_laws X \<Longrightarrow> \<forall>c \<in> set cs. public_key_wf X (c_author c) \<Longrightarrow>
   deletion_add_tags X r (map (tag_a X) cs) = Inr (r\<lparr>dr_coordinates := dr_coordinates r @ cs\<rparr>)"
  by (induction cs arbitrary: r) (simp_all add: deletion_add_tag_wire)

lemma deletion_add_kinds:
  "hex_laws X \<Longrightarrow>
   deletion_add_tags X r (map tag_k ks) = Inr (r\<lparr>dr_kinds := dr_kinds r @ ks\<rparr>)"
  by (induction ks arbitrary: r) (simp_all add: deletion_add_tag_wire)

lemma deletion_round_trip_aux:
  assumes "hex_laws X" and "\<forall>i \<in> set (dr_event_ids r). event_id_wf i"
    and "\<forall>c \<in> set (dr_coordinates r). public_key_wf X (c_author c)"
  shows "deletion_add_tags X (deletion_with_reason (dr_reason r) deletion_new) (deletion_to_tags X r) = Inr r"
  using assms
  by (simp add: deletion_to_tags_def deletion_add_tags_append deletion_add_event_ids
      deletion_add_coordinates deletion_add_kinds deletion_new_def deletion_with_reason_def)

end
