(* ===== verification/Filter_Model.thy ===== *)
theory Filter_Model
  imports Event_Model "HOL-Library.Multiset"
begin

text \<open>
  The subscription filter (nula-core, filter.rs): its builder and remover methods, the
  extraction of the ids and keys it names, the order-independent fingerprint, the matcher
  (generic over the \<open>MatchableEvent\<close> trait, whose dictionary is the record \<open>matchable\<close>) and the
  JSON form. \<open>IndexMap\<close> is an association list in insertion order; \<open>usize\<close> is \<open>nat\<close>, bounded by
  \<open>2 ^ 64\<close> where a number is read from JSON. Decoding works on JSON values; the error values
  say which entry was refused.
\<close>

record match_event_options =
  allow_expired :: bool
  allow_future_dates :: bool
  opt_now :: "timestamp option"

definition match_options_new :: match_event_options where
  "match_options_new = \<lparr>allow_expired = True, allow_future_dates = True, opt_now = None\<rparr>"

definition match_options_strict :: "timestamp \<Rightarrow> match_event_options" where
  "match_options_strict now =
     \<lparr>allow_expired = False, allow_future_dates = False, opt_now = Some now\<rparr>"

definition options_allow_expired :: "bool \<Rightarrow> match_event_options \<Rightarrow> match_event_options" where
  "options_allow_expired enable opts = opts\<lparr>allow_expired := enable\<rparr>"

definition options_allow_future_dates :: "bool \<Rightarrow> match_event_options \<Rightarrow> match_event_options" where
  "options_allow_future_dates enable opts = opts\<lparr>allow_future_dates := enable\<rparr>"

definition options_now :: "timestamp \<Rightarrow> match_event_options \<Rightarrow> match_event_options" where
  "options_now ts opts = opts\<lparr>opt_now := Some ts\<rparr>"

record nostr_filter =
  f_ids :: "event_id list option"
  f_authors :: "public_key list option"
  f_kinds :: "kind list option"
  f_since :: "timestamp option"
  f_until :: "timestamp option"
  f_limit :: "nat option"
  f_search :: "string option"
  f_generic_tags :: "(single_letter_tag \<times> string list) list"

definition filter_new :: nostr_filter where
  "filter_new = \<lparr>f_ids = None, f_authors = None, f_kinds = None, f_since = None, f_until = None,
     f_limit = None, f_search = None, f_generic_tags = []\<rparr>"

section \<open>Builder methods\<close>

definition get_or_empty :: "'a list option \<Rightarrow> 'a list" where
  "get_or_empty b = (case b of None \<Rightarrow> [] | Some xs \<Rightarrow> xs)"

definition filter_id :: "event_id \<Rightarrow> nostr_filter \<Rightarrow> nostr_filter" where
  "filter_id i f = f\<lparr>f_ids := Some (push_new (get_or_empty (f_ids f)) i)\<rparr>"

definition filter_ids :: "event_id list \<Rightarrow> nostr_filter \<Rightarrow> nostr_filter" where
  "filter_ids is f = f\<lparr>f_ids := Some (extend_new (get_or_empty (f_ids f)) is)\<rparr>"

definition filter_author :: "public_key \<Rightarrow> nostr_filter \<Rightarrow> nostr_filter" where
  "filter_author pk f = f\<lparr>f_authors := Some (push_new (get_or_empty (f_authors f)) pk)\<rparr>"

definition filter_authors :: "public_key list \<Rightarrow> nostr_filter \<Rightarrow> nostr_filter" where
  "filter_authors pks f = f\<lparr>f_authors := Some (extend_new (get_or_empty (f_authors f)) pks)\<rparr>"

definition filter_kind :: "kind \<Rightarrow> nostr_filter \<Rightarrow> nostr_filter" where
  "filter_kind k f = f\<lparr>f_kinds := Some (push_new (get_or_empty (f_kinds f)) k)\<rparr>"

definition filter_kinds :: "kind list \<Rightarrow> nostr_filter \<Rightarrow> nostr_filter" where
  "filter_kinds ks f = f\<lparr>f_kinds := Some (extend_new (get_or_empty (f_kinds f)) ks)\<rparr>"

definition filter_since :: "timestamp \<Rightarrow> nostr_filter \<Rightarrow> nostr_filter" where
  "filter_since ts f = f\<lparr>f_since := Some ts\<rparr>"

definition filter_until :: "timestamp \<Rightarrow> nostr_filter \<Rightarrow> nostr_filter" where
  "filter_until ts f = f\<lparr>f_until := Some ts\<rparr>"

definition filter_limit :: "nat \<Rightarrow> nostr_filter \<Rightarrow> nostr_filter" where
  "filter_limit n f = f\<lparr>f_limit := Some n\<rparr>"

definition filter_search :: "string \<Rightarrow> nostr_filter \<Rightarrow> nostr_filter" where
  "filter_search s f = f\<lparr>f_search := Some s\<rparr>"

definition filter_custom_tag :: "single_letter_tag \<Rightarrow> string \<Rightarrow> nostr_filter \<Rightarrow> nostr_filter" where
  "filter_custom_tag letter value f =
     f\<lparr>f_generic_tags := hm_entry [] letter (\<lambda>bucket. push_new bucket value) (f_generic_tags f)\<rparr>"

definition filter_custom_tags :: "single_letter_tag \<Rightarrow> string list \<Rightarrow> nostr_filter \<Rightarrow> nostr_filter" where
  "filter_custom_tags letter values f =
     f\<lparr>f_generic_tags := hm_entry [] letter (\<lambda>bucket. extend_new bucket values) (f_generic_tags f)\<rparr>"

definition filter_event :: "crates \<Rightarrow> event_id \<Rightarrow> nostr_filter \<Rightarrow> nostr_filter" where
  "filter_event X i = filter_custom_tag (lowercase_tag L_E) (event_id_to_hex X i)"

definition filter_events :: "crates \<Rightarrow> event_id list \<Rightarrow> nostr_filter \<Rightarrow> nostr_filter" where
  "filter_events X is = filter_custom_tags (lowercase_tag L_E) (map (event_id_to_hex X) is)"

definition filter_pubkey :: "crates \<Rightarrow> public_key \<Rightarrow> nostr_filter \<Rightarrow> nostr_filter" where
  "filter_pubkey X pk = filter_custom_tag (lowercase_tag L_P) (public_key_to_hex X pk)"

definition filter_pubkeys :: "crates \<Rightarrow> public_key list \<Rightarrow> nostr_filter \<Rightarrow> nostr_filter" where
  "filter_pubkeys X pks = filter_custom_tags (lowercase_tag L_P) (map (public_key_to_hex X) pks)"

definition filter_hashtag :: "string \<Rightarrow> nostr_filter \<Rightarrow> nostr_filter" where
  "filter_hashtag h = filter_custom_tag (lowercase_tag L_T) h"

definition filter_hashtags :: "string list \<Rightarrow> nostr_filter \<Rightarrow> nostr_filter" where
  "filter_hashtags hs = filter_custom_tags (lowercase_tag L_T) hs"

definition filter_reference :: "string \<Rightarrow> nostr_filter \<Rightarrow> nostr_filter" where
  "filter_reference r = filter_custom_tag (lowercase_tag L_R) r"

definition filter_references :: "string list \<Rightarrow> nostr_filter \<Rightarrow> nostr_filter" where
  "filter_references rs = filter_custom_tags (lowercase_tag L_R) rs"

definition filter_identifier :: "string \<Rightarrow> nostr_filter \<Rightarrow> nostr_filter" where
  "filter_identifier d = filter_custom_tag (lowercase_tag L_D) d"

definition filter_identifiers :: "string list \<Rightarrow> nostr_filter \<Rightarrow> nostr_filter" where
  "filter_identifiers ds = filter_custom_tags (lowercase_tag L_D) ds"

definition filter_coordinate :: "crates \<Rightarrow> coordinate \<Rightarrow> nostr_filter \<Rightarrow> nostr_filter" where
  "filter_coordinate X c = filter_custom_tag (lowercase_tag L_A) (coordinate_to_wire X c)"

definition filter_coordinates :: "crates \<Rightarrow> coordinate list \<Rightarrow> nostr_filter \<Rightarrow> nostr_filter" where
  "filter_coordinates X cs = filter_custom_tags (lowercase_tag L_A) (map (coordinate_to_wire X) cs)"

text \<open>Removing the last entry of a bucket removes the bucket.\<close>

definition retain_not :: "'a list \<Rightarrow> 'a list option \<Rightarrow> 'a list option" where
  "retain_not dropped b =
     (case b of
        None \<Rightarrow> None
      | Some bucket \<Rightarrow>
          let bucket' = List.filter (\<lambda>x. x \<notin> set dropped) bucket
          in if bucket' = [] then None else Some bucket')"

definition filter_remove_ids :: "event_id list \<Rightarrow> nostr_filter \<Rightarrow> nostr_filter" where
  "filter_remove_ids is f = f\<lparr>f_ids := retain_not is (f_ids f)\<rparr>"

definition filter_remove_authors :: "public_key list \<Rightarrow> nostr_filter \<Rightarrow> nostr_filter" where
  "filter_remove_authors pks f = f\<lparr>f_authors := retain_not pks (f_authors f)\<rparr>"

definition filter_remove_kinds :: "kind list \<Rightarrow> nostr_filter \<Rightarrow> nostr_filter" where
  "filter_remove_kinds ks f = f\<lparr>f_kinds := retain_not ks (f_kinds f)\<rparr>"

definition filter_remove_custom_tags :: "single_letter_tag \<Rightarrow> string list \<Rightarrow> nostr_filter \<Rightarrow> nostr_filter" where
  "filter_remove_custom_tags letter dropped f =
     (case map_of (f_generic_tags f) letter of
        None \<Rightarrow> f
      | Some bucket \<Rightarrow>
          let bucket' = List.filter (\<lambda>v. v \<notin> set dropped) bucket
          in if bucket' = [] then f\<lparr>f_generic_tags := hm_remove letter (f_generic_tags f)\<rparr>
             else f\<lparr>f_generic_tags := hm_insert letter bucket' (f_generic_tags f)\<rparr>)"

definition filter_remove_events :: "crates \<Rightarrow> event_id list \<Rightarrow> nostr_filter \<Rightarrow> nostr_filter" where
  "filter_remove_events X is =
     filter_remove_custom_tags (lowercase_tag L_E) (map (event_id_to_hex X) is)"

definition filter_remove_pubkeys :: "crates \<Rightarrow> public_key list \<Rightarrow> nostr_filter \<Rightarrow> nostr_filter" where
  "filter_remove_pubkeys X pks =
     filter_remove_custom_tags (lowercase_tag L_P) (map (public_key_to_hex X) pks)"

definition filter_remove_hashtags :: "string list \<Rightarrow> nostr_filter \<Rightarrow> nostr_filter" where
  "filter_remove_hashtags hs = filter_remove_custom_tags (lowercase_tag L_T) hs"

definition filter_remove_references :: "string list \<Rightarrow> nostr_filter \<Rightarrow> nostr_filter" where
  "filter_remove_references rs = filter_remove_custom_tags (lowercase_tag L_R) rs"

definition filter_remove_identifiers :: "string list \<Rightarrow> nostr_filter \<Rightarrow> nostr_filter" where
  "filter_remove_identifiers ds = filter_remove_custom_tags (lowercase_tag L_D) ds"

definition filter_remove_coordinates :: "crates \<Rightarrow> coordinate list \<Rightarrow> nostr_filter \<Rightarrow> nostr_filter" where
  "filter_remove_coordinates X cs =
     filter_remove_custom_tags (lowercase_tag L_A) (map (coordinate_to_wire X) cs)"

definition filter_remove_since :: "nostr_filter \<Rightarrow> nostr_filter" where
  "filter_remove_since f = f\<lparr>f_since := None\<rparr>"

definition filter_remove_until :: "nostr_filter \<Rightarrow> nostr_filter" where
  "filter_remove_until f = f\<lparr>f_until := None\<rparr>"

definition filter_remove_limit :: "nostr_filter \<Rightarrow> nostr_filter" where
  "filter_remove_limit f = f\<lparr>f_limit := None\<rparr>"

definition filter_remove_search :: "nostr_filter \<Rightarrow> nostr_filter" where
  "filter_remove_search f = f\<lparr>f_search := None\<rparr>"

section \<open>Reading a filter\<close>

definition push_unique :: "'a list \<Rightarrow> 'a list" where
  "push_unique xs = extend_new [] xs"

definition dedup_preserving_order :: "'a list \<Rightarrow> 'a list" where
  "dedup_preserving_order xs = extend_new [] xs"

definition extract_public_keys :: "crates \<Rightarrow> nostr_filter \<Rightarrow> public_key list" where
  "extract_public_keys X f =
     push_unique (get_or_empty (f_authors f) @
       List.map_filter (\<lambda>hex. res_ok (public_key_parse X hex))
         (get_or_empty (map_of (f_generic_tags f) (lowercase_tag L_P))))"

definition extract_event_ids :: "crates \<Rightarrow> nostr_filter \<Rightarrow> event_id list" where
  "extract_event_ids X f =
     push_unique (get_or_empty (f_ids f) @
       List.map_filter (\<lambda>hex. res_ok (event_id_parse X hex))
         (get_or_empty (map_of (f_generic_tags f) (lowercase_tag L_E))))"

definition filter_is_empty :: "nostr_filter \<Rightarrow> bool" where
  "filter_is_empty f \<longleftrightarrow>
     f_ids f = None \<and> f_authors f = None \<and> f_kinds f = None \<and> f_since f = None \<and>
     f_until f = None \<and> f_limit f = None \<and> f_search f = None \<and> f_generic_tags f = []"

definition json_to_string :: "crates \<Rightarrow> json \<Rightarrow> string" where
  "json_to_string X j = map (\<lambda>b. char_of (unat b)) (json_bytes X j)"

definition json_array :: "crates \<Rightarrow> string list \<Rightarrow> string" where
  "json_array X vs = json_to_string X (JArr (map JStr vs))"

definition opt_part :: "('a \<Rightarrow> string) \<Rightarrow> 'a option \<Rightarrow> string list" where
  "opt_part g x = (case x of None \<Rightarrow> [] | Some v \<Rightarrow> [g v])"

fun join_lines :: "string list \<Rightarrow> string" where
  "join_lines [] = []"
| "join_lines [p] = p"
| "join_lines (p # ps) = p @ [CHR 0x0A] @ join_lines ps"

definition tag_part :: "crates \<Rightarrow> single_letter_tag \<times> string list \<Rightarrow> string" where
  "tag_part X lv = ''#'' @ slt_to_string (fst lv) @ '':'' @ json_array X (sort (snd lv))"

definition fingerprint :: "crates \<Rightarrow> nostr_filter \<Rightarrow> string" where
  "fingerprint X f =
     join_lines
       (opt_part (\<lambda>ids. ''ids:'' @ json_array X (sort (map (event_id_to_hex X) ids))) (f_ids f) @
        opt_part (\<lambda>pks. ''authors:'' @ json_array X (sort (map (public_key_to_hex X) pks))) (f_authors f) @
        opt_part (\<lambda>ks. ''kinds:'' @ json_to_string X (JArr (map (\<lambda>k. JNum (uint k)) (sort ks)))) (f_kinds f) @
        opt_part (\<lambda>s. ''since:'' @ show_word s) (f_since f) @
        opt_part (\<lambda>u. ''until:'' @ show_word u) (f_until f) @
        opt_part (\<lambda>n. ''limit:'' @ show_nat n) (f_limit f) @
        opt_part (\<lambda>s. ''search:'' @ json_array X [s]) (f_search f) @
        sort (map (tag_part X) (f_generic_tags f)))"

section \<open>Matching\<close>

record 'e matchable =
  matchable_id :: "'e \<Rightarrow> event_id"
  matchable_pubkey_bytes :: "'e \<Rightarrow> bytes"
  matchable_kind :: "'e \<Rightarrow> kind"
  matchable_created_at :: "'e \<Rightarrow> timestamp"
  matchable_has_tag :: "'e \<Rightarrow> single_letter_tag \<Rightarrow> string list \<Rightarrow> bool"
  matchable_expiration :: "'e \<Rightarrow> timestamp option"

definition generic_tags_match ::
  "'e matchable \<Rightarrow> (single_letter_tag \<times> string list) list \<Rightarrow> 'e \<Rightarrow> bool" where
  "generic_tags_match M gts e \<longleftrightarrow> list_all (\<lambda>lv. matchable_has_tag M e (fst lv) (snd lv)) gts"

definition match_event :: "'e matchable \<Rightarrow> nostr_filter \<Rightarrow> 'e \<Rightarrow> match_event_options \<Rightarrow> bool" where
  "match_event M f e opts =
     (if (case f_ids f of Some ids \<Rightarrow> matchable_id M e \<notin> set ids | None \<Rightarrow> False) then False
      else if (case f_authors f of
                 Some authors \<Rightarrow> \<not> list_ex (\<lambda>a. a = matchable_pubkey_bytes M e) authors
               | None \<Rightarrow> False) then False
      else if (case f_kinds f of Some kinds \<Rightarrow> matchable_kind M e \<notin> set kinds | None \<Rightarrow> False) then False
      else let created_at = matchable_created_at M e in
      if (case f_since f of Some since \<Rightarrow> created_at < since | None \<Rightarrow> False) then False
      else if (case f_until f of Some until \<Rightarrow> created_at > until | None \<Rightarrow> False) then False
      else if \<not> generic_tags_match M (f_generic_tags f) e then False
      else case opt_now opts of
             None \<Rightarrow> True
           | Some now \<Rightarrow>
               if \<not> allow_future_dates opts \<and> created_at > now then False
               else if \<not> allow_expired opts \<and>
                       (case matchable_expiration M e of Some deadline \<Rightarrow> now \<ge> deadline | None \<Rightarrow> False)
                    then False
               else True)"

definition event_has_tag :: "event \<Rightarrow> single_letter_tag \<Rightarrow> string list \<Rightarrow> bool" where
  "event_has_tag e letter values =
     (case map_of (build_indexes (ev_tags e)) letter of
        None \<Rightarrow> False
      | Some present \<Rightarrow> list_ex (\<lambda>v. v \<in> set present) values)"

definition event_matchable :: "event matchable" where
  "event_matchable = \<lparr>
     matchable_id = ev_id,
     matchable_pubkey_bytes = ev_pubkey,
     matchable_kind = ev_kind,
     matchable_created_at = ev_created_at,
     matchable_has_tag = event_has_tag,
     matchable_expiration = (\<lambda>e. Option.bind (res_ok (parse_expiration e)) (\<lambda>x. x))\<rparr>"

section \<open>JSON form\<close>

definition is_lowercase_hex_64 :: "string \<Rightarrow> bool" where
  "is_lowercase_hex_64 value \<longleftrightarrow>
     length value = 64 \<and>
     list_all (\<lambda>b. is_ascii_digit b \<or> (97 \<le> (of_char b :: nat) \<and> (of_char b :: nat) \<le> 102)) value"

definition tag_filter_key :: "single_letter_tag \<Rightarrow> string" where
  "tag_filter_key letter = [CHR ''#'', as_char letter]"

datatype filter_de_error =
    DeTagKey single_letter_tag_error
  | DeHexValue single_letter_tag string
  | DeEventId event_id_error
  | DePublicKey public_key_error
  | DeType

definition validate_hex_filter_values ::
  "single_letter_tag \<Rightarrow> string list \<Rightarrow> filter_de_error + unit" where
  "validate_hex_filter_values letter values =
     (let needs_hex = (letter = lowercase_tag L_E \<or> letter = lowercase_tag L_P)
      in if \<not> needs_hex then Inr ()
         else case List.find (\<lambda>v. \<not> is_lowercase_hex_64 v) values of
                Some v \<Rightarrow> Inl (DeHexValue letter v)
              | None \<Rightarrow> Inr ())"

definition opt_entry :: "string \<Rightarrow> ('a \<Rightarrow> json) \<Rightarrow> 'a option \<Rightarrow> (string \<times> json) list" where
  "opt_entry key g x = (case x of None \<Rightarrow> [] | Some v \<Rightarrow> [(key, g v)])"

definition filter_serialize :: "crates \<Rightarrow> nostr_filter \<Rightarrow> json" where
  "filter_serialize X f = JObj
     (opt_entry ''ids'' (\<lambda>ids. JArr (map (\<lambda>i. JStr (fmt_lower i)) ids)) (f_ids f) @
      opt_entry ''authors'' (\<lambda>pks. JArr (map (\<lambda>p. JStr (fmt_lower p)) pks)) (f_authors f) @
      opt_entry ''kinds'' (\<lambda>ks. JArr (map (\<lambda>k. JNum (uint k)) ks)) (f_kinds f) @
      opt_entry ''since'' (\<lambda>s. JNum (uint s)) (f_since f) @
      opt_entry ''until'' (\<lambda>u. JNum (uint u)) (f_until f) @
      opt_entry ''limit'' (\<lambda>n. JNum (int n)) (f_limit f) @
      opt_entry ''search'' JStr (f_search f) @
      map (\<lambda>lv. (tag_filter_key (fst lv), JArr (map JStr (snd lv)))) (f_generic_tags f))"

fun de_list :: "(json \<Rightarrow> 'e + 'a) \<Rightarrow> json list \<Rightarrow> 'e + 'a list" where
  "de_list d [] = Inr []"
| "de_list d (j # js) = res_bind (d j) (\<lambda>x. res_bind (de_list d js) (\<lambda>xs. Inr (x # xs)))"

definition de_array :: "(json \<Rightarrow> filter_de_error + 'a) \<Rightarrow> json \<Rightarrow> filter_de_error + 'a list" where
  "de_array d j = (case j of JArr js \<Rightarrow> de_list d js | _ \<Rightarrow> Inl DeType)"

definition de_string :: "json \<Rightarrow> filter_de_error + string" where
  "de_string j = (case j of JStr s \<Rightarrow> Inr s | _ \<Rightarrow> Inl DeType)"

definition de_uint :: "int \<Rightarrow> json \<Rightarrow> filter_de_error + int" where
  "de_uint bound j =
     (case j of JNum n \<Rightarrow> if 0 \<le> n \<and> n < bound then Inr n else Inl DeType | _ \<Rightarrow> Inl DeType)"

definition de_u16 :: "json \<Rightarrow> filter_de_error + u16" where
  "de_u16 j = res_bind (de_uint (2 ^ 16) j) (\<lambda>n. Inr (word_of_int n))"

definition de_u64 :: "json \<Rightarrow> filter_de_error + u64" where
  "de_u64 j = res_bind (de_uint (2 ^ 64) j) (\<lambda>n. Inr (word_of_int n))"

definition de_usize :: "json \<Rightarrow> filter_de_error + nat" where
  "de_usize j = res_bind (de_uint (2 ^ 64) j) (\<lambda>n. Inr (nat n))"

definition de_event_id :: "crates \<Rightarrow> json \<Rightarrow> filter_de_error + event_id" where
  "de_event_id X j = res_bind (de_string j) (\<lambda>raw. map_err DeEventId (event_id_parse X raw))"

definition de_public_key :: "crates \<Rightarrow> json \<Rightarrow> filter_de_error + public_key" where
  "de_public_key X j = res_bind (de_string j) (\<lambda>raw. map_err DePublicKey (public_key_parse X raw))"

definition deserialize_filter_entry ::
  "crates \<Rightarrow> nostr_filter \<Rightarrow> string \<Rightarrow> json \<Rightarrow> filter_de_error + nostr_filter" where
  "deserialize_filter_entry X f key v =
     (case key of
        CHR ''#'' # letter_str \<Rightarrow>
          res_bind (map_err DeTagKey (slt_from_str letter_str)) (\<lambda>letter.
          res_bind (de_array de_string v) (\<lambda>values.
          res_bind (validate_hex_filter_values letter values) (\<lambda>_.
          Inr (f\<lparr>f_generic_tags :=
            hm_insert letter (dedup_preserving_order values) (f_generic_tags f)\<rparr>))))
      | _ \<Rightarrow>
          if key = ''ids'' then
            res_bind (de_array (de_event_id X) v) (\<lambda>x. Inr (f\<lparr>f_ids := Some x\<rparr>))
          else if key = ''authors'' then
            res_bind (de_array (de_public_key X) v) (\<lambda>x. Inr (f\<lparr>f_authors := Some x\<rparr>))
          else if key = ''kinds'' then
            res_bind (de_array de_u16 v) (\<lambda>x. Inr (f\<lparr>f_kinds := Some x\<rparr>))
          else if key = ''since'' then
            res_bind (de_u64 v) (\<lambda>x. Inr (f\<lparr>f_since := Some x\<rparr>))
          else if key = ''until'' then
            res_bind (de_u64 v) (\<lambda>x. Inr (f\<lparr>f_until := Some x\<rparr>))
          else if key = ''limit'' then
            res_bind (de_usize v) (\<lambda>x. Inr (f\<lparr>f_limit := Some x\<rparr>))
          else if key = ''search'' then
            res_bind (de_string v) (\<lambda>x. Inr (f\<lparr>f_search := Some x\<rparr>))
          else Inr f)"

fun filter_visit_map ::
  "crates \<Rightarrow> nostr_filter \<Rightarrow> (string \<times> json) list \<Rightarrow> filter_de_error + nostr_filter" where
  "filter_visit_map X f [] = Inr f"
| "filter_visit_map X f (e # es) =
     res_bind (deserialize_filter_entry X f (fst e) (snd e)) (\<lambda>f'. filter_visit_map X f' es)"

definition filter_deserialize :: "crates \<Rightarrow> json \<Rightarrow> filter_de_error + nostr_filter" where
  "filter_deserialize X j =
     (case j of JObj es \<Rightarrow> filter_visit_map X filter_new es | _ \<Rightarrow> Inl DeType)"

section \<open>The declarative meaning of a filter\<close>

text \<open>NIP-01: the constraints that are set are a conjunction; each is a disjunction of its
  values; a tag constraint asks for some tag of that letter with one of the values.\<close>

definition opt_all :: "('a \<Rightarrow> bool) \<Rightarrow> 'a option \<Rightarrow> bool" where
  "opt_all P x = (case x of None \<Rightarrow> True | Some v \<Rightarrow> P v)"

definition has_tag_value :: "tag list \<Rightarrow> single_letter_tag \<Rightarrow> string list \<Rightarrow> bool" where
  "has_tag_value ts letter values \<longleftrightarrow>
     (\<exists>t \<in> set ts. \<exists>v \<in> set values. tag_name t = slt_to_string letter \<and> tag_content t = Some v)"

definition filter_selects :: "nostr_filter \<Rightarrow> event \<Rightarrow> bool" where
  "filter_selects f e \<longleftrightarrow>
     opt_all (\<lambda>ids. ev_id e \<in> set ids) (f_ids f) \<and>
     opt_all (\<lambda>authors. ev_pubkey e \<in> set authors) (f_authors f) \<and>
     opt_all (\<lambda>kinds. ev_kind e \<in> set kinds) (f_kinds f) \<and>
     opt_all (\<lambda>since. since \<le> ev_created_at e) (f_since f) \<and>
     opt_all (\<lambda>until. ev_created_at e \<le> until) (f_until f) \<and>
     (\<forall>lv \<in> set (f_generic_tags f). has_tag_value (ev_tags e) (fst lv) (snd lv))"

definition opts_admit :: "match_event_options \<Rightarrow> event \<Rightarrow> bool" where
  "opts_admit opts e \<longleftrightarrow>
     opt_all (\<lambda>now.
       (allow_future_dates opts \<or> ev_created_at e \<le> now) \<and>
       (allow_expired opts \<or> is_expired e now \<noteq> Inr True)) (opt_now opts)"

lemma opt_all_simps [simp]: "opt_all P None" "opt_all P (Some x) = P x"
  by (simp_all add: opt_all_def)

section \<open>Lemmas on matching\<close>

lemma hm_set_mem: "(\<exists>s. map_of m k = Some s \<and> v \<in> set s) \<longleftrightarrow> v \<in> hm_set m k"
  by (auto simp: hm_set_def split: option.splits)

lemma event_has_tag_iff: "event_has_tag e l vs \<longleftrightarrow> has_tag_value (ev_tags e) l vs"
proof -
  have "event_has_tag e l vs \<longleftrightarrow> (\<exists>v \<in> set vs. v \<in> hm_set (build_indexes (ev_tags e)) l)"
    by (auto simp: event_has_tag_def hm_set_def list_ex_iff split: option.splits)
  then show ?thesis
    using build_indexes_spec [of "ev_tags e" l]
    by (auto simp: has_tag_value_def tag_single_letter_iff)
qed

lemma is_expired_True_iff:
  "is_expired e now = Inr True \<longleftrightarrow>
     (\<exists>d. matchable_expiration event_matchable e = Some d \<and> d \<le> now)"
  by (cases "parse_expiration e")
    (auto simp: is_expired_def event_matchable_def split: option.splits)

lemma match_event_selects:
  "match_event event_matchable f e opts \<longleftrightarrow> filter_selects f e \<and> opts_admit opts e"
proof -
  have tags: "generic_tags_match event_matchable (f_generic_tags f) e \<longleftrightarrow>
      (\<forall>lv \<in> set (f_generic_tags f). has_tag_value (ev_tags e) (fst lv) (snd lv))"
    by (simp add: generic_tags_match_def list_all_iff event_has_tag_iff event_matchable_def)
  have sel: "matchable_id event_matchable e = ev_id e"
    "matchable_pubkey_bytes event_matchable e = ev_pubkey e"
    "matchable_kind event_matchable e = ev_kind e"
    "matchable_created_at event_matchable e = ev_created_at e"
    by (simp_all add: event_matchable_def)
  have now: "opts_admit opts e \<longleftrightarrow>
      (case opt_now opts of None \<Rightarrow> True
       | Some now \<Rightarrow> \<not> (\<not> allow_future_dates opts \<and> ev_created_at e > now) \<and>
           \<not> (\<not> allow_expired opts \<and>
             (case matchable_expiration event_matchable e of Some d \<Rightarrow> now \<ge> d | None \<Rightarrow> False)))"
    by (auto simp: opts_admit_def is_expired_True_iff not_less split: option.splits)
  show ?thesis
    unfolding match_event_def filter_selects_def tags sel now
    by (cases "f_ids f"; cases "f_authors f"; cases "f_kinds f"; cases "f_since f";
        cases "f_until f") (auto simp: Let_def list_ex_iff not_less split: option.splits)
qed

lemma match_event_default:
  "match_event event_matchable f e match_options_new = filter_selects f e"
  by (simp add: match_event_selects opts_admit_def match_options_new_def)

text \<open>
  The contract of the \<open>MatchableEvent\<close> trait: an implementor presents the fields of some event,
  and then every implementor matches as that event does.
\<close>

locale matchable_view =
  fixes M :: "'e matchable" and view :: "'e \<Rightarrow> event"
  assumes view_id: "matchable_id M x = ev_id (view x)"
    and view_pubkey: "matchable_pubkey_bytes M x = ev_pubkey (view x)"
    and view_kind: "matchable_kind M x = ev_kind (view x)"
    and view_created: "matchable_created_at M x = ev_created_at (view x)"
    and view_tag: "matchable_has_tag M x l vs = has_tag_value (ev_tags (view x)) l vs"
    and view_expiration: "matchable_expiration M x = tags_expiration (ev_tags (view x))"
begin

lemma match_event_view: "match_event M f x opts = match_event event_matchable f (view x) opts"
proof -
  have expi: "matchable_expiration M x = matchable_expiration event_matchable (view x)"
    by (simp add: view_expiration tags_expiration_eq event_matchable_def)
  have tags: "generic_tags_match M gts x = generic_tags_match event_matchable gts (view x)" for gts
    by (simp add: generic_tags_match_def view_tag event_matchable_def event_has_tag_iff)
  have flds: "matchable_id M x = matchable_id event_matchable (view x)"
    "matchable_pubkey_bytes M x = matchable_pubkey_bytes event_matchable (view x)"
    "matchable_kind M x = matchable_kind event_matchable (view x)"
    "matchable_created_at M x = matchable_created_at event_matchable (view x)"
    by (simp_all add: view_id view_pubkey view_kind view_created event_matchable_def)
  show ?thesis unfolding match_event_def expi tags flds ..
qed

lemma match_event_view_selects:
  "match_event M f x opts \<longleftrightarrow> filter_selects f (view x) \<and> opts_admit opts (view x)"
  by (simp add: match_event_view match_event_selects)

end

interpretation event_view: matchable_view event_matchable "\<lambda>e. e"
  by unfold_locales
    (simp_all add: event_matchable_def event_has_tag_iff tags_expiration_eq)

section \<open>Lemmas on fingerprints\<close>

definition same_constraints :: "nostr_filter \<Rightarrow> nostr_filter \<Rightarrow> bool" where
  "same_constraints f g \<longleftrightarrow>
     rel_option (\<lambda>xs ys. mset xs = mset ys) (f_ids f) (f_ids g) \<and>
     rel_option (\<lambda>xs ys. mset xs = mset ys) (f_authors f) (f_authors g) \<and>
     rel_option (\<lambda>xs ys. mset xs = mset ys) (f_kinds f) (f_kinds g) \<and>
     f_since f = f_since g \<and> f_until f = f_until g \<and> f_limit f = f_limit g \<and>
     f_search f = f_search g \<and>
     mset (map (\<lambda>lv. (fst lv, mset (snd lv))) (f_generic_tags f)) =
     mset (map (\<lambda>lv. (fst lv, mset (snd lv))) (f_generic_tags g))"

lemma sort_mset_cong: "mset xs = mset ys \<Longrightarrow> sort xs = sort ys"
  by (rule properties_for_sort) auto

lemma opt_part_cong:
  "rel_option R a b \<Longrightarrow> (\<And>x y. R x y \<Longrightarrow> g x = g y) \<Longrightarrow> opt_part g a = opt_part g b"
  by (cases a; cases b) (auto simp: opt_part_def)

lemma sort_map_cong: "mset xs = mset ys \<Longrightarrow> sort (map g xs) = sort (map g ys)"
  by (rule sort_mset_cong) (metis mset_map)

lemma tag_parts_cong:
  assumes "mset (map (\<lambda>lv. (fst lv, mset (snd lv))) a) = mset (map (\<lambda>lv. (fst lv, mset (snd lv))) b)"
  shows "sort (map (tag_part X) a) = sort (map (tag_part X) b)"
proof (rule sort_mset_cong)
  let ?p = "\<lambda>ls. ''#'' @ slt_to_string (fst ls) @ '':'' @ json_array X (sorted_list_of_multiset (snd ls))"
  have "tag_part X = ?p \<circ> (\<lambda>lv. (fst lv, mset (snd lv)))"
    by (rule ext) (simp add: tag_part_def)
  then have parts: "map (tag_part X) c = map ?p (map (\<lambda>lv. (fst lv, mset (snd lv))) c)" for c
    by (simp only: map_map)
  show "mset (map (tag_part X) a) = mset (map (tag_part X) b)"
    unfolding parts mset_map [of ?p] assms ..
qed

section \<open>Lemmas on the JSON form\<close>

definition filter_wf :: "crates \<Rightarrow> nostr_filter \<Rightarrow> bool" where
  [inv_simps]: "filter_wf X f \<longleftrightarrow>
     opt_all (\<lambda>ids. \<forall>i \<in> set ids. event_id_wf i) (f_ids f) \<and>
     opt_all (\<lambda>pks. \<forall>p \<in> set pks. public_key_wf X p) (f_authors f) \<and>
     opt_all (\<lambda>n. n < 2 ^ 64) (f_limit f) \<and>
     distinct (map fst (f_generic_tags f)) \<and>
     (\<forall>lv \<in> set (f_generic_tags f). distinct (snd lv) \<and>
        (fst lv = lowercase_tag L_E \<or> fst lv = lowercase_tag L_P \<longrightarrow>
          (\<forall>v \<in> set (snd lv). is_lowercase_hex_64 v)))"

lemma de_list_map:
  "\<forall>x \<in> set xs. d (g x) = Inr x \<Longrightarrow> de_list d (map g xs) = Inr xs"
  by (induction xs) simp_all

lemma de_array_map: "\<forall>x \<in> set xs. d (g x) = Inr x \<Longrightarrow> de_array d (JArr (map g xs)) = Inr xs"
  by (simp add: de_array_def de_list_map)

lemma de_uint_word: "LENGTH('a::len) \<le> n \<Longrightarrow> de_uint (2 ^ n) (JNum (uint (w :: 'a word))) = Inr (uint w)"
proof -
  assume "LENGTH('a) \<le> n"
  then have "uint w < 2 ^ n"
    using unsigned_less [of w] by (meson less_le_trans one_le_numeral power_increasing)
  then show ?thesis by (simp add: de_uint_def)
qed

lemma de_words:
  "de_u16 (JNum (uint k)) = Inr k" "de_u64 (JNum (uint t)) = Inr t"
  "n < 2 ^ 64 \<Longrightarrow> de_usize (JNum (int n)) = Inr n"
proof -
  show "de_u16 (JNum (uint k)) = Inr k" using de_uint_word [of 16 k] by (simp add: de_u16_def)
  show "de_u64 (JNum (uint t)) = Inr t" using de_uint_word [of 64 t] by (simp add: de_u64_def)
  assume "n < 2 ^ 64"
  then have "int n < 2 ^ 64" by (metis of_nat_less_iff of_nat_numeral of_nat_power)
  then show "de_usize (JNum (int n)) = Inr n" by (simp add: de_usize_def de_uint_def)
qed

lemma de_ids:
  assumes "hex_laws X"
  shows "event_id_wf i \<Longrightarrow> de_event_id X (JStr (fmt_lower i)) = Inr i"
    and "public_key_wf X p \<Longrightarrow> de_public_key X (JStr (fmt_lower p)) = Inr p"
  using assms event_id_parse_hex [of X i] public_key_parse_hex [of X p]
  by (simp_all add: de_event_id_def de_public_key_def de_string_def event_id_to_hex_def
      public_key_to_hex_def hex_encode_def hex_laws_def)

lemma filter_visit_map_append:
  "filter_visit_map X f (es @ fs) =
     res_bind (filter_visit_map X f es) (\<lambda>f'. filter_visit_map X f' fs)"
  by (induction es arbitrary: f) (auto simp: res_bind_def split: sum.splits)

lemma visit_tag_entry:
  assumes "distinct vs"
    and "l = lowercase_tag L_E \<or> l = lowercase_tag L_P \<Longrightarrow> \<forall>v \<in> set vs. is_lowercase_hex_64 v"
  shows "deserialize_filter_entry X f (tag_filter_key l) (JArr (map JStr vs)) =
    Inr (f\<lparr>f_generic_tags := hm_insert l vs (f_generic_tags f)\<rparr>)"
proof -
  have "de_array de_string (JArr (map JStr vs)) = Inr vs"
    by (simp add: de_array_map de_string_def)
  moreover have "validate_hex_filter_values l vs = Inr ()"
    using assms(2) by (auto simp: validate_hex_filter_values_def Let_def find_Some_iff
        split: option.splits)
  moreover have "slt_from_str [as_char l] = Inr l"
    using letter_wire.round_trip [of l] by (simp add: slt_to_string_def)
  ultimately show ?thesis
    using assms(1) extend_new_id [of "[]" vs]
    by (simp add: deserialize_filter_entry_def tag_filter_key_def dedup_preserving_order_def)
qed

lemma visit_tag_entries:
  assumes "distinct (map fst (gts @ lvs))"
    and "\<forall>lv \<in> set lvs. distinct (snd lv) \<and>
      (fst lv = lowercase_tag L_E \<or> fst lv = lowercase_tag L_P \<longrightarrow>
        (\<forall>v \<in> set (snd lv). is_lowercase_hex_64 v))"
    and "f_generic_tags f = gts"
  shows "filter_visit_map X f (map (\<lambda>lv. (tag_filter_key (fst lv), JArr (map JStr (snd lv)))) lvs) =
    Inr (f\<lparr>f_generic_tags := gts @ lvs\<rparr>)"
  using assms
proof (induction lvs arbitrary: f gts)
  case Nil
  then show ?case by simp
next
  case (Cons lv lvs)
  have "map_of gts (fst lv) = None"
    using Cons.prems(1) by (auto simp: map_of_eq_None_iff)
  then have "hm_insert (fst lv) (snd lv) gts = gts @ [lv]"
    by (simp add: hm_insert_def update_absent)
  moreover have "deserialize_filter_entry X f (tag_filter_key (fst lv)) (JArr (map JStr (snd lv))) =
      Inr (f\<lparr>f_generic_tags := hm_insert (fst lv) (snd lv) (f_generic_tags f)\<rparr>)"
    by (rule visit_tag_entry) (use Cons.prems(2) in auto)
  ultimately show ?case
    using Cons.IH [of "gts @ [lv]" "f\<lparr>f_generic_tags := gts @ [lv]\<rparr>"] Cons.prems by simp
qed

lemma visit_ids:
  assumes "hex_laws X" and "filter_wf X f" and "f_ids h = None"
  shows "filter_visit_map X h (opt_entry ''ids'' (\<lambda>ids. JArr (map (\<lambda>i. JStr (fmt_lower i)) ids)) (f_ids f)) = Inr (h\<lparr>f_ids := f_ids f\<rparr>)"
  using assms by (cases "f_ids f"; cases h)
    (simp_all add: opt_entry_def deserialize_filter_entry_def filter_wf_def de_array_map de_ids)

lemma visit_authors:
  assumes "hex_laws X" and "filter_wf X f" and "f_authors h = None"
  shows "filter_visit_map X h (opt_entry ''authors'' (\<lambda>pks. JArr (map (\<lambda>p. JStr (fmt_lower p)) pks)) (f_authors f)) = Inr (h\<lparr>f_authors := f_authors f\<rparr>)"
  using assms by (cases "f_authors f"; cases h)
    (simp_all add: opt_entry_def deserialize_filter_entry_def filter_wf_def de_array_map de_ids)

lemma visit_kinds:
  assumes "hex_laws X" and "filter_wf X f" and "f_kinds h = None"
  shows "filter_visit_map X h (opt_entry ''kinds'' (\<lambda>ks. JArr (map (\<lambda>k. JNum (uint k)) ks)) (f_kinds f)) = Inr (h\<lparr>f_kinds := f_kinds f\<rparr>)"
  using assms by (cases "f_kinds f"; cases h)
    (simp_all add: opt_entry_def deserialize_filter_entry_def filter_wf_def de_array_map de_words)

lemma visit_since:
  assumes "hex_laws X" and "filter_wf X f" and "f_since h = None"
  shows "filter_visit_map X h (opt_entry ''since'' (\<lambda>s. JNum (uint s)) (f_since f)) = Inr (h\<lparr>f_since := f_since f\<rparr>)"
  using assms by (cases "f_since f"; cases h)
    (simp_all add: opt_entry_def deserialize_filter_entry_def filter_wf_def de_words)

lemma visit_until:
  assumes "hex_laws X" and "filter_wf X f" and "f_until h = None"
  shows "filter_visit_map X h (opt_entry ''until'' (\<lambda>u. JNum (uint u)) (f_until f)) = Inr (h\<lparr>f_until := f_until f\<rparr>)"
  using assms by (cases "f_until f"; cases h)
    (simp_all add: opt_entry_def deserialize_filter_entry_def filter_wf_def de_words)

lemma visit_limit:
  assumes "hex_laws X" and "filter_wf X f" and "f_limit h = None"
  shows "filter_visit_map X h (opt_entry ''limit'' (\<lambda>n. JNum (int n)) (f_limit f)) = Inr (h\<lparr>f_limit := f_limit f\<rparr>)"
  using assms by (cases "f_limit f"; cases h)
    (simp_all add: opt_entry_def deserialize_filter_entry_def filter_wf_def de_words)

lemma visit_search:
  assumes "hex_laws X" and "filter_wf X f" and "f_search h = None"
  shows "filter_visit_map X h (opt_entry ''search'' JStr (f_search f)) = Inr (h\<lparr>f_search := f_search f\<rparr>)"
  using assms by (cases "f_search f"; cases h)
    (simp_all add: opt_entry_def deserialize_filter_entry_def filter_wf_def de_string_def)

lemma filter_round_trip_aux:
  assumes "hex_laws X" and "filter_wf X f"
  shows "filter_deserialize X (filter_serialize X f) = Inr f"
proof -
  have tags: "filter_visit_map X h
      (map (\<lambda>lv. (tag_filter_key (fst lv), JArr (map JStr (snd lv)))) (f_generic_tags f)) =
      Inr (h\<lparr>f_generic_tags := f_generic_tags f\<rparr>)" if "f_generic_tags h = []" for h
    using visit_tag_entries [of "[]" "f_generic_tags f" h X] that assms(2)
    by (simp add: filter_wf_def)
  show ?thesis
    using assms
    by (simp add: filter_deserialize_def filter_serialize_def filter_visit_map_append visit_ids
        visit_authors visit_kinds visit_since visit_until visit_limit visit_search tags filter_new_def)
qed

end
