(* ===== verification/Result_Set.thy ===== *)
theory Result_Set
  imports Filter_Model
begin

text \<open>
  The vocabulary of \<open>nula-storage\<close>: the outcomes of saving and looking up (status.rs), the
  composite key every sorted index uses (memory/store.rs) with its order, newest first and
  then by ascending id, and the sorted, deduplicated result set \<open>Events\<close> (events.rs).
\<close>

section \<open>Outcomes (status.rs)\<close>

datatype rejected_reason =
  Duplicate | Ephemeral | Deleted | Expired | Replaced | Vanished | InvalidDelete

datatype save_event_status = Success | Rejected rejected_reason

datatype database_event_status = StatusSaved | StatusDeleted | StatusNotExistent

definition is_success :: "save_event_status \<Rightarrow> bool" where
  "is_success st = (case st of Success \<Rightarrow> True | _ \<Rightarrow> False)"

section \<open>Keys of the sorted indexes\<close>

datatype event_key = EventKey (ek_created_at: timestamp) (ek_id: event_id)

instantiation event_key :: linorder
begin

definition less_eq_event_key :: "event_key \<Rightarrow> event_key \<Rightarrow> bool" where
  "less_eq_event_key a b \<longleftrightarrow>
     ek_created_at b < ek_created_at a \<or> (ek_created_at a = ek_created_at b \<and> ek_id a \<le> ek_id b)"

definition less_event_key :: "event_key \<Rightarrow> event_key \<Rightarrow> bool" where
  "less_event_key a b \<longleftrightarrow>
     ek_created_at b < ek_created_at a \<or> (ek_created_at a = ek_created_at b \<and> ek_id a < ek_id b)"

instance
  by standard (auto simp: less_eq_event_key_def less_event_key_def event_key.expand)

end

definition key_from_event :: "event \<Rightarrow> event_key" where
  "key_from_event e = EventKey (ev_created_at e) (ev_id e)"

section \<open>The result set (events.rs)\<close>

record events =
  ev_inner :: "event list"

definition events_empty :: events where
  "events_empty = \<lparr>ev_inner = []\<rparr>"

definition events_from_sorted :: "event list \<Rightarrow> events" where
  "events_from_sorted es = \<lparr>ev_inner = es\<rparr>"

text \<open>\<open>filter(|e| seen.insert(e.id))\<close>\<close>

fun unseen :: "event_id set \<Rightarrow> event list \<Rightarrow> event list" where
  "unseen seen [] = []"
| "unseen seen (e # es) =
     (if ev_id e \<in> seen then unseen seen es else e # unseen (insert (ev_id e) seen) es)"

definition events_from_unsorted :: "event list \<Rightarrow> events" where
  "events_from_unsorted es = \<lparr>ev_inner = sort_key key_from_event (unseen {} es)\<rparr>"

definition events_first :: "events \<Rightarrow> event option" where
  "events_first E = (case ev_inner E of [] \<Rightarrow> None | e # _ \<Rightarrow> Some e)"

text \<open>\<open>swap_remove(0)\<close> hands out the first element.\<close>

definition events_first_owned :: "events \<Rightarrow> event option" where
  "events_first_owned E = (if ev_inner E = [] then None else Some (ev_inner E ! 0))"

definition events_eq :: "events \<Rightarrow> events \<Rightarrow> bool" where
  "events_eq E F \<longleftrightarrow> ev_inner E = ev_inner F"

text \<open>The invariant the documentation of the type states.\<close>

definition events_wf :: "events \<Rightarrow> bool" where
  [inv_simps]: "events_wf E \<longleftrightarrow> sorted_wrt (<) (map key_from_event (ev_inner E))"

section \<open>Lemmas\<close>

lemma key_from_event_simps [simp]:
  "ek_created_at (key_from_event e) = ev_created_at e" "ek_id (key_from_event e) = ev_id e"
  by (simp_all add: key_from_event_def)

lemma unseen_ids: "ev_id ` set (unseen seen es) = ev_id ` set es - seen"
  by (induction es arbitrary: seen) auto

lemma unseen_subset: "set (unseen seen es) \<subseteq> set es"
  by (induction es arbitrary: seen) auto

lemma unseen_distinct: "distinct (map ev_id (unseen seen es))"
proof (induction es arbitrary: seen)
  case Nil
  then show ?case by simp
next
  case (Cons e es)
  have "ev_id e \<notin> ev_id ` set (unseen (insert (ev_id e) seen) es)" by (simp add: unseen_ids)
  with Cons show ?case by simp
qed

lemma unseen_id: "distinct (map ev_id es) \<Longrightarrow> seen \<inter> ev_id ` set es = {} \<Longrightarrow> unseen seen es = es"
  by (induction es arbitrary: seen) auto

lemma distinct_keys_from_ids: "distinct (map ev_id es) \<Longrightarrow> distinct (map key_from_event es)"
  by (auto simp: distinct_map inj_on_def key_from_event_def)

lemma from_unsorted_wf: "events_wf (events_from_unsorted es)"
proof -
  have "distinct (map key_from_event (sort_key key_from_event (unseen {} es)))"
    using distinct_keys_from_ids [OF unseen_distinct [of "{}" es]]
    by (simp add: distinct_map)
  then show ?thesis
    by (simp add: events_wf_def events_from_unsorted_def strict_sorted_iff)
qed

lemma wf_distinct_keys: "events_wf E \<Longrightarrow> distinct (map key_from_event (ev_inner E))"
  by (simp add: events_wf_def strict_sorted_iff)

lemma from_unsorted_ids: "ev_id ` set (ev_inner (events_from_unsorted es)) = ev_id ` set es"
  by (simp add: events_from_unsorted_def unseen_ids)

lemma from_unsorted_id:
  assumes "events_wf \<lparr>ev_inner = es\<rparr>" and "distinct (map ev_id es)"
  shows "events_from_unsorted es = events_from_sorted es"
proof -
  have "sorted (map key_from_event es)" using assms(1) by (simp add: events_wf_def strict_sorted_iff)
  then have "sort_key key_from_event es = es" by (simp add: sort_key_id_if_sorted)
  then show ?thesis
    using assms(2) by (simp add: events_from_unsorted_def events_from_sorted_def unseen_id)
qed

end
