(* ===== verification/Core_Theorems.thy ===== *)
theory Core_Theorems
  imports Result_Set
begin

text \<open>
  The theorems on the data model of \<open>nula-core\<close>: identifiers and their text forms, tag lists and
  their index cache, events, signing and deletion requests, and filters.
\<close>

section \<open>Definitions the theorems use\<close>

text \<open>The calls that can be made on a tag list, reading the index included.\<close>

datatype tags_op =
    TPush tag | TExtend "tag list" | TReplaceOrPush tag_kind tag | TPushUnique tag
  | TDedup | TClone | TIndexes

fun tags_apply :: "tags_list \<Rightarrow> tags_op \<Rightarrow> tags_list" where
  "tags_apply T (TPush t) = tags_push t T"
| "tags_apply T (TExtend ts) = tags_extend ts T"
| "tags_apply T (TReplaceOrPush k t) = tags_replace_or_push k t T"
| "tags_apply T (TPushUnique t) = tags_push_unique_kind t T"
| "tags_apply T TDedup = tags_dedup T"
| "tags_apply T TClone = tags_clone T"
| "tags_apply T TIndexes = snd (tags_indexes_get T)"

definition event_canonical :: "crates \<Rightarrow> event \<Rightarrow> json" where
  "event_canonical X e =
     canonical_value X (ev_pubkey e) (ev_created_at e) (ev_kind e) (ev_tags e) (ev_content e)"

text \<open>The hash separates the canonical forms of two given events.\<close>

definition no_collision :: "crates \<Rightarrow> event \<Rightarrow> event \<Rightarrow> bool" where
  "no_collision X e e' \<longleftrightarrow>
     (sha256 X (json_bytes X (event_canonical X e)) = sha256 X (json_bytes X (event_canonical X e')) \<longrightarrow>
      event_canonical X e = event_canonical X e')"

definition sample_builder :: event_builder where
  "sample_builder = builder_created_at 100 (builder_tag (tag_d ''x'') (builder_text_note ''hello''))"

definition sample_pk :: public_key where "sample_pk = replicate 32 7"

section \<open>Identifiers\<close>

text \<open>The kind ranges are disjoint: no kind is at once replaceable and addressable, ephemeral or
  regular; a kind in no range is unclassified, and every kind from 40000 on is.\<close>

theorem kind_classes:
  "length (filter id [is_regular k, is_replaceable k, is_ephemeral k, is_addressable k, is_unclassified k]) = 1 \<and>
   (is_reserved k \<longrightarrow> is_unclassified k)"
proof -
  have "unat k < 2 ^ LENGTH(16)" by (rule unsigned_less)
  then show ?thesis
    by (auto simp: kind_defs word_le_nat_alt word_less_nat_alt word_unat_eq_iff)
qed

theorem kind_classes_witness: "is_unclassified 45000"
  using kind_classes [of 45000] by (simp add: is_reserved_def)

text \<open>Adding seconds to a timestamp stops at the maximum and subtracting stops at zero: neither wraps
  around, and both keep the order of the timestamps.\<close>

theorem timestamp_saturates:
  "unat (timestamp_add ts secs) = min (unat TIMESTAMP_MAX) (unat ts + unat secs) \<and>
   unat (timestamp_sub ts secs) = unat ts - unat secs \<and>
   timestamp_sub ts secs \<le> ts \<and> ts \<le> timestamp_add ts secs"
proof -
  have ts: "unat ts < 2 ^ LENGTH(64)" by (rule unsigned_less)
  have "unat TIMESTAMP_MAX = 2 ^ LENGTH(64) - 1" by (simp add: TIMESTAMP_MAX_def)
  then have "unat (timestamp_add ts secs) = min (unat TIMESTAMP_MAX) (unat ts + unat secs)"
    by (simp add: timestamp_add_def unat_saturating_add)
  with ts show ?thesis
    by (simp add: timestamp_sub_def unat_saturating_sub word_le_nat_alt TIMESTAMP_MAX_def)
qed

text \<open>The text form of a coordinate parses back to it, also when its identifier contains colons.\<close>

theorem coordinate_round_trip:
  assumes "hex_laws X" and "public_key_wf X (c_author c)"
  shows "coordinate_from_str X (coordinate_to_wire X c) = Inr c"
  using assms by (rule coordinate_round_trip_aux)

theorem coordinate_round_trip_witness:
  "coordinate_from_str sample_crates (coordinate_to_wire sample_crates
     \<lparr>c_kind = 30023, c_author = sample_pk, c_identifier = ''a:b''\<rparr>) =
   Inr \<lparr>c_kind = 30023, c_author = sample_pk, c_identifier = ''a:b''\<rparr>"
  by (rule coordinate_round_trip [OF sample_hex_laws])
    (simp add: public_key_wf_def sample_pk_def PUBLIC_KEY_SIZE_def sample_crates_def)

text \<open>An event id and a public key survive printing as hex and parsing, and what parses as an event id
  has exactly 32 bytes.\<close>

theorem id_and_key_round_trip:
  assumes "hex_laws X" and "event_id_wf i" and "public_key_wf X pk"
  shows "event_id_parse X (event_id_to_hex X i) = Inr i \<and>
    public_key_parse X (public_key_to_hex X pk) = Inr pk \<and>
    (\<forall>s j. event_id_parse X s = Inr j \<longrightarrow> event_id_wf j \<and> length s = 64)"
proof -
  have "event_id_wf j \<and> length s = 64" if "event_id_parse X s = Inr j" for s j
    using that assms(1)
    by (auto simp: event_id_parse_def res_bind_Inr_iff event_id_from_slice_def event_id_wf_def
        hex_decode_vec_def hex_laws_def EVENT_ID_SIZE_def split: if_splits)
  then show ?thesis using assms by (simp add: event_id_parse_hex public_key_parse_hex)
qed

theorem id_and_key_round_trip_witness:
  "event_id_parse sample_crates (event_id_to_hex sample_crates (replicate 32 200)) = Inr (replicate 32 200) \<and>
   public_key_parse sample_crates (public_key_to_hex sample_crates sample_pk) = Inr sample_pk"
  using id_and_key_round_trip [OF sample_hex_laws, of "replicate 32 200" sample_pk]
  by (simp add: event_id_wf_def EVENT_ID_SIZE_def public_key_wf_def sample_pk_def PUBLIC_KEY_SIZE_def
      sample_crates_def)

section \<open>Tags\<close>

text \<open>The head of a tag round-trips: classifying a wire head and printing it gives the same string, so
  different heads are different kinds, and the single letters are exactly the one-letter heads.\<close>

theorem tag_kind_round_trip:
  "tag_kind_as_str (tag_kind_from_wire s) = s \<and>
   (tag_kind_from_wire s = tag_kind_from_wire t \<longleftrightarrow> s = t) \<and>
   (tag_kind_from_wire s = SingleLetter l \<longleftrightarrow> slt_from_str s = Inr l)"
  using from_wire_single [of l]
  by (auto simp: as_str_from_wire from_wire_inject slt_from_str_iff simp flip: from_wire_single)

lemma cache_ok_apply: "cache_ok T \<Longrightarrow> cache_ok (tags_apply T op)"
  by (cases op) (simp_all add: cache_ok_ops)

text \<open>The lazily built index of a tag list is never stale: after any sequence of mutations and reads,
  what \<open>indexes\<close> returns is the index built from the current tags, and it holds exactly the contents
  of the tags of each letter.\<close>

theorem tags_index_coherent:
  "fst (tags_indexes_get (foldl tags_apply (tags_from_vec ts) ops)) =
     build_indexes (items (foldl tags_apply (tags_from_vec ts) ops)) \<and>
   hm_set (fst (tags_indexes_get (foldl tags_apply (tags_from_vec ts) ops))) l =
     {v. \<exists>t \<in> set (items (foldl tags_apply (tags_from_vec ts) ops)).
        tag_single_letter t = Some l \<and> tag_content t = Some v}"
proof -
  have "cache_ok T \<Longrightarrow> cache_ok (foldl tags_apply T ops)" for T
    by (induction ops arbitrary: T) (simp_all add: cache_ok_apply)
  then have "cache_ok (foldl tags_apply (tags_from_vec ts) ops)" by (simp add: cache_ok_from_vec)
  then show ?thesis by (simp add: indexes_get_value build_indexes_spec)
qed

text \<open>Deduplicating a tag list keeps, for every (head, content) pair in order of first occurrence, the
  first longest tag with that pair: the slot-table algorithm computes this reference.\<close>

theorem tags_dedup_reference:
  "items (tags_dedup T) =
     List.map_filter (\<lambda>k. longest_with k (items T)) (extend_new [] (map dedup_key (items T)))"
  using dedup_items_eq [of "items T"]
  by (simp add: tags_dedup_def erase_indexes_def Let_def extend_new_def)

text \<open>\<open>replace_or_push\<close> leaves the tags of other heads alone and in order, and puts the new tag in
  place of the first tag of its head, or at the end when there is none.\<close>

theorem tags_replace_or_push_spec:
  assumes "tag_head t = k"
  shows "find_all k (items (tags_replace_or_push k t T)) = t # tl (find_all k (items T)) \<and>
    filter (\<lambda>x. tag_head x \<noteq> k) (items (tags_replace_or_push k t T)) = filter (\<lambda>x. tag_head x \<noteq> k) (items T) \<and>
    find_first k (items (tags_replace_or_push k t T)) = Some t"
  using replace_or_push_filter [OF assms]
  by (simp add: tags_replace_or_push_def erase_indexes_def Let_def find_first_find_all)

theorem tags_replace_or_push_spec_witness:
  "find_first (SingleLetter (lowercase_tag L_D))
     (items (tags_replace_or_push (SingleLetter (lowercase_tag L_D)) (tag_d ''y'') (b_tags sample_builder))) =
   Some (tag_d ''y'')"
  using tags_replace_or_push_spec [of "tag_d ''y''" "SingleLetter (lowercase_tag L_D)" "b_tags sample_builder"]
  by (simp add: tag_d_def)

section \<open>Events\<close>

lemma builder_sign_total:
  assumes "b_created_at b \<noteq> None \<or> clock \<noteq> None"
  obtains u e where "builder_sign_with_keys X clock b ks = Inr e" and "unsigned_sign_with_keys X u ks = Inr e"
    and "ev_tags e = items (b_tags b)" and "ev_content e = b_content b" and "ev_kind e = b_kind b"
proof -
  obtain c where c: "(case b_created_at b of Some ts \<Rightarrow> Some ts | None \<Rightarrow> clock) = Some c"
    using assms by (cases "b_created_at b") auto
  define u where "u = unsigned_new X (keys_public ks) c (b_kind b) (items (b_tags b)) (b_content b)"
  have pk: "keys_public ks = u_pubkey u" by (simp add: u_def unsigned_new_def)
  then obtain e where e: "unsigned_sign_with_keys X u ks = Inr e"
    by (simp add: unsigned_sign_with_keys_def Let_def)
  have "builder_sign_with_keys X clock b ks = Inr e"
    using c e by (simp add: builder_sign_with_keys_def build_unsigned_def u_def)
  moreover have "ev_tags e = items (b_tags b)" "ev_content e = b_content b" "ev_kind e = b_kind b"
    using e by (auto simp: unsigned_sign_with_keys_def Let_def u_def unsigned_new_def)
  ultimately show thesis using e that by blast
qed

text \<open>C15. An event built and signed with a key pair verifies: its id is the digest of its canonical form, its
  signature is valid for its author, and it carries the builder's tags, content and kind. The build fails
  only for want of a clock.\<close>

theorem event_sign_verifies:
  assumes "schnorr_laws X" and "b_created_at b \<noteq> None \<or> clock \<noteq> None"
  shows "\<exists>e. builder_sign_with_keys X clock b (keys_from_secret_key X sk) = Inr e \<and> verify X e = Inr () \<and>
    ev_pubkey e = keypair_public X sk \<and> ev_tags e = items (b_tags b) \<and> ev_content e = b_content b \<and>
    ev_kind e = b_kind b"
  by (rule builder_sign_total [OF assms(2), of X "keys_from_secret_key X sk"])
    (use sign_verifies_aux [OF assms(1)] in blast)

theorem event_sign_verifies_witness:
  "\<exists>e. builder_sign_with_keys sample_crates None sample_builder (keys_from_secret_key sample_crates sample_pk) = Inr e \<and>
     verify sample_crates e = Inr () \<and> ev_content e = ''hello''"
proof -
  have b: "b_created_at sample_builder \<noteq> None" "b_content sample_builder = ''hello''"
    by (simp_all add: sample_builder_def builder_created_at_def builder_tag_def builder_text_note_def builder_new_def)
  then show ?thesis using event_sign_verifies [OF sample_schnorr_laws, of sample_builder None sample_pk] by auto
qed

text \<open>The id of a verified event binds its author, time, kind, tags and content: two verified events with
  the same id agree on all of them, unless their canonical forms collide under the hash.\<close>

theorem event_id_binds:
  assumes "hex_laws X" and "verify X e = Inr ()" and "verify X e' = Inr ()" and "ev_id e = ev_id e'"
    and "no_collision X e e'"
  shows "ev_pubkey e = ev_pubkey e' \<and> ev_created_at e = ev_created_at e' \<and> ev_kind e = ev_kind e' \<and>
    ev_tags e = ev_tags e' \<and> ev_content e = ev_content e'"
proof -
  have "event_canonical X e = event_canonical X e'"
    using assms(2-5) by (auto simp: verify_def verify_id_def compute_event_id_def compute_from_canonical_def
        canonical_bytes_def no_collision_def event_canonical_def split: if_splits)
  then show ?thesis using assms(1) by (simp add: event_canonical_def canonical_value_inject)
qed

definition sample_signed :: event where
  "sample_signed = (case builder_sign_with_keys sample_crates None sample_builder
     (keys_from_secret_key sample_crates sample_pk) of Inr e \<Rightarrow> e)"

theorem event_id_binds_witness:
  "verify sample_crates sample_signed = Inr () \<and>
   verify sample_crates (sample_signed\<lparr>ev_sig := ev_sig sample_signed\<rparr>) = Inr () \<and>
   ev_content (sample_signed\<lparr>ev_sig := ev_sig sample_signed\<rparr>) = ev_content sample_signed"
proof -
  let ?e = "sample_signed\<lparr>ev_sig := ev_sig sample_signed\<rparr>"
  have "verify sample_crates sample_signed = Inr ()" by code_simp
  moreover have "verify sample_crates ?e = Inr ()" by code_simp
  ultimately show ?thesis using event_id_binds [OF sample_hex_laws, of ?e sample_signed]
    by (simp add: no_collision_def event_canonical_def)
qed

text \<open>Setting an expiration on a builder makes the event expire exactly at the given time, whatever
  expiration tag was there before.\<close>

theorem expiration_builder:
  assumes "ev_tags e = items (b_tags (builder_expiration ts b))"
  shows "parse_expiration e = Inr (Some ts) \<and> is_expired e now = Inr (ts \<le> now) \<and>
    tags_expiration (ev_tags e) = Some ts"
  using parse_expiration_builder(1) [OF assms] by (simp add: is_expired_def tags_expiration_eq)

theorem expiration_builder_witness:
  "is_expired (sample_signed\<lparr>ev_tags := items (b_tags (builder_expiration 500 sample_builder))\<rparr>) 499 = Inr False"
  using expiration_builder [of "sample_signed\<lparr>ev_tags := items (b_tags (builder_expiration 500 sample_builder))\<rparr>"
      500 sample_builder 499] by simp

text \<open>A deletion request survives being written as an event and read back: the ids, the coordinates, the
  kinds and the reason, in order.\<close>

theorem deletion_round_trip:
  assumes "hex_laws X" and "\<forall>i \<in> set (dr_event_ids r). event_id_wf i"
    and "\<forall>c \<in> set (dr_coordinates r). public_key_wf X (c_author c)"
    and "builder_sign_with_keys X clock (builder_deletion X r) ks = Inr e"
  shows "deletion_from_event X e = Inr r"
proof -
  have "ev_kind e = EVENT_DELETION \<and> ev_content e = dr_reason r \<and> ev_tags e = deletion_to_tags X r"
    using assms(4)
    by (auto simp: builder_sign_with_keys_def res_bind_Inr_iff build_unsigned_def unsigned_new_def
        unsigned_sign_with_keys_def Let_def builder_deletion_def builder_tags_def builder_new_def
        tags_extend_def erase_indexes_def tags_new_def split: option.splits if_splits)
  then show ?thesis using deletion_round_trip_aux [OF assms(1-3)] by (simp add: deletion_from_event_def)
qed

theorem deletion_round_trip_witness:
  "\<exists>e r. r = \<lparr>dr_event_ids = [replicate 32 1], dr_coordinates = [\<lparr>c_kind = 30023, c_author = sample_pk,
       c_identifier = ''post''\<rparr>], dr_kinds = [1, 30023], dr_reason = ''spam''\<rparr> \<and>
     builder_sign_with_keys sample_crates (Some 9) (builder_deletion sample_crates r)
       (keys_from_secret_key sample_crates sample_pk) = Inr e \<and>
     deletion_from_event sample_crates e = Inr r"
proof -
  let ?r = "\<lparr>dr_event_ids = [replicate 32 1], dr_coordinates = [\<lparr>c_kind = 30023, c_author = sample_pk,
       c_identifier = ''post''\<rparr>], dr_kinds = [1, 30023], dr_reason = ''spam''\<rparr>"
  obtain e where e: "builder_sign_with_keys sample_crates (Some 9) (builder_deletion sample_crates ?r)
       (keys_from_secret_key sample_crates sample_pk) = Inr e"
    by (rule builder_sign_total [of "builder_deletion sample_crates ?r" "Some 9"]) auto
  have "deletion_from_event sample_crates e = Inr ?r"
    by (rule deletion_round_trip [OF sample_hex_laws _ _ e])
      (simp_all add: event_id_wf_def EVENT_ID_SIZE_def public_key_wf_def sample_pk_def PUBLIC_KEY_SIZE_def
        sample_crates_def)
  with e show ?thesis by blast
qed

section \<open>Filters\<close>

text \<open>C16. The matcher, with its early returns, decides the declarative meaning of a filter: every constraint that
  is set holds, each as a disjunction of its values, the tag constraints on the contents of the tags of
  that letter, and with a reference time the event is neither from the future nor expired
  when the options forbid it.\<close>

theorem filter_match_spec:
  "match_event event_matchable f e opts \<longleftrightarrow> filter_selects f e \<and> opts_admit opts e"
  by (rule event_view.match_event_view_selects)

text \<open>The fingerprint of a filter does not depend on the order in which its values and its tag constraints
  were added.\<close>

theorem filter_fingerprint_order:
  assumes "same_constraints f g"
  shows "fingerprint X f = fingerprint X g"
proof -
  have "opt_part (\<lambda>ids. ''ids:'' @ json_array X (sort (map (event_id_to_hex X) ids))) (f_ids f) =
      opt_part (\<lambda>ids. ''ids:'' @ json_array X (sort (map (event_id_to_hex X) ids))) (f_ids g)"
    by (intro opt_part_cong [where R = "\<lambda>xs ys. mset xs = mset ys"])
      (use assms in \<open>simp add: same_constraints_def\<close>, drule sort_map_cong [where g = "event_id_to_hex X"], simp)
  moreover have "opt_part (\<lambda>pks. ''authors:'' @ json_array X (sort (map (public_key_to_hex X) pks))) (f_authors f) =
      opt_part (\<lambda>pks. ''authors:'' @ json_array X (sort (map (public_key_to_hex X) pks))) (f_authors g)"
    by (intro opt_part_cong [where R = "\<lambda>xs ys. mset xs = mset ys"])
      (use assms in \<open>simp add: same_constraints_def\<close>, drule sort_map_cong [where g = "public_key_to_hex X"], simp)
  moreover have "opt_part (\<lambda>ks. ''kinds:'' @ json_to_string X (JArr (map (\<lambda>k. JNum (uint k)) (sort ks)))) (f_kinds f) =
      opt_part (\<lambda>ks. ''kinds:'' @ json_to_string X (JArr (map (\<lambda>k. JNum (uint k)) (sort ks)))) (f_kinds g)"
    by (intro opt_part_cong [where R = "\<lambda>xs ys. mset xs = mset ys"])
      (use assms in \<open>simp add: same_constraints_def\<close>, drule sort_mset_cong, simp)
  moreover have "sort (map (tag_part X) (f_generic_tags f)) = sort (map (tag_part X) (f_generic_tags g))"
    using assms by (intro tag_parts_cong) (simp add: same_constraints_def)
  ultimately show ?thesis using assms unfolding fingerprint_def by (simp add: same_constraints_def)
qed

theorem filter_fingerprint_order_witness:
  "fingerprint sample_crates (filter_kind 1 (filter_kind 7 (filter_hashtag ''a'' (filter_hashtag ''b'' filter_new)))) =
   fingerprint sample_crates (filter_kind 7 (filter_hashtag ''b'' (filter_hashtag ''a'' (filter_kind 1 filter_new))))"
  by (rule filter_fingerprint_order)
    (simp add: same_constraints_def filter_kind_def filter_hashtag_def filter_custom_tag_def filter_new_def
      get_or_empty_def push_new_def hm_entry_def hm_insert_def add_mset_commute)

text \<open>A filter survives its JSON form: serialising and deserialising gives the same filter, for every filter
  whose ids and keys are of their types and whose e and p values are lowercase hex.\<close>

theorem filter_json_round_trip:
  assumes "hex_laws X" and "filter_wf X f"
  shows "filter_deserialize X (filter_serialize X f) = Inr f"
  using assms by (rule filter_round_trip_aux)

theorem filter_json_round_trip_witness:
  "filter_deserialize sample_crates (filter_serialize sample_crates
     (filter_limit 5 (filter_hashtag ''a'' (filter_author sample_pk filter_new)))) =
   Inr (filter_limit 5 (filter_hashtag ''a'' (filter_author sample_pk filter_new)))"
  by (rule filter_json_round_trip [OF sample_hex_laws])
    (simp add: filter_wf_def filter_limit_def filter_hashtag_def filter_custom_tag_def filter_author_def
      filter_new_def get_or_empty_def push_new_def hm_entry_def hm_insert_def public_key_wf_def sample_pk_def
      PUBLIC_KEY_SIZE_def sample_crates_def)

text \<open>Adding tag values to a filter widens that tag constraint and leaves the rest alone: the new filter
  selects what the filter without the constraint selects and has one of the old or the new values.\<close>

theorem filter_custom_tags_selects:
  assumes "distinct (map fst (f_generic_tags f))"
  shows "filter_selects (filter_custom_tags l vs f) e \<longleftrightarrow>
    filter_selects (f\<lparr>f_generic_tags := hm_remove l (f_generic_tags f)\<rparr>) e \<and>
    has_tag_value (ev_tags e) l (get_or_empty (map_of (f_generic_tags f) l) @ vs)"
proof -
  let ?old = "get_or_empty (map_of (f_generic_tags f) l)"
  have inv: "hm_invar (f_generic_tags f)" using assms by (simp add: hm_invar_def)
  have "set (hm_entry [] l (\<lambda>b. extend_new b vs) (f_generic_tags f)) =
      insert (l, extend_new ?old vs) (set (hm_remove l (f_generic_tags f)))"
    by (simp add: hm_entry_def hm.set_ins [OF inv] hm.set_del [OF inv] get_or_empty_def split: option.splits)
  moreover have "has_tag_value (ev_tags e) l (extend_new ?old vs) \<longleftrightarrow> has_tag_value (ev_tags e) l (?old @ vs)"
    by (simp add: has_tag_value_def)
  ultimately show ?thesis by (simp add: filter_selects_def filter_custom_tags_def) blast
qed

theorem filter_custom_tags_selects_witness:
  "filter_selects (filter_custom_tags (lowercase_tag L_T) [''b''] (filter_hashtag ''a'' filter_new))
     (sample_signed\<lparr>ev_tags := [tag_with (SingleLetter (lowercase_tag L_T)) [''a'']]\<rparr>)"
proof -
  let ?f = "filter_hashtag ''a'' filter_new"
  have tags: "f_generic_tags ?f = [(lowercase_tag L_T, [''a''])]"
    by (simp add: filter_hashtag_def filter_custom_tag_def filter_new_def hm_entry_def hm_insert_def push_new_def)
  have rest: "?f\<lparr>f_generic_tags := []\<rparr> = filter_new"
    by (simp add: filter_hashtag_def filter_custom_tag_def filter_new_def)
  let ?e = "sample_signed\<lparr>ev_tags := [tag_with (SingleLetter (lowercase_tag L_T)) [''a'']]\<rparr>"
  have "has_tag_value (ev_tags ?e) (lowercase_tag L_T) [''a'', ''b'']"
    by (simp add: has_tag_value_def tag_kind_as_str_def single_letter_str_eq)
  moreover have "filter_selects filter_new ?e" by (simp add: filter_selects_def filter_new_def)
  ultimately show ?thesis
    using filter_custom_tags_selects [of ?f "lowercase_tag L_T" "[''b'']" ?e] tags rest
    by (simp add: hm_remove_def get_or_empty_def)
qed

text \<open>Removing values from a tag constraint drops exactly them, and drops the constraint when none is left.\<close>

theorem filter_remove_custom_tags_spec:
  assumes "distinct (map fst (f_generic_tags f))"
  shows "map_of (f_generic_tags (filter_remove_custom_tags l dropped f)) =
    (map_of (f_generic_tags f))(l :=
       (case map_of (f_generic_tags f) l of
          None \<Rightarrow> None
        | Some b \<Rightarrow> if set b \<subseteq> set dropped then None else Some (filter (\<lambda>v. v \<notin> set dropped) b)))"
proof -
  have inv: "hm_invar (f_generic_tags f)" using assms by (simp add: hm_invar_def)
  have "filter (\<lambda>v. v \<notin> set dropped) b = [] \<longleftrightarrow> set b \<subseteq> set dropped" for b :: "string list"
    by (auto simp: filter_empty_conv)
  then show ?thesis
    by (auto simp: filter_remove_custom_tags_def Let_def hm.lookup_ins [OF inv] hm.lookup_del [OF inv]
        fun_eq_iff split: option.splits)
qed

theorem filter_remove_custom_tags_spec_witness:
  "map_of (f_generic_tags (filter_remove_custom_tags (lowercase_tag L_T) [''a'']
     (filter_hashtag ''a'' filter_new))) (lowercase_tag L_T) = None"
  using filter_remove_custom_tags_spec [of "filter_hashtag ''a'' filter_new" "lowercase_tag L_T" "[''a'']"]
  by (simp add: filter_hashtag_def filter_custom_tag_def filter_new_def hm_entry_def hm_insert_def push_new_def)

text \<open>The public keys a filter names are its authors and the well-formed values of its p constraint, without
  duplicates; malformed values are skipped.\<close>

theorem filter_extract_public_keys:
  "distinct (extract_public_keys X f) \<and>
   set (extract_public_keys X f) = set (get_or_empty (f_authors f)) \<union>
     {pk. \<exists>v \<in> set (get_or_empty (map_of (f_generic_tags f) (lowercase_tag L_P))). public_key_parse X v = Inr pk}"
  by (auto simp: extract_public_keys_def push_unique_def set_map_filter)

section \<open>Result sets\<close>

text \<open>Building a result set from events in any order gives one entry per id, newest first with ties by id,
  and leaves an already sorted set without duplicate ids as it is.\<close>

theorem events_from_unsorted_spec:
  "events_wf (events_from_unsorted es) \<and>
   ev_id ` set (ev_inner (events_from_unsorted es)) = ev_id ` set es \<and>
   distinct (map ev_id (ev_inner (events_from_unsorted es))) \<and>
   events_from_unsorted (ev_inner (events_from_unsorted es)) = events_from_unsorted es"
proof -
  let ?E = "events_from_unsorted es"
  have dist: "distinct (map ev_id (ev_inner ?E))"
    using unseen_distinct [of "{}" es] by (simp add: events_from_unsorted_def distinct_map)
  have "events_from_unsorted (ev_inner ?E) = events_from_sorted (ev_inner ?E)"
    using from_unsorted_id [of "ev_inner ?E"] from_unsorted_wf [of es] dist by (simp add: events_wf_def)
  then have "events_from_unsorted (ev_inner ?E) = ?E" by (simp add: events_from_sorted_def)
  then show ?thesis using dist from_unsorted_wf from_unsorted_ids by blast
qed

end
