(* ===== verification/Memory_Store.thy ===== *)
theory Memory_Store
  imports Result_Set
begin

text \<open>
  The in-memory store of \<open>nula-storage\<close> (memory/options.rs, memory/query.rs,
  memory/store.rs, memory/database.rs): its indexes, the write rules of \<open>save_event\<close> (vanish,
  ephemeral kinds, expiration, tombstones, duplicates, replaceable and addressable conflicts,
  deletion requests, capacity), the filter-to-index plan and the queries.
  \<open>NonZeroUsize\<close> is \<open>nat\<close>. The eviction loop of \<open>enforce_capacity\<close> is a \<open>partial_function\<close>: saving returns \<open>None\<close> if it
  does not end.
\<close>

section \<open>Options and state\<close>

record memory_options =
  max_events :: "nat option"
  process_nip09 :: bool
  process_nip62 :: bool

definition memory_options_new :: memory_options where
  "memory_options_new = \<lparr>max_events = None, process_nip09 = True, process_nip62 = True\<rparr>"

definition with_max_events :: "nat option \<Rightarrow> memory_options \<Rightarrow> memory_options" where
  "with_max_events mx opts = opts\<lparr>max_events := mx\<rparr>"

definition with_process_nip09 :: "bool \<Rightarrow> memory_options \<Rightarrow> memory_options" where
  "with_process_nip09 enabled opts = opts\<lparr>process_nip09 := enabled\<rparr>"

definition with_process_nip62 :: "bool \<Rightarrow> memory_options \<Rightarrow> memory_options" where
  "with_process_nip62 enabled opts = opts\<lparr>process_nip62 := enabled\<rparr>"

type_synonym coord_key = "kind \<times> public_key \<times> string"

record memory_store =
  ms_options :: memory_options
  by_id :: "(event_id, event) hash_map"
  by_time :: "(event_key, event) btree_map"
  by_author :: "(public_key, event_key btree_set) hash_map"
  by_kind_author :: "(kind \<times> public_key, event_key btree_set) hash_map"
  by_coordinate :: "(coord_key, event) hash_map"
  deleted_ids :: "event_id set"
  deleted_coordinates :: "(coord_key, timestamp) hash_map"
  vanished_authors :: "public_key set"

definition store_new :: "memory_options \<Rightarrow> memory_store" where
  "store_new opts = \<lparr>ms_options = opts, by_id = [], by_time = [], by_author = [],
     by_kind_author = [], by_coordinate = [], deleted_ids = {}, deleted_coordinates = [],
     vanished_authors = {}\<rparr>"

definition store_wipe :: "memory_store \<Rightarrow> memory_store" where
  "store_wipe s = s\<lparr>by_id := [], by_time := [], by_author := [], by_kind_author := [],
     by_coordinate := [], deleted_ids := {}, deleted_coordinates := [], vanished_authors := {}\<rparr>"

definition check_id :: "memory_store \<Rightarrow> event_id \<Rightarrow> database_event_status" where
  "check_id s i =
     (if map_of (by_id s) i \<noteq> None then StatusSaved
      else if i \<in> deleted_ids s then StatusDeleted
      else StatusNotExistent)"

definition event_by_id :: "memory_store \<Rightarrow> event_id \<Rightarrow> event option" where
  "event_by_id s i = map_of (by_id s) i"

definition store_len :: "memory_store \<Rightarrow> nat" where
  "store_len s = length (by_id s)"

section \<open>Index maintenance\<close>

definition addressable_coord :: "event \<Rightarrow> coord_key option" where
  "addressable_coord e =
     (if \<not> is_addressable (ev_kind e) then None
      else Some (ev_kind e, ev_pubkey e,
             (case tags_identifier (ev_tags e) of None \<Rightarrow> [] | Some d \<Rightarrow> d)))"

definition insert_event :: "event \<Rightarrow> memory_store \<Rightarrow> memory_store" where
  "insert_event e s =
     (let key = key_from_event e;
          s1 = (case addressable_coord e of
                  None \<Rightarrow> s
                | Some coord \<Rightarrow> s\<lparr>by_coordinate := hm_insert coord e (by_coordinate s)\<rparr>)
      in s1\<lparr>by_id := hm_insert (ev_id e) e (by_id s1),
            by_author := hm_entry [] (ev_pubkey e) (bs_insert key) (by_author s1),
            by_kind_author := hm_entry [] (ev_kind e, ev_pubkey e) (bs_insert key) (by_kind_author s1),
            by_time := bt_insert key e (by_time s1)\<rparr>)"

definition remove_event_by_id :: "event_id \<Rightarrow> memory_store \<Rightarrow> memory_store" where
  "remove_event_by_id i s =
     (case map_of (by_id s) i of
        None \<Rightarrow> s
      | Some e \<Rightarrow>
          let key = key_from_event e;
              s1 = s\<lparr>by_id := hm_remove i (by_id s),
                     by_time := bt_remove key (by_time s),
                     by_author := hm_set_remove (ev_pubkey e) key (by_author s),
                     by_kind_author := hm_set_remove (ev_kind e, ev_pubkey e) key (by_kind_author s)\<rparr>
          in case addressable_coord e of
               None \<Rightarrow> s1
             | Some coord \<Rightarrow>
                 (case map_of (by_coordinate s1) coord of
                    Some winner \<Rightarrow>
                      if ev_id winner = i
                      then s1\<lparr>by_coordinate := hm_remove coord (by_coordinate s1)\<rparr>
                      else s1
                  | None \<Rightarrow> s1))"

definition remove_events :: "event_id list \<Rightarrow> memory_store \<Rightarrow> memory_store" where
  "remove_events is s = foldl (\<lambda>s i. remove_event_by_id i s) s is"

section \<open>Conflicts, deletion, vanishing, capacity\<close>

definition pick_loser :: "event \<Rightarrow> event \<Rightarrow> event_id" where
  "pick_loser incumbent challenger =
     (if ev_created_at incumbent > ev_created_at challenger then ev_id challenger
      else if ev_created_at incumbent < ev_created_at challenger then ev_id incumbent
      else if ev_id incumbent \<le> ev_id challenger then ev_id challenger else ev_id incumbent)"

definition resolve_replaceable :: "memory_store \<Rightarrow> event \<Rightarrow> event_id option" where
  "resolve_replaceable s e =
     Option.bind (map_of (by_kind_author s) (ev_kind e, ev_pubkey e)) (\<lambda>ks.
     Option.bind (case ks of [] \<Rightarrow> None | k # _ \<Rightarrow> map_of (by_id s) (ek_id k)) (\<lambda>incumbent.
     Some (pick_loser incumbent e)))"

definition resolve_addressable :: "memory_store \<Rightarrow> event \<Rightarrow> event_id option" where
  "resolve_addressable s e =
     Option.bind (addressable_coord e) (\<lambda>coord.
     Option.bind (map_of (by_coordinate s) coord) (\<lambda>incumbent.
     Some (pick_loser incumbent e)))"

definition delete_id :: "event \<Rightarrow> memory_store \<Rightarrow> event_id \<Rightarrow> memory_store" where
  "delete_id e s i =
     (case map_of (by_id s) i of
        Some target \<Rightarrow>
          if ev_pubkey target = ev_pubkey e
          then (let s1 = remove_event_by_id i s in s1\<lparr>deleted_ids := insert i (deleted_ids s1)\<rparr>)
          else s
      | None \<Rightarrow> s\<lparr>deleted_ids := insert i (deleted_ids s)\<rparr>)"

definition delete_coordinate :: "event \<Rightarrow> memory_store \<Rightarrow> coordinate \<Rightarrow> memory_store" where
  "delete_coordinate e s c =
     (if c_author c \<noteq> ev_pubkey e then s
      else let key = (c_kind c, c_author c, c_identifier c);
               s1 = (case map_of (by_coordinate s) key of
                       Some incumbent \<Rightarrow>
                         if ev_created_at incumbent \<le> ev_created_at e
                         then remove_event_by_id (ev_id incumbent) s else s
                     | None \<Rightarrow> s);
               stamp = (case map_of (deleted_coordinates s1) key of
                          None \<Rightarrow> ev_created_at e | Some t \<Rightarrow> t);
               stamp' = (if stamp < ev_created_at e then ev_created_at e else stamp)
           in s1\<lparr>deleted_coordinates := hm_insert key stamp' (deleted_coordinates s1)\<rparr>)"

definition apply_deletion :: "crates \<Rightarrow> event \<Rightarrow> memory_store \<Rightarrow> memory_store" where
  "apply_deletion X e s =
     (case deletion_from_event X e of
        Inl _ \<Rightarrow> s
      | Inr request \<Rightarrow>
          foldl (delete_coordinate e)
            (foldl (delete_id e) s (dr_event_ids request)) (dr_coordinates request))"

definition apply_vanish :: "public_key \<Rightarrow> memory_store \<Rightarrow> memory_store" where
  "apply_vanish author s =
     (let s1 = s\<lparr>vanished_authors := insert author (vanished_authors s)\<rparr>;
          ids = (case map_of (by_author s1) author of None \<Rightarrow> [] | Some ks \<Rightarrow> map ek_id ks)
      in remove_events ids s1)"

partial_function (option) enforce_loop :: "nat \<Rightarrow> memory_store \<Rightarrow> memory_store option" where
  "enforce_loop mx s =
     (if mx < length (by_id s) then
        (if by_time s = [] then Some s
         else enforce_loop mx (remove_event_by_id (ek_id (fst (last (by_time s)))) s))
      else Some s)"

declare enforce_loop.simps [code]

definition enforce_capacity :: "memory_store \<Rightarrow> memory_store option" where
  "enforce_capacity s =
     (case max_events (ms_options s) of None \<Rightarrow> Some s | Some mx \<Rightarrow> enforce_loop mx s)"

section \<open>Saving\<close>

text \<open>Step 7: the loser of a conflict is removed, unless it is the new event.\<close>

definition resolve_conflict :: "memory_store \<Rightarrow> event \<Rightarrow> memory_store option" where
  "resolve_conflict s e =
     (case (if is_replaceable (ev_kind e) then resolve_replaceable s e else None) of
        Some loser \<Rightarrow> if loser = ev_id e then None else Some (remove_event_by_id loser s)
      | None \<Rightarrow>
          (case (if is_addressable (ev_kind e) then resolve_addressable s e else None) of
             Some loser \<Rightarrow> if loser = ev_id e then None else Some (remove_event_by_id loser s)
           | None \<Rightarrow> Some s))"

text \<open>Step 5: the coordinate was deleted at or after the event's time.\<close>

definition coordinate_tombstoned :: "memory_store \<Rightarrow> event \<Rightarrow> bool" where
  "coordinate_tombstoned s e =
     (case addressable_coord e of
        None \<Rightarrow> False
      | Some coord \<Rightarrow>
          (case map_of (deleted_coordinates s) coord of
             None \<Rightarrow> False
           | Some deleted_at \<Rightarrow> ev_created_at e \<le> deleted_at))"

text \<open>Steps 1 to 6: the checks that refuse an event and leave the store alone.\<close>

definition refusal :: "memory_store \<Rightarrow> event \<Rightarrow> timestamp \<Rightarrow> rejected_reason option" where
  "refusal s e now =
     (if process_nip62 (ms_options s) \<and> ev_pubkey e \<in> vanished_authors s then Some Vanished
      else if is_ephemeral (ev_kind e) then Some Ephemeral
      else if is_expired e now = Inr True then Some Expired
      else if ev_id e \<in> deleted_ids s then Some Deleted
      else if coordinate_tombstoned s e then Some Deleted
      else if map_of (by_id s) (ev_id e) \<noteq> None then Some Duplicate
      else None)"

definition save_event ::
  "crates \<Rightarrow> event \<Rightarrow> timestamp \<Rightarrow> memory_store \<Rightarrow> (memory_store \<times> save_event_status) option" where
  "save_event X e now s =
     (case refusal s e now of
        Some reason \<Rightarrow> Some (s, Rejected reason)
      | None \<Rightarrow>
          (case resolve_conflict s e of
             None \<Rightarrow> Some (s, Rejected Replaced)
           | Some s1 \<Rightarrow>
               let s2 = (if process_nip09 (ms_options s1) \<and> ev_kind e = EVENT_DELETION
                         then apply_deletion X e s1 else s1);
                   s3 = (if process_nip62 (ms_options s2) \<and> ev_kind e = REQUEST_TO_VANISH
                         then apply_vanish (ev_pubkey e) s2 else s2);
                   s4 = insert_event e s3
               in map_option (\<lambda>s5. (s5, Success)) (enforce_capacity s4)))"

section \<open>Querying\<close>

datatype query_pattern =
    QAuthor public_key
  | QKindAuthor kind public_key
  | QCoordinate kind public_key string
  | QGeneric

definition query_pattern_from :: "nostr_filter \<Rightarrow> query_pattern" where
  "query_pattern_from f =
     (if (case f_ids f of None \<Rightarrow> False | Some v \<Rightarrow> v \<noteq> []) then QGeneric
      else if f_search f \<noteq> None then QGeneric
      else
        let authors = get_or_empty (f_authors f);
            kinds = get_or_empty (f_kinds f);
            d = lowercase_tag L_D;
            identifier = (case map_of (f_generic_tags f) d of
                            Some [v] \<Rightarrow> Some v | _ \<Rightarrow> None);
            other_tags = length (f_generic_tags f) -
              (if map_of (f_generic_tags f) d \<noteq> None then 1 else 0)
        in case (authors, kinds, identifier) of
             ([author], [kind], Some i) \<Rightarrow>
               if is_addressable kind \<and> other_tags = 0 then QCoordinate kind author i else QGeneric
           | ([author], [kind], None) \<Rightarrow>
               if other_tags = 0 then QKindAuthor kind author else QGeneric
           | ([author], [], None) \<Rightarrow> if other_tags = 0 then QAuthor author else QGeneric
           | _ \<Rightarrow> QGeneric)"

definition take_limit :: "nat option \<Rightarrow> 'a list \<Rightarrow> 'a list" where
  "take_limit limit xs = (case limit of None \<Rightarrow> xs | Some n \<Rightarrow> take n xs)"

definition materialise :: "nostr_filter \<Rightarrow> event list \<Rightarrow> event_key list" where
  "materialise f es =
     map key_from_event (take_limit (f_limit f)
       (filter (\<lambda>e. match_event event_matchable f e match_options_new) es))"

definition lookup_keys :: "memory_store \<Rightarrow> event_key list \<Rightarrow> event list" where
  "lookup_keys s ks = List.map_filter (\<lambda>k. map_of (by_id s) (ek_id k)) ks"

definition query_keys :: "memory_store \<Rightarrow> nostr_filter \<Rightarrow> event_key list" where
  "query_keys s f =
     (case query_pattern_from f of
        QGeneric \<Rightarrow> materialise f (map snd (by_time s))
      | QAuthor pk \<Rightarrow>
          (case map_of (by_author s) pk of
             Some ks \<Rightarrow> materialise f (lookup_keys s ks) | None \<Rightarrow> [])
      | QKindAuthor kind pk \<Rightarrow>
          (case map_of (by_kind_author s) (kind, pk) of
             Some ks \<Rightarrow> materialise f (lookup_keys s ks) | None \<Rightarrow> [])
      | QCoordinate kind author identifier \<Rightarrow>
          (case map_of (by_coordinate s) (kind, author, identifier) of
             Some e \<Rightarrow>
               if match_event event_matchable f e match_options_new then [key_from_event e] else []
           | None \<Rightarrow> []))"

definition query_owned :: "memory_store \<Rightarrow> nostr_filter \<Rightarrow> event list" where
  "query_owned s f = lookup_keys s (query_keys s f)"

definition count_matching :: "memory_store \<Rightarrow> nostr_filter \<Rightarrow> nat" where
  "count_matching s f = length (query_keys s f)"

definition delete_matching :: "nostr_filter \<Rightarrow> memory_store \<Rightarrow> memory_store" where
  "delete_matching f s = remove_events (map ek_id (query_keys s f)) s"

definition database_query :: "memory_store \<Rightarrow> nostr_filter \<Rightarrow> events" where
  "database_query s f = events_from_sorted (query_owned s f)"

end
