(* ===== verification/Memory_Invariant.thy ===== *)
theory Memory_Invariant
  imports Memory_Store
begin

text \<open>
  The index invariant of the in-memory store and its preservation. \<open>idx_ok s L\<close> says that every
  index of the store \<open>s\<close> represents exactly the set \<open>L\<close> of live events; the operations are
  shown to act on \<open>L\<close> as set insertion and removal, so that everything else is reasoning about
  sets of events.
\<close>

section \<open>The invariant\<close>

definition ids_idx :: "memory_store \<Rightarrow> event set \<Rightarrow> bool" where
  "ids_idx s L \<longleftrightarrow> hm_invar (by_id s) \<and>
     (\<forall>i e. map_of (by_id s) i = Some e \<longleftrightarrow> e \<in> L \<and> ev_id e = i)"

definition time_idx :: "memory_store \<Rightarrow> event set \<Rightarrow> bool" where
  "time_idx s L \<longleftrightarrow> bt_invar (by_time s) \<and>
     (\<forall>k e. map_of (by_time s) k = Some e \<longleftrightarrow> e \<in> L \<and> key_from_event e = k)"

definition author_idx :: "memory_store \<Rightarrow> event set \<Rightarrow> bool" where
  "author_idx s L \<longleftrightarrow> hm_sets_invar (by_author s) \<and>
     (\<forall>a. hm_set (by_author s) a = key_from_event ` {e \<in> L. ev_pubkey e = a})"

definition kind_author_idx :: "memory_store \<Rightarrow> event set \<Rightarrow> bool" where
  "kind_author_idx s L \<longleftrightarrow> hm_sets_invar (by_kind_author s) \<and>
     (\<forall>ka. hm_set (by_kind_author s) ka = key_from_event ` {e \<in> L. (ev_kind e, ev_pubkey e) = ka})"

definition coord_idx :: "memory_store \<Rightarrow> event set \<Rightarrow> bool" where
  "coord_idx s L \<longleftrightarrow> hm_invar (by_coordinate s) \<and>
     (\<forall>c e. map_of (by_coordinate s) c = Some e \<longleftrightarrow> e \<in> L \<and> addressable_coord e = Some c)"

definition idx_ok :: "memory_store \<Rightarrow> event set \<Rightarrow> bool" where
  [inv_simps]: "idx_ok s L \<longleftrightarrow>
     ids_idx s L \<and> time_idx s L \<and> author_idx s L \<and> kind_author_idx s L \<and> coord_idx s L"

definition live :: "memory_store \<Rightarrow> event set" where
  "live s = ran (map_of (by_id s))"

text \<open>At most one live event per replaceable kind and author.\<close>

definition replaceable_unique :: "event set \<Rightarrow> bool" where
  "replaceable_unique L \<longleftrightarrow>
     (\<forall>e \<in> L. \<forall>e' \<in> L. is_replaceable (ev_kind e) \<and> ev_kind e = ev_kind e' \<and>
        ev_pubkey e = ev_pubkey e' \<longrightarrow> e = e')"

definition store_inv :: "memory_store \<Rightarrow> bool" where
  [inv_simps]: "store_inv s \<longleftrightarrow> idx_ok s (live s) \<and> hm_invar (deleted_coordinates s) \<and>
     replaceable_unique (live s)"

lemmas idx_defs = ids_idx_def time_idx_def author_idx_def kind_author_idx_def coord_idx_def

section \<open>Basic facts\<close>

lemma ids_idx_live: "ids_idx s L \<Longrightarrow> live s = L"
  by (auto simp: ids_idx_def live_def ran_def)

lemma idx_ok_live: "idx_ok s L \<Longrightarrow> live s = L"
  by (simp add: idx_ok_def ids_idx_live)

lemma ids_idx_lookup: "ids_idx s L \<Longrightarrow> map_of (by_id s) i = Some e \<longleftrightarrow> e \<in> L \<and> ev_id e = i"
  by (simp add: ids_idx_def)

lemma ids_idx_None: "ids_idx s L \<Longrightarrow> map_of (by_id s) i = None \<longleftrightarrow> (\<forall>e \<in> L. ev_id e \<noteq> i)"
  using ids_idx_lookup [of s L i] by (cases "map_of (by_id s) i") auto

lemma ids_idx_inj: "ids_idx s L \<Longrightarrow> e \<in> L \<Longrightarrow> e' \<in> L \<Longrightarrow> ev_id e = ev_id e' \<Longrightarrow> e = e'"
  unfolding ids_idx_def by (metis option.inject)

lemma key_inj: "ids_idx s L \<Longrightarrow> e \<in> L \<Longrightarrow> e' \<in> L \<Longrightarrow> key_from_event e = key_from_event e' \<Longrightarrow> e = e'"
  using ids_idx_inj [of s L e e'] by (simp add: key_from_event_def)

lemma idx_ok_finite: "idx_ok s L \<Longrightarrow> finite L"
proof -
  assume "idx_ok s L"
  then have "L = ran (map_of (by_id s))" using idx_ok_live by (simp add: live_def)
  then show ?thesis by (simp add: finite_ran finite_dom_map_of)
qed

lemma length_by_id: "ids_idx s L \<Longrightarrow> length (by_id s) = card L"
proof -
  assume ok: "ids_idx s L"
  then have "dom (map_of (by_id s)) = ev_id ` L" by (auto simp: dom_def ids_idx_lookup)
  moreover have "inj_on ev_id L" using ids_idx_inj [OF ok] by (auto simp: inj_on_def)
  ultimately have "card (dom (map_of (by_id s))) = card L" by (simp add: card_image)
  with ok show ?thesis by (simp add: ids_idx_def hm.length_card)
qed

lemma idx_ok_new: "idx_ok (store_new opts) {}"
  by (auto simp: idx_ok_def idx_defs store_new_def hm.invar_empty bt.invar_empty hm_set_def
      hm_sets_invar_def)

lemma idx_ok_wipe: "idx_ok (store_wipe s) {}"
  by (auto simp: idx_ok_def idx_defs store_wipe_def hm.invar_empty bt.invar_empty hm_set_def
      hm_sets_invar_def)

lemma store_inv_empty: "idx_ok s {} \<Longrightarrow> deleted_coordinates s = [] \<Longrightarrow> store_inv s"
  by (simp add: store_inv_def idx_ok_live replaceable_unique_def hm.invar_empty)

text \<open>The indexes do not read the other fields.\<close>

lemma idx_ok_fields [simp]:
  "idx_ok (s\<lparr>deleted_ids := d\<rparr>) L = idx_ok s L"
  "idx_ok (s\<lparr>deleted_coordinates := dc\<rparr>) L = idx_ok s L"
  "idx_ok (s\<lparr>vanished_authors := v\<rparr>) L = idx_ok s L"
  by (simp_all add: idx_ok_def idx_defs)

section \<open>Removal\<close>

lemma remove_frame [simp]:
  "ms_options (remove_event_by_id i s) = ms_options s"
  "deleted_ids (remove_event_by_id i s) = deleted_ids s"
  "deleted_coordinates (remove_event_by_id i s) = deleted_coordinates s"
  "vanished_authors (remove_event_by_id i s) = vanished_authors s"
  by (simp_all add: remove_event_by_id_def Let_def split: option.splits)

lemma remove_fields:
  assumes "map_of (by_id s) i = Some e"
  shows "by_id (remove_event_by_id i s) = hm_remove i (by_id s)"
    and "by_time (remove_event_by_id i s) = bt_remove (key_from_event e) (by_time s)"
    and "by_author (remove_event_by_id i s) =
      hm_set_remove (ev_pubkey e) (key_from_event e) (by_author s)"
    and "by_kind_author (remove_event_by_id i s) =
      hm_set_remove (ev_kind e, ev_pubkey e) (key_from_event e) (by_kind_author s)"
    and "by_coordinate (remove_event_by_id i s) =
      (case addressable_coord e of
         None \<Rightarrow> by_coordinate s
       | Some c \<Rightarrow>
           (case map_of (by_coordinate s) c of
              Some w \<Rightarrow> if ev_id w = i then hm_remove c (by_coordinate s) else by_coordinate s
            | None \<Rightarrow> by_coordinate s))"
  using assms by (auto simp: remove_event_by_id_def Let_def split: option.splits)

lemma image_key_remove:
  assumes "ids_idx s L" and "e \<in> L"
  shows "key_from_event ` {x \<in> L. P x} - {key_from_event e} = key_from_event ` {x \<in> L - {e}. P x}"
  using assms key_inj [OF assms(1)] by blast

lemma remove_idx_Some:
  assumes ok: "idx_ok s L" and e: "map_of (by_id s) i = Some e"
  shows "idx_ok (remove_event_by_id i s) (L - {e})"
proof -
  have ids: "ids_idx s L" and time: "time_idx s L" and auth: "author_idx s L"
    and ka: "kind_author_idx s L" and co: "coord_idx s L"
    using ok by (simp_all add: idx_ok_def)
  have eL: "e \<in> L" "ev_id e = i" using e ids_idx_lookup [OF ids] by auto
  note fields = remove_fields [OF e]
  have "ids_idx (remove_event_by_id i s) (L - {e})"
    using ids eL ids_idx_inj [OF ids]
    by (auto simp: ids_idx_def fields hm.invar_del hm.lookup_del)
  moreover have "time_idx (remove_event_by_id i s) (L - {e})"
    using time eL key_inj [OF ids]
    by (auto simp: time_idx_def fields bt.invar_del bt.lookup_del)
  moreover have "author_idx (remove_event_by_id i s) (L - {e})"
    using auth eL image_key_remove [OF ids eL(1)]
    by (auto simp: author_idx_def fields hm_sets_invar_remove hm_set_remove_set)
  moreover have "kind_author_idx (remove_event_by_id i s) (L - {e})"
    using ka eL image_key_remove [OF ids eL(1)]
    by (auto simp: kind_author_idx_def fields hm_sets_invar_remove hm_set_remove_set)
  moreover have "coord_idx (remove_event_by_id i s) (L - {e})"
  proof (cases "addressable_coord e")
    case None
    with co show ?thesis by (auto simp: coord_idx_def fields)
  next
    case (Some c)
    have look: "\<And>c x. map_of (by_coordinate s) c = Some x \<longleftrightarrow> x \<in> L \<and> addressable_coord x = Some c"
      and inv: "hm_invar (by_coordinate s)"
      using co unfolding coord_idx_def by blast+
    have here: "map_of (by_coordinate s) c = Some e" using look eL Some by blast
    then have bc: "by_coordinate (remove_event_by_id i s) = hm_remove c (by_coordinate s)"
      using Some eL by (simp add: fields)
    have "map_of (hm_remove c (by_coordinate s)) d = Some x \<longleftrightarrow>
        x \<in> L - {e} \<and> addressable_coord x = Some d" for d x
      using look [of d x] look [of c x] here Some unfolding hm.lookup_del [OF inv]
      by (cases "d = c") auto
    with inv bc show ?thesis unfolding coord_idx_def by (metis hm.invar_del)
  qed
  ultimately show ?thesis by (simp add: idx_ok_def)
qed

lemma remove_idx:
  assumes ok: "idx_ok s L"
  shows "idx_ok (remove_event_by_id i s) {e \<in> L. ev_id e \<noteq> i}"
proof (cases "map_of (by_id s) i")
  case None
  then have "{e \<in> L. ev_id e \<noteq> i} = L"
    using ok ids_idx_None [of s L i] by (auto simp: idx_ok_def)
  with None ok show ?thesis by (simp add: remove_event_by_id_def)
next
  case (Some e)
  have ids: "ids_idx s L" using ok by (simp add: idx_ok_def)
  have e: "e \<in> L" "ev_id e = i" using Some ids_idx_lookup [OF ids] by auto
  have "L - {e} = {x \<in> L. ev_id x \<noteq> i}" using e ids_idx_inj [OF ids e(1)] by blast
  with remove_idx_Some [OF ok Some] show ?thesis by simp
qed

lemma remove_events_frame [simp]:
  "ms_options (remove_events is s) = ms_options s"
  "deleted_ids (remove_events is s) = deleted_ids s"
  "deleted_coordinates (remove_events is s) = deleted_coordinates s"
  "vanished_authors (remove_events is s) = vanished_authors s"
  unfolding remove_events_def by (induction "is" arbitrary: s) simp_all

lemma remove_events_idx:
  "idx_ok s L \<Longrightarrow> idx_ok (remove_events is s) {e \<in> L. ev_id e \<notin> set is}"
proof (induction "is" arbitrary: s L)
  case Nil
  then show ?case by (simp add: remove_events_def)
next
  case (Cons i "is")
  have "idx_ok (remove_events is (remove_event_by_id i s)) {e \<in> {e \<in> L. ev_id e \<noteq> i}. ev_id e \<notin> set is}"
    by (rule Cons.IH) (rule remove_idx [OF Cons.prems])
  moreover have "{e \<in> {e \<in> L. ev_id e \<noteq> i}. ev_id e \<notin> set is} = {e \<in> L. ev_id e \<notin> set (i # is)}"
    by auto
  ultimately show ?case by (simp add: remove_events_def)
qed

section \<open>Insertion\<close>

lemma insert_frame [simp]:
  "ms_options (insert_event e s) = ms_options s"
  "deleted_ids (insert_event e s) = deleted_ids s"
  "deleted_coordinates (insert_event e s) = deleted_coordinates s"
  "vanished_authors (insert_event e s) = vanished_authors s"
  by (simp_all add: insert_event_def Let_def split: option.splits)

lemma insert_fields:
  "by_id (insert_event e s) = hm_insert (ev_id e) e (by_id s)"
  "by_time (insert_event e s) = bt_insert (key_from_event e) e (by_time s)"
  "by_author (insert_event e s) = hm_entry [] (ev_pubkey e) (bs_insert (key_from_event e)) (by_author s)"
  "by_kind_author (insert_event e s) =
    hm_entry [] (ev_kind e, ev_pubkey e) (bs_insert (key_from_event e)) (by_kind_author s)"
  "by_coordinate (insert_event e s) =
    (case addressable_coord e of None \<Rightarrow> by_coordinate s | Some c \<Rightarrow> hm_insert c e (by_coordinate s))"
  by (auto simp: insert_event_def Let_def split: option.splits)

lemma insert_idx:
  assumes ok: "idx_ok s L"
    and fresh: "\<And>x. x \<in> L \<Longrightarrow> ev_id x \<noteq> ev_id e"
    and free: "\<And>x c. x \<in> L \<Longrightarrow> addressable_coord e = Some c \<Longrightarrow> addressable_coord x \<noteq> Some c"
  shows "idx_ok (insert_event e s) (insert e L)"
proof -
  have ids: "ids_idx s L" and time: "time_idx s L" and auth: "author_idx s L"
    and ka: "kind_author_idx s L" and co: "coord_idx s L"
    using ok by (simp_all add: idx_ok_def)
  have keys: "x \<in> L \<Longrightarrow> key_from_event x \<noteq> key_from_event e" for x
    using fresh by (auto simp: key_from_event_def)
  have "ids_idx (insert_event e s) (insert e L)"
    using ids fresh by (auto simp: ids_idx_def insert_fields hm.invar_ins hm.lookup_ins)
  moreover have "time_idx (insert_event e s) (insert e L)"
    using time keys by (auto simp: time_idx_def insert_fields bt.invar_ins bt.lookup_ins)
  moreover have "author_idx (insert_event e s) (insert e L)"
    using auth by (auto simp: author_idx_def insert_fields hm_sets_invar_insert hm_set_insert)
  moreover have "kind_author_idx (insert_event e s) (insert e L)"
    using ka by (auto simp: kind_author_idx_def insert_fields hm_sets_invar_insert hm_set_insert)
  moreover have "coord_idx (insert_event e s) (insert e L)"
    using co free by (cases "addressable_coord e")
      (auto simp: coord_idx_def insert_fields hm.invar_ins hm.lookup_ins)
  ultimately show ?thesis by (simp add: idx_ok_def)
qed

end
