(* ===== verification/Store_Spec.thy ===== *)
theory Store_Spec
  imports Memory_Invariant
begin

text \<open>
  What the in-memory store promises, without its indexes: an abstract state that is a set of
  live events with the tombstones and the vanished authors, and one definition per operation on
  it. The lemmas show that every operation of the store acts on the abstraction of its state
  as the specification says (\<open>save_refines\<close>) and that it keeps the indexes consistent.
\<close>

section \<open>The abstract store\<close>

record store_spec =
  sp_live :: "event set"
  sp_dead_ids :: "event_id set"
  sp_dead_coords :: "coord_key \<Rightarrow> timestamp option"
  sp_vanished :: "public_key set"

definition store_abs :: "memory_store \<Rightarrow> store_spec" where
  "store_abs s = \<lparr>sp_live = live s, sp_dead_ids = deleted_ids s,
     sp_dead_coords = map_of (deleted_coordinates s), sp_vanished = vanished_authors s\<rparr>"

text \<open>Two events compete for one slot when only the winner of them may be stored.\<close>

definition same_slot :: "event \<Rightarrow> event \<Rightarrow> bool" where
  "same_slot e x \<longleftrightarrow> ev_kind x = ev_kind e \<and> ev_pubkey x = ev_pubkey e \<and>
     (is_replaceable (ev_kind e) \<or>
      is_addressable (ev_kind e) \<and> addressable_coord x = addressable_coord e)"

definition spec_refusal :: "memory_options \<Rightarrow> store_spec \<Rightarrow> event \<Rightarrow> timestamp \<Rightarrow> rejected_reason option" where
  "spec_refusal opts A e now =
     (if process_nip62 opts \<and> ev_pubkey e \<in> sp_vanished A then Some Vanished
      else if is_ephemeral (ev_kind e) then Some Ephemeral
      else if is_expired e now = Inr True then Some Expired
      else if ev_id e \<in> sp_dead_ids A then Some Deleted
      else if (\<exists>c t. addressable_coord e = Some c \<and> sp_dead_coords A c = Some t \<and> ev_created_at e \<le> t)
        then Some Deleted
      else if (\<exists>x \<in> sp_live A. ev_id x = ev_id e) then Some Duplicate
      else if (\<exists>x \<in> sp_live A. same_slot e x \<and> key_from_event x < key_from_event e) then Some Replaced
      else None)"

definition coord_key_of :: "coordinate \<Rightarrow> coord_key" where
  "coord_key_of c = (c_kind c, c_author c, c_identifier c)"

text \<open>The coordinates of a request that name its own author.\<close>

definition own_coords :: "event \<Rightarrow> coordinate list \<Rightarrow> coord_key set" where
  "own_coords e cs = coord_key_of ` {c \<in> set cs. c_author c = ev_pubkey e}"

definition spec_delete_ids :: "event \<Rightarrow> event_id list \<Rightarrow> store_spec \<Rightarrow> store_spec" where
  "spec_delete_ids e is A = A\<lparr>
     sp_live := {x \<in> sp_live A. \<not> (ev_id x \<in> set is \<and> ev_pubkey x = ev_pubkey e)},
     sp_dead_ids := sp_dead_ids A \<union>
       {i \<in> set is. \<forall>x \<in> sp_live A. ev_id x = i \<longrightarrow> ev_pubkey x = ev_pubkey e}\<rparr>"

definition spec_delete_coords :: "event \<Rightarrow> coordinate list \<Rightarrow> store_spec \<Rightarrow> store_spec" where
  "spec_delete_coords e cs A = A\<lparr>
     sp_live := {x \<in> sp_live A.
       \<not> (addressable_coord x \<in> Some ` own_coords e cs \<and> ev_created_at x \<le> ev_created_at e)},
     sp_dead_coords := (\<lambda>c. if c \<in> own_coords e cs
       then Some (case sp_dead_coords A c of None \<Rightarrow> ev_created_at e | Some t \<Rightarrow> max t (ev_created_at e))
       else sp_dead_coords A c)\<rparr>"

definition spec_deletion :: "crates \<Rightarrow> event \<Rightarrow> store_spec \<Rightarrow> store_spec" where
  "spec_deletion X e A =
     (case deletion_from_event X e of
        Inl _ \<Rightarrow> A
      | Inr r \<Rightarrow> spec_delete_coords e (dr_coordinates r) (spec_delete_ids e (dr_event_ids r) A))"

definition spec_vanish :: "public_key \<Rightarrow> store_spec \<Rightarrow> store_spec" where
  "spec_vanish a A = A\<lparr>sp_live := {x \<in> sp_live A. ev_pubkey x \<noteq> a},
     sp_vanished := insert a (sp_vanished A)\<rparr>"

text \<open>The \<open>n\<close> newest events of a set.\<close>

definition newest :: "nat \<Rightarrow> event set \<Rightarrow> event set" where
  "newest n L = {x \<in> L. card {y \<in> L. key_from_event y < key_from_event x} < n}"

definition spec_cap :: "memory_options \<Rightarrow> event set \<Rightarrow> event set" where
  "spec_cap opts L = (case max_events opts of None \<Rightarrow> L | Some n \<Rightarrow> newest n L)"

text \<open>An accepted event: what competes with it goes, its effects apply, it is stored, and the
  store is cut to its capacity.\<close>

definition spec_effects :: "crates \<Rightarrow> memory_options \<Rightarrow> event \<Rightarrow> store_spec \<Rightarrow> store_spec" where
  "spec_effects X opts e A =
     (let A1 = A\<lparr>sp_live := {x \<in> sp_live A. \<not> same_slot e x}\<rparr>;
          A2 = (if process_nip09 opts \<and> ev_kind e = EVENT_DELETION then spec_deletion X e A1 else A1)
      in if process_nip62 opts \<and> ev_kind e = REQUEST_TO_VANISH then spec_vanish (ev_pubkey e) A2 else A2)"

definition spec_accept :: "crates \<Rightarrow> memory_options \<Rightarrow> event \<Rightarrow> store_spec \<Rightarrow> store_spec" where
  "spec_accept X opts e A =
     (let A' = spec_effects X opts e A
      in A'\<lparr>sp_live := spec_cap opts (insert e (sp_live A'))\<rparr>)"

definition spec_save ::
  "crates \<Rightarrow> memory_options \<Rightarrow> event \<Rightarrow> timestamp \<Rightarrow> store_spec \<Rightarrow> store_spec \<times> save_event_status" where
  "spec_save X opts e now A =
     (case spec_refusal opts A e now of
        Some r \<Rightarrow> (A, Rejected r)
      | None \<Rightarrow> (spec_accept X opts e A, Success))"

section \<open>Deletion\<close>

lemma store_abs_eq: "idx_ok s L \<Longrightarrow> store_abs s = \<lparr>sp_live = L, sp_dead_ids = deleted_ids s,
     sp_dead_coords = map_of (deleted_coordinates s), sp_vanished = vanished_authors s\<rparr>"
  by (simp add: store_abs_def idx_ok_live)

text \<open>The state relation of the refinement: indexes over the abstract live set, the
  tombstoned coordinates a proper map, the options untouched.\<close>

definition refines :: "memory_options \<Rightarrow> memory_store \<Rightarrow> store_spec \<Rightarrow> bool" where
  [inv_simps]: "refines opts s A \<longleftrightarrow> idx_ok s (sp_live A) \<and> hm_invar (deleted_coordinates s) \<and>
     ms_options s = opts \<and> A = store_abs s"

lemma refinesI:
  assumes "idx_ok s L" and "hm_invar (deleted_coordinates s)" and "ms_options s = opts"
    and "sp_live A = L" and "sp_dead_ids A = deleted_ids s"
    and "sp_dead_coords A = map_of (deleted_coordinates s)" and "sp_vanished A = vanished_authors s"
  shows "refines opts s A"
  using assms store_abs_eq [OF assms(1)] by (simp add: refines_def)

lemma refinesD:
  assumes "refines opts s A"
  shows "idx_ok s (sp_live A)" "hm_invar (deleted_coordinates s)" "ms_options s = opts"
    "sp_live A = live s" "sp_dead_ids A = deleted_ids s"
    "sp_dead_coords A = map_of (deleted_coordinates s)" "sp_vanished A = vanished_authors s"
proof -
  have "A = store_abs s" using assms by (simp add: refines_def)
  then show "sp_live A = live s" "sp_dead_ids A = deleted_ids s"
    "sp_dead_coords A = map_of (deleted_coordinates s)" "sp_vanished A = vanished_authors s"
    by (simp_all add: store_abs_def)
qed (use assms in \<open>unfold refines_def, blast+\<close>)

lemma delete_id_refines:
  assumes r: "refines opts s A"
  shows "refines opts (delete_id e s i) (spec_delete_ids e [i] A)"
proof -
  have ids: "ids_idx s (sp_live A)" using refinesD(1) [OF r] by (simp add: idx_ok_def)
  show ?thesis
  proof (cases "map_of (by_id s) i")
    case None
    then have no: "\<forall>x \<in> sp_live A. ev_id x \<noteq> i" using ids_idx_None [OF ids] by simp
    then show ?thesis using None refinesD [OF r]
      by (intro refinesI [where L = "sp_live A"]) (auto simp: delete_id_def spec_delete_ids_def)
  next
    case (Some t)
    then have t: "t \<in> sp_live A" "ev_id t = i" using ids_idx_lookup [OF ids] by auto
    then have only: "x \<in> sp_live A \<Longrightarrow> ev_id x = i \<Longrightarrow> x = t" for x using ids_idx_inj [OF ids] by auto
    show ?thesis
    proof (cases "ev_pubkey t = ev_pubkey e")
      case True
      have "{x \<in> sp_live A. ev_id x = i \<longrightarrow> ev_pubkey x \<noteq> ev_pubkey e} =
          {x \<in> sp_live A. ev_id x \<noteq> i}" using only True by auto
      moreover have "{j. j = i \<and> (\<forall>x \<in> sp_live A. ev_id x = j \<longrightarrow> ev_pubkey x = ev_pubkey e)} = {i}"
        using only True by auto
      ultimately show ?thesis using Some True refinesD [OF r] remove_idx [OF refinesD(1) [OF r], of i]
        by (intro refinesI [where L = "{x \<in> sp_live A. ev_id x \<noteq> i}"])
          (simp_all add: delete_id_def spec_delete_ids_def Let_def)
    next
      case False
      have "{x \<in> sp_live A. ev_id x = i \<longrightarrow> ev_pubkey x \<noteq> ev_pubkey e} = sp_live A"
        using only False by blast
      moreover have "{j. j = i \<and> (\<forall>x \<in> sp_live A. ev_id x = j \<longrightarrow> ev_pubkey x = ev_pubkey e)} = {}"
        using t False by blast
      ultimately show ?thesis using Some False refinesD [OF r]
        by (intro refinesI [where L = "sp_live A"]) (simp_all add: delete_id_def spec_delete_ids_def, blast)
    qed
  qed
qed

lemma spec_delete_ids_Cons:
  "spec_delete_ids e (i # is) A = spec_delete_ids e is (spec_delete_ids e [i] A)"
  by (rule store_spec.equality) (auto simp: spec_delete_ids_def)

lemma delete_ids_refines:
  "refines opts s A \<Longrightarrow> refines opts (foldl (delete_id e) s is) (spec_delete_ids e is A)"
proof (induction "is" arbitrary: s A)
  case Nil
  then show ?case by (simp add: spec_delete_ids_def)
next
  case (Cons i "is")
  then show ?case using delete_id_refines [of opts s A e i] spec_delete_ids_Cons [of e i "is" A] by simp
qed

lemma own_coords_simps [simp]:
  "own_coords e [] = {}"
  "own_coords e (c # cs) =
     (if c_author c = ev_pubkey e then insert (coord_key_of c) (own_coords e cs) else own_coords e cs)"
  by (auto simp: own_coords_def)

lemma delete_coordinate_refines:
  assumes r: "refines opts s A"
  shows "refines opts (delete_coordinate e s c) (spec_delete_coords e [c] A)"
proof (cases "c_author c = ev_pubkey e")
  case False
  then show ?thesis using r by (simp add: delete_coordinate_def spec_delete_coords_def)
next
  case own: True
  let ?k = "coord_key_of c"
  define L' where "L' = {x \<in> sp_live A. \<not> (addressable_coord x = Some ?k \<and> ev_created_at x \<le> ev_created_at e)}"
  define s1 where "s1 = (case map_of (by_coordinate s) ?k of
      Some w \<Rightarrow> if ev_created_at w \<le> ev_created_at e then remove_event_by_id (ev_id w) s else s
    | None \<Rightarrow> s)"
  have ids: "ids_idx s (sp_live A)" and co: "coord_idx s (sp_live A)"
    using refinesD(1) [OF r] by (simp_all add: idx_ok_def)
  have look: "map_of (by_coordinate s) ?k = Some x \<longleftrightarrow> x \<in> sp_live A \<and> addressable_coord x = Some ?k" for x
    using co unfolding coord_idx_def by blast
  have frame: "deleted_ids s1 = deleted_ids s" "deleted_coordinates s1 = deleted_coordinates s"
    "vanished_authors s1 = vanished_authors s" "ms_options s1 = ms_options s"
    by (simp_all add: s1_def split: option.splits)
  have "idx_ok s1 L'"
  proof (cases "map_of (by_coordinate s) ?k")
    case None
    then have "L' = sp_live A" using look by (auto simp: L'_def)
    with None refinesD(1) [OF r] show ?thesis by (simp add: s1_def)
  next
    case (Some w)
    then have w: "w \<in> sp_live A" "addressable_coord w = Some ?k"
      and only: "x \<in> sp_live A \<Longrightarrow> addressable_coord x = Some ?k \<Longrightarrow> x = w" for x
      using look [of x] look [of w] by auto
    have "ev_created_at w \<le> ev_created_at e \<Longrightarrow> L' = {x \<in> sp_live A. ev_id x \<noteq> ev_id w}"
      using ids_idx_inj [OF ids _ w(1)] only w unfolding L'_def by blast
    moreover have "\<not> ev_created_at w \<le> ev_created_at e \<Longrightarrow> L' = sp_live A"
      using only unfolding L'_def by blast
    ultimately have "L' = (if ev_created_at w \<le> ev_created_at e then {x \<in> sp_live A. ev_id x \<noteq> ev_id w} else sp_live A)"
      by presburger
    with Some refinesD(1) [OF r] remove_idx [OF refinesD(1) [OF r], of "ev_id w"] show ?thesis
      by (simp add: s1_def)
  qed
  moreover have "delete_coordinate e s c = s1\<lparr>deleted_coordinates := hm_insert ?k
      (case map_of (deleted_coordinates s) ?k of None \<Rightarrow> ev_created_at e | Some t \<Rightarrow> max t (ev_created_at e))
      (deleted_coordinates s)\<rparr>"
    using own frame unfolding delete_coordinate_def Let_def s1_def coord_key_of_def
    by (simp add: max_def split: option.splits)
  ultimately show ?thesis using refinesD [OF r] own frame
    by (intro refinesI [where L = L'])
      (simp_all add: spec_delete_coords_def L'_def hm.invar_ins hm.lookup_ins fun_upd_def, rule ext, simp)
qed

lemma spec_delete_coords_Cons:
  "spec_delete_coords e (c # cs) A = spec_delete_coords e cs (spec_delete_coords e [c] A)"
  by (rule store_spec.equality)
    (auto simp: spec_delete_coords_def fun_eq_iff max_def split: option.splits)

lemma delete_coordinates_refines:
  "refines opts s A \<Longrightarrow> refines opts (foldl (delete_coordinate e) s cs) (spec_delete_coords e cs A)"
proof (induction cs arbitrary: s A)
  case Nil
  then show ?case by (simp add: spec_delete_coords_def)
next
  case (Cons c cs)
  then show ?case
    using delete_coordinate_refines [of opts s A e c] spec_delete_coords_Cons [of e c cs A] by simp
qed

lemma apply_deletion_refines:
  "refines opts s A \<Longrightarrow> refines opts (apply_deletion X e s) (spec_deletion X e A)"
  unfolding apply_deletion_def spec_deletion_def
  by (cases "deletion_from_event X e") (simp_all add: delete_ids_refines delete_coordinates_refines)

end
