(* ===== verification/Store_Refinement.thy ===== *)
theory Store_Refinement
  imports Store_Spec
begin

text \<open>
  The refinement of the abstract store by the in-memory store: conflict resolution, vanishing,
  eviction and \<open>save_event\<close> as a whole, and the consequences for the invariant.
\<close>

section \<open>Vanishing\<close>

lemma author_ids:
  assumes "author_idx s L"
  shows "set (case map_of (by_author s) a of None \<Rightarrow> [] | Some ks \<Rightarrow> map ek_id ks) =
    ev_id ` {x \<in> L. ev_pubkey x = a}"
proof -
  have "ek_id ` hm_set (by_author s) a = ev_id ` {x \<in> L. ev_pubkey x = a}"
    using assms by (simp add: author_idx_def image_image)
  then show ?thesis by (simp add: hm_set_def split: option.splits)
qed

lemma apply_vanish_refines:
  assumes r: "refines opts s A"
  shows "refines opts (apply_vanish a s) (spec_vanish a A)"
proof -
  let ?ids = "case map_of (by_author s) a of None \<Rightarrow> [] | Some ks \<Rightarrow> map ek_id ks"
  have ok: "idx_ok s (sp_live A)" and au: "author_idx s (sp_live A)" and ids: "ids_idx s (sp_live A)"
    using refinesD(1) [OF r] by (simp_all add: idx_ok_def)
  have "idx_ok (remove_events ?ids (s\<lparr>vanished_authors := insert a (vanished_authors s)\<rparr>))
      {x \<in> sp_live A. ev_id x \<notin> set ?ids}"
    by (rule remove_events_idx) (simp add: ok)
  moreover have "{x \<in> sp_live A. ev_id x \<notin> set ?ids} = {x \<in> sp_live A. ev_pubkey x \<noteq> a}"
    unfolding author_ids [OF au] using ids_idx_inj [OF ids] by blast
  ultimately show ?thesis using refinesD [OF r]
    by (intro refinesI [where L = "{x \<in> sp_live A. ev_pubkey x \<noteq> a}"])
      (simp_all add: apply_vanish_def spec_vanish_def)
qed

section \<open>Conflicts\<close>

lemma kinds_disjoint: "is_replaceable k \<Longrightarrow> \<not> is_addressable k"
proof
  assume "is_replaceable k" "is_addressable k"
  then show False by (auto simp: kind_defs word_le_nat_alt)
qed

text \<open>The loser of two events with different ids is the one with the greater key.\<close>

lemma pick_loser_challenger:
  "ev_id i \<noteq> ev_id c \<Longrightarrow> pick_loser i c = ev_id c \<longleftrightarrow> key_from_event i < key_from_event c"
  by (auto simp: pick_loser_def less_event_key_def)

lemma pick_loser_cases: "pick_loser i c \<in> {ev_id i, ev_id c}"
  by (simp add: pick_loser_def)

definition rivals :: "event set \<Rightarrow> event \<Rightarrow> event set" where
  "rivals L e = {x \<in> L. same_slot e x}"

lemma rivals_replaceable:
  assumes "kind_author_idx s L" and "ids_idx s L" and "replaceable_unique L" and "is_replaceable (ev_kind e)"
  shows "resolve_replaceable s e = None \<and> rivals L e = {} \<or>
    (\<exists>x. resolve_replaceable s e = Some (pick_loser x e) \<and> rivals L e = {x})"
proof -
  have riv: "rivals L e = {x \<in> L. (ev_kind x, ev_pubkey x) = (ev_kind e, ev_pubkey e)}"
    using assms(4) by (auto simp: rivals_def same_slot_def)
  have set: "hm_set (by_kind_author s) (ev_kind e, ev_pubkey e) = key_from_event ` rivals L e"
    using assms(1) unfolding riv kind_author_idx_def by blast
  have uniq: "x \<in> rivals L e \<Longrightarrow> y \<in> rivals L e \<Longrightarrow> x = y" for x y
    using assms(3,4) unfolding riv replaceable_unique_def by auto
  have inv: "hm_sets_invar (by_kind_author s)" using assms(1) by (simp add: kind_author_idx_def)
  show ?thesis
  proof (cases "map_of (by_kind_author s) (ev_kind e, ev_pubkey e)")
    case None
    then show ?thesis using set by (simp add: hm_set_def resolve_replaceable_def)
  next
    case (Some ks)
    then obtain k ks' where ks: "ks = k # ks'"
      using inv unfolding hm_sets_invar_def by (metis neq_Nil_conv)
    then obtain x where x: "x \<in> rivals L e" "k = key_from_event x"
      using Some set by (auto simp: hm_set_def)
    then have "map_of (by_id s) (ek_id k) = Some x"
      using assms(2) by (simp add: ids_idx_lookup rivals_def)
    moreover have "rivals L e = {x}" using x uniq by blast
    ultimately show ?thesis using Some ks by (simp add: resolve_replaceable_def)
  qed
qed

lemma rivals_addressable:
  assumes "coord_idx s L" and "is_addressable (ev_kind e)"
  shows "resolve_addressable s e = None \<and> rivals L e = {} \<or>
    (\<exists>x. resolve_addressable s e = Some (pick_loser x e) \<and> rivals L e = {x})"
proof -
  obtain c where c: "addressable_coord e = Some c" using assms(2) by (simp add: addressable_coord_def)
  have riv: "rivals L e = {x \<in> L. addressable_coord x = Some c}"
    using assms(2) c kinds_disjoint [of "ev_kind e"]
    by (auto simp: rivals_def same_slot_def addressable_coord_def split: if_splits)
  have look: "map_of (by_coordinate s) c = Some x \<longleftrightarrow> x \<in> rivals L e" for x
    using assms(1) unfolding riv coord_idx_def by blast
  show ?thesis
  proof (cases "map_of (by_coordinate s) c")
    case None
    then show ?thesis using c look by (auto simp: resolve_addressable_def)
  next
    case (Some x)
    then have "rivals L e = {x}" using look by fastforce
    with Some c show ?thesis by (simp add: resolve_addressable_def)
  qed
qed

text \<open>Both resolvers as one: the incumbent of the event's slot, when there is one.\<close>

lemma resolve_conflict_cases:
  assumes ok: "idx_ok s L" and uniq: "replaceable_unique L"
  shows "resolve_conflict s e = Some s \<and> rivals L e = {} \<or>
    (\<exists>x. resolve_conflict s e =
        (if pick_loser x e = ev_id e then None else Some (remove_event_by_id (pick_loser x e) s)) \<and>
      rivals L e = {x})"
proof -
  have idx: "ids_idx s L" "kind_author_idx s L" "coord_idx s L" using ok by (simp_all add: idx_ok_def)
  consider "is_replaceable (ev_kind e)" | "is_addressable (ev_kind e)" "\<not> is_replaceable (ev_kind e)"
    | "\<not> is_replaceable (ev_kind e)" "\<not> is_addressable (ev_kind e)" by blast
  then show ?thesis
  proof cases
    case 1
    then show ?thesis using rivals_replaceable [OF idx(2,1) uniq 1] kinds_disjoint [OF 1]
      by (auto simp: resolve_conflict_def)
  next
    case 2
    then show ?thesis using rivals_addressable [OF idx(3) 2(1)] by (auto simp: resolve_conflict_def)
  next
    case 3
    then show ?thesis by (auto simp: resolve_conflict_def rivals_def same_slot_def)
  qed
qed

lemma resolve_conflict_spec:
  assumes ok: "idx_ok s L" and uniq: "replaceable_unique L"
    and fresh: "\<And>x. x \<in> L \<Longrightarrow> ev_id x \<noteq> ev_id e"
  shows "resolve_conflict s e = None \<longleftrightarrow> (\<exists>x \<in> L. same_slot e x \<and> key_from_event x < key_from_event e)"
    and "resolve_conflict s e = Some s1 \<Longrightarrow> idx_ok s1 {x \<in> L. \<not> same_slot e x}"
    and "resolve_conflict s e = Some s1 \<Longrightarrow> deleted_ids s1 = deleted_ids s \<and>
      deleted_coordinates s1 = deleted_coordinates s \<and> vanished_authors s1 = vanished_authors s \<and>
      ms_options s1 = ms_options s"
proof -
  have ids: "ids_idx s L" using ok by (simp add: idx_ok_def)
  have riv: "x \<in> rivals L e \<longleftrightarrow> x \<in> L \<and> same_slot e x" for x by (simp add: rivals_def)
  consider (none) "resolve_conflict s e = Some s" "rivals L e = {}"
    | (one) x where "resolve_conflict s e =
        (if pick_loser x e = ev_id e then None else Some (remove_event_by_id (pick_loser x e) s))"
      "rivals L e = {x}"
    using resolve_conflict_cases [OF ok uniq] by blast
  note conflict = this
  show "resolve_conflict s e = None \<longleftrightarrow> (\<exists>x \<in> L. same_slot e x \<and> key_from_event x < key_from_event e)"
    using conflict
  proof cases
    case none
    then show ?thesis using riv by auto
  next
    case (one x)
    then have "ev_id x \<noteq> ev_id e" using fresh riv by blast
    then have "resolve_conflict s e = None \<longleftrightarrow> key_from_event x < key_from_event e"
      using one pick_loser_challenger [of x e] by simp
    moreover have "(\<exists>y \<in> L. same_slot e y \<and> key_from_event y < key_from_event e) \<longleftrightarrow>
        (\<exists>y \<in> rivals L e. key_from_event y < key_from_event e)" using riv by blast
    ultimately show ?thesis using one(2) by simp
  qed
  show "resolve_conflict s e = Some s1 \<Longrightarrow> deleted_ids s1 = deleted_ids s \<and>
      deleted_coordinates s1 = deleted_coordinates s \<and> vanished_authors s1 = vanished_authors s \<and>
      ms_options s1 = ms_options s"
    using conflict by cases (auto split: if_splits)
  assume res: "resolve_conflict s e = Some s1"
  show "idx_ok s1 {x \<in> L. \<not> same_slot e x}" using conflict
  proof cases
    case none
    then have "{x \<in> L. \<not> same_slot e x} = L" using riv by blast
    with none res ok show ?thesis by simp
  next
    case (one x)
    then have "pick_loser x e = ev_id x" "s1 = remove_event_by_id (ev_id x) s"
      using res pick_loser_cases [of x e] by (auto split: if_splits)
    moreover have "{y \<in> L. \<not> same_slot e y} = L - {x}"
      unfolding one(2) [symmetric] rivals_def by blast
    moreover have "{y \<in> L. ev_id y \<noteq> ev_id x} = L - {x}"
      using one(2) riv ids_idx_inj [OF ids, of _ x] by blast
    ultimately show ?thesis using remove_idx [OF ok, of "ev_id x"] by simp
  qed
qed

section \<open>Eviction\<close>

lemma last_by_time:
  assumes ok: "idx_ok s L" and ne: "by_time s \<noteq> []"
  shows "\<exists>m \<in> L. ev_id m = ek_id (fst (last (by_time s))) \<and>
    (\<forall>y \<in> L. y \<noteq> m \<longrightarrow> key_from_event y < key_from_event m)"
proof -
  let ?p = "last (by_time s)"
  have ti: "time_idx s L" using ok by (simp add: idx_ok_def)
  then have inv: "bt_invar (by_time s)" by (simp add: time_idx_def)
  have entry: "(k, x) \<in> set (by_time s) \<longleftrightarrow> x \<in> L \<and> key_from_event x = k" for k x
    using ti by (simp add: time_idx_def bt.entries_iff)
  have m: "snd ?p \<in> L" "key_from_event (snd ?p) = fst ?p"
    using entry [of "fst ?p" "snd ?p"] ne by auto
  have "sorted_wrt (<) (map fst (butlast (by_time s)) @ [fst ?p])"
    using inv ne unfolding bt_invar_def by (metis append_butlast_last_id list.simps(8,9) map_append)
  then have below: "k \<in> fst ` set (butlast (by_time s)) \<Longrightarrow> k < fst ?p" for k
    by (auto simp: sorted_wrt_append)
  have "key_from_event y < fst ?p" if y: "y \<in> L" "y \<noteq> snd ?p" for y
  proof -
    have "(key_from_event y, y) \<in> set (butlast (by_time s) @ [?p])"
      using entry y(1) ne by simp
    then have "(key_from_event y, y) \<in> set (butlast (by_time s)) \<or> (key_from_event y, y) = ?p"
      by auto
    then have "(key_from_event y, y) \<in> set (butlast (by_time s))" using y(2) by (metis snd_conv)
    then have "key_from_event y \<in> fst ` set (butlast (by_time s))" by force
    then show ?thesis by (rule below)
  qed
  moreover have "ev_id (snd ?p) = ek_id (fst ?p)" by (simp flip: m(2))
  ultimately show ?thesis using m by auto
qed

lemma newest_all:
  assumes "finite L" and "card L \<le> n"
  shows "newest n L = L"
proof -
  have "card {y \<in> L. key_from_event y < key_from_event x} < n" if "x \<in> L" for x
  proof -
    have "{y \<in> L. key_from_event y < key_from_event x} \<subset> L" using that by auto
    from psubset_card_mono [OF assms(1) this] assms(2) show ?thesis by linarith
  qed
  then show ?thesis by (auto simp: newest_def)
qed

lemma newest_drop_oldest:
  assumes fin: "finite L" and m: "m \<in> L" and max: "\<And>y. y \<in> L \<Longrightarrow> y \<noteq> m \<Longrightarrow> key_from_event y < key_from_event m"
    and over: "n < card L"
  shows "newest n (L - {m}) = newest n L"
proof -
  have "{y \<in> L. key_from_event y < key_from_event m} = L - {m}" using max by auto
  then have "m \<notin> newest n L" using over m fin by (simp add: newest_def card_Diff_singleton_if)
  moreover have "{y \<in> L - {m}. key_from_event y < key_from_event x} = {y \<in> L. key_from_event y < key_from_event x}"
    if "x \<in> L - {m}" for x using max that by (auto dest: less_asym)
  ultimately have "x \<in> newest n (L - {m}) \<longleftrightarrow> x \<in> newest n L" for x
    unfolding newest_def by (cases "x = m"; cases "x \<in> L") simp_all
  then show ?thesis by blast
qed

lemma newest_card:
  assumes "finite L" and "inj_on key_from_event L"
  shows "card (newest n L) \<le> n"
  using assms
proof (induction "card L" arbitrary: L rule: less_induct)
  case less
  show ?case
  proof (cases "card L \<le> n")
    case True
    then show ?thesis using newest_all [OF less.prems(1)] by simp
  next
    case False
    then have "L \<noteq> {}" by auto
    let ?k = "Max (key_from_event ` L)"
    have "?k \<in> key_from_event ` L" using less.prems(1) \<open>L \<noteq> {}\<close> by (intro Max_in) auto
    then obtain m where m: "m \<in> L" "key_from_event m = ?k" by auto
    have top: "key_from_event y < key_from_event m" if "y \<in> L" "y \<noteq> m" for y
    proof -
      have "key_from_event y \<le> ?k" using less.prems(1) that by simp
      moreover have "key_from_event y \<noteq> key_from_event m"
        using less.prems(2) that m(1) by (auto dest: inj_onD)
      ultimately show ?thesis using m(2) by simp
    qed
    have "newest n (L - {m}) = newest n L"
      using False by (intro newest_drop_oldest less.prems(1) m(1) top) auto
    moreover have "card (newest n (L - {m})) \<le> n"
      using less.prems card_Diff1_less [OF less.prems(1) m(1)]
      by (intro less.hyps) (auto intro: inj_on_subset)
    ultimately show ?thesis by simp
  qed
qed

lemma enforce_loop_spec:
  assumes "idx_ok s L"
  shows "\<exists>s'. enforce_loop n s = Some s' \<and> idx_ok s' (newest n L) \<and> deleted_ids s' = deleted_ids s \<and>
    deleted_coordinates s' = deleted_coordinates s \<and> vanished_authors s' = vanished_authors s \<and>
    ms_options s' = ms_options s"
  using assms
proof (induction "card L" arbitrary: s L rule: less_induct)
  case less
  have fin: "finite L" and ids: "ids_idx s L" using less.prems idx_ok_finite by (auto simp: idx_ok_def)
  have len: "length (by_id s) = card L" using length_by_id [OF ids] .
  show ?case
  proof (cases "n < card L")
    case False
    then show ?thesis
      using less.prems newest_all [OF fin, of n] by (simp add: enforce_loop.simps [of n s] len)
  next
    case True
    then obtain x where "x \<in> L" by fastforce
    then have "map_of (by_time s) (key_from_event x) = Some x"
      using less.prems by (simp add: idx_ok_def time_idx_def)
    then have ne: "by_time s \<noteq> []" by auto
    obtain m where m: "m \<in> L" "ev_id m = ek_id (fst (last (by_time s)))"
      "\<And>y. y \<in> L \<Longrightarrow> y \<noteq> m \<Longrightarrow> key_from_event y < key_from_event m"
      using last_by_time [OF less.prems ne] by blast
    let ?s = "remove_event_by_id (ev_id m) s"
    have "{y \<in> L. ev_id y \<noteq> ev_id m} = L - {m}" using ids_idx_inj [OF ids _ m(1)] m(1) by blast
    then have ok: "idx_ok ?s (L - {m})" using remove_idx [OF less.prems, of "ev_id m"] by simp
    have "card (L - {m}) < card L" using fin m(1) by (rule card_Diff1_less)
    from less.hyps [OF this ok] newest_drop_oldest [OF fin m(1) m(3) True] True ne m(2)
    show ?thesis by (simp add: enforce_loop.simps [of n s] len)
  qed
qed

lemma enforce_capacity_spec:
  assumes "idx_ok s L"
  shows "\<exists>s'. enforce_capacity s = Some s' \<and> idx_ok s' (spec_cap (ms_options s) L) \<and>
    deleted_ids s' = deleted_ids s \<and> deleted_coordinates s' = deleted_coordinates s \<and>
    vanished_authors s' = vanished_authors s \<and> ms_options s' = ms_options s"
  using assms enforce_loop_spec [OF assms]
  by (auto simp: enforce_capacity_def spec_cap_def split: option.splits)

section \<open>Saving\<close>

lemma replaceable_unique_subset: "replaceable_unique L \<Longrightarrow> M \<subseteq> L \<Longrightarrow> replaceable_unique M"
  by (auto simp: replaceable_unique_def)

lemma replaceable_unique_insert:
  "replaceable_unique L \<Longrightarrow> (\<And>x. x \<in> L \<Longrightarrow> \<not> same_slot e x) \<Longrightarrow> replaceable_unique (insert e L)"
  unfolding replaceable_unique_def same_slot_def by (metis insert_iff)

lemma same_slot_coord:
  "addressable_coord e = Some c \<Longrightarrow> addressable_coord x = Some c \<Longrightarrow> same_slot e x"
  by (auto simp: same_slot_def addressable_coord_def split: if_splits)

lemma spec_cap_subset: "spec_cap opts L \<subseteq> L"
  by (auto simp: spec_cap_def newest_def split: option.splits)

lemma spec_deletion_live: "sp_live (spec_deletion X e A) \<subseteq> sp_live A"
  by (auto simp: spec_deletion_def spec_delete_ids_def spec_delete_coords_def split: sum.splits)

lemma spec_vanish_live: "sp_live (spec_vanish a A) \<subseteq> sp_live A"
  by (auto simp: spec_vanish_def)

lemma refusal_refines:
  assumes "refines opts s A"
  shows "spec_refusal opts A e now =
    (case refusal s e now of
       Some r \<Rightarrow> Some r
     | None \<Rightarrow> if \<exists>x \<in> sp_live A. same_slot e x \<and> key_from_event x < key_from_event e
         then Some Replaced else None)"
proof -
  note d = refinesD [OF assms]
  have ids: "ids_idx s (sp_live A)" using d(1) by (simp add: idx_ok_def)
  have dup: "map_of (by_id s) (ev_id e) \<noteq> None \<longleftrightarrow> (\<exists>x \<in> sp_live A. ev_id x = ev_id e)"
    using ids_idx_None [OF ids] by simp
  have tomb: "coordinate_tombstoned s e \<longleftrightarrow>
      (\<exists>c t. addressable_coord e = Some c \<and> sp_dead_coords A c = Some t \<and> ev_created_at e \<le> t)"
    unfolding coordinate_tombstoned_def d(6) by (cases "addressable_coord e") (auto split: option.splits)
  show ?thesis unfolding spec_refusal_def refusal_def tomb [symmetric] dup [symmetric] d(3,5,7) by simp
qed

text \<open>Inserting the event after its conflicts are gone, then cutting to capacity.\<close>

lemma insert_refines:
  assumes r: "refines opts s A" and fresh: "\<And>x. x \<in> sp_live A \<Longrightarrow> ev_id x \<noteq> ev_id e"
    and free: "\<And>x. x \<in> sp_live A \<Longrightarrow> \<not> same_slot e x"
  shows "\<exists>s'. enforce_capacity (insert_event e s) = Some s' \<and>
    refines opts s' (A\<lparr>sp_live := spec_cap opts (insert e (sp_live A))\<rparr>)"
proof -
  note d = refinesD [OF r]
  have "idx_ok (insert_event e s) (insert e (sp_live A))"
    using d(1) fresh free same_slot_coord by (blast intro: insert_idx)
  from enforce_capacity_spec [OF this] obtain s' where s': "enforce_capacity (insert_event e s) = Some s'"
    "idx_ok s' (spec_cap opts (insert e (sp_live A)))" "deleted_ids s' = deleted_ids s"
    "deleted_coordinates s' = deleted_coordinates s" "vanished_authors s' = vanished_authors s"
    "ms_options s' = opts" using d(3) by auto
  moreover have "refines opts s' (A\<lparr>sp_live := spec_cap opts (insert e (sp_live A))\<rparr>)"
    using s' d by (intro refinesI [OF s'(2)]) simp_all
  ultimately show ?thesis by blast
qed

lemma effects_refine:
  assumes "refines opts s A"
  shows "refines opts (if process_nip09 (ms_options s) \<and> ev_kind e = EVENT_DELETION
      then apply_deletion X e s else s)
    (if process_nip09 opts \<and> ev_kind e = EVENT_DELETION then spec_deletion X e A else A)"
    and "refines opts (if process_nip62 (ms_options s) \<and> ev_kind e = REQUEST_TO_VANISH
      then apply_vanish (ev_pubkey e) s else s)
    (if process_nip62 opts \<and> ev_kind e = REQUEST_TO_VANISH then spec_vanish (ev_pubkey e) A else A)"
  using assms refinesD(3) [OF assms] by (simp_all add: apply_deletion_refines apply_vanish_refines)

lemma accept_refines:
  assumes r: "refines opts s A" and uniq: "replaceable_unique (sp_live A)"
    and ref: "refusal s e now = None" and res: "resolve_conflict s e = Some s1"
  shows "\<exists>s'. save_event X e now s = Some (s', Success) \<and> refines opts s' (spec_accept X opts e A) \<and>
    replaceable_unique (sp_live (spec_accept X opts e A))"
proof -
  note d = refinesD [OF r]
  have ids: "ids_idx s (sp_live A)" using d(1) by (simp add: idx_ok_def)
  have "map_of (by_id s) (ev_id e) = None" using ref by (auto simp: refusal_def split: if_splits)
  then have fresh: "x \<in> sp_live A \<Longrightarrow> ev_id x \<noteq> ev_id e" for x using ids_idx_None [OF ids] by simp
  define A1 where "A1 = A\<lparr>sp_live := {x \<in> sp_live A. \<not> same_slot e x}\<rparr>"
  define A2 where "A2 = (if process_nip09 opts \<and> ev_kind e = EVENT_DELETION then spec_deletion X e A1 else A1)"
  define A3 where "A3 = (if process_nip62 opts \<and> ev_kind e = REQUEST_TO_VANISH
    then spec_vanish (ev_pubkey e) A2 else A2)"
  note conflict = resolve_conflict_spec [OF d(1) uniq fresh]
  have r1: "refines opts s1 A1"
    using conflict(2) [OF _ res] conflict(3) [OF _ res] d
    by (intro refinesI [where L = "sp_live A1"]) (simp_all add: A1_def)
  define s2 where "s2 = (if process_nip09 (ms_options s1) \<and> ev_kind e = EVENT_DELETION
    then apply_deletion X e s1 else s1)"
  define s3 where "s3 = (if process_nip62 (ms_options s2) \<and> ev_kind e = REQUEST_TO_VANISH
    then apply_vanish (ev_pubkey e) s2 else s2)"
  have r3: "refines opts s3 A3"
    unfolding s3_def A3_def s2_def A2_def by (intro effects_refine r1)
  have "sp_live A2 \<subseteq> sp_live A1" using spec_deletion_live [of X e A1] by (simp add: A2_def)
  moreover have "sp_live A3 \<subseteq> sp_live A2" using spec_vanish_live [of "ev_pubkey e" A2] by (simp add: A3_def)
  ultimately have sub: "sp_live A3 \<subseteq> {x \<in> sp_live A. \<not> same_slot e x}" by (auto simp: A1_def)
  obtain s' where s': "enforce_capacity (insert_event e s3) = Some s'"
      "refines opts s' (A3\<lparr>sp_live := spec_cap opts (insert e (sp_live A3))\<rparr>)"
    using insert_refines [OF r3, of e] fresh sub by blast
  have acc: "spec_accept X opts e A = A3\<lparr>sp_live := spec_cap opts (insert e (sp_live A3))\<rparr>"
    unfolding spec_accept_def spec_effects_def Let_def A1_def A2_def A3_def ..
  have "replaceable_unique (insert e (sp_live A3))"
    using sub uniq by (intro replaceable_unique_insert) (auto intro: replaceable_unique_subset)
  then have "replaceable_unique (sp_live (spec_accept X opts e A))"
    unfolding acc using spec_cap_subset by (auto intro: replaceable_unique_subset)
  moreover have "save_event X e now s = Some (s', Success)"
    unfolding save_event_def ref res Let_def option.case s2_def [symmetric] s3_def [symmetric] s'(1)
    by simp
  ultimately show ?thesis using s'(2) acc by auto
qed

lemma save_refines_aux:
  assumes r: "refines opts s A" and uniq: "replaceable_unique (sp_live A)"
  shows "\<exists>s' A' st. save_event X e now s = Some (s', st) \<and> spec_save X opts e now A = (A', st) \<and>
    refines opts s' A' \<and> replaceable_unique (sp_live A')"
proof (cases "refusal s e now")
  case (Some reason)
  then show ?thesis using assms by (simp add: save_event_def spec_save_def refusal_refines [OF r])
next
  case None
  have ids: "ids_idx s (sp_live A)" using refinesD(1) [OF r] by (simp add: idx_ok_def)
  have "map_of (by_id s) (ev_id e) = None" using None by (auto simp: refusal_def split: if_splits)
  then have fresh: "x \<in> sp_live A \<Longrightarrow> ev_id x \<noteq> ev_id e" for x using ids_idx_None [OF ids] by simp
  note lost = resolve_conflict_spec(1) [OF refinesD(1) [OF r] uniq fresh]
  show ?thesis
  proof (cases "resolve_conflict s e")
    case None': None
    then have "spec_refusal opts A e now = Some Replaced"
      using None lost by (simp add: refusal_refines [OF r])
    then show ?thesis using None None' assms by (simp add: save_event_def spec_save_def)
  next
    case (Some s1)
    then have "spec_refusal opts A e now = None" using None lost by (simp add: refusal_refines [OF r])
    then show ?thesis using accept_refines [OF r uniq None Some, of X] by (auto simp: spec_save_def)
  qed
qed

lemma store_inv_refines:
  "store_inv s \<longleftrightarrow> refines (ms_options s) s (store_abs s) \<and> replaceable_unique (sp_live (store_abs s))"
  by (auto simp: store_inv_def refines_def store_abs_def)

lemma save_refines:
  assumes "store_inv s"
  obtains s' st where "save_event X e now s = Some (s', st)" and "store_inv s'"
    and "ms_options s' = ms_options s"
    and "spec_save X (ms_options s) e now (store_abs s) = (store_abs s', st)"
  using save_refines_aux [of "ms_options s" s "store_abs s" X e now] assms that
  unfolding store_inv_refines by (metis refines_def)

lemma delete_matching_refines:
  assumes "store_inv s"
  shows "store_inv (delete_matching f s) \<and> ms_options (delete_matching f s) = ms_options s \<and>
    store_abs (delete_matching f s) =
      (store_abs s)\<lparr>sp_live := {x \<in> live s. ev_id x \<notin> ek_id ` set (query_keys s f)}\<rparr>"
proof -
  let ?L = "{x \<in> live s. ev_id x \<notin> ek_id ` set (query_keys s f)}"
  have ok: "idx_ok (delete_matching f s) ?L"
    using remove_events_idx [of s "live s" "map ek_id (query_keys s f)"] assms
    by (simp add: store_inv_def delete_matching_def)
  then have "live (delete_matching f s) = ?L" by (rule idx_ok_live)
  moreover have "replaceable_unique ?L"
    using assms by (auto simp: store_inv_def intro: replaceable_unique_subset)
  ultimately show ?thesis using assms ok
    by (simp add: store_inv_def store_abs_def delete_matching_def)
qed

end
