(* ===== verification/Store_Query.thy ===== *)
theory Store_Query
  imports Store_Refinement
begin

text \<open>
  Queries: every index plan of \<open>query_keys\<close> gives what a scan of the live events in key order
  would give (\<open>answer\<close>), with the one exception of the coordinate plan, whose exact result is
  stated apart, and with its precondition \<open>plan_exact\<close> made explicit.
\<close>

section \<open>The reference answer\<close>

definition selected :: "event set \<Rightarrow> nostr_filter \<Rightarrow> event set" where
  "selected L f = {x \<in> L. filter_selects f x}"

definition answer :: "event set \<Rightarrow> nostr_filter \<Rightarrow> event_key list" where
  "answer L f = take_limit (f_limit f) (sorted_list_of_set (key_from_event ` selected L f))"

text \<open>The coordinate plan answers from one entry of one index. It is exact unless the filter asks
  for no event at all, or an event of that kind and author carries the requested value in a \<open>d\<close> tag
  that is not its first.\<close>

definition plan_exact :: "event set \<Rightarrow> nostr_filter \<Rightarrow> bool" where
  "plan_exact L f \<longleftrightarrow>
     (case query_pattern_from f of
        QCoordinate k a d \<Rightarrow> f_limit f \<noteq> Some 0 \<and>
          (\<forall>x \<in> selected L f. addressable_coord x = Some (k, a, d))
      | _ \<Rightarrow> True)"

section \<open>Plans\<close>

lemma pattern_author:
  "query_pattern_from f = QAuthor a \<Longrightarrow> f_authors f = Some [a]"
  by (auto simp: query_pattern_from_def Let_def get_or_empty_def
      split: if_splits option.splits list.splits)

lemma pattern_kind_author:
  "query_pattern_from f = QKindAuthor k a \<Longrightarrow> f_authors f = Some [a] \<and> f_kinds f = Some [k]"
  by (auto simp: query_pattern_from_def Let_def get_or_empty_def
      split: if_splits option.splits list.splits)

lemma take_limit_map: "map g (take_limit n xs) = take_limit n (map g xs)"
  by (simp add: take_limit_def take_map split: option.splits)

lemma take_limit_set: "set (take_limit n xs) \<subseteq> set xs"
  by (auto simp: take_limit_def dest: in_set_takeD split: option.splits)

lemma take_limit_sorted: "sorted_wrt R xs \<Longrightarrow> sorted_wrt R (take_limit n xs)"
  by (simp add: take_limit_def sorted_wrt_take split: option.splits)

lemma sorted_keys_filter:
  "sorted_wrt (<) (map key_from_event es) \<Longrightarrow> sorted_wrt (<) (map key_from_event (filter P es))"
  by (induction es) auto

lemma materialise_answer:
  assumes "sorted_wrt (<) (map key_from_event es)" and "selected (set es) f = selected L f"
  shows "materialise f es = answer L f"
proof -
  let ?es = "filter (filter_selects f) es"
  have "set (map key_from_event ?es) = key_from_event ` selected L f"
    using assms(2) by (simp flip: assms(2) add: selected_def)
  moreover have "sorted_wrt (<) (map key_from_event ?es)"
    using assms(1) by (rule sorted_keys_filter)
  ultimately have "map key_from_event ?es = sorted_list_of_set (key_from_event ` selected L f)"
    by (metis sorted_list_of_set.idem_if_sorted_distinct strict_sorted_iff)
  then show ?thesis by (simp add: materialise_def answer_def match_event_default take_limit_map)
qed

lemma lookup_keys_map:
  assumes ids: "ids_idx s L" and "set ks \<subseteq> key_from_event ` L"
  shows "map key_from_event (lookup_keys s ks) = ks \<and> set (lookup_keys s ks) = {x \<in> L. key_from_event x \<in> set ks}"
  using assms(2)
proof (induction ks)
  case Nil
  then show ?case by (simp add: lookup_keys_def map_filter_simps)
next
  case (Cons k ks)
  then obtain x where x: "x \<in> L" "k = key_from_event x" by auto
  then have "map_of (by_id s) (ek_id k) = Some x" using ids by (simp add: ids_idx_lookup)
  moreover have "{y \<in> L. key_from_event y = k} = {x}" using x key_inj [OF ids] by blast
  ultimately show ?case using Cons x by (auto simp: lookup_keys_def map_filter_simps)
qed

lemma index_answer:
  assumes ids: "ids_idx s L" and inv: "hm_sets_invar m"
    and set: "hm_set m k = key_from_event ` {x \<in> L. P x}"
    and sel: "\<And>x. filter_selects f x \<Longrightarrow> P x"
  shows "(case map_of m k of Some ks \<Rightarrow> materialise f (lookup_keys s ks) | None \<Rightarrow> []) = answer L f"
proof (cases "map_of m k")
  case None
  then have "{x \<in> L. P x} = {}" using set by (simp add: hm_set_def)
  then have "selected L f = {}" using sel by (auto simp: selected_def)
  then show ?thesis using None by (simp add: answer_def take_limit_def split: option.splits)
next
  case (Some ks)
  then have keys: "set ks = key_from_event ` {x \<in> L. P x}" using set by (simp add: hm_set_def)
  have sorted: "bs_invar ks" using inv Some unfolding hm_sets_invar_def by blast
  have look: "map key_from_event (lookup_keys s ks) = ks"
    "set (lookup_keys s ks) = {x \<in> L. key_from_event x \<in> set ks}"
    using lookup_keys_map [OF ids, of ks] keys by auto
  have "{x \<in> L. key_from_event x \<in> set ks} = {x \<in> L. P x}" using keys key_inj [OF ids] by blast
  then have "selected (set (lookup_keys s ks)) f = selected L f"
    using look(2) sel by (auto simp: selected_def)
  then show ?thesis using Some materialise_answer [of "lookup_keys s ks" f L] look(1) sorted by simp
qed

lemma by_time_events:
  assumes "time_idx s L"
  shows "map key_from_event (map snd (by_time s)) = map fst (by_time s) \<and> set (map snd (by_time s)) = L"
proof -
  have entry: "(k, x) \<in> set (by_time s) \<longleftrightarrow> x \<in> L \<and> key_from_event x = k" for k x
    using assms by (simp add: time_idx_def bt.entries_iff)
  have "map key_from_event (map snd (by_time s)) = map fst (by_time s)"
    using entry by (auto simp: map_eq_conv)
  moreover have "set (map snd (by_time s)) = L" using entry by force
  ultimately show ?thesis by blast
qed

lemma generic_answer:
  assumes "time_idx s L"
  shows "materialise f (map snd (by_time s)) = answer L f"
proof (rule materialise_answer)
  show "sorted_wrt (<) (map key_from_event (map snd (by_time s)))"
    using assms by_time_events [OF assms] by (simp only: time_idx_def bt_invar_def)
  show "selected (set (map snd (by_time s))) f = selected L f"
    using by_time_events [OF assms] by simp
qed

text \<open>What the coordinate plan returns, without any precondition.\<close>

lemma coordinate_plan:
  assumes "coord_idx s L" and "query_pattern_from f = QCoordinate k a d"
  shows "query_keys s f = [] \<and> (\<forall>x \<in> selected L f. addressable_coord x \<noteq> Some (k, a, d)) \<or>
    (\<exists>x \<in> selected L f. addressable_coord x = Some (k, a, d) \<and> query_keys s f = [key_from_event x])"
proof -
  have look: "map_of (by_coordinate s) (k, a, d) = Some x \<longleftrightarrow> x \<in> L \<and> addressable_coord x = Some (k, a, d)" for x
    using assms(1) unfolding coord_idx_def by blast
  show ?thesis
  proof (cases "map_of (by_coordinate s) (k, a, d)")
    case None
    then show ?thesis using look assms(2) by (auto simp: query_keys_def selected_def)
  next
    case (Some x)
    have "\<forall>y \<in> selected L f. addressable_coord y = Some (k, a, d) \<longrightarrow> y = x"
      using Some look unfolding selected_def by (metis (lifting) mem_Collect_eq option.inject)
    then show ?thesis using Some look [of x] assms(2)
      by (auto simp: query_keys_def match_event_default selected_def)
  qed
qed

lemma query_keys_answer:
  assumes ok: "idx_ok s L" and exact: "plan_exact L f"
  shows "query_keys s f = answer L f"
proof -
  have idx: "ids_idx s L" "time_idx s L" "author_idx s L" "kind_author_idx s L" "coord_idx s L"
    using ok by (simp_all add: idx_ok_def)
  show ?thesis
  proof (cases "query_pattern_from f")
    case (QAuthor a)
    have "filter_selects f x \<Longrightarrow> ev_pubkey x = a" for x
      using pattern_author [OF QAuthor] by (simp add: filter_selects_def)
    then show ?thesis using idx QAuthor index_answer [of s L "by_author s" a "\<lambda>x. ev_pubkey x = a" f]
      by (simp add: query_keys_def author_idx_def)
  next
    case (QKindAuthor k a)
    have "filter_selects f x \<Longrightarrow> (ev_kind x, ev_pubkey x) = (k, a)" for x
      using pattern_kind_author [OF QKindAuthor] by (simp add: filter_selects_def)
    then show ?thesis
      using idx QKindAuthor
        index_answer [of s L "by_kind_author s" "(k, a)" "\<lambda>x. (ev_kind x, ev_pubkey x) = (k, a)" f]
      by (simp add: query_keys_def kind_author_idx_def)
  next
    case (QCoordinate k a d)
    have lim: "f_limit f \<noteq> Some 0" and sel: "\<forall>x \<in> selected L f. addressable_coord x = Some (k, a, d)"
      using exact QCoordinate by (simp_all add: plan_exact_def)
    have one: "take_limit (f_limit f) [y] = [y]" for y :: event_key
      using lim by (cases "f_limit f") (auto simp: take_limit_def take_Cons')
    have uniq: "x \<in> selected L f \<Longrightarrow> y \<in> selected L f \<Longrightarrow> x = y" for x y
      using sel idx(5) unfolding coord_idx_def selected_def
      by (metis (lifting) mem_Collect_eq option.inject)
    from coordinate_plan [OF idx(5) QCoordinate] show ?thesis
    proof (elim disjE bexE conjE)
      assume "query_keys s f = []" and "\<forall>x \<in> selected L f. addressable_coord x \<noteq> Some (k, a, d)"
      moreover from this sel have "selected L f = {}" by blast
      ultimately show ?thesis by (simp add: answer_def take_limit_def split: option.splits)
    next
      fix x assume x: "x \<in> selected L f" "query_keys s f = [key_from_event x]"
      then have "selected L f = {x}" using uniq by blast
      with x one show ?thesis by (simp add: answer_def)
    qed
  next
    case QGeneric
    then show ?thesis using generic_answer [OF idx(2)] by (simp add: query_keys_def)
  qed
qed

section \<open>What holds of every query\<close>

lemma answer_sorted: "sorted_wrt (<) (answer L f)"
  by (simp add: answer_def take_limit_sorted)

lemma answer_set: "finite L \<Longrightarrow> set (answer L f) \<subseteq> key_from_event ` selected L f"
  using take_limit_set [of "f_limit f" "sorted_list_of_set (key_from_event ` selected L f)"]
  by (simp add: answer_def selected_def)

lemma query_keys_sound:
  assumes ok: "idx_ok s L"
  shows "sorted_wrt (<) (query_keys s f) \<and> set (query_keys s f) \<subseteq> key_from_event ` selected L f"
proof (cases "\<exists>k a d. query_pattern_from f = QCoordinate k a d")
  case False
  then have "plan_exact L f" by (simp add: plan_exact_def split: query_pattern.splits)
  then show ?thesis
    using query_keys_answer [OF ok] answer_sorted answer_set idx_ok_finite [OF ok] by simp
next
  case True
  then obtain k a d where plan: "query_pattern_from f = QCoordinate k a d" by blast
  have look: "map_of (by_coordinate s) (k, a, d) = Some x \<Longrightarrow> x \<in> L" for x
    using ok unfolding idx_ok_def coord_idx_def by blast
  show ?thesis using plan look
    by (auto simp: query_keys_def selected_def match_event_default split: option.splits)
qed

lemma query_owned_keys:
  assumes ok: "idx_ok s L"
  shows "map key_from_event (query_owned s f) = query_keys s f"
    and "set (query_owned s f) \<subseteq> selected L f"
proof -
  have ids: "ids_idx s L" using ok by (simp add: idx_ok_def)
  have sub: "set (query_keys s f) \<subseteq> key_from_event ` selected L f"
    using query_keys_sound [OF ok] by blast
  then have look: "map key_from_event (query_owned s f) = query_keys s f"
    "set (query_owned s f) = {x \<in> L. key_from_event x \<in> set (query_keys s f)}"
    using lookup_keys_map [OF ids, of "query_keys s f"] by (auto simp: query_owned_def selected_def)
  then show "map key_from_event (query_owned s f) = query_keys s f" by blast
  show "set (query_owned s f) \<subseteq> selected L f"
    unfolding look(2) using sub key_inj [OF ids] unfolding selected_def by blast
qed

end
