(* ===== verification/Database_Interface.thy ===== *)
theory Database_Interface
  imports Store_Query
begin

text \<open>
  The \<open>NostrDatabase\<close> trait (nula-storage, database.rs) as an interface: the operations that
  change the state with the laws a backend promises, and what a client may conclude of every
  sequence of calls. The in-memory store is its instance, and \<open>db_reachable\<close> are the states
  a database handle can get into.
\<close>

section \<open>Calls\<close>

datatype db_op = OpSave event timestamp | OpDelete nostr_filter | OpWipe

text \<open>A call that does not return has no next state.\<close>

definition db_step :: "crates \<Rightarrow> db_op \<Rightarrow> memory_store \<Rightarrow> memory_store option" where
  "db_step X op s =
     (case op of
        OpSave e now \<Rightarrow> map_option fst (save_event X e now s)
      | OpDelete f \<Rightarrow> Some (delete_matching f s)
      | OpWipe \<Rightarrow> Some (store_wipe s))"

inductive db_reachable :: "crates \<Rightarrow> memory_options \<Rightarrow> memory_store \<Rightarrow> bool" for X opts where
  reach_new: "db_reachable X opts (store_new opts)"
| reach_step: "db_reachable X opts s \<Longrightarrow> db_step X op s = Some s' \<Longrightarrow> db_reachable X opts s'"

text \<open>The statuses of a sequence of saves at one time, and the store after it.\<close>

fun save_all ::
  "crates \<Rightarrow> timestamp \<Rightarrow> event list \<Rightarrow> memory_store \<Rightarrow> (memory_store \<times> save_event_status list) option" where
  "save_all X now [] s = Some (s, [])"
| "save_all X now (e # es) s =
     Option.bind (save_event X e now s) (\<lambda>r.
     Option.bind (save_all X now es (fst r)) (\<lambda>q. Some (fst q, snd r # snd q)))"

section \<open>The interface\<close>

text \<open>
  \<open>rel s A\<close>: the backend state \<open>s\<close> stands for the abstract store \<open>A\<close>. The laws are those of the
  refinement; what holds of the abstract store after a call then holds of the backend.
\<close>

locale event_database =
  fixes save :: "event \<Rightarrow> timestamp \<Rightarrow> 's \<Rightarrow> ('s \<times> save_event_status) option"
    and lookup :: "'s \<Rightarrow> event_id \<Rightarrow> event option"
    and query :: "'s \<Rightarrow> nostr_filter \<Rightarrow> event list"
    and inv :: "'s \<Rightarrow> bool"
    and abstr :: "'s \<Rightarrow> store_spec"
    and opts :: "'s \<Rightarrow> memory_options"
    and X :: crates
  assumes save_law: "inv s \<Longrightarrow> \<exists>s' st. save e now s = Some (s', st) \<and> inv s' \<and> opts s' = opts s \<and>
      spec_save X (opts s) e now (abstr s) = (abstr s', st)"
    and lookup_law: "inv s \<Longrightarrow> lookup s i = Some x \<longleftrightarrow> x \<in> sp_live (abstr s) \<and> ev_id x = i"
    and query_law: "inv s \<Longrightarrow> set (query s f) \<subseteq> selected (sp_live (abstr s)) f"
begin

text \<open>A rejected save changes nothing a client can see.\<close>

lemma rejected_unchanged:
  assumes "inv s" and "save e now s = Some (s', Rejected r)"
  shows "abstr s' = abstr s"
  using save_law [OF assms(1), of e now] assms(2)
  by (auto simp: spec_save_def split: option.splits)

text \<open>The status is a function of the abstract state and the options.\<close>

lemma status_spec:
  assumes "inv s" and "save e now s = Some (s', st)"
  shows "st = (case spec_refusal (opts s) (abstr s) e now of None \<Rightarrow> Success | Some r \<Rightarrow> Rejected r)"
    and "inv s'" and "opts s' = opts s"
    and "st = Success \<Longrightarrow> abstr s' = spec_accept X (opts s) e (abstr s)"
  using save_law [OF assms(1), of e now] assms(2)
  by (auto simp: spec_save_def split: option.splits)

text \<open>An event that is found was saved by somebody and is returned unchanged.\<close>

lemma query_lookup: "inv s \<Longrightarrow> x \<in> set (query s f) \<Longrightarrow> lookup s (ev_id x) = Some x"
  using query_law [of s f] lookup_law [of s "ev_id x" x] by (auto simp: selected_def)

lemma accepted_live:
  assumes "inv s" and "save e now s = Some (s', Success)" and "max_events (opts s) = None"
  shows "lookup s' (ev_id e) = Some e"
  using status_spec [OF assms(1,2)] lookup_law [of s' "ev_id e" e] assms(3)
  by (simp add: spec_accept_def Let_def spec_cap_def)

end

lemma event_by_id_live: "store_inv s \<Longrightarrow> event_by_id s i = Some x \<longleftrightarrow> x \<in> live s \<and> ev_id x = i"
  by (simp add: store_inv_def idx_ok_def event_by_id_def ids_idx_lookup)

interpretation mem: event_database "save_event X" event_by_id query_owned store_inv store_abs ms_options X
  for X
proof
  fix s e now i x f
  assume inv: "store_inv s"
  show "\<exists>s' st. save_event X e now s = Some (s', st) \<and> store_inv s' \<and> ms_options s' = ms_options s \<and>
      spec_save X (ms_options s) e now (store_abs s) = (store_abs s', st)"
    by (rule save_refines [OF inv, of X e now]) blast
  show "event_by_id s i = Some x \<longleftrightarrow> x \<in> sp_live (store_abs s) \<and> ev_id x = i"
    using event_by_id_live [OF inv] by (simp add: store_abs_def)
  show "set (query_owned s f) \<subseteq> selected (sp_live (store_abs s)) f"
    using query_owned_keys(2) [of s "live s" f] inv by (simp add: store_inv_def store_abs_def)
qed

section \<open>Reachable states\<close>

lemma db_step_inv:
  assumes "store_inv s" and "db_step X op s = Some s'"
  shows "store_inv s' \<and> ms_options s' = ms_options s"
proof (cases op)
  case (OpSave e now)
  then obtain st where "save_event X e now s = Some (s', st)" using assms(2) by (auto simp: db_step_def)
  then show ?thesis using mem.status_spec [OF assms(1)] by blast
next
  case (OpDelete f)
  then show ?thesis using assms delete_matching_refines [of s f] by (simp add: db_step_def)
next
  case OpWipe
  then show ?thesis using assms(2) store_inv_empty [OF idx_ok_wipe [of s]]
    by (auto simp: db_step_def store_wipe_def)
qed

lemma reachable_inv:
  assumes "db_reachable X opts s"
  shows "store_inv s \<and> ms_options s = opts"
  using assms
proof (induction rule: db_reachable.induct)
  case reach_new
  show ?case using store_inv_empty [OF idx_ok_new [of opts]] by (simp add: store_new_def)
next
  case (reach_step s op s')
  then show ?case using db_step_inv by blast
qed

lemma save_all_inv:
  assumes "store_inv s"
  shows "\<exists>s' sts. save_all X now es s = Some (s', sts) \<and> store_inv s' \<and> ms_options s' = ms_options s \<and>
    length sts = length es"
  using assms
proof (induction es arbitrary: s)
  case Nil
  then show ?case by simp
next
  case (Cons e es)
  obtain s1 st where s1: "save_event X e now s = Some (s1, st)" "store_inv s1" "ms_options s1 = ms_options s"
    by (rule save_refines [OF Cons.prems, of X e now])
  from Cons.IH [OF s1(2)] s1 show ?case by auto
qed

end
