(* ===== verification/Store_Convergence.thy ===== *)
theory Store_Convergence
  imports Database_Interface
begin

text \<open>
  Consequences of the refinement for whole histories: what a save keeps of other authors'
  events, tombstones that never come back, the capacity bound, and convergence, the order in which
  replaceable and addressable events arrive does not matter.
\<close>

section \<open>The accepted event in the abstract store\<close>

lemma sp_live_abs [simp]: "sp_live (store_abs s) = live s"
  and sp_dead_ids_abs [simp]: "sp_dead_ids (store_abs s) = deleted_ids s"
  and sp_dead_coords_abs [simp]: "sp_dead_coords (store_abs s) = map_of (deleted_coordinates s)"
  and sp_vanished_abs [simp]: "sp_vanished (store_abs s) = vanished_authors s"
  by (simp_all add: store_abs_def)

lemma live_after_save:
  assumes "store_inv s" and "save_event X e now s = Some (s', st)"
  shows "live s' = (if st = Success then sp_live (spec_accept X (ms_options s) e (store_abs s)) else live s)"
proof (cases st)
  case Success
  then have "store_abs s' = spec_accept X (ms_options s) e (store_abs s)"
    using mem.status_spec(4) [OF assms] by simp
  then show ?thesis using Success sp_live_abs [of s'] by simp
next
  case (Rejected r)
  then have "store_abs s' = store_abs s" using mem.rejected_unchanged assms by blast
  then show ?thesis using Rejected sp_live_abs [of s'] by simp
qed

lemma spec_deletion_keeps:
  "x \<in> sp_live A \<Longrightarrow> ev_pubkey x \<noteq> ev_pubkey e \<Longrightarrow> x \<in> sp_live (spec_deletion X e A)"
  by (auto simp: spec_deletion_def spec_delete_ids_def spec_delete_coords_def own_coords_def
      coord_key_of_def addressable_coord_def split: sum.splits if_splits)

lemma spec_deletion_dead:
  "sp_dead_ids A \<subseteq> sp_dead_ids (spec_deletion X e A)" "sp_vanished (spec_deletion X e A) = sp_vanished A"
  by (auto simp: spec_deletion_def spec_delete_ids_def spec_delete_coords_def split: sum.splits)

lemma spec_vanish_simps:
  "sp_live (spec_vanish a A) = {x \<in> sp_live A. ev_pubkey x \<noteq> a}"
  "sp_dead_ids (spec_vanish a A) = sp_dead_ids A"
  "sp_dead_coords (spec_vanish a A) = sp_dead_coords A"
  "sp_vanished (spec_vanish a A) = insert a (sp_vanished A)"
  by (simp_all add: spec_vanish_def)

lemma spec_effects_cases:
  fixes X opts e A
  defines "A1 \<equiv> A\<lparr>sp_live := {x \<in> sp_live A. \<not> same_slot e x}\<rparr>"
  shows "spec_effects X opts e A \<in>
    {A1, spec_deletion X e A1, spec_vanish (ev_pubkey e) A1, spec_vanish (ev_pubkey e) (spec_deletion X e A1)}"
  unfolding spec_effects_def Let_def A1_def [symmetric] by simp

lemma spec_effects_live: "sp_live (spec_effects X opts e A) \<subseteq> {x \<in> sp_live A. \<not> same_slot e x}"
  using spec_effects_cases [of X opts e A]
    spec_deletion_live [of X e "A\<lparr>sp_live := {x \<in> sp_live A. \<not> same_slot e x}\<rparr>"]
  by (auto simp: spec_vanish_simps)

lemma spec_effects_keeps:
  "x \<in> sp_live A \<Longrightarrow> ev_pubkey x \<noteq> ev_pubkey e \<Longrightarrow> x \<in> sp_live (spec_effects X opts e A)"
  using spec_effects_cases [of X opts e A]
    spec_deletion_keeps [of x "A\<lparr>sp_live := {x \<in> sp_live A. \<not> same_slot e x}\<rparr>" e X]
  by (auto simp: spec_vanish_simps same_slot_def)

lemma spec_effects_dead:
  "sp_dead_ids A \<subseteq> sp_dead_ids (spec_effects X opts e A)"
  "sp_vanished A \<subseteq> sp_vanished (spec_effects X opts e A)"
  using spec_effects_cases [of X opts e A]
    spec_deletion_dead(1) [of "A\<lparr>sp_live := {x \<in> sp_live A. \<not> same_slot e x}\<rparr>" X e]
    spec_deletion_dead(2) [of X e "A\<lparr>sp_live := {x \<in> sp_live A. \<not> same_slot e x}\<rparr>"]
  by (auto simp: spec_vanish_simps)

lemma spec_accept_simps:
  "sp_live (spec_accept X opts e A) = spec_cap opts (insert e (sp_live (spec_effects X opts e A)))"
  "sp_dead_ids (spec_accept X opts e A) = sp_dead_ids (spec_effects X opts e A)"
  "sp_dead_coords (spec_accept X opts e A) = sp_dead_coords (spec_effects X opts e A)"
  "sp_vanished (spec_accept X opts e A) = sp_vanished (spec_effects X opts e A)"
  by (simp_all add: spec_accept_def Let_def)

lemma spec_accept_live: "sp_live (spec_accept X opts e A) \<subseteq> insert e (sp_live A)"
  using spec_cap_subset spec_effects_live [of X opts e A] by (fastforce simp: spec_accept_simps)

text \<open>An id that is tombstoned and not stored is never stored again by a save.\<close>

lemma dead_step:
  assumes "store_inv s" and "save_event X e now s = Some (s', st)"
    and "i \<in> deleted_ids s" and "i \<notin> ev_id ` live s"
  shows "i \<in> deleted_ids s' \<and> i \<notin> ev_id ` live s'"
proof (cases st)
  case (Rejected r)
  then have "store_abs s' = store_abs s" using mem.rejected_unchanged assms by blast
  then show ?thesis using assms(3,4) by (metis sp_live_abs sp_dead_ids_abs)
next
  case Success
  then have abs: "store_abs s' = spec_accept X (ms_options s) e (store_abs s)"
    using mem.status_spec(4) [OF assms(1,2)] by simp
  have "spec_refusal (ms_options s) (store_abs s) e now = None"
    using mem.status_spec(1) [OF assms(1,2)] Success by (auto split: option.splits)
  then have "ev_id e \<noteq> i" using assms(3) by (auto simp: spec_refusal_def split: if_splits)
  moreover have "live s' \<subseteq> insert e (live s)"
    using spec_accept_live [of X "ms_options s" e "store_abs s"] by (metis abs sp_live_abs)
  moreover have "i \<in> deleted_ids s'"
    using spec_effects_dead(1) [of "store_abs s" X "ms_options s" e] assms(3)
    by (metis abs sp_dead_ids_abs spec_accept_simps(2) subsetD)
  ultimately show ?thesis using assms(4) by blast
qed

lemma dead_forever:
  assumes "store_inv s" and "save_all X now es s = Some (s', sts)"
    and "i \<in> deleted_ids s" and "i \<notin> ev_id ` live s"
  shows "i \<in> deleted_ids s' \<and> i \<notin> ev_id ` live s'"
  using assms
proof (induction es arbitrary: s sts)
  case Nil
  then show ?case by simp
next
  case (Cons e es)
  obtain s1 st where s1: "save_event X e now s = Some (s1, st)" "store_inv s1"
    by (rule save_refines [OF Cons.prems(1), of X e now])
  obtain sts' where rest: "save_all X now es s1 = Some (s', sts')"
    using Cons.prems(2) s1(1) by (auto simp: bind_eq_Some_conv)
  have "i \<in> deleted_ids s1 \<and> i \<notin> ev_id ` live s1"
    using dead_step [OF Cons.prems(1) s1(1) Cons.prems(3,4)] .
  with Cons.IH [OF s1(2) rest] show ?case by blast
qed

section \<open>Capacity\<close>

lemma live_finite: "store_inv s \<Longrightarrow> finite (live s)"
  unfolding store_inv_def by (blast intro: idx_ok_finite)

lemma store_len_card: "store_inv s \<Longrightarrow> store_len s = card (live s)"
  by (simp add: store_inv_def idx_ok_def store_len_def length_by_id)

lemma live_keys_inj: "store_inv s \<Longrightarrow> inj_on key_from_event (live s)"
  using key_inj [of s "live s"] by (auto simp: store_inv_def idx_ok_def inj_on_def)

lemma capacity_step:
  assumes inv: "store_inv s" and step: "db_step X op s = Some s'"
    and cap: "max_events (ms_options s) = Some n" and len: "store_len s \<le> n"
  shows "store_len s' \<le> n"
proof (cases op)
  case (OpSave e now)
  then obtain st where save: "save_event X e now s = Some (s', st)" using step by (auto simp: db_step_def)
  have inv': "store_inv s'" using mem.status_spec(2) [OF inv save] .
  show ?thesis
  proof (cases "st = Success")
    case True
    let ?A = "spec_accept X (ms_options s) e (store_abs s)"
    have live: "live s' = sp_live ?A" using live_after_save [OF inv save] True by simp
    have "\<exists>M. sp_live ?A = newest n M \<and> M \<subseteq> insert e (live s)"
      using cap spec_effects_live [of X "ms_options s" e "store_abs s"]
      by (auto simp: spec_accept_simps spec_cap_def)
    then obtain M where M: "live s' = newest n M" "M \<subseteq> insert e (live s)" using live by auto
    have fresh: "ev_id e \<notin> ev_id ` live s"
      using mem.status_spec(1) [OF inv save] True
      by (auto simp: spec_refusal_def split: option.splits if_splits)
    have "inj_on key_from_event (insert e (live s))"
      using live_keys_inj [OF inv] fresh by (auto simp: key_from_event_def)
    then have "inj_on key_from_event M" using M(2) by (rule inj_on_subset)
    moreover have "finite M" using M(2) live_finite [OF inv] by (auto intro: finite_subset)
    ultimately show ?thesis using newest_card M(1) store_len_card [OF inv'] by simp
  next
    case False
    then show ?thesis using live_after_save [OF inv save] store_len_card inv inv' len by simp
  qed
next
  case (OpDelete f)
  then have s': "s' = delete_matching f s" using step by (simp add: db_step_def)
  have "live s' \<subseteq> live s"
    using delete_matching_refines [OF inv, of f] sp_live_abs [of s'] s' by auto
  then show ?thesis
    using len store_len_card inv delete_matching_refines [OF inv, of f] s' card_mono [OF live_finite [OF inv]]
    by (metis le_trans)
next
  case OpWipe
  then show ?thesis using step by (auto simp: db_step_def store_wipe_def store_len_def)
qed

section \<open>Convergence\<close>

text \<open>The events of a set that no other of their slot beats.\<close>

definition champions :: "event set \<Rightarrow> event set" where
  "champions M = {x \<in> M. \<forall>y \<in> M. same_slot x y \<longrightarrow> key_from_event x \<le> key_from_event y}"

lemma same_slot_sym: "same_slot x y \<Longrightarrow> same_slot y x"
  by (auto simp: same_slot_def)

lemma same_slot_trans: "same_slot x y \<Longrightarrow> same_slot y z \<Longrightarrow> same_slot x z"
  by (auto simp: same_slot_def)

lemma same_slot_kind: "same_slot x y \<Longrightarrow> is_replaceable (ev_kind x) \<or> is_addressable (ev_kind x)"
  by (auto simp: same_slot_def)

text \<open>Every contender is matched by a champion of its slot.\<close>

lemma champion_below:
  assumes "finite M" and "x \<in> M" and "same_slot x x"
  obtains c where "c \<in> champions M" and "same_slot x c" and "key_from_event c \<le> key_from_event x"
proof -
  let ?S = "{y \<in> M. same_slot x y}"
  have fin: "finite (key_from_event ` ?S)" and ne: "key_from_event ` ?S \<noteq> {}" using assms by auto
  obtain c where c: "c \<in> ?S" "key_from_event c = Min (key_from_event ` ?S)"
    using Min_in [OF fin ne] by auto
  have low: "y \<in> ?S \<Longrightarrow> key_from_event c \<le> key_from_event y" for y using c(2) fin by simp
  have "c \<in> champions M"
    using c(1) low same_slot_trans [of x c] by (auto simp: champions_def)
  with c(1) low assms(2,3) show thesis using that by blast
qed

lemma champions_Un:
  assumes fin: "finite M"
  shows "champions (S \<union> champions M) = champions (S \<union> M)"
proof -
  have beaten: "\<exists>c \<in> champions M. same_slot x c \<and> key_from_event c \<le> key_from_event y"
    if y: "y \<in> M" "same_slot x y" for x y
  proof -
    have "same_slot y y" using y(2) same_slot_sym same_slot_trans by blast
    from this obtain c where "c \<in> champions M" "same_slot y c" "key_from_event c \<le> key_from_event y"
      by (rule champion_below [OF fin y(1)])
    then show ?thesis using y(2) same_slot_trans by blast
  qed
  have sub: "champions M \<subseteq> M" by (auto simp: champions_def)
  show ?thesis
  proof (intro set_eqI iffI)
    fix x assume x: "x \<in> champions (S \<union> champions M)"
    have "key_from_event x \<le> key_from_event y" if y: "y \<in> S \<union> M" "same_slot x y" for y
    proof (cases "y \<in> M")
      case True
      then obtain c where c: "c \<in> champions M" "same_slot x c" "key_from_event c \<le> key_from_event y"
        using beaten y(2) by blast
      then have "key_from_event x \<le> key_from_event c" using x by (auto simp: champions_def)
      with c(3) show ?thesis by simp
    next
      case False
      then show ?thesis using x y by (auto simp: champions_def)
    qed
    then show "x \<in> champions (S \<union> M)" using x sub by (auto simp: champions_def)
  next
    fix x assume "x \<in> champions (S \<union> M)"
    then show "x \<in> champions (S \<union> champions M)" using sub by (auto simp: champions_def)
  qed
qed

text \<open>A save of a replaceable or addressable event that the write rules admit.\<close>

definition admissible :: "memory_options \<Rightarrow> store_spec \<Rightarrow> timestamp \<Rightarrow> event \<Rightarrow> bool" where
  "admissible opts A now e \<longleftrightarrow>
     (is_replaceable (ev_kind e) \<or> is_addressable (ev_kind e)) \<and>
     spec_refusal opts (A\<lparr>sp_live := {}\<rparr>) e now = None"

lemma slot_kinds:
  assumes "is_replaceable k \<or> is_addressable k"
  shows "k \<noteq> EVENT_DELETION" and "k \<noteq> REQUEST_TO_VANISH"
  using assms by (auto simp: EVENT_DELETION_def REQUEST_TO_VANISH_def kind_defs)

lemma admissible_save:
  assumes adm: "admissible opts A now e" and cap: "max_events opts = None"
    and slots: "champions (sp_live A) = sp_live A"
    and ids: "inj_on ev_id (insert e (sp_live A))"
  shows "fst (spec_save X opts e now A) = A\<lparr>sp_live := champions (insert e (sp_live A))\<rparr>"
proof -
  let ?L = "sp_live A"
  have kind: "is_replaceable (ev_kind e) \<or> is_addressable (ev_kind e)" using adm by (simp add: admissible_def)
  have refl: "same_slot e e" using kind by (auto simp: same_slot_def)
  have own: "x \<in> ?L \<Longrightarrow> y \<in> ?L \<Longrightarrow> same_slot x y \<Longrightarrow> key_from_event x \<le> key_from_event y" for x y
    using slots by (auto simp: champions_def)
  have keys: "x \<in> insert e ?L \<Longrightarrow> y \<in> insert e ?L \<Longrightarrow> key_from_event x = key_from_event y \<Longrightarrow> x = y" for x y
    using ids by (auto simp: key_from_event_def inj_on_def)
  have checks: "spec_refusal opts A e now =
      (if \<exists>x \<in> ?L. ev_id x = ev_id e then Some Duplicate
       else if \<exists>x \<in> ?L. same_slot e x \<and> key_from_event x < key_from_event e then Some Replaced else None)"
    using adm by (auto simp: admissible_def spec_refusal_def split: if_splits)
  consider (dup) "e \<in> ?L" | (old) x where "e \<notin> ?L" "x \<in> ?L" "same_slot e x" "key_from_event x < key_from_event e"
    | (new) "e \<notin> ?L" "\<And>x. x \<in> ?L \<Longrightarrow> same_slot e x \<Longrightarrow> key_from_event e \<le> key_from_event x"
    by (meson not_less)
  then show ?thesis
  proof cases
    case dup
    then have "spec_refusal opts A e now = Some Duplicate" using checks by auto
    then show ?thesis using dup slots by (simp add: spec_save_def insert_absorb)
  next
    case old
    then have "\<not> (\<exists>y \<in> ?L. ev_id y = ev_id e)" using ids by (auto simp: inj_on_def)
    then have "spec_refusal opts A e now = Some Replaced" using checks old by auto
    moreover have "champions (insert e ?L) = ?L"
    proof -
      have "y \<in> champions (insert e ?L)" if "y \<in> ?L" for y
      proof -
        have "key_from_event y \<le> key_from_event e" if "same_slot y e"
          using own [OF \<open>y \<in> ?L\<close> old(2)] same_slot_trans [OF that old(3)] old(4) by simp
        then show ?thesis using own that by (auto simp: champions_def)
      qed
      moreover have "e \<notin> champions (insert e ?L)" using old by (auto simp: champions_def)
      ultimately show ?thesis by (auto simp: champions_def)
    qed
    ultimately show ?thesis by (simp add: spec_save_def)
  next
    case new
    then have "\<not> (\<exists>y \<in> ?L. ev_id y = ev_id e)" using ids by (auto simp: inj_on_def)
    then have "spec_refusal opts A e now = None" using checks new(2) by (auto simp: not_less)
    moreover have "spec_accept X opts e A = A\<lparr>sp_live := insert e {x \<in> ?L. \<not> same_slot e x}\<rparr>"
      using slot_kinds [OF kind] cap by (simp add: spec_accept_def spec_effects_def Let_def spec_cap_def)
    moreover have "insert e {x \<in> ?L. \<not> same_slot e x} = champions (insert e ?L)"
    proof (intro set_eqI iffI)
      fix x assume "x \<in> insert e {x \<in> ?L. \<not> same_slot e x}"
      then show "x \<in> champions (insert e ?L)"
        using new(2) own same_slot_sym by (auto simp: champions_def)
    next
      fix x assume x: "x \<in> champions (insert e ?L)"
      show "x \<in> insert e {x \<in> ?L. \<not> same_slot e x}"
      proof (cases "x \<in> ?L \<and> same_slot e x")
        case True
        then have "key_from_event x \<le> key_from_event e" using x same_slot_sym by (auto simp: champions_def)
        then have "x = e" using keys [of x e] new(2) [of x] True by auto
        then show ?thesis by simp
      qed (use x in \<open>auto simp: champions_def\<close>)
    qed
    ultimately show ?thesis by (simp add: spec_save_def)
  qed
qed

lemma store_slots:
  assumes "store_inv s" and "x \<in> live s" and "y \<in> live s" and "same_slot x y"
  shows "x = y"
proof (cases "is_replaceable (ev_kind x)")
  case True
  then show ?thesis using assms by (auto simp: store_inv_def replaceable_unique_def same_slot_def)
next
  case False
  then have addr: "is_addressable (ev_kind x)" "addressable_coord y = addressable_coord x"
    using assms(4) by (auto simp: same_slot_def)
  then obtain c where c: "addressable_coord x = Some c" by (simp add: addressable_coord_def)
  have "coord_idx s (live s)" using assms(1) by (simp add: store_inv_def idx_ok_def)
  then show ?thesis using c addr(2) assms(2,3) unfolding coord_idx_def by (metis option.inject)
qed

lemma store_champions: "store_inv s \<Longrightarrow> champions (live s) = live s"
  using store_slots [of s] by (auto simp: champions_def)

lemma admissible_live: "admissible opts (A\<lparr>sp_live := L\<rparr>) now e = admissible opts A now e"
  by (simp add: admissible_def)

lemma convergence_aux:
  assumes "store_inv s" and "max_events (ms_options s) = None"
    and "\<forall>e \<in> set es. admissible (ms_options s) (store_abs s) now e"
    and "inj_on ev_id (set es \<union> live s)"
    and "save_all X now es s = Some (s', sts)"
  shows "live s' = champions (set es \<union> live s)"
  using assms
proof (induction es arbitrary: s sts)
  case Nil
  then show ?case by (simp add: store_champions)
next
  case (Cons e es)
  obtain s1 st where s1: "save_event X e now s = Some (s1, st)" "store_inv s1" "ms_options s1 = ms_options s"
      "spec_save X (ms_options s) e now (store_abs s) = (store_abs s1, st)"
    by (rule save_refines [OF Cons.prems(1), of X e now])
  obtain sts' where rest: "save_all X now es s1 = Some (s', sts')"
    using Cons.prems(5) s1(1) by (auto simp: bind_eq_Some_conv)
  have "inj_on ev_id (insert e (live s))" using Cons.prems(4) by (rule inj_on_subset) auto
  then have abs: "store_abs s1 = (store_abs s)\<lparr>sp_live := champions (insert e (live s))\<rparr>"
    using admissible_save [of "ms_options s" "store_abs s" now e X] Cons.prems s1(4) store_champions
    by simp
  then have live1: "live s1 = champions (insert e (live s))" using sp_live_abs [of s1] by simp
  then have "live s1 \<subseteq> insert e (live s)" by (auto simp: champions_def)
  then have "inj_on ev_id (set es \<union> live s1)"
    by (intro inj_on_subset [OF Cons.prems(4)]) auto
  with Cons.IH [OF s1(2) _ _ _ rest] Cons.prems s1(3) abs
  have "live s' = champions (set es \<union> champions (insert e (live s)))"
    by (simp add: admissible_live live1)
  also have "\<dots> = champions (set es \<union> insert e (live s))"
    using live_finite [OF Cons.prems(1)] by (intro champions_Un) simp
  finally show ?case by simp
qed

end
