(* ===== verification/Store_Theorems.thy ===== *)
theory Store_Theorems
  imports Store_Convergence
begin

text \<open>
  The theorems on the in-memory store. Each is followed by its application to a small store
  with a profile and a long-form article of one author and a note of another.
\<close>

section \<open>A sample store\<close>

definition sample_event :: "u8 \<Rightarrow> u8 \<Rightarrow> u64 \<Rightarrow> kind \<Rightarrow> tag list \<Rightarrow> event" where
  "sample_event i a t k ts = \<lparr>ev_id = replicate 32 i, ev_pubkey = replicate 32 a, ev_created_at = t,
     ev_kind = k, ev_tags = ts, ev_content = ''hi'', ev_sig = []\<rparr>"

definition sample_profile :: event where "sample_profile = sample_event 1 7 100 0 []"
definition sample_article :: event where
  "sample_article = sample_event 2 7 110 30023 [tag_with (SingleLetter (lowercase_tag L_D)) [''post'']]"
definition sample_note :: event where "sample_note = sample_event 3 9 120 1 []"

definition sample_store :: memory_store where
  "sample_store = fst (the (save_all sample_crates 1000 [sample_profile, sample_article, sample_note]
     (store_new memory_options_new)))"

lemma store_inv_new: "store_inv (store_new opts)"
  using store_inv_empty [OF idx_ok_new [of opts]] by (simp add: store_new_def)

lemma sample_store_saved:
  "save_all sample_crates 1000 [sample_profile, sample_article, sample_note]
     (store_new memory_options_new) = Some (sample_store, [Success, Success, Success])"
proof -
  have "map_option snd (save_all sample_crates 1000 [sample_profile, sample_article, sample_note]
     (store_new memory_options_new)) = Some [Success, Success, Success]"
    by code_simp
  then show ?thesis unfolding sample_store_def by auto
qed

lemma sample_store_inv: "store_inv sample_store \<and> ms_options sample_store = memory_options_new"
  using save_all_inv [OF store_inv_new, of sample_crates 1000
      "[sample_profile, sample_article, sample_note]" memory_options_new] sample_store_saved
  by (auto simp: store_new_def)

lemma save_all_reachable:
  "db_reachable X opts s \<Longrightarrow> save_all X now es s = Some (s', sts) \<Longrightarrow> db_reachable X opts s'"
proof (induction es arbitrary: s sts)
  case Nil
  then show ?case by simp
next
  case (Cons e es)
  obtain s1 st sts' where s1: "save_event X e now s = Some (s1, st)" "save_all X now es s1 = Some (s', sts')"
    using Cons.prems(2) by (auto simp: bind_eq_Some_conv)
  then have "db_step X (OpSave e now) s = Some s1" by (simp add: db_step_def)
  from Cons.IH [OF reach_step [OF Cons.prems(1) this] s1(2)] show ?case .
qed

lemma sample_store_reachable: "db_reachable sample_crates memory_options_new sample_store"
  by (rule save_all_reachable [OF reach_new sample_store_saved])

lemma sample_store_live: "live sample_store = {sample_profile, sample_article, sample_note}"
proof -
  have ids: "by_id sample_store = [(replicate 32 1, sample_profile), (replicate 32 2, sample_article),
      (replicate 32 3, sample_note)]"
    by code_simp
  have "distinct (map fst (by_id sample_store))" by code_simp
  then have "live sample_store = snd ` set (by_id sample_store)"
    by (simp add: live_def ran_distinct)
  then show ?thesis by (simp add: ids)
qed

section \<open>Refinement and invariant\<close>

text \<open>C1. Saving an event always returns, keeps the five indexes consistent, and does to the set
  of live events, the tombstones and the vanished authors exactly what the abstract store
  specification says, with the same status.\<close>

theorem memory_save_refines:
  assumes "store_inv s"
  shows "\<exists>s' st. save_event X e now s = Some (s', st) \<and> store_inv s' \<and> ms_options s' = ms_options s \<and>
    spec_save X (ms_options s) e now (store_abs s) = (store_abs s', st)"
  by (rule mem.save_law [OF assms])

theorem memory_save_refines_witness:
  "\<exists>s' st. save_event sample_crates (sample_event 4 7 130 0 []) 1000 sample_store = Some (s', st) \<and>
    store_inv s' \<and> ms_options s' = ms_options sample_store \<and>
    spec_save sample_crates (ms_options sample_store) (sample_event 4 7 130 0 []) 1000
      (store_abs sample_store) = (store_abs s', st)"
  by (rule memory_save_refines) (simp add: sample_store_inv)

text \<open>C2. Every state a database handle can reach by saving, deleting by filter and wiping, in any
  order, has consistent indexes, and every call made in it returns.\<close>

theorem memory_reachable:
  assumes "db_reachable X opts s"
  shows "store_inv s \<and> ms_options s = opts \<and> (\<exists>s'. db_step X op s = Some s')"
proof -
  have inv: "store_inv s" using reachable_inv [OF assms] by blast
  have "\<exists>s'. db_step X op s = Some s'"
  proof (cases op)
    case (OpSave e now)
    obtain s' st where "save_event X e now s = Some (s', st)" by (rule save_refines [OF inv])
    then show ?thesis using OpSave by (simp add: db_step_def)
  qed (simp_all add: db_step_def)
  then show ?thesis using reachable_inv [OF assms] by blast
qed

theorem memory_reachable_witness:
  "store_inv (store_new memory_options_new) \<and>
   ms_options (store_new memory_options_new) = memory_options_new \<and>
   (\<exists>s'. db_step sample_crates (OpSave sample_note 5) (store_new memory_options_new) = Some s')"
  by (rule memory_reachable) (rule reach_new)

section \<open>Convergence\<close>

text \<open>C3. Replaceable and addressable events converge in a store without a capacity bound. Let a batch of events be admitted by the write rules of a
  store, where no two different events of the batch and the live set share an id. The live set after saving the batch is the set of slot winners
  (newest, ties by lower id) of the batch and the live set, and saving the same events in another order or with repetitions, starting
  from the same store, ends with the same live events. A store with a capacity bound, which evicts, is not covered.\<close>

theorem memory_convergence:
  assumes "store_inv s" and "max_events (ms_options s) = None"
    and "\<forall>e \<in> set es. admissible (ms_options s) (store_abs s) now e"
    and "inj_on ev_id (set es \<union> live s)"
    and "set es' = set es"
    and "save_all X now es s = Some (s1, r1)" and "save_all X now es' s = Some (s2, r2)"
  shows "live s1 = champions (set es \<union> live s) \<and> live s2 = live s1"
  using convergence_aux [OF assms(1,2,3,4,6)] convergence_aux [OF assms(1,2) _ _ assms(7)] assms(3,4,5)
  by simp

theorem memory_convergence_witness:
  "\<exists>s1 r1 s2 r2.
     save_all sample_crates 1000 [sample_event 4 7 130 0 [], sample_event 5 7 90 0 []] sample_store = Some (s1, r1) \<and>
     save_all sample_crates 1000 [sample_event 5 7 90 0 [], sample_event 4 7 130 0 []] sample_store = Some (s2, r2) \<and>
     live s2 = live s1"
proof -
  let ?a = "sample_event 4 7 130 0 []" and ?b = "sample_event 5 7 90 0 []"
  have inv: "store_inv sample_store" "ms_options sample_store = memory_options_new" using sample_store_inv by auto
  obtain s1 r1 where 1: "save_all sample_crates 1000 [?a, ?b] sample_store = Some (s1, r1)"
    using save_all_inv [OF inv(1)] by blast
  obtain s2 r2 where 2: "save_all sample_crates 1000 [?b, ?a] sample_store = Some (s2, r2)"
    using save_all_inv [OF inv(1)] by blast
  have "admissible (ms_options sample_store) (store_abs sample_store) 1000 x" if "x \<in> set [?a, ?b]" for x
  proof -
    have "deleted_ids sample_store = {}" "deleted_coordinates sample_store = []" "vanished_authors sample_store = {}"
      by code_simp+
    moreover have "parse_expiration ?a = Inr None" "parse_expiration ?b = Inr None" by code_simp+
    ultimately show ?thesis using that
      by (auto simp: admissible_def spec_refusal_def inv(2) sample_event_def is_replaceable_def
          is_ephemeral_def is_expired_def)
  qed
  moreover have "inj_on ev_id (set [?a, ?b] \<union> live sample_store)"
    by (simp add: sample_store_live sample_event_def sample_profile_def sample_article_def sample_note_def)
  ultimately have "live s2 = live s1"
    using memory_convergence [of sample_store "[?a, ?b]" 1000 "[?b, ?a]" sample_crates s1 r1 s2 r2] inv 1 2
    by (auto simp: memory_options_new_def)
  with 1 2 show ?thesis by blast
qed

text \<open>In every reachable state two live events of one replaceable kind and author, or of one
  addressable coordinate, are the same event.\<close>

theorem memory_slot_unique:
  assumes "db_reachable X opts s" and "x \<in> live s" and "y \<in> live s" and "same_slot x y"
  shows "x = y"
  using store_slots reachable_inv [OF assms(1)] assms(2-4) by blast

theorem memory_slot_unique_witness:
  "db_reachable sample_crates memory_options_new sample_store \<and> sample_profile \<in> live sample_store \<and>
   same_slot sample_profile sample_profile \<and> (THE x. x \<in> live sample_store \<and> same_slot sample_profile x) = sample_profile"
proof -
  have here: "sample_profile \<in> live sample_store" "same_slot sample_profile sample_profile"
    by (simp_all add: sample_store_live same_slot_def sample_profile_def sample_event_def is_replaceable_def)
  have "x = sample_profile" if "x \<in> live sample_store \<and> same_slot sample_profile x" for x
    using memory_slot_unique [OF sample_store_reachable here(1), of x] that by simp
  with here sample_store_reachable show ?thesis by blast
qed

section \<open>Queries\<close>

text \<open>C4. A query through the author, kind-author or generic index plan, and through the coordinate plan
  when it is exact, returns exactly the keys of the live events the filter selects, newest first with
  ties by id, cut at the limit; the result set and the count agree with it.\<close>

theorem memory_query_exact:
  assumes "store_inv s" and "plan_exact (live s) f"
  shows "query_keys s f = answer (live s) f \<and>
    map key_from_event (ev_inner (database_query s f)) = answer (live s) f \<and>
    count_matching s f = length (answer (live s) f)"
proof -
  have ok: "idx_ok s (live s)" using assms(1) by (simp add: store_inv_def)
  show ?thesis using query_keys_answer [OF ok assms(2)] query_owned_keys(1) [OF ok, of f]
    by (simp add: database_query_def events_from_sorted_def count_matching_def)
qed

theorem memory_query_exact_witness:
  "query_keys sample_store (filter_author (replicate 32 7) filter_new) =
     [key_from_event sample_article, key_from_event sample_profile] \<and>
   answer (live sample_store) (filter_author (replicate 32 7) filter_new) =
     [key_from_event sample_article, key_from_event sample_profile]"
proof -
  let ?f = "filter_author (replicate 32 7) filter_new"
  have "query_pattern_from ?f = QAuthor (replicate 32 7)" by code_simp
  then have "query_keys sample_store ?f = answer (live sample_store) ?f"
    using memory_query_exact [of sample_store ?f] sample_store_inv by (simp add: plan_exact_def)
  moreover have "query_keys sample_store ?f = [key_from_event sample_article, key_from_event sample_profile]"
    by code_simp
  ultimately show ?thesis by simp
qed

text \<open>Whatever the plan, the result set of a query is sorted newest first without duplicates, holds
  only live events the filter selects, unchanged, and its length is what the count reports.\<close>

theorem memory_query_sound:
  assumes "store_inv s"
  shows "events_wf (database_query s f) \<and> set (ev_inner (database_query s f)) \<subseteq> selected (live s) f \<and>
    count_matching s f = length (ev_inner (database_query s f))"
proof -
  have ok: "idx_ok s (live s)" using assms by (simp add: store_inv_def)
  have keys: "map key_from_event (query_owned s f) = query_keys s f" using query_owned_keys(1) [OF ok] .
  then have "length (query_keys s f) = length (query_owned s f)" by (metis length_map)
  with keys show ?thesis using query_owned_keys(2) [OF ok, of f] query_keys_sound [OF ok, of f]
    by (simp add: database_query_def events_from_sorted_def count_matching_def events_wf_def)
qed

theorem memory_query_sound_witness:
  "events_wf (database_query sample_store filter_new) \<and>
   count_matching sample_store filter_new = 3 \<and>
   set (ev_inner (database_query sample_store filter_new)) \<subseteq> selected (live sample_store) filter_new"
proof -
  have "count_matching sample_store filter_new = 3" by code_simp
  then show ?thesis using memory_query_sound [of sample_store filter_new] sample_store_inv by simp
qed

text \<open>The coordinate plan answers with the one live event stored under the coordinate when the filter
  selects it, whatever the limit of the filter: a limit of zero still returns one event.\<close>

theorem memory_coordinate_plan:
  assumes "store_inv s" and "query_pattern_from f = QCoordinate k a d"
    and "x \<in> selected (live s) f" and "addressable_coord x = Some (k, a, d)"
  shows "query_keys s f = [key_from_event x] \<and> query_keys s (filter_limit 0 f) = [key_from_event x]"
proof -
  have co: "coord_idx s (live s)" using assms(1) by (simp add: store_inv_def idx_ok_def)
  have "query_pattern_from (filter_limit 0 f) = query_pattern_from f"
    unfolding query_pattern_from_def by (simp add: filter_limit_def)
  with assms(2) have plan: "query_pattern_from (filter_limit 0 f) = QCoordinate k a d" by simp
  have sel: "x \<in> selected (live s) (filter_limit 0 f)"
    using assms(3) by (simp add: filter_limit_def selected_def filter_selects_def)
  have one: "query_keys s g = [key_from_event x]"
    if "query_pattern_from g = QCoordinate k a d" "x \<in> selected (live s) g" for g
  proof -
    from coordinate_plan [OF co that(1)] that(2) assms(4)
    obtain y where y: "y \<in> selected (live s) g" "addressable_coord y = Some (k, a, d)"
      "query_keys s g = [key_from_event y]" by blast
    have "x = y" using co y(1,2) that(2) assms(4) unfolding coord_idx_def selected_def
      by (metis (lifting) mem_Collect_eq option.inject)
    with y(3) show ?thesis by simp
  qed
  show ?thesis using one [OF assms(2,3)] one [OF plan sel] by simp
qed

theorem memory_coordinate_plan_witness:
  "query_keys sample_store (filter_limit 0 (filter_identifier ''post'' (filter_kind 30023
     (filter_author (replicate 32 7) filter_new)))) = [key_from_event sample_article]"
proof -
  let ?f = "filter_identifier ''post'' (filter_kind 30023 (filter_author (replicate 32 7) filter_new))"
  have plan: "query_pattern_from ?f = QCoordinate 30023 (replicate 32 7) ''post''" by code_simp
  have coord: "addressable_coord sample_article = Some (30023, replicate 32 7, ''post'')" by code_simp
  have "match_event event_matchable ?f sample_article match_options_new" by code_simp
  then have sel: "sample_article \<in> selected (live sample_store) ?f"
    by (simp add: match_event_default selected_def sample_store_live)
  from memory_coordinate_plan [OF _ plan sel coord] sample_store_inv show ?thesis by simp
qed

section \<open>Safety\<close>

text \<open>C14. Without a capacity bound, saving an event, a deletion or a vanish request included, never
  removes a live event of another author.\<close>

theorem memory_foreign_safe:
  assumes "store_inv s" and "max_events (ms_options s) = None"
    and "save_event X e now s = Some (s', st)"
    and "x \<in> live s" and "ev_pubkey x \<noteq> ev_pubkey e"
  shows "x \<in> live s'"
  using live_after_save [OF assms(1,3)] assms(2,4,5) spec_effects_keeps [of x "store_abs s" e X "ms_options s"]
  by (auto simp: spec_accept_simps spec_cap_def)

theorem memory_foreign_safe_witness:
  "\<exists>s' st. save_event sample_crates (sample_event 4 7 130 REQUEST_TO_VANISH []) 1000 sample_store = Some (s', st) \<and>
     sample_note \<in> live s'"
proof -
  let ?e = "sample_event 4 7 130 REQUEST_TO_VANISH []"
  obtain s' st where s': "save_event sample_crates ?e 1000 sample_store = Some (s', st)"
    by (rule save_refines [of sample_store]) (use sample_store_inv in auto)
  have "ev_pubkey sample_note \<noteq> ev_pubkey ?e" by (simp add: sample_note_def sample_event_def)
  then have "sample_note \<in> live s'"
    using memory_foreign_safe [OF _ _ s', of sample_note] sample_store_inv sample_store_live
    by (simp add: memory_options_new_def)
  with s' show ?thesis by blast
qed

text \<open>An id that was deleted and is not stored stays deleted and is never stored again by any sequence
  of saves.\<close>

theorem memory_no_resurrection:
  assumes "store_inv s" and "i \<in> deleted_ids s" and "i \<notin> ev_id ` live s"
  shows "\<exists>s' sts. save_all X now es s = Some (s', sts) \<and> i \<in> deleted_ids s' \<and>
    event_by_id s' i = None \<and> check_id s' i = StatusDeleted"
proof -
  obtain s' sts where s': "save_all X now es s = Some (s', sts)" "store_inv s'"
    using save_all_inv [OF assms(1), of X now es] by blast
  have dead: "i \<in> deleted_ids s'" "i \<notin> ev_id ` live s'" using dead_forever [OF assms(1) s'(1) assms(2,3)] by auto
  then have "map_of (by_id s') i = None"
    using event_by_id_live [OF s'(2), of i] unfolding event_by_id_def by (metis image_eqI not_Some_eq)
  then show ?thesis using s'(1) dead by (auto simp: event_by_id_def check_id_def)
qed

definition sample_deletion :: event where
  "sample_deletion = sample_event 6 7 200 EVENT_DELETION [tag_e sample_crates (replicate 32 1)]"

definition sample_after_deletion :: memory_store where
  "sample_after_deletion = fst (the (save_event sample_crates sample_deletion 1000 sample_store))"

lemma sample_deletion_saved:
  "save_event sample_crates sample_deletion 1000 sample_store = Some (sample_after_deletion, Success)"
proof -
  have "map_option snd (save_event sample_crates sample_deletion 1000 sample_store) = Some Success" by code_simp
  then show ?thesis unfolding sample_after_deletion_def by auto
qed

lemma sample_after_deletion_inv:
  "store_inv sample_after_deletion" "ms_options sample_after_deletion = memory_options_new"
  using mem.status_spec(2,3) [OF _ sample_deletion_saved] sample_store_inv by auto

lemma sample_after_deletion_live:
  "live sample_after_deletion = {sample_article, sample_note, sample_deletion}"
proof -
  have ids: "map snd (by_id sample_after_deletion) = [sample_article, sample_note, sample_deletion]"
    by code_simp
  have "distinct (map fst (by_id sample_after_deletion))" by code_simp
  then have "live sample_after_deletion = set (map snd (by_id sample_after_deletion))"
    by (simp add: live_def ran_distinct)
  then show ?thesis by (simp add: ids)
qed

theorem memory_no_resurrection_witness:
  "\<exists>s' sts. save_all sample_crates 1000 [sample_profile] sample_after_deletion = Some (s', sts) \<and>
     replicate 32 1 \<in> deleted_ids s' \<and> event_by_id s' (replicate 32 1) = None \<and>
     check_id s' (replicate 32 1) = StatusDeleted"
proof (rule memory_no_resurrection)
  show "store_inv sample_after_deletion" by (rule sample_after_deletion_inv)
  show "replicate 32 1 \<in> deleted_ids sample_after_deletion" by code_simp
  show "replicate 32 1 \<notin> ev_id ` live sample_after_deletion"
    by (simp add: sample_after_deletion_live sample_article_def sample_note_def sample_deletion_def
        sample_event_def)
qed

text \<open>A store with a capacity bound never holds more events than it, in any reachable state.\<close>

theorem memory_capacity:
  assumes "db_reachable X opts s" and "max_events opts = Some n"
  shows "store_len s \<le> n"
  using assms
proof (induction rule: db_reachable.induct)
  case reach_new
  then show ?case by (simp add: store_len_def store_new_def)
next
  case (reach_step s op s')
  then show ?case using capacity_step reachable_inv by metis
qed

definition bounded_options :: memory_options where
  "bounded_options = with_max_events (Some 2) memory_options_new"

theorem memory_capacity_witness:
  "\<exists>s sts. save_all sample_crates 1000 [sample_profile, sample_article, sample_note] (store_new bounded_options) =
     Some (s, sts) \<and> store_len s \<le> 2"
proof -
  obtain s sts where s: "save_all sample_crates 1000 [sample_profile, sample_article, sample_note]
      (store_new bounded_options) = Some (s, sts)"
    using save_all_inv [OF store_inv_new] by blast
  have "db_reachable sample_crates bounded_options s" by (rule save_all_reachable [OF reach_new s])
  then have "store_len s \<le> 2" by (rule memory_capacity) (simp add: bounded_options_def with_max_events_def)
  with s show ?thesis by blast
qed

text \<open>Eviction terminates and keeps exactly the newest events up to the capacity: every event it keeps
  precedes every event it drops.\<close>

theorem memory_eviction:
  assumes "store_inv s" and "max_events (ms_options s) = Some n"
  shows "\<exists>s'. enforce_capacity s = Some s' \<and> live s' = newest n (live s) \<and> card (live s') \<le> n \<and>
    (\<forall>x \<in> live s'. \<forall>y \<in> live s - live s'. key_from_event x < key_from_event y)"
proof -
  obtain s' where s': "enforce_capacity s = Some s'" "idx_ok s' (newest n (live s))"
    using enforce_capacity_spec [of s "live s"] assms by (auto simp: store_inv_def spec_cap_def)
  have live: "live s' = newest n (live s)" using idx_ok_live [OF s'(2)] .
  have "key_from_event x < key_from_event y" if "x \<in> newest n (live s)" "y \<in> live s - newest n (live s)" for x y
  proof (rule ccontr)
    assume "\<not> key_from_event x < key_from_event y"
    then have "{z \<in> live s. key_from_event z < key_from_event y} \<subseteq> {z \<in> live s. key_from_event z < key_from_event x}"
      by auto
    then have "card {z \<in> live s. key_from_event z < key_from_event y} \<le>
        card {z \<in> live s. key_from_event z < key_from_event x}"
      using live_finite [OF assms(1)] by (intro card_mono) auto
    with that show False by (simp add: newest_def)
  qed
  with s' live newest_card [OF live_finite [OF assms(1)] live_keys_inj [OF assms(1)], of n]
  show ?thesis by auto
qed

theorem memory_eviction_witness:
  "\<exists>s'. enforce_capacity (sample_store\<lparr>ms_options := bounded_options\<rparr>) = Some s' \<and>
     live s' = newest 2 (live sample_store) \<and> card (live s') \<le> 2"
proof -
  let ?s = "sample_store\<lparr>ms_options := bounded_options\<rparr>"
  have "live ?s = live sample_store" by (simp add: live_def)
  moreover have "store_inv ?s"
    using sample_store_inv by (simp add: store_inv_def idx_ok_def idx_defs live_def)
  ultimately show ?thesis using memory_eviction [of ?s 2] by (simp add: bounded_options_def with_max_events_def) blast
qed

section \<open>Deletion and vanishing\<close>

lemma accepted_deletion_abs:
  assumes "store_inv s" and "process_nip09 (ms_options s)" and "ev_kind e = EVENT_DELETION"
    and "deletion_from_event X e = Inr r" and "save_event X e now s = Some (s', Success)"
  shows "store_abs s' = (let A = spec_delete_coords e (dr_coordinates r) (spec_delete_ids e (dr_event_ids r) (store_abs s))
    in A\<lparr>sp_live := spec_cap (ms_options s) (insert e (sp_live A))\<rparr>)"
proof -
  have "\<not> is_replaceable EVENT_DELETION" "\<not> is_addressable EVENT_DELETION" "EVENT_DELETION \<noteq> REQUEST_TO_VANISH"
    by code_simp+
  then have "spec_effects X (ms_options s) e (store_abs s) = spec_deletion X e ((store_abs s)\<lparr>sp_live := live s\<rparr>)"
    using assms(2,3) by (simp add: spec_effects_def same_slot_def Let_def)
  moreover have "(store_abs s)\<lparr>sp_live := live s\<rparr> = store_abs s" by (simp add: store_abs_def)
  ultimately have "spec_effects X (ms_options s) e (store_abs s) = spec_deletion X e (store_abs s)" by metis
  then have "spec_effects X (ms_options s) e (store_abs s) =
      spec_delete_coords e (dr_coordinates r) (spec_delete_ids e (dr_event_ids r) (store_abs s))"
    using assms(4) by (simp add: spec_deletion_def)
  then show ?thesis using mem.status_spec(4) [OF assms(1,5)] by (simp add: spec_accept_def)
qed

text \<open>An accepted deletion request removes every event of its author that it names by id, and every
  addressable event of its author that it names by coordinate and that is not newer than the
  request; the old versions cannot be stored again.\<close>

theorem memory_deletion:
  assumes "store_inv s" and "process_nip09 (ms_options s)" and "ev_kind e = EVENT_DELETION"
    and "deletion_from_event X e = Inr r" and "save_event X e now s = Some (s', Success)"
  shows "(\<forall>x \<in> live s'. x \<noteq> e \<longrightarrow> ev_pubkey x = ev_pubkey e \<longrightarrow> ev_id x \<notin> set (dr_event_ids r)) \<and>
    (\<forall>x \<in> live s'. addressable_coord x \<in> Some ` own_coords e (dr_coordinates r) \<longrightarrow>
      ev_created_at e < ev_created_at x) \<and>
    (\<forall>x now'. addressable_coord x \<in> Some ` own_coords e (dr_coordinates r) \<and> ev_created_at x \<le> ev_created_at e \<longrightarrow>
      (\<exists>s'' reason. save_event X x now' s' = Some (s'', Rejected reason)))"
proof -
  note abs = accepted_deletion_abs [OF assms]
  let ?A = "spec_delete_coords e (dr_coordinates r) (spec_delete_ids e (dr_event_ids r) (store_abs s))"
  have "live s' = spec_cap (ms_options s) (insert e (sp_live ?A))"
    using abs sp_live_abs [of s'] by (simp add: Let_def)
  then have live: "live s' \<subseteq> insert e (sp_live ?A)" using spec_cap_subset by auto
  have "\<not> is_addressable EVENT_DELETION" by code_simp
  then have e: "addressable_coord e = None" using assms(3) by (simp add: addressable_coord_def)
  have inv: "store_inv s'" using mem.status_spec(2) [OF assms(1,5)] .
  have "\<exists>s'' reason. save_event X x now' s' = Some (s'', Rejected reason)"
    if x: "addressable_coord x = Some c" "c \<in> own_coords e (dr_coordinates r)" "ev_created_at x \<le> ev_created_at e"
    for x c now'
  proof -
    have "sp_dead_coords (store_abs s') c = sp_dead_coords ?A c" unfolding abs by (simp add: Let_def)
    then obtain t where t: "sp_dead_coords (store_abs s') c = Some t" "ev_created_at e \<le> t"
      using x(2) by (auto simp: spec_delete_coords_def split: option.splits)
    with x have "\<exists>reason. spec_refusal (ms_options s') (store_abs s') x now' = Some reason"
      by (simp add: spec_refusal_def) (meson order_trans)
    then show ?thesis
      by (metis save_refines [OF inv, of X x now'] mem.status_spec(1) [OF inv] option.simps(5))
  qed
  moreover have "\<forall>x \<in> live s'. x \<noteq> e \<longrightarrow> ev_pubkey x = ev_pubkey e \<longrightarrow> ev_id x \<notin> set (dr_event_ids r)"
    using live by (auto simp: spec_delete_coords_def spec_delete_ids_def)
  moreover have "\<forall>x \<in> live s'. addressable_coord x \<in> Some ` own_coords e (dr_coordinates r) \<longrightarrow>
      ev_created_at e < ev_created_at x"
    using live e by (auto simp: spec_delete_coords_def not_le)
  ultimately show ?thesis by blast
qed

theorem memory_deletion_witness:
  "sample_profile \<in> live sample_store \<and>
   save_event sample_crates sample_deletion 1000 sample_store = Some (sample_after_deletion, Success) \<and>
   sample_profile \<notin> live sample_after_deletion"
proof -
  obtain r where r: "deletion_from_event sample_crates sample_deletion = Inr r" "dr_event_ids r = [replicate 32 1]"
  proof
    show "deletion_from_event sample_crates sample_deletion =
      Inr \<lparr>dr_event_ids = [replicate 32 1], dr_coordinates = [], dr_kinds = [], dr_reason = ''hi''\<rparr>"
      by code_simp
  qed simp
  have k: "ev_kind sample_deletion = EVENT_DELETION" "ev_pubkey sample_deletion = replicate 32 7"
    by (simp_all add: sample_deletion_def sample_event_def)
  have "\<forall>x \<in> live sample_after_deletion. x \<noteq> sample_deletion \<longrightarrow> ev_pubkey x = ev_pubkey sample_deletion \<longrightarrow>
      ev_id x \<notin> set (dr_event_ids r)"
    using memory_deletion [OF _ _ k(1) r(1) sample_deletion_saved] sample_store_inv
    by (simp add: memory_options_new_def)
  moreover have "ev_pubkey sample_profile = replicate 32 7" "ev_id sample_profile = replicate 32 1"
    "sample_profile \<noteq> sample_deletion"
    by (simp_all add: sample_profile_def sample_deletion_def sample_event_def)
  ultimately show ?thesis using r(2) k(2) sample_deletion_saved sample_store_live by auto
qed

text \<open>A deletion request also tombstones ids no live event has, whoever would be their author: the
  event with that id is refused when it arrives later, although its author never asked for it.\<close>

theorem memory_unknown_id_blocked:
  assumes "store_inv s" and "process_nip09 (ms_options s)" and "ev_kind e = EVENT_DELETION"
    and "deletion_from_event X e = Inr r" and "save_event X e now s = Some (s', Success)"
    and "i \<in> set (dr_event_ids r)" and "i \<notin> ev_id ` live s" and "ev_id x = i"
  shows "\<exists>reason. save_event X x now' s' = Some (s', Rejected reason)"
proof -
  have "sp_dead_ids (store_abs s') = sp_dead_ids (spec_delete_ids e (dr_event_ids r) (store_abs s))"
    unfolding accepted_deletion_abs [OF assms(1-5)] by (simp add: Let_def spec_delete_coords_def)
  then have "i \<in> deleted_ids s'" using assms(6,7) by (auto simp: spec_delete_ids_def)
  then have "\<exists>reason. refusal s' x now' = Some reason" using assms(8) by (simp add: refusal_def)
  then show ?thesis by (auto simp: save_event_def)
qed

theorem memory_unknown_id_blocked_witness:
  "\<exists>s' reason. save_event sample_crates (sample_event 8 7 200 EVENT_DELETION [tag_e sample_crates (replicate 32 5)])
       1000 sample_store = Some (s', Success) \<and>
     save_event sample_crates (sample_event 5 9 300 1 []) 1000 s' = Some (s', Rejected reason)"
proof -
  let ?e = "sample_event 8 7 200 EVENT_DELETION [tag_e sample_crates (replicate 32 5)]"
  have "map_option snd (save_event sample_crates ?e 1000 sample_store) = Some Success" by code_simp
  then obtain s' where s': "save_event sample_crates ?e 1000 sample_store = Some (s', Success)" by auto
  have r: "deletion_from_event sample_crates ?e =
      Inr \<lparr>dr_event_ids = [replicate 32 5], dr_coordinates = [], dr_kinds = [], dr_reason = ''hi''\<rparr>"
    by code_simp
  have "replicate 32 5 \<notin> ev_id ` live sample_store"
    by (simp add: sample_store_live sample_profile_def sample_article_def sample_note_def sample_event_def)
  then have "\<exists>reason. save_event sample_crates (sample_event 5 9 300 1 []) 1000 s' = Some (s', Rejected reason)"
    using memory_unknown_id_blocked [OF _ _ _ r s', of "replicate 32 5" "sample_event 5 9 300 1 []" 1000]
      sample_store_inv by (simp add: sample_event_def memory_options_new_def)
  with s' show ?thesis by blast
qed

text \<open>After an accepted request to vanish no live event of its author is left except the request
  itself, and every later event of the author is refused as vanished.\<close>

theorem memory_vanish:
  assumes "store_inv s" and "process_nip62 (ms_options s)" and "ev_kind e = REQUEST_TO_VANISH"
    and "save_event X e now s = Some (s', Success)"
  shows "{x \<in> live s'. ev_pubkey x = ev_pubkey e} \<subseteq> {e} \<and>
    (\<forall>x now'. ev_pubkey x = ev_pubkey e \<longrightarrow> save_event X x now' s' = Some (s', Rejected Vanished))"
proof -
  let ?E = "spec_effects X (ms_options s) e (store_abs s)"
  have abs: "store_abs s' = spec_accept X (ms_options s) e (store_abs s)"
    using mem.status_spec(4) [OF assms(1,4)] by simp
  have opts: "ms_options s' = ms_options s" using mem.status_spec(3) [OF assms(1,4)] .
  have eff: "\<exists>B. ?E = spec_vanish (ev_pubkey e) B"
    using assms(2,3) unfolding spec_effects_def Let_def by auto
  then have "sp_live ?E \<inter> {x. ev_pubkey x = ev_pubkey e} = {}" by (auto simp: spec_vanish_simps)
  moreover have "live s' \<subseteq> insert e (sp_live ?E)"
    unfolding sp_live_abs [symmetric, of s'] abs spec_accept_simps by (rule spec_cap_subset)
  moreover have "ev_pubkey e \<in> vanished_authors s'"
    unfolding sp_vanished_abs [symmetric] abs spec_accept_simps using eff by (auto simp: spec_vanish_simps)
  then have "refusal s' x now' = Some Vanished" if "ev_pubkey x = ev_pubkey e" for x now'
    using assms(2) opts that by (simp add: refusal_def)
  then have "save_event X x now' s' = Some (s', Rejected Vanished)" if "ev_pubkey x = ev_pubkey e" for x now'
    using that by (simp add: save_event_def)
  ultimately show ?thesis by blast
qed

theorem memory_vanish_witness:
  "\<exists>s'. save_event sample_crates (sample_event 4 7 130 REQUEST_TO_VANISH []) 1000 sample_store = Some (s', Success) \<and>
     {x \<in> live s'. ev_pubkey x = replicate 32 7} \<subseteq> {sample_event 4 7 130 REQUEST_TO_VANISH []} \<and>
     save_event sample_crates sample_profile 2000 s' = Some (s', Rejected Vanished)"
proof -
  let ?e = "sample_event 4 7 130 REQUEST_TO_VANISH []"
  have "map_option snd (save_event sample_crates ?e 1000 sample_store) = Some Success" by code_simp
  then obtain s' where s': "save_event sample_crates ?e 1000 sample_store = Some (s', Success)" by auto
  have "ev_kind ?e = REQUEST_TO_VANISH" "ev_pubkey ?e = replicate 32 7" "ev_pubkey sample_profile = replicate 32 7"
    by (simp_all add: sample_event_def sample_profile_def)
  then show ?thesis using memory_vanish [OF _ _ _ s'] sample_store_inv s' by (simp add: memory_options_new_def)
qed

section \<open>Deletion by filter, lookup and status\<close>

text \<open>Deleting by filter removes from the store exactly the events a query with that filter returns;
  it leaves no tombstones, so the events may be saved again.\<close>

theorem memory_delete_matching:
  assumes "store_inv s"
  shows "store_inv (delete_matching f s) \<and>
    live (delete_matching f s) = live s - set (query_owned s f) \<and>
    deleted_ids (delete_matching f s) = deleted_ids s"
proof -
  have ok: "idx_ok s (live s)" using assms by (simp add: store_inv_def)
  have ids: "ids_idx s (live s)" using ok by (simp add: idx_ok_def)
  have keys: "set (query_keys s f) = key_from_event ` set (query_owned s f)"
    using query_owned_keys(1) [OF ok, of f] by (metis list.set_map)
  have sub: "set (query_owned s f) \<subseteq> live s" using query_owned_keys(2) [OF ok, of f] by (auto simp: selected_def)
  have "ek_id ` set (query_keys s f) = ev_id ` set (query_owned s f)" by (simp add: keys image_image)
  moreover have "{x \<in> live s. ev_id x \<notin> ev_id ` set (query_owned s f)} = live s - set (query_owned s f)"
    using sub ids_idx_inj [OF ids] by blast
  moreover have "live (delete_matching f s) = {x \<in> live s. ev_id x \<notin> ek_id ` set (query_keys s f)}"
    using delete_matching_refines [OF assms, of f] sp_live_abs [of "delete_matching f s"] by simp
  ultimately show ?thesis using delete_matching_refines [OF assms, of f] by (simp add: delete_matching_def)
qed

theorem memory_delete_matching_witness:
  "live (delete_matching (filter_author (replicate 32 7) filter_new) sample_store) =
     live sample_store - set (query_owned sample_store (filter_author (replicate 32 7) filter_new)) \<and>
   map ev_id (query_owned sample_store (filter_author (replicate 32 7) filter_new)) = [replicate 32 2, replicate 32 1]"
proof -
  have "map ev_id (query_owned sample_store (filter_author (replicate 32 7) filter_new)) =
      [replicate 32 2, replicate 32 1]" by code_simp
  then show ?thesis
    using memory_delete_matching [of sample_store "filter_author (replicate 32 7) filter_new"] sample_store_inv by simp
qed

text \<open>The status of an id is Saved exactly when the id is that of a live event, which is then what the
  lookup returns, and Deleted exactly when it is tombstoned and not live.\<close>

theorem memory_check_id:
  assumes "store_inv s"
  shows "(check_id s i = StatusSaved \<longleftrightarrow> (\<exists>x \<in> live s. ev_id x = i \<and> event_by_id s i = Some x)) \<and>
    (check_id s i = StatusDeleted \<longleftrightarrow> i \<in> deleted_ids s \<and> i \<notin> ev_id ` live s)"
proof (cases "map_of (by_id s) i")
  case None
  then have "i \<notin> ev_id ` live s" using event_by_id_live [OF assms, of i] by (auto simp: event_by_id_def)
  with None show ?thesis by (auto simp: check_id_def event_by_id_def)
next
  case (Some x)
  then have "x \<in> live s" "ev_id x = i" using event_by_id_live [OF assms, of i x] by (auto simp: event_by_id_def)
  with Some show ?thesis by (auto simp: check_id_def event_by_id_def)
qed

theorem memory_check_id_witness:
  "check_id sample_after_deletion (replicate 32 1) = StatusDeleted \<and>
   replicate 32 1 \<in> deleted_ids sample_after_deletion \<and> replicate 32 1 \<notin> ev_id ` live sample_after_deletion"
proof -
  have "check_id sample_after_deletion (replicate 32 1) = StatusDeleted" by code_simp
  then show ?thesis
    using memory_check_id [OF sample_after_deletion_inv(1), of "replicate 32 1"] by simp
qed

text \<open>A full store accepts an event older than all it holds with status Success and evicts it at once,
  so that an event reported as saved cannot be retrieved.\<close>

theorem memory_success_not_retrievable:
  "\<exists>s s'. db_reachable sample_crates bounded_options s \<and>
     save_event sample_crates sample_profile 1000 s = Some (s', Success) \<and>
     event_by_id s' (ev_id sample_profile) = None"
proof -
  define s where "s = fst (the (save_all sample_crates 1000 [sample_article, sample_note] (store_new bounded_options)))"
  define q where "q = save_event sample_crates sample_profile 1000 s"
  have "map_option snd (save_all sample_crates 1000 [sample_article, sample_note] (store_new bounded_options)) =
      Some [Success, Success]" by code_simp
  then obtain sts where saved: "save_all sample_crates 1000 [sample_article, sample_note] (store_new bounded_options) =
      Some (s, sts)" unfolding s_def by auto
  have "map_option (\<lambda>r. (event_by_id (fst r) (ev_id sample_profile), snd r)) q = Some (None, Success)"
    unfolding q_def s_def by code_simp
  then obtain s' where "q = Some (s', Success)" "event_by_id s' (ev_id sample_profile) = None" by auto
  then show ?thesis using save_all_reachable [OF reach_new saved] unfolding q_def by blast
qed

end
