(* ===== verification/Auth_Pow.thy ===== *)
theory Auth_Pow
  imports Event_Model
begin

text \<open>
  What a relay checks of an event before it serves or stores anything: relay URLs
  (types/relay_url.rs), the authentication event of NIP-42 (nips/nip42.rs) and the proof of work
  of NIP-13 (nips/nip13.rs). The \<open>url\<close> crate is the argument \<open>U\<close>; a \<open>url::Url\<close> is the string its
  \<open>as_str\<close> returns. The nonce search runs over all of \<open>u64\<close>, and it is a total function because
  the counter is checked, not wrapped.
\<close>

type_synonym relay_url = string

section \<open>Relay URLs\<close>

datatype url_parse_error = UrlParseError (parse_error_text: string)

record url_crate =
  url_parse :: "string \<Rightarrow> url_parse_error + string"
  url_scheme :: "string \<Rightarrow> string"
  url_host_str :: "string \<Rightarrow> string option"
  url_without_fragment :: "string \<Rightarrow> string"
  url_port :: "string \<Rightarrow> u16 option"
  url_without_port :: "string \<Rightarrow> string option"
  url_cannot_be_a_base :: "string \<Rightarrow> bool"

datatype relay_url_error =
    RelayUrlParse url_parse_error
  | InvalidScheme string
  | MissingHost string
  | PortNotModifiable

definition relay_url_parse :: "url_crate \<Rightarrow> string \<Rightarrow> relay_url_error + relay_url" where
  "relay_url_parse U input =
     res_bind (map_err RelayUrlParse (url_parse U input)) (\<lambda>inner.
     res_bind (if url_scheme U inner = ''ws'' then Inr 80
               else if url_scheme U inner = ''wss'' then Inr 443
               else Inl (InvalidScheme (url_scheme U inner))) (\<lambda>default_port.
     if url_host_str U inner = None then Inl (MissingHost input)
     else let inner' = url_without_fragment U inner
          in if url_port U inner' = Some default_port
             then ok_or PortNotModifiable (url_without_port U inner')
             else Inr inner'))"

section \<open>Authentication (NIP-42)\<close>

definition AUTHENTICATION :: kind where "AUTHENTICATION = 22242"
definition RELAY_TAG :: string where "RELAY_TAG = ''relay''"
definition CHALLENGE_TAG :: string where "CHALLENGE_TAG = ''challenge''"
definition DEFAULT_MAX_AGE_SECS :: u64 where "DEFAULT_MAX_AGE_SECS = 10 * 60"

datatype auth_error =
    AuthUnexpectedKind kind
  | MissingRelayTag
  | MissingChallengeTag
  | InvalidRelay relay_url_error
  | RelayMismatch string string
  | ChallengeMismatch
  | TooOld u64 u64 u64
  | TooFuture u64 u64 u64

definition auth_event :: "relay_url \<Rightarrow> string \<Rightarrow> event_builder" where
  "auth_event relay challenge =
     builder_tag (tag_with (tag_kind_from_wire CHALLENGE_TAG) [challenge])
       (builder_tag (tag_with (tag_kind_from_wire RELAY_TAG) [relay])
         (builder_new AUTHENTICATION []))"

definition verify_auth_event_against ::
  "url_crate \<Rightarrow> event \<Rightarrow> relay_url \<Rightarrow> string list \<Rightarrow> timestamp \<Rightarrow> u64 \<Rightarrow> auth_error + unit" where
  "verify_auth_event_against U e relay accepted now max_age =
     (if ev_kind e \<noteq> AUTHENTICATION then Inl (AuthUnexpectedKind (ev_kind e))
      else
      res_bind (ok_or MissingRelayTag
        (Option.bind (find_first (tag_kind_from_wire RELAY_TAG) (ev_tags e)) (\<lambda>t. tag_get t 1))) (\<lambda>raw.
      res_bind (map_err InvalidRelay (relay_url_parse U raw)) (\<lambda>claimed_relay.
      if claimed_relay \<noteq> relay then Inl (RelayMismatch relay claimed_relay)
      else
      res_bind (ok_or MissingChallengeTag
        (Option.bind (Option.bind (find_first (tag_kind_from_wire CHALLENGE_TAG) (ev_tags e)) (\<lambda>t. tag_get t 1))
          (\<lambda>s. if s = [] then None else Some s))) (\<lambda>claimed_challenge.
      if claimed_challenge \<notin> set accepted then Inl ChallengeMismatch
      else let created_at = ev_created_at e in
      if created_at < now \<and> max_age < saturating_sub now created_at
      then Inl (TooOld created_at now max_age)
      else if now < created_at \<and> max_age < saturating_sub created_at now
      then Inl (TooFuture created_at now max_age)
      else Inr ()))))"

definition verify_auth_event ::
  "url_crate \<Rightarrow> event \<Rightarrow> relay_url \<Rightarrow> string \<Rightarrow> timestamp \<Rightarrow> u64 \<Rightarrow> auth_error + unit" where
  "verify_auth_event U e relay challenge now max_age =
     verify_auth_event_against U e relay [challenge] now max_age"

section \<open>Proof of work (NIP-13)\<close>

definition NONCE_TAG :: string where "NONCE_TAG = ''nonce''"

datatype pow_error =
    InsufficientWork u8 u8
  | InsufficientCommitment u8 u8
  | InvalidCommitment
  | MissingCommitment

datatype mine_error = MineClock | MineBuilder event_builder_error | NonceExhausted

text \<open>\<open>u8::leading_zeros\<close> and \<open>str::parse::<u8>\<close>.\<close>

definition leading_zeros :: "'a::len word \<Rightarrow> nat" where
  "leading_zeros b = length (takeWhile (\<lambda>i. \<not> bit b i) (rev [0..<LENGTH('a)]))"

definition parse_u8 :: "string \<Rightarrow> int_error_kind + u8" where
  "parse_u8 s = (case parse_uint 255 s of Inl e \<Rightarrow> Inl e | Inr n \<Rightarrow> Inr (of_nat n))"

fun count_zero_bits_from :: "u8 \<Rightarrow> bytes \<Rightarrow> u8" where
  "count_zero_bits_from acc [] = acc"
| "count_zero_bits_from acc (b # bs) =
     (if b = 0 then count_zero_bits_from (saturating_add acc 8) bs
      else saturating_add acc (of_nat (leading_zeros b)))"

definition count_leading_zero_bits :: "bytes \<Rightarrow> u8" where
  "count_leading_zero_bits bs = count_zero_bits_from 0 bs"

definition event_id_difficulty :: "event_id \<Rightarrow> u8" where
  "event_id_difficulty i = count_leading_zero_bits i"

definition committed_difficulty :: "event \<Rightarrow> pow_error + u8 option" where
  "committed_difficulty e =
     (case find_first (tag_kind_from_wire NONCE_TAG) (ev_tags e) of
        None \<Rightarrow> Inr None
      | Some t \<Rightarrow>
          (case tag_get t 2 of
             None \<Rightarrow> Inr None
           | Some commitment \<Rightarrow>
               res_bind (map_err (\<lambda>_. InvalidCommitment) (parse_u8 commitment)) (\<lambda>d. Inr (Some d))))"

definition verify_pow :: "event \<Rightarrow> u8 \<Rightarrow> pow_error + unit" where
  "verify_pow e min_difficulty =
     (let actual = event_id_difficulty (ev_id e)
      in if actual < min_difficulty then Inl (InsufficientWork actual min_difficulty)
         else res_bind (committed_difficulty e) (\<lambda>c.
           case c of
             Some commitment \<Rightarrow>
               if commitment < min_difficulty then Inl (InsufficientCommitment commitment min_difficulty)
               else Inr ()
           | None \<Rightarrow> Inr ()))"

definition verify_pow_strict :: "event \<Rightarrow> u8 \<Rightarrow> pow_error + unit" where
  "verify_pow_strict e min_difficulty =
     res_bind (verify_pow e min_difficulty) (\<lambda>_.
     if 0 < min_difficulty then
       res_bind (committed_difficulty e) (\<lambda>c. if c = None then Inl MissingCommitment else Inr ())
     else Inr ())"

definition make_nonce_tag :: "u64 \<Rightarrow> u8 \<Rightarrow> tag" where
  "make_nonce_tag nonce difficulty =
     tag_with (tag_kind_from_wire NONCE_TAG) [show_word nonce, show_word difficulty]"

record pow_attempt =
  pa_unsigned :: unsigned_event
  pa_iterations :: u64
  pa_difficulty :: u8

definition mine_try ::
  "crates \<Rightarrow> public_key \<Rightarrow> timestamp \<Rightarrow> kind \<Rightarrow> tag list \<Rightarrow> string \<Rightarrow> u8 \<Rightarrow> u64 \<Rightarrow> unsigned_event" where
  "mine_try X pubkey created_at k prefix content difficulty nonce =
     unsigned_new X pubkey created_at k (prefix @ [make_nonce_tag nonce difficulty]) content"

lemma unat_add_one: "w \<noteq> - 1 \<Longrightarrow> unat (w + 1) = Suc (unat (w :: 'a::len word))"
proof -
  assume "w \<noteq> - 1"
  then have "1 + w \<noteq> 0" by (metis add_eq_0_iff)
  then show ?thesis using unatSuc [of w] by (simp add: add.commute)
qed

text \<open>The loop of \<open>PowAttempt::mine\<close>; \<open>checked_add\<close> fails at the largest \<open>u64\<close>.\<close>

function mine_loop :: "(u64 \<Rightarrow> unsigned_event) \<Rightarrow> u8 \<Rightarrow> u64 \<Rightarrow> mine_error + pow_attempt" where
  "mine_loop attempt difficulty iterations =
     (if iterations = - 1 then Inl NonceExhausted
      else let iterations' = iterations + 1; unsigned = attempt iterations'
           in if difficulty \<le> event_id_difficulty (u_id unsigned)
              then Inr \<lparr>pa_unsigned = unsigned, pa_iterations = iterations', pa_difficulty = difficulty\<rparr>
              else mine_loop attempt difficulty iterations')"
  by pat_completeness auto
termination
proof (relation "measure (\<lambda>(_, _, i). 2 ^ 64 - unat i)", goal_cases)
  case (2 attempt difficulty iterations iterations' unsigned)
  have "unat (iterations + 1) = Suc (unat iterations)"
    by (rule unat_add_one) (rule 2(1))
  moreover have "unat (iterations + 1) < 2 ^ LENGTH(64)" by (rule unsigned_less)
  ultimately show ?case using 2(2) by simp
qed simp

declare mine_loop.simps [simp del]

definition pow_mine ::
  "crates \<Rightarrow> timestamp option \<Rightarrow> event_builder \<Rightarrow> public_key \<Rightarrow> u8 \<Rightarrow> mine_error + pow_attempt" where
  "pow_mine X clock b pubkey difficulty =
     res_bind (ok_or MineClock (case b_created_at b of Some ts \<Rightarrow> Some ts | None \<Rightarrow> clock)) (\<lambda>created_at.
     let nonce_kind = tag_kind_from_wire NONCE_TAG;
         prefix = filter (\<lambda>t. tag_head t \<noteq> nonce_kind) (items (b_tags b))
     in mine_loop (mine_try X pubkey created_at (b_kind b) prefix (b_content b) difficulty) difficulty 0)"

definition into_signed_with_keys ::
  "crates \<Rightarrow> pow_attempt \<Rightarrow> keys \<Rightarrow> event_builder_error + event" where
  "into_signed_with_keys X a ks = map_err BuilderSigner (unsigned_sign_with_keys X (pa_unsigned a) ks)"

definition mine_and_sign ::
  "crates \<Rightarrow> timestamp option \<Rightarrow> event_builder \<Rightarrow> keys \<Rightarrow> u8 \<Rightarrow> mine_error + event" where
  "mine_and_sign X clock b ks difficulty =
     res_bind (pow_mine X clock b (keys_public ks) difficulty) (\<lambda>attempt.
     map_err MineBuilder (into_signed_with_keys X attempt ks))"

section \<open>Error texts\<close>

definition quoted :: "string \<Rightarrow> string" where
  "quoted s = [CHR 0x60] @ s @ [CHR 0x60]"

fun event_error_display :: "event_error \<Rightarrow> string" where
  "event_error_display InvalidId = ''event id does not match the canonical serialization''"
| "event_error_display InvalidSignature = ''event signature verification failed''"

fun pow_error_display :: "pow_error \<Rightarrow> string" where
  "pow_error_display (InsufficientWork actual expected) =
     ''event id has '' @ show_word actual @ '' leading zero bits, need '' @ show_word expected"
| "pow_error_display (InsufficientCommitment actual expected) =
     ''committed difficulty '' @ show_word actual @ '' < '' @ show_word expected"
| "pow_error_display InvalidCommitment = ''nonce tag commitment is not a valid u8 integer''"
| "pow_error_display MissingCommitment = ''strict PoW verification requires a committed difficulty''"

fun relay_url_error_display :: "relay_url_error \<Rightarrow> string" where
  "relay_url_error_display (RelayUrlParse e) = ''invalid relay URL: '' @ parse_error_text e"
| "relay_url_error_display (InvalidScheme s) =
     ''invalid relay scheme '' @ quoted s @ '': expected '' @ quoted ''ws'' @ '' or '' @ quoted ''wss''"
| "relay_url_error_display (MissingHost s) = ''relay URL has no host: '' @ s"
| "relay_url_error_display PortNotModifiable = ''relay URL cannot have its port modified''"

fun auth_error_display :: "auth_error \<Rightarrow> string" where
  "auth_error_display (AuthUnexpectedKind k) = ''expected kind 22242, got '' @ show_word k"
| "auth_error_display MissingRelayTag = quoted ''relay'' @ '' tag is missing or empty''"
| "auth_error_display MissingChallengeTag = quoted ''challenge'' @ '' tag is missing or empty''"
| "auth_error_display (InvalidRelay e) = relay_url_error_display e"
| "auth_error_display (RelayMismatch expected got) =
     ''relay mismatch: expected '' @ quoted expected @ '', got '' @ quoted got"
| "auth_error_display ChallengeMismatch = ''challenge mismatch''"
| "auth_error_display (TooOld created_at now max_age) =
     ''auth event is too old: created_at '' @ show_word created_at @ '' vs now '' @ show_word now @
     '' (max age '' @ show_word max_age @ ''s)''"
| "auth_error_display (TooFuture created_at now max_age) =
     ''auth event is too far in the future: created_at '' @ show_word created_at @ '' vs now '' @ show_word now @
     '' (max skew '' @ show_word max_age @ ''s)''"

section \<open>Lemmas on proof of work\<close>

text \<open>The bits of a byte string, most significant first, and the number they spell.\<close>

definition byte_bits :: "u8 \<Rightarrow> bool list" where
  "byte_bits b = map (bit b) (rev [0..<8])"

definition msb_bits :: "bytes \<Rightarrow> bool list" where
  "msb_bits bs = concat (map byte_bits bs)"

fun bits_value :: "bool list \<Rightarrow> nat" where
  "bits_value [] = 0"
| "bits_value (b # bs) = of_bool b * 2 ^ length bs + bits_value bs"

definition be_nat :: "bytes \<Rightarrow> nat" where
  "be_nat bs = foldl (\<lambda>n b. 256 * n + unat b) 0 bs"

lemma msb_bits_Cons: "msb_bits (b # bs) = byte_bits b @ msb_bits bs"
  by (simp add: msb_bits_def)

lemma length_byte_bits [simp]: "length (byte_bits b) = 8"
  by (simp add: byte_bits_def)

lemma length_msb_bits [simp]: "length (msb_bits bs) = 8 * length bs"
  by (induction bs) (simp_all add: msb_bits_def)

lemma leading_zeros_byte: "leading_zeros (b :: u8) = length (takeWhile Not (byte_bits b))"
  by (simp add: leading_zeros_def byte_bits_def takeWhile_map comp_def)

lemma leading_zeros_le: "leading_zeros (b :: u8) \<le> 8"
  using length_takeWhile_le [of Not "byte_bits b"] by (simp add: leading_zeros_byte)

lemma byte_bits_zero: "byte_bits 0 = replicate 8 False"
  by (simp add: byte_bits_def upt_rec numeral_eq_Suc)

lemma byte_bits_nonzero: "b \<noteq> 0 \<Longrightarrow> True \<in> set (byte_bits b)"
proof -
  assume "b \<noteq> 0"
  then obtain n where "bit b n" by (auto simp: bit_eq_iff)
  then have "n < 8" using bit_imp_le_length [of b n] by simp
  with \<open>bit b n\<close> show ?thesis by (force simp: byte_bits_def)
qed

lemma takeWhile_msb_bits:
  "length (takeWhile Not (msb_bits (b # bs))) =
     (if b = 0 then 8 + length (takeWhile Not (msb_bits bs)) else leading_zeros b)"
proof (cases "b = 0")
  case True
  then show ?thesis by (simp add: msb_bits_def byte_bits_zero numeral_eq_Suc)
next
  case False
  then have "takeWhile Not (byte_bits b @ msb_bits bs) = takeWhile Not (byte_bits b)"
    using byte_bits_nonzero [of b] by (simp add: takeWhile_append1 [where x = True])
  with False show ?thesis by (simp add: msb_bits_def leading_zeros_byte)
qed

lemma unat_sat_u8: "unat (saturating_add (a :: u8) b) = min 255 (unat a + unat b)"
  by (simp add: unat_saturating_add)

lemma count_zero_bits_from_spec:
  "unat (count_zero_bits_from acc bs) = min 255 (unat acc + length (takeWhile Not (msb_bits bs)))"
proof (induction bs arbitrary: acc)
  case Nil
  have "unat acc < 2 ^ LENGTH(8)" by (rule unsigned_less)
  then show ?case by (simp add: msb_bits_def)
next
  case (Cons b bs)
  have "unat (of_nat (leading_zeros b) :: u8) = leading_zeros b"
    using leading_zeros_le [of b] by (simp add: unat_of_nat)
  with Cons show ?case
    by (auto simp: takeWhile_msb_bits unat_sat_u8 min_def)
qed

lemma bits_value_less: "bits_value bs < 2 ^ length bs"
  by (induction bs) (auto simp: of_bool_def)

lemma leading_bits_value:
  "d \<le> length bs \<Longrightarrow> d \<le> length (takeWhile Not bs) \<longleftrightarrow> bits_value bs < 2 ^ (length bs - d)"
proof (induction bs arbitrary: d)
  case (Cons b bs)
  show ?case
  proof (cases d)
    case 0
    then show ?thesis using bits_value_less [of "b # bs"] by simp
  next
    case (Suc k)
    then have le: "(2::nat) ^ (length bs - k) \<le> 2 ^ length bs" by simp
    show ?thesis
    proof (cases b)
      case True
      then have "\<not> bits_value (b # bs) < 2 ^ (length bs - k)"
        using le by (simp add: not_less trans_le_add1)
      with True Suc show ?thesis by simp
    next
      case False
      with Cons.IH [of k] Cons.prems Suc show ?thesis by simp
    qed
  qed
qed simp

lemma bits_value_append: "bits_value (as @ bs) = bits_value as * 2 ^ length bs + bits_value bs"
  by (induction as) (simp_all add: algebra_simps power_add)

lemma upt_8: "[0..<8] = [0, 1, 2, 3, 4, 5, 6, 7]"
  by (simp add: upt_rec)

lemma bits_value_byte: "bits_value (byte_bits b) = unat b"
proof -
  have "unat b < 2 ^ LENGTH(8)" by (rule unsigned_less)
  then have "take_bit 8 (unat b) = unat b" by (simp add: take_bit_nat_eq_self)
  then have "horner_sum of_bool 2 (map (bit (unat b)) [0..<8]) = unat b"
    using horner_sum_bit_eq_take_bit [of "unat b" 8] by (simp only:)
  moreover have "bit (unat b) = bit b"
    by (rule ext) (auto simp: bit_unsigned_iff dest: bit_imp_le_length)
  ultimately have "unat b = horner_sum of_bool 2 (map (bit b) [0, 1, 2, 3, 4, 5, 6, 7])"
    by (simp only: upt_8)
  moreover have "byte_bits b = rev (map (bit b) [0, 1, 2, 3, 4, 5, 6, 7])"
    by (simp only: byte_bits_def upt_8 rev_map)
  ultimately show ?thesis
    by (simp add: of_bool_def)
qed

lemma foldl_be: "foldl (\<lambda>n b. 256 * n + unat b) m bs = m * 2 ^ (8 * length bs) + bits_value (msb_bits bs)"
proof (induction bs arbitrary: m)
  case (Cons b bs)
  have "bits_value (msb_bits (b # bs)) = unat b * 2 ^ (8 * length bs) + bits_value (msb_bits bs)"
    by (simp add: msb_bits_Cons bits_value_append bits_value_byte)
  with Cons show ?case by (simp add: algebra_simps power_add)
qed (simp add: msb_bits_def)

lemma be_nat_bits: "be_nat bs = bits_value (msb_bits bs)"
  by (simp add: be_nat_def foldl_be)

text \<open>Difficulty is a bound on the id read as a 256-bit number.\<close>

lemma difficulty_be_nat:
  assumes "length i = 32"
  shows "d \<le> event_id_difficulty i \<longleftrightarrow> be_nat i < 2 ^ (256 - unat d)"
proof -
  have "unat d < 2 ^ LENGTH(8)" by (rule unsigned_less)
  then have d: "unat d \<le> 255" by simp
  have "d \<le> event_id_difficulty i \<longleftrightarrow> unat d \<le> length (takeWhile Not (msb_bits i))"
    using d by (simp add: word_le_nat_alt event_id_difficulty_def count_leading_zero_bits_def
        count_zero_bits_from_spec)
  also have "\<dots> \<longleftrightarrow> be_nat i < 2 ^ (256 - unat d)"
    using leading_bits_value [of "unat d" "msb_bits i"] assms d by (simp add: be_nat_bits)
  finally show ?thesis .
qed

text \<open>The search returns the first nonce that works, and fails only when none does.\<close>

lemma mine_loop_spec:
  "case mine_loop attempt difficulty start of
     Inr a \<Rightarrow> pa_unsigned a = attempt (pa_iterations a) \<and> pa_difficulty a = difficulty \<and>
       start < pa_iterations a \<and> difficulty \<le> event_id_difficulty (u_id (attempt (pa_iterations a))) \<and>
       (\<forall>n. start < n \<and> n < pa_iterations a \<longrightarrow> \<not> difficulty \<le> event_id_difficulty (u_id (attempt n)))
   | Inl e \<Rightarrow> e = NonceExhausted \<and>
       (\<forall>n. start < n \<longrightarrow> \<not> difficulty \<le> event_id_difficulty (u_id (attempt n)))"
proof (induction attempt difficulty start rule: mine_loop.induct)
  case (1 attempt difficulty start)
  show ?case
  proof (cases "start = - 1")
    case True
    then have "mine_loop attempt difficulty start = Inl NonceExhausted"
      by (subst mine_loop.simps) simp
    moreover have "\<not> start < n" for n
      using True word_order.extremum_strict [of n] by simp
    ultimately show ?thesis by simp
  next
    case False
    then have succ: "start < n \<longleftrightarrow> n = start + 1 \<or> start + 1 < n" for n
      unfolding word_less_nat_alt word_unat_eq_iff [of n] by (auto simp: unat_add_one)
    show ?thesis
    proof (cases "difficulty \<le> event_id_difficulty (u_id (attempt (start + 1)))")
      case True
      have "start < start + 1" and "\<not> (start < n \<and> n < start + 1)" for n
        using succ [of "start + 1"] succ [of n] by auto
      with True False show ?thesis by (subst mine_loop.simps) (auto simp: Let_def)
    next
      case far: False
      have "mine_loop attempt difficulty start = mine_loop attempt difficulty (start + 1)"
        using far False by (subst mine_loop.simps) (simp add: Let_def)
      with "1.IH" [OF False refl refl far] far show ?thesis
        by (cases "mine_loop attempt difficulty (start + 1)") (auto simp: succ)
    qed
  qed
qed

lemma parse_u8_show_word [simp]: "parse_u8 (show_word (d :: u8)) = Inr d"
proof -
  have "unat d < 2 ^ LENGTH(8)" by (rule unsigned_less)
  then show ?thesis by (simp add: parse_u8_def show_word_def parse_uint_show_nat)
qed

text \<open>An event with a mined tag list commits to the difficulty that was mined.\<close>

lemma committed_nonce:
  assumes "ev_tags e = prefix @ [make_nonce_tag nonce d]"
    and "\<forall>t \<in> set prefix. tag_head t \<noteq> tag_kind_from_wire NONCE_TAG"
  shows "committed_difficulty e = Inr (Some d)"
proof -
  let ?t = "make_nonce_tag nonce d"
  have "find_all (tag_kind_from_wire NONCE_TAG) (ev_tags e) = [?t]"
    using assms by (auto simp: find_all_def make_nonce_tag_def tag_head_with_wire)
  then have "find_first (tag_kind_from_wire NONCE_TAG) (ev_tags e) = Some ?t"
    by (simp add: find_first_find_all)
  moreover have "tag_get ?t 2 = Some (show_word d)"
    by (simp add: make_nonce_tag_def tag_with_def tag_get_def)
  ultimately show ?thesis by (simp add: committed_difficulty_def)
qed

lemma mine_and_sign_aux:
  assumes "mine_and_sign X clock b (keys_from_secret_key X sk) d = Inr e" and "schnorr_laws X"
  shows "verify X e = Inr ()" and "verify_pow_strict e d = Inr ()"
    and "ev_pubkey e = keypair_public X sk" and "ev_kind e = b_kind b" and "ev_content e = b_content b"
    and "filter (\<lambda>t. tag_head t \<noteq> tag_kind_from_wire NONCE_TAG) (ev_tags e) =
      filter (\<lambda>t. tag_head t \<noteq> tag_kind_from_wire NONCE_TAG) (items (b_tags b))"
proof -
  let ?ks = "keys_from_secret_key X sk"
  let ?prefix = "filter (\<lambda>t. tag_head t \<noteq> tag_kind_from_wire NONCE_TAG) (items (b_tags b))"
  from assms(1) obtain a at where
    a: "mine_loop (mine_try X (keys_public ?ks) at (b_kind b) ?prefix (b_content b) d) d 0 = Inr a"
    and e: "unsigned_sign_with_keys X (pa_unsigned a) ?ks = Inr e"
    by (auto simp: mine_and_sign_def pow_mine_def into_signed_with_keys_def res_bind_Inr_iff Let_def)
  note spec = mine_loop_spec [where attempt = "mine_try X (keys_public ?ks) at (b_kind b) ?prefix (b_content b) d"
      and difficulty = d and start = 0, unfolded a, simplified]
  have u: "pa_unsigned a = unsigned_new X (keys_public ?ks) at (b_kind b)
      (?prefix @ [make_nonce_tag (pa_iterations a) d]) (b_content b)"
    using spec by (simp add: mine_try_def)
  have fields: "ev_tags e = ?prefix @ [make_nonce_tag (pa_iterations a) d]" "ev_kind e = b_kind b"
    "ev_content e = b_content b" "ev_id e = u_id (pa_unsigned a)"
    using e unfolding u by (auto simp: unsigned_sign_with_keys_def Let_def unsigned_new_def compute_id_def
        split: if_splits)
  show "ev_kind e = b_kind b" "ev_content e = b_content b" by (fact fields)+
  show "verify X e = Inr ()" "ev_pubkey e = keypair_public X sk"
    using sign_verifies_aux [OF assms(2) e] by simp_all
  have "committed_difficulty e = Inr (Some d)"
    by (rule committed_nonce [OF fields(1)]) simp
  moreover have "d \<le> event_id_difficulty (ev_id e)"
    using spec fields(4) by simp
  ultimately show "verify_pow_strict e d = Inr ()"
    by (simp add: verify_pow_strict_def verify_pow_def Let_def not_less)
  show "filter (\<lambda>t. tag_head t \<noteq> tag_kind_from_wire NONCE_TAG) (ev_tags e) = ?prefix"
    using fields(1) by (simp add: make_nonce_tag_def tag_head_with_wire)
qed

section \<open>Lemmas on authentication\<close>

lemma ok_or_Inr_iff: "ok_or err x = Inr v \<longleftrightarrow> x = Some v"
  by (cases x) auto

lemma from_wire_distinct: "tag_kind_from_wire RELAY_TAG \<noteq> tag_kind_from_wire CHALLENGE_TAG"
  by (simp add: RELAY_TAG_def CHALLENGE_TAG_def from_wire_two)

text \<open>A verified event answers the challenge for this relay within the window.\<close>

lemma verify_auth_event_Inr:
  "verify_auth_event U e relay challenge now max_age = Inr () \<longleftrightarrow>
     ev_kind e = AUTHENTICATION \<and>
     (\<exists>t raw. find_first (tag_kind_from_wire RELAY_TAG) (ev_tags e) = Some t \<and> tag_get t 1 = Some raw \<and>
        relay_url_parse U raw = Inr relay) \<and>
     (\<exists>t. find_first (tag_kind_from_wire CHALLENGE_TAG) (ev_tags e) = Some t \<and> tag_get t 1 = Some challenge) \<and>
     challenge \<noteq> [] \<and>
     unat now \<le> unat (ev_created_at e) + unat max_age \<and> unat (ev_created_at e) \<le> unat now + unat max_age"
  (is "?L \<longleftrightarrow> ?R")
proof -
  have win: "\<not> (a < b \<and> m < saturating_sub b a) \<longleftrightarrow> unat b \<le> unat a + unat m" for a b m :: u64
    by (auto simp: word_less_nat_alt unat_saturating_sub)
  show ?thesis
    unfolding verify_auth_event_def verify_auth_event_against_def Let_def
    by (auto simp: res_bind_Inr_iff ok_or_Inr_iff bind_eq_Some_conv win [symmetric] split: if_splits)
qed

lemma auth_event_tags:
  assumes "ev_tags e = items (b_tags (auth_event relay challenge))"
  shows "find_first (tag_kind_from_wire RELAY_TAG) (ev_tags e) = Some (tag_with (tag_kind_from_wire RELAY_TAG) [relay])"
    and "find_first (tag_kind_from_wire CHALLENGE_TAG) (ev_tags e) =
      Some (tag_with (tag_kind_from_wire CHALLENGE_TAG) [challenge])"
    and "tag_get (tag_with (tag_kind_from_wire RELAY_TAG) [relay]) 1 = Some relay"
    and "tag_get (tag_with (tag_kind_from_wire CHALLENGE_TAG) [challenge]) 1 = Some challenge"
proof -
  have "ev_tags e = [tag_with (tag_kind_from_wire RELAY_TAG) [relay], tag_with (tag_kind_from_wire CHALLENGE_TAG) [challenge]]"
    using assms by (simp add: auth_event_def builder_tag_def builder_new_def tags_push_def
        tags_new_def erase_indexes_def tags_from_vec_def)
  then show "find_first (tag_kind_from_wire RELAY_TAG) (ev_tags e) = Some (tag_with (tag_kind_from_wire RELAY_TAG) [relay])"
    "find_first (tag_kind_from_wire CHALLENGE_TAG) (ev_tags e) = Some (tag_with (tag_kind_from_wire CHALLENGE_TAG) [challenge])"
    using from_wire_distinct by (simp_all add: find_first_find_all find_all_def tag_head_with_wire)
qed (simp_all add: tag_get_with)

lemma auth_event_verifies:
  assumes "relay_url_parse U relay = Inr relay" and "challenge \<noteq> []"
    and "ev_kind e = b_kind (auth_event relay challenge)"
    and "ev_tags e = items (b_tags (auth_event relay challenge))"
    and "unat now \<le> unat (ev_created_at e) + unat max_age" and "unat (ev_created_at e) \<le> unat now + unat max_age"
  shows "verify_auth_event U e relay challenge now max_age = Inr ()"
  using assms auth_event_tags [OF assms(4)]
  by (simp add: verify_auth_event_Inr auth_event_def builder_tag_def builder_new_def)

end
