(* ===== verification/Messages.thy ===== *)
theory Messages
  imports Filter_Model
begin

text \<open>
  The wire messages of NIP-01 (nula-core, message/): the subscription id
  (message/subscription_id.rs), the machine-readable prefixes and the relay messages
  (message/relay.rs), the client messages (message/client.rs), and the JSON form of an event
  (the derived \<open>Serialize\<close> and \<open>Deserialize\<close> of \<open>Event\<close>). A message is decoded from the sequence
  of the elements of a JSON array; every \<open>decode_*\<close> function takes that sequence and returns what
  is left of it, and \<open>serde_json\<close> refuses an array whose elements are not all consumed. A struct
  with a derived \<open>Deserialize\<close> is read from an object (unknown keys ignored, repeated and missing
  ones refused) or, as \<open>serde_json\<close> allows, from the array of its fields. The text form of a
  signature belongs to \<open>secp256k1\<close> and is the argument \<open>Y\<close>.
\<close>

section \<open>Subscription ids\<close>

type_synonym subscription_id = string

datatype rng_error = RngError

datatype subscription_id_error =
    SubIdEmpty
  | SubIdTooLong nat
  | SubIdRng rng_error

definition MAX_LENGTH :: nat where "MAX_LENGTH = 64"

definition subscription_id_validate :: "string \<Rightarrow> subscription_id_error + unit" where
  "subscription_id_validate value =
     (if value = [] then Inl SubIdEmpty
      else let chars = length (utf8_chars value)
           in if chars > MAX_LENGTH then Inl (SubIdTooLong chars) else Inr ())"

definition subscription_id_new :: "string \<Rightarrow> subscription_id_error + subscription_id" where
  "subscription_id_new value = res_bind (subscription_id_validate value) (\<lambda>_. Inr value)"

text \<open>\<open>util::rng::random_hex_string\<close>; the bytes the operating system returns are an argument.\<close>

definition random_hex_string :: "crates \<Rightarrow> rng_error + bytes \<Rightarrow> rng_error + string" where
  "random_hex_string X os = res_bind os (\<lambda>bytes. Inr (hex_encode X bytes))"

definition subscription_id_generate ::
  "crates \<Rightarrow> rng_error + bytes \<Rightarrow> subscription_id_error + subscription_id" where
  "subscription_id_generate X os = map_err SubIdRng (random_hex_string X os)"

section \<open>Machine-readable prefixes\<close>

datatype machine_readable_prefix =
    PfxDuplicate | PfxPow | PfxBlocked | PfxRateLimited | PfxInvalid | PfxError | PfxRestricted | PfxMute | PfxAuthRequired
  | PfxPaymentRequired

datatype machine_readable_prefix_error = PrefixUnknown

primrec prefix_as_str :: "machine_readable_prefix \<Rightarrow> string" where
  "prefix_as_str PfxDuplicate = ''duplicate''"
| "prefix_as_str PfxPow = ''pow''"
| "prefix_as_str PfxBlocked = ''blocked''"
| "prefix_as_str PfxRateLimited = ''rate-limited''"
| "prefix_as_str PfxInvalid = ''invalid''"
| "prefix_as_str PfxError = ''error''"
| "prefix_as_str PfxRestricted = ''restricted''"
| "prefix_as_str PfxMute = ''mute''"
| "prefix_as_str PfxAuthRequired = ''auth-required''"
| "prefix_as_str PfxPaymentRequired = ''payment-required''"

definition prefix_from_str :: "string \<Rightarrow> machine_readable_prefix_error + machine_readable_prefix" where
  "prefix_from_str s =
     (if s = ''duplicate'' then Inr PfxDuplicate
      else if s = ''pow'' then Inr PfxPow
      else if s = ''blocked'' then Inr PfxBlocked
      else if s = ''rate-limited'' then Inr PfxRateLimited
      else if s = ''invalid'' then Inr PfxInvalid
      else if s = ''error'' then Inr PfxError
      else if s = ''restricted'' then Inr PfxRestricted
      else if s = ''mute'' then Inr PfxMute
      else if s = ''auth-required'' then Inr PfxAuthRequired
      else if s = ''payment-required'' then Inr PfxPaymentRequired
      else Inl PrefixUnknown)"

definition from_reason :: "string \<Rightarrow> machine_readable_prefix option" where
  "from_reason reason =
     (case splitn 2 CHR '':'' reason of
        [prefix, rest] \<Rightarrow> res_ok (prefix_from_str prefix)
      | _ \<Rightarrow> None)"

section \<open>The messages\<close>

datatype client_message_error =
    ClientEmpty
  | ClientUnknownTag string
  | ClientMalformed string string

datatype relay_message_error =
    RelayEmpty
  | RelayUnknownTag string
  | RelayMalformed string string

datatype client_message =
    CEvent event
  | CReq subscription_id "nostr_filter list"
  | CClose subscription_id
  | CAuth event
  | CCount subscription_id nostr_filter
  | CNegOpen subscription_id nostr_filter string
  | CNegMsg subscription_id string
  | CNegClose subscription_id

datatype relay_message =
    REvent subscription_id event
  | ROk event_id bool string
  | REndOfStoredEvents subscription_id
  | RClosed subscription_id string
  | RNotice string
  | RAuth string
  | RCount subscription_id u64
  | RNegMsg subscription_id string
  | RNegErr subscription_id string

section \<open>Decoding values\<close>

datatype de_error =
    DeValue filter_de_error
  | DeSubscriptionId subscription_id_error
  | DeTag tag_error
  | DeSignature
  | DeMissingField string
  | DeDuplicateField string
  | DeInvalidLength nat
  | DeTrailing
  | DeClient client_message_error
  | DeRelay relay_message_error

record sig_text =
  sig_to_string :: "signature \<Rightarrow> string"
  sig_from_str :: "string \<Rightarrow> signature option"

definition de_str :: "json \<Rightarrow> de_error + string" where
  "de_str j = map_err DeValue (de_string j)"

definition de_bool :: "json \<Rightarrow> de_error + bool" where
  "de_bool j = (case j of JBool b \<Rightarrow> Inr b | _ \<Rightarrow> Inl (DeValue DeType))"

definition de_subscription_id :: "json \<Rightarrow> de_error + subscription_id" where
  "de_subscription_id j =
     res_bind (de_str j) (\<lambda>raw. map_err DeSubscriptionId (subscription_id_new raw))"

definition de_filter :: "crates \<Rightarrow> json \<Rightarrow> de_error + nostr_filter" where
  "de_filter X j = map_err DeValue (filter_deserialize X j)"

definition de_tag :: "json \<Rightarrow> de_error + tag" where
  "de_tag j =
     res_bind (map_err DeValue (de_array de_string j)) (\<lambda>values. map_err DeTag (tag_new values))"

definition de_tags :: "json \<Rightarrow> de_error + tag list" where
  "de_tags j = (case j of JArr js \<Rightarrow> de_list de_tag js | _ \<Rightarrow> Inl (DeValue DeType))"

definition de_sig :: "sig_text \<Rightarrow> json \<Rightarrow> de_error + signature" where
  "de_sig Y j = res_bind (de_str j) (\<lambda>raw. ok_or DeSignature (sig_from_str Y raw))"

section \<open>Events in JSON\<close>

definition event_serialize :: "sig_text \<Rightarrow> event \<Rightarrow> json" where
  "event_serialize Y e = JObj
     [(''id'', JStr (fmt_lower (ev_id e))),
      (''pubkey'', JStr (fmt_lower (ev_pubkey e))),
      (''created_at'', JNum (uint (ev_created_at e))),
      (''kind'', JNum (uint (ev_kind e))),
      (''tags'', JArr (map tag_to_json (ev_tags e))),
      (''content'', JStr (ev_content e)),
      (''sig'', JStr (sig_to_string Y (ev_sig e)))]"

record event_fields =
  ef_id :: "event_id option"
  ef_pubkey :: "public_key option"
  ef_created_at :: "timestamp option"
  ef_kind :: "kind option"
  ef_tags :: "tag list option"
  ef_content :: "string option"
  ef_sig :: "signature option"

definition no_fields :: event_fields where
  "no_fields = \<lparr>ef_id = None, ef_pubkey = None, ef_created_at = None, ef_kind = None,
     ef_tags = None, ef_content = None, ef_sig = None\<rparr>"

text \<open>One arm of a derived \<open>visit_map\<close>: a second value for a key is an error, seen before the
  value is decoded.\<close>

definition set_field :: "string \<Rightarrow> 'a option \<Rightarrow> de_error + 'a \<Rightarrow> de_error + 'a option" where
  "set_field key old r =
     (case old of Some _ \<Rightarrow> Inl (DeDuplicateField key) | None \<Rightarrow> res_bind r (\<lambda>x. Inr (Some x)))"

definition event_visit_entry ::
  "crates \<Rightarrow> sig_text \<Rightarrow> event_fields \<Rightarrow> string \<Rightarrow> json \<Rightarrow> de_error + event_fields" where
  "event_visit_entry X Y f key v =
     (if key = ''id'' then
        res_bind (set_field key (ef_id f) (map_err DeValue (de_event_id X v)))
          (\<lambda>x. Inr (f\<lparr>ef_id := x\<rparr>))
      else if key = ''pubkey'' then
        res_bind (set_field key (ef_pubkey f) (map_err DeValue (de_public_key X v)))
          (\<lambda>x. Inr (f\<lparr>ef_pubkey := x\<rparr>))
      else if key = ''created_at'' then
        res_bind (set_field key (ef_created_at f) (map_err DeValue (de_u64 v)))
          (\<lambda>x. Inr (f\<lparr>ef_created_at := x\<rparr>))
      else if key = ''kind'' then
        res_bind (set_field key (ef_kind f) (map_err DeValue (de_u16 v)))
          (\<lambda>x. Inr (f\<lparr>ef_kind := x\<rparr>))
      else if key = ''tags'' then
        res_bind (set_field key (ef_tags f) (de_tags v)) (\<lambda>x. Inr (f\<lparr>ef_tags := x\<rparr>))
      else if key = ''content'' then
        res_bind (set_field key (ef_content f) (de_str v)) (\<lambda>x. Inr (f\<lparr>ef_content := x\<rparr>))
      else if key = ''sig'' then
        res_bind (set_field key (ef_sig f) (de_sig Y v)) (\<lambda>x. Inr (f\<lparr>ef_sig := x\<rparr>))
      else Inr f)"

fun event_visit_map ::
  "crates \<Rightarrow> sig_text \<Rightarrow> event_fields \<Rightarrow> (string \<times> json) list \<Rightarrow> de_error + event_fields" where
  "event_visit_map X Y f [] = Inr f"
| "event_visit_map X Y f (e # es) =
     res_bind (event_visit_entry X Y f (fst e) (snd e)) (\<lambda>f'. event_visit_map X Y f' es)"

definition event_from_fields :: "event_fields \<Rightarrow> de_error + event" where
  "event_from_fields f =
     res_bind (ok_or (DeMissingField ''id'') (ef_id f)) (\<lambda>i.
     res_bind (ok_or (DeMissingField ''pubkey'') (ef_pubkey f)) (\<lambda>pk.
     res_bind (ok_or (DeMissingField ''created_at'') (ef_created_at f)) (\<lambda>at.
     res_bind (ok_or (DeMissingField ''kind'') (ef_kind f)) (\<lambda>k.
     res_bind (ok_or (DeMissingField ''tags'') (ef_tags f)) (\<lambda>ts.
     res_bind (ok_or (DeMissingField ''content'') (ef_content f)) (\<lambda>c.
     res_bind (ok_or (DeMissingField ''sig'') (ef_sig f)) (\<lambda>s.
     Inr \<lparr>ev_id = i, ev_pubkey = pk, ev_created_at = at, ev_kind = k, ev_tags = ts,
          ev_content = c, ev_sig = s\<rparr>)))))))"

text \<open>\<open>SeqAccess::next_element\<close> followed by \<open>ok_or\<close>: the next element of the array decoded, and
  the elements after it.\<close>

definition next_element ::
  "de_error \<Rightarrow> (json \<Rightarrow> de_error + 'a) \<Rightarrow> json list \<Rightarrow> de_error + 'a \<times> json list" where
  "next_element missing d seq =
     (case seq of [] \<Rightarrow> Inl missing | j # js \<Rightarrow> res_bind (d j) (\<lambda>x. Inr (x, js)))"

definition end_seq :: "de_error + 'a \<times> json list \<Rightarrow> de_error + 'a" where
  "end_seq r = res_bind r (\<lambda>p. if snd p = [] then Inr (fst p) else Inl DeTrailing)"

definition event_visit_seq :: "crates \<Rightarrow> sig_text \<Rightarrow> json list \<Rightarrow> de_error + event \<times> json list" where
  "event_visit_seq X Y seq =
     res_bind (next_element (DeInvalidLength 0) (\<lambda>j. map_err DeValue (de_event_id X j)) seq) (\<lambda>p1.
     res_bind (next_element (DeInvalidLength 1) (\<lambda>j. map_err DeValue (de_public_key X j)) (snd p1)) (\<lambda>p2.
     res_bind (next_element (DeInvalidLength 2) (\<lambda>j. map_err DeValue (de_u64 j)) (snd p2)) (\<lambda>p3.
     res_bind (next_element (DeInvalidLength 3) (\<lambda>j. map_err DeValue (de_u16 j)) (snd p3)) (\<lambda>p4.
     res_bind (next_element (DeInvalidLength 4) de_tags (snd p4)) (\<lambda>p5.
     res_bind (next_element (DeInvalidLength 5) de_str (snd p5)) (\<lambda>p6.
     res_bind (next_element (DeInvalidLength 6) (de_sig Y) (snd p6)) (\<lambda>p7.
     Inr (\<lparr>ev_id = fst p1, ev_pubkey = fst p2, ev_created_at = fst p3, ev_kind = fst p4,
           ev_tags = fst p5, ev_content = fst p6, ev_sig = fst p7\<rparr>, snd p7))))))))"

definition event_deserialize :: "crates \<Rightarrow> sig_text \<Rightarrow> json \<Rightarrow> de_error + event" where
  "event_deserialize X Y j =
     (case j of
        JObj es \<Rightarrow> res_bind (event_visit_map X Y no_fields es) event_from_fields
      | JArr js \<Rightarrow> end_seq (event_visit_seq X Y js)
      | _ \<Rightarrow> Inl (DeValue DeType))"

section \<open>Client messages in JSON\<close>

primrec client_serialize :: "crates \<Rightarrow> sig_text \<Rightarrow> client_message \<Rightarrow> json" where
  "client_serialize X Y (CEvent e) = JArr [JStr ''EVENT'', event_serialize Y e]"
| "client_serialize X Y (CReq i fs) =
     JArr ([JStr ''REQ'', JStr i] @ map (filter_serialize X) fs)"
| "client_serialize X Y (CClose i) = JArr [JStr ''CLOSE'', JStr i]"
| "client_serialize X Y (CAuth e) = JArr [JStr ''AUTH'', event_serialize Y e]"
| "client_serialize X Y (CCount i f) = JArr [JStr ''COUNT'', JStr i, filter_serialize X f]"
| "client_serialize X Y (CNegOpen i f m) =
     JArr [JStr ''NEG-OPEN'', JStr i, filter_serialize X f, JStr m]"
| "client_serialize X Y (CNegMsg i m) = JArr [JStr ''NEG-MSG'', JStr i, JStr m]"
| "client_serialize X Y (CNegClose i) = JArr [JStr ''NEG-CLOSE'', JStr i]"

abbreviation client_malformed :: "string \<Rightarrow> string \<Rightarrow> de_error" where
  "client_malformed t reason \<equiv> DeClient (ClientMalformed t reason)"

definition client_decode_event ::
  "crates \<Rightarrow> sig_text \<Rightarrow> json list \<Rightarrow> de_error + client_message \<times> json list" where
  "client_decode_event X Y seq =
     res_bind (next_element (client_malformed ''EVENT'' ''missing event'') (event_deserialize X Y) seq)
       (\<lambda>p. Inr (CEvent (fst p), snd p))"

definition client_decode_req ::
  "crates \<Rightarrow> json list \<Rightarrow> de_error + client_message \<times> json list" where
  "client_decode_req X seq =
     res_bind (next_element (client_malformed ''REQ'' ''missing subscription id'') de_subscription_id seq) (\<lambda>p.
     res_bind (de_list (de_filter X) (snd p)) (\<lambda>filters.
     if filters = [] then Inl (client_malformed ''REQ'' ''REQ requires at least one filter'')
     else Inr (CReq (fst p) filters, [])))"

definition client_decode_close :: "json list \<Rightarrow> de_error + client_message \<times> json list" where
  "client_decode_close seq =
     res_bind (next_element (client_malformed ''CLOSE'' ''missing subscription id'') de_subscription_id seq)
       (\<lambda>p. Inr (CClose (fst p), snd p))"

definition client_decode_auth ::
  "crates \<Rightarrow> sig_text \<Rightarrow> json list \<Rightarrow> de_error + client_message \<times> json list" where
  "client_decode_auth X Y seq =
     res_bind (next_element (client_malformed ''AUTH'' ''missing event'') (event_deserialize X Y) seq)
       (\<lambda>p. Inr (CAuth (fst p), snd p))"

definition client_decode_count ::
  "crates \<Rightarrow> json list \<Rightarrow> de_error + client_message \<times> json list" where
  "client_decode_count X seq =
     res_bind (next_element (client_malformed ''COUNT'' ''missing subscription id'') de_subscription_id seq) (\<lambda>p.
     res_bind (next_element (client_malformed ''COUNT'' ''missing filter'') (de_filter X) (snd p)) (\<lambda>q.
     Inr (CCount (fst p) (fst q), snd q)))"

definition client_decode_neg_open ::
  "crates \<Rightarrow> json list \<Rightarrow> de_error + client_message \<times> json list" where
  "client_decode_neg_open X seq =
     res_bind (next_element (client_malformed ''NEG-OPEN'' ''missing subscription id'') de_subscription_id seq) (\<lambda>p.
     res_bind (next_element (client_malformed ''NEG-OPEN'' ''missing filter'') (de_filter X) (snd p)) (\<lambda>q.
     res_bind (next_element (client_malformed ''NEG-OPEN'' ''missing initial message'') de_str (snd q)) (\<lambda>r.
     Inr (CNegOpen (fst p) (fst q) (fst r), snd r))))"

definition client_decode_neg_msg :: "json list \<Rightarrow> de_error + client_message \<times> json list" where
  "client_decode_neg_msg seq =
     res_bind (next_element (client_malformed ''NEG-MSG'' ''missing subscription id'') de_subscription_id seq) (\<lambda>p.
     res_bind (next_element (client_malformed ''NEG-MSG'' ''missing message'') de_str (snd p)) (\<lambda>q.
     Inr (CNegMsg (fst p) (fst q), snd q)))"

definition client_decode_neg_close :: "json list \<Rightarrow> de_error + client_message \<times> json list" where
  "client_decode_neg_close seq =
     res_bind (next_element (client_malformed ''NEG-CLOSE'' ''missing subscription id'') de_subscription_id seq)
       (\<lambda>p. Inr (CNegClose (fst p), snd p))"

definition client_visit_seq ::
  "crates \<Rightarrow> sig_text \<Rightarrow> json list \<Rightarrow> de_error + client_message \<times> json list" where
  "client_visit_seq X Y seq =
     res_bind (next_element (DeClient ClientEmpty) de_str seq) (\<lambda>p.
     let t = fst p; rest = snd p in
     if t = ''EVENT'' then client_decode_event X Y rest
     else if t = ''REQ'' then client_decode_req X rest
     else if t = ''CLOSE'' then client_decode_close rest
     else if t = ''AUTH'' then client_decode_auth X Y rest
     else if t = ''COUNT'' then client_decode_count X rest
     else if t = ''NEG-OPEN'' then client_decode_neg_open X rest
     else if t = ''NEG-MSG'' then client_decode_neg_msg rest
     else if t = ''NEG-CLOSE'' then client_decode_neg_close rest
     else Inl (DeClient (ClientUnknownTag t)))"

definition client_deserialize :: "crates \<Rightarrow> sig_text \<Rightarrow> json \<Rightarrow> de_error + client_message" where
  "client_deserialize X Y j =
     (case j of JArr js \<Rightarrow> end_seq (client_visit_seq X Y js) | _ \<Rightarrow> Inl (DeValue DeType))"

section \<open>Relay messages in JSON\<close>

primrec relay_serialize :: "sig_text \<Rightarrow> relay_message \<Rightarrow> json" where
  "relay_serialize Y (REvent i e) = JArr [JStr ''EVENT'', JStr i, event_serialize Y e]"
| "relay_serialize Y (ROk i accepted m) =
     JArr [JStr ''OK'', JStr (fmt_lower i), JBool accepted, JStr m]"
| "relay_serialize Y (REndOfStoredEvents i) = JArr [JStr ''EOSE'', JStr i]"
| "relay_serialize Y (RClosed i m) = JArr [JStr ''CLOSED'', JStr i, JStr m]"
| "relay_serialize Y (RNotice m) = JArr [JStr ''NOTICE'', JStr m]"
| "relay_serialize Y (RAuth c) = JArr [JStr ''AUTH'', JStr c]"
| "relay_serialize Y (RCount i n) =
     JArr [JStr ''COUNT'', JStr i, JObj [(''count'', JNum (uint n))]]"
| "relay_serialize Y (RNegMsg i m) = JArr [JStr ''NEG-MSG'', JStr i, JStr m]"
| "relay_serialize Y (RNegErr i m) = JArr [JStr ''NEG-ERR'', JStr i, JStr m]"

definition malformed :: "string \<Rightarrow> string \<Rightarrow> de_error" where
  "malformed t reason = DeRelay (RelayMalformed t reason)"

definition relay_decode_event ::
  "crates \<Rightarrow> sig_text \<Rightarrow> json list \<Rightarrow> de_error + relay_message \<times> json list" where
  "relay_decode_event X Y seq =
     res_bind (next_element (malformed ''EVENT'' ''missing subscription id'') de_subscription_id seq) (\<lambda>p.
     res_bind (next_element (malformed ''EVENT'' ''missing event'') (event_deserialize X Y) (snd p)) (\<lambda>q.
     Inr (REvent (fst p) (fst q), snd q)))"

definition relay_decode_ok :: "crates \<Rightarrow> json list \<Rightarrow> de_error + relay_message \<times> json list" where
  "relay_decode_ok X seq =
     res_bind (next_element (malformed ''OK'' ''missing event id'') (\<lambda>j. map_err DeValue (de_event_id X j)) seq) (\<lambda>p.
     res_bind (next_element (malformed ''OK'' ''missing accepted flag'') de_bool (snd p)) (\<lambda>q.
     res_bind (next_element (malformed ''OK'' ''missing message'') de_str (snd q)) (\<lambda>r.
     Inr (ROk (fst p) (fst q) (fst r), snd r))))"

definition relay_decode_eose :: "json list \<Rightarrow> de_error + relay_message \<times> json list" where
  "relay_decode_eose seq =
     res_bind (next_element (malformed ''EOSE'' ''missing subscription id'') de_subscription_id seq)
       (\<lambda>p. Inr (REndOfStoredEvents (fst p), snd p))"

text \<open>An absent reason is the empty string.\<close>

definition relay_decode_closed :: "json list \<Rightarrow> de_error + relay_message \<times> json list" where
  "relay_decode_closed seq =
     res_bind (next_element (malformed ''CLOSED'' ''missing subscription id'') de_subscription_id seq) (\<lambda>p.
     case snd p of
       [] \<Rightarrow> Inr (RClosed (fst p) [], [])
     | j # js \<Rightarrow> res_bind (de_str j) (\<lambda>m. Inr (RClosed (fst p) m, js)))"

definition relay_decode_notice :: "json list \<Rightarrow> de_error + relay_message \<times> json list" where
  "relay_decode_notice seq =
     res_bind (next_element (malformed ''NOTICE'' ''missing message'') de_str seq)
       (\<lambda>p. Inr (RNotice (fst p), snd p))"

definition relay_decode_auth :: "json list \<Rightarrow> de_error + relay_message \<times> json list" where
  "relay_decode_auth seq =
     res_bind (next_element (malformed ''AUTH'' ''missing challenge'') de_str seq)
       (\<lambda>p. Inr (RAuth (fst p), snd p))"

text \<open>The derived \<open>Deserialize\<close> of the local struct \<open>CountPayload\<close>.\<close>

fun count_visit_map :: "u64 option \<Rightarrow> (string \<times> json) list \<Rightarrow> de_error + u64 option" where
  "count_visit_map n [] = Inr n"
| "count_visit_map n (e # es) =
     (if fst e = ''count'' then
        res_bind (set_field ''count'' n (map_err DeValue (de_u64 (snd e)))) (\<lambda>n'. count_visit_map n' es)
      else count_visit_map n es)"

definition de_count_payload :: "json \<Rightarrow> de_error + u64" where
  "de_count_payload j =
     (case j of
        JObj es \<Rightarrow> res_bind (count_visit_map None es) (\<lambda>n. ok_or (DeMissingField ''count'') n)
      | JArr js \<Rightarrow> end_seq (next_element (DeInvalidLength 0) (\<lambda>v. map_err DeValue (de_u64 v)) js)
      | _ \<Rightarrow> Inl (DeValue DeType))"

definition relay_decode_count :: "json list \<Rightarrow> de_error + relay_message \<times> json list" where
  "relay_decode_count seq =
     res_bind (next_element (malformed ''COUNT'' ''missing subscription id'') de_subscription_id seq) (\<lambda>p.
     res_bind (next_element (malformed ''COUNT'' ''missing count payload'') de_count_payload (snd p)) (\<lambda>q.
     Inr (RCount (fst p) (fst q), snd q)))"

definition relay_decode_neg_msg :: "json list \<Rightarrow> de_error + relay_message \<times> json list" where
  "relay_decode_neg_msg seq =
     res_bind (next_element (malformed ''NEG-MSG'' ''missing subscription id'') de_subscription_id seq) (\<lambda>p.
     res_bind (next_element (malformed ''NEG-MSG'' ''missing message'') de_str (snd p)) (\<lambda>q.
     Inr (RNegMsg (fst p) (fst q), snd q)))"

definition relay_decode_neg_err :: "json list \<Rightarrow> de_error + relay_message \<times> json list" where
  "relay_decode_neg_err seq =
     res_bind (next_element (malformed ''NEG-ERR'' ''missing subscription id'') de_subscription_id seq) (\<lambda>p.
     res_bind (next_element (malformed ''NEG-ERR'' ''missing message'') de_str (snd p)) (\<lambda>q.
     Inr (RNegErr (fst p) (fst q), snd q)))"

definition relay_visit_seq ::
  "crates \<Rightarrow> sig_text \<Rightarrow> json list \<Rightarrow> de_error + relay_message \<times> json list" where
  "relay_visit_seq X Y seq =
     res_bind (next_element (DeRelay RelayEmpty) de_str seq) (\<lambda>p.
     let t = fst p; rest = snd p in
     if t = ''EVENT'' then relay_decode_event X Y rest
     else if t = ''OK'' then relay_decode_ok X rest
     else if t = ''EOSE'' then relay_decode_eose rest
     else if t = ''CLOSED'' then relay_decode_closed rest
     else if t = ''NOTICE'' then relay_decode_notice rest
     else if t = ''AUTH'' then relay_decode_auth rest
     else if t = ''COUNT'' then relay_decode_count rest
     else if t = ''NEG-MSG'' then relay_decode_neg_msg rest
     else if t = ''NEG-ERR'' then relay_decode_neg_err rest
     else Inl (DeRelay (RelayUnknownTag t)))"

definition relay_deserialize :: "crates \<Rightarrow> sig_text \<Rightarrow> json \<Rightarrow> de_error + relay_message" where
  "relay_deserialize X Y j =
     (case j of JArr js \<Rightarrow> end_seq (relay_visit_seq X Y js) | _ \<Rightarrow> Inl (DeValue DeType))"

section \<open>Well-formed messages\<close>

text \<open>What the types guarantee: ids and keys of 32 bytes, signatures of 64, tags and subscription
  ids that their constructors accept, and a request that names a filter.\<close>

definition subscription_id_wf :: "subscription_id \<Rightarrow> bool" where
  "subscription_id_wf i \<longleftrightarrow> i \<noteq> [] \<and> length (utf8_chars i) \<le> MAX_LENGTH"

definition event_wf :: "crates \<Rightarrow> event \<Rightarrow> bool" where
  "event_wf X e \<longleftrightarrow>
     event_id_wf (ev_id e) \<and> public_key_wf X (ev_pubkey e) \<and> list_all tag_wf (ev_tags e) \<and>
     length (ev_sig e) = 64"

primrec client_message_wf :: "crates \<Rightarrow> client_message \<Rightarrow> bool" where
  "client_message_wf X (CEvent e) = event_wf X e"
| "client_message_wf X (CReq i fs) = (subscription_id_wf i \<and> fs \<noteq> [] \<and> list_all (filter_wf X) fs)"
| "client_message_wf X (CClose i) = subscription_id_wf i"
| "client_message_wf X (CAuth e) = event_wf X e"
| "client_message_wf X (CCount i f) = (subscription_id_wf i \<and> filter_wf X f)"
| "client_message_wf X (CNegOpen i f m) = (subscription_id_wf i \<and> filter_wf X f)"
| "client_message_wf X (CNegMsg i m) = subscription_id_wf i"
| "client_message_wf X (CNegClose i) = subscription_id_wf i"

primrec relay_message_wf :: "crates \<Rightarrow> relay_message \<Rightarrow> bool" where
  "relay_message_wf X (REvent i e) = (subscription_id_wf i \<and> event_wf X e)"
| "relay_message_wf X (ROk i accepted m) = event_id_wf i"
| "relay_message_wf X (REndOfStoredEvents i) = subscription_id_wf i"
| "relay_message_wf X (RClosed i m) = subscription_id_wf i"
| "relay_message_wf X (RNotice m) = True"
| "relay_message_wf X (RAuth c) = True"
| "relay_message_wf X (RCount i n) = subscription_id_wf i"
| "relay_message_wf X (RNegMsg i m) = subscription_id_wf i"
| "relay_message_wf X (RNegErr i m) = subscription_id_wf i"

text \<open>What the code relies on of the text form of a signature.\<close>

definition sig_laws :: "sig_text \<Rightarrow> bool" where
  "sig_laws Y \<longleftrightarrow>
     (\<forall>s. length s = 64 \<longrightarrow> sig_from_str Y (sig_to_string Y s) = Some s) \<and>
     (\<forall>t s. sig_from_str Y t = Some s \<longrightarrow> length s = 64)"

section \<open>Lemmas on ids and prefixes\<close>

interpretation prefix_wire: wire_format prefix_as_str prefix_from_str
proof
  show "prefix_from_str (prefix_as_str p) = Inr p" for p
    by (cases p) (simp_all add: prefix_from_str_def)
qed

lemma prefix_no_colon: "CHR '':'' \<notin> set (prefix_as_str p)"
  by (cases p) simp_all

lemma from_reason_prefix: "from_reason (prefix_as_str p @ '':'' @ rest) = Some p"
proof -
  have "splitn 2 CHR '':'' (prefix_as_str p @ '':'' @ rest) = [prefix_as_str p, rest]"
    using splitn_two [where n = 0 and t = rest, OF prefix_no_colon [of p]] by (simp add: numeral_2_eq_2 del: splitn.simps(3))
  then show ?thesis by (simp add: from_reason_def prefix_wire.round_trip)
qed

lemma prefix_from_str_Inr: "prefix_from_str s = Inr p \<longleftrightarrow> s = prefix_as_str p"
  by (cases p) (auto simp: prefix_from_str_def split: if_splits)

lemma subscription_id_new_iff: "subscription_id_new v = Inr i \<longleftrightarrow> v = i \<and> subscription_id_wf i"
  by (auto simp: subscription_id_new_def subscription_id_validate_def subscription_id_wf_def Let_def
      split: if_splits)

lemma utf8_chars_length: "length (utf8_chars s) \<le> length s"
proof (induction s rule: utf8_chars.induct)
  case (2 c cs)
  have "length (dropWhile is_continuation cs) \<le> length cs" by (rule length_dropWhile_le)
  with 2 show ?case by simp
qed simp

lemma de_subscription_id_str: "subscription_id_wf i \<Longrightarrow> de_subscription_id (JStr i) = Inr i"
  by (simp add: de_subscription_id_def de_str_def de_string_def subscription_id_new_iff)

lemma de_subscription_id_wf: "de_subscription_id j = Inr i \<Longrightarrow> subscription_id_wf i"
  by (auto simp: de_subscription_id_def res_bind_Inr_iff subscription_id_new_iff)

section \<open>Lemmas on decoded values\<close>

lemma de_list_all: "de_list d js = Inr xs \<Longrightarrow> (\<And>j x. d j = Inr x \<Longrightarrow> P x) \<Longrightarrow> \<forall>x \<in> set xs. P x"
  by (induction js arbitrary: xs) (auto simp: res_bind_Inr_iff)

lemma de_array_all: "de_array d j = Inr xs \<Longrightarrow> (\<And>j x. d j = Inr x \<Longrightarrow> P x) \<Longrightarrow> \<forall>x \<in> set xs. P x"
  by (cases j) (auto simp: de_array_def dest: de_list_all)

lemma event_id_parse_wf: "event_id_parse X s = Inr i \<Longrightarrow> event_id_wf i"
  by (auto simp: event_id_parse_def event_id_from_slice_def event_id_wf_def res_bind_Inr_iff
      split: if_splits)

lemma public_key_parse_wf: "public_key_parse X s = Inr p \<Longrightarrow> public_key_wf X p"
  by (auto simp: public_key_parse_def public_key_from_slice_def public_key_from_byte_array_def
      public_key_wf_def res_bind_Inr_iff split: if_splits)

lemma de_event_id_wf: "de_event_id X j = Inr i \<Longrightarrow> event_id_wf i"
  by (auto simp: de_event_id_def res_bind_Inr_iff dest: event_id_parse_wf)

lemma de_public_key_wf: "de_public_key X j = Inr p \<Longrightarrow> public_key_wf X p"
  by (auto simp: de_public_key_def res_bind_Inr_iff dest: public_key_parse_wf)

lemma de_usize_bound: "de_usize j = Inr n \<Longrightarrow> n < 2 ^ 64"
  by (auto simp: de_usize_def de_uint_def res_bind_Inr_iff nat_less_iff split: json.splits if_splits)

lemma hash_case_other:
  "(\<And>ls. key \<noteq> CHR ''#'' # ls) \<Longrightarrow> (case key of CHR ''#'' # ls \<Rightarrow> A ls | _ \<Rightarrow> B) = B"
  by (auto split: list.splits char.splits bool.splits)

lemma deserialize_filter_entry_wf:
  assumes "deserialize_filter_entry X f key v = Inr f'" and "filter_wf X f"
  shows "filter_wf X f'"
proof -
  have hex: "\<forall>w \<in> set vs. is_lowercase_hex_64 w"
    if "validate_hex_filter_values l vs = Inr ()" and "l = lowercase_tag L_E \<or> l = lowercase_tag L_P" for l vs
    using that by (auto simp: validate_hex_filter_values_def Let_def find_None_iff split: option.splits)
  have tags: "filter_wf X (f\<lparr>f_generic_tags := hm_insert l (dedup_preserving_order vs) (f_generic_tags f)\<rparr>)"
    if "validate_hex_filter_values l vs = Inr ()" for l vs
  proof -
    have "set (hm_insert l w m) \<subseteq> insert (l, w) (set m)" for w and m :: "(single_letter_tag \<times> string list) list"
      unfolding hm_insert_def by (induction m) auto
    then have sub: "lv \<in> set (hm_insert l w m) \<Longrightarrow> lv = (l, w) \<or> lv \<in> set m"
      for lv w and m :: "(single_letter_tag \<times> string list) list" by blast
    show ?thesis
      using assms(2) hex [OF that]
      by (auto simp: filter_wf_def dedup_preserving_order_def hm_insert_def distinct_update
          dest!: sub [unfolded hm_insert_def])
  qed
  note elems = de_array_all [where P = event_id_wf, OF _ de_event_id_wf]
    de_array_all [where P = "public_key_wf X", OF _ de_public_key_wf]
  consider (tag) ls where "key = CHR ''#'' # ls" | (other) "\<And>ls. key \<noteq> CHR ''#'' # ls" by blast
  then show ?thesis
  proof cases
    case tag
    with assms(1) tags show ?thesis by (auto simp: deserialize_filter_entry_def res_bind_Inr_iff)
  next
    case other
    with assms show ?thesis
      by (auto simp: deserialize_filter_entry_def hash_case_other res_bind_Inr_iff filter_wf_def
          split: if_splits dest: elems de_usize_bound [simplified])
  qed
qed

lemma filter_visit_map_wf:
  "filter_visit_map X f es = Inr f' \<Longrightarrow> filter_wf X f \<Longrightarrow> filter_wf X f'"
  by (induction es arbitrary: f) (auto simp: res_bind_Inr_iff dest: deserialize_filter_entry_wf)

lemma de_filter_wf: "de_filter X j = Inr f \<Longrightarrow> filter_wf X f"
proof -
  assume "de_filter X j = Inr f"
  then obtain es where "filter_visit_map X filter_new es = Inr f"
    by (cases j) (auto simp: de_filter_def filter_deserialize_def)
  then show ?thesis
    by (rule filter_visit_map_wf) (simp add: filter_wf_def filter_new_def)
qed

lemma de_filters_wf: "de_list (de_filter X) js = Inr fs \<Longrightarrow> list_all (filter_wf X) fs"
  using de_list_all [where P = "filter_wf X" and d = "de_filter X"] de_filter_wf
  by (metis list_all_iff)

lemma de_tag_wf: "de_tag j = Inr t \<Longrightarrow> tag_wf t"
  by (auto simp: de_tag_def tag_new_def tag_wf_def res_bind_Inr_iff split: if_splits)

lemma de_tags_wf: "de_tags j = Inr ts \<Longrightarrow> list_all tag_wf ts"
  by (cases j) (auto simp: de_tags_def list_all_iff dest: de_list_all [where P = tag_wf, OF _ de_tag_wf])

lemma de_sig_wf: "sig_laws Y \<Longrightarrow> de_sig Y j = Inr s \<Longrightarrow> length s = 64"
  by (auto simp: de_sig_def res_bind_Inr_iff sig_laws_def ok_or_def split: option.splits)

definition fields_wf :: "crates \<Rightarrow> event_fields \<Rightarrow> bool" where
  "fields_wf X f \<longleftrightarrow>
     opt_all event_id_wf (ef_id f) \<and> opt_all (public_key_wf X) (ef_pubkey f) \<and>
     opt_all (list_all tag_wf) (ef_tags f) \<and> opt_all (\<lambda>s. length s = 64) (ef_sig f)"

lemma set_field_Inr: "set_field key old r = Inr y \<longleftrightarrow> old = None \<and> (\<exists>x. r = Inr x \<and> y = Some x)"
  by (cases old) (auto simp: set_field_def res_bind_Inr_iff)

lemmas de_value_wf = de_event_id_wf de_public_key_wf de_tags_wf de_sig_wf de_filter_wf
  de_subscription_id_wf

lemma event_visit_map_wf:
  "event_visit_map X Y f es = Inr f' \<Longrightarrow> sig_laws Y \<Longrightarrow> fields_wf X f \<Longrightarrow> fields_wf X f'"
proof (induction es arbitrary: f)
  case (Cons e es)
  then obtain g where g: "event_visit_entry X Y f (fst e) (snd e) = Inr g" "event_visit_map X Y g es = Inr f'"
    by (auto simp: res_bind_Inr_iff)
  have "fields_wf X g"
    using g(1) Cons.prems(2,3)
    by (auto simp: event_visit_entry_def fields_wf_def set_field_Inr res_bind_Inr_iff
        split: if_splits dest: de_value_wf)
  with Cons.IH g(2) Cons.prems(2) show ?case by blast
qed simp

lemma next_element_Inr:
  "next_element m d seq = Inr p \<longleftrightarrow> (\<exists>j js. seq = j # js \<and> d j = Inr (fst p) \<and> snd p = js)"
  by (cases p) (auto simp: next_element_def res_bind_Inr_iff split: list.splits)

lemma end_seq_Inr: "end_seq r = Inr x \<longleftrightarrow> r = Inr (x, [])"
  by (cases r) (auto simp: end_seq_def split: if_splits prod.splits)

lemmas decode_iffs = res_bind_Inr_iff next_element_Inr end_seq_Inr

lemma event_deserialize_wf:
  assumes "sig_laws Y" and "event_deserialize X Y j = Inr e"
  shows "event_wf X e"
proof (cases j)
  case (JArr js)
  with assms show ?thesis
    by (auto simp: event_deserialize_def decode_iffs event_visit_seq_def event_wf_def dest: de_value_wf)
next
  case (JObj es)
  with assms obtain f where f: "event_visit_map X Y no_fields es = Inr f" "event_from_fields f = Inr e"
    by (auto simp: event_deserialize_def res_bind_Inr_iff)
  then have "fields_wf X f"
    using event_visit_map_wf assms(1) by (fastforce simp: fields_wf_def no_fields_def)
  with f(2) show ?thesis
    by (auto simp: event_from_fields_def event_wf_def fields_wf_def res_bind_Inr_iff ok_or_def
        split: option.splits)
qed (use assms in \<open>auto simp: event_deserialize_def\<close>)

lemmas client_decode_defs = client_decode_event_def client_decode_req_def client_decode_close_def
  client_decode_auth_def client_decode_count_def client_decode_neg_open_def client_decode_neg_msg_def
  client_decode_neg_close_def

lemmas relay_decode_defs = relay_decode_event_def relay_decode_ok_def relay_decode_eose_def
  relay_decode_notice_def relay_decode_auth_def relay_decode_count_def
  relay_decode_neg_msg_def relay_decode_neg_err_def

lemma client_deserialize_wf:
  assumes "sig_laws Y" and "client_deserialize X Y j = Inr m"
  shows "client_message_wf X m"
proof -
  from assms(2) obtain t js where "client_visit_seq X Y (JStr t # js) = Inr (m, [])"
    by (auto simp: client_deserialize_def client_visit_seq_def decode_iffs de_str_def de_string_def
        split: json.splits)
  then show ?thesis
    using assms(1)
    by (auto simp: client_visit_seq_def client_decode_defs decode_iffs Let_def
        split: if_splits dest: de_value_wf event_deserialize_wf de_filters_wf)
qed

lemma relay_decode_closed_Inr:
  "relay_decode_closed seq = Inr (m, rest) \<Longrightarrow> \<exists>i r. m = RClosed i r \<and> subscription_id_wf i"
  unfolding relay_decode_closed_def
  by (erule res_bind_Inr_iff [THEN iffD1, THEN exE])
    (auto simp: decode_iffs split: list.split_asm dest: de_value_wf)

lemma relay_deserialize_wf:
  assumes "sig_laws Y" and "relay_deserialize X Y j = Inr m"
  shows "relay_message_wf X m"
proof -
  from assms(2) obtain t js where "relay_visit_seq X Y (JStr t # js) = Inr (m, [])"
    by (auto simp: relay_deserialize_def relay_visit_seq_def decode_iffs de_str_def de_string_def
        split: json.splits)
  then show ?thesis
    using assms(1)
    by (auto simp: relay_visit_seq_def relay_decode_defs decode_iffs Let_def
        split: if_splits dest: de_value_wf event_deserialize_wf relay_decode_closed_Inr)
qed

section \<open>Round trips\<close>

lemma de_tags_map: "list_all tag_wf ts \<Longrightarrow> de_tags (JArr (map tag_to_json ts)) = Inr ts"
proof -
  assume "list_all tag_wf ts"
  moreover have "de_tag (tag_to_json t) = Inr t" if "tag_wf t" for t
    using that by (cases t) (simp add: de_tag_def tag_to_json_def de_array_map de_string_def tag_new_def tag_wf_def)
  ultimately show ?thesis by (simp add: de_tags_def de_list_map list_all_iff)
qed

lemma event_round_trip_aux:
  assumes "hex_laws X" and "sig_laws Y" and "event_wf X e"
  shows "event_deserialize X Y (event_serialize Y e) = Inr e"
  using assms
  by (simp add: event_deserialize_def event_serialize_def event_visit_entry_def set_field_def
      no_fields_def event_from_fields_def event_wf_def de_ids de_words de_tags_map de_sig_def de_str_def
      de_string_def sig_laws_def)

lemmas decode_str = de_str_def de_string_def de_bool_def

lemma client_round_trip_aux:
  assumes "hex_laws X" and "sig_laws Y" and "client_message_wf X m"
  shows "client_deserialize X Y (client_serialize X Y m) = Inr m"
proof -
  have fs: "de_filter X (filter_serialize X f) = Inr f" if "filter_wf X f" for f
    using filter_round_trip_aux [OF assms(1) that] by (simp add: de_filter_def)
  then have "de_list (de_filter X) (map (filter_serialize X) fs) = Inr fs" if "list_all (filter_wf X) fs" for fs
    using that by (simp add: de_list_map list_all_iff)
  with fs assms show ?thesis
    by (cases m) (simp_all add: client_deserialize_def client_visit_seq_def client_decode_defs
        next_element_def end_seq_def decode_str de_subscription_id_str event_round_trip_aux Let_def)
qed

lemma relay_round_trip_aux:
  assumes "hex_laws X" and "sig_laws Y" and "relay_message_wf X m"
  shows "relay_deserialize X Y (relay_serialize Y m) = Inr m"
  using assms
  by (cases m) (simp_all add: relay_deserialize_def relay_visit_seq_def relay_decode_defs relay_decode_closed_def
      next_element_def end_seq_def decode_str de_subscription_id_str event_round_trip_aux Let_def
      de_ids de_count_payload_def set_field_def de_words)

end
