(* ===== verification/Relay_Policy.thy ===== *)
theory Relay_Policy
  imports Auth_Pow Messages Result_Set
begin

text \<open>
  What configures the relay server (nula-relay, server/): its options (options.rs), the admission
  policies (policy.rs) and the moderation state of NIP-86 (management.rs, nula-core
  nips/nip86.rs), which is a write policy itself. A policy object is the function its method
  computes. The lock around the moderation state is not modelled: every request runs under it.
  The text form of an IP address (\<open>std::net\<close>) is the argument \<open>P\<close>. A hash set is a list
  without duplicates.
\<close>

type_synonym u32 = "32 word"
type_synonym ip_addr = bytes

datatype socket_addr = SocketAddr (sa_ip: ip_addr) (sa_port: u16)

record ip_text =
  ip_parse :: "string \<Rightarrow> ip_addr option"
  ip_to_string :: "ip_addr \<Rightarrow> string"

section \<open>Options\<close>

datatype nip42_mode = Disabled | Read | Write | Both

definition mode_is_enabled :: "nip42_mode \<Rightarrow> bool" where
  "mode_is_enabled m \<longleftrightarrow> (case m of Disabled \<Rightarrow> False | _ \<Rightarrow> True)"

definition requires_for_read :: "nip42_mode \<Rightarrow> bool" where
  "requires_for_read m \<longleftrightarrow> (case m of Read \<Rightarrow> True | Both \<Rightarrow> True | _ \<Rightarrow> False)"

definition requires_for_write :: "nip42_mode \<Rightarrow> bool" where
  "requires_for_write m \<longleftrightarrow> (case m of Write \<Rightarrow> True | Both \<Rightarrow> True | _ \<Rightarrow> False)"

record rate_limit =
  notes_per_minute :: "u32 option"
  reqs_per_minute :: "u32 option"

definition RATE_LIMIT_DISABLED :: rate_limit where
  "RATE_LIMIT_DISABLED = \<lparr>notes_per_minute = None, reqs_per_minute = None\<rparr>"

definition rate_limit_is_enabled :: "rate_limit \<Rightarrow> bool" where
  "rate_limit_is_enabled r \<longleftrightarrow> notes_per_minute r \<noteq> None \<or> reqs_per_minute r \<noteq> None"

record mock_relay_options =
  o_bind_addr :: socket_addr
  o_nip42_mode :: nip42_mode
  o_min_pow :: "u8 option"
  o_max_connections :: "nat option"
  o_max_subid_length :: "nat option"
  o_max_filter_limit :: "nat option"
  o_default_filter_limit :: "nat option"
  o_max_active_subscriptions :: "nat option"
  o_rate_limit :: rate_limit
  o_unresponsive :: bool
  o_send_random_events :: "u16 option"

definition options_default :: mock_relay_options where
  "options_default = \<lparr>
     o_bind_addr = SocketAddr [127, 0, 0, 1] 0,
     o_nip42_mode = Disabled,
     o_min_pow = None,
     o_max_connections = None,
     o_max_subid_length = None,
     o_max_filter_limit = None,
     o_default_filter_limit = None,
     o_max_active_subscriptions = None,
     o_rate_limit = RATE_LIMIT_DISABLED,
     o_unresponsive = False,
     o_send_random_events = None\<rparr>"

text \<open>A zero argument clears the bound.\<close>

definition opt_bind_addr :: "socket_addr \<Rightarrow> mock_relay_options \<Rightarrow> mock_relay_options" where
  "opt_bind_addr addr opts = opts\<lparr>o_bind_addr := addr\<rparr>"

definition opt_nip42_mode :: "nip42_mode \<Rightarrow> mock_relay_options \<Rightarrow> mock_relay_options" where
  "opt_nip42_mode mode opts = opts\<lparr>o_nip42_mode := mode\<rparr>"

definition opt_min_pow :: "u8 \<Rightarrow> mock_relay_options \<Rightarrow> mock_relay_options" where
  "opt_min_pow difficulty opts = opts\<lparr>o_min_pow := if 0 < difficulty then Some difficulty else None\<rparr>"

definition opt_max_connections :: "nat \<Rightarrow> mock_relay_options \<Rightarrow> mock_relay_options" where
  "opt_max_connections mx opts = opts\<lparr>o_max_connections := if 0 < mx then Some mx else None\<rparr>"

definition opt_max_subid_length :: "nat \<Rightarrow> mock_relay_options \<Rightarrow> mock_relay_options" where
  "opt_max_subid_length mx opts = opts\<lparr>o_max_subid_length := if 0 < mx then Some mx else None\<rparr>"

definition opt_max_filter_limit :: "nat \<Rightarrow> mock_relay_options \<Rightarrow> mock_relay_options" where
  "opt_max_filter_limit mx opts = opts\<lparr>o_max_filter_limit := if 0 < mx then Some mx else None\<rparr>"

definition opt_default_filter_limit :: "nat \<Rightarrow> mock_relay_options \<Rightarrow> mock_relay_options" where
  "opt_default_filter_limit d opts = opts\<lparr>o_default_filter_limit := if 0 < d then Some d else None\<rparr>"

definition opt_max_active_subscriptions :: "nat \<Rightarrow> mock_relay_options \<Rightarrow> mock_relay_options" where
  "opt_max_active_subscriptions mx opts =
     opts\<lparr>o_max_active_subscriptions := if 0 < mx then Some mx else None\<rparr>"

definition opt_rate_limit :: "rate_limit \<Rightarrow> mock_relay_options \<Rightarrow> mock_relay_options" where
  "opt_rate_limit limit opts = opts\<lparr>o_rate_limit := limit\<rparr>"

definition opt_unresponsive :: "bool \<Rightarrow> mock_relay_options \<Rightarrow> mock_relay_options" where
  "opt_unresponsive v opts = opts\<lparr>o_unresponsive := v\<rparr>"

definition opt_send_random_events :: "u16 \<Rightarrow> mock_relay_options \<Rightarrow> mock_relay_options" where
  "opt_send_random_events n opts = opts\<lparr>o_send_random_events := if 0 < n then Some n else None\<rparr>"

section \<open>Policies\<close>

datatype admit_verdict = Accept | Reject machine_readable_prefix string

type_synonym write_policy = "event \<Rightarrow> socket_addr \<Rightarrow> admit_verdict"
type_synonym query_policy = "nostr_filter \<Rightarrow> socket_addr \<Rightarrow> nostr_filter \<times> admit_verdict"

definition is_accept :: "admit_verdict \<Rightarrow> bool" where
  "is_accept v \<longleftrightarrow> (case v of Accept \<Rightarrow> True | _ \<Rightarrow> False)"

definition accept_all_writes :: write_policy where
  "accept_all_writes e addr = Accept"

definition accept_all_queries :: query_policy where
  "accept_all_queries f addr = (f, Accept)"

text \<open>\<open>AuthorAllowlist\<close> is the set of its authors.\<close>

definition allowlist_new :: "public_key list \<Rightarrow> public_key set" where
  "allowlist_new authors = set authors"

definition author_allowlist :: "public_key set \<Rightarrow> write_policy" where
  "author_allowlist allowed e addr =
     (if ev_pubkey e \<in> allowed then Accept
      else Reject PfxBlocked (''author is not on this relay'' @ [CHR 0x27] @ ''s allowlist''))"

section \<open>NIP-86 requests and responses\<close>

datatype mgmt_method =
    SupportedMethods | BanPubkey | UnbanPubkey | ListBannedPubkeys | AllowPubkey | UnallowPubkey
  | ListAllowedPubkeys | ListEventsNeedingModeration | AllowEvent | BanEvent | ListBannedEvents
  | ChangeRelayName | ChangeRelayDescription | ChangeRelayIcon | AllowKind | DisallowKind
  | ListAllowedKinds | BlockIp | UnblockIp | ListBlockedIps | CustomMethod string

primrec method_as_str :: "mgmt_method \<Rightarrow> string" where
  "method_as_str SupportedMethods = ''supportedmethods''"
| "method_as_str BanPubkey = ''banpubkey''"
| "method_as_str UnbanPubkey = ''unbanpubkey''"
| "method_as_str ListBannedPubkeys = ''listbannedpubkeys''"
| "method_as_str AllowPubkey = ''allowpubkey''"
| "method_as_str UnallowPubkey = ''unallowpubkey''"
| "method_as_str ListAllowedPubkeys = ''listallowedpubkeys''"
| "method_as_str ListEventsNeedingModeration = ''listeventsneedingmoderation''"
| "method_as_str AllowEvent = ''allowevent''"
| "method_as_str BanEvent = ''banevent''"
| "method_as_str ListBannedEvents = ''listbannedevents''"
| "method_as_str ChangeRelayName = ''changerelayname''"
| "method_as_str ChangeRelayDescription = ''changerelaydescription''"
| "method_as_str ChangeRelayIcon = ''changerelayicon''"
| "method_as_str AllowKind = ''allowkind''"
| "method_as_str DisallowKind = ''disallowkind''"
| "method_as_str ListAllowedKinds = ''listallowedkinds''"
| "method_as_str BlockIp = ''blockip''"
| "method_as_str UnblockIp = ''unblockip''"
| "method_as_str ListBlockedIps = ''listblockedips''"
| "method_as_str (CustomMethod s) = s"

definition method_parse :: "string \<Rightarrow> mgmt_method" where
  "method_parse token =
     (if token = ''supportedmethods'' then SupportedMethods
      else if token = ''banpubkey'' then BanPubkey
      else if token = ''unbanpubkey'' then UnbanPubkey
      else if token = ''listbannedpubkeys'' then ListBannedPubkeys
      else if token = ''allowpubkey'' then AllowPubkey
      else if token = ''unallowpubkey'' then UnallowPubkey
      else if token = ''listallowedpubkeys'' then ListAllowedPubkeys
      else if token = ''listeventsneedingmoderation'' then ListEventsNeedingModeration
      else if token = ''allowevent'' then AllowEvent
      else if token = ''banevent'' then BanEvent
      else if token = ''listbannedevents'' then ListBannedEvents
      else if token = ''changerelayname'' then ChangeRelayName
      else if token = ''changerelaydescription'' then ChangeRelayDescription
      else if token = ''changerelayicon'' then ChangeRelayIcon
      else if token = ''allowkind'' then AllowKind
      else if token = ''disallowkind'' then DisallowKind
      else if token = ''listallowedkinds'' then ListAllowedKinds
      else if token = ''blockip'' then BlockIp
      else if token = ''unblockip'' then UnblockIp
      else if token = ''listblockedips'' then ListBlockedIps
      else CustomMethod token)"

record mgmt_request =
  mr_method :: string
  mr_params :: "json list"

record mgmt_response =
  resp_result :: "json option"
  resp_error :: "string option"

definition response_is_error :: "mgmt_response \<Rightarrow> bool" where
  "response_is_error r \<longleftrightarrow> resp_error r \<noteq> None"

definition response_ok :: "json \<Rightarrow> mgmt_response" where
  "response_ok v = \<lparr>resp_result = Some v, resp_error = None\<rparr>"

definition response_err :: "string \<Rightarrow> mgmt_response" where
  "response_err m = \<lparr>resp_result = None, resp_error = Some m\<rparr>"

definition reason_param :: "string option \<Rightarrow> json list" where
  "reason_param reason = (case reason of None \<Rightarrow> [] | Some r \<Rightarrow> [JStr r])"

definition pubkey_request :: "crates \<Rightarrow> mgmt_method \<Rightarrow> public_key \<Rightarrow> string option \<Rightarrow> mgmt_request" where
  "pubkey_request X m pk reason =
     \<lparr>mr_method = method_as_str m, mr_params = JStr (public_key_to_hex X pk) # reason_param reason\<rparr>"

definition event_request :: "mgmt_method \<Rightarrow> string \<Rightarrow> string option \<Rightarrow> mgmt_request" where
  "event_request m hex reason =
     \<lparr>mr_method = method_as_str m, mr_params = JStr hex # reason_param reason\<rparr>"

definition kind_request :: "mgmt_method \<Rightarrow> kind \<Rightarrow> mgmt_request" where
  "kind_request m k = \<lparr>mr_method = method_as_str m, mr_params = [JNum (uint k)]\<rparr>"

definition ip_request :: "mgmt_method \<Rightarrow> string \<Rightarrow> string option \<Rightarrow> mgmt_request" where
  "ip_request m ip reason = \<lparr>mr_method = method_as_str m, mr_params = JStr ip # reason_param reason\<rparr>"

definition string_request :: "mgmt_method \<Rightarrow> string \<Rightarrow> mgmt_request" where
  "string_request m v = \<lparr>mr_method = method_as_str m, mr_params = [JStr v]\<rparr>"

definition empty_request :: "mgmt_method \<Rightarrow> mgmt_request" where
  "empty_request m = \<lparr>mr_method = method_as_str m, mr_params = []\<rparr>"

section \<open>The moderation state\<close>

definition SUPPORTED_METHODS :: "string list" where
  "SUPPORTED_METHODS =
     [''supportedmethods'', ''banpubkey'', ''unbanpubkey'', ''listbannedpubkeys'', ''allowpubkey'',
      ''unallowpubkey'', ''listallowedpubkeys'', ''allowkind'', ''disallowkind'', ''listallowedkinds'',
      ''blockip'', ''unblockip'', ''listblockedips'', ''changerelayname'', ''changerelaydescription'',
      ''changerelayicon'']"

record management_state =
  admins :: "public_key set"
  banned_pubkeys :: "(public_key, string option) hash_map"
  allowed_pubkeys :: "(public_key, string option) hash_map"
  allowed_kinds :: "kind list option"
  blocked_ips :: "(ip_addr, string option) hash_map"
  mg_name :: "string option"
  mg_description :: "string option"
  mg_icon :: "string option"

definition management_new :: "public_key list \<Rightarrow> management_state" where
  "management_new pks = \<lparr>admins = set pks, banned_pubkeys = [], allowed_pubkeys = [],
     allowed_kinds = None, blocked_ips = [], mg_name = None, mg_description = None, mg_icon = None\<rparr>"

definition is_admin :: "management_state \<Rightarrow> public_key \<Rightarrow> bool" where
  "is_admin m pk \<longleftrightarrow> pk \<in> admins m"

definition is_pubkey_banned :: "management_state \<Rightarrow> public_key \<Rightarrow> bool" where
  "is_pubkey_banned m pk \<longleftrightarrow> map_of (banned_pubkeys m) pk \<noteq> None"

definition is_ip_blocked :: "management_state \<Rightarrow> ip_addr \<Rightarrow> bool" where
  "is_ip_blocked m ip \<longleftrightarrow> map_of (blocked_ips m) ip \<noteq> None"

definition management_evaluate :: "management_state \<Rightarrow> write_policy" where
  "management_evaluate m e addr =
     (if map_of (blocked_ips m) (sa_ip addr) \<noteq> None then Reject PfxBlocked ''client ip is blocked''
      else if map_of (banned_pubkeys m) (ev_pubkey e) \<noteq> None then Reject PfxBlocked ''author is banned''
      else if allowed_pubkeys m \<noteq> [] \<and> map_of (allowed_pubkeys m) (ev_pubkey e) = None
      then Reject PfxBlocked (''author is not on this relay'' @ [CHR 0x27] @ ''s allowlist'')
      else if (case allowed_kinds m of Some kinds \<Rightarrow> ev_kind e \<notin> set kinds | None \<Rightarrow> False)
      then Reject PfxBlocked ''event kind is not allowed on this relay''
      else Accept)"

datatype listing = Banned | Allowed

definition param_str :: "json list \<Rightarrow> nat \<Rightarrow> string option" where
  "param_str params i =
     (if i < length params then (case params ! i of JStr s \<Rightarrow> Some s | _ \<Rightarrow> None) else None)"

definition param_pubkey :: "crates \<Rightarrow> json list \<Rightarrow> public_key option" where
  "param_pubkey X params = Option.bind (param_str params 0) (\<lambda>s. res_ok (public_key_parse X s))"

text \<open>\<open>Value::as_u64\<close>, then \<open>u16::try_from\<close>.\<close>

definition param_kind :: "json list \<Rightarrow> kind option" where
  "param_kind params =
     (case params of
        JNum n # _ \<Rightarrow> if 0 \<le> n \<and> n < 65536 then Some (word_of_int n) else None
      | _ \<Rightarrow> None)"

definition param_ip :: "ip_text \<Rightarrow> json list \<Rightarrow> ip_addr option" where
  "param_ip P params = Option.bind (param_str params 0) (ip_parse P)"

definition set_pubkey ::
  "crates \<Rightarrow> json list \<Rightarrow> listing \<Rightarrow> management_state \<Rightarrow> management_state \<times> mgmt_response" where
  "set_pubkey X params l m =
     (case param_pubkey X params of
        None \<Rightarrow> (m, response_err ''expected a hex pubkey as the first parameter'')
      | Some pk \<Rightarrow>
          let reason = param_str params 1
          in ((case l of
                 Banned \<Rightarrow> m\<lparr>allowed_pubkeys := hm_remove pk (allowed_pubkeys m),
                             banned_pubkeys := hm_insert pk reason (banned_pubkeys m)\<rparr>
               | Allowed \<Rightarrow> m\<lparr>banned_pubkeys := hm_remove pk (banned_pubkeys m),
                              allowed_pubkeys := hm_insert pk reason (allowed_pubkeys m)\<rparr>),
              response_ok (JBool True)))"

definition remove_pubkey ::
  "crates \<Rightarrow> json list \<Rightarrow> listing \<Rightarrow> management_state \<Rightarrow> management_state \<times> mgmt_response" where
  "remove_pubkey X params l m =
     (case param_pubkey X params of
        None \<Rightarrow> (m, response_err ''expected a hex pubkey as the first parameter'')
      | Some pk \<Rightarrow>
          ((case l of
              Banned \<Rightarrow> m\<lparr>banned_pubkeys := hm_remove pk (banned_pubkeys m)\<rparr>
            | Allowed \<Rightarrow> m\<lparr>allowed_pubkeys := hm_remove pk (allowed_pubkeys m)\<rparr>),
           response_ok (JBool True)))"

definition entry_row :: "string \<Rightarrow> string \<Rightarrow> string option \<Rightarrow> json" where
  "entry_row key v reason = JObj ((key, JStr v) # opt_entry ''reason'' JStr reason)"

definition list_pubkeys :: "crates \<Rightarrow> listing \<Rightarrow> management_state \<Rightarrow> mgmt_response" where
  "list_pubkeys X l m =
     response_ok (JArr (map (\<lambda>e. entry_row ''pubkey'' (public_key_to_hex X (fst e)) (snd e))
       (case l of Banned \<Rightarrow> banned_pubkeys m | Allowed \<Rightarrow> allowed_pubkeys m)))"

definition set_kind :: "json list \<Rightarrow> bool \<Rightarrow> management_state \<Rightarrow> management_state \<times> mgmt_response" where
  "set_kind params allow m =
     (case param_kind params of
        None \<Rightarrow> (m, response_err ''expected a kind integer as the first parameter'')
      | Some k \<Rightarrow>
          (if allow then m\<lparr>allowed_kinds := Some (push_new (get_or_empty (allowed_kinds m)) k)\<rparr>
           else (case allowed_kinds m of
                   Some kinds \<Rightarrow> m\<lparr>allowed_kinds := Some (removeAll k kinds)\<rparr>
                 | None \<Rightarrow> m),
           response_ok (JBool True)))"

definition list_kinds :: "management_state \<Rightarrow> mgmt_response" where
  "list_kinds m = response_ok (JArr (map (\<lambda>k. JNum (uint k)) (get_or_empty (allowed_kinds m))))"

definition block_ip ::
  "ip_text \<Rightarrow> json list \<Rightarrow> management_state \<Rightarrow> management_state \<times> mgmt_response" where
  "block_ip P params m =
     (case param_ip P params of
        None \<Rightarrow> (m, response_err ''expected an ip address as the first parameter'')
      | Some ip \<Rightarrow>
          (m\<lparr>blocked_ips := hm_insert ip (param_str params 1) (blocked_ips m)\<rparr>, response_ok (JBool True)))"

definition unblock_ip ::
  "ip_text \<Rightarrow> json list \<Rightarrow> management_state \<Rightarrow> management_state \<times> mgmt_response" where
  "unblock_ip P params m =
     (case param_ip P params of
        None \<Rightarrow> (m, response_err ''expected an ip address as the first parameter'')
      | Some ip \<Rightarrow> (m\<lparr>blocked_ips := hm_remove ip (blocked_ips m)\<rparr>, response_ok (JBool True)))"

definition list_blocked_ips :: "ip_text \<Rightarrow> management_state \<Rightarrow> mgmt_response" where
  "list_blocked_ips P m =
     response_ok (JArr (map (\<lambda>e. entry_row ''ip'' (ip_to_string P (fst e)) (snd e)) (blocked_ips m)))"

definition change_name :: "json list \<Rightarrow> management_state \<Rightarrow> management_state \<times> mgmt_response" where
  "change_name params m =
     (case param_str params 0 of
        None \<Rightarrow> (m, response_err ''expected a name string as the first parameter'')
      | Some s \<Rightarrow> (m\<lparr>mg_name := Some s\<rparr>, response_ok (JBool True)))"

definition change_description :: "json list \<Rightarrow> management_state \<Rightarrow> management_state \<times> mgmt_response" where
  "change_description params m =
     (case param_str params 0 of
        None \<Rightarrow> (m, response_err ''expected a description string as the first parameter'')
      | Some s \<Rightarrow> (m\<lparr>mg_description := Some s\<rparr>, response_ok (JBool True)))"

datatype url_error = UrlParse url_parse_error | UrlRelative string

definition nula_url_parse :: "url_crate \<Rightarrow> string \<Rightarrow> url_error + string" where
  "nula_url_parse U input =
     res_bind (map_err UrlParse (url_parse U input)) (\<lambda>inner.
     if url_cannot_be_a_base U inner then Inl (UrlRelative input) else Inr inner)"

definition change_icon ::
  "url_crate \<Rightarrow> json list \<Rightarrow> management_state \<Rightarrow> management_state \<times> mgmt_response" where
  "change_icon U params m =
     (case param_str params 0 of
        None \<Rightarrow> (m, response_err ''expected an icon url as the first parameter'')
      | Some raw \<Rightarrow>
          (case nula_url_parse U raw of
             Inl _ \<Rightarrow> (m, response_err ''icon must be a valid url'')
           | Inr url \<Rightarrow> (m\<lparr>mg_icon := Some url\<rparr>, response_ok (JBool True))))"

definition handle_request ::
  "crates \<Rightarrow> url_crate \<Rightarrow> ip_text \<Rightarrow> mgmt_request \<Rightarrow> management_state \<Rightarrow> management_state \<times> mgmt_response" where
  "handle_request X U P r m =
     (let params = mr_params r in
      case method_parse (mr_method r) of
        SupportedMethods \<Rightarrow> (m, response_ok (JArr (map JStr SUPPORTED_METHODS)))
      | BanPubkey \<Rightarrow> set_pubkey X params Banned m
      | UnbanPubkey \<Rightarrow> remove_pubkey X params Banned m
      | ListBannedPubkeys \<Rightarrow> (m, list_pubkeys X Banned m)
      | AllowPubkey \<Rightarrow> set_pubkey X params Allowed m
      | UnallowPubkey \<Rightarrow> remove_pubkey X params Allowed m
      | ListAllowedPubkeys \<Rightarrow> (m, list_pubkeys X Allowed m)
      | AllowKind \<Rightarrow> set_kind params True m
      | DisallowKind \<Rightarrow> set_kind params False m
      | ListAllowedKinds \<Rightarrow> (m, list_kinds m)
      | BlockIp \<Rightarrow> block_ip P params m
      | UnblockIp \<Rightarrow> unblock_ip P params m
      | ListBlockedIps \<Rightarrow> (m, list_blocked_ips P m)
      | ChangeRelayName \<Rightarrow> change_name params m
      | ChangeRelayDescription \<Rightarrow> change_description params m
      | ChangeRelayIcon \<Rightarrow> change_icon U params m
      | other \<Rightarrow> (m, response_err (''unsupported method: '' @ method_as_str other)))"

section \<open>What moderation promises\<close>

text \<open>
  The abstract moderation state: who is banned, who is allowed, which kinds are allowed when that
  is restricted, and which addresses are blocked. A request changes it as NIP-86 says; banning
  and allowing exclude each other.
\<close>

record mgmt_spec =
  sp_banned :: "public_key set"
  sp_allowed :: "public_key set"
  sp_kinds :: "kind set option"
  sp_ips :: "ip_addr set"

definition mgmt_abs :: "management_state \<Rightarrow> mgmt_spec" where
  "mgmt_abs m = \<lparr>sp_banned = dom (map_of (banned_pubkeys m)), sp_allowed = dom (map_of (allowed_pubkeys m)),
     sp_kinds = map_option set (allowed_kinds m), sp_ips = dom (map_of (blocked_ips m))\<rparr>"

definition spec_request :: "crates \<Rightarrow> ip_text \<Rightarrow> mgmt_request \<Rightarrow> mgmt_spec \<Rightarrow> mgmt_spec" where
  "spec_request X P r A =
     (let pk = param_pubkey X (mr_params r); k = param_kind (mr_params r); ip = param_ip P (mr_params r) in
      case method_parse (mr_method r) of
        BanPubkey \<Rightarrow> A\<lparr>sp_banned := sp_banned A \<union> set_option pk, sp_allowed := sp_allowed A - set_option pk\<rparr>
      | AllowPubkey \<Rightarrow> A\<lparr>sp_allowed := sp_allowed A \<union> set_option pk, sp_banned := sp_banned A - set_option pk\<rparr>
      | UnbanPubkey \<Rightarrow> A\<lparr>sp_banned := sp_banned A - set_option pk\<rparr>
      | UnallowPubkey \<Rightarrow> A\<lparr>sp_allowed := sp_allowed A - set_option pk\<rparr>
      | AllowKind \<Rightarrow>
          (case k of None \<Rightarrow> A
           | Some n \<Rightarrow> A\<lparr>sp_kinds := Some (insert n (case sp_kinds A of None \<Rightarrow> {} | Some S \<Rightarrow> S))\<rparr>)
      | DisallowKind \<Rightarrow> A\<lparr>sp_kinds := map_option (\<lambda>S. S - set_option k) (sp_kinds A)\<rparr>
      | BlockIp \<Rightarrow> A\<lparr>sp_ips := sp_ips A \<union> set_option ip\<rparr>
      | UnblockIp \<Rightarrow> A\<lparr>sp_ips := sp_ips A - set_option ip\<rparr>
      | _ \<Rightarrow> A)"

definition spec_admits :: "mgmt_spec \<Rightarrow> event \<Rightarrow> socket_addr \<Rightarrow> bool" where
  "spec_admits A e addr \<longleftrightarrow>
     sa_ip addr \<notin> sp_ips A \<and> ev_pubkey e \<notin> sp_banned A \<and>
     (sp_allowed A = {} \<or> ev_pubkey e \<in> sp_allowed A) \<and>
     opt_all (\<lambda>S. ev_kind e \<in> S) (sp_kinds A)"

definition mgmt_inv :: "management_state \<Rightarrow> bool" where
  [inv_simps]: "mgmt_inv m \<longleftrightarrow>
     hm_invar (banned_pubkeys m) \<and> hm_invar (allowed_pubkeys m) \<and> hm_invar (blocked_ips m) \<and>
     dom (map_of (banned_pubkeys m)) \<inter> dom (map_of (allowed_pubkeys m)) = {} \<and>
     opt_all distinct (allowed_kinds m)"

definition run_requests ::
  "crates \<Rightarrow> url_crate \<Rightarrow> ip_text \<Rightarrow> mgmt_request list \<Rightarrow> management_state \<Rightarrow> management_state" where
  "run_requests X U P rs m = foldl (\<lambda>m r. fst (handle_request X U P r m)) m rs"

section \<open>Lemmas on moderation\<close>

lemma method_parse_as_str:
  "method_parse (method_as_str m) = m \<longleftrightarrow> (\<forall>s. m = CustomMethod s \<longrightarrow> method_parse s = CustomMethod s)"
  by (cases m) (simp_all add: method_parse_def)

lemma method_as_str_parse [simp]: "method_as_str (method_parse t) = t"
  by (simp add: method_parse_def)

lemma mgmt_inv_new: "mgmt_inv (management_new pks)"
  by (simp add: mgmt_inv_def management_new_def hm_invar_def)

lemmas mgmt_ops = set_pubkey_def remove_pubkey_def set_kind_def block_ip_def unblock_ip_def
  change_name_def change_description_def change_icon_def

lemmas mgmt_maps = hm.invar_ins hm.invar_del hm.lookup_ins hm.lookup_del

lemma set_pubkey_refines:
  assumes "mgmt_inv m"
  shows "mgmt_inv (fst (set_pubkey X ps l m))"
    and "sp_banned (mgmt_abs (fst (set_pubkey X ps l m))) =
      (case l of Banned \<Rightarrow> sp_banned (mgmt_abs m) \<union> set_option (param_pubkey X ps)
       | Allowed \<Rightarrow> sp_banned (mgmt_abs m) - set_option (param_pubkey X ps))"
    and "sp_allowed (mgmt_abs (fst (set_pubkey X ps l m))) =
      (case l of Banned \<Rightarrow> sp_allowed (mgmt_abs m) - set_option (param_pubkey X ps)
       | Allowed \<Rightarrow> sp_allowed (mgmt_abs m) \<union> set_option (param_pubkey X ps))"
  using assms
  by (auto simp: set_pubkey_def mgmt_inv_def mgmt_abs_def mgmt_maps Let_def
      split: option.splits listing.splits if_splits)

lemma handle_request_inv:
  assumes "mgmt_inv m"
  shows "mgmt_inv (fst (handle_request X U P r m))"
proof -
  have "mgmt_inv (fst (remove_pubkey X ps l m))" "mgmt_inv (fst (set_kind ps b m))"
    "mgmt_inv (fst (block_ip P ps m))" "mgmt_inv (fst (unblock_ip P ps m))"
    "mgmt_inv (fst (change_name ps m))" "mgmt_inv (fst (change_description ps m))"
    "mgmt_inv (fst (change_icon U ps m))" for ps l b
    using assms
    by (auto simp: mgmt_ops mgmt_inv_def mgmt_maps get_or_empty_def distinct_removeAll
        split: option.splits listing.splits if_splits sum.splits)
  with set_pubkey_refines(1) [OF assms] assms show ?thesis
    by (simp add: handle_request_def Let_def split: mgmt_method.split)
qed

lemma handle_request_abs:
  assumes "mgmt_inv m"
  shows "mgmt_abs (fst (handle_request X U P r m)) = spec_request X P r (mgmt_abs m)"
proof -
  have "mgmt_abs (fst (set_pubkey X ps l m)) =
      (case l of
         Banned \<Rightarrow> (mgmt_abs m)\<lparr>sp_banned := sp_banned (mgmt_abs m) \<union> set_option (param_pubkey X ps),
           sp_allowed := sp_allowed (mgmt_abs m) - set_option (param_pubkey X ps)\<rparr>
       | Allowed \<Rightarrow> (mgmt_abs m)\<lparr>sp_allowed := sp_allowed (mgmt_abs m) \<union> set_option (param_pubkey X ps),
           sp_banned := sp_banned (mgmt_abs m) - set_option (param_pubkey X ps)\<rparr>)"
    "mgmt_abs (fst (remove_pubkey X ps l m)) =
      (case l of
         Banned \<Rightarrow> (mgmt_abs m)\<lparr>sp_banned := sp_banned (mgmt_abs m) - set_option (param_pubkey X ps)\<rparr>
       | Allowed \<Rightarrow> (mgmt_abs m)\<lparr>sp_allowed := sp_allowed (mgmt_abs m) - set_option (param_pubkey X ps)\<rparr>)"
    for ps l
    using assms by (auto simp: mgmt_ops mgmt_abs_def mgmt_inv_def mgmt_maps Let_def
        split: option.splits listing.splits if_splits)
  moreover have "mgmt_abs (fst (block_ip P ps m)) = (mgmt_abs m)\<lparr>sp_ips := sp_ips (mgmt_abs m) \<union> set_option (param_ip P ps)\<rparr>"
    "mgmt_abs (fst (unblock_ip P ps m)) = (mgmt_abs m)\<lparr>sp_ips := sp_ips (mgmt_abs m) - set_option (param_ip P ps)\<rparr>"
    "mgmt_abs (fst (change_name ps m)) = mgmt_abs m" "mgmt_abs (fst (change_description ps m)) = mgmt_abs m"
    "mgmt_abs (fst (change_icon U ps m)) = mgmt_abs m" for ps
    using assms by (auto simp: mgmt_ops mgmt_abs_def mgmt_inv_def mgmt_maps
        split: option.splits sum.splits)
  moreover have "mgmt_abs (fst (set_kind ps True m)) =
      (case param_kind ps of None \<Rightarrow> mgmt_abs m
       | Some n \<Rightarrow> (mgmt_abs m)\<lparr>sp_kinds := Some (insert n (case sp_kinds (mgmt_abs m) of None \<Rightarrow> {} | Some S \<Rightarrow> S))\<rparr>)"
    "mgmt_abs (fst (set_kind ps False m)) =
      (mgmt_abs m)\<lparr>sp_kinds := map_option (\<lambda>S. S - set_option (param_kind ps)) (sp_kinds (mgmt_abs m))\<rparr>" for ps
    by (auto simp: set_kind_def mgmt_abs_def get_or_empty_def option.map_id0 [unfolded id_def]
        split: option.splits)
  ultimately show ?thesis
    by (simp add: handle_request_def spec_request_def Let_def split: mgmt_method.split)
qed

lemma run_requests_refines:
  assumes "mgmt_inv m"
  shows "mgmt_inv (run_requests X U P rs m)"
    and "mgmt_abs (run_requests X U P rs m) = foldl (\<lambda>A r. spec_request X P r A) (mgmt_abs m) rs"
  using assms
  by (induction rs arbitrary: m) (auto simp: run_requests_def handle_request_inv handle_request_abs)

lemma evaluate_admits:
  "management_evaluate m e addr = Accept \<longleftrightarrow> spec_admits (mgmt_abs m) e addr"
proof -
  have "dom (map_of (allowed_pubkeys m)) = {} \<longleftrightarrow> allowed_pubkeys m = []"
    by (simp add: dom_map_of_conv_image_fst)
  then show ?thesis
    by (auto simp: management_evaluate_def spec_admits_def mgmt_abs_def domIff simp del: dom_eq_empty_conv
        split: option.splits)
qed

lemma evaluate_reject_blocked:
  "management_evaluate m e addr = Reject p msg \<Longrightarrow> p = PfxBlocked"
  by (auto simp: management_evaluate_def split: if_splits)

lemma handle_request_admins: "admins (fst (handle_request X U P r m)) = admins m"
  by (auto simp: handle_request_def mgmt_ops Let_def
      split: mgmt_method.split option.splits listing.splits sum.splits)

lemma run_requests_admins: "admins (run_requests X U P rs m) = admins m"
  by (induction rs arbitrary: m) (simp_all add: run_requests_def handle_request_admins)

end
