(* ===== verification/Relay_Http.thy ===== *)
theory Relay_Http
  imports Relay_Policy
begin

text \<open>
  The HTTP side of the relay server (nula-relay, server/relay.rs): reading a management request
  from the socket, the NIP-98 authorization (nula-core, nips/nip98.rs) and the NIP-86 call it
  guards. A socket is the list of the chunks its reads return (\<open>None\<close> for an error, the end of the
  list for the end of the stream). Base64 and the JSON text parser are the argument \<open>H\<close>; the digest
  is the one of the crates record.
\<close>

section \<open>Strings\<close>

definition to_ascii_lower :: "char \<Rightarrow> char" where
  "to_ascii_lower c = (if 65 \<le> (of_char c :: nat) \<and> (of_char c :: nat) \<le> 90 then char_of ((of_char c :: nat) + 32) else c)"

definition to_ascii_upper :: "char \<Rightarrow> char" where
  "to_ascii_upper c = (if 97 \<le> (of_char c :: nat) \<and> (of_char c :: nat) \<le> 122 then char_of ((of_char c :: nat) - 32) else c)"

text \<open>\<open>char::is_whitespace\<close> on the UTF-8 bytes of a character.\<close>

definition is_white :: "uchar \<Rightarrow> bool" where
  "is_white c =
     (case map (of_char :: char \<Rightarrow> nat) c of
        [a] \<Rightarrow> (9 \<le> a \<and> a \<le> 13) \<or> a = 32
      | [a, b] \<Rightarrow> a = 194 \<and> (b = 133 \<or> b = 160)
      | [a, b, d] \<Rightarrow>
          (a = 225 \<and> b = 154 \<and> d = 128) \<or>
          (a = 226 \<and> b = 128 \<and> ((128 \<le> d \<and> d \<le> 138) \<or> d = 168 \<or> d = 169 \<or> d = 175)) \<or>
          (a = 226 \<and> b = 129 \<and> d = 159) \<or>
          (a = 227 \<and> b = 128 \<and> d = 128)
      | _ \<Rightarrow> False)"

definition str_trim :: "string \<Rightarrow> string" where
  "str_trim s = concat (rev (dropWhile is_white (rev (dropWhile is_white (utf8_chars s)))))"

definition split_once :: "char \<Rightarrow> string \<Rightarrow> (string \<times> string) option" where
  "split_once c s = (case splitn 2 c s of [a, b] \<Rightarrow> Some (a, b) | _ \<Rightarrow> None)"

definition strip_prefix :: "string \<Rightarrow> string \<Rightarrow> string option" where
  "strip_prefix p s = (if take (length p) s = p then Some (drop (length p) s) else None)"

fun find_sub :: "string \<Rightarrow> string \<Rightarrow> nat option" where
  "find_sub p [] = (if p = [] then Some 0 else None)"
| "find_sub p (c # s) =
     (if take (length p) (c # s) = p then Some 0 else map_option Suc (find_sub p s))"

function split_on :: "string \<Rightarrow> string \<Rightarrow> string list" where
  "split_on p s =
     (if p = [] then [s]
      else case find_sub p s of
        None \<Rightarrow> [s]
      | Some n \<Rightarrow> take n s # split_on p (drop (n + length p) s))"
  by pat_completeness auto
termination
proof (relation "measure (length \<circ> snd)", goal_cases)
  case (2 p s n)
  have "n + length p \<le> length s" if "find_sub p s = Some n" "p \<noteq> []" for p s n
    using that
    by (induction p s arbitrary: n rule: find_sub.induct)
      (auto split: if_splits simp: min_def dest: arg_cong [where f = length])
  from this [OF 2(2) 2(1)] have "n + length p \<le> length s" .
  moreover have "0 < length p" using 2(1) by simp
  ultimately have "length s - (n + length p) < length s" by arith
  then show ?case by simp
qed simp

text \<open>\<open>str::from_utf8\<close>: the well-formed byte sequences.\<close>

fun utf8_valid :: "nat list \<Rightarrow> bool" where
  "utf8_valid [] = True"
| "utf8_valid (a # bs) =
     (if a < 128 then utf8_valid bs
      else if 194 \<le> a \<and> a \<le> 223 then
        (case bs of b # rest \<Rightarrow> 128 \<le> b \<and> b < 192 \<and> utf8_valid rest | _ \<Rightarrow> False)
      else if 224 \<le> a \<and> a \<le> 239 then
        (case bs of b # d # rest \<Rightarrow>
           (if a = 224 then 160 else 128) \<le> b \<and> b < (if a = 237 then 160 else 192) \<and>
           128 \<le> d \<and> d < 192 \<and> utf8_valid rest | _ \<Rightarrow> False)
      else if 240 \<le> a \<and> a \<le> 244 then
        (case bs of b # d # f # rest \<Rightarrow>
           (if a = 240 then 144 else 128) \<le> b \<and> b < (if a = 244 then 144 else 192) \<and>
           128 \<le> d \<and> d < 192 \<and> 128 \<le> f \<and> f < 192 \<and> utf8_valid rest | _ \<Rightarrow> False)
      else False)"

definition str_from_utf8 :: "string \<Rightarrow> string option" where
  "str_from_utf8 s = (if utf8_valid (map of_char s) then Some s else None)"

section \<open>HTTP authorization (NIP-98)\<close>

record http_crate =
  base64_decode :: "string \<Rightarrow> string option"
  http_json :: "string \<Rightarrow> json option"

definition KIND_HTTP_AUTH :: kind where "KIND_HTTP_AUTH = 27235"
definition URL_TAG :: string where "URL_TAG = ''u''"
definition METHOD_TAG :: string where "METHOD_TAG = ''method''"
definition PAYLOAD_TAG :: string where "PAYLOAD_TAG = ''payload''"
definition DEFAULT_TIMESTAMP_SKEW_SECS :: u64 where "DEFAULT_TIMESTAMP_SKEW_SECS = 60"
definition AUTH_SCHEME_PREFIX :: string where "AUTH_SCHEME_PREFIX = ''Nostr ''"

datatype http_method = Get | Post | Put | Patch | Delete | Head | Options | Connect | Trace | Other string

primrec http_method_as_str :: "http_method \<Rightarrow> string" where
  "http_method_as_str Get = ''GET''"
| "http_method_as_str Post = ''POST''"
| "http_method_as_str Put = ''PUT''"
| "http_method_as_str Patch = ''PATCH''"
| "http_method_as_str Delete = ''DELETE''"
| "http_method_as_str Head = ''HEAD''"
| "http_method_as_str Options = ''OPTIONS''"
| "http_method_as_str Connect = ''CONNECT''"
| "http_method_as_str Trace = ''TRACE''"
| "http_method_as_str (Other s) = s"

definition http_method_parse :: "string \<Rightarrow> http_method" where
  "http_method_parse s =
     (let upper = map to_ascii_upper (str_trim s)
      in if upper = ''GET'' then Get
         else if upper = ''POST'' then Post
         else if upper = ''PUT'' then Put
         else if upper = ''PATCH'' then Patch
         else if upper = ''DELETE'' then Delete
         else if upper = ''HEAD'' then Head
         else if upper = ''OPTIONS'' then Options
         else if upper = ''CONNECT'' then Connect
         else if upper = ''TRACE'' then Trace
         else Other upper)"

record http_auth_request =
  ha_url :: string
  ha_method :: http_method
  ha_payload_hash :: "bytes option"

datatype http_auth_error =
    WrongKind kind
  | MissingUrl
  | MissingMethod
  | InvalidUrl url_error
  | InvalidPayloadHashLength nat
  | InvalidPayloadHash hex_error
  | HeaderWrongScheme
  | HeaderInvalidBase64
  | HeaderInvalidUtf8
  | HeaderInvalidJson
  | ValidationTimestampSkew u64 u64
  | ValidationUrlMismatch string string
  | ValidationMethodMismatch string string
  | ValidationPayloadMismatch

definition http_auth_new :: "string \<Rightarrow> http_method \<Rightarrow> http_auth_request" where
  "http_auth_new url m = \<lparr>ha_url = url, ha_method = m, ha_payload_hash = None\<rparr>"

definition sha256_hash :: "crates \<Rightarrow> bytes \<Rightarrow> bytes" where
  "sha256_hash X body = sha256 X body"

definition http_auth_payload :: "crates \<Rightarrow> bytes \<Rightarrow> http_auth_request \<Rightarrow> http_auth_request" where
  "http_auth_payload X body r = r\<lparr>ha_payload_hash := Some (sha256_hash X body)\<rparr>"

definition custom_tag :: "string \<Rightarrow> string list \<Rightarrow> tag" where
  "custom_tag name args = tag_with (tag_kind_from_wire name) args"

definition custom_value :: "tag list \<Rightarrow> string \<Rightarrow> string option" where
  "custom_value ts name = Option.bind (List.find (\<lambda>t. tag_name t = name) ts) (\<lambda>t. tag_get t 1)"

definition http_auth_to_tags :: "crates \<Rightarrow> http_auth_request \<Rightarrow> tag list" where
  "http_auth_to_tags X r =
     [custom_tag URL_TAG [ha_url r], custom_tag METHOD_TAG [http_method_as_str (ha_method r)]] @
     (case ha_payload_hash r of Some hash \<Rightarrow> [custom_tag PAYLOAD_TAG [hex_encode X hash]] | None \<Rightarrow> [])"

definition parse_sha256_hex :: "crates \<Rightarrow> string \<Rightarrow> http_auth_error + bytes" where
  "parse_sha256_hex X input =
     (if length input \<noteq> 64 then Inl (InvalidPayloadHashLength (length input))
      else map_err InvalidPayloadHash (hex_decode_to_slice X input 32))"

definition http_auth_from_tags ::
  "crates \<Rightarrow> url_crate \<Rightarrow> tag list \<Rightarrow> http_auth_error + http_auth_request" where
  "http_auth_from_tags X U ts =
     res_bind (ok_or MissingUrl (custom_value ts URL_TAG)) (\<lambda>url_str.
     res_bind (map_err InvalidUrl (nula_url_parse U url_str)) (\<lambda>url.
     res_bind (ok_or MissingMethod (custom_value ts METHOD_TAG)) (\<lambda>method_str.
     res_bind (case custom_value ts PAYLOAD_TAG of
                 Some hex_str \<Rightarrow> res_bind (parse_sha256_hex X hex_str) (\<lambda>h. Inr (Some h))
               | None \<Rightarrow> Inr None) (\<lambda>payload_hash.
     Inr \<lparr>ha_url = url, ha_method = http_method_parse method_str, ha_payload_hash = payload_hash\<rparr>))))"

definition http_auth_from_event ::
  "crates \<Rightarrow> url_crate \<Rightarrow> event \<Rightarrow> http_auth_error + http_auth_request" where
  "http_auth_from_event X U e =
     (if ev_kind e \<noteq> KIND_HTTP_AUTH then Inl (WrongKind (ev_kind e))
      else http_auth_from_tags X U (ev_tags e))"

definition abs_diff :: "u64 \<Rightarrow> u64 \<Rightarrow> u64" where
  "abs_diff a b = (if a < b then b - a else a - b)"

definition http_auth_validate ::
  "crates \<Rightarrow> http_auth_request \<Rightarrow> timestamp \<Rightarrow> timestamp \<Rightarrow> u64 \<Rightarrow> string \<Rightarrow> http_method \<Rightarrow> bytes option \<Rightarrow>
   http_auth_error + unit" where
  "http_auth_validate X r signed_at now skew_secs request_url request_method body =
     (let delta = abs_diff signed_at now in
      if delta > skew_secs then Inl (ValidationTimestampSkew delta skew_secs)
      else if ha_url r \<noteq> request_url then Inl (ValidationUrlMismatch request_url (ha_url r))
      else if ha_method r \<noteq> request_method
      then Inl (ValidationMethodMismatch (http_method_as_str request_method) (http_method_as_str (ha_method r)))
      else case (body, ha_payload_hash r) of
             (Some body_bytes, Some expected_hash) \<Rightarrow>
               if sha256_hash X body_bytes \<noteq> expected_hash then Inl ValidationPayloadMismatch else Inr ()
           | _ \<Rightarrow> Inr ())"

definition builder_http_auth :: "crates \<Rightarrow> http_auth_request \<Rightarrow> event_builder" where
  "builder_http_auth X r =
     foldl (\<lambda>b t. builder_tag t b) (builder_new KIND_HTTP_AUTH []) (http_auth_to_tags X r)"

definition parse_authorization_header ::
  "crates \<Rightarrow> sig_text \<Rightarrow> http_crate \<Rightarrow> string \<Rightarrow> http_auth_error + event" where
  "parse_authorization_header X Y H header =
     res_bind (ok_or HeaderWrongScheme (strip_prefix AUTH_SCHEME_PREFIX header)) (\<lambda>body.
     res_bind (ok_or HeaderInvalidBase64 (base64_decode H (str_trim body))) (\<lambda>bytes.
     res_bind (ok_or HeaderInvalidUtf8 (str_from_utf8 bytes)) (\<lambda>json.
     ok_or HeaderInvalidJson (Option.bind (http_json H json) (\<lambda>j. res_ok (event_deserialize X Y j))))))"

section \<open>Reading a request\<close>

definition MAX_HTTP_HEADER_BYTES :: nat where "MAX_HTTP_HEADER_BYTES = 16 * 1024"
definition MAX_HTTP_BODY_BYTES :: nat where "MAX_HTTP_BODY_BYTES = 64 * 1024"

record http_request =
  hr_path :: string
  hr_headers :: "(string \<times> string) list"
  hr_body :: string

definition hr_header :: "http_request \<Rightarrow> string \<Rightarrow> string option" where
  "hr_header r name = map_option snd (List.find (\<lambda>kv. fst kv = name) (hr_headers r))"

type_synonym socket = "string option list"

definition CRLF :: string where "CRLF = [CHR 0x0D, CHR 0x0A]"

fun read_head :: "string \<Rightarrow> socket \<Rightarrow> (nat \<times> string \<times> socket) option" where
  "read_head buf [] = None"
| "read_head buf (None # cs) = None"
| "read_head buf (Some chunk # cs) =
     (if chunk = [] then None
      else let buf' = buf @ chunk
           in case find_sub (CRLF @ CRLF) buf' of
                Some pos \<Rightarrow> Some (pos, buf', cs)
              | None \<Rightarrow> if length buf' > MAX_HTTP_HEADER_BYTES then None else read_head buf' cs)"

fun read_body :: "nat \<Rightarrow> string \<Rightarrow> socket \<Rightarrow> string option" where
  "read_body n body [] = Some body"
| "read_body n body (None # cs) = (if length body < n then None else Some body)"
| "read_body n body (Some chunk # cs) =
     (if length body < n then (if chunk = [] then Some body else read_body n (body @ chunk) cs) else Some body)"

definition parse_header_line :: "string \<Rightarrow> (string \<times> string) option" where
  "parse_header_line line =
     map_option (\<lambda>kv. (map to_ascii_lower (str_trim (fst kv)), str_trim (snd kv))) (split_once CHR '':'' line)"

definition content_length :: "(string \<times> string) list \<Rightarrow> nat" where
  "content_length headers =
     (case Option.bind (List.find (\<lambda>kv. fst kv = ''content-length'') headers)
        (\<lambda>kv. res_ok (parse_uint (2 ^ 64 - 1) (snd kv))) of
        Some n \<Rightarrow> n
      | None \<Rightarrow> 0)"

definition request_target :: "string \<Rightarrow> string option" where
  "request_target request_line = (case split_on '' '' request_line of _ # path # _ \<Rightarrow> Some path | _ \<Rightarrow> None)"

definition read_http_request :: "socket \<Rightarrow> http_request option" where
  "read_http_request socket =
     Option.bind (read_head [] socket) (\<lambda>h.
     let header_end = fst h; buf = fst (snd h); rest = snd (snd h) in
     Option.bind (str_from_utf8 (take header_end buf)) (\<lambda>head.
     let lines = split_on CRLF head in
     Option.bind (request_target (hd lines)) (\<lambda>path.
     let headers = List.map_filter parse_header_line (tl lines); n = content_length headers in
     if n > MAX_HTTP_BODY_BYTES then None
     else Option.bind (read_body n (drop (header_end + 4) buf) rest) (\<lambda>body.
       Some \<lparr>hr_path = path, hr_headers = headers, hr_body = take n body\<rparr>))))"

section \<open>The management endpoint\<close>

datatype management_refusal =
    MissingAuthorization
  | BadHeader http_auth_error
  | BadEvent event_error
  | MissingHostHeader
  | BadUrl url_error
  | NoClock
  | NotAdmin

definition body_bytes :: "string \<Rightarrow> bytes" where
  "body_bytes s = map (\<lambda>c. of_nat (of_char c)) s"

definition authorize_management ::
  "crates \<Rightarrow> sig_text \<Rightarrow> http_crate \<Rightarrow> url_crate \<Rightarrow> timestamp option \<Rightarrow> http_request \<Rightarrow> management_state \<Rightarrow>
   management_refusal + unit" where
  "authorize_management X Y H U clock request mgmt =
     res_bind (ok_or MissingAuthorization (hr_header request ''authorization'')) (\<lambda>header.
     res_bind (map_err BadHeader (parse_authorization_header X Y H header)) (\<lambda>e.
     res_bind (map_err BadEvent (verify X e)) (\<lambda>_.
     res_bind (map_err BadHeader (http_auth_from_event X U e)) (\<lambda>bundle.
     res_bind (ok_or MissingHostHeader (hr_header request ''host'')) (\<lambda>host.
     res_bind (map_err BadUrl (nula_url_parse U (''http://'' @ host @ hr_path request))) (\<lambda>url.
     res_bind (ok_or NoClock clock) (\<lambda>now.
     res_bind (map_err BadHeader (http_auth_validate X bundle (ev_created_at e) now
       DEFAULT_TIMESTAMP_SKEW_SECS url Post (Some (body_bytes (hr_body request))))) (\<lambda>_.
     if is_admin mgmt (ev_pubkey e) then Inr () else Inl NotAdmin))))))))"

text \<open>The derived \<open>Deserialize\<close> of \<open>Request\<close>: \<open>params\<close> defaults to the empty array.\<close>

fun request_visit_map ::
  "string option \<Rightarrow> json list option \<Rightarrow> (string \<times> json) list \<Rightarrow> de_error + string option \<times> json list option" where
  "request_visit_map m ps [] = Inr (m, ps)"
| "request_visit_map m ps (e # es) =
     (if fst e = ''method'' then
        res_bind (set_field ''method'' m (de_str (snd e))) (\<lambda>m'. request_visit_map m' ps es)
      else if fst e = ''params'' then
        res_bind (set_field ''params'' ps (case snd e of JArr js \<Rightarrow> Inr js | _ \<Rightarrow> Inl (DeValue DeType)))
          (\<lambda>ps'. request_visit_map m ps' es)
      else request_visit_map m ps es)"

definition request_deserialize :: "json \<Rightarrow> de_error + mgmt_request" where
  "request_deserialize j =
     (case j of
        JObj es \<Rightarrow>
          res_bind (request_visit_map None None es) (\<lambda>f.
          res_bind (ok_or (DeMissingField ''method'') (fst f)) (\<lambda>m.
          Inr \<lparr>mr_method = m, mr_params = get_or_empty (snd f)\<rparr>))
      | JArr js \<Rightarrow>
          end_seq (res_bind (next_element (DeInvalidLength 0) de_str js) (\<lambda>p.
            case snd p of
              [] \<Rightarrow> Inr (\<lparr>mr_method = fst p, mr_params = []\<rparr>, [])
            | JArr ps # rest \<Rightarrow> Inr (\<lparr>mr_method = fst p, mr_params = ps\<rparr>, rest)
            | _ \<Rightarrow> Inl (DeValue DeType)))
      | _ \<Rightarrow> Inl (DeValue DeType))"

definition CONTENT_TYPE :: string where "CONTENT_TYPE = ''application/nostr+json+rpc''"

text \<open>The status and the response of \<open>handle_management_post\<close>; a refusal is answered before the state
  is touched.\<close>

definition handle_management_post ::
  "crates \<Rightarrow> sig_text \<Rightarrow> http_crate \<Rightarrow> url_crate \<Rightarrow> ip_text \<Rightarrow> (management_refusal \<Rightarrow> string) \<Rightarrow> (string \<Rightarrow> string) \<Rightarrow>
   timestamp option \<Rightarrow> socket \<Rightarrow> management_state option \<Rightarrow> management_state option \<times> nat \<times> mgmt_response" where
  "handle_management_post X Y H U P refusal_text json_error_text clock socket management =
     (case read_http_request socket of
        None \<Rightarrow> (management, 400, response_err ''malformed request'')
      | Some request \<Rightarrow>
     (case management of
        None \<Rightarrow> (management, 404, response_err ''management api is not enabled'')
      | Some mgmt \<Rightarrow>
          let content_type = (case hr_header request ''content-type'' of Some t \<Rightarrow> t | None \<Rightarrow> []) in
          if strip_prefix CONTENT_TYPE content_type = None
          then (management, 415, response_err ''expected application/nostr+json+rpc'')
          else (case authorize_management X Y H U clock request mgmt of
             Inl reason \<Rightarrow> (management, 401, response_err (refusal_text reason))
           | Inr _ \<Rightarrow>
               (case Option.bind (http_json H (hr_body request)) (\<lambda>j. res_ok (request_deserialize j)) of
                  Some rpc \<Rightarrow>
                    let r = handle_request X U P rpc mgmt in (Some (fst r), 200, snd r)
                | None \<Rightarrow>
                    (management, 200, response_err (''invalid request body: '' @ json_error_text (hr_body request)))))))"

section \<open>Lemmas\<close>

declare split_on.simps [simp del]

lemma hex_decode_slice_encode:
  "hex_laws X \<Longrightarrow> length h = n \<Longrightarrow> hex_decode_to_slice X (hex_encode X h) n = Inr h"
  by (auto simp: hex_decode_to_slice_def hex_encode_def hex_laws_def Let_def)

lemma tag_name_custom: "name \<noteq> [] \<Longrightarrow> tag_name (custom_tag name args) = name"
  by (simp add: custom_tag_def tag_with_def tag_name_def as_str_from_wire)

lemma tag_get_custom: "tag_get (custom_tag name (a # args)) 1 = Some a"
  by (simp add: custom_tag_def tag_get_with)

lemma utf8_chars_ascii:
  "\<forall>c \<in> set w. (of_char c :: nat) < 128 \<Longrightarrow> utf8_chars w = map (\<lambda>c. [c]) w"
proof (induction w)
  case (Cons a w)
  then have "\<forall>c \<in> set w. \<not> is_continuation c" by (auto simp: is_continuation_def)
  then have "takeWhile is_continuation w = []" "dropWhile is_continuation w = w" by (cases w; simp)+
  with Cons show ?case by simp
qed simp

lemma http_method_round_trip:
  assumes "\<And>s. m \<noteq> Other s"
  shows "http_method_parse (http_method_as_str m) = m"
proof -
  have "str_trim w = w" if "\<forall>c \<in> set w. 65 \<le> (of_char c :: nat) \<and> (of_char c :: nat) \<le> 90" for w
  proof -
    have white: "\<not> is_white [c]" if "65 \<le> (of_char c :: nat)" for c
      using that by (simp add: is_white_def)
    have keep: "dropWhile is_white (map (\<lambda>c. [c]) v) = map (\<lambda>c. [c]) v"
      if "\<forall>c \<in> set v. 65 \<le> (of_char c :: nat)" for v
      using that white by (cases v) auto
    have "utf8_chars w = map (\<lambda>c. [c]) w" using that by (intro utf8_chars_ascii) force
    moreover have "dropWhile is_white (rev (map (\<lambda>c. [c]) w)) = rev (map (\<lambda>c. [c]) w)"
      using keep [of "rev w"] that by (simp add: rev_map)
    ultimately show ?thesis using keep [of w] that by (simp add: str_trim_def comp_def)
  qed
  note trim = this
  show ?thesis
  proof (cases m)
    case (Other s)
    with assms [of s] show ?thesis by contradiction
  qed (simp_all add: trim http_method_parse_def to_ascii_upper_def Let_def)
qed

text \<open>What a request carries is read back from the event that was built for it.\<close>

lemma http_auth_round_trip_aux:
  assumes "hex_laws X" and "nula_url_parse U (ha_url r) = Inr (ha_url r)" and "\<And>s. ha_method r \<noteq> Other s"
    and "opt_all (\<lambda>h. length h = 32) (ha_payload_hash r)"
  shows "http_auth_from_tags X U (http_auth_to_tags X r) = Inr r"
proof -
  have m: "http_method_parse (http_method_as_str (ha_method r)) = ha_method r"
    by (rule http_method_round_trip) (rule assms(3))
  have len: "length (hex_encode X h) = 2 * length h" for h
    using assms(1) by (simp add: hex_encode_def hex_laws_def)
  show ?thesis
  proof (cases "ha_payload_hash r")
    case None
    with assms m show ?thesis
      by (cases r) (simp add: http_auth_from_tags_def http_auth_to_tags_def custom_value_def tag_name_custom
          tag_get_custom [simplified] URL_TAG_def METHOD_TAG_def PAYLOAD_TAG_def)
  next
    case (Some h)
    with assms m len [of h] show ?thesis
      by (cases r) (simp add: http_auth_from_tags_def http_auth_to_tags_def custom_value_def tag_name_custom
          tag_get_custom [simplified] URL_TAG_def METHOD_TAG_def PAYLOAD_TAG_def parse_sha256_hex_def
          hex_decode_slice_encode)
  qed
qed

lemma builder_http_auth_tags:
  "items (b_tags (builder_http_auth X r)) = http_auth_to_tags X r" "b_kind (builder_http_auth X r) = KIND_HTTP_AUTH"
proof -
  have fold: "items (b_tags (foldl (\<lambda>b t. builder_tag t b) b ts)) = items (b_tags b) @ ts"
    "b_kind (foldl (\<lambda>b t. builder_tag t b) b ts) = b_kind b" for b ts
    by (induction ts arbitrary: b) (simp_all add: builder_tag_def tags_push_def erase_indexes_def)
  show "items (b_tags (builder_http_auth X r)) = http_auth_to_tags X r" "b_kind (builder_http_auth X r) = KIND_HTTP_AUTH"
    by (simp_all add: builder_http_auth_def fold builder_new_def tags_new_def tags_from_vec_def)
qed

lemma unat_abs_diff: "unat (abs_diff a b) = (if unat a \<le> unat b then unat b - unat a else unat a - unat b)"
  by (auto simp: abs_diff_def word_less_nat_alt unat_sub_if')

lemma http_auth_validate_Inr:
  "http_auth_validate X r at now skew url m body = Inr () \<longleftrightarrow>
     unat at \<le> unat now + unat skew \<and> unat now \<le> unat at + unat skew \<and>
     ha_url r = url \<and> ha_method r = m \<and>
     (\<forall>b h. body = Some b \<and> ha_payload_hash r = Some h \<longrightarrow> sha256 X b = h)"
proof -
  have "abs_diff at now \<le> skew \<longleftrightarrow> unat at \<le> unat now + unat skew \<and> unat now \<le> unat at + unat skew"
    by (auto simp: word_le_nat_alt unat_abs_diff)
  then show ?thesis
    by (auto simp: http_auth_validate_def sha256_hash_def Let_def not_less [symmetric] split: option.splits)
qed

text \<open>An admin's signature over the call, in the words of the request.\<close>

definition management_signed ::
  "crates \<Rightarrow> sig_text \<Rightarrow> http_crate \<Rightarrow> url_crate \<Rightarrow> timestamp option \<Rightarrow> http_request \<Rightarrow> management_state \<Rightarrow> event \<Rightarrow> bool" where
  "management_signed X Y H U clock request mgmt e \<longleftrightarrow>
     verify X e = Inr () \<and> ev_pubkey e \<in> admins mgmt \<and> ev_kind e = KIND_HTTP_AUTH \<and>
     (\<exists>header. hr_header request ''authorization'' = Some header \<and> parse_authorization_header X Y H header = Inr e) \<and>
     (\<exists>now. clock = Some now \<and> unat (ev_created_at e) \<le> unat now + 60 \<and> unat now \<le> unat (ev_created_at e) + 60) \<and>
     (\<exists>bundle host. http_auth_from_tags X U (ev_tags e) = Inr bundle \<and> hr_header request ''host'' = Some host \<and>
        nula_url_parse U (''http://'' @ host @ hr_path request) = Inr (ha_url bundle) \<and> ha_method bundle = Post \<and>
        opt_all (\<lambda>h. sha256 X (body_bytes (hr_body request)) = h) (ha_payload_hash bundle))"

lemma authorize_management_Inr:
  "authorize_management X Y H U clock request mgmt = Inr () \<longleftrightarrow>
     (\<exists>e. management_signed X Y H U clock request mgmt e)"
  (is "?L \<longleftrightarrow> ?R")
proof
  have skew: "unat DEFAULT_TIMESTAMP_SKEW_SECS = 60" by (simp add: DEFAULT_TIMESTAMP_SKEW_SECS_def)
  have validate: "http_auth_validate X r at now DEFAULT_TIMESTAMP_SKEW_SECS url m (Some b) = Inr () \<longleftrightarrow>
      unat at \<le> unat now + 60 \<and> unat now \<le> unat at + 60 \<and> ha_url r = url \<and> ha_method r = m \<and>
      opt_all (\<lambda>h. sha256 X b = h) (ha_payload_hash r)" for r at now url m b
    by (cases "ha_payload_hash r") (auto simp: http_auth_validate_Inr skew)
  {
    assume ?L
    then obtain header e req host url now where *: "hr_header request ''authorization'' = Some header"
      "parse_authorization_header X Y H header = Inr e" "verify X e = Inr ()"
      "http_auth_from_event X U e = Inr req" "hr_header request ''host'' = Some host"
      "nula_url_parse U (''http://'' @ host @ hr_path request) = Inr url" "clock = Some now"
      "http_auth_validate X req (ev_created_at e) now DEFAULT_TIMESTAMP_SKEW_SECS url Post
         (Some (body_bytes (hr_body request))) = Inr ()" "is_admin mgmt (ev_pubkey e)"
      unfolding authorize_management_def by (auto simp: res_bind_Inr_iff ok_or_Inr_iff split: if_splits)
    then have "management_signed X Y H U clock request mgmt e"
      by (auto simp: management_signed_def validate is_admin_def http_auth_from_event_def split: if_splits)
    then show ?R by blast
  next
    assume ?R
    then obtain e header now req host where *: "verify X e = Inr ()" "ev_pubkey e \<in> admins mgmt"
      "ev_kind e = KIND_HTTP_AUTH" "hr_header request ''authorization'' = Some header"
      "parse_authorization_header X Y H header = Inr e" "clock = Some now"
      "http_auth_from_tags X U (ev_tags e) = Inr req" "hr_header request ''host'' = Some host"
      "nula_url_parse U (''http://'' @ host @ hr_path request) = Inr (ha_url req)"
      "http_auth_validate X req (ev_created_at e) now DEFAULT_TIMESTAMP_SKEW_SECS (ha_url req) Post
         (Some (body_bytes (hr_body request))) = Inr ()"
      by (auto simp: management_signed_def validate)
    then show ?L by (simp add: authorize_management_def http_auth_from_event_def is_admin_def)
  }
qed

text \<open>Nothing but an authorized, well-formed call changes the moderation state.\<close>

lemma management_post_changes:
  assumes "handle_management_post X Y H U P rt jt clock socket (Some mgmt) = (m', status, resp)"
    and "m' \<noteq> Some mgmt"
  shows "\<exists>request e j rpc. read_http_request socket = Some request \<and>
    management_signed X Y H U clock request mgmt e \<and>
    http_json H (hr_body request) = Some j \<and> request_deserialize j = Inr rpc \<and>
    m' = Some (fst (handle_request X U P rpc mgmt)) \<and> status = 200"
proof (cases "read_http_request socket")
  case None
  with assms show ?thesis by (auto simp: handle_management_post_def)
next
  case (Some request)
  let ?auth = "authorize_management X Y H U clock request mgmt"
  let ?rpc = "Option.bind (http_json H (hr_body request)) (\<lambda>j. res_ok (request_deserialize j))"
  from assms Some have "?auth = Inr ()" and "\<exists>rpc. ?rpc = Some rpc \<and>
      m' = Some (fst (handle_request X U P rpc mgmt)) \<and> status = 200"
    by (auto simp: handle_management_post_def Let_def split: if_split_asm sum.split_asm option.split_asm)
  with Some authorize_management_Inr [of X Y H U clock request mgmt] show ?thesis
    by (auto simp: bind_eq_Some_conv)
qed

lemma bind_SomeE: "Option.bind x f = Some y \<Longrightarrow> (\<And>v. x = Some v \<Longrightarrow> f v = Some y \<Longrightarrow> P) \<Longrightarrow> P"
  by (cases x) auto

lemma read_http_request_bounded:
  "read_http_request socket = Some r \<Longrightarrow> length (hr_body r) \<le> MAX_HTTP_BODY_BYTES"
  by (auto simp: read_http_request_def Let_def elim!: bind_SomeE split: if_split_asm)

lemma read_head_bounded:
  "read_head buf cs = Some (pos, buf', rest) \<Longrightarrow> \<forall>ch. Some ch \<in> set cs \<longrightarrow> length ch \<le> k \<Longrightarrow>
   length buf \<le> MAX_HTTP_HEADER_BYTES \<Longrightarrow> length buf' \<le> MAX_HTTP_HEADER_BYTES + k"
  by (induction buf cs arbitrary: pos buf' rest rule: read_head.induct)
    (auto simp: Let_def split: option.splits if_splits)

end
