(* ===== verification/Protocol_Theorems.thy ===== *)
theory Protocol_Theorems
  imports Core_Theorems Relay_Http "HOL-Library.Sublist"
begin

text \<open>
  The theorems on the wire protocol and on what a relay decides from single messages: the client
  and relay messages, proof of work, authentication events, HTTP authorization and moderation.
\<close>

section \<open>Definitions the theorems use\<close>

definition sample_sig_text :: sig_text where
  "sample_sig_text = \<lparr>
     sig_to_string = fmt_lower,
     sig_from_str = (\<lambda>s. case unhex s of Inr b \<Rightarrow> if length b = 64 then Some b else None | Inl _ \<Rightarrow> None)\<rparr>"

text \<open>Every text is a URL without port, fragment and with the scheme \<open>ws\<close>.\<close>

definition sample_url :: url_crate where
  "sample_url = \<lparr>
     url_parse = Inr,
     url_scheme = (\<lambda>_. ''ws''),
     url_host_str = Some,
     url_without_fragment = id,
     url_port = (\<lambda>_. None),
     url_without_port = Some,
     url_cannot_be_a_base = (\<lambda>_. False)\<rparr>"

definition sample_ip_text :: ip_text where
  "sample_ip_text = \<lparr>
     ip_parse = (\<lambda>s. case unhex s of Inr b \<Rightarrow> Some b | Inl _ \<Rightarrow> None),
     ip_to_string = fmt_lower\<rparr>"

lemma sample_sig_laws: "sig_laws sample_sig_text"
  by (auto simp: sig_laws_def sample_sig_text_def unhex_fmt_lower split: sum.splits if_splits)

definition sample_wire_event :: event where
  "sample_wire_event = \<lparr>ev_id = replicate 32 40, ev_pubkey = sample_pk, ev_created_at = 100, ev_kind = 1,
     ev_tags = [], ev_content = ''hi'', ev_sig = replicate 64 2\<rparr>"

lemma sample_wire_event_wf: "event_wf sample_crates sample_wire_event"
  by (simp add: event_wf_def event_id_wf_def EVENT_ID_SIZE_def public_key_wf_def PUBLIC_KEY_SIZE_def
      sample_wire_event_def sample_pk_def sample_crates_def)

definition sample_low_id :: event where
  "sample_low_id = sample_wire_event\<lparr>ev_id := [0, 255, 255, 255, 0, 0, 0, 0, 0, 0, 0, 0, 0, 0, 0, 0,
     0, 0, 0, 0, 0, 0, 0, 0, 0, 0, 0, 0, 0, 0, 0, 1]\<rparr>"

text \<open>A moderation call: the caller's socket, and the clock when it is handled.\<close>

type_synonym management_call = "timestamp option \<times> socket"

definition run_posts ::
  "crates \<Rightarrow> sig_text \<Rightarrow> http_crate \<Rightarrow> url_crate \<Rightarrow> ip_text \<Rightarrow> (management_refusal \<Rightarrow> string) \<Rightarrow> (string \<Rightarrow> string) \<Rightarrow>
   management_call list \<Rightarrow> management_state option \<Rightarrow> management_state option" where
  "run_posts X Y H U P rt jt calls m =
     foldl (\<lambda>m c. fst (handle_management_post X Y H U P rt jt (fst c) (snd c) m)) m calls"

lemma builder_sign_fields:
  assumes "builder_sign_with_keys X clock b (keys_from_secret_key X sk) = Inr e" and "schnorr_laws X"
  shows "ev_tags e = items (b_tags b)" and "ev_kind e = b_kind b" and "ev_content e = b_content b"
    and "verify X e = Inr ()" and "ev_pubkey e = keypair_public X sk"
    and "Some (ev_created_at e) = (case b_created_at b of Some t \<Rightarrow> Some t | None \<Rightarrow> clock)"
proof -
  from assms(1) obtain u where u: "build_unsigned X clock b (keys_public (keys_from_secret_key X sk)) = Inr u"
    and e: "unsigned_sign_with_keys X u (keys_from_secret_key X sk) = Inr e"
    by (auto simp: builder_sign_with_keys_def res_bind_Inr_iff)
  from u have "u_tags u = items (b_tags b)" "u_kind u = b_kind b" "u_content u = b_content b"
    "Some (u_created_at u) = (case b_created_at b of Some t \<Rightarrow> Some t | None \<Rightarrow> clock)"
    by (auto simp: build_unsigned_def unsigned_new_def split: option.splits)
  with e show "ev_tags e = items (b_tags b)" "ev_kind e = b_kind b" "ev_content e = b_content b"
    "Some (ev_created_at e) = (case b_created_at b of Some t \<Rightarrow> Some t | None \<Rightarrow> clock)"
    by (auto simp: unsigned_sign_with_keys_def Let_def split: if_splits)
  show "verify X e = Inr ()" "ev_pubkey e = keypair_public X sk"
    using sign_verifies_aux [OF assms(2) e] by simp_all
qed

text \<open>An admin signed this call, and it asks for \<open>rpc\<close>.\<close>

definition signed_call ::
  "crates \<Rightarrow> sig_text \<Rightarrow> http_crate \<Rightarrow> url_crate \<Rightarrow> management_state \<Rightarrow> management_call \<times> mgmt_request \<Rightarrow> bool" where
  "signed_call X Y H U mgmt p \<longleftrightarrow>
     (\<exists>request e j. read_http_request (snd (fst p)) = Some request \<and>
        management_signed X Y H U (fst (fst p)) request mgmt e \<and>
        http_json H (hr_body request) = Some j \<and> request_deserialize j = Inr (snd p))"

lemma run_posts_signed:
  "\<exists>ps. subseq (map fst ps) calls \<and> list_all (signed_call X Y H U mgmt) ps \<and>
     run_posts X Y H U P rt jt calls (Some mgmt) = Some (run_requests X U P (map snd ps) mgmt)"
proof (induction calls arbitrary: mgmt)
  case Nil
  show ?case by (rule exI [of _ "[]"]) (simp add: run_posts_def run_requests_def)
next
  case (Cons c calls)
  let ?post = "handle_management_post X Y H U P rt jt (fst c) (snd c) (Some mgmt)"
  obtain m' status resp where post: "?post = (m', status, resp)" by (cases ?post)
  then have step: "run_posts X Y H U P rt jt (c # calls) (Some mgmt) = run_posts X Y H U P rt jt calls m'"
    by (simp add: run_posts_def)
  show ?case
  proof (cases "m' = Some mgmt")
    case True
    with Cons [of mgmt] step show ?thesis by auto
  next
    case False
    from management_post_changes [OF post False] obtain rpc where
      rpc: "m' = Some (fst (handle_request X U P rpc mgmt))" "signed_call X Y H U mgmt (c, rpc)"
      by (auto simp: signed_call_def)
    let ?m = "fst (handle_request X U P rpc mgmt)"
    from Cons [of ?m] obtain ps where ps: "subseq (map fst ps) calls" "list_all (signed_call X Y H U ?m) ps"
      "run_posts X Y H U P rt jt calls (Some ?m) = Some (run_requests X U P (map snd ps) ?m)" by blast
    have "signed_call X Y H U ?m = signed_call X Y H U mgmt"
      by (rule ext) (simp add: signed_call_def management_signed_def handle_request_admins)
    with ps rpc step have "subseq (map fst ((c, rpc) # ps)) (c # calls) \<and>
        list_all (signed_call X Y H U mgmt) ((c, rpc) # ps) \<and>
        run_posts X Y H U P rt jt (c # calls) (Some mgmt) = Some (run_requests X U P (map snd ((c, rpc) # ps)) mgmt)"
      by (simp add: run_requests_def)
    then show ?thesis by blast
  qed
qed

text \<open>Events signed with the sample crates are well formed.\<close>

lemma sample_signed_wf:
  assumes "builder_sign_with_keys sample_crates clock b (keys_from_secret_key sample_crates sk) = Inr e"
    and "length sk = 32" and "list_all tag_wf (items (b_tags b))"
  shows "event_wf sample_crates e"
proof -
  note e = builder_sign_fields [OF assms(1) sample_schnorr_laws]
  have pk: "length (ev_pubkey e) = 32" using e(5) assms(2) by (simp add: sample_crates_def)
  have "length (compute_event_id sample_crates p t k ts c) = 32" for p t k ts c
    by (simp add: compute_event_id_def compute_from_canonical_def sample_crates_def sample_digest_def)
  moreover have "ev_id e = compute_event_id sample_crates (ev_pubkey e) (ev_created_at e) (ev_kind e) (ev_tags e) (ev_content e)"
    and sig: "ev_sig e = ev_id e @ ev_pubkey e"
    using e(4) by (auto simp: verify_def verify_id_def verify_signature_def sample_crates_def split: if_splits)
  ultimately have "length (ev_id e) = 32" by metis
  with pk e(1) sig assms(3) show ?thesis
    by (simp add: event_wf_def event_id_wf_def EVENT_ID_SIZE_def PUBLIC_KEY_SIZE_def public_key_wf_def
        sample_crates_def)
qed

definition sample_rpc :: mgmt_request where
  "sample_rpc = pubkey_request sample_crates BanPubkey (replicate 32 9) None"

definition sample_admin_event :: event where
  "sample_admin_event = (case builder_sign_with_keys sample_crates (Some 500)
     (builder_http_auth sample_crates (http_auth_new ''http://h/'' Post))
     (keys_from_secret_key sample_crates sample_pk) of Inr e \<Rightarrow> e)"

lemma sample_admin_event_built:
  "builder_sign_with_keys sample_crates (Some 500) (builder_http_auth sample_crates (http_auth_new ''http://h/'' Post))
     (keys_from_secret_key sample_crates sample_pk) = Inr sample_admin_event"
  by (rule builder_sign_total [where b = "builder_http_auth sample_crates (http_auth_new ''http://h/'' Post)"
        and clock = "Some 500" and X = sample_crates and ks = "keys_from_secret_key sample_crates sample_pk"])
    (simp_all add: sample_admin_event_def)

text \<open>The base64 coding is the identity, and two texts are JSON: the header's and the body's.\<close>

definition sample_http :: http_crate where
  "sample_http = \<lparr>
     base64_decode = Some,
     http_json = (\<lambda>s. if s = ''x'' then Some (event_serialize sample_sig_text sample_admin_event)
       else if s = ''b'' then Some (JObj [(''method'', JStr (mr_method sample_rpc)), (''params'', JArr (mr_params sample_rpc))])
       else None)\<rparr>"

definition sample_call :: management_call where
  "sample_call = (Some 510, [Some (''POST / HTTP/1.1'' @ CRLF @ ''host: h'' @ CRLF @ ''authorization: Nostr x'' @ CRLF @
     ''content-type: application/nostr+json+rpc'' @ CRLF @ ''content-length: 1'' @ CRLF @ CRLF @ ''b'')])"

definition sample_request :: http_request where
  "sample_request = \<lparr>hr_path = ''/'', hr_headers = [(''host'', ''h''), (''authorization'', ''Nostr x'')], hr_body = ''b''\<rparr>"

text \<open>The tags mining keeps, and the difficulty one nonce reaches.\<close>

definition kept_tags :: "event_builder \<Rightarrow> tag list" where
  "kept_tags b = filter (\<lambda>t. tag_head t \<noteq> tag_kind_from_wire NONCE_TAG) (items (b_tags b))"

definition nonce_difficulty ::
  "crates \<Rightarrow> bytes \<Rightarrow> event_builder \<Rightarrow> u8 \<Rightarrow> timestamp \<Rightarrow> u64 \<Rightarrow> u8" where
  "nonce_difficulty X sk b d t n = event_id_difficulty
     (compute_event_id X (keypair_public X sk) t (b_kind b) (kept_tags b @ [make_nonce_tag n d]) (b_content b))"

lemma mine_try_difficulty:
  "event_id_difficulty (u_id (mine_try X (keys_public (keys_from_secret_key X sk)) t (b_kind b) (kept_tags b)
     (b_content b) d n)) = nonce_difficulty X sk b d t n"
  by (simp add: mine_try_def unsigned_new_def compute_id_def nonce_difficulty_def keys_from_secret_key_def)

lemma mine_and_sign_fails:
  assumes "mine_and_sign X clock b (keys_from_secret_key X sk) d = Inl err"
  shows "(err = MineClock \<and> b_created_at b = None \<and> clock = None) \<or>
    (err = NonceExhausted \<and> (\<exists>t. \<forall>n. 0 < n \<longrightarrow> \<not> d \<le> nonce_difficulty X sk b d t n))"
proof -
  let ?ks = "keys_from_secret_key X sk"
  let ?att = "\<lambda>t. mine_try X (keys_public ?ks) t (b_kind b) (kept_tags b) (b_content b) d"
  have sign: "\<exists>e. unsigned_sign_with_keys X (?att t n) ?ks = Inr e" for t n
    by (simp add: unsigned_sign_with_keys_def mine_try_def unsigned_new_def Let_def)
  show ?thesis
  proof (cases "case b_created_at b of Some ts \<Rightarrow> Some ts | None \<Rightarrow> clock")
    case None
    with assms show ?thesis by (auto simp: mine_and_sign_def pow_mine_def split: option.splits)
  next
    case (Some t)
    note spec = mine_loop_spec [where attempt = "?att t" and difficulty = d and start = 0]
    have "mine_loop (?att t) d 0 = Inl err"
    proof (cases "mine_loop (?att t) d 0")
      case (Inr a)
      with spec have "pa_unsigned a = ?att t (pa_iterations a)" by simp
      then show ?thesis using assms Some Inr sign [of t "pa_iterations a"]
        by (auto simp: mine_and_sign_def pow_mine_def kept_tags_def [symmetric] Let_def into_signed_with_keys_def
            split: sum.splits)
    qed (use assms Some in \<open>simp add: mine_and_sign_def pow_mine_def kept_tags_def [symmetric] Let_def\<close>)
    with spec show ?thesis by (auto simp: mine_try_difficulty)
  qed
qed

lemma mine_and_sign_first:
  assumes "mine_and_sign X clock b (keys_from_secret_key X sk) d = Inr e"
  shows "\<exists>nonce. ev_tags e = kept_tags b @ [make_nonce_tag nonce d] \<and>
    (\<forall>n. 0 < n \<and> n < nonce \<longrightarrow> \<not> d \<le> nonce_difficulty X sk b d (ev_created_at e) n)"
proof -
  let ?ks = "keys_from_secret_key X sk"
  let ?att = "\<lambda>t. mine_try X (keys_public ?ks) t (b_kind b) (kept_tags b) (b_content b) d"
  from assms obtain a t where a: "mine_loop (?att t) d 0 = Inr a"
    and e: "unsigned_sign_with_keys X (pa_unsigned a) ?ks = Inr e"
    by (auto simp: mine_and_sign_def pow_mine_def into_signed_with_keys_def res_bind_Inr_iff Let_def
        kept_tags_def [symmetric])
  note spec = mine_loop_spec [where attempt = "?att t" and difficulty = d and start = 0, unfolded a, simplified]
  then have "ev_tags e = kept_tags b @ [make_nonce_tag (pa_iterations a) d]" "ev_created_at e = t"
    using e by (auto simp: unsigned_sign_with_keys_def mine_try_def unsigned_new_def Let_def split: if_splits)
  with spec show ?thesis by (auto simp: mine_try_difficulty)
qed

section \<open>Messages\<close>

text \<open>C18. Messages survive the wire: every client message and every relay message whose parts are well
  formed is decoded from its encoding to itself. The encodings of the two directions are read by
  separate decoders, and an event keeps its id, tags, content and signature text.\<close>

theorem message_round_trip:
  assumes "hex_laws X" and "sig_laws Y"
  shows "(client_message_wf X c \<longrightarrow> client_deserialize X Y (client_serialize X Y c) = Inr c) \<and>
    (relay_message_wf X r \<longrightarrow> relay_deserialize X Y (relay_serialize Y r) = Inr r)"
  using client_round_trip_aux [OF assms] relay_round_trip_aux [OF assms] by blast

theorem message_round_trip_witness:
  "client_deserialize sample_crates sample_sig_text
     (client_serialize sample_crates sample_sig_text (CEvent sample_wire_event)) = Inr (CEvent sample_wire_event) \<and>
   relay_deserialize sample_crates sample_sig_text
     (relay_serialize sample_sig_text (REvent ''sub'' sample_wire_event)) = Inr (REvent ''sub'' sample_wire_event)"
proof -
  have "subscription_id_wf ''sub''" by code_simp
  then show ?thesis
    using message_round_trip [OF sample_hex_laws sample_sig_laws, of "CEvent sample_wire_event" "REvent ''sub'' sample_wire_event"]
      sample_wire_event_wf by simp
qed

text \<open>C24. What the decoders accept is typed: a decoded message has a subscription id of 1 to 64 characters,
  ids and keys of 32 bytes, signatures of 64, non-empty tags and, for a subscription, at least one
  filter. So decoding is idempotent: the message is encoded and decoded to itself.\<close>

theorem message_decode_typed:
  assumes "hex_laws X" and "sig_laws Y"
  shows "(client_deserialize X Y i = Inr c \<longrightarrow>
      client_message_wf X c \<and> client_deserialize X Y (client_serialize X Y c) = Inr c) \<and>
    (relay_deserialize X Y j = Inr r \<longrightarrow>
      relay_message_wf X r \<and> relay_deserialize X Y (relay_serialize Y r) = Inr r)"
  using client_deserialize_wf [OF assms(2)] relay_deserialize_wf [OF assms(2)]
    client_round_trip_aux [OF assms] relay_round_trip_aux [OF assms] by blast

theorem message_decode_typed_witness:
  "client_message_wf sample_crates (CReq ''q'' [filter_new]) \<and>
   relay_message_wf sample_crates (RClosed ''q'' [])"
proof -
  have "client_deserialize sample_crates sample_sig_text (JArr [JStr ''REQ'', JStr ''q'', JObj []]) = Inr (CReq ''q'' [filter_new])"
    "relay_deserialize sample_crates sample_sig_text (JArr [JStr ''CLOSED'', JStr ''q'']) = Inr (RClosed ''q'' [])"
    by code_simp+
  then show ?thesis
    using message_decode_typed [OF sample_hex_laws sample_sig_laws, where c = "CReq ''q'' [filter_new]" and r = "RClosed ''q'' []"]
    by blast
qed

section \<open>Proof of work\<close>

text \<open>The difficulty of an event id is what NIP-13 means by it: read as a 256-bit number with the first
  byte most significant, the id is below 2 to the power 256 - d exactly when its difficulty is at
  least d, for every d that fits a byte (the count saturates at 255, which loses nothing below 256).
  An event passes \<open>verify\<close> exactly when its id does, and the commitment it carries, if any, is legible
  and not below the minimum.\<close>

theorem pow_difficulty_spec:
  assumes "length (ev_id e) = 32"
  shows "(d \<le> event_id_difficulty (ev_id e) \<longleftrightarrow> be_nat (ev_id e) < 2 ^ (256 - unat d)) \<and>
    (verify_pow e d = Inr () \<longleftrightarrow> be_nat (ev_id e) < 2 ^ (256 - unat d) \<and>
       (\<exists>c. committed_difficulty e = Inr c \<and> opt_all (\<lambda>n. d \<le> n) c))"
proof -
  note le = difficulty_be_nat [OF assms, of d]
  then have "verify_pow e d = Inr () \<longleftrightarrow> be_nat (ev_id e) < 2 ^ (256 - unat d) \<and>
      (\<exists>c. committed_difficulty e = Inr c \<and> opt_all (\<lambda>n. d \<le> n) c)"
    unfolding verify_pow_def Let_def
    by (cases "committed_difficulty e") (auto simp: not_less [symmetric] split: option.splits)
  with le show ?thesis by blast
qed

theorem pow_difficulty_spec_witness: "8 \<le> event_id_difficulty (ev_id sample_low_id)"
proof -
  have "length (ev_id sample_low_id) = 32" and "be_nat (ev_id sample_low_id) < 2 ^ (256 - unat (8 :: u8))"
    by (simp_all add: sample_low_id_def be_nat_def)
  then show ?thesis using pow_difficulty_spec [of sample_low_id 8] by blast
qed

text \<open>C23. Mining always ends. It fails only when neither the builder nor the clock has a timestamp, or
  when no 64-bit nonce from 1 on reaches the difficulty. Otherwise the signed event carries the first
  nonce that does, verifies, passes the strict proof-of-work check it was mined for, and has the kind,
  the content and every tag of the builder that is not a nonce tag.\<close>

theorem pow_mining:
  assumes "schnorr_laws X"
  shows "case mine_and_sign X clock b (keys_from_secret_key X sk) d of
      Inr e \<Rightarrow> verify X e = Inr () \<and> verify_pow_strict e d = Inr () \<and> ev_pubkey e = keypair_public X sk \<and>
        ev_kind e = b_kind b \<and> ev_content e = b_content b \<and>
        (\<exists>nonce. ev_tags e = kept_tags b @ [make_nonce_tag nonce d] \<and>
          (\<forall>n. 0 < n \<and> n < nonce \<longrightarrow> \<not> d \<le> nonce_difficulty X sk b d (ev_created_at e) n))
    | Inl err \<Rightarrow> (err = MineClock \<and> b_created_at b = None \<and> clock = None) \<or>
        (err = NonceExhausted \<and>
          (\<exists>t. \<forall>n. 0 < n \<longrightarrow> \<not> d \<le> nonce_difficulty X sk b d t n))"
proof (cases "mine_and_sign X clock b (keys_from_secret_key X sk) d")
  case (Inl err)
  then show ?thesis using mine_and_sign_fails [OF Inl] by auto
next
  case (Inr e)
  with mine_and_sign_aux [OF Inr assms] mine_and_sign_first [OF Inr] show ?thesis by simp
qed

theorem pow_mining_witness:
  "\<exists>e. mine_and_sign sample_crates None sample_builder (keys_from_secret_key sample_crates sample_pk) 8 = Inr e \<and>
     verify_pow_strict e 8 = Inr () \<and> ev_content e = ''hello''"
proof -
  let ?r = "mine_and_sign sample_crates None sample_builder (keys_from_secret_key sample_crates sample_pk) 8"
  have "\<not> isl ?r" and "b_content sample_builder = ''hello''" by code_simp+
  then show ?thesis
    using pow_mining [OF sample_schnorr_laws, where clock = None and b = sample_builder and sk = sample_pk and d = 8]
    by (cases ?r) auto
qed

section \<open>Authentication\<close>

text \<open>An authentication event answers exactly one challenge at one relay: the event a client builds and
  signs for them verifies, and \<open>verify_auth_event\<close> accepts it for that relay and that challenge within
  the window around the clock, in both directions, and for no other relay or challenge.\<close>

theorem auth_event_answers:
  assumes "schnorr_laws X" and "relay_url_parse U relay = Inr relay" and "challenge \<noteq> []"
    and "builder_sign_with_keys X clock (auth_event relay challenge) (keys_from_secret_key X sk) = Inr e"
  shows "verify X e = Inr () \<and> ev_pubkey e = keypair_public X sk \<and>
    (verify_auth_event U e relay' challenge' now max_age = Inr () \<longleftrightarrow>
       relay' = relay \<and> challenge' = challenge \<and>
       unat now \<le> unat (ev_created_at e) + unat max_age \<and> unat (ev_created_at e) \<le> unat now + unat max_age)"
proof -
  note e = builder_sign_fields [OF assms(4) assms(1)]
  note tags = auth_event_tags [OF e(1)]
  have "verify_auth_event U e relay' challenge' now max_age = Inr () \<longleftrightarrow>
      relay' = relay \<and> challenge' = challenge \<and>
      unat now \<le> unat (ev_created_at e) + unat max_age \<and> unat (ev_created_at e) \<le> unat now + unat max_age"
    (is "?L \<longleftrightarrow> ?R")
  proof
    assume ?L
    then show ?R unfolding verify_auth_event_Inr using assms(2) tags by simp
  next
    assume ?R
    then show ?L using auth_event_verifies [OF assms(2,3) e(2,1)] by simp
  qed
  with e(4,5) show ?thesis by simp
qed

theorem auth_event_answers_witness:
  "\<exists>e. builder_sign_with_keys sample_crates (Some 500) (auth_event ''wss://r'' ''c1'')
       (keys_from_secret_key sample_crates sample_pk) = Inr e \<and>
     verify_auth_event sample_url e ''wss://r'' ''c1'' 600 DEFAULT_MAX_AGE_SECS = Inr () \<and>
     verify_auth_event sample_url e ''wss://r'' ''c2'' 600 DEFAULT_MAX_AGE_SECS \<noteq> Inr ()"
proof -
  let ?b = "auth_event ''wss://r'' ''c1''"
  obtain e where e: "builder_sign_with_keys sample_crates (Some 500) ?b (keys_from_secret_key sample_crates sample_pk) = Inr e"
    by (rule builder_sign_total [where b = ?b and clock = "Some 500"]) auto
  have "b_created_at ?b = None" by code_simp
  then have "ev_created_at e = 500" using builder_sign_fields(6) [OF e sample_schnorr_laws] by simp
  moreover have "relay_url_parse sample_url ''wss://r'' = Inr ''wss://r''" by code_simp
  ultimately show ?thesis
    using e auth_event_answers [OF sample_schnorr_laws _ _ e, of sample_url _ _ 600 DEFAULT_MAX_AGE_SECS]
    by (simp add: DEFAULT_MAX_AGE_SECS_def)
qed

section \<open>Moderation\<close>

text \<open>C19. The moderation state refines the NIP-86 specification: after any sequence of requests, well formed
  or not, the banned and allowed keys, the allowed kinds and the blocked addresses are those of the
  abstract state, banned and allowed keys are disjoint, the set of admins is unchanged, and the write
  policy admits an event exactly when the abstract state does.\<close>

theorem management_refines:
  "mgmt_inv (run_requests X U P rs (management_new pks)) \<and>
   mgmt_abs (run_requests X U P rs (management_new pks)) =
     foldl (\<lambda>A r. spec_request X P r A) (mgmt_abs (management_new pks)) rs \<and>
   admins (run_requests X U P rs (management_new pks)) = set pks \<and>
   (management_evaluate (run_requests X U P rs (management_new pks)) e addr = Accept \<longleftrightarrow>
     spec_admits (foldl (\<lambda>A r. spec_request X P r A) (mgmt_abs (management_new pks)) rs) e addr)"
  using run_requests_refines [OF mgmt_inv_new, of X U P rs pks] run_requests_admins [of X U P rs "management_new pks"]
  by (simp add: evaluate_admits management_new_def)

section \<open>HTTP authorization\<close>

text \<open>What a NIP-98 event says of a request is read back from it: signing the event built for a request
  and parsing its tags gives the URL, the method and the payload hash again, and the receiver accepts
  it for that URL, that method and any body with that hash within the allowed skew.\<close>

theorem http_auth_round_trip:
  assumes "hex_laws X" and "schnorr_laws X" and "nula_url_parse U (ha_url r) = Inr (ha_url r)"
    and "\<And>s. ha_method r \<noteq> Other s" and "opt_all (\<lambda>h. length h = 32) (ha_payload_hash r)"
    and "builder_sign_with_keys X clock (builder_http_auth X r) (keys_from_secret_key X sk) = Inr e"
  shows "http_auth_from_event X U e = Inr r \<and>
    (http_auth_validate X r (ev_created_at e) now skew url m (Some body) = Inr () \<longleftrightarrow>
       url = ha_url r \<and> m = ha_method r \<and> opt_all (\<lambda>h. sha256 X body = h) (ha_payload_hash r) \<and>
       unat (ev_created_at e) \<le> unat now + unat skew \<and> unat now \<le> unat (ev_created_at e) + unat skew)"
proof -
  note e = builder_sign_fields [OF assms(6) assms(2)]
  have "http_auth_from_event X U e = Inr r"
    using http_auth_round_trip_aux [OF assms(1,3,4,5)] e(1,2)
    by (simp add: http_auth_from_event_def builder_http_auth_tags)
  then show ?thesis by (cases "ha_payload_hash r") (auto simp: http_auth_validate_Inr)
qed

theorem http_auth_round_trip_witness:
  "\<exists>e. builder_sign_with_keys sample_crates (Some 500)
       (builder_http_auth sample_crates (http_auth_payload sample_crates [1, 2] (http_auth_new ''http://r/'' Post)))
       (keys_from_secret_key sample_crates sample_pk) = Inr e \<and>
     http_auth_from_event sample_crates sample_url e =
       Inr (http_auth_payload sample_crates [1, 2] (http_auth_new ''http://r/'' Post))"
proof -
  let ?r = "http_auth_payload sample_crates [1, 2] (http_auth_new ''http://r/'' Post)"
  obtain e where e: "builder_sign_with_keys sample_crates (Some 500) (builder_http_auth sample_crates ?r)
      (keys_from_secret_key sample_crates sample_pk) = Inr e"
    by (rule builder_sign_total [where b = "builder_http_auth sample_crates ?r" and clock = "Some 500"]) auto
  have "nula_url_parse sample_url (ha_url ?r) = Inr (ha_url ?r)" by code_simp
  moreover have "opt_all (\<lambda>h. length h = 32) (ha_payload_hash ?r)" by code_simp
  moreover have "ha_method ?r \<noteq> Other s" for s by (simp add: http_auth_payload_def http_auth_new_def)
  ultimately have "http_auth_from_event sample_crates sample_url e = Inr ?r"
    using http_auth_round_trip [OF sample_hex_laws sample_schnorr_laws _ _ _ e, of sample_url] by blast
  with e show ?thesis by blast
qed

section \<open>The management endpoint\<close>

text \<open>C20. Only an admin moderates: whatever arrives at the management endpoint, in any number of calls, the
  moderation state is the one that results from a subsequence of the calls, in their order, each of
  which was signed by an admin within a minute of the clock for this host, this path and the method
  POST, with the hash of its body when the event carries one. The set of admins itself cannot be changed.\<close>

theorem management_authorized:
  "\<exists>ps m. run_posts X Y H U P rt jt calls (Some (management_new pks)) = Some m \<and> admins m = set pks \<and>
     subseq (map fst ps) calls \<and> list_all (signed_call X Y H U (management_new pks)) ps \<and>
     m = run_requests X U P (map snd ps) (management_new pks)"
  using run_posts_signed [where mgmt = "management_new pks"]
  by (fastforce simp: run_requests_admins management_new_def)

text \<open>What a header authorizes of the body: once a request is authorized, the same header authorizes the
  same request with another body exactly when the event carries no payload hash or the hash of the new body.
  So without the \<open>payload\<close> tag, which the endpoint does not insist on, a captured header authorizes any
  call until its minute is over.\<close>

theorem management_body_binding:
  assumes "authorize_management X Y H U clock request mgmt = Inr ()"
    and "hr_header request ''authorization'' = Some header"
    and "parse_authorization_header X Y H header = Inr e"
    and "http_auth_from_event X U e = Inr auth"
  shows "authorize_management X Y H U clock (request\<lparr>hr_body := body\<rparr>) mgmt = Inr () \<longleftrightarrow>
    opt_all (\<lambda>h. sha256 X (body_bytes body) = h) (ha_payload_hash auth)"
proof -
  have "http_auth_from_tags X U (ev_tags e) = Inr auth"
    using assms(4) by (simp add: http_auth_from_event_def split: if_splits)
  moreover have "hr_header (request\<lparr>hr_body := body\<rparr>) = hr_header request"
    by (rule ext) (simp add: hr_header_def)
  ultimately show ?thesis
    using assms unfolding authorize_management_Inr management_signed_def by auto
qed

theorem management_body_binding_witness:
  "authorize_management sample_crates sample_sig_text sample_http sample_url (Some 510)
     (sample_request\<lparr>hr_body := ''other''\<rparr>) (management_new [sample_pk]) = Inr ()"
proof -
  have e: "builder_sign_with_keys sample_crates (Some 500) (builder_http_auth sample_crates (http_auth_new ''http://h/'' Post))
      (keys_from_secret_key sample_crates sample_pk) = Inr sample_admin_event"
    by (rule sample_admin_event_built)
  have header: "hr_header sample_request ''authorization'' = Some ''Nostr x''" "hr_header sample_request ''host'' = Some ''h''"
    by code_simp+
  have event: "parse_authorization_header sample_crates sample_sig_text sample_http ''Nostr x'' = Inr sample_admin_event"
  proof -
    have "event_wf sample_crates sample_admin_event" by (rule sample_signed_wf [OF e]) (code_simp)+
    then have "event_deserialize sample_crates sample_sig_text (event_serialize sample_sig_text sample_admin_event) = Inr sample_admin_event"
      by (rule event_round_trip_aux [OF sample_hex_laws sample_sig_laws])
    moreover have "str_trim ''x'' = ''x''" by code_simp
    ultimately show ?thesis
      by (simp add: parse_authorization_header_def sample_http_def strip_prefix_def AUTH_SCHEME_PREFIX_def
          str_from_utf8_def)
  qed
  have auth: "http_auth_from_event sample_crates sample_url sample_admin_event = Inr (http_auth_new ''http://h/'' Post)"
    using builder_sign_fields(1,2) [OF e sample_schnorr_laws]
      http_auth_round_trip_aux [OF sample_hex_laws, of sample_url "http_auth_new ''http://h/'' Post"]
    by (simp add: http_auth_from_event_def builder_http_auth_tags http_auth_new_def nula_url_parse_def sample_url_def)
  note fields = builder_sign_fields [OF e sample_schnorr_laws]
  have "b_created_at (builder_http_auth sample_crates (http_auth_new ''http://h/'' Post)) = None" by code_simp
  with fields have "verify sample_crates sample_admin_event = Inr ()" "ev_created_at sample_admin_event = 500"
    "ev_pubkey sample_admin_event = sample_pk" by (simp_all add: sample_crates_def)
  moreover have "http_auth_validate sample_crates (http_auth_new ''http://h/'' Post) 500 510 DEFAULT_TIMESTAMP_SKEW_SECS
      ''http://h/'' Post (Some (body_bytes ''b'')) = Inr ()"
    by (simp add: http_auth_validate_Inr http_auth_new_def DEFAULT_TIMESTAMP_SKEW_SECS_def)
  ultimately have "authorize_management sample_crates sample_sig_text sample_http sample_url (Some 510)
      sample_request (management_new [sample_pk]) = Inr ()"
    using header event auth
    by (simp add: authorize_management_def nula_url_parse_def sample_url_def is_admin_def management_new_def)
      (simp add: sample_request_def)
  then show ?thesis
    using management_body_binding [OF _ header(1) event auth, where body = "''other''"] by (simp add: http_auth_new_def)
qed

text \<open>Reading a request never holds more than the limits allow: the part read before the header ends
  exceeds 16 KiB by at most one read, and the body handed on has at most 64 KiB, whatever length the
  headers announce.\<close>

theorem http_read_bounded:
  assumes "read_head [] socket = Some (pos, buf, rest)" and "\<And>chunk. Some chunk \<in> set socket \<Longrightarrow> length chunk \<le> k"
  shows "length buf \<le> MAX_HTTP_HEADER_BYTES + k \<and>
    (case read_http_request socket of None \<Rightarrow> True
     | Some r \<Rightarrow> length (hr_body r) \<le> MAX_HTTP_BODY_BYTES)"
  using read_head_bounded [OF assms(1), of k] assms(2) read_http_request_bounded [of socket]
  by (auto split: option.split)

theorem http_read_bounded_witness:
  "length (fst (snd (the (read_head [] (snd sample_call))))) \<le> MAX_HTTP_HEADER_BYTES + 200"
proof -
  obtain pos buf rest where h: "read_head [] (snd sample_call) = Some (pos, buf, rest)"
  proof -
    have "read_head [] (snd sample_call) \<noteq> None" by (simp add: sample_call_def CRLF_def Let_def)
    then show thesis using that by auto
  qed
  have "length chunk \<le> 200" if "Some chunk \<in> set (snd sample_call)" for chunk
    using that by (simp add: sample_call_def CRLF_def)
  with h show ?thesis using http_read_bounded [OF h, of 200] by simp
qed

end
