(* ===== verification/Sync_Session.thy ===== *)
theory Sync_Session
  imports Event_Model
begin

text \<open>
  The responder side of a NIP-77 reconciliation (nula-sync: error.rs, storage_vec.rs,
  storage_db.rs, session.rs). The algorithm itself is the \<open>negentropy\<close> crate, an argument \<open>N\<close> of the
  definitions: a storage vector that is filled and sealed, and a session made from it that
  answers one message at a time, keeping its own state. Errors of that crate are their texts.
\<close>

record ('v, 'r) negentropy =
  ng_vector :: 'v
  ng_insert :: "u64 \<Rightarrow> bytes \<Rightarrow> 'v \<Rightarrow> string + 'v"
  ng_seal :: "'v \<Rightarrow> string + 'v"
  ng_owned :: "'v \<Rightarrow> u64 \<Rightarrow> string + 'r"
  ng_reconcile :: "'r \<Rightarrow> bytes \<Rightarrow> 'r \<times> (string + bytes)"

datatype sync_error =
    Algorithm string
  | SyncHex hex_error
  | MalformedMessage string
  | SyncStorage string

definition event_id_to_neg_id :: "event_id \<Rightarrow> bytes" where
  "event_id_to_neg_id i = i"

definition neg_id_to_event_id :: "bytes \<Rightarrow> event_id" where
  "neg_id_to_event_id i = i"

fun insert_items ::
  "('v, 'r) negentropy \<Rightarrow> (event_id \<times> timestamp) list \<Rightarrow> 'v \<Rightarrow> sync_error + 'v" where
  "insert_items N [] v = Inr v"
| "insert_items N (it # its) v =
     res_bind (map_err Algorithm (ng_insert N (snd it) (event_id_to_neg_id (fst it)) v)) (insert_items N its)"

definition prepare_storage ::
  "('v, 'r) negentropy \<Rightarrow> (event_id \<times> timestamp) list \<Rightarrow> sync_error + 'v" where
  "prepare_storage N its =
     res_bind (insert_items N its (ng_vector N)) (\<lambda>v. map_err Algorithm (ng_seal N v))"

text \<open>\<open>from_database\<close>, given what the database answers to \<open>negentropy_items\<close>.\<close>

definition from_database ::
  "('v, 'r) negentropy \<Rightarrow> string + (event_id \<times> timestamp) list \<Rightarrow> sync_error + 'v" where
  "from_database N answer = res_bind (map_err SyncStorage answer) (prepare_storage N)"

definition DEFAULT_FRAME_SIZE_LIMIT :: u64 where "DEFAULT_FRAME_SIZE_LIMIT = 60000"

definition responder_new :: "('v, 'r) negentropy \<Rightarrow> 'v \<Rightarrow> u64 \<Rightarrow> sync_error + 'r" where
  "responder_new N v limit = map_err Algorithm (ng_owned N v limit)"

definition responder_with_defaults :: "('v, 'r) negentropy \<Rightarrow> 'v \<Rightarrow> sync_error + 'r" where
  "responder_with_defaults N v = responder_new N v DEFAULT_FRAME_SIZE_LIMIT"

definition responder_reconcile ::
  "('v, 'r) negentropy \<Rightarrow> 'r \<Rightarrow> bytes \<Rightarrow> 'r \<times> (sync_error + bytes)" where
  "responder_reconcile N r query =
     (let a = ng_reconcile N r query in (fst a, map_err Algorithm (snd a)))"

definition responder_reconcile_hex ::
  "crates \<Rightarrow> ('v, 'r) negentropy \<Rightarrow> 'r \<Rightarrow> string \<Rightarrow> 'r \<times> (sync_error + string)" where
  "responder_reconcile_hex X N r query_hex =
     (case hex_decode_vec X query_hex of
        Inl e \<Rightarrow> (r, Inl (SyncHex e))
      | Inr bytes \<Rightarrow>
          let a = responder_reconcile N r bytes
          in (fst a, res_bind (snd a) (\<lambda>reply. Inr (hex_encode X reply))))"

fun hex_error_display :: "hex_error \<Rightarrow> string" where
  "hex_error_display HexInvalidChar = ''invalid hex character''"
| "hex_error_display (HexInvalidLength n) = ''invalid hex length: '' @ show_nat n"
| "hex_error_display (HexLengthMismatch expected actual) =
     ''hex length mismatch: expected '' @ show_nat expected @ '' bytes, got '' @ show_nat actual"
| "hex_error_display HexOverflow = ''hex decoder reported an internal overflow''"

fun sync_error_display :: "sync_error \<Rightarrow> string" where
  "sync_error_display (Algorithm e) = ''negentropy algorithm error: '' @ e"
| "sync_error_display (SyncHex e) = ''invalid hex payload: '' @ hex_error_display e"
| "sync_error_display (MalformedMessage m) = ''malformed NIP-77 message: '' @ m"
| "sync_error_display (SyncStorage e) = e"

lemma insert_items_foldr:
  assumes "\<And>t i v. ng_insert N t i v = Inr (ins t i v)"
  shows "insert_items N its v = Inr (foldl (\<lambda>v it. ins (snd it) (fst it) v) v its)"
  using assms by (induction its arbitrary: v) (simp_all add: event_id_to_neg_id_def)

end
