(* ===== verification/Relay_Connection.thy ===== *)
theory Relay_Connection
  imports Relay_Policy Sync_Session
begin

text \<open>
  One connection of the relay server (nula-relay, server/connection.rs). The state of
  \<open>handle_connection\<close> is the record \<open>conn\<close>: the sink with what was sent on it, the subscriptions,
  the NIP-77 sessions, the NIP-42 state and the rate limiter, together with what the connection
  shares with the relay, the store and the broadcast channel (the events published on it so
  far). A handler returns the new state and its \<open>Result\<close>; the early returns of the source are the
  branches. A send fails when the sink has no room left (\<open>sk_left\<close> is how many sends still
  succeed, \<open>None\<close> for all of them), so that every failure of the socket is covered. The sink
  holds messages; \<open>encode_relay\<close> is the text that goes out for one. The clocks, the random source and
  the time-based token are an environment, read once per frame. The JSON text parser is the
  argument \<open>W\<close>. A hash map is iterated in the order of its list.
\<close>

section \<open>Context and state\<close>

datatype storage_error = Backend string | Closed | NotFound | QueryTooBroad

fun storage_error_display :: "storage_error \<Rightarrow> string" where
  "storage_error_display (Backend e) = e"
| "storage_error_display Closed = ''database is closed''"
| "storage_error_display NotFound = ''record not found''"
| "storage_error_display QueryTooBroad = ''query would scan the entire store; supply a filter or limit''"

text \<open>The methods of \<open>dyn NostrDatabase\<close> the connection calls.\<close>

record 's database =
  db_save_event :: "event \<Rightarrow> 's \<Rightarrow> 's \<times> (storage_error + save_event_status)"
  db_query :: "nostr_filter \<Rightarrow> 's \<Rightarrow> storage_error + event list"
  db_count :: "nostr_filter \<Rightarrow> 's \<Rightarrow> storage_error + nat"
  db_negentropy_items :: "nostr_filter \<Rightarrow> 's \<Rightarrow> storage_error + (event_id \<times> timestamp) list"

text \<open>The default method of the trait.\<close>

definition default_negentropy_items ::
  "(nostr_filter \<Rightarrow> 's \<Rightarrow> storage_error + event list) \<Rightarrow> nostr_filter \<Rightarrow> 's \<Rightarrow>
   storage_error + (event_id \<times> timestamp) list" where
  "default_negentropy_items query f s =
     res_bind (query f s) (\<lambda>es. Inr (map (\<lambda>e. (ev_id e, ev_created_at e)) es))"

record 's connection_context =
  cx_storage :: "'s database"
  cx_write_policy :: write_policy
  cx_query_policy :: query_policy
  cx_peer :: socket_addr
  cx_relay_url :: relay_url
  cx_nip42_mode :: nip42_mode
  cx_min_pow :: "u8 option"
  cx_max_subid_length :: "nat option"
  cx_max_filter_limit :: "nat option"
  cx_max_active_subscriptions :: "nat option"
  cx_default_filter_limit :: "nat option"
  cx_rate_limit :: rate_limit
  cx_unresponsive :: bool
  cx_send_random_events :: "u16 option"

text \<open>\<open>MockRelay::start\<close> copies the options into the context; \<open>handle_connection\<close> sets the peer.\<close>

definition context_of ::
  "mock_relay_options \<Rightarrow> 's database \<Rightarrow> write_policy \<Rightarrow> query_policy \<Rightarrow> relay_url \<Rightarrow> socket_addr \<Rightarrow> 's connection_context" where
  "context_of opts db wp qp url peer = \<lparr>
     cx_storage = db, cx_write_policy = wp, cx_query_policy = qp, cx_peer = peer, cx_relay_url = url,
     cx_nip42_mode = o_nip42_mode opts, cx_min_pow = o_min_pow opts,
     cx_max_subid_length = o_max_subid_length opts, cx_max_filter_limit = o_max_filter_limit opts,
     cx_max_active_subscriptions = o_max_active_subscriptions opts,
     cx_default_filter_limit = o_default_filter_limit opts, cx_rate_limit = o_rate_limit opts,
     cx_unresponsive = o_unresponsive opts, cx_send_random_events = o_send_random_events opts\<rparr>"

datatype ws_out = OutRelay relay_message | OutPong bytes | OutClose

record ws_sink =
  sk_sent :: "ws_out list"
  sk_left :: "nat option"

record auth_state =
  au_authenticated :: bool
  au_pubkey :: "public_key option"
  au_challenge :: string

record rate_limiter =
  rl_limit :: rate_limit
  rl_window_start :: nat
  rl_notes :: u32
  rl_reqs :: u32

record ('s, 'r) conn =
  cn_store :: 's
  cn_broadcast :: "event list"
  cn_sink :: ws_sink
  cn_subscriptions :: "(subscription_id, nostr_filter list) hash_map"
  cn_neg_sessions :: "(subscription_id, 'r) hash_map"
  cn_auth :: auth_state
  cn_rate :: rate_limiter

text \<open>
  What a frame reads of its surroundings: \<open>Timestamp::now\<close> (or the text of its error), \<open>Instant::now\<close>
  in nanoseconds, the nanoseconds of \<open>SystemTime\<close> for the token (0 before the epoch) and the
  throwaway keys of the fault injection.
\<close>

record env =
  env_now :: "string + timestamp"
  env_instant :: nat
  env_nanos :: nat
  env_keys :: "keys option"

datatype dispatch_error = DispatchError

section \<open>Sending\<close>

definition encode_relay :: "crates \<Rightarrow> sig_text \<Rightarrow> relay_message \<Rightarrow> string" where
  "encode_relay X Y m = json_to_string X (relay_serialize Y m)"

definition sink_send :: "ws_out \<Rightarrow> ws_sink \<Rightarrow> ws_sink \<times> bool" where
  "sink_send m k =
     (case sk_left k of
        None \<Rightarrow> (k\<lparr>sk_sent := sk_sent k @ [m]\<rparr>, True)
      | Some 0 \<Rightarrow> (k, False)
      | Some (Suc n) \<Rightarrow> (k\<lparr>sk_sent := sk_sent k @ [m], sk_left := Some n\<rparr>, True))"

definition send_out :: "ws_out \<Rightarrow> ('s, 'r) conn \<Rightarrow> ('s, 'r) conn \<times> (dispatch_error + unit)" where
  "send_out m c =
     (let k = sink_send m (cn_sink c)
      in (c\<lparr>cn_sink := fst k\<rparr>, if snd k then Inr () else Inl DispatchError))"

definition send_relay :: "relay_message \<Rightarrow> ('s, 'r) conn \<Rightarrow> ('s, 'r) conn \<times> (dispatch_error + unit)" where
  "send_relay m c = send_out (OutRelay m) c"

text \<open>\<open>send(...).await?; rest\<close> and \<open>send(...).await.ok()\<close>.\<close>

definition and_then ::
  "('s, 'r) conn \<times> (dispatch_error + 'a) \<Rightarrow> (('s, 'r) conn \<Rightarrow> 'a \<Rightarrow> ('s, 'r) conn \<times> (dispatch_error + 'b)) \<Rightarrow>
   ('s, 'r) conn \<times> (dispatch_error + 'b)" where
  "and_then r f = (case snd r of Inl e \<Rightarrow> (fst r, Inl e) | Inr x \<Rightarrow> f (fst r) x)"

fun send_all :: "relay_message list \<Rightarrow> ('s, 'r) conn \<Rightarrow> ('s, 'r) conn \<times> (dispatch_error + unit)" where
  "send_all [] c = (c, Inr ())"
| "send_all (m # ms) c = and_then (send_relay m c) (\<lambda>c' _. send_all ms c')"

definition prefixed :: "machine_readable_prefix \<Rightarrow> string \<Rightarrow> string" where
  "prefixed p detail = prefix_as_str p @ '': '' @ detail"

section \<open>Authentication state and rate limiting\<close>

text \<open>\<open>{lo:016x}\<close> of the low 64 bits.\<close>

definition random_hex_token :: "nat \<Rightarrow> string" where
  "random_hex_token nanos =
     concat (map (\<lambda>i. [hex_digit (nanos div 16 ^ i mod 16)]) (rev [0..<16]))"

definition new_challenge :: "env \<Rightarrow> string" where
  "new_challenge v = ''nula-mock-'' @ random_hex_token (env_nanos v)"

definition message_needs_auth :: "client_message \<Rightarrow> nip42_mode \<Rightarrow> bool" where
  "message_needs_auth m mode =
     (case m of
        CEvent _ \<Rightarrow> requires_for_write mode
      | CReq _ _ \<Rightarrow> requires_for_read mode
      | CCount _ _ \<Rightarrow> requires_for_read mode
      | CNegOpen _ _ _ \<Rightarrow> requires_for_read mode
      | _ \<Rightarrow> False)"

definition verify_client_auth ::
  "crates \<Rightarrow> url_crate \<Rightarrow> env \<Rightarrow> event \<Rightarrow> relay_url \<Rightarrow> string \<Rightarrow> string + unit" where
  "verify_client_auth X U v e relay_url challenge =
     res_bind (map_err (\<lambda>err. ''invalid auth event: '' @ event_error_display err) (verify X e)) (\<lambda>_.
     res_bind (map_err (\<lambda>err. ''relay clock unavailable: '' @ err) (env_now v)) (\<lambda>now.
     map_err auth_error_display (verify_auth_event U e relay_url challenge now DEFAULT_MAX_AGE_SECS)))"

definition WINDOW_NANOS :: nat where "WINDOW_NANOS = 60000000000"

definition rate_new :: "rate_limit \<Rightarrow> nat \<Rightarrow> rate_limiter" where
  "rate_new limit now = \<lparr>rl_limit = limit, rl_window_start = now, rl_notes = 0, rl_reqs = 0\<rparr>"

definition rate_roll :: "nat \<Rightarrow> rate_limiter \<Rightarrow> rate_limiter" where
  "rate_roll now r =
     (if now - rl_window_start r \<ge> WINDOW_NANOS
      then r\<lparr>rl_window_start := now, rl_notes := 0, rl_reqs := 0\<rparr> else r)"

definition rate_check :: "nat \<Rightarrow> client_message \<Rightarrow> rate_limiter \<Rightarrow> rate_limiter \<times> relay_message option" where
  "rate_check now m r0 =
     (let r = rate_roll now r0 in
      case m of
        CEvent e \<Rightarrow>
          (case notes_per_minute (rl_limit r) of
             None \<Rightarrow> (r, None)
           | Some mx \<Rightarrow>
               if rl_notes r \<ge> mx
               then (r, Some (ROk (ev_id e) False
                      (prefixed PfxRateLimited (''more than '' @ show_word mx @ '' events per minute''))))
               else (r\<lparr>rl_notes := rl_notes r + 1\<rparr>, None))
      | CReq i _ \<Rightarrow>
          (case reqs_per_minute (rl_limit r) of
             None \<Rightarrow> (r, None)
           | Some mx \<Rightarrow>
               if rl_reqs r \<ge> mx
               then (r, Some (RClosed i
                      (prefixed PfxRateLimited (''more than '' @ show_word mx @ '' REQs per minute''))))
               else (r\<lparr>rl_reqs := rl_reqs r + 1\<rparr>, None))
      | _ \<Rightarrow> (r, None))"

section \<open>Publishing\<close>

definition check_expired :: "env \<Rightarrow> event \<Rightarrow> relay_message option" where
  "check_expired v e =
     (case res_ok (env_now v) of
        None \<Rightarrow> None
      | Some now \<Rightarrow>
          if is_expired e now = Inr True
          then Some (ROk (ev_id e) False (prefixed PfxBlocked ''event is expired''))
          else None)"

definition check_pow :: "event \<Rightarrow> u8 \<Rightarrow> relay_message option" where
  "check_pow e mn =
     (case verify_pow e mn of
        Inl err \<Rightarrow> Some (ROk (ev_id e) False (prefixed PfxPow (pow_error_display err)))
      | Inr _ \<Rightarrow> None)"

definition check_protected ::
  "env \<Rightarrow> event \<Rightarrow> auth_state \<Rightarrow> auth_state \<times> (relay_message option \<times> relay_message) option" where
  "check_protected v e a =
     (let detail = ''this event may only be published by its author'' in
      if \<not> is_protected e \<or> au_pubkey a = Some (ev_pubkey e) then (a, None)
      else if au_pubkey a = None then
        (let a' = (if au_challenge a = [] then a\<lparr>au_challenge := new_challenge v\<rparr> else a)
         in (a', Some (Some (RAuth (au_challenge a')),
                       ROk (ev_id e) False (prefixed PfxAuthRequired detail))))
      else (a, Some (None, ROk (ev_id e) False (prefixed PfxBlocked detail))))"

text \<open>\<open>{reason:?}\<close> of the derived \<open>Debug\<close>.\<close>

primrec rejected_reason_debug :: "rejected_reason \<Rightarrow> string" where
  "rejected_reason_debug rejected_reason.Duplicate = ''Duplicate''"
| "rejected_reason_debug Ephemeral = ''Ephemeral''"
| "rejected_reason_debug Deleted = ''Deleted''"
| "rejected_reason_debug Expired = ''Expired''"
| "rejected_reason_debug Replaced = ''Replaced''"
| "rejected_reason_debug Vanished = ''Vanished''"
| "rejected_reason_debug InvalidDelete = ''InvalidDelete''"

definition save_reply :: "event_id \<Rightarrow> storage_error + save_event_status \<Rightarrow> bool \<times> relay_message" where
  "save_reply i result =
     (case result of
        Inr Success \<Rightarrow> (True, ROk i True [])
      | Inr (Rejected reason) \<Rightarrow>
          if reason = Ephemeral then (True, ROk i True [])
          else (False, ROk i False (prefixed PfxInvalid (rejected_reason_debug reason)))
      | Inl err \<Rightarrow> (False, ROk i False (prefixed PfxError (storage_error_display err))))"

definition handle_event ::
  "'s connection_context \<Rightarrow> env \<Rightarrow> event \<Rightarrow> ('s, 'r) conn \<Rightarrow> ('s, 'r) conn \<times> (dispatch_error + unit)" where
  "handle_event C v e c =
     (case check_expired v e of
        Some m \<Rightarrow> send_relay m c
      | None \<Rightarrow>
     (case Option.bind (cx_min_pow C) (check_pow e) of
        Some m \<Rightarrow> send_relay m c
      | None \<Rightarrow>
     (case check_protected v e (cn_auth c) of
        (a, Some (maybe_auth, m)) \<Rightarrow>
          let c' = c\<lparr>cn_auth := a\<rparr>
          in (case maybe_auth of
                Some auth_msg \<Rightarrow> and_then (send_relay auth_msg c') (\<lambda>c'' _. send_relay m c'')
              | None \<Rightarrow> send_relay m c')
      | (a, None) \<Rightarrow>
     (case cx_write_policy C e (cx_peer C) of
        Reject p msg \<Rightarrow> send_relay (ROk (ev_id e) False (prefixed p msg)) (c\<lparr>cn_auth := a\<rparr>)
      | Accept \<Rightarrow>
          let saved = db_save_event (cx_storage C) e (cn_store c);
              reply = save_reply (ev_id e) (snd saved)
          in and_then (send_relay (snd reply) (c\<lparr>cn_auth := a, cn_store := fst saved\<rparr>)) (\<lambda>c' _.
             (if fst reply then c'\<lparr>cn_broadcast := cn_broadcast c' @ [e]\<rparr> else c', Inr ()))))))"

definition forward_to_subscriptions :: "event \<Rightarrow> ('s, 'r) conn \<Rightarrow> ('s, 'r) conn \<times> (dispatch_error + unit)" where
  "forward_to_subscriptions e c =
     send_all (map (\<lambda>s. REvent (fst s) e)
       (filter (\<lambda>s. list_ex (\<lambda>f. match_event event_matchable f e match_options_new) (snd s))
         (cn_subscriptions c))) c"

section \<open>Subscribing\<close>

definition apply_filter_limits :: "nat option \<Rightarrow> nat option \<Rightarrow> nostr_filter \<Rightarrow> nostr_filter" where
  "apply_filter_limits dflt mx f =
     (let f1 = (case (f_limit f, dflt) of (None, Some d) \<Rightarrow> f\<lparr>f_limit := Some d\<rparr> | _ \<Rightarrow> f)
      in case mx of
           None \<Rightarrow> f1
         | Some m \<Rightarrow> f1\<lparr>f_limit := Some (case f_limit f1 of None \<Rightarrow> m | Some l \<Rightarrow> min l m)\<rparr>)"

fun admit_filters ::
  "'s connection_context \<Rightarrow> nostr_filter list \<Rightarrow> (machine_readable_prefix \<times> string) + nostr_filter list" where
  "admit_filters C [] = Inr []"
| "admit_filters C (f # fs) =
     (case cx_query_policy C f (cx_peer C) of
        (f', Reject p msg) \<Rightarrow> Inl (p, msg)
      | (f', Accept) \<Rightarrow>
          res_bind (admit_filters C fs) (\<lambda>fs'.
          Inr (apply_filter_limits (cx_default_filter_limit C) (cx_max_filter_limit C) f' # fs')))"

text \<open>The loop over the stored matches; \<open>False\<close> is the early return with \<open>CLOSED\<close>.\<close>

fun stream_stored ::
  "'s connection_context \<Rightarrow> subscription_id \<Rightarrow> nostr_filter list \<Rightarrow> ('s, 'r) conn \<Rightarrow>
   ('s, 'r) conn \<times> (dispatch_error + bool)" where
  "stream_stored C i [] c = (c, Inr True)"
| "stream_stored C i (f # fs) c =
     (case db_query (cx_storage C) f (cn_store c) of
        Inl err \<Rightarrow>
          and_then (send_relay (RClosed i (prefixed PfxError (''storage backend error: '' @ storage_error_display err))) c)
            (\<lambda>c' _. (c', Inr False))
      | Inr es \<Rightarrow> and_then (send_all (map (REvent i) es) c) (\<lambda>c' _. stream_stored C i fs c'))"

definition random_events :: "crates \<Rightarrow> env \<Rightarrow> keys \<Rightarrow> u16 \<Rightarrow> event list" where
  "random_events X v ks n =
     List.map_filter (\<lambda>k. res_ok (builder_sign_with_keys X (res_ok (env_now v))
       (builder_text_note (''random-'' @ show_nat k)) ks)) [0..<unat n]"

definition stream_random_events ::
  "crates \<Rightarrow> env \<Rightarrow> subscription_id \<Rightarrow> u16 \<Rightarrow> ('s, 'r) conn \<Rightarrow> ('s, 'r) conn \<times> (dispatch_error + unit)" where
  "stream_random_events X v i n c =
     (case env_keys v of
        None \<Rightarrow> (c, Inl DispatchError)
      | Some ks \<Rightarrow>
          and_then (send_all (map (REvent i) (random_events X v ks n)) c) (\<lambda>c' _.
          send_relay (REndOfStoredEvents i) c'))"

definition subid_too_long :: "'s connection_context \<Rightarrow> subscription_id \<Rightarrow> nat option" where
  "subid_too_long C i =
     (case cx_max_subid_length C of
        Some mx \<Rightarrow> if length i > mx then Some mx else None
      | None \<Rightarrow> None)"

definition too_many_subscriptions ::
  "'s connection_context \<Rightarrow> subscription_id \<Rightarrow> (subscription_id, nostr_filter list) hash_map \<Rightarrow> nat option" where
  "too_many_subscriptions C i subs =
     (case cx_max_active_subscriptions C of
        Some mx \<Rightarrow> if length subs \<ge> mx \<and> map_of subs i = None then Some mx else None
      | None \<Rightarrow> None)"

definition handle_req ::
  "crates \<Rightarrow> 's connection_context \<Rightarrow> env \<Rightarrow> subscription_id \<Rightarrow> nostr_filter list \<Rightarrow> ('s, 'r) conn \<Rightarrow>
   ('s, 'r) conn \<times> (dispatch_error + unit)" where
  "handle_req X C v i filters c =
     (case subid_too_long C i of
        Some mx \<Rightarrow>
          send_relay (RClosed i (prefixed PfxInvalid
            (''subscription id exceeds '' @ show_nat mx @ '' characters''))) c
      | None \<Rightarrow>
     (case too_many_subscriptions C i (cn_subscriptions c) of
        Some mx \<Rightarrow>
          send_relay (RClosed i (prefixed PfxRateLimited
            (''too many concurrent subscriptions (max '' @ show_nat mx @ '')''))) c
      | None \<Rightarrow>
     (case cx_send_random_events C of
        Some n \<Rightarrow> stream_random_events X v i n c
      | None \<Rightarrow>
          if filters = [] then
            send_relay (RClosed i (prefixed PfxInvalid ''REQ requires at least one filter'')) c
          else
     (case admit_filters C filters of
        Inl (p, msg) \<Rightarrow> send_relay (RClosed i (prefixed p msg)) c
      | Inr filters' \<Rightarrow>
          and_then (stream_stored C i filters' c) (\<lambda>c1 through.
          if \<not> through then (c1, Inr ())
          else and_then (send_relay (REndOfStoredEvents i) c1) (\<lambda>c2 _.
            (c2\<lparr>cn_subscriptions := hm_insert i filters' (cn_subscriptions c2)\<rparr>, Inr ())))))))"

section \<open>NIP-77 sessions\<close>

definition send_neg_err ::
  "subscription_id \<Rightarrow> machine_readable_prefix \<Rightarrow> string \<Rightarrow> ('s, 'r) conn \<Rightarrow> ('s, 'r) conn \<times> (dispatch_error + unit)" where
  "send_neg_err i p detail c = send_relay (RNegErr i (prefixed p detail)) c"

definition handle_neg_open ::
  "crates \<Rightarrow> ('v, 'r) negentropy \<Rightarrow> 's connection_context \<Rightarrow> subscription_id \<Rightarrow> nostr_filter \<Rightarrow> string \<Rightarrow>
   ('s, 'r) conn \<Rightarrow> ('s, 'r) conn \<times> (dispatch_error + unit)" where
  "handle_neg_open X N C i f initial c =
     (case subid_too_long C i of
        Some mx \<Rightarrow> send_neg_err i PfxInvalid (''subscription id exceeds '' @ show_nat mx @ '' characters'') c
      | None \<Rightarrow>
          if map_of (cn_neg_sessions c) i \<noteq> None then send_neg_err i PfxDuplicate ''subscription already open'' c
          else
     (case cx_query_policy C f (cx_peer C) of
        (f', Reject p msg) \<Rightarrow> send_neg_err i p msg c
      | (f', Accept) \<Rightarrow>
     (case from_database N (map_err storage_error_display (db_negentropy_items (cx_storage C) f' (cn_store c))) of
        Inl err \<Rightarrow> send_neg_err i PfxError (''storage backend error: '' @ sync_error_display err) c
      | Inr storage \<Rightarrow>
     (case responder_with_defaults N storage of
        Inl err \<Rightarrow> send_neg_err i PfxError (''negentropy init error: '' @ sync_error_display err) c
      | Inr responder \<Rightarrow>
     (case responder_reconcile_hex X N responder initial of
        (_, Inl err) \<Rightarrow> send_neg_err i PfxInvalid (''negentropy reconcile error: '' @ sync_error_display err) c
      | (responder', Inr reply_hex) \<Rightarrow>
          send_relay (RNegMsg i reply_hex)
            (c\<lparr>cn_neg_sessions := hm_insert i responder' (cn_neg_sessions c)\<rparr>))))))"

definition handle_neg_msg ::
  "crates \<Rightarrow> ('v, 'r) negentropy \<Rightarrow> subscription_id \<Rightarrow> string \<Rightarrow> ('s, 'r) conn \<Rightarrow>
   ('s, 'r) conn \<times> (dispatch_error + unit)" where
  "handle_neg_msg X N i message c =
     (case map_of (cn_neg_sessions c) i of
        None \<Rightarrow> send_neg_err i PfxInvalid ''no open NIP-77 session for this subscription id'' c
      | Some responder \<Rightarrow>
     (case responder_reconcile_hex X N responder message of
        (_, Inl err) \<Rightarrow>
          send_neg_err i PfxInvalid (''negentropy reconcile error: '' @ sync_error_display err)
            (c\<lparr>cn_neg_sessions := hm_remove i (cn_neg_sessions c)\<rparr>)
      | (responder', Inr reply_hex) \<Rightarrow>
          send_relay (RNegMsg i reply_hex)
            (c\<lparr>cn_neg_sessions := hm_insert i responder' (cn_neg_sessions c)\<rparr>)))"

section \<open>Dispatch\<close>

definition dispatch ::
  "crates \<Rightarrow> url_crate \<Rightarrow> ('v, 'r) negentropy \<Rightarrow> 's connection_context \<Rightarrow> env \<Rightarrow> client_message \<Rightarrow>
   ('s, 'r) conn \<Rightarrow> ('s, 'r) conn \<times> (dispatch_error + unit)" where
  "dispatch X U N C v msg c =
     (case msg of
        CEvent e \<Rightarrow> handle_event C v e c
      | CReq i fs \<Rightarrow> handle_req X C v i fs c
      | CClose i \<Rightarrow> (c\<lparr>cn_subscriptions := hm_remove i (cn_subscriptions c)\<rparr>, Inr ())
      | CAuth e \<Rightarrow>
          (case verify_client_auth X U v e (cx_relay_url C) (au_challenge (cn_auth c)) of
             Inr _ \<Rightarrow>
               send_relay (ROk (ev_id e) True [])
                 (c\<lparr>cn_auth := (cn_auth c)\<lparr>au_authenticated := True, au_pubkey := Some (ev_pubkey e)\<rparr>\<rparr>)
           | Inl reason \<Rightarrow> send_relay (ROk (ev_id e) False (prefixed PfxRestricted reason)) c)
      | CCount i f \<Rightarrow>
          let matched = (case db_count (cx_storage C) f (cn_store c) of Inr n \<Rightarrow> of_nat n | Inl _ \<Rightarrow> 0)
          in send_relay (RCount i matched) c
      | CNegOpen i f m \<Rightarrow> handle_neg_open X N C i f m c
      | CNegMsg i m \<Rightarrow> handle_neg_msg X N i m c
      | CNegClose i \<Rightarrow> (c\<lparr>cn_neg_sessions := hm_remove i (cn_neg_sessions c)\<rparr>, Inr ()))"

datatype ws_frame =
    WsText string
  | WsBinary bytes
  | WsPing bytes
  | WsPong bytes
  | WsFrame
  | WsClose
  | WsError

datatype control_flow = Continue | Break

record wire_crate =
  wc_json :: "string \<Rightarrow> json option"
  wc_error_text :: "string \<Rightarrow> string"

text \<open>\<open>ClientMessage::from_json\<close>, \<open>None\<close> for an error; its text is \<open>wc_error_text\<close>.\<close>

definition client_from_json :: "crates \<Rightarrow> sig_text \<Rightarrow> wire_crate \<Rightarrow> string \<Rightarrow> client_message option" where
  "client_from_json X Y W text = Option.bind (wc_json W text) (\<lambda>j. res_ok (client_deserialize X Y j))"

definition auth_required_reply :: "client_message \<Rightarrow> relay_message" where
  "auth_required_reply msg =
     (case msg of
        CEvent e \<Rightarrow> ROk (ev_id e) False (prefixed PfxAuthRequired ''authentication required to publish'')
      | CReq i _ \<Rightarrow> RClosed i (prefixed PfxAuthRequired ''authentication required to read'')
      | _ \<Rightarrow> RNotice ''auth-required: this relay requires NIP-42 authentication'')"

definition handle_client_message ::
  "crates \<Rightarrow> url_crate \<Rightarrow> ('v, 'r) negentropy \<Rightarrow> 's connection_context \<Rightarrow> env \<Rightarrow> client_message \<Rightarrow>
   ('s, 'r) conn \<Rightarrow> ('s, 'r) conn \<times> control_flow" where
  "handle_client_message X U N C v msg c =
     (if \<not> au_authenticated (cn_auth c) \<and> message_needs_auth msg (cx_nip42_mode C)
      then (fst (send_relay (auth_required_reply msg) c), Continue)
      else
        (let checked = rate_check (env_instant v) msg (cn_rate c);
             c' = c\<lparr>cn_rate := fst checked\<rparr>
         in case snd checked of
              Some reply \<Rightarrow> (fst (send_relay reply c'), Continue)
            | None \<Rightarrow>
                let r = dispatch X U N C v msg c'
                in (fst r, case snd r of Inl _ \<Rightarrow> Break | Inr _ \<Rightarrow> Continue)))"

definition handle_inbound_frame ::
  "crates \<Rightarrow> sig_text \<Rightarrow> wire_crate \<Rightarrow> url_crate \<Rightarrow> ('v, 'r) negentropy \<Rightarrow> 's connection_context \<Rightarrow> env \<Rightarrow>
   ws_frame option \<Rightarrow> ('s, 'r) conn \<Rightarrow> ('s, 'r) conn \<times> control_flow" where
  "handle_inbound_frame X Y W U N C v frame c =
     (case frame of
        None \<Rightarrow> (c, Break)
      | Some (WsBinary _) \<Rightarrow>
          (fst (send_relay (RNotice ''binary frames are not part of NIP-01'') c), Continue)
      | Some (WsPing payload) \<Rightarrow> (fst (send_out (OutPong payload) c), Continue)
      | Some (WsPong _) \<Rightarrow> (c, Continue)
      | Some WsFrame \<Rightarrow> (c, Continue)
      | Some WsClose \<Rightarrow> (c, Break)
      | Some WsError \<Rightarrow> (c, Break)
      | Some (WsText text) \<Rightarrow>
          if cx_unresponsive C then (c, Continue)
          else
            (case client_from_json X Y W text of
               None \<Rightarrow>
                 (fst (send_relay (RNotice (''invalid client message: '' @ wc_error_text W text)) c), Continue)
             | Some msg \<Rightarrow> handle_client_message X U N C v msg c))"

section \<open>The connection loop\<close>

text \<open>The start of \<open>handle_connection\<close>; the store and the broadcast channel belong to the relay.\<close>

definition conn_start ::
  "'s connection_context \<Rightarrow> env \<Rightarrow> ws_sink \<Rightarrow> 's \<Rightarrow> event list \<Rightarrow> ('s, 'r) conn \<times> control_flow" where
  "conn_start C v sink store published =
     (let enabled = mode_is_enabled (cx_nip42_mode C);
          challenge = (if enabled then new_challenge v else []);
          c = \<lparr>cn_store = store, cn_broadcast = published, cn_sink = sink, cn_subscriptions = [],
               cn_neg_sessions = [],
               cn_auth = \<lparr>au_authenticated = \<not> enabled, au_pubkey = None, au_challenge = challenge\<rparr>,
               cn_rate = rate_new (cx_rate_limit C) (env_instant v)\<rparr>
      in if enabled then
           (let r = send_relay (RAuth challenge) c
            in (fst r, case snd r of Inl _ \<Rightarrow> Break | Inr _ \<Rightarrow> Continue))
         else (c, Continue))"

text \<open>
  What the \<open>select!\<close> of the loop can take next: the shutdown signal, an item of the broadcast
  channel (\<open>None\<close> when the receiver lagged or the channel closed), or a frame.
\<close>

datatype conn_input = Shutdown | LiveEvent "event option" | Inbound env "ws_frame option"

definition conn_step ::
  "crates \<Rightarrow> sig_text \<Rightarrow> wire_crate \<Rightarrow> url_crate \<Rightarrow> ('v, 'r) negentropy \<Rightarrow> 's connection_context \<Rightarrow>
   conn_input \<Rightarrow> ('s, 'r) conn \<Rightarrow> ('s, 'r) conn \<times> control_flow" where
  "conn_step X Y W U N C inp c =
     (case inp of
        Shutdown \<Rightarrow> (fst (send_out OutClose c), Break)
      | LiveEvent None \<Rightarrow> (c, Continue)
      | LiveEvent (Some e) \<Rightarrow>
          (let r = forward_to_subscriptions e c
           in (fst r, case snd r of Inl _ \<Rightarrow> Break | Inr _ \<Rightarrow> Continue))
      | Inbound v frame \<Rightarrow> handle_inbound_frame X Y W U N C v frame c)"

text \<open>
  A run of the loop: it stops after the first input that breaks it. Between two inputs other
  connections may change the store and publish events.
\<close>

inductive conn_reachable ::
  "crates \<Rightarrow> sig_text \<Rightarrow> wire_crate \<Rightarrow> url_crate \<Rightarrow> ('v, 'r) negentropy \<Rightarrow> 's connection_context \<Rightarrow>
   ('s, 'r) conn \<Rightarrow> conn_input list \<Rightarrow> ('s, 'r) conn \<Rightarrow> control_flow \<Rightarrow> bool"
  for X Y W U N C c0 where
  run_start: "conn_reachable X Y W U N C c0 [] c0 Continue"
| run_step: "conn_reachable X Y W U N C c0 is c Continue \<Longrightarrow> conn_step X Y W U N C i c = (c', fl) \<Longrightarrow>
    conn_reachable X Y W U N C c0 (is @ [i]) c' fl"
| run_other: "conn_reachable X Y W U N C c0 is c Continue \<Longrightarrow>
    conn_reachable X Y W U N C c0 is (c\<lparr>cn_store := s', cn_broadcast := b'\<rparr>) Continue"

end
