(* ===== verification/Relay_Invariant.thy ===== *)
theory Relay_Invariant
  imports Relay_Connection
begin

text \<open>
  What every handler of a connection keeps: the frame of each handler (which fields it may
  change), the invariant \<open>conn_inv\<close> of the reachable connections, and where messages, stored events
  and authenticated keys come from.
\<close>

section \<open>Frames\<close>

text \<open>\<open>sink_only c c'\<close>: the two states differ at most in what was sent.\<close>

definition sink_only :: "('s, 'r) conn \<Rightarrow> ('s, 'r) conn \<Rightarrow> bool" where
  "sink_only c c' \<longleftrightarrow> c' = c\<lparr>cn_sink := cn_sink c'\<rparr>"

lemma sink_only_refl [simp]: "sink_only c c"
  by (simp add: sink_only_def)

lemma sink_only_trans: "sink_only a b \<Longrightarrow> sink_only b c \<Longrightarrow> sink_only a c"
  unfolding sink_only_def by (cases a; cases b; cases c) simp

lemma sink_only_fields:
  assumes "sink_only c c'"
  shows "cn_store c' = cn_store c" "cn_broadcast c' = cn_broadcast c"
    "cn_subscriptions c' = cn_subscriptions c" "cn_neg_sessions c' = cn_neg_sessions c"
    "cn_auth c' = cn_auth c" "cn_rate c' = cn_rate c"
  using assms unfolding sink_only_def by (cases c; cases c'; simp)+

text \<open>The messages a step adds to the sink.\<close>

definition sends :: "relay_message list \<Rightarrow> ('s, 'r) conn \<Rightarrow> ('s, 'r) conn \<Rightarrow> bool" where
  "sends ms c c' \<longleftrightarrow> sink_only c c' \<and>
     (\<exists>n. sk_sent (cn_sink c') = sk_sent (cn_sink c) @ map OutRelay (take n ms))"

definition sends_exactly :: "relay_message list \<Rightarrow> ('s, 'r) conn \<Rightarrow> ('s, 'r) conn \<Rightarrow> bool" where
  "sends_exactly ms c c' \<longleftrightarrow> sink_only c c' \<and>
     sk_sent (cn_sink c') = sk_sent (cn_sink c) @ map OutRelay ms"

lemma sends_exactly_sends: "sends_exactly ms c c' \<Longrightarrow> sends ms c c'"
  unfolding sends_exactly_def sends_def by (metis take_all order_refl)

lemma send_out_sink: "sink_only c (fst (send_out m c))"
  by (simp add: send_out_def sink_only_def Let_def)

lemma send_relay_sends:
  assumes "send_relay m c = (c', r)"
  shows "sends [m] c c'" and "r = Inr () \<Longrightarrow> sends_exactly [m] c c'" and "r \<noteq> Inr () \<Longrightarrow> c' = c"
proof -
  show "r \<noteq> Inr () \<Longrightarrow> c' = c"
    using assms by (auto simp: send_relay_def send_out_def sink_send_def Let_def split: option.splits nat.splits if_splits)
  have sink: "sink_only c c'" using send_out_sink [of c "OutRelay m"] assms by (simp add: send_relay_def)
  show "r = Inr () \<Longrightarrow> sends_exactly [m] c c'"
    using assms sink by (auto simp: send_relay_def send_out_def sink_send_def Let_def sends_exactly_def
        split: option.splits nat.splits if_splits)
  have "c' = c \<or> sk_sent (cn_sink c') = sk_sent (cn_sink c) @ [OutRelay m]"
    using assms by (auto simp: send_relay_def send_out_def sink_send_def Let_def
        split: option.splits nat.splits if_splits)
  then show "sends [m] c c'"
    using sink unfolding sends_def
    by (metis append.right_neutral list.simps(8) list.simps(9) take0 take_Suc_Cons)
qed

lemma and_then_cases:
  assumes "and_then p f = (c', r)"
  obtains (err) e where "snd p = Inl e" and "c' = fst p" and "r = Inl e"
  | (ok) x where "snd p = Inr x" and "f (fst p) x = (c', r)"
  using assms by (cases "snd p") (auto simp: and_then_def)

lemma sends_append:
  assumes "sends_exactly ms a b" and "sends ns b c"
  shows "sends (ms @ ns) a c"
proof -
  obtain n where "sk_sent (cn_sink c) = sk_sent (cn_sink b) @ map OutRelay (take n ns)"
    using assms(2) by (auto simp: sends_def)
  then have "sk_sent (cn_sink c) = sk_sent (cn_sink a) @ map OutRelay (take (length ms + n) (ms @ ns))"
    using assms(1) by (simp add: sends_exactly_def)
  then show ?thesis
    using assms sink_only_trans unfolding sends_def sends_exactly_def by blast
qed

lemma sends_exactly_append:
  "sends_exactly ms a b \<Longrightarrow> sends_exactly ns b c \<Longrightarrow> sends_exactly (ms @ ns) a c"
  using sink_only_trans unfolding sends_exactly_def by fastforce

lemma sends_prefix:
  assumes "sends ms a b"
  shows "sends (ms @ ns) a b"
proof -
  obtain n where n: "sk_sent (cn_sink b) = sk_sent (cn_sink a) @ map OutRelay (take n ms)" using assms by (auto simp: sends_def)
  have "take n ms = take (min n (length ms)) (ms @ ns)" by (simp add: min_def)
  with n assms show ?thesis unfolding sends_def by metis
qed

lemma send_all_sends:
  assumes "send_all ms c = (c', r)"
  shows "sends ms c c'" and "r = Inr () \<Longrightarrow> sends_exactly ms c c'"
proof -
  have "sends ms c c' \<and> (r = Inr () \<longrightarrow> sends_exactly ms c c')"
    using assms
  proof (induction ms arbitrary: c)
    case Nil
    then show ?case by (simp add: sends_def sends_exactly_def)
  next
    case (Cons m ms)
    obtain d q where d: "send_relay m c = (d, q)" by (cases "send_relay m c")
    from Cons.prems have "and_then (send_relay m c) (\<lambda>c' _. send_all ms c') = (c', r)" by simp
    then show ?case
    proof (cases rule: and_then_cases)
      case (err e)
      then show ?thesis
        using send_relay_sends(1) [OF d] sends_prefix [of "[m]" c c' ms] d by simp
    next
      case (ok x)
      then have "sends_exactly [m] c d" using send_relay_sends(2) [OF d] d by simp
      with Cons.IH [of d] ok d sends_append [of "[m]" c d ms c'] sends_exactly_append [of "[m]" c d ms c']
      show ?thesis by simp
    qed
  qed
  then show "sends ms c c'" "r = Inr () \<Longrightarrow> sends_exactly ms c c'" by auto
qed

lemma sends_new:
  assumes "sends ms c c'" and "OutRelay m \<in> set (sk_sent (cn_sink c'))"
  shows "OutRelay m \<in> set (sk_sent (cn_sink c)) \<or> m \<in> set ms"
  using assms by (auto simp: sends_def dest: in_set_takeD)

section \<open>Publishing\<close>

text \<open>The gates an event passes before it reaches the store.\<close>

definition event_admitted :: "'s connection_context \<Rightarrow> env \<Rightarrow> auth_state \<Rightarrow> event \<Rightarrow> bool" where
  "event_admitted C v a e \<longleftrightarrow>
     check_expired v e = None \<and> Option.bind (cx_min_pow C) (check_pow e) = None \<and>
     (is_protected e \<longrightarrow> au_pubkey a = Some (ev_pubkey e)) \<and> cx_write_policy C e (cx_peer C) = Accept"

text \<open>A connection may make up its challenge late, for a protected event.\<close>

definition auth_kept :: "auth_state \<Rightarrow> auth_state \<Rightarrow> bool" where
  "auth_kept a a' \<longleftrightarrow> au_authenticated a' = au_authenticated a \<and> au_pubkey a' = au_pubkey a \<and>
     (au_challenge a \<noteq> [] \<longrightarrow> au_challenge a' = au_challenge a)"

lemma auth_kept_refl [simp]: "auth_kept a a"
  by (simp add: auth_kept_def)

definition is_publish_reply :: "event_id \<Rightarrow> relay_message \<Rightarrow> bool" where
  "is_publish_reply i m \<longleftrightarrow> (\<exists>b t. m = ROk i b t) \<or> (\<exists>ch. m = RAuth ch)"

lemma check_expired_reply: "check_expired v e = Some m \<Longrightarrow> is_publish_reply (ev_id e) m"
  by (auto simp: check_expired_def is_publish_reply_def split: option.splits if_splits)

lemma check_pow_reply: "Option.bind mn (check_pow e) = Some m \<Longrightarrow> is_publish_reply (ev_id e) m"
proof -
  assume "Option.bind mn (check_pow e) = Some m"
  then obtain d where "check_pow e d = Some m" by (auto simp: bind_eq_Some_conv)
  then show ?thesis
    by (cases "verify_pow e d") (auto simp: check_pow_def is_publish_reply_def)
qed

lemma save_reply_reply: "is_publish_reply i (snd (save_reply i r))"
  by (auto simp: save_reply_def is_publish_reply_def split: sum.splits save_event_status.splits)

lemma check_protected_cases:
  "check_protected v e a = (a', Some (auth, m)) \<Longrightarrow>
     auth_kept a a' \<and> is_protected e \<and> au_pubkey a \<noteq> Some (ev_pubkey e) \<and>
     is_publish_reply (ev_id e) m \<and> opt_all (is_publish_reply (ev_id e)) auth"
  "check_protected v e a = (a', None) \<Longrightarrow> a' = a \<and> (is_protected e \<longrightarrow> au_pubkey a = Some (ev_pubkey e))"
  by (auto simp: check_protected_def auth_kept_def is_publish_reply_def Let_def split: if_splits)

text \<open>What a refused event leaves behind: replies, and perhaps a challenge.\<close>

definition refused :: "event \<Rightarrow> ('s, 'r) conn \<Rightarrow> ('s, 'r) conn \<Rightarrow> bool" where
  "refused e c c' \<longleftrightarrow>
     (\<exists>a ms. auth_kept (cn_auth c) a \<and> list_all (is_publish_reply (ev_id e)) ms \<and> sends ms (c\<lparr>cn_auth := a\<rparr>) c')"

lemma refused_send:
  assumes "send_relay m (c\<lparr>cn_auth := a\<rparr>) = (c', r)" and "auth_kept (cn_auth c) a"
    and "is_publish_reply (ev_id e) m"
  shows "refused e c c'"
  using send_relay_sends(1) [OF assms(1)] assms(2,3) unfolding refused_def
  by (intro exI [of _ a] exI [of _ "[m]"]) simp

lemma refused_send_here:
  assumes "send_relay m c = (c', r)" and "is_publish_reply (ev_id e) m"
  shows "refused e c c'"
  using refused_send [where m = m and c = c and a = "cn_auth c" and c' = c' and r = r and e = e] assms by simp

text \<open>What an admitted event does: it is saved, the publisher is answered, and an accepted event
  goes out on the channel once the answer was sent.\<close>

definition published :: "'s connection_context \<Rightarrow> event \<Rightarrow> ('s, 'r) conn \<Rightarrow> ('s, 'r) conn \<Rightarrow> dispatch_error + unit \<Rightarrow> bool" where
  "published C e c c' r \<longleftrightarrow>
     (let saved = db_save_event (cx_storage C) e (cn_store c);
          reply = save_reply (ev_id e) (snd saved);
          b = (if r = Inr () \<and> fst reply then [e] else [])
      in (\<exists>d. sends [snd reply] (c\<lparr>cn_store := fst saved\<rparr>) d \<and>
           (r = Inr () \<longrightarrow> sends_exactly [snd reply] (c\<lparr>cn_store := fst saved\<rparr>) d) \<and>
           (r \<noteq> Inr () \<longrightarrow> d = c\<lparr>cn_store := fst saved\<rparr>) \<and>
           c' = d\<lparr>cn_broadcast := cn_broadcast c @ b\<rparr>))"

lemma handle_event_cases:
  assumes "handle_event C v e c = (c', r)"
  shows "if event_admitted C v (cn_auth c) e then published C e c c' r else refused e c c'"
proof (cases "check_expired v e")
  case (Some m)
  with assms show ?thesis
    by (simp add: handle_event_def event_admitted_def refused_send_here check_expired_reply)
next
  case fresh: None
  show ?thesis
  proof (cases "Option.bind (cx_min_pow C) (check_pow e)")
    case (Some m)
    with assms fresh show ?thesis
      by (simp add: handle_event_def event_admitted_def refused_send_here check_pow_reply)
  next
    case pow: None
    obtain a chk where chk: "check_protected v e (cn_auth c) = (a, chk)" by (cases "check_protected v e (cn_auth c)")
    show ?thesis
    proof (cases chk)
      case (Some am)
      obtain auth m where am: "am = (auth, m)" by (cases am)
      note facts = check_protected_cases(1) [OF chk [unfolded Some am]]
      have "refused e c c'"
      proof (cases auth)
        case None
        with assms fresh pow chk Some am facts show ?thesis
          by (simp add: handle_event_def Let_def refused_send [where m = m and c = c and a = a and c' = c' and r = r and e = e])
      next
        case (Some n)
        with assms fresh pow chk \<open>chk = Some am\<close> am
        have "and_then (send_relay n (c\<lparr>cn_auth := a\<rparr>)) (\<lambda>c'' _. send_relay m c'') = (c', r)"
          by (simp add: handle_event_def Let_def)
        moreover obtain d q where d: "send_relay n (c\<lparr>cn_auth := a\<rparr>) = (d, q)"
          by (cases "send_relay n (c\<lparr>cn_auth := a\<rparr>)")
        ultimately have "sends [n, m] (c\<lparr>cn_auth := a\<rparr>) c'"
        proof (cases rule: and_then_cases)
          case (err x)
          then show ?thesis using send_relay_sends(1) [OF d] sends_prefix [of "[n]" _ _ "[m]"] d by simp
        next
          case (ok x)
          then show ?thesis
            using send_relay_sends(2) [OF d] send_relay_sends(1) [of m d c' r] d
              sends_append [of "[n]" _ d "[m]" c'] by simp
        qed
        with facts Some show ?thesis
          unfolding refused_def by (intro exI [of _ a] exI [of _ "[n, m]"]) simp
      qed
      with facts show ?thesis by (auto simp: event_admitted_def)
    next
      case None
      note facts = check_protected_cases(2) [OF chk [unfolded None]]
      show ?thesis
      proof (cases "cx_write_policy C e (cx_peer C)")
        case (Reject p t)
        with assms fresh pow chk None facts have "send_relay (ROk (ev_id e) False (prefixed p t)) c = (c', r)"
          by (simp add: handle_event_def)
        then have "refused e c c'" by (rule refused_send_here) (unfold is_publish_reply_def, blast)
        with Reject show ?thesis by (simp add: event_admitted_def)
      next
        case Accept
        let ?s = "db_save_event (cx_storage C) e (cn_store c)"
        let ?reply = "save_reply (ev_id e) (snd ?s)"
        obtain d q where d: "send_relay (snd ?reply) (c\<lparr>cn_store := fst ?s\<rparr>) = (d, q)"
          by (cases "send_relay (snd ?reply) (c\<lparr>cn_store := fst ?s\<rparr>)")
        from assms fresh pow chk None facts Accept
        have "and_then (send_relay (snd ?reply) (c\<lparr>cn_store := fst ?s\<rparr>))
          (\<lambda>c' _. (if fst ?reply then c'\<lparr>cn_broadcast := cn_broadcast c' @ [e]\<rparr> else c', Inr ())) = (c', r)"
          by (simp add: handle_event_def Let_def)
        then have "published C e c c' r"
        proof (cases rule: and_then_cases)
          case (err x)
          have "cn_broadcast d = cn_broadcast c"
            using send_relay_sends(1) [OF d] sink_only_fields(2) by (fastforce simp: sends_def)
          with err d send_relay_sends [OF d] show ?thesis
            unfolding published_def Let_def by (intro exI [of _ d]) simp
        next
          case (ok x)
          have "cn_broadcast d = cn_broadcast c"
            using send_relay_sends(1) [OF d] sink_only_fields(2) by (fastforce simp: sends_def)
          with ok d send_relay_sends [OF d] show ?thesis
            unfolding published_def Let_def by (intro exI [of _ d]) (auto split: if_splits)
        qed
        with fresh pow facts Accept show ?thesis by (simp add: event_admitted_def)
      qed
    qed
  qed
qed

section \<open>Subscribing\<close>

lemma stream_stored_spec:
  assumes "stream_stored C i fs c = (c', r)"
  shows "sink_only c c'"
    and "r = Inr True \<Longrightarrow> \<exists>ess. map (\<lambda>f. db_query (cx_storage C) f (cn_store c)) fs = map Inr ess \<and>
      sends_exactly (concat (map (map (REvent i)) ess)) c c'"
proof -
  have "sink_only c c' \<and> (r = Inr True \<longrightarrow>
      (\<exists>ess. map (\<lambda>f. db_query (cx_storage C) f (cn_store c)) fs = map Inr ess \<and>
        sends_exactly (concat (map (map (REvent i)) ess)) c c'))"
    using assms
  proof (induction fs arbitrary: c)
    case Nil
    then show ?case by (auto simp: sends_exactly_def)
  next
    case (Cons f fs)
    show ?case
    proof (cases "db_query (cx_storage C) f (cn_store c)")
      case (Inl err)
      then obtain m where m: "stream_stored C i (f # fs) c = and_then (send_relay m c) (\<lambda>c' _. (c', Inr False))"
        by simp
      obtain d q where d: "send_relay m c = (d, q)" by (cases "send_relay m c")
      from Cons.prems m have "and_then (send_relay m c) (\<lambda>c' _. (c', Inr False)) = (c', r)" by simp
      then have "c' = d \<and> r \<noteq> Inr True" by (cases rule: and_then_cases) (auto simp: d)
      then show ?thesis using send_relay_sends(1) [OF d] by (simp add: sends_def)
    next
      case (Inr es)
      obtain d q where d: "send_all (map (REvent i) es) c = (d, q)" by (cases "send_all (map (REvent i) es) c")
      from Cons.prems Inr
      have "and_then (send_all (map (REvent i) es) c) (\<lambda>c' _. stream_stored C i fs c') = (c', r)" by simp
      then show ?thesis
      proof (cases rule: and_then_cases)
        case (err x)
        then show ?thesis using send_all_sends(1) [OF d] d by (simp add: sends_def)
      next
        case (ok x)
        have dx: "sends_exactly (map (REvent i) es) c d" using send_all_sends(2) [OF d] ok d by simp
        then have st: "cn_store d = cn_store c" by (simp add: sends_exactly_def sink_only_fields)
        from Cons.IH [of d] ok d have IH: "sink_only d c'"
          "r = Inr True \<Longrightarrow> \<exists>ess. map (\<lambda>f. db_query (cx_storage C) f (cn_store c)) fs = map Inr ess \<and>
            sends_exactly (concat (map (map (REvent i)) ess)) d c'" by (auto simp: st)
        have "sink_only c c'" using dx IH(1) sink_only_trans by (auto simp: sends_exactly_def)
        moreover have "\<exists>ess. map (\<lambda>f. db_query (cx_storage C) f (cn_store c)) (f # fs) = map Inr ess \<and>
            sends_exactly (concat (map (map (REvent i)) ess)) c c'" if "r = Inr True"
        proof -
          from IH(2) [OF that] obtain ess where ess: "map (\<lambda>f. db_query (cx_storage C) f (cn_store c)) fs = map Inr ess"
            "sends_exactly (concat (map (map (REvent i)) ess)) d c'" by blast
          show ?thesis
            using ess(1) Inr sends_exactly_append [OF dx ess(2)] by (intro exI [of _ "es # ess"]) simp
        qed
        ultimately show ?thesis by blast
      qed
    qed
  qed
  then show "sink_only c c'"
    and "r = Inr True \<Longrightarrow> \<exists>ess. map (\<lambda>f. db_query (cx_storage C) f (cn_store c)) fs = map Inr ess \<and>
      sends_exactly (concat (map (map (REvent i)) ess)) c c'" by auto
qed

lemma send_relay_frame: "send_relay m c = (c', r) \<Longrightarrow> sink_only c c'"
  using send_relay_sends(1) by (auto simp: sends_def)

lemma stream_random_frame: "stream_random_events X v i n c = (c', r) \<Longrightarrow> sink_only c c'"
proof (cases "env_keys v")
  case (Some ks)
  assume "stream_random_events X v i n c = (c', r)"
  with Some have "and_then (send_all (map (REvent i) (random_events X v ks n)) c)
      (\<lambda>c' _. send_relay (REndOfStoredEvents i) c') = (c', r)" by (simp add: stream_random_events_def)
  then show ?thesis
  proof (cases rule: and_then_cases)
    case (err x)
    then show ?thesis
      using send_all_sends(1) [of "map (REvent i) (random_events X v ks n)" c] by (metis prod.collapse sends_def)
  next
    case (ok x)
    then show ?thesis
      using send_all_sends(1) [of "map (REvent i) (random_events X v ks n)" c] send_relay_frame sink_only_trans
      by (metis prod.collapse sends_def)
  qed
qed (simp add: stream_random_events_def)

text \<open>A request that is not served leaves the subscriptions; one that is served stores the admitted
  filters after the matches of each were sent.\<close>

definition req_open ::
  "'s connection_context \<Rightarrow> subscription_id \<Rightarrow> nostr_filter list \<Rightarrow> ('s, 'r) conn \<Rightarrow> bool" where
  "req_open C i fs c \<longleftrightarrow> subid_too_long C i = None \<and> too_many_subscriptions C i (cn_subscriptions c) = None \<and>
     cx_send_random_events C = None \<and> fs \<noteq> []"

lemma handle_req_cases:
  assumes "handle_req X C v i fs c = (c', r)"
  obtains (closed) "sink_only c c'"
  | (served) fs' ess d where "req_open C i fs c" and "admit_filters C fs = Inr fs'"
      and "map (\<lambda>f. db_query (cx_storage C) f (cn_store c)) fs' = map Inr ess"
      and "sends_exactly (concat (map (map (REvent i)) ess) @ [REndOfStoredEvents i]) c d"
      and "c' = d\<lparr>cn_subscriptions := hm_insert i fs' (cn_subscriptions c)\<rparr>" and "r = Inr ()"
proof (cases "req_open C i fs c")
  case False
  then have "sink_only c c'"
    using assms send_relay_frame stream_random_frame
    by (auto simp: handle_req_def req_open_def split: option.split_asm) blast+
  then show ?thesis by (rule closed)
next
  case True
  show ?thesis
  proof (cases "admit_filters C fs")
    case (Inl pm)
    with True assms have "sink_only c c'"
      using send_relay_frame by (cases pm) (auto simp: handle_req_def req_open_def)
    then show ?thesis by (rule closed)
  next
    case (Inr fs')
    obtain d1 q1 where d1: "stream_stored C i fs' c = (d1, q1)" by (cases "stream_stored C i fs' c")
    from True Inr assms have "and_then (stream_stored C i fs' c) (\<lambda>c1 through.
          if \<not> through then (c1, Inr ())
          else and_then (send_relay (REndOfStoredEvents i) c1) (\<lambda>c2 _.
            (c2\<lparr>cn_subscriptions := hm_insert i fs' (cn_subscriptions c2)\<rparr>, Inr ()))) = (c', r)"
      by (simp add: handle_req_def req_open_def)
    then show ?thesis
    proof (cases rule: and_then_cases)
      case (err x)
      then show ?thesis using closed stream_stored_spec(1) [OF d1] d1 by simp
    next
      case (ok x)
      show ?thesis
      proof (cases x)
        case False
        with ok show ?thesis using closed stream_stored_spec(1) [OF d1] d1 by simp
      next
        case True
        then obtain ess where ess: "map (\<lambda>f. db_query (cx_storage C) f (cn_store c)) fs' = map Inr ess"
          "sends_exactly (concat (map (map (REvent i)) ess)) c d1"
          using stream_stored_spec(2) [OF d1] ok d1 by auto
        obtain d2 q2 where d2: "send_relay (REndOfStoredEvents i) d1 = (d2, q2)"
          by (cases "send_relay (REndOfStoredEvents i) d1")
        from ok True d1 have "and_then (send_relay (REndOfStoredEvents i) d1) (\<lambda>c2 _.
            (c2\<lparr>cn_subscriptions := hm_insert i fs' (cn_subscriptions c2)\<rparr>, Inr ())) = (c', r)" by simp
        then show ?thesis
        proof (cases rule: and_then_cases)
          case (err y)
          then show ?thesis
            using closed ess(2) send_relay_frame [OF d2] d2 sink_only_trans
            by (fastforce simp: sends_exactly_def)
        next
          case (ok y)
          then have ex: "sends_exactly (concat (map (map (REvent i)) ess) @ [REndOfStoredEvents i]) c d2"
            using sends_exactly_append [OF ess(2)] send_relay_sends(2) [OF d2] d2 by simp
          then have "cn_subscriptions d2 = cn_subscriptions c"
            by (simp add: sends_exactly_def sink_only_fields)
          with ok d2 have "c' = d2\<lparr>cn_subscriptions := hm_insert i fs' (cn_subscriptions c)\<rparr>" "r = Inr ()" by auto
          then show ?thesis using served [OF _ Inr ess(1) ex] \<open>req_open C i fs c\<close> by blast
        qed
      qed
    qed
  qed
qed

section \<open>NIP-77 sessions\<close>

definition neg_only :: "('s, 'r) conn \<Rightarrow> ('s, 'r) conn \<Rightarrow> bool" where
  "neg_only c c' \<longleftrightarrow> c' = c\<lparr>cn_sink := cn_sink c', cn_neg_sessions := cn_neg_sessions c'\<rparr> \<and>
     (hm_invar (cn_neg_sessions c) \<longrightarrow> hm_invar (cn_neg_sessions c'))"

lemma neg_only_fields:
  assumes "neg_only c c'"
  shows "cn_store c' = cn_store c" "cn_broadcast c' = cn_broadcast c"
    "cn_subscriptions c' = cn_subscriptions c" "cn_auth c' = cn_auth c" "cn_rate c' = cn_rate c"
  using assms unfolding neg_only_def by (cases c; cases c'; simp)+

lemma sink_neg_only: "sink_only c c' \<Longrightarrow> neg_only c c'"
  unfolding sink_only_def neg_only_def by (cases c; cases c') simp

lemma send_relay_neg:
  assumes "send_relay m (c\<lparr>cn_neg_sessions := ns\<rparr>) = (c', r)" and "hm_invar (cn_neg_sessions c) \<longrightarrow> hm_invar ns"
  shows "neg_only c c'"
  using send_relay_frame [OF assms(1)] assms(2) unfolding sink_only_def neg_only_def
  by (cases c; cases c') simp

lemma send_neg_err_frame: "send_neg_err i p t c = (c', r) \<Longrightarrow> neg_only c c'"
  unfolding send_neg_err_def using send_relay_frame sink_neg_only by blast

lemma handle_neg_open_frame:
  assumes "handle_neg_open X N C i f m c = (c', r)"
  shows "neg_only c c'"
  using assms unfolding handle_neg_open_def
  by (auto split: option.split_asm if_split_asm prod.split_asm admit_verdict.split_asm sum.split_asm
      intro: send_neg_err_frame send_relay_neg hm.invar_ins)

lemma handle_neg_msg_frame:
  assumes "handle_neg_msg X N i m c = (c', r)"
  shows "neg_only c c'"
  using assms unfolding handle_neg_msg_def send_neg_err_def
  by (auto split: option.split_asm prod.split_asm sum.split_asm
      intro: sink_neg_only send_relay_frame send_relay_neg hm.invar_ins hm.invar_del)

lemma handle_neg_msg_none:
  "cn_neg_sessions c = [] \<Longrightarrow> handle_neg_msg X N i m c =
     send_relay (RNegErr i (prefixed PfxInvalid ''no open NIP-77 session for this subscription id'')) c"
  by (simp add: handle_neg_msg_def send_neg_err_def)

section \<open>The invariant\<close>

text \<open>Every filter of a subscription carries a limit within the relay's bounds.\<close>

definition limit_ok :: "'s connection_context \<Rightarrow> nostr_filter \<Rightarrow> bool" where
  "limit_ok C f \<longleftrightarrow>
     opt_all (\<lambda>m. \<exists>l. f_limit f = Some l \<and> l \<le> m) (cx_max_filter_limit C) \<and>
     (cx_default_filter_limit C \<noteq> None \<longrightarrow> f_limit f \<noteq> None)"

definition sub_ok :: "'s connection_context \<Rightarrow> subscription_id \<Rightarrow> nostr_filter list \<Rightarrow> bool" where
  "sub_ok C i fs \<longleftrightarrow> fs \<noteq> [] \<and> opt_all (\<lambda>m. length i \<le> m) (cx_max_subid_length C) \<and> list_all (limit_ok C) fs"

definition auth_ok :: "'s connection_context \<Rightarrow> auth_state \<Rightarrow> bool" where
  "auth_ok C a \<longleftrightarrow>
     (au_pubkey a \<noteq> None \<longrightarrow> au_authenticated a) \<and>
     (au_authenticated a \<longrightarrow> \<not> mode_is_enabled (cx_nip42_mode C) \<or> au_pubkey a \<noteq> None) \<and>
     (mode_is_enabled (cx_nip42_mode C) \<longrightarrow> au_challenge a \<noteq> [])"

definition rate_ok :: "'s connection_context \<Rightarrow> rate_limiter \<Rightarrow> bool" where
  "rate_ok C r \<longleftrightarrow> rl_limit r = cx_rate_limit C \<and>
     opt_all (\<lambda>m. rl_notes r \<le> m) (notes_per_minute (cx_rate_limit C)) \<and>
     opt_all (\<lambda>m. rl_reqs r \<le> m) (reqs_per_minute (cx_rate_limit C))"

definition conn_inv :: "'s connection_context \<Rightarrow> ('s, 'r) conn \<Rightarrow> bool" where
  [inv_simps]: "conn_inv C c \<longleftrightarrow>
     hm_invar (cn_subscriptions c) \<and> hm_invar (cn_neg_sessions c) \<and>
     opt_all (\<lambda>m. length (cn_subscriptions c) \<le> m) (cx_max_active_subscriptions C) \<and>
     (\<forall>i fs. map_of (cn_subscriptions c) i = Some fs \<longrightarrow> sub_ok C i fs) \<and>
     auth_ok C (cn_auth c) \<and> rate_ok C (cn_rate c) \<and>
     (requires_for_read (cx_nip42_mode C) \<and> \<not> au_authenticated (cn_auth c) \<longrightarrow>
        cn_subscriptions c = [] \<and> cn_neg_sessions c = [])"

lemma apply_filter_limits_ok: "limit_ok C (apply_filter_limits (cx_default_filter_limit C) (cx_max_filter_limit C) f)"
  by (cases "cx_max_filter_limit C")
    (auto simp: limit_ok_def apply_filter_limits_def Let_def split: option.splits)

lemma admit_filters_ok: "admit_filters C fs = Inr fs' \<Longrightarrow> length fs' = length fs \<and> list_all (limit_ok C) fs'"
  by (induction fs arbitrary: fs')
    (auto simp: res_bind_Inr_iff apply_filter_limits_ok split: prod.splits admit_verdict.splits)

lemma rate_roll_ok: "rate_ok C r \<Longrightarrow> rate_ok C (rate_roll now r)"
  by (cases "notes_per_minute (cx_rate_limit C)"; cases "reqs_per_minute (cx_rate_limit C)")
    (simp_all add: rate_ok_def rate_roll_def)

lemma word_inc_le: "(a :: 'a::len word) < b \<Longrightarrow> a + 1 \<le> b"
  by (rule inc_le)

lemma rate_check_ok: "rate_ok C r \<Longrightarrow> rate_ok C (fst (rate_check now m r))"
proof -
  assume "rate_ok C r"
  then have "rate_ok C (rate_roll now r)" by (rule rate_roll_ok)
  then show ?thesis
    by (auto simp: rate_check_def rate_ok_def Let_def not_le word_inc_le
        split: client_message.split option.split)
qed

text \<open>Neither a reply nor a late challenge touches what the invariant speaks of.\<close>

lemma conn_inv_frame:
  assumes "conn_inv C c" and "cn_subscriptions c' = cn_subscriptions c"
    and "cn_neg_sessions c' = cn_neg_sessions c" and "auth_kept (cn_auth c) (cn_auth c')"
    and "cn_rate c' = cn_rate c"
  shows "conn_inv C c'"
  using assms by (auto simp: conn_inv_def auth_ok_def auth_kept_def)

lemma conn_inv_sink: "conn_inv C c \<Longrightarrow> sink_only c c' \<Longrightarrow> conn_inv C c'"
  using conn_inv_frame [of C c c'] by (simp add: sink_only_fields)

lemma conn_inv_send: "conn_inv C c \<Longrightarrow> conn_inv C (fst (send_out m c))"
  "conn_inv C c \<Longrightarrow> conn_inv C (fst (send_relay m' c))"
  by (simp_all add: conn_inv_sink send_out_sink send_relay_def)

lemma refused_frame:
  assumes "refused e c c'"
  shows "cn_subscriptions c' = cn_subscriptions c" "cn_neg_sessions c' = cn_neg_sessions c"
    "auth_kept (cn_auth c) (cn_auth c')" "cn_rate c' = cn_rate c" "cn_store c' = cn_store c"
    "cn_broadcast c' = cn_broadcast c"
proof -
  from assms obtain a ms where a: "auth_kept (cn_auth c) a" "sends ms (c\<lparr>cn_auth := a\<rparr>) c'"
    by (auto simp: refused_def)
  then have "sink_only (c\<lparr>cn_auth := a\<rparr>) c'" by (simp add: sends_def)
  with a(1) show "cn_subscriptions c' = cn_subscriptions c" "cn_neg_sessions c' = cn_neg_sessions c"
    "auth_kept (cn_auth c) (cn_auth c')" "cn_rate c' = cn_rate c" "cn_store c' = cn_store c"
    "cn_broadcast c' = cn_broadcast c"
    by (simp_all add: sink_only_fields)
qed

lemma published_frame:
  assumes "published C e c c' r"
  shows "cn_subscriptions c' = cn_subscriptions c" "cn_neg_sessions c' = cn_neg_sessions c"
    "cn_auth c' = cn_auth c" "cn_rate c' = cn_rate c"
    "cn_store c' = fst (db_save_event (cx_storage C) e (cn_store c))"
    "cn_broadcast c' = cn_broadcast c @
       (if r = Inr () \<and> fst (save_reply (ev_id e) (snd (db_save_event (cx_storage C) e (cn_store c)))) then [e] else [])"
proof -
  let ?s = "db_save_event (cx_storage C) e (cn_store c)"
  from assms obtain d where d: "sink_only (c\<lparr>cn_store := fst ?s\<rparr>) d"
    "c' = d\<lparr>cn_broadcast := cn_broadcast c @ (if r = Inr () \<and> fst (save_reply (ev_id e) (snd ?s)) then [e] else [])\<rparr>"
    by (auto simp: published_def Let_def sends_def)
  from sink_only_fields [OF d(1)] d(2)
  show "cn_subscriptions c' = cn_subscriptions c" "cn_neg_sessions c' = cn_neg_sessions c"
    "cn_auth c' = cn_auth c" "cn_rate c' = cn_rate c" "cn_store c' = fst ?s"
    "cn_broadcast c' = cn_broadcast c @ (if r = Inr () \<and> fst (save_reply (ev_id e) (snd ?s)) then [e] else [])"
    by simp_all
qed

lemma conn_inv_event:
  assumes "conn_inv C c" and "handle_event C v e c = (c', r)"
  shows "conn_inv C c'"
  using handle_event_cases [OF assms(2)] conn_inv_frame [OF assms(1)] published_frame refused_frame
  by (metis auth_kept_refl)

lemma conn_inv_req:
  assumes "conn_inv C c" and "handle_req X C v i fs c = (c', r)"
    and "\<not> (requires_for_read (cx_nip42_mode C) \<and> \<not> au_authenticated (cn_auth c))"
  shows "conn_inv C c'"
  using assms(2)
proof (cases rule: handle_req_cases)
  case closed
  then show ?thesis using conn_inv_sink assms(1) by blast
next
  case (served fs' ess d)
  have sub: "sub_ok C i fs'"
    using served(1) admit_filters_ok [OF served(2)]
    by (auto simp: req_open_def sub_ok_def subid_too_long_def split: option.splits if_splits)
  have room: "opt_all (\<lambda>m. length (hm_insert i fs' (cn_subscriptions c)) \<le> m) (cx_max_active_subscriptions C)"
    using served(1) assms(1)
    by (auto simp: req_open_def too_many_subscriptions_def conn_inv_def hm.length_ins split: option.splits if_splits)
  have fields: "cn_auth c' = cn_auth c" "cn_neg_sessions c' = cn_neg_sessions c" "cn_rate c' = cn_rate c"
    "cn_subscriptions c' = hm_insert i fs' (cn_subscriptions c)"
    using served(4,5) by (auto simp: sends_exactly_def sink_only_fields)
  show ?thesis
    using assms(1,3) sub room unfolding conn_inv_def fields
    by (auto simp: hm.invar_ins hm.lookup_ins split: if_splits)
qed

lemma conn_inv_neg:
  assumes "conn_inv C c" and "neg_only c c'"
    and "\<not> (requires_for_read (cx_nip42_mode C) \<and> \<not> au_authenticated (cn_auth c))"
  shows "conn_inv C c'"
proof -
  have "hm_invar (cn_neg_sessions c')" using assms(1,2) by (auto simp: conn_inv_def neg_only_def)
  then show ?thesis
    using assms(1,3) by (auto simp: conn_inv_def neg_only_fields [OF assms(2)])
qed

section \<open>Dispatch keeps the invariant\<close>

text \<open>The state a message is dispatched in: only the rate limiter has moved.\<close>

definition metered :: "env \<Rightarrow> client_message \<Rightarrow> ('s, 'r) conn \<Rightarrow> ('s, 'r) conn" where
  "metered v msg c = c\<lparr>cn_rate := fst (rate_check (env_instant v) msg (cn_rate c))\<rparr>"

lemma metered_fields [simp]:
  "cn_store (metered v msg c) = cn_store c" "cn_broadcast (metered v msg c) = cn_broadcast c"
  "cn_sink (metered v msg c) = cn_sink c" "cn_subscriptions (metered v msg c) = cn_subscriptions c"
  "cn_neg_sessions (metered v msg c) = cn_neg_sessions c" "cn_auth (metered v msg c) = cn_auth c"
  by (simp_all add: metered_def)

lemma client_message_cases:
  assumes "handle_client_message X U N C v msg c = (c', fl)"
  obtains (gated) "\<not> au_authenticated (cn_auth c)" and "message_needs_auth msg (cx_nip42_mode C)"
      and "c' = fst (send_relay (auth_required_reply msg) c)" and "fl = Continue"
  | (limited) m where "snd (rate_check (env_instant v) msg (cn_rate c)) = Some m"
      and "c' = fst (send_relay m (metered v msg c))" and "fl = Continue"
  | (dispatched) r where "au_authenticated (cn_auth c) \<or> \<not> message_needs_auth msg (cx_nip42_mode C)"
      and "snd (rate_check (env_instant v) msg (cn_rate c)) = None"
      and "dispatch X U N C v msg (metered v msg c) = (c', r)"
      and "fl = (case r of Inl _ \<Rightarrow> Break | Inr _ \<Rightarrow> Continue)"
proof (cases "\<not> au_authenticated (cn_auth c) \<and> message_needs_auth msg (cx_nip42_mode C)")
  case True
  with assms show ?thesis by (intro gated) (auto simp: handle_client_message_def)
next
  case pass: False
  show ?thesis
  proof (cases "snd (rate_check (env_instant v) msg (cn_rate c))")
    case (Some m)
    with assms pass show ?thesis
      by (intro limited [of m]) (auto simp: handle_client_message_def metered_def Let_def)
  next
    case None
    obtain d r where d: "dispatch X U N C v msg (metered v msg c) = (d, r)"
      by (cases "dispatch X U N C v msg (metered v msg c)")
    with assms pass None show ?thesis
      by (intro dispatched [of r]) (auto simp: handle_client_message_def metered_def Let_def)
  qed
qed

lemma verify_client_auth_Inr:
  "verify_client_auth X U v e url ch = Inr () \<longleftrightarrow>
     verify X e = Inr () \<and> (\<exists>now. env_now v = Inr now \<and> verify_auth_event U e url ch now DEFAULT_MAX_AGE_SECS = Inr ())"
  by (auto simp: verify_client_auth_def res_bind_Inr_iff)

text \<open>The state after an \<open>AUTH\<close>, before its reply.\<close>

definition auth_after :: "crates \<Rightarrow> url_crate \<Rightarrow> 's connection_context \<Rightarrow> env \<Rightarrow> event \<Rightarrow> auth_state \<Rightarrow> auth_state" where
  "auth_after X U C v e a =
     (if verify_client_auth X U v e (cx_relay_url C) (au_challenge a) = Inr ()
      then a\<lparr>au_authenticated := True, au_pubkey := Some (ev_pubkey e)\<rparr> else a)"

lemma dispatch_auth:
  assumes "dispatch X U N C v (CAuth e) c = (c', r)"
  shows "\<exists>b t. sends [ROk (ev_id e) b t] (c\<lparr>cn_auth := auth_after X U C v e (cn_auth c)\<rparr>) c'"
proof (cases "verify_client_auth X U v e (cx_relay_url C) (au_challenge (cn_auth c))")
  case (Inl t)
  with assms have "send_relay (ROk (ev_id e) False (prefixed PfxRestricted t)) c = (c', r)" by (simp add: dispatch_def)
  from send_relay_sends(1) [OF this] Inl show ?thesis by (auto simp: auth_after_def)
next
  case (Inr u)
  with assms have "send_relay (ROk (ev_id e) True []) (c\<lparr>cn_auth := auth_after X U C v e (cn_auth c)\<rparr>) = (c', r)"
    by (simp add: dispatch_def auth_after_def)
  from send_relay_sends(1) [OF this] show ?thesis by blast
qed

lemma auth_after_ok:
  assumes "auth_ok C a"
  shows "auth_ok C (auth_after X U C v e a)"
  using assms by (auto simp: auth_ok_def auth_after_def)

lemma conn_inv_dispatch:
  assumes "conn_inv C c" and "dispatch X U N C v msg c = (c', r)"
    and "au_authenticated (cn_auth c) \<or> \<not> message_needs_auth msg (cx_nip42_mode C)"
  shows "conn_inv C c'"
proof (cases msg)
  case (CEvent e)
  then show ?thesis using conn_inv_event [OF assms(1)] assms(2) by (simp add: dispatch_def)
next
  case (CReq i fs)
  then show ?thesis using conn_inv_req [OF assms(1)] assms(2,3) by (auto simp: dispatch_def message_needs_auth_def)
next
  case (CClose i)
  then have c': "c' = c\<lparr>cn_subscriptions := hm_remove i (cn_subscriptions c)\<rparr>" using assms(2) by (simp add: dispatch_def)
  have inv: "hm_invar (cn_subscriptions c)" using assms(1) by (simp add: conn_inv_def)
  then have "length (hm_remove i (cn_subscriptions c)) \<le> length (cn_subscriptions c)"
    by (simp add: hm.length_del)
  moreover have "cn_subscriptions c = [] \<Longrightarrow> hm_remove i (cn_subscriptions c) = []" by (simp add: hm_remove_def)
  ultimately show ?thesis
    using assms(1) unfolding c' conn_inv_def
    by (cases "cx_max_active_subscriptions C") (auto simp: hm.invar_del hm.lookup_del split: if_splits)
next
  case (CAuth e)
  let ?a = "auth_after X U C v e (cn_auth c)"
  from assms(2) CAuth obtain ms where ms: "sends ms (c\<lparr>cn_auth := ?a\<rparr>) c'" using dispatch_auth by blast
  have "conn_inv C (c\<lparr>cn_auth := ?a\<rparr>)"
    using assms(1) auth_after_ok [of C "cn_auth c" X U v e] by (auto simp: conn_inv_def auth_after_def)
  with ms show ?thesis using conn_inv_sink by (auto simp: sends_def)
next
  case (CCount i f)
  then show ?thesis
    using assms(1,2) send_relay_frame conn_inv_sink by (fastforce simp: dispatch_def Let_def)
next
  case (CNegOpen i f m)
  then have "neg_only c c'" using assms(2) handle_neg_open_frame by (simp add: dispatch_def)
  moreover have "\<not> (requires_for_read (cx_nip42_mode C) \<and> \<not> au_authenticated (cn_auth c))"
    using assms(3) CNegOpen by (auto simp: message_needs_auth_def)
  ultimately show ?thesis using conn_inv_neg [OF assms(1)] by blast
next
  case (CNegMsg i m)
  then have eq: "handle_neg_msg X N i m c = (c', r)" using assms(2) by (simp add: dispatch_def)
  show ?thesis
  proof (cases "cn_neg_sessions c = []")
    case True
    then show ?thesis using eq send_relay_frame conn_inv_sink [OF assms(1)] by (simp only: handle_neg_msg_none) blast
  next
    case False
    then have "\<not> (requires_for_read (cx_nip42_mode C) \<and> \<not> au_authenticated (cn_auth c))"
      using assms(1) by (auto simp: conn_inv_def)
    then show ?thesis using conn_inv_neg [OF assms(1) handle_neg_msg_frame [OF eq]] by blast
  qed
next
  case (CNegClose i)
  then show ?thesis
    using assms(1,2) by (auto simp: dispatch_def conn_inv_def hm.invar_del) (simp_all add: hm_remove_def)
qed

lemma conn_inv_metered: "conn_inv C c \<Longrightarrow> conn_inv C (metered v msg c)"
  by (simp add: conn_inv_def metered_def rate_check_ok)

lemma conn_inv_message:
  assumes "conn_inv C c" and "handle_client_message X U N C v msg c = (c', fl)"
  shows "conn_inv C c'"
  using assms(2)
proof (cases rule: client_message_cases)
  case (dispatched r)
  then show ?thesis using conn_inv_dispatch [OF conn_inv_metered [OF assms(1)]] by simp
qed (simp_all add: conn_inv_send conn_inv_metered assms(1))

lemma conn_inv_step:
  assumes "conn_inv C c" and "conn_step X Y W U N C inp c = (c', fl)"
  shows "conn_inv C c'"
proof (cases inp)
  case Shutdown
  then show ?thesis using assms by (auto simp: conn_step_def conn_inv_send)
next
  case (LiveEvent e)
  have "sink_only c (fst (forward_to_subscriptions x c))" for x
    unfolding forward_to_subscriptions_def using send_all_sends(1) by (metis prod.collapse sends_def)
  then show ?thesis using LiveEvent assms conn_inv_sink
    by (auto simp: conn_step_def Let_def split: option.splits)
next
  case (Inbound v frame)
  then have "handle_inbound_frame X Y W U N C v frame c = (c', fl)" using assms(2) by (simp add: conn_step_def)
  then consider "c' = c" | m where "c' = fst (send_out m c)"
    | msg where "handle_client_message X U N C v msg c = (c', fl)"
    by (auto simp: handle_inbound_frame_def send_relay_def split: option.split_asm ws_frame.split_asm if_split_asm)
  then show ?thesis
    using assms(1) conn_inv_send conn_inv_message by cases blast+
qed

lemma conn_start_inv:
  assumes "conn_start C v sink store bc = (c, fl)"
  shows "conn_inv C c"
proof -
  have "conn_inv C \<lparr>cn_store = store, cn_broadcast = bc, cn_sink = sink, cn_subscriptions = [], cn_neg_sessions = [],
     cn_auth = \<lparr>au_authenticated = \<not> mode_is_enabled (cx_nip42_mode C), au_pubkey = None,
       au_challenge = (if mode_is_enabled (cx_nip42_mode C) then new_challenge v else [])\<rparr>,
     cn_rate = rate_new (cx_rate_limit C) (env_instant v)\<rparr>"
    by (cases "notes_per_minute (cx_rate_limit C)"; cases "reqs_per_minute (cx_rate_limit C)";
        cases "cx_max_active_subscriptions C")
      (simp_all add: conn_inv_def hm_invar_def auth_ok_def rate_ok_def rate_new_def new_challenge_def)
  then show ?thesis
    using assms by (auto simp: conn_start_def Let_def conn_inv_send split: if_split_asm)
qed

lemma conn_reachable_inv:
  assumes "conn_reachable X Y W U N C c0 is c fl" and "conn_inv C c0"
  shows "conn_inv C c"
  using assms
proof (induction rule: conn_reachable.induct)
  case (run_step "is" c i c' fl)
  then show ?case using conn_inv_step by blast
next
  case (run_other "is" c s' b')
  then show ?case by (simp add: conn_inv_def)
qed simp

section \<open>Who writes, who is told, who is authenticated\<close>

definition shared_kept :: "('s, 'r) conn \<Rightarrow> ('s, 'r) conn \<Rightarrow> bool" where
  "shared_kept c c' \<longleftrightarrow> cn_store c' = cn_store c \<and> cn_broadcast c' = cn_broadcast c"

lemma shared_kept_sink: "sink_only c c' \<Longrightarrow> shared_kept c c'"
  by (simp add: shared_kept_def sink_only_fields)

lemma shared_kept_neg: "neg_only c c' \<Longrightarrow> shared_kept c c'"
  by (simp add: shared_kept_def neg_only_fields)

lemma dispatch_shared:
  assumes "dispatch X U N C v msg c = (c', r)" and "\<And>e. msg \<noteq> CEvent e"
  shows "shared_kept c c'"
proof (cases msg)
  case (CEvent e)
  with assms(2) show ?thesis by blast
next
  case (CReq i fs)
  then have "handle_req X C v i fs c = (c', r)" using assms(1) by (simp add: dispatch_def)
  then show ?thesis
    by (cases rule: handle_req_cases)
      (auto simp: shared_kept_sink shared_kept_def sends_exactly_def sink_only_fields)
next
  case (CAuth e)
  then show ?thesis
    using dispatch_auth [of X U N C v e c c' r] assms(1)
    by (auto simp: sends_def shared_kept_def sink_only_fields)
next
  case (CNegOpen i f m)
  then show ?thesis using assms(1) handle_neg_open_frame shared_kept_neg by (fastforce simp: dispatch_def)
next
  case (CNegMsg i m)
  then show ?thesis using assms(1) handle_neg_msg_frame shared_kept_neg by (fastforce simp: dispatch_def)
next
  case (CCount i f)
  then show ?thesis using assms(1) send_relay_frame shared_kept_sink by (fastforce simp: dispatch_def Let_def)
qed (use assms(1) in \<open>auto simp: dispatch_def shared_kept_def\<close>)

text \<open>The only step that touches the store or the channel is an \<open>EVENT\<close> that passed every gate.\<close>

lemma message_writes:
  assumes "handle_client_message X U N C v msg c = (c', fl)" and "\<not> shared_kept c c'"
  shows "\<exists>e r. msg = CEvent e \<and> (requires_for_write (cx_nip42_mode C) \<longrightarrow> au_authenticated (cn_auth c)) \<and>
    event_admitted C v (cn_auth c) e \<and> published C e (metered v msg c) c' r \<and> (fl = Continue \<longrightarrow> r = Inr ())"
  using assms(1)
proof (cases rule: client_message_cases)
  case (dispatched r)
  have kept: "\<not> shared_kept (metered v msg c) c'" using assms(2) by (simp add: shared_kept_def)
  with dispatched(3) dispatch_shared obtain e where e: "msg = CEvent e" by blast
  then have "handle_event C v e (metered v msg c) = (c', r)" using dispatched(3) by (simp add: dispatch_def)
  note res = handle_event_cases [OF this]
  have "\<not> refused e (metered v msg c) c'"
    using kept by (auto simp: shared_kept_def refused_frame)
  with res have "event_admitted C v (cn_auth c) e \<and> published C e (metered v msg c) c' r"
    by (simp split: if_splits)
  with dispatched(1,4) e show ?thesis by (auto simp: message_needs_auth_def split: sum.splits)
qed (use assms(2) in \<open>auto simp: shared_kept_def send_relay_def sink_only_fields [OF send_out_sink]\<close>)

lemma inbound_cases:
  assumes "handle_inbound_frame X Y W U N C v frame c = (c', fl)"
  obtains (same) "c' = c" | (notice) t where "c' = fst (send_relay (RNotice t) c)"
  | (pong) p where "c' = fst (send_out (OutPong p) c)"
  | (message) body msg where "frame = Some (WsText body)" and "client_from_json X Y W body = Some msg"
      and "handle_client_message X U N C v msg c = (c', fl)"
  using assms by (auto simp: handle_inbound_frame_def split: option.split_asm ws_frame.split_asm if_split_asm)

lemma forward_frame: "sink_only c (fst (forward_to_subscriptions e c))"
  unfolding forward_to_subscriptions_def using send_all_sends(1) by (metis prod.collapse sends_def)

lemma step_writes:
  assumes "conn_step X Y W U N C inp c = (c', fl)" and "\<not> shared_kept c c'"
  shows "\<exists>v text e r. inp = Inbound v (Some (WsText text)) \<and> client_from_json X Y W text = Some (CEvent e) \<and>
    (requires_for_write (cx_nip42_mode C) \<longrightarrow> au_authenticated (cn_auth c)) \<and>
    event_admitted C v (cn_auth c) e \<and>
    published C e (metered v (CEvent e) c) c' r \<and> (fl = Continue \<longrightarrow> r = Inr ())"
proof (cases inp)
  case Shutdown
  with assms show ?thesis using shared_kept_sink [OF send_out_sink] by (auto simp: conn_step_def)
next
  case (LiveEvent e)
  with assms show ?thesis
    using shared_kept_sink [OF forward_frame] by (auto simp: conn_step_def Let_def shared_kept_def split: option.split_asm)
next
  case (Inbound v frame)
  with assms(1) have "handle_inbound_frame X Y W U N C v frame c = (c', fl)" by (simp add: conn_step_def)
  then show ?thesis
  proof (cases rule: inbound_cases)
    case (message body msg)
    from message_writes [OF message(3) assms(2)] message(1,2) Inbound show ?thesis by auto
  qed (use assms(2) in \<open>auto simp: shared_kept_def send_relay_def sink_only_fields [OF send_out_sink]\<close>)
qed

text \<open>Messages that tell a client what the relay stores.\<close>

definition discloses :: "relay_message \<Rightarrow> bool" where
  "discloses m = (case m of REvent _ _ \<Rightarrow> True | RCount _ _ \<Rightarrow> True | RNegMsg _ _ \<Rightarrow> True | _ \<Rightarrow> False)"

definition quiet :: "('s, 'r) conn \<Rightarrow> ('s, 'r) conn \<Rightarrow> bool" where
  "quiet c c' \<longleftrightarrow> (\<forall>m. OutRelay m \<in> set (sk_sent (cn_sink c')) \<longrightarrow>
     OutRelay m \<in> set (sk_sent (cn_sink c)) \<or> \<not> discloses m)"

lemma quiet_refl [simp]: "quiet c c"
  by (simp add: quiet_def)

lemma quiet_sends:
  "sends ms d c' \<Longrightarrow> cn_sink d = cn_sink c \<Longrightarrow> list_all (\<lambda>m. \<not> discloses m) ms \<Longrightarrow> quiet c c'"
  using sends_new by (fastforce simp: quiet_def list_all_iff)

lemma quiet_send:
  "\<not> discloses m \<Longrightarrow> cn_sink d = cn_sink c \<Longrightarrow> quiet c (fst (send_relay m d))"
  using quiet_sends [of "[m]" d] send_relay_sends(1) [of m d] by (cases "send_relay m d") simp

lemma publish_reply_quiet: "is_publish_reply i m \<Longrightarrow> \<not> discloses m"
  by (auto simp: is_publish_reply_def discloses_def)

lemma event_quiet:
  assumes "handle_event C v e c = (c', r)"
  shows "quiet c c'"
proof (cases "event_admitted C v (cn_auth c) e")
  case True
  then have "published C e c c' r" using handle_event_cases [OF assms] by simp
  then obtain d where d: "sends [snd (save_reply (ev_id e) (snd (db_save_event (cx_storage C) e (cn_store c))))]
      (c\<lparr>cn_store := fst (db_save_event (cx_storage C) e (cn_store c))\<rparr>) d" "cn_sink c' = cn_sink d"
    by (fastforce simp: published_def Let_def)
  have "quiet c d" by (rule quiet_sends [OF d(1)]) (simp_all add: publish_reply_quiet [OF save_reply_reply])
  with d(2) show ?thesis by (simp add: quiet_def)
next
  case False
  then have "refused e c c'" using handle_event_cases [OF assms] by simp
  then show ?thesis
    unfolding refused_def using quiet_sends publish_reply_quiet
    by (fastforce simp: list_all_iff)
qed

lemma rate_reply_quiet: "snd (rate_check now msg r) = Some m \<Longrightarrow> \<not> discloses m"
  by (auto simp: rate_check_def discloses_def Let_def split: client_message.split_asm option.split_asm if_split_asm)

lemma auth_required_quiet: "\<not> discloses (auth_required_reply msg)"
  by (simp add: auth_required_reply_def discloses_def split: client_message.split)

text \<open>Without the authentication a relay asks its readers for, a message discloses nothing.\<close>

lemma dispatch_quiet:
  assumes "dispatch X U N C v msg c = (c', r)" and "\<not> message_needs_auth msg (cx_nip42_mode C)"
    and "requires_for_read (cx_nip42_mode C)" and "cn_neg_sessions c = []"
  shows "quiet c c'"
proof (cases msg)
  case (CEvent e)
  then show ?thesis using assms(1) event_quiet by (simp add: dispatch_def)
next
  case (CAuth e)
  then obtain b t where "sends [ROk (ev_id e) b t] (c\<lparr>cn_auth := auth_after X U C v e (cn_auth c)\<rparr>) c'"
    using dispatch_auth assms(1) by blast
  then show ?thesis by (rule quiet_sends) (simp_all add: discloses_def)
next
  case (CNegMsg i m)
  then obtain t where "dispatch X U N C v msg c = send_relay (RNegErr i t) c"
    using handle_neg_msg_none [OF assms(4), of X N i m] by (simp add: dispatch_def)
  then have "c' = fst (send_relay (RNegErr i t) c)" using assms(1) by (metis fst_conv)
  then show ?thesis using quiet_send [of "RNegErr i t" c c] by (simp add: discloses_def)
qed (use assms in \<open>auto simp: dispatch_def message_needs_auth_def quiet_def\<close>)

lemma step_quiet:
  assumes "conn_inv C c" and "conn_step X Y W U N C inp c = (c', fl)"
    and "requires_for_read (cx_nip42_mode C)" and "\<not> au_authenticated (cn_auth c)"
  shows "quiet c c'"
proof -
  have empty: "cn_subscriptions c = []" "cn_neg_sessions c = []" using assms by (auto simp: conn_inv_def)
  have out: "quiet c (fst (send_out m d))" if "\<And>x. m \<noteq> OutRelay x" and "cn_sink d = cn_sink c" for m and d :: "('a, 'b) conn"
    using that by (auto simp: quiet_def send_out_def sink_send_def Let_def split: option.splits nat.splits)
  show ?thesis
  proof (cases inp)
    case Shutdown
    then show ?thesis using assms(2) out by (auto simp: conn_step_def)
  next
    case (LiveEvent e)
    then show ?thesis using assms(2) empty
      by (auto simp: conn_step_def Let_def forward_to_subscriptions_def split: option.splits)
  next
    case (Inbound v frame)
    with assms(2) have "handle_inbound_frame X Y W U N C v frame c = (c', fl)" by (simp add: conn_step_def)
    then show ?thesis
    proof (cases rule: inbound_cases)
      case (message body msg)
      from message(3) show ?thesis
      proof (cases rule: client_message_cases)
        case (dispatched r)
        then have "quiet (metered v msg c) c'"
          using dispatch_quiet [OF dispatched(3)] assms(3,4) empty(2) by simp
        then show ?thesis by (simp add: quiet_def)
      qed (simp_all add: quiet_send auth_required_quiet rate_reply_quiet)
    qed (use out in \<open>auto simp: quiet_send discloses_def\<close>)
  qed
qed

text \<open>Where an authenticated key comes from.\<close>

definition auth_proof ::
  "crates \<Rightarrow> sig_text \<Rightarrow> wire_crate \<Rightarrow> url_crate \<Rightarrow> 's connection_context \<Rightarrow> string \<Rightarrow> public_key \<Rightarrow> conn_input \<Rightarrow> bool" where
  "auth_proof X Y W U C ch pk inp \<longleftrightarrow>
     (\<exists>v body e now. inp = Inbound v (Some (WsText body)) \<and> client_from_json X Y W body = Some (CAuth e) \<and>
        ev_pubkey e = pk \<and> verify X e = Inr () \<and> env_now v = Inr now \<and>
        verify_auth_event U e (cx_relay_url C) ch now DEFAULT_MAX_AGE_SECS = Inr ())"

lemma dispatch_keeps_auth:
  assumes "dispatch X U N C v msg c = (c', r)" and "\<And>e. msg \<noteq> CAuth e"
  shows "auth_kept (cn_auth c) (cn_auth c')"
proof (cases msg)
  case (CEvent e)
  then have "handle_event C v e c = (c', r)" using assms(1) by (simp add: dispatch_def)
  from handle_event_cases [OF this] show ?thesis
    by (auto simp: published_frame refused_frame split: if_splits)
next
  case (CReq i fs)
  then have "handle_req X C v i fs c = (c', r)" using assms(1) by (simp add: dispatch_def)
  then show ?thesis
    by (cases rule: handle_req_cases) (auto simp: sends_exactly_def sink_only_fields)
next
  case (CAuth e)
  with assms(2) show ?thesis by blast
next
  case (CNegOpen i f m)
  then have "neg_only c c'" using assms(1) handle_neg_open_frame by (simp add: dispatch_def)
  then show ?thesis by (simp add: neg_only_fields)
next
  case (CNegMsg i m)
  then have "neg_only c c'" using assms(1) handle_neg_msg_frame by (simp add: dispatch_def)
  then show ?thesis by (simp add: neg_only_fields)
next
  case (CCount i f)
  then have "sink_only c c'" using assms(1) send_relay_frame by (auto simp: dispatch_def Let_def)
  then show ?thesis by (simp add: sink_only_fields)
qed (use assms(1) in \<open>auto simp: dispatch_def\<close>)

lemma message_auth:
  assumes "handle_client_message X U N C v msg c = (c', fl)"
  shows "auth_kept (cn_auth c) (cn_auth c') \<or>
    (\<exists>e. msg = CAuth e \<and> verify_client_auth X U v e (cx_relay_url C) (au_challenge (cn_auth c)) = Inr () \<and>
       cn_auth c' = (cn_auth c)\<lparr>au_authenticated := True, au_pubkey := Some (ev_pubkey e)\<rparr>)"
  using assms
proof (cases rule: client_message_cases)
  case (dispatched r)
  show ?thesis
  proof (cases "\<exists>e. msg = CAuth e")
    case True
    then obtain e where e: "msg = CAuth e" by blast
    then obtain ms where "sends ms ((metered v msg c)\<lparr>cn_auth := auth_after X U C v e (cn_auth c)\<rparr>) c'"
      using dispatch_auth [of X U N C v e "metered v msg c" c' r] dispatched(3) by auto
    then have "cn_auth c' = auth_after X U C v e (cn_auth c)" by (auto simp: sends_def sink_only_fields(5))
    then show ?thesis using e by (auto simp: auth_after_def)
  next
    case False
    then show ?thesis using dispatch_keeps_auth [OF dispatched(3)] by auto
  qed
qed (simp_all add: send_relay_def sink_only_fields [OF send_out_sink])

lemma step_auth:
  assumes "conn_step X Y W U N C inp c = (c', fl)"
  shows "auth_kept (cn_auth c) (cn_auth c') \<or>
    (\<exists>pk. auth_proof X Y W U C (au_challenge (cn_auth c)) pk inp \<and>
       cn_auth c' = (cn_auth c)\<lparr>au_authenticated := True, au_pubkey := Some pk\<rparr>)"
proof (cases inp)
  case (Inbound v frame)
  with assms have "handle_inbound_frame X Y W U N C v frame c = (c', fl)" by (simp add: conn_step_def)
  then show ?thesis
  proof (cases rule: inbound_cases)
    case (message body msg)
    then show ?thesis
      using message_auth [OF message(3)] Inbound
      by (auto simp: auth_proof_def verify_client_auth_Inr)
  qed (auto simp: send_relay_def sink_only_fields [OF send_out_sink])
qed (use assms in \<open>auto simp: conn_step_def Let_def sink_only_fields [OF send_out_sink]
  sink_only_fields [OF forward_frame] split: option.split_asm\<close>)

lemma reachable_auth_proof:
  assumes "conn_reachable X Y W U N C c0 is c fl" and "au_pubkey (cn_auth c0) = None"
    and "au_pubkey (cn_auth c) = Some pk"
  shows "\<exists>inp \<in> set is. auth_proof X Y W U C (au_challenge (cn_auth c)) pk inp"
  using assms
proof (induction arbitrary: pk rule: conn_reachable.induct)
  case (run_step "is" c i c' fl)
  from step_auth [OF run_step.hyps(2)] show ?case
  proof (elim disjE exE conjE)
    assume kept: "auth_kept (cn_auth c) (cn_auth c')"
    then have "au_pubkey (cn_auth c) = Some pk" using run_step.prems(2) by (simp add: auth_kept_def)
    from run_step.IH [OF run_step.prems(1) this] obtain inp where
      inp: "inp \<in> set is" "auth_proof X Y W U C (au_challenge (cn_auth c)) pk inp" by blast
    then have "au_challenge (cn_auth c) \<noteq> []" by (auto simp: auth_proof_def verify_auth_event_Inr)
    with kept have "au_challenge (cn_auth c') = au_challenge (cn_auth c)" by (simp add: auth_kept_def)
    with inp show ?thesis by auto
  next
    fix k
    assume "auth_proof X Y W U C (au_challenge (cn_auth c)) k i"
      and "cn_auth c' = (cn_auth c)\<lparr>au_authenticated := True, au_pubkey := Some k\<rparr>"
    then show ?thesis using run_step.prems(2) by auto
  qed
next
  case (run_other "is" c s' b')
  then show ?case by simp
qed simp

end
