(* ===== verification/Relay_Replies.thy ===== *)
theory Relay_Replies
  imports Relay_Invariant
begin

text \<open>
  What a connection says: that every refusal carries a machine-readable prefix, that a reader who
  did not authenticate is told nothing, and what is sent, exactly, when the socket accepts
  every message (\<open>sk_left\<close> is \<open>None\<close>).
\<close>

section \<open>Messages of a given form\<close>

definition sent_only :: "(relay_message \<Rightarrow> bool) \<Rightarrow> ('s, 'r) conn \<Rightarrow> ('s, 'r) conn \<Rightarrow> bool" where
  "sent_only Q c c' \<longleftrightarrow> (\<forall>m. OutRelay m \<in> set (sk_sent (cn_sink c')) \<longrightarrow>
     OutRelay m \<in> set (sk_sent (cn_sink c)) \<or> Q m)"

text \<open>Refusals: a negative \<open>OK\<close>, a \<open>CLOSED\<close> and a \<open>NEG-ERR\<close> name their reason.\<close>

definition coded :: "relay_message \<Rightarrow> bool" where
  "coded m =
     (case m of
        ROk _ accepted t \<Rightarrow> accepted \<or> from_reason t \<noteq> None
      | RClosed _ t \<Rightarrow> from_reason t \<noteq> None
      | RNegErr _ t \<Rightarrow> from_reason t \<noteq> None
      | _ \<Rightarrow> True)"

lemma from_reason_prefixed [simp]: "from_reason (prefixed p t) = Some p"
  using from_reason_prefix [of p "CHR '' '' # t"] by (simp add: prefixed_def)

lemma coded_simps [simp]:
  "coded (ROk n True t)" "coded (ROk n b (prefixed p t))" "coded (RClosed i (prefixed p t))"
  "coded (RNegErr i (prefixed p t))" "coded (REvent i e)" "coded (REndOfStoredEvents i)" "coded (RNotice t)"
  "coded (RAuth ch)" "coded (RCount i k)" "coded (RNegMsg i t)"
  by (simp_all add: coded_def)

lemma sent_only_refl [simp]: "sent_only Q c c"
  by (simp add: sent_only_def)

lemma sent_only_trans: "sent_only Q a b \<Longrightarrow> sent_only Q b c \<Longrightarrow> sent_only Q a c"
  unfolding sent_only_def by blast

lemma sent_only_sends: "sends ms d c' \<Longrightarrow> cn_sink d = cn_sink c \<Longrightarrow> list_all Q ms \<Longrightarrow> sent_only Q c c'"
  using sends_new by (fastforce simp: sent_only_def list_all_iff)

lemma sent_only_send: "Q m \<Longrightarrow> cn_sink d = cn_sink c \<Longrightarrow> sent_only Q c (fst (send_relay m d))"
  using sent_only_sends [of "[m]" d] send_relay_sends(1) [of m d] by (cases "send_relay m d") simp

lemma sent_only_all: "list_all Q ms \<Longrightarrow> sent_only Q c (fst (send_all ms c))"
  using sent_only_sends [of ms c] send_all_sends(1) [of ms c] by (cases "send_all ms c") simp

lemma sent_only_then:
  "sent_only Q c (fst p) \<Longrightarrow> (\<And>x. snd p = Inr x \<Longrightarrow> sent_only Q (fst p) (fst (f (fst p) x))) \<Longrightarrow>
   sent_only Q c (fst (and_then p f))"
  by (auto simp: and_then_def split: sum.split intro: sent_only_trans)

section \<open>Refusals\<close>

lemma event_coded: "sent_only coded c (fst (handle_event C v e c))"
proof -
  have exp: "check_expired v e = Some m \<Longrightarrow> coded m" for m
    by (auto simp: check_expired_def split: option.splits if_splits)
  have pow: "Option.bind (cx_min_pow C) (check_pow e) = Some m \<Longrightarrow> coded m" for m
    by (cases "cx_min_pow C") (auto simp: check_pow_def split: sum.splits)
  have prot: "check_protected v e (cn_auth c) = (a, Some (auth, m)) \<Longrightarrow> coded m \<and> opt_all coded auth" for a auth m
    by (auto simp: check_protected_def Let_def split: if_splits)
  have reply: "coded (snd (save_reply (ev_id e) r))" for r
    by (auto simp: save_reply_def split: sum.split save_event_status.split)
  show ?thesis
    unfolding handle_event_def
    by (auto simp: Let_def exp pow reply dest!: prot split: option.split prod.split admit_verdict.split
        intro!: sent_only_then sent_only_send)
      (simp_all add: sent_only_def)
qed

lemma stream_coded: "sent_only coded c (fst (stream_stored C i fs c))"
  by (induction C i fs c rule: stream_stored.induct)
    (auto split: sum.split intro!: sent_only_then sent_only_send sent_only_all simp: list_all_iff)

lemma req_coded: "sent_only coded c (fst (handle_req X C v i fs c))"
  unfolding handle_req_def stream_random_events_def
  by (auto split: option.split sum.split prod.split simp: list_all_iff stream_coded
      intro!: sent_only_then sent_only_send sent_only_all)
    (simp_all add: sent_only_def)

lemma neg_open_coded: "sent_only coded c (fst (handle_neg_open X N C i f m c))"
  unfolding handle_neg_open_def send_neg_err_def
  by (auto split: option.split sum.split prod.split admit_verdict.split intro!: sent_only_send)

lemma neg_msg_coded: "sent_only coded c (fst (handle_neg_msg X N i m c))"
  unfolding handle_neg_msg_def send_neg_err_def
  by (auto split: option.split sum.split prod.split intro!: sent_only_send)

lemma dispatch_coded: "sent_only coded c (fst (dispatch X U N C v msg c))"
  by (auto simp: dispatch_def Let_def event_coded req_coded neg_open_coded neg_msg_coded
      split: client_message.split sum.split intro!: sent_only_send)
    (simp_all add: sent_only_def)

lemma message_coded: "sent_only coded c (fst (handle_client_message X U N C v msg c))"
proof -
  have rate: "snd (rate_check t msg r) = Some m \<Longrightarrow> coded m" for t r m
    by (auto simp: rate_check_def Let_def split: client_message.split_asm option.split_asm if_split_asm)
  have auth: "coded (auth_required_reply msg)"
    by (simp add: auth_required_reply_def split: client_message.split)
  have "sent_only coded c (fst (dispatch X U N C v msg (c\<lparr>cn_rate := r\<rparr>)))" for r
    using dispatch_coded [of "c\<lparr>cn_rate := r\<rparr>" X U N C v msg] by (simp add: sent_only_def)
  then show ?thesis
    by (auto simp: handle_client_message_def Let_def rate auth split: option.split intro!: sent_only_send)
qed

lemma out_sent_only: "(\<And>m. out \<noteq> OutRelay m) \<Longrightarrow> sent_only Q c (fst (send_out out c))"
  by (auto simp: sent_only_def send_out_def sink_send_def Let_def split: option.split nat.split)

lemma step_coded: "sent_only coded c (fst (conn_step X Y W U N C inp c))"
  unfolding conn_step_def handle_inbound_frame_def forward_to_subscriptions_def
  by (auto simp: Let_def list_all_iff message_coded split: conn_input.split option.split ws_frame.split
      intro!: sent_only_send sent_only_all out_sent_only)

lemma reachable_coded:
  "conn_reachable X Y W U N C c0 is c fl \<Longrightarrow> sent_only coded c0 c"
proof (induction rule: conn_reachable.induct)
  case (run_step "is" c i c' fl)
  then show ?case using step_coded [of c X Y W U N C i] sent_only_trans by fastforce
qed (simp_all add: sent_only_def)

section \<open>Readers who did not authenticate\<close>

lemma step_authenticated:
  "conn_step X Y W U N C inp c = (c', fl) \<Longrightarrow> au_authenticated (cn_auth c) \<Longrightarrow> au_authenticated (cn_auth c')"
  using step_auth [of X Y W U N C inp c c' fl] by (auto simp: auth_kept_def)

lemma reachable_quiet:
  assumes "conn_reachable X Y W U N C c0 is c fl" and "conn_inv C c0"
    and "requires_for_read (cx_nip42_mode C)" and "\<not> au_authenticated (cn_auth c)"
  shows "quiet c0 c"
  using assms
proof (induction rule: conn_reachable.induct)
  case (run_step "is" c i c' fl)
  then have "\<not> au_authenticated (cn_auth c)" using step_authenticated by blast
  moreover have "conn_inv C c" by (rule conn_reachable_inv [OF run_step.hyps(1) run_step.prems(1)])
  ultimately have "quiet c0 c" "quiet c c'"
    using run_step step_quiet [of C c X Y W U N i c' fl] by blast+
  then show ?case unfolding quiet_def by blast
qed (simp_all add: quiet_def)

section \<open>An open socket\<close>

text \<open>On a socket that accepts everything, every send succeeds.\<close>

lemma open_send:
  "sk_left (cn_sink c) = None \<Longrightarrow>
   send_relay m c = (c\<lparr>cn_sink := (cn_sink c)\<lparr>sk_sent := sk_sent (cn_sink c) @ [OutRelay m]\<rparr>\<rparr>, Inr ())"
  by (simp add: send_relay_def send_out_def sink_send_def Let_def)

lemma open_send_all:
  "sk_left (cn_sink c) = None \<Longrightarrow>
   send_all ms c = (c\<lparr>cn_sink := (cn_sink c)\<lparr>sk_sent := sk_sent (cn_sink c) @ map OutRelay ms\<rparr>\<rparr>, Inr ())"
  by (induction ms arbitrary: c) (simp_all add: open_send and_then_def)

lemma open_stream:
  assumes "sk_left (cn_sink c) = None"
    and "map (\<lambda>f. db_query (cx_storage C) f (cn_store c)) fs = map Inr ess"
  shows "stream_stored C i fs c = (c\<lparr>cn_sink := (cn_sink c)\<lparr>sk_sent :=
    sk_sent (cn_sink c) @ map OutRelay (concat (map (map (REvent i)) ess))\<rparr>\<rparr>, Inr True)"
  using assms
  by (induction C i fs c arbitrary: ess rule: stream_stored.induct)
    (auto simp: open_send_all and_then_def)

lemma open_req:
  assumes "sk_left (cn_sink c) = None" and "req_open C i fs c" and "admit_filters C fs = Inr fs'"
    and "map (\<lambda>f. db_query (cx_storage C) f (cn_store c)) fs' = map Inr ess"
  shows "handle_req X C v i fs c =
    (c\<lparr>cn_sink := (cn_sink c)\<lparr>sk_sent := sk_sent (cn_sink c) @
         map OutRelay (concat (map (map (REvent i)) ess) @ [REndOfStoredEvents i])\<rparr>,
       cn_subscriptions := hm_insert i fs' (cn_subscriptions c)\<rparr>, Inr ())"
proof -
  have "fs \<noteq> []" using assms(2) by (simp add: req_open_def)
  with assms show ?thesis
    by (simp add: handle_req_def req_open_def open_stream [OF assms(1,4)] open_send and_then_def)
qed

section \<open>An admitted event\<close>

lemma admitted_gates:
  assumes "event_admitted C v a e"
  shows "\<forall>now. env_now v = Inr now \<longrightarrow> is_expired e now \<noteq> Inr True"
    and "opt_all (\<lambda>d. verify_pow e d = Inr ()) (cx_min_pow C)"
    and "cx_write_policy C e (cx_peer C) = Accept"
  using assms
  by (cases "cx_min_pow C"; auto simp: event_admitted_def check_expired_def check_pow_def res_ok_def
      split: option.splits sum.splits if_splits)+

text \<open>What a publisher is to be told: the event was taken when it was stored or is ephemeral, and otherwise why not.\<close>

definition save_taken :: "storage_error + save_event_status \<Rightarrow> bool" where
  "save_taken r \<longleftrightarrow> r = Inr Success \<or> r = Inr (Rejected Ephemeral)"

definition save_reason :: "storage_error + save_event_status \<Rightarrow> string" where
  "save_reason r =
     (case r of
        Inl err \<Rightarrow> prefixed PfxError (storage_error_display err)
      | Inr Success \<Rightarrow> []
      | Inr (Rejected reason) \<Rightarrow> if reason = Ephemeral then [] else prefixed PfxInvalid (rejected_reason_debug reason))"

lemma save_reply_eq: "save_reply i r = (save_taken r, ROk i (save_taken r) (save_reason r))"
  by (auto simp: save_reply_def save_taken_def save_reason_def split: sum.splits save_event_status.splits)

lemma published_effect:
  assumes "published C e (metered v msg c) c' r"
  shows "cn_store c' = fst (db_save_event (cx_storage C) e (cn_store c))"
    and "cn_broadcast c' = cn_broadcast c @ (if r = Inr () \<and> save_taken (snd (db_save_event (cx_storage C) e (cn_store c))) then [e] else [])"
    and "sk_sent (cn_sink c') = sk_sent (cn_sink c) @
      (if r = Inr ()
       then [OutRelay (ROk (ev_id e) (save_taken (snd (db_save_event (cx_storage C) e (cn_store c))))
               (save_reason (snd (db_save_event (cx_storage C) e (cn_store c)))))]
       else [])"
  using published_frame(5,6) [OF assms] assms by (auto simp: save_reply_eq published_def sends_exactly_def Let_def)

end
