(* ===== verification/Relay_Memory.thy ===== *)
theory Relay_Memory
  imports Relay_Invariant Database_Interface
begin

text \<open>
  The relay server over the in-memory store: \<open>MemoryDatabase\<close> (nula-storage, memory/database.rs) as
  the database a connection calls, what a publish and a request do to it, and that the store's
  invariant survives every step of a connection. Then the rate limiter over a sequence of
  messages.
\<close>

section \<open>The memory backend\<close>

text \<open>
  \<open>MemoryDatabase::save_event\<close> reads the clock itself. A save that has no result stands for a call
  that does not return; \<open>memory_save_returns\<close> shows that there is none.
\<close>

definition memory_save ::
  "crates \<Rightarrow> string + timestamp \<Rightarrow> event \<Rightarrow> memory_store \<Rightarrow> memory_store \<times> (storage_error + save_event_status)" where
  "memory_save X clock e s =
     (case clock of
        Inl err \<Rightarrow> (s, Inl (Backend err))
      | Inr now \<Rightarrow>
          (case save_event X e now s of
             Some (s', st) \<Rightarrow> (s', Inr st)
           | None \<Rightarrow> (s, Inl Closed)))"

definition memory_query :: "nostr_filter \<Rightarrow> memory_store \<Rightarrow> storage_error + event list" where
  "memory_query f s = Inr (ev_inner (database_query s f))"

definition memory_count :: "nostr_filter \<Rightarrow> memory_store \<Rightarrow> storage_error + nat" where
  "memory_count f s = Inr (count_matching s f)"

definition memory_database :: "crates \<Rightarrow> string + timestamp \<Rightarrow> memory_store database" where
  "memory_database X clock = \<lparr>
     db_save_event = memory_save X clock,
     db_query = memory_query,
     db_count = memory_count,
     db_negentropy_items = default_negentropy_items memory_query\<rparr>"

lemma memory_save_returns:
  assumes "store_inv s"
  obtains s' st where "save_event X e now s = Some (s', st)" and "memory_save X (Inr now) e s = (s', Inr st)"
    and "store_inv s'" and "ms_options s' = ms_options s"
proof -
  obtain s' st where "save_event X e now s = Some (s', st)" "store_inv s'" "ms_options s' = ms_options s"
    by (rule save_refines [OF assms, of X e now]) blast
  then show ?thesis using that by (simp add: memory_save_def)
qed

lemma memory_save_inv: "store_inv s \<Longrightarrow> store_inv (fst (memory_save X clock e s))"
proof (cases clock)
  case (Inr now)
  assume "store_inv s"
  then obtain s' st where "memory_save X (Inr now) e s = (s', Inr st)" "store_inv s'"
    by (rule memory_save_returns)
  with Inr show ?thesis by simp
qed (simp add: memory_save_def)

text \<open>What the store answers to a request is selected by the filter and found by its id.\<close>

lemma memory_answer_sound:
  assumes "store_inv s" and "memory_query f s = Inr es" and "e \<in> set es"
  shows "filter_selects f e" and "event_by_id s (ev_id e) = Some e"
proof -
  have e: "e \<in> set (query_owned s f)"
    using assms(2,3) by (simp add: memory_query_def database_query_def events_from_sorted_def)
  then show "filter_selects f e"
    using mem.query_law [OF assms(1), of f] by (auto simp: selected_def)
  show "event_by_id s (ev_id e) = Some e"
    by (rule mem.query_lookup [OF assms(1) e])
qed

lemma memory_answer_sorted:
  assumes "store_inv s"
  shows "sorted_wrt (<) (map key_from_event (ev_inner (database_query s f)))"
proof -
  have ok: "idx_ok s (live s)" using assms by (simp add: store_inv_def)
  show ?thesis
    using query_owned_keys(1) [OF ok, of f] query_keys_sound [OF ok, of f]
    by (simp add: database_query_def events_from_sorted_def)
qed

text \<open>The reply to an admitted event, over the memory store.\<close>

lemma memory_publish_reply:
  assumes "store_inv s" and "memory_save X (Inr now) e s = (s', r)" and "fst (save_reply (ev_id e) r)"
  shows "(r = Inr Success \<and> save_event X e now s = Some (s', Success)) \<or>
    (r = Inr (Rejected Ephemeral) \<and> store_abs s' = store_abs s)"
proof -
  obtain s1 st where s1: "save_event X e now s = Some (s1, st)" "memory_save X (Inr now) e s = (s1, Inr st)"
    by (rule memory_save_returns [OF assms(1), of X e now])
  with assms(2) have eq: "s' = s1" "r = Inr st" by simp_all
  show ?thesis
  proof (cases st)
    case Success
    with s1 eq show ?thesis by simp
  next
    case (Rejected reason)
    with assms(3) eq have "reason = Ephemeral" by (simp add: save_reply_def split: if_splits)
    with Rejected s1 eq mem.rejected_unchanged [OF assms(1), of X e now s1 reason] show ?thesis by simp
  qed
qed

lemma step_store_inv:
  assumes "conn_step X Y W U N C inp c = (c', fl)" and "store_inv (cn_store c)"
    and "cx_storage C = memory_database X clock"
  shows "store_inv (cn_store c')"
proof (cases "shared_kept c c'")
  case True
  then show ?thesis using assms(2) by (simp add: shared_kept_def)
next
  case False
  from step_writes [OF assms(1) False] obtain v e r where "published C e (metered v (CEvent e) c) c' r" by blast
  from published_frame(5) [OF this] show ?thesis
    using assms(2,3) memory_save_inv by (simp add: memory_database_def)
qed

section \<open>The rate limiter over time\<close>

text \<open>The instants at which an \<open>EVENT\<close> passed the limiter.\<close>

definition is_event_msg :: "client_message \<Rightarrow> bool" where
  "is_event_msg m = (case m of CEvent _ \<Rightarrow> True | _ \<Rightarrow> False)"

fun notes_passed :: "rate_limiter \<Rightarrow> (nat \<times> client_message) list \<Rightarrow> nat list" where
  "notes_passed r [] = []"
| "notes_passed r (tm # tms) =
     (let c = rate_check (fst tm) (snd tm) r
      in (if is_event_msg (snd tm) \<and> snd c = None then [fst tm] else []) @ notes_passed (fst c) tms)"

definition within :: "nat \<Rightarrow> nat list \<Rightarrow> nat" where
  "within a ts = length (filter (\<lambda>t. a \<le> t \<and> t < a + WINDOW_NANOS) ts)"

lemma within_append [simp]: "within a (ts @ us) = within a ts + within a us"
  by (simp add: within_def)

lemma rate_check_note:
  assumes "notes_per_minute (rl_limit r) = Some mx" and "rl_notes r \<le> mx"
  shows "rl_limit (fst (rate_check t m r)) = rl_limit r"
    and "rl_window_start (fst (rate_check t m r)) = (if t - rl_window_start r \<ge> WINDOW_NANOS then t else rl_window_start r)"
    and "unat (rl_notes (fst (rate_check t m r))) =
      (if t - rl_window_start r \<ge> WINDOW_NANOS then 0 else unat (rl_notes r)) +
      of_bool (is_event_msg m \<and> snd (rate_check t m r) = None)"
    and "rl_notes (fst (rate_check t m r)) \<le> mx"
proof -
  let ?r = "rate_roll t r"
  have roll: "rl_limit ?r = rl_limit r" "rl_notes ?r = (if t - rl_window_start r \<ge> WINDOW_NANOS then 0 else rl_notes r)"
    "rl_window_start ?r = (if t - rl_window_start r \<ge> WINDOW_NANOS then t else rl_window_start r)"
    by (simp_all add: rate_roll_def)
  have le: "rl_notes ?r \<le> mx" using assms(2) roll(2) by (simp split: if_splits)
  have inc: "unat (rl_notes ?r + 1) = unat (rl_notes ?r) + 1" if "rl_notes ?r < mx"
  proof -
    have "rl_notes ?r \<noteq> - 1" using that word_order.extremum_strict [of mx] by auto
    then show ?thesis by (simp add: unat_add_one)
  qed
  show "rl_limit (fst (rate_check t m r)) = rl_limit r"
    "rl_window_start (fst (rate_check t m r)) = (if t - rl_window_start r \<ge> WINDOW_NANOS then t else rl_window_start r)"
    using roll by (auto simp: rate_check_def Let_def split: client_message.split option.split)
  show "unat (rl_notes (fst (rate_check t m r))) =
      (if t - rl_window_start r \<ge> WINDOW_NANOS then 0 else unat (rl_notes r)) +
      of_bool (is_event_msg m \<and> snd (rate_check t m r) = None)"
    using roll assms(1) inc
    by (auto simp: rate_check_def is_event_msg_def Let_def not_le split: client_message.split option.split)
  show "rl_notes (fst (rate_check t m r)) \<le> mx"
    using roll(1) assms(1) le
    by (auto simp: rate_check_def Let_def not_le word_inc_le split: client_message.split option.split)
qed

lemma notes_passed_in: "t \<in> set (notes_passed r tms) \<Longrightarrow> t \<in> fst ` set tms"
  by (induction r tms rule: notes_passed.induct) (auto simp: Let_def split: if_splits)

lemma within_late: "\<forall>t \<in> set ts. a + WINDOW_NANOS \<le> t \<Longrightarrow> within a ts = 0"
  by (auto simp: within_def filter_empty_conv)

lemma notes_within:
  assumes "notes_per_minute (rl_limit r) = Some mx" and "rl_notes r \<le> mx"
    and "sorted (map fst tms)" and "\<forall>tm \<in> set tms. rl_window_start r \<le> fst tm"
  shows "within a (notes_passed r tms) \<le> (if a < rl_window_start r + WINDOW_NANOS
      then unat mx - unat (rl_notes r) + unat mx else 2 * unat mx) \<and>
    (a \<le> rl_window_start r \<longrightarrow> within a (notes_passed r tms) \<le> unat mx - unat (rl_notes r))"
  using assms
proof (induction tms arbitrary: r)
  case Nil
  then show ?case by (simp add: within_def)
next
  case (Cons tm tms)
  obtain t m where tm: "tm = (t, m)" by (cases tm)
  let ?c = "rate_check t m r" and ?ws = "rl_window_start r"
  let ?p = "is_event_msg m \<and> snd ?c = None"
  note chk = rate_check_note [OF Cons.prems(1,2), of t m]
  have later: "\<forall>x \<in> set tms. t \<le> fst x" using Cons.prems(3) tm by auto
  have IH: "within a (notes_passed (fst ?c) tms) \<le> (if a < rl_window_start (fst ?c) + WINDOW_NANOS
      then unat mx - unat (rl_notes (fst ?c)) + unat mx else 2 * unat mx)"
    "a \<le> rl_window_start (fst ?c) \<Longrightarrow> within a (notes_passed (fst ?c) tms) \<le> unat mx - unat (rl_notes (fst ?c))"
    using Cons.IH [of "fst ?c"] Cons.prems chk later tm by auto
  have eq: "within a (notes_passed r (tm # tms)) =
      of_bool (?p \<and> a \<le> t \<and> t < a + WINDOW_NANOS) + within a (notes_passed (fst ?c) tms)"
    by (simp add: tm Let_def within_def)
  have le: "unat (rl_notes (fst ?c)) \<le> unat mx" "unat (rl_notes r) \<le> unat mx"
    using chk(4) Cons.prems(2) by (simp_all add: word_le_nat_alt)
  show ?case
  proof (cases "t - ?ws \<ge> WINDOW_NANOS")
    case False
    have "t < ?ws + WINDOW_NANOS" using False by arith
    then show ?thesis
      using IH chk(2,3) False le unfolding eq by (auto simp: of_bool_def split: if_splits)
  next
    case True
    then have t: "?ws + WINDOW_NANOS \<le> t" using Cons.prems(4) tm by auto
    have "within a (notes_passed r (tm # tms)) = 0" if "a \<le> ?ws"
    proof (rule within_late)
      show "\<forall>x \<in> set (notes_passed r (tm # tms)). a + WINDOW_NANOS \<le> x"
        using notes_passed_in [of _ r "tm # tms"] later t that tm by force
    qed
    then show ?thesis
      using IH chk(2,3) True le t unfolding eq by (auto simp: of_bool_def split: if_splits)
  qed
qed

end
