(* ===== verification/Relay_Theorems.thy ===== *)
theory Relay_Theorems
  imports Protocol_Theorems Store_Theorems Relay_Replies Relay_Memory
begin

text \<open>
  The theorems on a connection of the relay server: who may write, who may read, what is sent,
  and what the connection keeps within its limits, for every sequence of frames, broadcast
  events and changes other connections make to the shared store.
\<close>

section \<open>Definitions the theorems use\<close>

text \<open>A run of a connection: it starts as \<open>handle_connection\<close> does, with nothing sent yet.\<close>

definition conn_run ::
  "crates \<Rightarrow> sig_text \<Rightarrow> wire_crate \<Rightarrow> url_crate \<Rightarrow> ('v, 'r) negentropy \<Rightarrow> 's connection_context \<Rightarrow>
   conn_input list \<Rightarrow> ('s, 'r) conn \<Rightarrow> bool" where
  "conn_run X Y W U N C is c \<longleftrightarrow>
     (\<exists>v0 k s bc c0 fl. sk_sent k = [] \<and> conn_start C v0 k s bc = (c0, Continue) \<and>
        conn_reachable X Y W U N C c0 is c fl)"

lemma conn_startE:
  assumes "conn_start C v k s bc = (c, fl)" and "sk_sent k = []"
  shows "conn_inv C c" and "au_pubkey (cn_auth c) = None"
    and "\<forall>m. OutRelay m \<in> set (sk_sent (cn_sink c)) \<longrightarrow> (\<exists>ch. m = RAuth ch)"
proof -
  show "conn_inv C c" by (rule conn_start_inv [OF assms(1)])
  show "au_pubkey (cn_auth c) = None" "\<forall>m. OutRelay m \<in> set (sk_sent (cn_sink c)) \<longrightarrow> (\<exists>ch. m = RAuth ch)"
    using assms
    by (auto simp: conn_start_def Let_def send_relay_def send_out_def sink_send_def split: if_splits option.splits nat.splits)
qed

lemma conn_runE:
  assumes "conn_run X Y W U N C is c"
  obtains c0 fl where "conn_reachable X Y W U N C c0 is c fl" and "conn_inv C c0" and "conn_inv C c"
    and "au_pubkey (cn_auth c0) = None" and "\<forall>m. OutRelay m \<in> set (sk_sent (cn_sink c0)) \<longrightarrow> (\<exists>ch. m = RAuth ch)"
  using assms unfolding conn_run_def by (metis conn_startE conn_reachable_inv)

text \<open>The run proves that \<open>pk\<close> answered this connection's challenge.\<close>

definition proved_key ::
  "crates \<Rightarrow> sig_text \<Rightarrow> wire_crate \<Rightarrow> url_crate \<Rightarrow> 's connection_context \<Rightarrow> conn_input list \<Rightarrow> ('s, 'r) conn \<Rightarrow>
   public_key \<Rightarrow> bool" where
  "proved_key X Y W U C is c pk \<longleftrightarrow> list_ex (auth_proof X Y W U C (au_challenge (cn_auth c)) pk) is"

lemma run_proved:
  assumes "conn_run X Y W U N C is c" and "au_pubkey (cn_auth c) = Some pk"
  shows "proved_key X Y W U C is c pk"
  using assms by (auto elim!: conn_runE dest!: reachable_auth_proof simp: proved_key_def list_ex_iff)

lemma run_authenticated:
  assumes "conn_run X Y W U N C is c" and "au_authenticated (cn_auth c)" and "mode_is_enabled (cx_nip42_mode C)"
  shows "\<exists>pk. proved_key X Y W U C is c pk"
proof -
  have "auth_ok C (cn_auth c)" using assms(1) by (auto elim!: conn_runE simp: conn_inv_def)
  with assms(2,3) obtain pk where "au_pubkey (cn_auth c) = Some pk" by (auto simp: auth_ok_def)
  from run_proved [OF assms(1) this] show ?thesis by blast
qed

section \<open>A sample run\<close>

definition sample_neg :: "(unit, unit) negentropy" where
  "sample_neg = \<lparr>ng_vector = (), ng_insert = (\<lambda>_ _ _. Inr ()), ng_seal = Inr, ng_owned = (\<lambda>_ _. Inr ()),
     ng_reconcile = (\<lambda>_ bs. ((), Inr bs))\<rparr>"

definition sample_env :: env where
  "sample_env = \<lparr>env_now = Inr 1000, env_instant = 0, env_nanos = 5, env_keys = None\<rparr>"

definition sample_context :: "nip42_mode \<Rightarrow> memory_store connection_context" where
  "sample_context mode = context_of (opt_nip42_mode mode options_default)
     (memory_database sample_crates (Inr 1000)) accept_all_writes accept_all_queries ''ws://r''
     (SocketAddr [127, 0, 0, 1] 7000)"

definition sample_challenge :: string where "sample_challenge = ''nula-mock-0000000000000005''"

definition sample_auth :: event where
  "sample_auth = (case builder_sign_with_keys sample_crates (Some 900) (auth_event ''ws://r'' sample_challenge)
     (keys_from_secret_key sample_crates sample_pk) of Inr e \<Rightarrow> e)"

text \<open>The texts \<open>auth\<close>, \<open>event\<close> and \<open>req\<close> are JSON; nothing else is.\<close>

definition sample_wire :: wire_crate where
  "sample_wire = \<lparr>
     wc_json = (\<lambda>t.
       if t = ''auth'' then Some (client_serialize sample_crates sample_sig_text (CAuth sample_auth))
       else if t = ''event'' then Some (client_serialize sample_crates sample_sig_text (CEvent sample_wire_event))
       else if t = ''req'' then Some (client_serialize sample_crates sample_sig_text (CReq ''q'' [filter_new]))
       else None),
     wc_error_text = id\<rparr>"

definition sample_start :: "nip42_mode \<Rightarrow> (memory_store, unit) conn" where
  "sample_start mode = fst (conn_start (sample_context mode) sample_env \<lparr>sk_sent = [], sk_left = None\<rparr> sample_store [])"

abbreviation sample_text :: "string \<Rightarrow> conn_input" where
  "sample_text t \<equiv> Inbound sample_env (Some (WsText t))"

abbreviation sample_step ::
  "nip42_mode \<Rightarrow> conn_input \<Rightarrow> (memory_store, unit) conn \<Rightarrow> (memory_store, unit) conn \<times> control_flow" where
  "sample_step mode \<equiv> conn_step sample_crates sample_sig_text sample_wire sample_url sample_neg (sample_context mode)"

abbreviation sample_run :: "nip42_mode \<Rightarrow> conn_input list \<Rightarrow> (memory_store, unit) conn \<Rightarrow> bool" where
  "sample_run mode \<equiv> conn_run sample_crates sample_sig_text sample_wire sample_url sample_neg (sample_context mode)"

lemma sample_auth_built:
  "builder_sign_with_keys sample_crates (Some 900) (auth_event ''ws://r'' sample_challenge)
     (keys_from_secret_key sample_crates sample_pk) = Inr sample_auth"
  by (rule builder_sign_total [where b = "auth_event ''ws://r'' sample_challenge" and clock = "Some 900"
        and X = sample_crates and ks = "keys_from_secret_key sample_crates sample_pk"])
    (simp_all add: sample_auth_def)

lemma sample_decodes:
  "client_from_json sample_crates sample_sig_text sample_wire ''auth'' = Some (CAuth sample_auth)"
  "client_from_json sample_crates sample_sig_text sample_wire ''event'' = Some (CEvent sample_wire_event)"
  "client_from_json sample_crates sample_sig_text sample_wire ''req'' = Some (CReq ''q'' [filter_new])"
proof -
  have "list_all tag_wf (items (b_tags (auth_event ''ws://r'' sample_challenge)))" by code_simp
  with sample_signed_wf [OF sample_auth_built] have "event_wf sample_crates sample_auth"
    by (simp add: sample_pk_def)
  then show "client_from_json sample_crates sample_sig_text sample_wire ''auth'' = Some (CAuth sample_auth)"
    using client_round_trip_aux [OF sample_hex_laws sample_sig_laws, of "CAuth sample_auth"]
    by (simp add: client_from_json_def sample_wire_def)
  show "client_from_json sample_crates sample_sig_text sample_wire ''event'' = Some (CEvent sample_wire_event)"
    using client_round_trip_aux [OF sample_hex_laws sample_sig_laws, of "CEvent sample_wire_event"] sample_wire_event_wf
    by (simp add: client_from_json_def sample_wire_def)
  have "client_message_wf sample_crates (CReq ''q'' [filter_new])"
    by (simp add: subscription_id_wf_def MAX_LENGTH_def filter_wf_def filter_new_def)
  then show "client_from_json sample_crates sample_sig_text sample_wire ''req'' = Some (CReq ''q'' [filter_new])"
    using client_round_trip_aux [OF sample_hex_laws sample_sig_laws, of "CReq ''q'' [filter_new]"]
    by (simp add: client_from_json_def sample_wire_def)
qed

lemma sample_start_eq:
  "conn_start (sample_context mode) sample_env \<lparr>sk_sent = [], sk_left = None\<rparr> sample_store [] = (sample_start mode, Continue)"
  "sample_start Both = \<lparr>cn_store = sample_store, cn_broadcast = [],
     cn_sink = \<lparr>sk_sent = [OutRelay (RAuth sample_challenge)], sk_left = None\<rparr>, cn_subscriptions = [], cn_neg_sessions = [],
     cn_auth = \<lparr>au_authenticated = False, au_pubkey = None, au_challenge = sample_challenge\<rparr>,
     cn_rate = rate_new RATE_LIMIT_DISABLED 0\<rparr>"
proof -
  show "conn_start (sample_context mode) sample_env \<lparr>sk_sent = [], sk_left = None\<rparr> sample_store [] = (sample_start mode, Continue)"
    unfolding sample_start_def by (simp add: conn_start_def Let_def send_relay_def send_out_def sink_send_def)
  have "new_challenge sample_env = sample_challenge"
    by (simp add: new_challenge_def random_hex_token_def sample_env_def sample_challenge_def hex_digit_def upt_rec)
      (code_simp)
  then show "sample_start Both = \<lparr>cn_store = sample_store, cn_broadcast = [],
     cn_sink = \<lparr>sk_sent = [OutRelay (RAuth sample_challenge)], sk_left = None\<rparr>, cn_subscriptions = [], cn_neg_sessions = [],
     cn_auth = \<lparr>au_authenticated = False, au_pubkey = None, au_challenge = sample_challenge\<rparr>,
     cn_rate = rate_new RATE_LIMIT_DISABLED 0\<rparr>"
    by (simp add: sample_start_def conn_start_def Let_def send_relay_def send_out_def sink_send_def sample_context_def
        context_of_def opt_nip42_mode_def options_default_def mode_is_enabled_def sample_env_def)
qed

lemma sample_run_start: "sample_run mode [] (sample_start mode)"
  unfolding conn_run_def using sample_start_eq(1) [of mode] run_start by (metis ws_sink.select_convs(1))

text \<open>The key answers the challenge, then publishes.\<close>

definition sample_authed :: "(memory_store, unit) conn" where
  "sample_authed = (sample_start Both)\<lparr>
     cn_sink := \<lparr>sk_sent = [OutRelay (RAuth sample_challenge), OutRelay (ROk (ev_id sample_auth) True [])], sk_left = None\<rparr>,
     cn_auth := \<lparr>au_authenticated = True, au_pubkey = Some sample_pk, au_challenge = sample_challenge\<rparr>\<rparr>"

lemmas sample_context_defs = sample_context_def context_of_def opt_nip42_mode_def options_default_def

lemma rate_check_disabled: "rate_check 0 m (rate_new RATE_LIMIT_DISABLED 0) = (rate_new RATE_LIMIT_DISABLED 0, None)"
  by (simp add: rate_check_def rate_new_def rate_roll_def RATE_LIMIT_DISABLED_def WINDOW_NANOS_def Let_def split: client_message.split)

lemma sample_auth_verifies: "verify_client_auth sample_crates sample_url sample_env sample_auth ''ws://r'' sample_challenge = Inr ()"
proof -
  note e = builder_sign_fields [OF sample_auth_built sample_schnorr_laws]
  have "b_created_at (auth_event ''ws://r'' sample_challenge) = None" by code_simp
  with e(6) have t: "ev_created_at sample_auth = 900" by simp
  have "relay_url_parse sample_url ''ws://r'' = Inr ''ws://r''" by code_simp
  then have "verify_auth_event sample_url sample_auth ''ws://r'' sample_challenge 1000 DEFAULT_MAX_AGE_SECS = Inr ()"
    by (rule auth_event_verifies [OF _ _ e(2,1)]) (simp_all add: sample_challenge_def t DEFAULT_MAX_AGE_SECS_def)
  with e(4) show ?thesis by (simp add: verify_client_auth_Inr sample_env_def)
qed

lemma sample_auth_step: "sample_step Both (sample_text ''auth'') (sample_start Both) = (sample_authed, Continue)"
proof -
  have "ev_pubkey sample_auth = sample_pk"
    using builder_sign_fields(5) [OF sample_auth_built sample_schnorr_laws] by (simp add: sample_crates_def)
  moreover have "message_needs_auth (CAuth sample_auth) Both = False" by (simp add: message_needs_auth_def)
  moreover have "env_instant sample_env = 0" by (simp add: sample_env_def)
  ultimately show ?thesis
    using sample_auth_verifies
    by (simp add: conn_step_def handle_inbound_frame_def sample_decodes handle_client_message_def dispatch_def Let_def
        sample_start_eq(2) sample_authed_def rate_check_disabled open_send sample_context_defs)
qed

lemma sample_run_authed: "sample_run Both [sample_text ''auth''] sample_authed"
  unfolding conn_run_def
  using sample_start_eq(1) [of Both] run_step [OF run_start sample_auth_step] by (metis append_Nil ws_sink.select_convs(1))

lemma sample_event_step:
  obtains c' where "sample_step Both (sample_text ''event'') sample_authed = (c', Continue)"
    and "cn_broadcast c' = [sample_wire_event]"
    and "event_by_id (cn_store c') (ev_id sample_wire_event) = Some sample_wire_event"
proof -
  let ?e = sample_wire_event
  have "map_option snd (save_event sample_crates ?e 1000 sample_store) = Some Success" by code_simp
  then obtain s' where s': "save_event sample_crates ?e 1000 sample_store = Some (s', Success)" by auto
  have chk: "check_expired sample_env ?e = None" "is_protected ?e = False" "env_instant sample_env = 0" by code_simp+
  have "sample_step Both (sample_text ''event'') sample_authed =
     (sample_authed\<lparr>cn_store := s', cn_broadcast := [?e],
        cn_sink := \<lparr>sk_sent = sk_sent (cn_sink sample_authed) @ [OutRelay (ROk (ev_id ?e) True [])], sk_left = None\<rparr>\<rparr>, Continue)"
    by (simp add: conn_step_def handle_inbound_frame_def sample_decodes handle_client_message_def dispatch_def Let_def
        sample_authed_def sample_start_eq(2) rate_check_disabled handle_event_def chk check_protected_def open_send
        memory_database_def memory_save_def s' save_reply_def and_then_def accept_all_writes_def sample_context_defs)
  moreover have "event_by_id s' (ev_id ?e) = Some ?e"
    using mem.accepted_live [OF _ s'] sample_store_inv by (simp add: memory_options_new_def)
  ultimately show thesis using that by simp
qed

text \<open>A request before the key is proved, and one after.\<close>

definition sample_subscribed :: "(memory_store, unit) conn" where
  "sample_subscribed = fst (sample_step Both (sample_text ''req'') sample_authed)"

lemma sample_req_open:
  "req_open (sample_context Both) ''q'' [filter_new] sample_authed"
  "admit_filters (sample_context Both) [filter_new] = Inr [filter_new]"
  "cx_storage (sample_context Both) = memory_database sample_crates (Inr 1000)"
  "cn_store sample_authed = sample_store" "sk_left (cn_sink sample_authed) = None"
  by (simp_all add: req_open_def subid_too_long_def too_many_subscriptions_def sample_context_defs accept_all_queries_def
      apply_filter_limits_def Let_def sample_authed_def sample_start_eq(2) split: option.split)

lemma sample_req_step:
  "sample_step Both (sample_text ''req'') sample_authed = (sample_subscribed, Continue)"
  "map_of (cn_subscriptions sample_subscribed) ''q'' = Some [filter_new]" "sk_left (cn_sink sample_subscribed) = None"
proof -
  have q: "map (\<lambda>f. db_query (cx_storage (sample_context Both)) f (cn_store sample_authed)) [filter_new] =
      map Inr [ev_inner (database_query sample_store filter_new)]"
    by (simp add: sample_req_open memory_database_def memory_query_def)
  have mode: "au_authenticated (cn_auth sample_authed)" "env_instant sample_env = 0"
    "cn_rate sample_authed = rate_new RATE_LIMIT_DISABLED 0" "cx_unresponsive (sample_context Both) = False"
    "cn_subscriptions sample_authed = []"
    by (simp_all add: sample_authed_def sample_start_eq(2) sample_env_def sample_context_defs)
  then have "sample_authed\<lparr>cn_rate := rate_new RATE_LIMIT_DISABLED 0\<rparr> = sample_authed" by simp
  then have same: "handle_req sample_crates (sample_context Both) sample_env ''q'' [filter_new]
      (sample_authed\<lparr>cn_rate := rate_new RATE_LIMIT_DISABLED 0\<rparr>) =
      handle_req sample_crates (sample_context Both) sample_env ''q'' [filter_new] sample_authed" by (simp only:)
  with mode open_req [OF sample_req_open(5,1,2) q, of sample_crates sample_env]
  show "sample_step Both (sample_text ''req'') sample_authed = (sample_subscribed, Continue)"
    "map_of (cn_subscriptions sample_subscribed) ''q'' = Some [filter_new]" "sk_left (cn_sink sample_subscribed) = None"
    by (simp_all add: sample_subscribed_def conn_step_def handle_inbound_frame_def sample_decodes handle_client_message_def
        dispatch_def Let_def rate_check_disabled sample_req_open same hm_insert_def)
qed

lemma sample_run_subscribed: "sample_run Both [sample_text ''auth'', sample_text ''req''] sample_subscribed"
  unfolding conn_run_def
  using sample_start_eq(1) [of Both] run_step [OF run_step [OF run_start sample_auth_step] sample_req_step(1)]
  by (metis append_Nil append_Cons ws_sink.select_convs(1))

text \<open>Without the proof the request is refused.\<close>

lemma sample_refused:
  obtains c where "sample_run Both [sample_text ''req''] c"
    and "OutRelay (RClosed ''q'' (prefixed PfxAuthRequired ''authentication required to read'')) \<in> set (sk_sent (cn_sink c))"
proof -
  let ?m = "RClosed ''q'' (prefixed PfxAuthRequired ''authentication required to read'')"
  let ?c = "fst (send_relay ?m (sample_start Both))"
  have "sample_step Both (sample_text ''req'') (sample_start Both) = (?c, Continue)"
    by (simp add: conn_step_def handle_inbound_frame_def sample_decodes handle_client_message_def sample_start_eq(2)
        message_needs_auth_def requires_for_read_def auth_required_reply_def sample_context_defs)
  then have "sample_run Both [sample_text ''req''] ?c"
    unfolding conn_run_def using sample_start_eq(1) [of Both] run_step [OF run_start] by (metis append_Nil ws_sink.select_convs(1))
  then show thesis using that [of ?c] by (simp add: open_send sample_start_eq(2))
qed

section \<open>Writing\<close>

text \<open>C8. Nothing reaches the store but events that passed every gate: if a step of a connection changes the
  store or the broadcast channel, the input was a text frame with an \<open>EVENT\<close>; if the relay requires
  authentication to write, a key answered this connection's challenge before; the event was not
  expired, had the proof of work asked for, was, if protected (NIP-70), sent by its own author, as the
  authentication proved, and the write policy accepted it for this peer. The store then did
  exactly one save of it. The only message sent in the step is the answer to the publisher: positive if the store took the event or
  refused it only as ephemeral, and otherwise negative with the reason of the store; it is missing only when the socket failed, and
  then the connection ends. The event was broadcast, once, exactly when a positive answer had been sent.\<close>

theorem relay_write_gate:
  assumes "conn_run X Y W U N C is c" and "conn_step X Y W U N C inp c = (c', fl)"
    and "cn_store c' \<noteq> cn_store c \<or> cn_broadcast c' \<noteq> cn_broadcast c"
  shows "\<exists>v body e. inp = Inbound v (Some (WsText body)) \<and> client_from_json X Y W body = Some (CEvent e) \<and>
    (requires_for_write (cx_nip42_mode C) \<longrightarrow> (\<exists>pk. proved_key X Y W U C is c pk)) \<and>
    (\<forall>now. env_now v = Inr now \<longrightarrow> is_expired e now \<noteq> Inr True) \<and>
    opt_all (\<lambda>d. verify_pow e d = Inr ()) (cx_min_pow C) \<and>
    (is_protected e \<longrightarrow> proved_key X Y W U C is c (ev_pubkey e)) \<and>
    cx_write_policy C e (cx_peer C) = Accept \<and>
    (\<exists>result answered. db_save_event (cx_storage C) e (cn_store c) = (cn_store c', result) \<and>
       sk_sent (cn_sink c') = sk_sent (cn_sink c) @
         (if answered then [OutRelay (ROk (ev_id e) (save_taken result) (save_reason result))] else []) \<and>
       cn_broadcast c' = cn_broadcast c @ (if answered \<and> save_taken result then [e] else []) \<and>
       (fl = Continue \<longrightarrow> answered))"
proof -
  from step_writes [OF assms(2)] assms(3) obtain v body e r where
    *: "inp = Inbound v (Some (WsText body))" "client_from_json X Y W body = Some (CEvent e)"
      "requires_for_write (cx_nip42_mode C) \<longrightarrow> au_authenticated (cn_auth c)"
      "event_admitted C v (cn_auth c) e" "published C e (metered v (CEvent e) c) c' r" "fl = Continue \<longrightarrow> r = Inr ()"
    by (auto simp: shared_kept_def)
  obtain s' result where sv: "db_save_event (cx_storage C) e (cn_store c) = (s', result)" by fastforce
  have "db_save_event (cx_storage C) e (cn_store c) = (cn_store c', result) \<and>
       sk_sent (cn_sink c') = sk_sent (cn_sink c) @
         (if r = Inr () then [OutRelay (ROk (ev_id e) (save_taken result) (save_reason result))] else []) \<and>
       cn_broadcast c' = cn_broadcast c @ (if r = Inr () \<and> save_taken result then [e] else []) \<and>
       (fl = Continue \<longrightarrow> r = Inr ())"
    using published_effect [OF *(5)] *(6) sv by simp
  moreover have "requires_for_write (cx_nip42_mode C) \<longrightarrow> (\<exists>pk. proved_key X Y W U C is c pk)"
    using run_authenticated [OF assms(1)] *(3)
    by (cases "cx_nip42_mode C") (auto simp: requires_for_write_def mode_is_enabled_def)
  moreover note admitted_gates [OF *(4)]
  moreover have "is_protected e \<longrightarrow> proved_key X Y W U C is c (ev_pubkey e)"
    using *(4) run_proved [OF assms(1)] by (auto simp: event_admitted_def)
  ultimately show ?thesis using *(1,2) by blast
qed

theorem relay_write_gate_witness:
  "proved_key sample_crates sample_sig_text sample_wire sample_url (sample_context Both) [sample_text ''auth''] sample_authed sample_pk \<and>
   (\<exists>c' pk. sample_step Both (sample_text ''event'') sample_authed = (c', Continue) \<and>
      proved_key sample_crates sample_sig_text sample_wire sample_url (sample_context Both) [sample_text ''auth''] sample_authed pk \<and>
      cn_broadcast c' = [sample_wire_event])"
proof -
  obtain c' where c': "sample_step Both (sample_text ''event'') sample_authed = (c', Continue)"
    and b: "cn_broadcast c' = [sample_wire_event]" by (rule sample_event_step)
  have "cn_broadcast sample_authed = []" "cx_nip42_mode (sample_context Both) = Both"
    by (simp_all add: sample_authed_def sample_start_eq(2) sample_context_defs)
  then obtain pk where
    "proved_key sample_crates sample_sig_text sample_wire sample_url (sample_context Both) [sample_text ''auth''] sample_authed pk"
    using relay_write_gate [OF sample_run_authed c'] b by (auto simp: requires_for_write_def)
  moreover have "proved_key sample_crates sample_sig_text sample_wire sample_url (sample_context Both) [sample_text ''auth''] sample_authed sample_pk"
    by (rule run_proved [OF sample_run_authed]) (simp add: sample_authed_def)
  ultimately show ?thesis using c' b by blast
qed

text \<open>C22. Over the in-memory store every step of a connection keeps the store's invariant and changes it, if at
  all, by one abstract save: of an event that was sent in an \<open>EVENT\<close> frame, with the status of the specification.
  A refused save changes nothing.\<close>

theorem relay_store_refines:
  assumes "conn_step X Y W U N C inp c = (c', fl)" and "cx_storage C = memory_database X (Inr now)"
    and "store_inv (cn_store c)"
  shows "store_inv (cn_store c') \<and> ms_options (cn_store c') = ms_options (cn_store c) \<and>
    (cn_store c' = cn_store c \<or>
     (\<exists>v body e st. inp = Inbound v (Some (WsText body)) \<and> client_from_json X Y W body = Some (CEvent e) \<and>
        spec_save X (ms_options (cn_store c)) e now (store_abs (cn_store c)) = (store_abs (cn_store c'), st) \<and>
        (st \<noteq> Success \<longrightarrow> store_abs (cn_store c') = store_abs (cn_store c))))"
proof (cases "shared_kept c c'")
  case True
  then show ?thesis using assms(3) by (simp add: shared_kept_def)
next
  case False
  from step_writes [OF assms(1) False] obtain v body e r where
    *: "inp = Inbound v (Some (WsText body))" "client_from_json X Y W body = Some (CEvent e)"
      "published C e (metered v (CEvent e) c) c' r" by blast
  obtain s' st where s': "save_event X e now (cn_store c) = Some (s', st)" "store_inv s'"
    "ms_options s' = ms_options (cn_store c)"
    "spec_save X (ms_options (cn_store c)) e now (store_abs (cn_store c)) = (store_abs s', st)"
    by (rule save_refines [OF assms(3)])
  have "cn_store c' = s'"
    using published_effect(1) [OF *(3)] assms(2) s'(1) by (simp add: memory_database_def memory_save_def)
  moreover have "st \<noteq> Success \<longrightarrow> store_abs s' = store_abs (cn_store c)"
    using mem.rejected_unchanged [OF assms(3)] s'(1) by (cases st) auto
  ultimately show ?thesis using * s' by blast
qed

theorem relay_store_refines_witness:
  "\<exists>c'. sample_step Both (sample_text ''event'') sample_authed = (c', Continue) \<and> store_inv (cn_store c')"
proof -
  obtain c' where c': "sample_step Both (sample_text ''event'') sample_authed = (c', Continue)"
    by (rule sample_event_step)
  have "cx_storage (sample_context Both) = memory_database sample_crates (Inr 1000)"
    "store_inv (cn_store sample_authed)"
    using sample_store_inv by (simp_all add: sample_context_defs sample_authed_def sample_start_eq(2))
  with relay_store_refines [OF c'] c' show ?thesis by blast
qed

text \<open>The relay does not verify what it stores: a connection can publish an event whose id is not the digest of
  its content and whose signature is not valid; it is answered with a positive \<open>OK\<close>, saved and broadcast, although
  the storage interface relies on the relay for that check.\<close>

theorem relay_publishes_unverified:
  "\<exists>is (c :: (memory_store, unit) conn) inp c' e. sample_run Both is c \<and> sample_step Both inp c = (c', Continue) \<and>
     verify sample_crates e \<noteq> Inr () \<and> cn_broadcast c' = cn_broadcast c @ [e] \<and>
     event_by_id (cn_store c') (ev_id e) = Some e"
proof -
  obtain c' where c': "sample_step Both (sample_text ''event'') sample_authed = (c', Continue)"
    "cn_broadcast c' = [sample_wire_event]" "event_by_id (cn_store c') (ev_id sample_wire_event) = Some sample_wire_event"
    by (rule sample_event_step)
  moreover have "verify sample_crates sample_wire_event \<noteq> Inr ()" by code_simp
  moreover have "cn_broadcast sample_authed = []" by (simp add: sample_authed_def sample_start_eq(2))
  ultimately show ?thesis using sample_run_authed by (metis append_Nil)
qed

section \<open>Authentication and reading\<close>

text \<open>C17. An authenticated key was proved on this connection: whenever a connection counts as authenticated as
  \<open>pk\<close>, a frame of this connection carried an event signed by \<open>pk\<close> that verified, named this relay and this
  connection's challenge, and was created within ten minutes of the clock; and on a relay that asks for
  authentication no connection counts as authenticated without such a key.\<close>

theorem relay_auth_provenance:
  assumes "conn_run X Y W U N C is c"
  shows "(au_pubkey (cn_auth c) = Some pk \<longrightarrow>
      (\<exists>v body e now. Inbound v (Some (WsText body)) \<in> set is \<and> client_from_json X Y W body = Some (CAuth e) \<and>
         ev_pubkey e = pk \<and> verify X e = Inr () \<and> env_now v = Inr now \<and>
         verify_auth_event U e (cx_relay_url C) (au_challenge (cn_auth c)) now DEFAULT_MAX_AGE_SECS = Inr ())) \<and>
    (mode_is_enabled (cx_nip42_mode C) \<and> au_authenticated (cn_auth c) \<longrightarrow> au_pubkey (cn_auth c) \<noteq> None)"
proof -
  have "auth_ok C (cn_auth c)" using assms by (auto elim!: conn_runE simp: conn_inv_def)
  then have "mode_is_enabled (cx_nip42_mode C) \<and> au_authenticated (cn_auth c) \<longrightarrow> au_pubkey (cn_auth c) \<noteq> None"
    by (auto simp: auth_ok_def)
  moreover have "\<exists>v body e now. Inbound v (Some (WsText body)) \<in> set is \<and> client_from_json X Y W body = Some (CAuth e) \<and>
         ev_pubkey e = pk \<and> verify X e = Inr () \<and> env_now v = Inr now \<and>
         verify_auth_event U e (cx_relay_url C) (au_challenge (cn_auth c)) now DEFAULT_MAX_AGE_SECS = Inr ()"
    if "au_pubkey (cn_auth c) = Some pk"
    using run_proved [OF assms that] by (auto simp: proved_key_def list_ex_iff auth_proof_def)
  ultimately show ?thesis by blast
qed

theorem relay_auth_provenance_witness:
  "\<exists>v body e. Inbound v (Some (WsText body)) \<in> set [sample_text ''auth''] \<and>
     client_from_json sample_crates sample_sig_text sample_wire body = Some (CAuth e) \<and> ev_pubkey e = sample_pk"
proof -
  have "au_pubkey (cn_auth sample_authed) = Some sample_pk" by (simp add: sample_authed_def)
  with relay_auth_provenance [OF sample_run_authed, of sample_pk] show ?thesis by blast
qed

text \<open>C9. A relay that asks its readers to authenticate tells the others nothing: as long as a connection is not
  authenticated, whatever it sent and whatever others publish meanwhile, no stored or live event, no
  count and no reconciliation message has been sent to it.\<close>

theorem relay_read_gate:
  assumes "conn_run X Y W U N C is c" and "requires_for_read (cx_nip42_mode C)"
    and "\<not> au_authenticated (cn_auth c)"
  shows "OutRelay (REvent i e) \<notin> set (sk_sent (cn_sink c)) \<and> OutRelay (RCount i n) \<notin> set (sk_sent (cn_sink c)) \<and>
    OutRelay (RNegMsg i t) \<notin> set (sk_sent (cn_sink c)) \<and> cn_subscriptions c = [] \<and> cn_neg_sessions c = []"
  using assms(1)
proof (rule conn_runE)
  fix c0 fl
  assume r: "conn_reachable X Y W U N C c0 is c fl" and inv: "conn_inv C c0" "conn_inv C c"
    and start: "\<forall>m. OutRelay m \<in> set (sk_sent (cn_sink c0)) \<longrightarrow> (\<exists>ch. m = RAuth ch)"
  have "quiet c0 c" by (rule reachable_quiet [OF r inv(1) assms(2,3)])
  then have told: "\<not> discloses m" if "OutRelay m \<in> set (sk_sent (cn_sink c))" for m
    using that start by (fastforce simp: quiet_def discloses_def)
  have "cn_subscriptions c = [] \<and> cn_neg_sessions c = []" using inv(2) assms(2,3) by (simp add: conn_inv_def)
  with told [of "REvent i e"] told [of "RCount i n"] told [of "RNegMsg i t"] show ?thesis
    by (auto simp: discloses_def)
qed

theorem relay_read_gate_witness:
  "OutRelay (REvent ''q'' sample_note) \<notin> set (sk_sent (cn_sink (sample_start Both)))"
proof -
  have "requires_for_read (cx_nip42_mode (sample_context Both))" "\<not> au_authenticated (cn_auth (sample_start Both))"
    by (simp_all add: sample_context_defs sample_start_eq(2) requires_for_read_def)
  from relay_read_gate [OF sample_run_start this] show ?thesis by blast
qed

section \<open>Subscriptions\<close>

text \<open>C21. A served request is answered in full: on an open socket, over the in-memory store, a \<open>REQ\<close> within the
  relay's limits whose filters the query policy admits is answered with the stored matches of each
  admitted filter in turn, newest first, and then \<open>EOSE\<close>, and nothing else is sent; every event sent is in the
  store and selected by its filter; and the subscription holds the admitted filters.\<close>

theorem relay_req_answer:
  assumes "cx_storage C = memory_database X now" and "store_inv (cn_store c)" and "sk_left (cn_sink c) = None"
    and "req_open C i fs c" and "admit_filters C fs = Inr fs'" and "conn_inv C c"
  shows "\<exists>c' ess. handle_req X C v i fs c = (c', Inr ()) \<and>
    sk_sent (cn_sink c') = sk_sent (cn_sink c) @ map OutRelay (concat (map (map (REvent i)) ess) @ [REndOfStoredEvents i]) \<and>
    list_all2 (\<lambda>f es. es = ev_inner (database_query (cn_store c) f) \<and> sorted_wrt (<) (map key_from_event es) \<and>
      list_all (\<lambda>e. filter_selects f e \<and> event_by_id (cn_store c) (ev_id e) = Some e) es) fs' ess \<and>
    map_of (cn_subscriptions c') = (map_of (cn_subscriptions c))(i \<mapsto> fs') \<and>
    length fs' = length fs \<and> list_all (limit_ok C) fs'"
proof -
  let ?q = "\<lambda>f. ev_inner (database_query (cn_store c) f)"
  have q: "map (\<lambda>f. db_query (cx_storage C) f (cn_store c)) fs' = map Inr (map ?q fs')"
    by (simp add: assms(1) memory_database_def memory_query_def)
  have "list_all (\<lambda>e. filter_selects f e \<and> event_by_id (cn_store c) (ev_id e) = Some e) (?q f)" for f
    using memory_answer_sound [OF assms(2), of f] by (auto simp: memory_query_def list_all_iff)
  moreover have "sorted_wrt (<) (map key_from_event (?q f))" for f by (rule memory_answer_sorted [OF assms(2)])
  ultimately have "list_all2 (\<lambda>f es. es = ?q f \<and> sorted_wrt (<) (map key_from_event es) \<and>
      list_all (\<lambda>e. filter_selects f e \<and> event_by_id (cn_store c) (ev_id e) = Some e) es) fs' (map ?q fs')"
    by (simp add: list_all2_conv_all_nth)
  then show ?thesis
    using open_req [OF assms(3,4,5) q, of X v] admit_filters_ok [OF assms(5)] assms(6)
    by (intro exI [of _ "fst (handle_req X C v i fs c)"] exI [of _ "map ?q fs'"])
      (simp add: hm.lookup_ins conn_inv_def)
qed

theorem relay_req_answer_witness:
  "\<exists>c'. handle_req sample_crates (sample_context Both) sample_env ''q'' [filter_new] sample_authed = (c', Inr ()) \<and>
     map_of (cn_subscriptions c') ''q'' = Some [filter_new]"
proof -
  have "conn_inv (sample_context Both) sample_authed" using sample_run_authed by (rule conn_runE)
  then show ?thesis
    using relay_req_answer [OF sample_req_open(3) _ sample_req_open(5,1,2), of sample_env] sample_store_inv
    by (auto simp: sample_req_open(4))
qed

text \<open>C26. A live event goes to exactly the subscriptions that ask for it: on an open socket the step for an event
  from the channel sends it once for each subscription with a filter that selects it, under that
  subscription's id, to no other, and changes nothing else; it never ends the connection.\<close>

theorem relay_forward:
  assumes "conn_run X Y W U N C is c" and "sk_left (cn_sink c) = None"
  shows "\<exists>ids. conn_step X Y W U N C (LiveEvent (Some e)) c =
      (c\<lparr>cn_sink := (cn_sink c)\<lparr>sk_sent := sk_sent (cn_sink c) @ map (\<lambda>i. OutRelay (REvent i e)) ids\<rparr>\<rparr>, Continue) \<and>
    distinct ids \<and>
    set ids = {i. \<exists>fs. map_of (cn_subscriptions c) i = Some fs \<and> list_ex (\<lambda>f. filter_selects f e) fs}"
proof -
  have inv: "hm_invar (cn_subscriptions c)" using assms(1) by (auto elim!: conn_runE simp: conn_inv_def)
  let ?hit = "\<lambda>s. list_ex (\<lambda>f. filter_selects f e) (snd s)"
  let ?ids = "map fst (filter ?hit (cn_subscriptions c))"
  have "distinct ?ids" using inv by (simp add: hm_invar_def distinct_map_filter)
  moreover have "set ?ids = {i. \<exists>fs. map_of (cn_subscriptions c) i = Some fs \<and> list_ex (\<lambda>f. filter_selects f e) fs}"
    using inv by (force simp: hm_invar_def)
  moreover have "conn_step X Y W U N C (LiveEvent (Some e)) c =
      (c\<lparr>cn_sink := (cn_sink c)\<lparr>sk_sent := sk_sent (cn_sink c) @ map (\<lambda>i. OutRelay (REvent i e)) ?ids\<rparr>\<rparr>, Continue)"
    by (simp add: conn_step_def forward_to_subscriptions_def open_send_all [OF assms(2)] match_event_default comp_def)
  ultimately show ?thesis by blast
qed

theorem relay_forward_witness:
  "\<exists>ids c'. sample_step Both (LiveEvent (Some sample_note)) sample_subscribed = (c', Continue) \<and>
     ''q'' \<in> set ids \<and> sk_sent (cn_sink c') = sk_sent (cn_sink sample_subscribed) @ map (\<lambda>i. OutRelay (REvent i sample_note)) ids"
proof -
  have "filter_selects filter_new sample_note" by (simp add: filter_selects_def filter_new_def)
  then have "''q'' \<in> {i. \<exists>fs. map_of (cn_subscriptions sample_subscribed) i = Some fs \<and> list_ex (\<lambda>f. filter_selects f sample_note) fs}"
    using sample_req_step(2) by simp
  with relay_forward [OF sample_run_subscribed sample_req_step(3), of sample_note] show ?thesis by fastforce
qed

section \<open>Limits and refusals\<close>

text \<open>C25. A connection stays within the relay's limits, in every state it can reach: it has at most the allowed
  number of subscriptions, each under an id of the allowed length and with at least one filter; every
  filter carries a limit no larger than the relay's maximum, and some limit when the relay has a
  default; the counters of the rate limiter never exceed their bounds.\<close>

theorem relay_connection_limits:
  assumes "conn_run X Y W U N C is c"
  shows "opt_all (\<lambda>m. card (dom (map_of (cn_subscriptions c))) \<le> m) (cx_max_active_subscriptions C) \<and>
    (map_of (cn_subscriptions c) i = Some fs \<longrightarrow>
       fs \<noteq> [] \<and> opt_all (\<lambda>m. length i \<le> m) (cx_max_subid_length C) \<and>
       list_all (\<lambda>f. opt_all (\<lambda>m. \<exists>l. f_limit f = Some l \<and> l \<le> m) (cx_max_filter_limit C) \<and>
         (cx_default_filter_limit C \<noteq> None \<longrightarrow> f_limit f \<noteq> None)) fs) \<and>
    opt_all (\<lambda>m. rl_notes (cn_rate c) \<le> m) (notes_per_minute (cx_rate_limit C)) \<and>
    opt_all (\<lambda>m. rl_reqs (cn_rate c) \<le> m) (reqs_per_minute (cx_rate_limit C))"
proof -
  have inv: "conn_inv C c" using assms by (auto elim!: conn_runE)
  have "card (dom (map_of (cn_subscriptions c))) \<le> length (cn_subscriptions c)"
    by (metis card_length dom_map_of_conv_image_fst length_map set_map)
  with inv show ?thesis
    by (cases "cx_max_active_subscriptions C")
      (auto simp: conn_inv_def sub_ok_def limit_ok_def rate_ok_def list_all_iff)
qed

theorem relay_connection_limits_witness:
  "map_of (cn_subscriptions sample_subscribed) ''q'' = Some [filter_new] \<and> [filter_new] \<noteq> [] \<and>
   opt_all (\<lambda>m. length ''q'' \<le> m) (cx_max_subid_length (sample_context Both))"
  using relay_connection_limits [OF sample_run_subscribed, of "''q''" "[filter_new]"] sample_req_step(2) by blast

text \<open>C28. The rate limiter is a fixed window: over any sequence of messages with a clock that does not run
  backwards, at most the configured number of events passes in the first minute of the connection, and
  at most twice that number in any minute. The second bound is what a fixed window gives, not the rolling window
  the documentation names.\<close>

theorem relay_rate_limit:
  assumes "notes_per_minute limit = Some mx" and "sorted (map fst tms)" and "\<And>tm. tm \<in> set tms \<Longrightarrow> start \<le> fst tm"
  shows "within start (notes_passed (rate_new limit start) tms) \<le> unat mx \<and>
    within a (notes_passed (rate_new limit start) tms) \<le> 2 * unat mx"
  using notes_within [of "rate_new limit start" mx tms start] notes_within [of "rate_new limit start" mx tms a] assms
  by (auto simp: rate_new_def split: if_splits)

theorem relay_rate_limit_witness:
  "notes_passed (rate_new (RATE_LIMIT_DISABLED\<lparr>notes_per_minute := Some 1\<rparr>) 0)
       [(59999999999, CEvent sample_note), (59999999999, CEvent sample_note), (60000000000, CEvent sample_note)] =
     [59999999999, 60000000000] \<and>
   within 59999999999 (notes_passed (rate_new (RATE_LIMIT_DISABLED\<lparr>notes_per_minute := Some 1\<rparr>) 0)
       [(59999999999, CEvent sample_note), (59999999999, CEvent sample_note), (60000000000, CEvent sample_note)]) \<le> 2"
proof -
  let ?l = "RATE_LIMIT_DISABLED\<lparr>notes_per_minute := Some 1\<rparr>"
  let ?t = "[(59999999999 :: nat, CEvent sample_note), (59999999999, CEvent sample_note), (60000000000, CEvent sample_note)]"
  have "notes_per_minute ?l = Some 1" "sorted (map fst ?t)" by simp_all
  then have "within 59999999999 (notes_passed (rate_new ?l 0) ?t) \<le> 2 * unat (1 :: u32)"
    using relay_rate_limit [of ?l 1 ?t 0 59999999999] by blast
  moreover have "notes_passed (rate_new ?l 0) ?t = [59999999999, 60000000000]"
    by (simp add: rate_check_def rate_new_def rate_roll_def RATE_LIMIT_DISABLED_def WINDOW_NANOS_def is_event_msg_def Let_def)
  ultimately show ?thesis by simp
qed

text \<open>C27. Every refusal says why in a form a program can read: each negative \<open>OK\<close>, each \<open>CLOSED\<close> and each
  \<open>NEG-ERR\<close> a connection has sent carries one of the machine-readable prefixes, as the client's
  parser reads it.\<close>

theorem relay_refusals_coded:
  assumes "conn_run X Y W U N C is c"
  shows "(OutRelay (ROk n False t) \<in> set (sk_sent (cn_sink c)) \<longrightarrow> from_reason t \<noteq> None) \<and>
    (OutRelay (RClosed i t) \<in> set (sk_sent (cn_sink c)) \<longrightarrow> from_reason t \<noteq> None) \<and>
    (OutRelay (RNegErr i t) \<in> set (sk_sent (cn_sink c)) \<longrightarrow> from_reason t \<noteq> None)"
  using assms
proof (rule conn_runE)
  fix c0 fl
  assume r: "conn_reachable X Y W U N C c0 is c fl"
    and start: "\<forall>m. OutRelay m \<in> set (sk_sent (cn_sink c0)) \<longrightarrow> (\<exists>ch. m = RAuth ch)"
  have "coded m" if "OutRelay m \<in> set (sk_sent (cn_sink c))" for m
    using that start reachable_coded [OF r] by (auto simp: sent_only_def)
  from this [of "ROk n False t"] this [of "RClosed i t"] this [of "RNegErr i t"] show ?thesis
    by (auto simp: coded_def)
qed

theorem relay_refusals_coded_witness:
  "\<exists>c t. sample_run Both [sample_text ''req''] c \<and> OutRelay (RClosed ''q'' t) \<in> set (sk_sent (cn_sink c)) \<and>
     from_reason t \<noteq> None"
proof -
  obtain c where c: "sample_run Both [sample_text ''req''] c"
    "OutRelay (RClosed ''q'' (prefixed PfxAuthRequired ''authentication required to read'')) \<in> set (sk_sent (cn_sink c))"
    by (rule sample_refused)
  then show ?thesis using relay_refusals_coded [OF c(1)] by blast
qed

end
