(* ===== verification/Byte_Codec.thy ===== *)
theory Byte_Codec
  imports Relay_Http
begin

text \<open>
  Bytes and what is made of them: big-endian integers (\<open>to_be_bytes\<close>, \<open>from_be_bytes\<close>), the bytes
  of a string and \<open>String::from_utf8\<close>, and the records of the tag-length-value coding of NIP-19
  (nips/nip19/tlv.rs).
\<close>

section \<open>Integers and strings\<close>

fun to_be :: "nat \<Rightarrow> nat \<Rightarrow> bytes" where
  "to_be 0 n = []"
| "to_be (Suc k) n = to_be k (n div 256) @ [of_nat (n mod 256)]"

definition bytes_string :: "bytes \<Rightarrow> string" where
  "bytes_string bs = map (\<lambda>b. char_of (unat b)) bs"

definition string_from_utf8 :: "bytes \<Rightarrow> string option" where
  "string_from_utf8 bs = str_from_utf8 (bytes_string bs)"

text \<open>A Rust string is valid UTF-8.\<close>

definition str_wf :: "string \<Rightarrow> bool" where
  "str_wf s \<longleftrightarrow> utf8_valid (map of_char s)"

lemma length_to_be [simp]: "length (to_be k n) = k"
  by (induction k arbitrary: n) simp_all

lemma be_nat_snoc: "be_nat (bs @ [b]) = 256 * be_nat bs + unat b"
  by (simp add: be_nat_def)

lemma be_nat_to_be: "be_nat (to_be k n) = n mod 256 ^ k"
proof (induction k arbitrary: n)
  case (Suc k)
  have "unat (of_nat (n mod 256) :: u8) = n mod 256" by (simp add: unat_of_nat)
  moreover have "n mod (256 * 256 ^ k) = 256 * (n div 256 mod 256 ^ k) + n mod 256"
    by (rule mod_mult2_eq)
  ultimately show ?case using Suc by (simp add: be_nat_snoc)
qed (simp add: be_nat_def)

lemma be_nat_less: "be_nat bs < 256 ^ length bs"
proof (induction bs rule: rev_induct)
  case (snoc b bs)
  have "unat b < 2 ^ LENGTH(8)" by (rule unsigned_less)
  then have "unat b < 256" by simp
  then have "256 * be_nat bs + unat b < 256 * (be_nat bs + 1)" by simp
  also have "\<dots> \<le> 256 * 256 ^ length bs" using snoc by (simp del: mult_le_mono)
  finally show ?case by (simp add: be_nat_snoc)
qed (simp add: be_nat_def)

lemma to_be_be_nat: "to_be (length bs) (be_nat bs) = bs"
proof (induction bs rule: rev_induct)
  case (snoc b bs)
  have "unat b < 256" using unsigned_less [of b, where ?'a = nat] by simp
  then show ?case using snoc by (simp add: be_nat_snoc)
qed simp

lemma bytes_string_bytes [simp]: "bytes_string (body_bytes s) = s"
proof -
  have "char_of (unat (of_nat (of_char c) :: u8)) = c" for c :: char
  proof -
    have "(of_char c :: nat) < 256" by simp
    then have "unat (of_nat (of_char c) :: u8) = of_char c" by (simp add: unat_of_nat)
    then show ?thesis by simp
  qed
  then show ?thesis by (simp add: bytes_string_def body_bytes_def comp_def)
qed

lemma body_bytes_string [simp]: "body_bytes (bytes_string bs) = bs"
proof -
  have "(of_nat (of_char (char_of (unat b) :: char)) :: u8) = b" for b :: u8
    using unsigned_less [of b, where ?'a = nat] by simp
  then show ?thesis by (simp add: bytes_string_def body_bytes_def comp_def)
qed

lemma length_bytes_string [simp]: "length (bytes_string bs) = length bs"
  by (simp add: bytes_string_def)

lemma length_body_bytes [simp]: "length (body_bytes s) = length s"
  by (simp add: body_bytes_def)

lemma string_from_utf8_bytes: "str_wf s \<Longrightarrow> string_from_utf8 (body_bytes s) = Some s"
  by (simp add: string_from_utf8_def str_from_utf8_def str_wf_def)

lemma string_from_utf8_Some: "string_from_utf8 bs = Some s \<Longrightarrow> str_wf s \<and> s = bytes_string bs"
  by (auto simp: string_from_utf8_def str_from_utf8_def str_wf_def split: if_splits)

section \<open>Tag-length-value records\<close>

definition SPECIAL :: u8 where "SPECIAL = 0"
definition RELAY :: u8 where "RELAY = 1"
definition AUTHOR :: u8 where "AUTHOR = 2"
definition KIND :: u8 where "KIND = 3"

datatype tlv_error = ValueTooLong nat | TruncatedHeader nat | TruncatedValue nat nat nat

fun tlv_encode :: "(u8 \<times> bytes) list \<Rightarrow> tlv_error + bytes" where
  "tlv_encode [] = Inr []"
| "tlv_encode (r # rs) =
     (if length (snd r) > 255 then Inl (ValueTooLong (length (snd r)))
      else res_bind (tlv_encode rs) (\<lambda>out.
        Inr (fst r # of_nat (length (snd r)) # snd r @ out)))"

text \<open>The iterator: what it yields from the cursor on, ending with the first error.\<close>

function tlv_iter :: "bytes \<Rightarrow> nat \<Rightarrow> (tlv_error + u8 \<times> bytes) list" where
  "tlv_iter bytes cursor =
     (case drop cursor bytes of
        [] \<Rightarrow> []
      | [tag] \<Rightarrow> [Inl (TruncatedHeader cursor)]
      | tag # len_byte # value_buf \<Rightarrow>
          if length value_buf < unat len_byte
          then [Inl (TruncatedValue (cursor + 2) (unat len_byte) (length value_buf))]
          else Inr (tag, take (unat len_byte) value_buf) # tlv_iter bytes (cursor + 2 + unat len_byte))"
  by pat_completeness auto
termination
proof (relation "measure (\<lambda>(bytes, cursor). length bytes - cursor)", goal_cases)
  case (2 bytes cursor tag rest len_byte value_buf)
  then have "length (drop cursor bytes) = Suc (Suc (length value_buf))" by simp
  then show ?case by simp
qed simp

declare tlv_iter.simps [simp del]

lemma tlv_iter_append:
  assumes "tlv_encode rs = Inr out"
  shows "tlv_iter (pre @ out) (length pre) = map Inr rs"
  using assms
proof (induction rs arbitrary: pre out)
  case Nil
  then show ?case by (subst tlv_iter.simps) simp
next
  case (Cons r rs)
  then obtain out' where out': "tlv_encode rs = Inr out'" and len: "length (snd r) \<le> 255"
    and out: "out = fst r # of_nat (length (snd r)) # snd r @ out'"
    by (auto simp: res_bind_Inr_iff split: if_splits)
  let ?pre = "pre @ fst r # of_nat (length (snd r)) # snd r"
  have n: "unat (of_nat (length (snd r)) :: u8) = length (snd r)"
    using len by (simp add: unat_of_nat)
  have "tlv_iter (?pre @ out') (length ?pre) = map Inr rs"
    by (rule Cons.IH [OF out'])
  then show ?case by (subst tlv_iter.simps) (simp add: out n)
qed

lemma tlv_round_trip_aux: "tlv_encode rs = Inr out \<Longrightarrow> tlv_iter out 0 = map Inr rs"
  using tlv_iter_append [of rs out "[]"] by simp

lemma tlv_encode_total: "list_all (\<lambda>r. length (snd r) \<le> 255) rs \<Longrightarrow> \<exists>out. tlv_encode rs = Inr out"
  by (induction rs) auto

text \<open>What the iterator reads is what the encoder writes: the coding is a bijection on the well-formed
  buffers.\<close>

lemma tlv_iter_encode:
  "tlv_iter bytes cursor = map Inr rs \<Longrightarrow> tlv_encode rs = Inr (drop cursor bytes)"
proof (induction bytes cursor arbitrary: rs rule: tlv_iter.induct)
  case (1 bytes cursor)
  show ?case
  proof (cases "drop cursor bytes")
    case Nil
    with "1.prems" show ?thesis by (subst (asm) tlv_iter.simps) simp
  next
    case (Cons tag after)
    show ?thesis
    proof (cases after)
      case Nil
      with Cons "1.prems" show ?thesis by (subst (asm) tlv_iter.simps) (auto simp: Cons_eq_map_conv)
    next
      case after: (Cons len_byte value_buf)
      let ?n = "unat len_byte"
      have n: "?n \<le> 255" using unsigned_less [of len_byte, where ?'a = nat] by simp
      show ?thesis
      proof (cases "length value_buf < ?n")
        case True
        with Cons after "1.prems" show ?thesis by (subst (asm) tlv_iter.simps) (auto simp: Cons_eq_map_conv)
      next
        case False
        then obtain rs' where rs: "rs = (tag, take ?n value_buf) # rs'"
          and rest: "tlv_iter bytes (cursor + 2 + ?n) = map Inr rs'"
          using Cons after "1.prems" by (subst (asm) tlv_iter.simps) (auto simp: Cons_eq_map_conv)
        have "drop (cursor + 2 + ?n) bytes = drop ?n value_buf"
          using Cons after by (metis add.assoc add.commute add_2_eq_Suc drop_Suc_Cons drop_drop)
        with "1.IH" [OF Cons after False rest] False n show ?thesis
          by (simp add: rs Cons after)
      qed
    qed
  qed
qed

end
