(* ===== verification/Encryption.thy ===== *)
theory Encryption
  imports Byte_Codec
begin

text \<open>
  Encrypted payloads (nips/nip44.rs): padding, framing and the order of the checks. The
  primitives are crates: base64, HKDF, ChaCha20, HMAC and the ECDH point are the argument \<open>E\<close>, and
  what the code relies on of them is \<open>cipher_laws\<close>. Zeroising and constant-time comparison are not
  modelled. \<open>usize\<close> has 64 bits.
\<close>

section \<open>The payload\<close>

record cipher_crates =
  b64_encode :: "bytes \<Rightarrow> string"
  b64_decode :: "string \<Rightarrow> string + bytes"
  ecdh_point :: "public_key \<Rightarrow> bytes \<Rightarrow> bytes"
  hkdf_extract :: "bytes \<Rightarrow> bytes \<Rightarrow> bytes"
  hkdf_expand :: "bytes \<Rightarrow> bytes \<Rightarrow> nat \<Rightarrow> bytes"
  chacha20 :: "bytes \<Rightarrow> bytes \<Rightarrow> bytes \<Rightarrow> bytes"
  hmac_sha256 :: "bytes \<Rightarrow> bytes \<Rightarrow> bytes"
  hmac_verify :: "bytes \<Rightarrow> bytes \<Rightarrow> bytes \<Rightarrow> bool"

definition VERSION :: u8 where "VERSION = 2"
definition HKDF_SALT :: bytes where "HKDF_SALT = body_bytes ''nip44-v2''"
definition MIN_PLAINTEXT_BYTES :: nat where "MIN_PLAINTEXT_BYTES = 1"
definition MAX_PLAINTEXT_BYTES :: nat where "MAX_PLAINTEXT_BYTES = 65535"
definition NONCE_BYTES :: nat where "NONCE_BYTES = 32"
definition HMAC_BYTES :: nat where "HMAC_BYTES = 32"
definition VERSION_BYTE :: nat where "VERSION_BYTE = 1"
definition MIN_PAYLOAD_BYTES :: nat where "MIN_PAYLOAD_BYTES = 99"
definition MAX_PAYLOAD_BYTES :: nat where "MAX_PAYLOAD_BYTES = 65603"
definition MIN_PAYLOAD_CHARS :: nat where "MIN_PAYLOAD_CHARS = 132"
definition MAX_PAYLOAD_CHARS :: nat where "MAX_PAYLOAD_CHARS = 87472"
definition MESSAGE_KEYS_BYTES :: nat where "MESSAGE_KEYS_BYTES = 76"
definition CHACHA_KEY_BYTES :: nat where "CHACHA_KEY_BYTES = 32"
definition CHACHA_NONCE_BYTES :: nat where "CHACHA_NONCE_BYTES = 12"
definition MESSAGE_KEY_HMAC_OFFSET :: nat where
  "MESSAGE_KEY_HMAC_OFFSET = CHACHA_KEY_BYTES + CHACHA_NONCE_BYTES"

datatype nip44_error =
    EmptyPlaintext
  | PlaintextTooLong nat
  | PayloadTooShort nat
  | PayloadTooLong nat
  | DecodedTooShort nat
  | DecodedTooLong nat
  | UnsupportedVersion u8
  | InvalidBase64 string
  | InvalidMac
  | InvalidPadding
  | InvalidUtf8
  | Nip44Rng rng_error

definition conversation_key :: "cipher_crates \<Rightarrow> bytes \<Rightarrow> public_key \<Rightarrow> bytes" where
  "conversation_key E secret peer =
     (let shared_x = take 32 (ecdh_point E peer secret) in hkdf_extract E HKDF_SALT shared_x)"

definition message_keys :: "cipher_crates \<Rightarrow> bytes \<Rightarrow> bytes \<Rightarrow> bytes" where
  "message_keys E ck nonce = hkdf_expand E ck nonce MESSAGE_KEYS_BYTES"

definition chacha_key :: "bytes \<Rightarrow> bytes" where
  "chacha_key mks = take CHACHA_KEY_BYTES mks"

definition chacha_nonce :: "bytes \<Rightarrow> bytes" where
  "chacha_nonce mks = take CHACHA_NONCE_BYTES (drop CHACHA_KEY_BYTES mks)"

definition hmac_key :: "bytes \<Rightarrow> bytes" where
  "hmac_key mks = drop MESSAGE_KEY_HMAC_OFFSET mks"

definition log2_floor :: "u64 \<Rightarrow> nat" where
  "log2_floor x = (if x = 0 then 0 else 63 - leading_zeros x)"

definition padded_length :: "nat \<Rightarrow> nat" where
  "padded_length len =
     (if len \<le> 32 then 32
      else let next_power = 2 ^ (log2_floor (of_nat (len - 1)) + 1);
               chunk = (if next_power \<le> 256 then 32 else next_power div 8)
           in chunk * ((len - 1) div chunk + 1))"

definition nip44_pad :: "bytes \<Rightarrow> nip44_error + bytes" where
  "nip44_pad plaintext =
     (let len = length plaintext in
      if len < MIN_PLAINTEXT_BYTES then Inl EmptyPlaintext
      else if len > MAX_PLAINTEXT_BYTES then Inl (PlaintextTooLong len)
      else let out = to_be 2 len @ plaintext
           in Inr (out @ replicate (2 + padded_length len - length out) 0))"

definition nip44_unpad :: "bytes \<Rightarrow> nip44_error + bytes" where
  "nip44_unpad padded =
     (if length padded < 2 then Inl InvalidPadding
      else let prefix = be_nat (take 2 padded) in
        if prefix < MIN_PLAINTEXT_BYTES then Inl InvalidPadding
        else if prefix > MAX_PLAINTEXT_BYTES then Inl InvalidPadding
        else if length padded \<noteq> 2 + padded_length prefix then Inl InvalidPadding
        else if 2 + prefix \<le> length padded then Inr (take prefix (drop 2 padded))
        else Inl InvalidPadding)"

definition compute_hmac :: "cipher_crates \<Rightarrow> bytes \<Rightarrow> bytes \<Rightarrow> bytes \<Rightarrow> bytes" where
  "compute_hmac E key nonce ciphertext = hmac_sha256 E key (nonce @ ciphertext)"

definition verify_hmac :: "cipher_crates \<Rightarrow> bytes \<Rightarrow> bytes \<Rightarrow> bytes \<Rightarrow> bytes \<Rightarrow> bool" where
  "verify_hmac E key nonce ciphertext tag = hmac_verify E key (nonce @ ciphertext) tag"

definition encrypt_inner :: "cipher_crates \<Rightarrow> bytes \<Rightarrow> string \<Rightarrow> bytes \<Rightarrow> nip44_error + string" where
  "encrypt_inner E ck plaintext nonce =
     (let mks = message_keys E ck nonce in
      res_bind (nip44_pad (body_bytes plaintext)) (\<lambda>padded.
      let buffer = chacha20 E (chacha_key mks) (chacha_nonce mks) padded;
          hmac = compute_hmac E (hmac_key mks) nonce buffer
      in Inr (b64_encode E (VERSION # nonce @ buffer @ hmac))))"

definition encrypt_with_nonce :: "cipher_crates \<Rightarrow> bytes \<Rightarrow> string \<Rightarrow> bytes \<Rightarrow> nip44_error + string" where
  "encrypt_with_nonce E ck plaintext nonce = encrypt_inner E ck plaintext nonce"

text \<open>The nonce is what the entropy source returned.\<close>

definition nip44_encrypt ::
  "cipher_crates \<Rightarrow> rng_error + bytes \<Rightarrow> bytes \<Rightarrow> public_key \<Rightarrow> string \<Rightarrow> nip44_error + string" where
  "nip44_encrypt E entropy secret peer plaintext =
     res_bind (map_err Nip44Rng entropy) (\<lambda>nonce.
     encrypt_inner E (conversation_key E secret peer) plaintext nonce)"

definition decrypt_with_conversation_key :: "cipher_crates \<Rightarrow> bytes \<Rightarrow> string \<Rightarrow> nip44_error + string" where
  "decrypt_with_conversation_key E ck payload =
     (let plen = length payload in
      if plen < MIN_PAYLOAD_CHARS then Inl (PayloadTooShort plen)
      else if plen > MAX_PAYLOAD_CHARS then Inl (PayloadTooLong plen)
      else if take 1 payload = ''#'' then Inl (UnsupportedVersion 35)
      else res_bind (map_err InvalidBase64 (b64_decode E payload)) (\<lambda>bytes.
      let blen = length bytes in
      if blen < MIN_PAYLOAD_BYTES then Inl (DecodedTooShort blen)
      else if blen > MAX_PAYLOAD_BYTES then Inl (DecodedTooLong blen)
      else let version = hd bytes; rest = drop VERSION_BYTE bytes in
      if version \<noteq> VERSION then Inl (UnsupportedVersion version)
      else let nonce = take NONCE_BYTES rest;
               body_with_mac = drop NONCE_BYTES rest;
               mac_start = length body_with_mac - HMAC_BYTES;
               ciphertext = take mac_start body_with_mac;
               mac = drop mac_start body_with_mac;
               mks = message_keys E ck nonce in
      if \<not> verify_hmac E (hmac_key mks) nonce ciphertext mac then Inl InvalidMac
      else let buffer = chacha20 E (chacha_key mks) (chacha_nonce mks) ciphertext in
      res_bind (nip44_unpad buffer) (\<lambda>unpadded.
      ok_or InvalidUtf8 (string_from_utf8 unpadded))))"

definition nip44_decrypt :: "cipher_crates \<Rightarrow> bytes \<Rightarrow> public_key \<Rightarrow> string \<Rightarrow> nip44_error + string" where
  "nip44_decrypt E secret peer payload =
     decrypt_with_conversation_key E (conversation_key E secret peer) payload"

section \<open>What the primitives promise\<close>

definition cipher_laws :: "crates \<Rightarrow> cipher_crates \<Rightarrow> bool" where
  "cipher_laws X E \<longleftrightarrow>
     (\<forall>b. b64_decode E (b64_encode E b) = Inr b) \<and>
     (\<forall>b. length (b64_encode E b) = 4 * ((length b + 2) div 3)) \<and>
     (\<forall>b. CHR ''#'' \<notin> set (b64_encode E b)) \<and>
     (\<forall>k n b. length (chacha20 E k n b) = length b \<and> chacha20 E k n (chacha20 E k n b) = b) \<and>
     (\<forall>k m. length (hmac_sha256 E k m) = 32) \<and>
     (\<forall>k m t. hmac_verify E k m t \<longleftrightarrow> t = hmac_sha256 E k m) \<and>
     (\<forall>a b. take 32 (ecdh_point E (keypair_public X a) b) = take 32 (ecdh_point E (keypair_public X b) a))"

section \<open>Padding\<close>

lemma leading_zeros_top:
  fixes w :: "'a::len word"
  assumes "w \<noteq> 0"
  shows "leading_zeros w < LENGTH('a)" and "bit w (LENGTH('a) - 1 - leading_zeros w)"
    and "\<And>j. LENGTH('a) - 1 - leading_zeros w < j \<Longrightarrow> \<not> bit w j"
proof -
  let ?bs = "rev [0..<LENGTH('a)]" and ?n = "leading_zeros w"
  have n: "?n = length (takeWhile (\<lambda>i. \<not> bit w i) ?bs)" by (simp add: leading_zeros_def)
  have nth: "?bs ! i = LENGTH('a) - 1 - i" if "i < LENGTH('a)" for i
    using that by (simp add: rev_nth)
  obtain m where m: "bit w m" using assms by (auto simp: bit_eq_iff)
  then have "m < LENGTH('a)" by (rule bit_imp_le_length)
  with m show less: "?n < LENGTH('a)"
    unfolding n by (metis (no_types, lifting) atLeastLessThan_iff length_rev length_takeWhile_le length_upt
        le_neq_implies_less minus_nat.diff_0 set_rev set_takeWhileD set_upt takeWhile_eq_take take_all
        order_refl zero_le)
  have "\<not> \<not> bit w (?bs ! ?n)"
    using less nth_length_takeWhile [of "\<lambda>i. \<not> bit w i" ?bs] by (simp add: n)
  then show "bit w (LENGTH('a) - 1 - ?n)" using nth [OF less] by simp
  show "\<not> bit w j" if "LENGTH('a) - 1 - ?n < j" for j
  proof (cases "j < LENGTH('a)")
    case True
    let ?i = "LENGTH('a) - 1 - j"
    have i: "?i < ?n" "?i < LENGTH('a)" using that True less by linarith+
    then have "?bs ! ?i = j" using nth [of ?i] True by simp
    moreover have "?bs ! ?i = takeWhile (\<lambda>i. \<not> bit w i) ?bs ! ?i" using i n by (simp add: takeWhile_nth)
    ultimately show ?thesis using nth_mem [of ?i "takeWhile (\<lambda>i. \<not> bit w i) ?bs"] i n
      by (metis set_takeWhileD)
  next
    case False
    then show ?thesis using bit_imp_le_length [of w j] by auto
  qed
qed

lemma log2_floor_bounds:
  assumes "0 < n" and "n < 2 ^ 64"
  shows "2 ^ log2_floor (of_nat n) \<le> n" and "n < 2 ^ (log2_floor (of_nat n) + 1)"
proof -
  let ?w = "of_nat n :: u64" and ?k = "log2_floor (of_nat n)"
  have u: "unat ?w = n" using assms(2) by (simp add: unat_of_nat)
  then have nz: "?w \<noteq> 0" using assms(1) by (metis unat_0 less_irrefl)
  then have k: "?k = 63 - leading_zeros ?w" by (simp add: log2_floor_def)
  note top = leading_zeros_top [OF nz]
  have bitn: "bit n j \<longleftrightarrow> bit ?w j" for j
  proof -
    have "bit (unat ?w) j \<longleftrightarrow> bit ?w j" by (simp add: bit_unsigned_iff)
    then show ?thesis by (simp only: u)
  qed
  have "bit n ?k" using top(2) by (simp add: bitn k)
  then have "odd (n div 2 ^ ?k)" by (simp add: bit_iff_odd)
  then have "n div 2 ^ ?k \<noteq> 0" by (metis even_zero)
  then show "2 ^ ?k \<le> n" by (meson div_less not_less)
  have above: "\<not> bit n j" if "?k < j" for j using top(3) [of j] that by (simp add: bitn k)
  have "take_bit (?k + 1) n = n"
  proof (rule bit_eqI)
    show "bit (take_bit (?k + 1) n) j = bit n j" for j
      using above [of j] by (cases "?k < j") (simp_all add: bit_take_bit_iff)
  qed
  then show "n < 2 ^ (?k + 1)" by (metis take_bit_nat_less_exp)
qed

lemma power_drop: "j \<le> k \<Longrightarrow> (2::nat) ^ k = 2 ^ (k - j) * 2 ^ j"
  by (simp flip: power_add)

text \<open>The chunk a long text is padded to a multiple of is a power of two between 32 and the text.\<close>

lemma padded_length_chunk:
  assumes "32 < len" and "len \<le> MAX_PLAINTEXT_BYTES"
  obtains c where "padded_length len = 2 ^ c * ((len - 1) div 2 ^ c + 1)" and "5 \<le> c"
    and "2 ^ c \<le> max 32 ((len - 1) div 4)"
    and "padded_length len \<le> 2 ^ 16"
proof -
  let ?k = "log2_floor (of_nat (len - 1))"
  have lo: "2 ^ ?k \<le> len - 1" and hi: "len - 1 < 2 ^ (?k + 1)"
    using log2_floor_bounds [of "len - 1"] assms by (simp_all add: MAX_PLAINTEXT_BYTES_def)
  have k15: "?k + 1 \<le> 16"
  proof (rule ccontr)
    assume "\<not> ?thesis"
    then have "(2::nat) ^ 16 \<le> 2 ^ ?k" by (intro power_increasing) simp_all
    then show False using lo assms by (simp add: MAX_PLAINTEXT_BYTES_def)
  qed
  have k5: "5 \<le> ?k"
  proof (rule ccontr)
    assume "\<not> ?thesis"
    then have "(2::nat) ^ (?k + 1) \<le> 2 ^ 5" by (intro power_increasing) simp_all
    then show False using hi assms by simp
  qed
  define c where "c = (if ?k + 1 \<le> 8 then 5 else ?k - 2)"
  have c: "5 \<le> c" "c \<le> ?k + 1" using k5 by (auto simp: c_def)
  have next256: "(2::nat) ^ (?k + 1) \<le> 256 \<longleftrightarrow> ?k + 1 \<le> 8"
    using power_increasing_iff [of "2::nat" "?k + 1" 8] by simp
  have eight: "(2::nat) ^ (?k + 1) = 2 ^ (?k - 2) * 8"
    using k5 power_drop [of 2 ?k] by simp
  have "(if (2::nat) ^ (?k + 1) \<le> 256 then 32 else 2 ^ (?k + 1) div 8) = (2::nat) ^ c"
    unfolding next256 c_def by (simp only: eight) simp
  then have eq: "padded_length len = 2 ^ c * ((len - 1) div 2 ^ c + 1)"
    using assms(1) by (simp only: padded_length_def Let_def not_le [symmetric] if_False)
  have split: "(2::nat) ^ (?k + 1) = 2 ^ c * 2 ^ (?k + 1 - c)"
    using c by (simp flip: power_add)
  have "(len - 1) div 2 ^ c < 2 ^ (?k + 1 - c)"
    using hi split by (simp add: less_mult_imp_div_less mult.commute)
  then have "(len - 1) div 2 ^ c + 1 \<le> 2 ^ (?k + 1 - c)" by simp
  then have "padded_length len \<le> 2 ^ (?k + 1)" unfolding eq split by (rule mult_le_mono2)
  also have "(2::nat) ^ (?k + 1) \<le> 2 ^ 16" using k15 by (intro power_increasing) simp_all
  finally have upper: "padded_length len \<le> 2 ^ 16" .
  have "(2::nat) ^ c \<le> max 32 ((len - 1) div 4)"
  proof (cases "?k + 1 \<le> 8")
    case False
    then have "(2::nat) ^ ?k = 2 ^ c * 4" using k5 power_drop [of 2 ?k] by (simp add: c_def)
    then show ?thesis using lo by (simp add: less_eq_div_iff_mult_less_eq le_max_iff_disj)
  qed (simp add: c_def)
  then show thesis by (rule that [OF eq c(1) _ upper])
qed

lemma padded_length_bounds:
  assumes "1 \<le> len" and "len \<le> MAX_PLAINTEXT_BYTES"
  shows "len \<le> padded_length len" and "32 \<le> padded_length len" and "padded_length len \<le> 65536"
    and "32 dvd padded_length len" and "padded_length len < len + max 32 (len div 4)"
proof -
  have "len \<le> padded_length len \<and> 32 \<le> padded_length len \<and> padded_length len \<le> 65536 \<and>
    32 dvd padded_length len \<and> padded_length len < len + max 32 (len div 4)"
  proof (cases "len \<le> 32")
    case True
    with assms(1) show ?thesis by (simp add: padded_length_def)
  next
    case False
    then obtain c where eq: "padded_length len = 2 ^ c * ((len - 1) div 2 ^ c + 1)" and c: "5 \<le> c"
      and chunk: "2 ^ c \<le> max 32 ((len - 1) div 4)" and upper: "padded_length len \<le> 2 ^ 16"
      using padded_length_chunk [of len] assms(2) by auto
    have parts: "2 ^ c * ((len - 1) div 2 ^ c) + (len - 1) mod 2 ^ c = len - 1" by simp
    moreover have "(len - 1) mod 2 ^ c < 2 ^ c" by simp
    ultimately have lower: "len \<le> padded_length len" unfolding eq distrib_left by linarith
    have "padded_length len \<le> (len - 1) + 2 ^ c" unfolding eq distrib_left using parts by linarith
    also have "\<dots> < len + max 32 (len div 4)" using chunk False by (auto simp: max_def split: if_splits)
    finally have over: "padded_length len < len + max 32 (len div 4)" .
    have "(2::nat) ^ 5 dvd 2 ^ c" using c by (rule le_imp_power_dvd)
    then have "32 dvd padded_length len" unfolding eq by simp
    with lower over upper False show ?thesis by simp
  qed
  then show "len \<le> padded_length len" and "32 \<le> padded_length len" and "padded_length len \<le> 65536"
    and "32 dvd padded_length len" and "padded_length len < len + max 32 (len div 4)"
    by simp_all
qed

lemma nip44_pad_ok:
  assumes "1 \<le> length p" and "length p \<le> MAX_PLAINTEXT_BYTES"
  shows "nip44_pad p = Inr (to_be 2 (length p) @ p @ replicate (padded_length (length p) - length p) 0)"
  using assms by (auto simp: nip44_pad_def Let_def MIN_PLAINTEXT_BYTES_def)

lemma nip44_unpad_padded:
  assumes "1 \<le> length p" and "length p \<le> MAX_PLAINTEXT_BYTES"
    and "length rest = padded_length (length p) - length p"
  shows "nip44_unpad (to_be 2 (length p) @ p @ rest) = Inr p"
proof -
  have "be_nat (to_be 2 (length p)) = length p"
    using assms(2) by (simp add: be_nat_to_be MAX_PLAINTEXT_BYTES_def)
  then show ?thesis using assms padded_length_bounds(1) [of "length p"]
    by (auto simp: nip44_unpad_def Let_def MIN_PLAINTEXT_BYTES_def)
qed

lemma nip44_unpad_Inr:
  assumes "nip44_unpad padded = Inr p"
  shows "1 \<le> length p" and "length p \<le> MAX_PLAINTEXT_BYTES"
    and "length padded = 2 + padded_length (length p)"
    and "be_nat (take 2 padded) = length p" and "p = take (length p) (drop 2 padded)"
proof -
  let ?n = "be_nat (take 2 padded)"
  have n: "MIN_PLAINTEXT_BYTES \<le> ?n" "?n \<le> MAX_PLAINTEXT_BYTES" "length padded = 2 + padded_length ?n"
    and p: "p = take ?n (drop 2 padded)" and fits: "2 + ?n \<le> length padded"
    using assms by (auto simp: nip44_unpad_def Let_def split: if_splits)
  have len: "length p = ?n" using fits by (simp add: p)
  show "1 \<le> length p" and "length p \<le> MAX_PLAINTEXT_BYTES"
    and "length padded = 2 + padded_length (length p)"
    and "be_nat (take 2 padded) = length p" and "p = take (length p) (drop 2 padded)"
    unfolding len using n p by (simp_all only: MIN_PLAINTEXT_BYTES_def)
qed

section \<open>Payloads\<close>

definition sealed_bytes :: "cipher_crates \<Rightarrow> bytes \<Rightarrow> bytes \<Rightarrow> bytes \<Rightarrow> bytes" where
  "sealed_bytes E ck nonce padded =
     (let mks = message_keys E ck nonce;
          buffer = chacha20 E (chacha_key mks) (chacha_nonce mks) padded
      in VERSION # nonce @ buffer @ compute_hmac E (hmac_key mks) nonce buffer)"

lemma encrypt_inner_ok:
  assumes "1 \<le> length s" and "length s \<le> MAX_PLAINTEXT_BYTES"
  shows "encrypt_inner E ck s n = Inr (b64_encode E (sealed_bytes E ck n
    (to_be 2 (length s) @ body_bytes s @ replicate (padded_length (length s) - length s) 0)))"
  using assms nip44_pad_ok [of "body_bytes s"]
  by (simp add: encrypt_inner_def sealed_bytes_def Let_def)

lemma encrypt_inner_Inl:
  "length s = 0 \<Longrightarrow> encrypt_inner E ck s n = Inl EmptyPlaintext"
  "length s > MAX_PLAINTEXT_BYTES \<Longrightarrow> encrypt_inner E ck s n = Inl (PlaintextTooLong (length s))"
  by (auto simp: encrypt_inner_def nip44_pad_def Let_def MIN_PLAINTEXT_BYTES_def MAX_PLAINTEXT_BYTES_def)

lemma length_sealed_bytes:
  assumes "cipher_laws X E" and "length n = 32"
  shows "length (sealed_bytes E ck n padded) = length padded + 65"
  using assms by (simp add: cipher_laws_def sealed_bytes_def Let_def compute_hmac_def)

text \<open>The smallest and the largest payload the encoder writes are the bounds the decoder checks.\<close>

lemma payload_bounds:
  assumes "cipher_laws X E" and "length n = 32" and "34 \<le> length padded" and "length padded \<le> 65538"
  shows "MIN_PAYLOAD_BYTES \<le> length (sealed_bytes E ck n padded)"
    and "length (sealed_bytes E ck n padded) \<le> MAX_PAYLOAD_BYTES"
    and "MIN_PAYLOAD_CHARS \<le> length (b64_encode E (sealed_bytes E ck n padded))"
    and "length (b64_encode E (sealed_bytes E ck n padded)) \<le> MAX_PAYLOAD_CHARS"
proof -
  let ?b = "sealed_bytes E ck n padded"
  note len = length_sealed_bytes [OF assms(1,2)]
  have "length (b64_encode E ?b) = 4 * ((length padded + 67) div 3)"
    using assms(1) by (simp add: cipher_laws_def len)
  moreover have "101 div 3 \<le> (length padded + 67) div 3" using assms(3) by (intro div_le_mono) simp
  moreover have "(length padded + 67) div 3 \<le> 65605 div 3" using assms(4) by (intro div_le_mono) simp
  ultimately show "MIN_PAYLOAD_CHARS \<le> length (b64_encode E ?b)"
    and "length (b64_encode E ?b) \<le> MAX_PAYLOAD_CHARS"
    by (simp_all add: MIN_PAYLOAD_CHARS_def MAX_PAYLOAD_CHARS_def)
  show "MIN_PAYLOAD_BYTES \<le> length ?b" and "length ?b \<le> MAX_PAYLOAD_BYTES"
    using assms by (simp_all add: len MIN_PAYLOAD_BYTES_def MAX_PAYLOAD_BYTES_def)
qed

lemma decrypt_sealed:
  assumes laws: "cipher_laws X E" and n: "length n = 32"
    and p: "34 \<le> length padded" "length padded \<le> 65538"
  shows "decrypt_with_conversation_key E ck (b64_encode E (sealed_bytes E ck n padded)) =
    res_bind (nip44_unpad padded) (\<lambda>u. ok_or InvalidUtf8 (string_from_utf8 u))"
proof -
  let ?b = "sealed_bytes E ck n padded"
  let ?mks = "message_keys E ck n"
  let ?c = "chacha20 E (chacha_key ?mks) (chacha_nonce ?mks) padded"
  let ?m = "compute_hmac E (hmac_key ?mks) n ?c"
  note bounds = payload_bounds [OF laws n p, where ck = ck]
  have b: "?b = VERSION # n @ ?c @ ?m" by (simp add: sealed_bytes_def Let_def)
  have m: "length ?m = 32" and dec: "b64_decode E (b64_encode E ?b) = Inr ?b"
    and hash: "CHR ''#'' \<notin> set (b64_encode E ?b)"
    and c: "chacha20 E (chacha_key ?mks) (chacha_nonce ?mks) ?c = padded"
    and v: "verify_hmac E (hmac_key ?mks) n ?c ?m"
    using laws by (simp_all add: cipher_laws_def compute_hmac_def verify_hmac_def)
  have "take 1 (b64_encode E ?b) \<noteq> ''#''" using hash by (cases "b64_encode E ?b") auto
  then show ?thesis
    using bounds dec n m c v
    by (simp add: decrypt_with_conversation_key_def Let_def not_less b VERSION_BYTE_def NONCE_BYTES_def
        HMAC_BYTES_def)
qed

lemma conversation_key_symmetric:
  "cipher_laws X E \<Longrightarrow> conversation_key E a (keypair_public X b) = conversation_key E b (keypair_public X a)"
  unfolding cipher_laws_def conversation_key_def Let_def by metis

lemma decrypt_encrypt_inner:
  assumes "cipher_laws X E" and "length n = 32" and "str_wf s"
    and "1 \<le> length s" and "length s \<le> MAX_PLAINTEXT_BYTES"
  shows "res_bind (encrypt_inner E ck s n) (decrypt_with_conversation_key E ck) = Inr s"
proof -
  let ?pad = "to_be 2 (length s) @ body_bytes s @ replicate (padded_length (length s) - length s) 0"
  note bounds = padded_length_bounds [OF assms(4,5)]
  have len: "length ?pad = 2 + padded_length (length s)" using bounds(1) by simp
  have "nip44_unpad ?pad = Inr (body_bytes s)"
    using nip44_unpad_padded [of "body_bytes s"] assms(4,5) by simp
  moreover have "decrypt_with_conversation_key E ck (b64_encode E (sealed_bytes E ck n ?pad)) =
    res_bind (nip44_unpad ?pad) (\<lambda>u. ok_or InvalidUtf8 (string_from_utf8 u))"
    by (rule decrypt_sealed [OF assms(1,2)]) (use len bounds in simp_all)
  ultimately show ?thesis
    using encrypt_inner_ok [OF assms(4,5)] string_from_utf8_bytes [OF assms(3)] by (simp add: ok_or_def)
qed

text \<open>What a payload that decrypts looks like: no law of the primitives is used.\<close>

lemma decrypt_Inr:
  assumes "decrypt_with_conversation_key E ck payload = Inr s"
  obtains n c m p where "b64_decode E payload = Inr (VERSION # n @ c @ m)"
    and "length n = NONCE_BYTES" and "length m = HMAC_BYTES"
    and "verify_hmac E (hmac_key (message_keys E ck n)) n c m"
    and "nip44_unpad (chacha20 E (chacha_key (message_keys E ck n)) (chacha_nonce (message_keys E ck n)) c) = Inr p"
    and "string_from_utf8 p = Some s"
proof -
  obtain b where b: "b64_decode E payload = Inr b" and len: "MIN_PAYLOAD_BYTES \<le> length b"
    using assms by (auto simp: decrypt_with_conversation_key_def Let_def res_bind_Inr_iff map_err_Inr_iff
        split: if_splits)
  then obtain v rest where vr: "b = v # rest" by (cases b) (auto simp: MIN_PAYLOAD_BYTES_def)
  define n where "n = take NONCE_BYTES rest"
  define k where "k = length (drop NONCE_BYTES rest) - HMAC_BYTES"
  define c where "c = take k (drop NONCE_BYTES rest)"
  define m where "m = drop k (drop NONCE_BYTES rest)"
  let ?mks = "message_keys E ck n"
  have v: "v = VERSION" and mac: "verify_hmac E (hmac_key ?mks) n c m"
    and dec: "res_bind (nip44_unpad (chacha20 E (chacha_key ?mks) (chacha_nonce ?mks) c))
      (\<lambda>u. ok_or InvalidUtf8 (string_from_utf8 u)) = Inr s"
    using assms
    by (auto simp: decrypt_with_conversation_key_def Let_def b vr VERSION_BYTE_def n_def k_def c_def m_def
        split: if_splits)
  have "rest = n @ c @ m" by (simp only: n_def c_def m_def append_take_drop_id)
  moreover have "length n = NONCE_BYTES" and "length m = HMAC_BYTES"
    using len by (auto simp: n_def m_def k_def vr MIN_PAYLOAD_BYTES_def NONCE_BYTES_def HMAC_BYTES_def)
  moreover obtain p where "nip44_unpad (chacha20 E (chacha_key ?mks) (chacha_nonce ?mks) c) = Inr p"
    and "string_from_utf8 p = Some s"
    using dec by (auto simp: res_bind_Inr_iff ok_or_Inr_iff)
  ultimately show thesis using that b vr v mac by blast
qed

end
