(* ===== verification/Sample_Ciphers.thy ===== *)
theory Sample_Ciphers
  imports Encryption Sample_Crates
begin

unbundle bit_operations_syntax

text \<open>
  Crates that satisfy the laws the encryption code relies on: base64 with its alphabet and its padding,
  a cipher that flips bits, a code that keeps the first bytes and a shared secret that adds the keys.
\<close>

section \<open>Base64\<close>

definition base64_alphabet :: string where
  "base64_alphabet = ''ABCDEFGHIJKLMNOPQRSTUVWXYZabcdefghijklmnopqrstuvwxyz0123456789+/''"

definition digit64 :: "nat \<Rightarrow> char" where
  "digit64 n = base64_alphabet ! n"

definition value64 :: "char \<Rightarrow> nat option" where
  "value64 ch = map_of (zip base64_alphabet [0..<64]) ch"

definition digits64 :: "nat \<Rightarrow> string" where
  "digits64 w = map digit64 [w div 262144 mod 64, w div 4096 mod 64, w div 64 mod 64, w mod 64]"

fun base64_encode :: "bytes \<Rightarrow> string" where
  "base64_encode [] = []"
| "base64_encode [a] = take 2 (digits64 (be_nat [a, 0, 0])) @ ''==''"
| "base64_encode [a, b] = take 3 (digits64 (be_nat [a, b, 0])) @ ''=''"
| "base64_encode (a # b # c # rest) = digits64 (be_nat [a, b, c]) @ base64_encode rest"

fun number64 :: "nat option list \<Rightarrow> nat \<Rightarrow> nat option" where
  "number64 [] n = Some n"
| "number64 (None # ds) n = None"
| "number64 (Some d # ds) n = number64 ds (64 * n + d)"

fun base64_read :: "string \<Rightarrow> bytes option" where
  "base64_read [] = Some []"
| "base64_read (a # b # c # d # rest) =
     (if d = CHR ''='' \<and> rest = [] then
        (if c = CHR ''='' then map_option (\<lambda>w. take 1 (to_be 3 w)) (number64 (map value64 [a, b] @ [Some 0, Some 0]) 0)
         else map_option (\<lambda>w. take 2 (to_be 3 w)) (number64 (map value64 [a, b, c] @ [Some 0]) 0))
      else (case (number64 (map value64 [a, b, c, d]) 0, base64_read rest) of
              (Some w, Some bs) \<Rightarrow> Some (to_be 3 w @ bs)
            | _ \<Rightarrow> None))"
| "base64_read _ = None"

lemma length_base64_alphabet [simp]: "length base64_alphabet = 64"
  by (simp add: base64_alphabet_def)

lemma distinct_base64_alphabet: "distinct base64_alphabet"
  by (simp add: base64_alphabet_def)

lemma value64_digit64 [simp]: "n < 64 \<Longrightarrow> value64 (digit64 n) = Some n"
  unfolding value64_def digit64_def
  using map_of_zip_nth [of base64_alphabet "[0..<64]" n] distinct_base64_alphabet by simp

lemma digit64_in: "n < 64 \<Longrightarrow> digit64 n \<in> set base64_alphabet"
  by (simp add: digit64_def)

lemma digit64_plain: "n < 64 \<Longrightarrow> digit64 n \<noteq> CHR ''='' \<and> digit64 n \<noteq> CHR ''#''"
  using digit64_in [of n] by (auto simp: base64_alphabet_def)

text \<open>Four digits hold the 24 bits of three bytes.\<close>

lemma number64_word:
  assumes "w < 16777216"
  shows "number64 [Some (w div 262144 mod 64), Some (w div 4096 mod 64), Some (w div 64 mod 64), Some (w mod 64)] 0
    = Some w"
proof -
  have "w div 262144 = w div 64 div 64 div 64" and "w div 4096 = w div 64 div 64"
    by (simp_all add: div_mult2_eq [symmetric])
  moreover have "w div 64 div 64 div 64 < 64" using assms by (simp add: div_mult2_eq [symmetric] less_mult_imp_div_less)
  ultimately show ?thesis by (simp add: mult_div_mod_eq)
qed

lemma value64_digits64:
  "map value64 (digits64 w) =
    [Some (w div 262144 mod 64), Some (w div 4096 mod 64), Some (w div 64 mod 64), Some (w mod 64)]"
  by (simp add: digits64_def)

lemma be_nat_three: "be_nat [a, b, c] < 16777216"
  using be_nat_less [of "[a, b, c]"] by simp

lemma to_be_three [simp]: "to_be 3 (be_nat [a, b, c]) = [a, b, c]"
  using to_be_be_nat [of "[a, b, c]"] by (simp add: numeral_3_eq_3)

lemma digits64_four: obtains a b c d where "digits64 w = [a, b, c, d]" and "c \<noteq> CHR ''=''" and "d \<noteq> CHR ''=''"
  using digit64_plain [of "w div 64 mod 64"] digit64_plain [of "w mod 64"] by (simp add: digits64_def)

lemma base64_read_full:
  assumes "base64_read rest = Some bs"
  shows "base64_read (digits64 (be_nat [a, b, c]) @ rest) = Some (a # b # c # bs)"
proof -
  let ?w = "be_nat [a, b, c]"
  obtain p q r t where d: "digits64 ?w = [p, q, r, t]" "t \<noteq> CHR ''=''" by (rule digits64_four)
  have "number64 (map value64 (digits64 ?w)) 0 = Some ?w"
    unfolding value64_digits64 by (rule number64_word [OF be_nat_three])
  then show ?thesis using assms d by simp
qed

lemma base64_read_two: "base64_read (take 3 (digits64 (be_nat [a, b, 0])) @ ''='') = Some [a, b]"
proof -
  let ?w = "be_nat [a, b, 0]"
  obtain p q r t where d: "digits64 ?w = [p, q, r, t]" "r \<noteq> CHR ''=''" by (rule digits64_four)
  have "?w = 64 * (4 * be_nat [a, b])" by (simp add: be_nat_def)
  then have "?w mod 64 = 0" by simp
  then have "value64 t = Some 0" using value64_digits64 [of ?w, unfolded d] by simp
  then have "number64 (map value64 [p, q, r] @ [Some 0]) 0 = Some ?w"
    using number64_word [OF be_nat_three [of a b 0]] by (simp only: value64_digits64 [symmetric] d) simp
  then show ?thesis using d by simp
qed

lemma base64_read_one: "base64_read (take 2 (digits64 (be_nat [a, 0, 0])) @ ''=='') = Some [a]"
proof -
  let ?w = "be_nat [a, 0, 0]"
  obtain p q r t where d: "digits64 ?w = [p, q, r, t]" by (rule digits64_four)
  have "?w = 64 * (64 * (16 * unat a))" by (simp add: be_nat_def)
  then have "?w mod 64 = 0" and "?w div 64 mod 64 = 0" by simp_all
  then have "value64 r = Some 0" and "value64 t = Some 0"
    using value64_digits64 [of ?w, unfolded d] by simp_all
  then have "number64 (map value64 [p, q] @ [Some 0, Some 0]) 0 = Some ?w"
    using number64_word [OF be_nat_three [of a 0 0]] by (simp only: value64_digits64 [symmetric] d) simp
  then show ?thesis using d by simp
qed

lemma base64_read_encode: "base64_read (base64_encode bs) = Some bs"
  by (induction bs rule: base64_encode.induct) (simp_all only: base64_encode.simps base64_read.simps
      base64_read_one base64_read_two base64_read_full)

lemma length_digits64 [simp]: "length (digits64 w) = 4"
  by (simp add: digits64_def)

lemma length_base64_encode: "length (base64_encode bs) = 4 * ((length bs + 2) div 3)"
proof (induction bs rule: base64_encode.induct)
  case (4 a b c rest)
  have "(length (a # b # c # rest) + 2) div 3 = (length rest + 2) div 3 + 1" by (simp add: div_nat_eqI)
  with 4 show ?case by simp
qed simp_all

lemma hash_base64_encode: "CHR ''#'' \<notin> set (base64_encode bs)"
  by (induction bs rule: base64_encode.induct)
    (auto simp: digits64_def digit64_plain [THEN conjunct2, THEN not_sym] dest: in_set_takeD)

section \<open>The cipher\<close>

definition sample_ciphers :: cipher_crates where
  "sample_ciphers =
     \<lparr>b64_encode = base64_encode,
      b64_decode = (\<lambda>s. ok_or ''InvalidByte'' (base64_read s)),
      ecdh_point = (\<lambda>pk sk. map2 (+) pk sk),
      hkdf_extract = (\<lambda>salt ikm. salt @ ikm),
      hkdf_expand = (\<lambda>prk info n. take n (info @ prk @ replicate n 0)),
      chacha20 = (\<lambda>k n. map (\<lambda>b. NOT b)),
      hmac_sha256 = (\<lambda>k m. take 32 (m @ k) @ replicate (32 - length (m @ k)) 0),
      hmac_verify = (\<lambda>k m t. t = take 32 (m @ k) @ replicate (32 - length (m @ k)) 0)\<rparr>"

lemma sample_cipher_laws: "cipher_laws sample_crates sample_ciphers"
proof -
  have "map2 (+) a b = map2 (+) b a" for a b :: bytes
    by (rule nth_equalityI) (simp_all add: add.commute)
  moreover have "min m 32 + (min k (32 - m) + (32 - (m + k))) = (32::nat)" for m k by (auto simp: min_def)
  ultimately show ?thesis
    by (simp add: cipher_laws_def sample_ciphers_def sample_crates_def base64_read_encode length_base64_encode
        hash_base64_encode comp_def)
qed

end
