(* ===== verification/Bech32_Entities.thy ===== *)
theory Bech32_Entities
  imports Byte_Codec
begin

text \<open>
  Identifiers for people: the bech32 entities of NIP-19 (nips/nip19/) and the \<open>nostr:\<close> URIs of NIP-21
  (nips/nip21.rs). The bech32 coding and the test for a secp256k1 scalar are crates, the argument
  \<open>B\<close>; what the round trips need of them is \<open>bech32_laws\<close>.
\<close>

section \<open>Entities\<close>

record bech32_crates =
  bech32_encode :: "string \<Rightarrow> bytes \<Rightarrow> string + string"
  bech32_check :: "string \<Rightarrow> string + (string \<times> bytes)"
  scalar_valid :: "bytes \<Rightarrow> bool"

definition MAX_NIP19_LENGTH :: nat where "MAX_NIP19_LENGTH = 5000"
definition NPUB :: string where "NPUB = ''npub''"
definition NSEC :: string where "NSEC = ''nsec''"
definition NOTE :: string where "NOTE = ''note''"
definition NPROFILE :: string where "NPROFILE = ''nprofile''"
definition NEVENT :: string where "NEVENT = ''nevent''"
definition NADDR :: string where "NADDR = ''naddr''"
definition SECRET_KEY_SIZE :: nat where "SECRET_KEY_SIZE = 32"

datatype secret_key_error =
    SkHex hex_error
  | SkInvalidLength nat
  | SkInvalidScalar
  | SkRng rng_error

datatype to_bech32_error = Bech32Encode string | ToBech32Tlv tlv_error

datatype from_bech32_error =
    Nip19TooLong nat nat
  | Bech32Decode string
  | UnknownHrp string
  | UnexpectedHrp string string
  | InvalidPayloadLength nat nat
  | MissingTlv u8
  | InvalidKindLength nat
  | KindOutOfRange nat
  | InvalidRelayUtf8
  | FromBech32Tlv tlv_error
  | FromBech32PublicKey public_key_error
  | FromBech32SecretKey secret_key_error
  | FromBech32EventId event_id_error
  | FromBech32RelayUrl relay_url_error

type_synonym secret_key = bytes

record nip19_profile =
  np_public_key :: public_key
  np_relays :: "relay_url list"

record nip19_event =
  ne_event_id :: event_id
  ne_author :: "public_key option"
  ne_kind :: "kind option"
  ne_relays :: "relay_url list"

record nip19_coordinate =
  nc_coordinate :: coordinate
  nc_relays :: "relay_url list"

datatype nip19_entity =
    EntityPublicKey public_key
  | EntitySecretKey secret_key
  | EntityEventId event_id
  | EntityProfile nip19_profile
  | EntityEvent nip19_event
  | EntityCoordinate nip19_coordinate

definition nip19_profile_new :: "public_key \<Rightarrow> relay_url list \<Rightarrow> nip19_profile" where
  "nip19_profile_new pk relays = \<lparr>np_public_key = pk, np_relays = relays\<rparr>"

definition nip19_event_new :: "event_id \<Rightarrow> nip19_event" where
  "nip19_event_new i = \<lparr>ne_event_id = i, ne_author = None, ne_kind = None, ne_relays = []\<rparr>"

definition nip19_event_with_author :: "public_key \<Rightarrow> nip19_event \<Rightarrow> nip19_event" where
  "nip19_event_with_author pk e = e\<lparr>ne_author := Some pk\<rparr>"

definition nip19_event_with_kind :: "kind \<Rightarrow> nip19_event \<Rightarrow> nip19_event" where
  "nip19_event_with_kind k e = e\<lparr>ne_kind := Some k\<rparr>"

definition nip19_event_with_relays :: "relay_url list \<Rightarrow> nip19_event \<Rightarrow> nip19_event" where
  "nip19_event_with_relays relays e = e\<lparr>ne_relays := ne_relays e @ relays\<rparr>"

definition nip19_coordinate_new :: "string \<Rightarrow> public_key \<Rightarrow> kind \<Rightarrow> relay_url list \<Rightarrow> nip19_coordinate" where
  "nip19_coordinate_new i pk k relays =
     \<lparr>nc_coordinate = \<lparr>c_kind = k, c_author = pk, c_identifier = i\<rparr>, nc_relays = relays\<rparr>"

definition nip19_coordinate_from :: "coordinate \<Rightarrow> relay_url list \<Rightarrow> nip19_coordinate" where
  "nip19_coordinate_from c relays = \<lparr>nc_coordinate = c, nc_relays = relays\<rparr>"

definition secret_key_from_byte_array :: "bech32_crates \<Rightarrow> bytes \<Rightarrow> secret_key_error + secret_key" where
  "secret_key_from_byte_array B bs = (if scalar_valid B bs then Inr bs else Inl SkInvalidScalar)"

definition secret_key_from_slice :: "bech32_crates \<Rightarrow> bytes \<Rightarrow> secret_key_error + secret_key" where
  "secret_key_from_slice B bs =
     (if length bs = SECRET_KEY_SIZE then secret_key_from_byte_array B bs
      else Inl (SkInvalidLength (length bs)))"

definition secret_key_parse :: "crates \<Rightarrow> bech32_crates \<Rightarrow> string \<Rightarrow> secret_key_error + secret_key" where
  "secret_key_parse X B input =
     res_bind (map_err SkHex (hex_decode_vec X input)) (secret_key_from_slice B)"

definition secret_key_generate :: "bech32_crates \<Rightarrow> rng_error + bytes \<Rightarrow> secret_key_error + secret_key" where
  "secret_key_generate B entropy = res_bind (map_err SkRng entropy) (secret_key_from_byte_array B)"

section \<open>Encoding\<close>

definition encode_raw :: "bech32_crates \<Rightarrow> string \<Rightarrow> bytes \<Rightarrow> to_bech32_error + string" where
  "encode_raw B hrp_value data = map_err Bech32Encode (bech32_encode B hrp_value data)"

definition kind_be :: "kind \<Rightarrow> bytes" where
  "kind_be k = to_be 4 (unat k)"

definition relay_records :: "relay_url list \<Rightarrow> (u8 \<times> bytes) list" where
  "relay_records relays = map (\<lambda>r. (RELAY, body_bytes r)) relays"

definition public_key_to_bech32 :: "bech32_crates \<Rightarrow> public_key \<Rightarrow> to_bech32_error + string" where
  "public_key_to_bech32 B pk = encode_raw B NPUB pk"

definition secret_key_to_bech32 :: "bech32_crates \<Rightarrow> secret_key \<Rightarrow> to_bech32_error + string" where
  "secret_key_to_bech32 B sk = encode_raw B NSEC sk"

definition event_id_to_bech32 :: "bech32_crates \<Rightarrow> event_id \<Rightarrow> to_bech32_error + string" where
  "event_id_to_bech32 B i = encode_raw B NOTE i"

definition profile_to_bech32 :: "bech32_crates \<Rightarrow> nip19_profile \<Rightarrow> to_bech32_error + string" where
  "profile_to_bech32 B p =
     res_bind (map_err ToBech32Tlv (tlv_encode
       ([(SPECIAL, np_public_key p)] @ relay_records (np_relays p)))) (encode_raw B NPROFILE)"

definition nevent_to_bech32 :: "bech32_crates \<Rightarrow> nip19_event \<Rightarrow> to_bech32_error + string" where
  "nevent_to_bech32 B e =
     res_bind (map_err ToBech32Tlv (tlv_encode
       ([(SPECIAL, ne_event_id e)] @ relay_records (ne_relays e) @
        (case ne_author e of Some a \<Rightarrow> [(AUTHOR, a)] | None \<Rightarrow> []) @
        (case ne_kind e of Some k \<Rightarrow> [(KIND, kind_be k)] | None \<Rightarrow> [])))) (encode_raw B NEVENT)"

definition naddr_to_bech32 :: "bech32_crates \<Rightarrow> nip19_coordinate \<Rightarrow> to_bech32_error + string" where
  "naddr_to_bech32 B c =
     res_bind (map_err ToBech32Tlv (tlv_encode
       ([(SPECIAL, body_bytes (c_identifier (nc_coordinate c)))] @ relay_records (nc_relays c) @
        [(AUTHOR, c_author (nc_coordinate c)), (KIND, kind_be (c_kind (nc_coordinate c)))])))
       (encode_raw B NADDR)"

fun entity_to_bech32 :: "bech32_crates \<Rightarrow> nip19_entity \<Rightarrow> to_bech32_error + string" where
  "entity_to_bech32 B (EntityPublicKey pk) = public_key_to_bech32 B pk"
| "entity_to_bech32 B (EntitySecretKey sk) = secret_key_to_bech32 B sk"
| "entity_to_bech32 B (EntityEventId i) = event_id_to_bech32 B i"
| "entity_to_bech32 B (EntityProfile p) = profile_to_bech32 B p"
| "entity_to_bech32 B (EntityEvent e) = nevent_to_bech32 B e"
| "entity_to_bech32 B (EntityCoordinate c) = naddr_to_bech32 B c"

section \<open>Decoding\<close>

definition decode_bech32 :: "bech32_crates \<Rightarrow> string \<Rightarrow> from_bech32_error + (string \<times> bytes)" where
  "decode_bech32 B s =
     (if length s > MAX_NIP19_LENGTH then Inl (Nip19TooLong (length s) MAX_NIP19_LENGTH)
      else res_bind (map_err Bech32Decode (bech32_check B s)) (\<lambda>parsed.
      Inr (map to_ascii_lower (fst parsed), snd parsed)))"

definition decode_with_hrp :: "bech32_crates \<Rightarrow> string \<Rightarrow> string \<Rightarrow> from_bech32_error + bytes" where
  "decode_with_hrp B s expected =
     res_bind (decode_bech32 B s) (\<lambda>(hrp_str, data).
     if hrp_str \<noteq> expected then Inl (UnexpectedHrp expected hrp_str) else Inr data)"

definition expect_len :: "bytes \<Rightarrow> nat \<Rightarrow> from_bech32_error + unit" where
  "expect_len data expected =
     (if length data \<noteq> expected then Inl (InvalidPayloadLength expected (length data)) else Inr ())"

definition decode_pubkey :: "crates \<Rightarrow> bytes \<Rightarrow> from_bech32_error + public_key" where
  "decode_pubkey X data =
     res_bind (expect_len data 32) (\<lambda>_. map_err FromBech32PublicKey (public_key_from_slice X data))"

definition decode_seckey :: "bech32_crates \<Rightarrow> bytes \<Rightarrow> from_bech32_error + secret_key" where
  "decode_seckey B data =
     res_bind (expect_len data 32) (\<lambda>_. map_err FromBech32SecretKey (secret_key_from_slice B data))"

definition decode_event_id :: "bytes \<Rightarrow> from_bech32_error + event_id" where
  "decode_event_id data =
     res_bind (expect_len data 32) (\<lambda>_. map_err FromBech32EventId (event_id_from_slice data))"

definition decode_kind :: "bytes \<Rightarrow> from_bech32_error + kind" where
  "decode_kind bs =
     (if length bs \<noteq> 4 then Inl (InvalidKindLength (length bs))
      else let raw = be_nat bs in if raw > 65535 then Inl (KindOutOfRange raw) else Inr (of_nat raw))"

definition parse_relay :: "url_crate \<Rightarrow> bytes \<Rightarrow> from_bech32_error + relay_url" where
  "parse_relay U bs =
     res_bind (ok_or InvalidRelayUtf8 (string_from_utf8 bs)) (\<lambda>s.
     map_err FromBech32RelayUrl (relay_url_parse U s))"

text \<open>The loops over the records, with the locals of the functions as the state.\<close>

fun decode_profile_loop ::
  "crates \<Rightarrow> url_crate \<Rightarrow> (tlv_error + u8 \<times> bytes) list \<Rightarrow> public_key option \<Rightarrow> relay_url list \<Rightarrow>
   from_bech32_error + (public_key option \<times> relay_url list)" where
  "decode_profile_loop X U [] public_key relays = Inr (public_key, relays)"
| "decode_profile_loop X U (r # rest) public_key relays =
     res_bind (map_err FromBech32Tlv r) (\<lambda>(tag, bs).
     if tag = SPECIAL then
       res_bind (decode_pubkey X bs) (\<lambda>pk. decode_profile_loop X U rest (Some pk) relays)
     else if tag = RELAY then
       res_bind (parse_relay U bs) (\<lambda>url. decode_profile_loop X U rest public_key (relays @ [url]))
     else decode_profile_loop X U rest public_key relays)"

definition decode_profile :: "crates \<Rightarrow> url_crate \<Rightarrow> bytes \<Rightarrow> from_bech32_error + nip19_profile" where
  "decode_profile X U data =
     res_bind (decode_profile_loop X U (tlv_iter data 0) None []) (\<lambda>(public_key, relays).
     res_bind (ok_or (MissingTlv SPECIAL) public_key) (\<lambda>pk.
     Inr \<lparr>np_public_key = pk, np_relays = relays\<rparr>))"

text \<open>The locals of \<open>decode_nevent\<close> and \<open>decode_naddr\<close>; the special record is an id or an identifier.\<close>

record 'a pointer =
  pt_special :: "'a option"
  pt_author :: "public_key option"
  pt_kind :: "kind option"
  pt_relays :: "relay_url list"

definition pointer_empty :: "'a pointer" where
  "pointer_empty = \<lparr>pt_special = None, pt_author = None, pt_kind = None, pt_relays = []\<rparr>"

definition pointer_record ::
  "crates \<Rightarrow> url_crate \<Rightarrow> (bytes \<Rightarrow> from_bech32_error + 'a) \<Rightarrow> u8 \<times> bytes \<Rightarrow> 'a pointer \<Rightarrow>
   from_bech32_error + 'a pointer" where
  "pointer_record X U special r st =
     (if fst r = SPECIAL then res_bind (special (snd r)) (\<lambda>v. Inr (st\<lparr>pt_special := Some v\<rparr>))
      else if fst r = RELAY then
        res_bind (parse_relay U (snd r)) (\<lambda>url. Inr (st\<lparr>pt_relays := pt_relays st @ [url]\<rparr>))
      else if fst r = AUTHOR then
        res_bind (decode_pubkey X (snd r)) (\<lambda>pk. Inr (st\<lparr>pt_author := Some pk\<rparr>))
      else if fst r = KIND then
        res_bind (decode_kind (snd r)) (\<lambda>k. Inr (st\<lparr>pt_kind := Some k\<rparr>))
      else Inr st)"

fun pointer_loop ::
  "crates \<Rightarrow> url_crate \<Rightarrow> (bytes \<Rightarrow> from_bech32_error + 'a) \<Rightarrow> (tlv_error + u8 \<times> bytes) list \<Rightarrow>
   'a pointer \<Rightarrow> from_bech32_error + 'a pointer" where
  "pointer_loop X U special [] st = Inr st"
| "pointer_loop X U special (r # rest) st =
     res_bind (map_err FromBech32Tlv r) (\<lambda>rc.
     res_bind (pointer_record X U special rc st) (pointer_loop X U special rest))"

definition decode_nevent :: "crates \<Rightarrow> url_crate \<Rightarrow> bytes \<Rightarrow> from_bech32_error + nip19_event" where
  "decode_nevent X U data =
     res_bind (pointer_loop X U decode_event_id (tlv_iter data 0) pointer_empty) (\<lambda>st.
     res_bind (ok_or (MissingTlv SPECIAL) (pt_special st)) (\<lambda>i.
     Inr \<lparr>ne_event_id = i, ne_author = pt_author st, ne_kind = pt_kind st, ne_relays = pt_relays st\<rparr>))"

definition decode_naddr :: "crates \<Rightarrow> url_crate \<Rightarrow> bytes \<Rightarrow> from_bech32_error + nip19_coordinate" where
  "decode_naddr X U data =
     res_bind (pointer_loop X U (\<lambda>bs. ok_or InvalidRelayUtf8 (string_from_utf8 bs)) (tlv_iter data 0)
       pointer_empty) (\<lambda>st.
     res_bind (ok_or (MissingTlv SPECIAL) (pt_special st)) (\<lambda>identifier.
     res_bind (ok_or (MissingTlv AUTHOR) (pt_author st)) (\<lambda>author.
     res_bind (ok_or (MissingTlv KIND) (pt_kind st)) (\<lambda>kind.
     Inr \<lparr>nc_coordinate = \<lparr>c_kind = kind, c_author = author, c_identifier = identifier\<rparr>,
          nc_relays = pt_relays st\<rparr>))))"

definition public_key_from_bech32 :: "crates \<Rightarrow> bech32_crates \<Rightarrow> string \<Rightarrow> from_bech32_error + public_key" where
  "public_key_from_bech32 X B s = res_bind (decode_with_hrp B s NPUB) (decode_pubkey X)"

definition secret_key_from_bech32 :: "bech32_crates \<Rightarrow> string \<Rightarrow> from_bech32_error + secret_key" where
  "secret_key_from_bech32 B s = res_bind (decode_with_hrp B s NSEC) (decode_seckey B)"

definition event_id_from_bech32 :: "bech32_crates \<Rightarrow> string \<Rightarrow> from_bech32_error + event_id" where
  "event_id_from_bech32 B s = res_bind (decode_with_hrp B s NOTE) decode_event_id"

definition profile_from_bech32 ::
  "crates \<Rightarrow> url_crate \<Rightarrow> bech32_crates \<Rightarrow> string \<Rightarrow> from_bech32_error + nip19_profile" where
  "profile_from_bech32 X U B s = res_bind (decode_with_hrp B s NPROFILE) (decode_profile X U)"

definition nevent_from_bech32 ::
  "crates \<Rightarrow> url_crate \<Rightarrow> bech32_crates \<Rightarrow> string \<Rightarrow> from_bech32_error + nip19_event" where
  "nevent_from_bech32 X U B s = res_bind (decode_with_hrp B s NEVENT) (decode_nevent X U)"

definition naddr_from_bech32 ::
  "crates \<Rightarrow> url_crate \<Rightarrow> bech32_crates \<Rightarrow> string \<Rightarrow> from_bech32_error + nip19_coordinate" where
  "naddr_from_bech32 X U B s = res_bind (decode_with_hrp B s NADDR) (decode_naddr X U)"

definition entity_from_bech32 ::
  "crates \<Rightarrow> url_crate \<Rightarrow> bech32_crates \<Rightarrow> string \<Rightarrow> from_bech32_error + nip19_entity" where
  "entity_from_bech32 X U B s =
     res_bind (decode_bech32 B s) (\<lambda>(hrp_str, data).
     if hrp_str = NPUB then res_bind (decode_pubkey X data) (Inr \<circ> EntityPublicKey)
     else if hrp_str = NSEC then res_bind (decode_seckey B data) (Inr \<circ> EntitySecretKey)
     else if hrp_str = NOTE then res_bind (decode_event_id data) (Inr \<circ> EntityEventId)
     else if hrp_str = NPROFILE then res_bind (decode_profile X U data) (Inr \<circ> EntityProfile)
     else if hrp_str = NEVENT then res_bind (decode_nevent X U data) (Inr \<circ> EntityEvent)
     else if hrp_str = NADDR then res_bind (decode_naddr X U data) (Inr \<circ> EntityCoordinate)
     else Inl (UnknownHrp hrp_str))"

section \<open>URIs\<close>

definition SCHEME_PREFIX :: string where "SCHEME_PREFIX = ''nostr:''"

datatype nip21_error =
    InvalidUri
  | SecretKeyRefused
  | Nip21Decode from_bech32_error
  | Nip21Encode to_bech32_error

datatype nip21 =
    UriPubkey public_key
  | UriEventId event_id
  | UriProfile nip19_profile
  | UriEvent nip19_event
  | UriCoordinate nip19_coordinate

definition strip_scheme :: "string \<Rightarrow> string option" where
  "strip_scheme uri =
     Option.bind (strip_prefix SCHEME_PREFIX uri) (\<lambda>body. if body = [] then None else Some body)"

fun nip21_of_entity :: "nip19_entity \<Rightarrow> nip21_error + nip21" where
  "nip21_of_entity (EntitySecretKey _) = Inl SecretKeyRefused"
| "nip21_of_entity (EntityPublicKey pk) = Inr (UriPubkey pk)"
| "nip21_of_entity (EntityEventId i) = Inr (UriEventId i)"
| "nip21_of_entity (EntityProfile p) = Inr (UriProfile p)"
| "nip21_of_entity (EntityEvent e) = Inr (UriEvent e)"
| "nip21_of_entity (EntityCoordinate c) = Inr (UriCoordinate c)"

fun entity_of_nip21 :: "nip21 \<Rightarrow> nip19_entity" where
  "entity_of_nip21 (UriPubkey pk) = EntityPublicKey pk"
| "entity_of_nip21 (UriEventId i) = EntityEventId i"
| "entity_of_nip21 (UriProfile p) = EntityProfile p"
| "entity_of_nip21 (UriEvent e) = EntityEvent e"
| "entity_of_nip21 (UriCoordinate c) = EntityCoordinate c"

definition nip21_parse :: "crates \<Rightarrow> url_crate \<Rightarrow> bech32_crates \<Rightarrow> string \<Rightarrow> nip21_error + nip21" where
  "nip21_parse X U B uri =
     res_bind (ok_or InvalidUri (strip_scheme uri)) (\<lambda>body.
     res_bind (map_err Nip21Decode (entity_from_bech32 X U B body)) nip21_of_entity)"

fun to_bech32_body :: "bech32_crates \<Rightarrow> nip21 \<Rightarrow> nip21_error + string" where
  "to_bech32_body B (UriPubkey pk) = map_err Nip21Encode (public_key_to_bech32 B pk)"
| "to_bech32_body B (UriEventId i) = map_err Nip21Encode (event_id_to_bech32 B i)"
| "to_bech32_body B (UriProfile p) = map_err Nip21Encode (profile_to_bech32 B p)"
| "to_bech32_body B (UriEvent e) = map_err Nip21Encode (nevent_to_bech32 B e)"
| "to_bech32_body B (UriCoordinate c) = map_err Nip21Encode (naddr_to_bech32 B c)"

definition to_nostr_uri :: "bech32_crates \<Rightarrow> nip21 \<Rightarrow> nip21_error + string" where
  "to_nostr_uri B u = res_bind (to_bech32_body B u) (\<lambda>body. Inr (SCHEME_PREFIX @ body))"

fun nip21_event_id :: "nip21 \<Rightarrow> event_id option" where
  "nip21_event_id (UriEventId i) = Some i"
| "nip21_event_id (UriEvent e) = Some (ne_event_id e)"
| "nip21_event_id (UriPubkey _) = None"
| "nip21_event_id (UriProfile _) = None"
| "nip21_event_id (UriCoordinate _) = None"

fun nip21_pubkey :: "nip21 \<Rightarrow> public_key option" where
  "nip21_pubkey (UriPubkey pk) = Some pk"
| "nip21_pubkey (UriProfile p) = Some (np_public_key p)"
| "nip21_pubkey (UriCoordinate c) = Some (c_author (nc_coordinate c))"
| "nip21_pubkey (UriEventId _) = None"
| "nip21_pubkey (UriEvent _) = None"

section \<open>Well-formed values\<close>

definition nip19_hrps :: "string list" where
  "nip19_hrps = [NPUB, NSEC, NOTE, NPROFILE, NEVENT, NADDR]"

definition bech32_laws :: "bech32_crates \<Rightarrow> bool" where
  "bech32_laws B \<longleftrightarrow>
     (\<forall>h d s. h \<in> set nip19_hrps \<longrightarrow> bech32_encode B h d = Inr s \<longrightarrow>
        bech32_check B s = Inr (h, d) \<and> take (length h + 1) s = h @ ''1'')"

definition secret_key_wf :: "bech32_crates \<Rightarrow> secret_key \<Rightarrow> bool" where
  "secret_key_wf B sk \<longleftrightarrow> length sk = SECRET_KEY_SIZE \<and> scalar_valid B sk"

definition relay_wf :: "url_crate \<Rightarrow> relay_url \<Rightarrow> bool" where
  "relay_wf U r \<longleftrightarrow> str_wf r \<and> relay_url_parse U r = Inr r"

fun entity_wf :: "crates \<Rightarrow> url_crate \<Rightarrow> bech32_crates \<Rightarrow> nip19_entity \<Rightarrow> bool" where
  "entity_wf X U B (EntityPublicKey pk) \<longleftrightarrow> public_key_wf X pk"
| "entity_wf X U B (EntitySecretKey sk) \<longleftrightarrow> secret_key_wf B sk"
| "entity_wf X U B (EntityEventId i) \<longleftrightarrow> event_id_wf i"
| "entity_wf X U B (EntityProfile p) \<longleftrightarrow> public_key_wf X (np_public_key p) \<and> list_all (relay_wf U) (np_relays p)"
| "entity_wf X U B (EntityEvent e) \<longleftrightarrow> event_id_wf (ne_event_id e) \<and> opt_all (public_key_wf X) (ne_author e) \<and>
     list_all (relay_wf U) (ne_relays e)"
| "entity_wf X U B (EntityCoordinate c) \<longleftrightarrow> str_wf (c_identifier (nc_coordinate c)) \<and>
     public_key_wf X (c_author (nc_coordinate c)) \<and> list_all (relay_wf U) (nc_relays c)"

section \<open>Records decode to what they encode\<close>

lemma tlv_tags [simp]:
  "SPECIAL \<noteq> RELAY" "SPECIAL \<noteq> AUTHOR" "SPECIAL \<noteq> KIND" "RELAY \<noteq> AUTHOR" "RELAY \<noteq> KIND" "AUTHOR \<noteq> KIND"
  "RELAY \<noteq> SPECIAL" "AUTHOR \<noteq> SPECIAL" "KIND \<noteq> SPECIAL" "AUTHOR \<noteq> RELAY" "KIND \<noteq> RELAY" "KIND \<noteq> AUTHOR"
  by (simp_all add: SPECIAL_def RELAY_def AUTHOR_def KIND_def)

lemma decode_kind_be [simp]: "decode_kind (kind_be k) = Inr k"
proof -
  have "unat k < 2 ^ LENGTH(16)" by (rule unsigned_less)
  then have k: "unat k \<le> 65535" by simp
  then have "be_nat (kind_be k) = unat k" by (simp add: kind_be_def be_nat_to_be)
  with k show ?thesis by (simp add: decode_kind_def Let_def) (simp add: kind_be_def)
qed

lemma decode_pubkey_wf: "public_key_wf X pk \<Longrightarrow> decode_pubkey X pk = Inr pk"
  by (simp add: decode_pubkey_def expect_len_def public_key_wf_def public_key_from_slice_def PUBLIC_KEY_SIZE_def
      public_key_from_byte_array_def)

lemma decode_seckey_wf: "secret_key_wf B sk \<Longrightarrow> decode_seckey B sk = Inr sk"
  by (simp add: decode_seckey_def expect_len_def secret_key_wf_def secret_key_from_slice_def SECRET_KEY_SIZE_def
      secret_key_from_byte_array_def)

lemma decode_event_id_wf: "event_id_wf i \<Longrightarrow> decode_event_id i = Inr i"
  by (simp add: decode_event_id_def expect_len_def event_id_wf_def event_id_from_slice_def EVENT_ID_SIZE_def)

lemma parse_relay_wf: "relay_wf U r \<Longrightarrow> parse_relay U (body_bytes r) = Inr r"
  by (simp add: parse_relay_def relay_wf_def string_from_utf8_bytes)

lemmas decode_wf = decode_pubkey_wf decode_seckey_wf decode_event_id_wf parse_relay_wf string_from_utf8_bytes

lemma decode_profile_relays:
  "list_all (relay_wf U) rs \<Longrightarrow>
   decode_profile_loop X U (map Inr (relay_records rs)) pk relays = Inr (pk, relays @ rs)"
  by (induction rs arbitrary: relays) (simp_all add: relay_records_def parse_relay_wf)

lemma pointer_relays:
  "list_all (relay_wf U) rs \<Longrightarrow>
   pointer_loop X U f (map Inr (relay_records rs) @ more_records) st =
   pointer_loop X U f more_records (st\<lparr>pt_relays := pt_relays st @ rs\<rparr>)"
  by (induction rs arbitrary: st) (simp_all add: relay_records_def parse_relay_wf pointer_record_def)

lemmas pointer_relays_end = pointer_relays [of _ _ _ _ "[]", simplified]

lemma decode_profile_encoded:
  assumes "entity_wf X U B (EntityProfile p)"
    and "tlv_encode ([(SPECIAL, np_public_key p)] @ relay_records (np_relays p)) = Inr data"
  shows "decode_profile X U data = Inr p"
  using assms(1) decode_profile_relays [of U "np_relays p" X "Some (np_public_key p)" "[]"]
  by (simp add: decode_profile_def tlv_round_trip_aux [OF assms(2)] decode_wf)

lemma decode_nevent_encoded:
  assumes "entity_wf X U B (EntityEvent e)"
    and "tlv_encode ([(SPECIAL, ne_event_id e)] @ relay_records (ne_relays e) @
        (case ne_author e of Some a \<Rightarrow> [(AUTHOR, a)] | None \<Rightarrow> []) @
        (case ne_kind e of Some k \<Rightarrow> [(KIND, kind_be k)] | None \<Rightarrow> [])) = Inr data"
  shows "decode_nevent X U data = Inr e"
  using assms(1)
  by (cases "ne_author e"; cases "ne_kind e")
    (simp_all add: decode_nevent_def tlv_round_trip_aux [OF assms(2)] pointer_relays pointer_relays_end decode_wf pointer_record_def
      pointer_empty_def)

lemma decode_naddr_encoded:
  assumes "entity_wf X U B (EntityCoordinate c)"
    and "tlv_encode ([(SPECIAL, body_bytes (c_identifier (nc_coordinate c)))] @ relay_records (nc_relays c) @
        [(AUTHOR, c_author (nc_coordinate c)), (KIND, kind_be (c_kind (nc_coordinate c)))]) = Inr data"
  shows "decode_naddr X U data = Inr c"
  using assms(1)
  by (simp add: decode_naddr_def tlv_round_trip_aux [OF assms(2)] pointer_relays pointer_relays_end decode_wf pointer_record_def
      pointer_empty_def)

section \<open>Texts decode to what they encode\<close>

text \<open>
  The contract of a text form with a length limit: a well-formed value whose text was written and fits is
  read back.
\<close>

locale text_codec =
  fixes to_text :: "'a \<Rightarrow> 'e + string"
    and from_text :: "string \<Rightarrow> 'f + 'a"
    and fits :: "string \<Rightarrow> bool"
    and wf :: "'a \<Rightarrow> bool"
  assumes read_back: "wf x \<Longrightarrow> to_text x = Inr s \<Longrightarrow> fits s \<Longrightarrow> from_text s = Inr x"
begin

lemma text_injective:
  assumes "wf x" and "wf y" and "to_text x = Inr s" and "to_text y = Inr s" and "fits s"
  shows "x = y"
proof -
  have "(Inr x :: 'f + 'a) = Inr y" using assms read_back [of x s] read_back [of y s] by simp
  then show ?thesis by simp
qed

text \<open>Reading is a normalisation: what was read and written again reads the same.\<close>

lemma rewrite_stable:
  assumes "from_text t = Inr x" and "wf x" and "to_text x = Inr s" and "fits s"
  shows "from_text s = from_text t"
  using assms read_back by simp

end

abbreviation nip19_fits :: "string \<Rightarrow> bool" where
  "nip19_fits s \<equiv> length s \<le> MAX_NIP19_LENGTH"

lemma hrp_lower: "h \<in> set nip19_hrps \<Longrightarrow> map to_ascii_lower h = h"
  by (auto simp: nip19_hrps_def NPUB_def NSEC_def NOTE_def NPROFILE_def NEVENT_def NADDR_def to_ascii_lower_def)

lemma decode_bech32_encoded:
  assumes "bech32_laws B" and "encode_raw B h d = Inr s" and "h \<in> set nip19_hrps" and "nip19_fits s"
  shows "decode_bech32 B s = Inr (h, d)"
proof -
  have "bech32_check B s = Inr (h, d)"
    using assms(1-3) by (simp add: bech32_laws_def encode_raw_def)
  then show ?thesis using assms(3,4) by (simp add: decode_bech32_def hrp_lower)
qed

lemma hrps [simp]:
  "NPUB \<in> set nip19_hrps" "NSEC \<in> set nip19_hrps" "NOTE \<in> set nip19_hrps"
  "NPROFILE \<in> set nip19_hrps" "NEVENT \<in> set nip19_hrps" "NADDR \<in> set nip19_hrps"
  by (simp_all add: nip19_hrps_def)

lemma hrps_neq [simp]:
  "NPUB \<noteq> NSEC" "NPUB \<noteq> NOTE" "NPUB \<noteq> NPROFILE" "NPUB \<noteq> NEVENT" "NPUB \<noteq> NADDR"
  "NSEC \<noteq> NPUB" "NSEC \<noteq> NOTE" "NSEC \<noteq> NPROFILE" "NSEC \<noteq> NEVENT" "NSEC \<noteq> NADDR"
  "NOTE \<noteq> NPUB" "NOTE \<noteq> NSEC" "NOTE \<noteq> NPROFILE" "NOTE \<noteq> NEVENT" "NOTE \<noteq> NADDR"
  "NPROFILE \<noteq> NPUB" "NPROFILE \<noteq> NSEC" "NPROFILE \<noteq> NOTE" "NPROFILE \<noteq> NEVENT" "NPROFILE \<noteq> NADDR"
  "NEVENT \<noteq> NPUB" "NEVENT \<noteq> NSEC" "NEVENT \<noteq> NOTE" "NEVENT \<noteq> NPROFILE" "NEVENT \<noteq> NADDR"
  "NADDR \<noteq> NPUB" "NADDR \<noteq> NSEC" "NADDR \<noteq> NOTE" "NADDR \<noteq> NPROFILE" "NADDR \<noteq> NEVENT"
  by (simp_all add: NPUB_def NSEC_def NOTE_def NPROFILE_def NEVENT_def NADDR_def)

lemma decode_with_hrp_encoded:
  assumes "bech32_laws B" and "encode_raw B h d = Inr s" and "h \<in> set nip19_hrps" and "nip19_fits s"
  shows "decode_with_hrp B s h = Inr d"
  by (simp add: decode_with_hrp_def decode_bech32_encoded [OF assms])

interpretation npub: text_codec "public_key_to_bech32 B" "public_key_from_bech32 X B" nip19_fits
  "\<lambda>pk. bech32_laws B \<and> public_key_wf X pk" for X B
  by unfold_locales (auto simp: public_key_to_bech32_def public_key_from_bech32_def decode_with_hrp_encoded decode_wf)

interpretation nsec: text_codec "secret_key_to_bech32 B" "secret_key_from_bech32 B" nip19_fits
  "\<lambda>sk. bech32_laws B \<and> secret_key_wf B sk" for B
  by unfold_locales (auto simp: secret_key_to_bech32_def secret_key_from_bech32_def decode_with_hrp_encoded decode_wf)

interpretation note_id: text_codec "event_id_to_bech32 B" "event_id_from_bech32 B" nip19_fits
  "\<lambda>i. bech32_laws B \<and> event_id_wf i" for B
  by unfold_locales (auto simp: event_id_to_bech32_def event_id_from_bech32_def decode_with_hrp_encoded decode_wf)

lemma profile_payload:
  assumes "profile_to_bech32 B p = Inr s" and "entity_wf X U B (EntityProfile p)"
  obtains data where "encode_raw B NPROFILE data = Inr s" and "decode_profile X U data = Inr p"
  using assms(1) decode_profile_encoded [OF assms(2)]
  unfolding profile_to_bech32_def res_bind_Inr_iff map_err_Inr_iff by blast

lemma nevent_payload:
  assumes "nevent_to_bech32 B e = Inr s" and "entity_wf X U B (EntityEvent e)"
  obtains data where "encode_raw B NEVENT data = Inr s" and "decode_nevent X U data = Inr e"
  using assms(1) decode_nevent_encoded [OF assms(2)]
  unfolding nevent_to_bech32_def res_bind_Inr_iff map_err_Inr_iff by blast

lemma naddr_payload:
  assumes "naddr_to_bech32 B c = Inr s" and "entity_wf X U B (EntityCoordinate c)"
  obtains data where "encode_raw B NADDR data = Inr s" and "decode_naddr X U data = Inr c"
  using assms(1) decode_naddr_encoded [OF assms(2)]
  unfolding naddr_to_bech32_def res_bind_Inr_iff map_err_Inr_iff by blast

lemma profile_read_back:
  assumes "bech32_laws B" and "entity_wf X U B (EntityProfile p)" and "profile_to_bech32 B p = Inr s"
    and "nip19_fits s"
  shows "profile_from_bech32 X U B s = Inr p"
  by (rule profile_payload [OF assms(3,2)])
    (simp add: profile_from_bech32_def decode_with_hrp_encoded [OF assms(1) _ _ assms(4)])

lemma nevent_read_back:
  assumes "bech32_laws B" and "entity_wf X U B (EntityEvent e)" and "nevent_to_bech32 B e = Inr s"
    and "nip19_fits s"
  shows "nevent_from_bech32 X U B s = Inr e"
  by (rule nevent_payload [OF assms(3,2)])
    (simp add: nevent_from_bech32_def decode_with_hrp_encoded [OF assms(1) _ _ assms(4)])

lemma naddr_read_back:
  assumes "bech32_laws B" and "entity_wf X U B (EntityCoordinate c)" and "naddr_to_bech32 B c = Inr s"
    and "nip19_fits s"
  shows "naddr_from_bech32 X U B s = Inr c"
  by (rule naddr_payload [OF assms(3,2)])
    (simp add: naddr_from_bech32_def decode_with_hrp_encoded [OF assms(1) _ _ assms(4)])

interpretation nprofile: text_codec "profile_to_bech32 B" "profile_from_bech32 X U B" nip19_fits
  "\<lambda>p. bech32_laws B \<and> entity_wf X U B (EntityProfile p)" for X U B
  by unfold_locales (blast intro: profile_read_back)

interpretation nevent: text_codec "nevent_to_bech32 B" "nevent_from_bech32 X U B" nip19_fits
  "\<lambda>e. bech32_laws B \<and> entity_wf X U B (EntityEvent e)" for X U B
  by unfold_locales (blast intro: nevent_read_back)

interpretation naddr: text_codec "naddr_to_bech32 B" "naddr_from_bech32 X U B" nip19_fits
  "\<lambda>c. bech32_laws B \<and> entity_wf X U B (EntityCoordinate c)" for X U B
  by unfold_locales (blast intro: naddr_read_back)

text \<open>The discriminated union: the prefix of a text tells its type.\<close>

lemma entity_payload:
  assumes "entity_to_bech32 B ent = Inr s" and "entity_wf X U B ent" and "bech32_laws B" and "nip19_fits s"
  shows "entity_from_bech32 X U B s = Inr ent"
  using assms(1,2)
proof (cases ent)
  case (EntityProfile p)
  then obtain data where "encode_raw B NPROFILE data = Inr s" and "decode_profile X U data = Inr p"
    using assms(1,2) by (metis entity_to_bech32.simps(4) profile_payload)
  then show ?thesis using EntityProfile decode_bech32_encoded [OF assms(3) _ _ assms(4)]
    by (simp add: entity_from_bech32_def)
next
  case (EntityEvent e)
  then obtain data where "encode_raw B NEVENT data = Inr s" and "decode_nevent X U data = Inr e"
    using assms(1,2) by (metis entity_to_bech32.simps(5) nevent_payload)
  then show ?thesis using EntityEvent decode_bech32_encoded [OF assms(3) _ _ assms(4)]
    by (simp add: entity_from_bech32_def)
next
  case (EntityCoordinate c)
  then obtain data where "encode_raw B NADDR data = Inr s" and "decode_naddr X U data = Inr c"
    using assms(1,2) by (metis entity_to_bech32.simps(6) naddr_payload)
  then show ?thesis using EntityCoordinate decode_bech32_encoded [OF assms(3) _ _ assms(4)]
    by (simp add: entity_from_bech32_def)
qed (auto simp: entity_from_bech32_def public_key_to_bech32_def secret_key_to_bech32_def event_id_to_bech32_def
    decode_bech32_encoded [OF assms(3) _ _ assms(4)] decode_wf)

interpretation entity: text_codec "entity_to_bech32 B" "entity_from_bech32 X U B" nip19_fits
  "\<lambda>ent. bech32_laws B \<and> entity_wf X U B ent" for X U B
  by unfold_locales (blast intro: entity_payload)

section \<open>URIs of entities\<close>

lemma nip21_of_entity_of: "nip21_of_entity (entity_of_nip21 u) = Inr u"
  by (cases u) simp_all

lemma to_bech32_body_entity: "to_bech32_body B u = map_err Nip21Encode (entity_to_bech32 B (entity_of_nip21 u))"
  by (cases u) simp_all

lemma encode_raw_prefix:
  "bech32_laws B \<Longrightarrow> encode_raw B h d = Inr s \<Longrightarrow> h \<in> set nip19_hrps \<Longrightarrow> take (length h + 1) s = h @ ''1''"
  by (simp add: bech32_laws_def encode_raw_def)

fun entity_hrp :: "nip19_entity \<Rightarrow> string" where
  "entity_hrp (EntityPublicKey _) = NPUB"
| "entity_hrp (EntitySecretKey _) = NSEC"
| "entity_hrp (EntityEventId _) = NOTE"
| "entity_hrp (EntityProfile _) = NPROFILE"
| "entity_hrp (EntityEvent _) = NEVENT"
| "entity_hrp (EntityCoordinate _) = NADDR"

lemma entity_to_bech32_prefix:
  assumes "bech32_laws B" and "entity_to_bech32 B ent = Inr s"
  shows "take (length (entity_hrp ent) + 1) s = entity_hrp ent @ ''1''"
proof -
  have "\<exists>d. encode_raw B (entity_hrp ent) d = Inr s"
    using assms(2) by (cases ent) (auto simp: public_key_to_bech32_def secret_key_to_bech32_def
        event_id_to_bech32_def profile_to_bech32_def nevent_to_bech32_def naddr_to_bech32_def res_bind_Inr_iff
        simp del: tlv_encode.simps)
  moreover have "entity_hrp ent \<in> set nip19_hrps" by (cases ent) simp_all
  ultimately show ?thesis using assms(1) encode_raw_prefix by blast
qed

lemma strip_scheme_prefix: "body \<noteq> [] \<Longrightarrow> strip_scheme (SCHEME_PREFIX @ body) = Some body"
  by (simp add: strip_scheme_def strip_prefix_def)

lemma nip21_read_back:
  assumes "bech32_laws B" and "entity_wf X U B (entity_of_nip21 u)" and "to_nostr_uri B u = Inr uri"
    and "length uri \<le> length SCHEME_PREFIX + MAX_NIP19_LENGTH"
  shows "nip21_parse X U B uri = Inr u"
proof -
  obtain body where body: "entity_to_bech32 B (entity_of_nip21 u) = Inr body" and uri: "uri = SCHEME_PREFIX @ body"
    using assms(3) by (auto simp: to_nostr_uri_def to_bech32_body_entity res_bind_Inr_iff)
  then have "body \<noteq> []" using entity_to_bech32_prefix [OF assms(1) body] by auto
  moreover have "nip19_fits body" using assms(4) uri by simp
  ultimately show ?thesis
    using entity_payload [OF body assms(2,1)]
    by (simp add: nip21_parse_def uri strip_scheme_prefix nip21_of_entity_of)
qed

lemma nip21_of_entity_Inr: "nip21_of_entity ent = Inr u \<longleftrightarrow> ent = entity_of_nip21 u"
  by (cases ent; cases u) auto

lemma nip21_parse_Inr:
  "nip21_parse X U B uri = Inr u \<Longrightarrow>
   \<exists>body. uri = SCHEME_PREFIX @ body \<and> body \<noteq> [] \<and> entity_from_bech32 X U B body = Inr (entity_of_nip21 u)"
  by (auto simp: nip21_parse_def strip_scheme_def strip_prefix_def res_bind_Inr_iff ok_or_Inr_iff
      nip21_of_entity_Inr bind_eq_Some_conv split: if_splits
      intro!: exI [of _ "drop (length SCHEME_PREFIX) uri"]) (metis append_take_drop_id)

section \<open>What decodes is well formed\<close>

text \<open>The URL crate: a serialised URL is valid UTF-8 and parses to itself.\<close>

definition url_laws :: "url_crate \<Rightarrow> bool" where
  "url_laws U \<longleftrightarrow> (\<forall>s r. relay_url_parse U s = Inr r \<longrightarrow> str_wf s \<longrightarrow> relay_wf U r)"

lemma decode_pubkey_Inr: "decode_pubkey X bs = Inr pk \<Longrightarrow> public_key_wf X pk"
  by (auto simp: decode_pubkey_def expect_len_def public_key_wf_def public_key_from_slice_def
      public_key_from_byte_array_def res_bind_Inr_iff split: if_splits)

lemma decode_seckey_Inr: "decode_seckey B bs = Inr sk \<Longrightarrow> secret_key_wf B sk"
  by (auto simp: decode_seckey_def expect_len_def secret_key_wf_def secret_key_from_slice_def
      secret_key_from_byte_array_def res_bind_Inr_iff split: if_splits)

lemma decode_event_id_Inr: "decode_event_id bs = Inr i \<Longrightarrow> event_id_wf i"
  by (auto simp: decode_event_id_def expect_len_def event_id_wf_def event_id_from_slice_def
      res_bind_Inr_iff split: if_splits)

lemma parse_relay_Inr: "url_laws U \<Longrightarrow> parse_relay U bs = Inr r \<Longrightarrow> relay_wf U r"
  by (auto simp: parse_relay_def url_laws_def res_bind_Inr_iff ok_or_Inr_iff dest: string_from_utf8_Some)

lemma decode_profile_loop_Inr:
  assumes "url_laws U" and "decode_profile_loop X U rs pk relays = Inr (pk', relays')"
    and "opt_all (public_key_wf X) pk" and "list_all (relay_wf U) relays"
  shows "opt_all (public_key_wf X) pk' \<and> list_all (relay_wf U) relays'"
  using assms(2-4)
  by (induction rs arbitrary: pk relays)
    (auto simp: res_bind_Inr_iff split: if_splits dest: decode_pubkey_Inr parse_relay_Inr [OF assms(1)])

definition pointer_wf :: "crates \<Rightarrow> url_crate \<Rightarrow> ('a \<Rightarrow> bool) \<Rightarrow> 'a pointer \<Rightarrow> bool" where
  "pointer_wf X U P st \<longleftrightarrow> opt_all P (pt_special st) \<and> opt_all (public_key_wf X) (pt_author st) \<and>
     list_all (relay_wf U) (pt_relays st)"

lemma pointer_loop_Inr:
  assumes "url_laws U" and special: "\<And>bs v. f bs = Inr v \<Longrightarrow> P v"
    and "pointer_loop X U f rs st = Inr st'" and "pointer_wf X U P st"
  shows "pointer_wf X U P st'"
  using assms(3,4)
proof (induction rs arbitrary: st)
  case (Cons r rs)
  then obtain rc st1 where st1: "pointer_record X U f rc st = Inr st1" and rest: "pointer_loop X U f rs st1 = Inr st'"
    by (auto simp: res_bind_Inr_iff)
  have "pointer_wf X U P st1"
    using st1 Cons.prems(2)
    by (auto simp: pointer_record_def pointer_wf_def res_bind_Inr_iff split: if_splits
        dest: special decode_pubkey_Inr parse_relay_Inr [OF assms(1)])
  with rest show ?case by (rule Cons.IH)
qed simp

lemma decode_nevent_Inr:
  assumes "url_laws U" and "decode_nevent X U data = Inr e"
  shows "entity_wf X U B (EntityEvent e)"
  using assms(2) pointer_loop_Inr [where P = event_id_wf, OF assms(1) decode_event_id_Inr]
  by (fastforce simp: decode_nevent_def res_bind_Inr_iff ok_or_Inr_iff pointer_wf_def pointer_empty_def)

lemma decode_naddr_Inr:
  assumes "url_laws U" and "decode_naddr X U data = Inr c"
  shows "entity_wf X U B (EntityCoordinate c)"
proof -
  let ?f = "\<lambda>bs. ok_or InvalidRelayUtf8 (string_from_utf8 bs)"
  have "pointer_wf X U str_wf st'" if "pointer_loop X U ?f rs st = Inr st'" and "pointer_wf X U str_wf st" for rs st st'
    by (rule pointer_loop_Inr [OF assms(1) _ that]) (auto simp: ok_or_Inr_iff dest: string_from_utf8_Some)
  with assms(2) show ?thesis
    by (fastforce simp: decode_naddr_def res_bind_Inr_iff ok_or_Inr_iff pointer_wf_def pointer_empty_def)
qed

lemma decode_profile_Inr:
  assumes "url_laws U" and "decode_profile X U data = Inr p"
  shows "entity_wf X U B (EntityProfile p)"
  using assms(2) decode_profile_loop_Inr [OF assms(1)]
  by (fastforce simp: decode_profile_def res_bind_Inr_iff ok_or_Inr_iff)

lemma entity_from_bech32_wf:
  assumes "url_laws U" and "entity_from_bech32 X U B s = Inr ent"
  shows "entity_wf X U B ent"
  using assms(2)
  by (auto simp: entity_from_bech32_def res_bind_Inr_iff split: if_splits
      dest: decode_pubkey_Inr decode_seckey_Inr decode_event_id_Inr decode_profile_Inr [OF assms(1)]
        decode_nevent_Inr [OF assms(1)] decode_naddr_Inr [OF assms(1)] simp del: entity_wf.simps(4-6))

end
