(* ===== verification/Codec_Theorems.thy ===== *)
theory Codec_Theorems
  imports Sample_Ciphers Bech32_Entities Protocol_Theorems
begin

text \<open>
  The properties of the byte and text codings: encrypted payloads (NIP-44), tag-length-value records and
  bech32 entities (NIP-19), and URIs (NIP-21).
\<close>

section \<open>Encrypted payloads\<close>

text \<open>C37. A message encrypted by one party for another is decrypted by the other to the same text: for every
  text of 1 to 65535 bytes and every 32-byte nonce, \<open>encrypt\<close> with the sender's secret key and the
  receiver's public key succeeds, and \<open>decrypt\<close> with the receiver's secret key and the sender's public
  key returns the text; the payload passes every length check of the decoder.\<close>

theorem nip44_round_trip:
  assumes "cipher_laws X E" and "str_wf s" and "1 \<le> length s" and "length s \<le> MAX_PLAINTEXT_BYTES"
    and "length nonce = NONCE_BYTES"
  shows "\<exists>payload. nip44_encrypt E (Inr nonce) a (keypair_public X b) s = Inr payload \<and>
    nip44_decrypt E b (keypair_public X a) payload = Inr s"
proof -
  let ?ck = "conversation_key E a (keypair_public X b)"
  have "res_bind (encrypt_inner E ?ck s nonce) (decrypt_with_conversation_key E ?ck) = Inr s"
    using assms by (intro decrypt_encrypt_inner) (simp_all add: NONCE_BYTES_def)
  then show ?thesis
    using conversation_key_symmetric [OF assms(1), of a b]
    by (auto simp: nip44_encrypt_def nip44_decrypt_def res_bind_Inr_iff)
qed

theorem nip44_round_trip_witness:
  "\<exists>payload. nip44_encrypt sample_ciphers (Inr (replicate 32 7)) [1, 2] (keypair_public sample_crates [3, 4]) ''hello'' = Inr payload \<and>
     nip44_decrypt sample_ciphers [3, 4] (keypair_public sample_crates [1, 2]) payload = Inr ''hello''"
proof -
  have "str_wf ''hello''" by code_simp
  then show ?thesis
    using nip44_round_trip [OF sample_cipher_laws, of "''hello''" "replicate 32 7" "[1, 2]" "[3, 4]"]
    by (simp add: MAX_PLAINTEXT_BYTES_def NONCE_BYTES_def)
qed

text \<open>What \<open>decrypt\<close> accepts is authenticated and well framed: a payload that decrypts is the base64 of
  the version byte, a 32-byte nonce, the ciphertext and a 32-byte code that verifies over nonce and
  ciphertext under the key derived from that nonce; the plaintext has 1 to 65535 bytes, is valid UTF-8,
  and the decrypted buffer is its length, its bytes and padding to exactly the padded length.\<close>

theorem nip44_decrypt_authentic:
  assumes "decrypt_with_conversation_key E ck payload = Inr s"
  shows "\<exists>nonce c mac. b64_decode E payload = Inr (VERSION # nonce @ c @ mac) \<and>
    length nonce = NONCE_BYTES \<and> length mac = HMAC_BYTES \<and>
    verify_hmac E (hmac_key (message_keys E ck nonce)) nonce c mac \<and>
    1 \<le> length s \<and> length s \<le> MAX_PLAINTEXT_BYTES \<and> str_wf s \<and>
    (\<exists>padding. chacha20 E (chacha_key (message_keys E ck nonce)) (chacha_nonce (message_keys E ck nonce)) c =
       to_be 2 (length s) @ body_bytes s @ padding \<and>
       length s + length padding = padded_length (length s))"
proof -
  obtain n c m p where b: "b64_decode E payload = Inr (VERSION # n @ c @ m)"
    and len: "length n = NONCE_BYTES" "length m = HMAC_BYTES"
    and mac: "verify_hmac E (hmac_key (message_keys E ck n)) n c m"
    and unpad: "nip44_unpad (chacha20 E (chacha_key (message_keys E ck n)) (chacha_nonce (message_keys E ck n)) c) = Inr p"
    and utf8: "string_from_utf8 p = Some s"
    by (rule decrypt_Inr [OF assms])
  let ?buf = "chacha20 E (chacha_key (message_keys E ck n)) (chacha_nonce (message_keys E ck n)) c"
  note u = nip44_unpad_Inr [OF unpad]
  have s: "str_wf s" "p = body_bytes s" "length p = length s"
    using string_from_utf8_Some [OF utf8] by auto
  have "?buf = take 2 ?buf @ take (length p) (drop 2 ?buf) @ drop (length p) (drop 2 ?buf)"
    by (simp only: append_take_drop_id)
  moreover have "length (take 2 ?buf) = 2" using u(3) by simp
  then have "take 2 ?buf = to_be 2 (length p)" using to_be_be_nat [of "take 2 ?buf"] u(4) by (simp only:)
  ultimately have "?buf = to_be 2 (length s) @ body_bytes s @ drop (length p) (drop 2 ?buf)"
    using u(5) s by simp
  moreover have "length s + length (drop (length p) (drop 2 ?buf)) = padded_length (length s)"
    using u(1-3) padded_length_bounds(1) [OF u(1,2)] s(3) by simp
  ultimately show ?thesis using b len mac u(1,2) [unfolded s(3)] s(1) by blast
qed

theorem nip44_decrypt_authentic_witness:
  "\<exists>payload nonce c mac. b64_decode sample_ciphers payload = Inr (VERSION # nonce @ c @ mac) \<and>
     length nonce = NONCE_BYTES \<and> length mac = HMAC_BYTES \<and> length ''hello'' \<le> MAX_PLAINTEXT_BYTES"
proof -
  let ?ck = "[1, 2] :: bytes"
  have "str_wf ''hello''" by code_simp
  then have "res_bind (encrypt_inner sample_ciphers ?ck ''hello'' (replicate 32 7))
      (decrypt_with_conversation_key sample_ciphers ?ck) = Inr ''hello''"
    by (intro decrypt_encrypt_inner [OF sample_cipher_laws]) (simp_all add: MAX_PLAINTEXT_BYTES_def)
  then obtain payload where "decrypt_with_conversation_key sample_ciphers ?ck payload = Inr ''hello''"
    by (auto simp: res_bind_Inr_iff)
  from nip44_decrypt_authentic [OF this] show ?thesis by blast
qed

text \<open>The padding hides the length up to a chunk and never truncates: for a text of 1 to 65535 bytes the
  padded length is at least the length, a multiple of 32, at most 65536, less than a quarter (or 32
  bytes) longer than the text, and unpadding what was padded returns the text. A text of 257 bytes is
  padded to 320 bytes, not to a power of two.\<close>

theorem nip44_padding:
  assumes "1 \<le> length p" and "length p \<le> MAX_PLAINTEXT_BYTES"
  shows "length p \<le> padded_length (length p) \<and> 32 dvd padded_length (length p) \<and>
    padded_length (length p) \<le> 65536 \<and>
    padded_length (length p) < length p + max 32 (length p div 4) \<and>
    (\<exists>padded. nip44_pad p = Inr padded \<and> length padded = 2 + padded_length (length p) \<and>
       nip44_unpad padded = Inr p)"
proof -
  note b = padded_length_bounds [OF assms]
  have "nip44_unpad (to_be 2 (length p) @ p @ replicate (padded_length (length p) - length p) 0) = Inr p"
    by (rule nip44_unpad_padded [OF assms]) simp
  then show ?thesis using b nip44_pad_ok [OF assms] by simp
qed

theorem nip44_padding_witness:
  "padded_length 257 = 320 \<and> 257 \<le> padded_length (length (replicate 257 (7 :: u8))) \<and>
   (\<exists>padded. nip44_pad (replicate 257 7) = Inr padded \<and> nip44_unpad padded = Inr (replicate 257 7))"
proof -
  have "leading_zeros (256 :: u64) = 55" by code_simp
  then have "padded_length 257 = 320" by (simp add: padded_length_def Let_def log2_floor_def)
  then show ?thesis using nip44_padding [of "replicate 257 7"] by (simp add: MAX_PLAINTEXT_BYTES_def) blast
qed

section \<open>Records and entities\<close>

text \<open>The tag-length-value coding is a bijection between lists of records with values of at most 255
  bytes and the buffers that the iterator reads to the end: a buffer is what the encoder wrote for some
  records exactly when the iterator yields those records and no error.\<close>

theorem tlv_bijection:
  "tlv_encode rs = Inr data \<longleftrightarrow> tlv_iter data 0 = map Inr rs"
  using tlv_iter_encode [of data 0 rs] tlv_round_trip_aux [of rs data] by auto

text \<open>A coding with the prefix in clear and the data in hexadecimal.\<close>

definition sample_bech32 :: bech32_crates where
  "sample_bech32 =
     \<lparr>bech32_encode = (\<lambda>h d. Inr (h @ ''1'' @ fmt_lower d)),
      bech32_check = (\<lambda>s. case find (\<lambda>h. strip_prefix (h @ ''1'') s \<noteq> None) nip19_hrps of
          None \<Rightarrow> Inl ''hrp''
        | Some h \<Rightarrow> (case unhex (drop (length h + 1) s) of Inr d \<Rightarrow> Inr (h, d) | Inl e \<Rightarrow> Inl ''data'')),
      scalar_valid = (\<lambda>_. True)\<rparr>"

lemma sample_hrp_matches:
  assumes "CHR ''1'' \<notin> set h" and "CHR ''1'' \<notin> set h'"
  shows "strip_prefix (h' @ ''1'') (h @ CHR ''1'' # x) \<noteq> None \<longleftrightarrow> h' = h"
proof -
  have "h' = h" if "take (length h' + 1) (h @ CHR ''1'' # x) = h' @ ''1''"
  proof -
    have "h @ CHR ''1'' # x = h' @ CHR ''1'' # drop (length h' + 1) (h @ CHR ''1'' # x)"
      using append_take_drop_id [of "length h' + 1" "h @ CHR ''1'' # x"]
      unfolding that by (simp only: append_assoc append.simps)
    then have "takeWhile (\<lambda>c. c \<noteq> CHR ''1'') (h @ CHR ''1'' # x) =
        takeWhile (\<lambda>c. c \<noteq> CHR ''1'') (h' @ CHR ''1'' # drop (length h' + 1) (h @ CHR ''1'' # x))"
      by (rule arg_cong)
    then show ?thesis using assms by (auto simp: takeWhile_append split: if_splits)
  qed
  then show ?thesis by (auto simp: strip_prefix_def)
qed

lemma sample_hrp_found:
  assumes "h \<in> set nip19_hrps"
  shows "find (\<lambda>h'. strip_prefix (h' @ ''1'') (h @ CHR ''1'' # x) \<noteq> None) nip19_hrps = Some h"
proof -
  have one: "CHR ''1'' \<notin> set h'" if "h' \<in> set nip19_hrps" for h'
    using that by (auto simp: nip19_hrps_def NPUB_def NSEC_def NOTE_def NPROFILE_def NEVENT_def NADDR_def)
  have "find (\<lambda>h'. strip_prefix (h' @ ''1'') (h @ CHR ''1'' # x) \<noteq> None) nip19_hrps = find (\<lambda>h'. h' = h) nip19_hrps"
    using sample_hrp_matches [OF one [OF assms] one] by (intro find_cong) simp_all
  then show ?thesis using assms by (auto simp: nip19_hrps_def)
qed

lemma sample_bech32_laws: "bech32_laws sample_bech32"
  unfolding bech32_laws_def
proof (intro allI impI)
  fix h d s
  assume h: "h \<in> set nip19_hrps" and "bech32_encode sample_bech32 h d = Inr s"
  then have s: "s = h @ CHR ''1'' # fmt_lower d" by (simp add: sample_bech32_def)
  then show "bech32_check sample_bech32 s = Inr (h, d) \<and> take (length h + 1) s = h @ ''1''"
    using sample_hrp_found [OF h] by (simp add: sample_bech32_def unhex_fmt_lower)
qed

definition sample_profile :: nip19_profile where
  "sample_profile = nip19_profile_new sample_pk [''wss://r'']"

lemma sample_profile_wf: "entity_wf sample_crates sample_url sample_bech32 (EntityProfile sample_profile)"
  by code_simp

lemma sample_profile_text:
  obtains s where "entity_to_bech32 sample_bech32 (EntityProfile sample_profile) = Inr s" and "length s \<le> 200"
proof -
  have "length sample_pk = 32" by code_simp
  then have "entity_to_bech32 sample_bech32 (EntityProfile sample_profile) =
      Inr (NPROFILE @ ''1'' @ fmt_lower (SPECIAL # 32 # sample_pk @ RELAY # 7 # body_bytes ''wss://r''))"
    by (simp add: sample_profile_def nip19_profile_new_def profile_to_bech32_def relay_records_def
        encode_raw_def sample_bech32_def)
  moreover have "length (NPROFILE @ ''1'' @ fmt_lower (SPECIAL # 32 # sample_pk @ RELAY # 7 # body_bytes ''wss://r'')) \<le> 200"
    by (simp add: NPROFILE_def sample_pk_def)
  ultimately show thesis by (rule that)
qed

text \<open>C40. Every NIP-19 entity survives its bech32 form: what \<open>to_bech32\<close> writes for a well-formed public key,
  secret key, event id, profile, event pointer or coordinate starts with the prefix of its type, and, when
  it is no longer than the decoder's limit, \<open>from_bech32\<close> reads the same entity back.\<close>

theorem nip19_round_trip:
  assumes "bech32_laws B" and "entity_wf X U B ent" and "entity_to_bech32 B ent = Inr s"
    and "length s \<le> MAX_NIP19_LENGTH"
  shows "entity_from_bech32 X U B s = Inr ent \<and> take (length (entity_hrp ent) + 1) s = entity_hrp ent @ ''1''"
  using assms entity.read_back entity_to_bech32_prefix by blast

theorem nip19_round_trip_witness:
  "\<exists>s. entity_to_bech32 sample_bech32 (EntityProfile sample_profile) = Inr s \<and>
     entity_from_bech32 sample_crates sample_url sample_bech32 s = Inr (EntityProfile sample_profile)"
proof -
  obtain s where "entity_to_bech32 sample_bech32 (EntityProfile sample_profile) = Inr s" and "length s \<le> 200"
    by (rule sample_profile_text)
  then show ?thesis using nip19_round_trip [OF sample_bech32_laws sample_profile_wf]
    by (auto simp: MAX_NIP19_LENGTH_def)
qed

text \<open>What \<open>from_bech32\<close> accepts is well typed, whatever the bech32 coding does: public keys are points of
  32 bytes, secret keys are valid scalars, event ids have 32 bytes, identifiers are valid UTF-8 and every
  relay hint is a relay URL in its normal form; a text longer than 5000 bytes is refused before it is
  decoded, and a prefix that is none of the six is refused by name.\<close>

theorem nip19_decode_typed:
  assumes "url_laws U"
  shows "case entity_from_bech32 X U B s of
      Inr ent \<Rightarrow> entity_wf X U B ent \<and> length s \<le> MAX_NIP19_LENGTH \<and>
        (\<exists>h d. bech32_check B s = Inr (h, d) \<and> map to_ascii_lower h = entity_hrp ent)
    | Inl err \<Rightarrow> (length s > MAX_NIP19_LENGTH \<longrightarrow> err = Nip19TooLong (length s) MAX_NIP19_LENGTH) \<and>
        (\<forall>h d. length s \<le> MAX_NIP19_LENGTH \<and> bech32_check B s = Inr (h, d) \<and>
           map to_ascii_lower h \<notin> set nip19_hrps \<longrightarrow> err = UnknownHrp (map to_ascii_lower h))"
proof (cases "entity_from_bech32 X U B s")
  case (Inr ent)
  then have "length s \<le> MAX_NIP19_LENGTH \<and> (\<exists>h d. bech32_check B s = Inr (h, d) \<and> map to_ascii_lower h = entity_hrp ent)"
    by (auto simp: entity_from_bech32_def decode_bech32_def res_bind_Inr_iff split: if_splits)
  with Inr entity_from_bech32_wf [OF assms Inr] show ?thesis by simp
next
  case (Inl err)
  then show ?thesis
    by (auto simp: entity_from_bech32_def decode_bech32_def nip19_hrps_def)
qed

theorem nip19_decode_typed_witness:
  "url_laws sample_url \<and>
   (\<exists>s. entity_from_bech32 sample_crates sample_url sample_bech32 s = Inr (EntityProfile sample_profile) \<and>
      length s \<le> MAX_NIP19_LENGTH)"
proof -
  have laws: "url_laws sample_url" by (simp add: url_laws_def relay_wf_def relay_url_parse_def sample_url_def)
  obtain s where s: "entity_to_bech32 sample_bech32 (EntityProfile sample_profile) = Inr s" and "length s \<le> 200"
    by (rule sample_profile_text)
  then have "entity_from_bech32 sample_crates sample_url sample_bech32 s = Inr (EntityProfile sample_profile)"
    using entity_payload [OF s sample_profile_wf sample_bech32_laws] by (simp add: MAX_NIP19_LENGTH_def)
  with laws nip19_decode_typed [OF laws, where s = s and X = sample_crates and B = sample_bech32] show ?thesis by auto
qed

section \<open>URIs\<close>

text \<open>A \<open>nostr:\<close> URI carries exactly one public entity and never a secret: what \<open>to_nostr_uri\<close> writes
  parses to the same entity, and what parses is an entity other than a secret key; a URI whose body is
  a secret key is refused as such, and the body \<open>ncryptsec\<close> is refused as an unknown prefix.\<close>

theorem nip21_uris:
  assumes "bech32_laws B"
  shows "(\<forall>u uri. entity_wf X U B (entity_of_nip21 u) \<and> to_nostr_uri B u = Inr uri \<and>
        length uri \<le> length SCHEME_PREFIX + MAX_NIP19_LENGTH \<longrightarrow> nip21_parse X U B uri = Inr u) \<and>
    (\<forall>uri u. nip21_parse X U B uri = Inr u \<longrightarrow> (\<exists>body. uri = SCHEME_PREFIX @ body \<and> body \<noteq> [] \<and>
        entity_from_bech32 X U B body = Inr (entity_of_nip21 u))) \<and>
    (\<forall>body sk. entity_from_bech32 X U B body = Inr (EntitySecretKey sk) \<and> body \<noteq> [] \<longrightarrow>
        nip21_parse X U B (SCHEME_PREFIX @ body) = Inl SecretKeyRefused) \<and>
    (\<forall>body d. bech32_check B body = Inr (''ncryptsec'', d) \<and> body \<noteq> [] \<and> length body \<le> MAX_NIP19_LENGTH \<longrightarrow>
        nip21_parse X U B (SCHEME_PREFIX @ body) = Inl (Nip21Decode (UnknownHrp ''ncryptsec'')))"
proof (intro conjI allI impI)
  fix u uri
  assume "entity_wf X U B (entity_of_nip21 u) \<and> to_nostr_uri B u = Inr uri \<and>
    length uri \<le> length SCHEME_PREFIX + MAX_NIP19_LENGTH"
  then show "nip21_parse X U B uri = Inr u" using nip21_read_back [OF assms] by blast
next
  fix uri u
  assume "nip21_parse X U B uri = Inr u"
  then show "\<exists>body. uri = SCHEME_PREFIX @ body \<and> body \<noteq> [] \<and> entity_from_bech32 X U B body = Inr (entity_of_nip21 u)"
    by (rule nip21_parse_Inr)
next
  fix body sk
  assume "entity_from_bech32 X U B body = Inr (EntitySecretKey sk) \<and> body \<noteq> []"
  then show "nip21_parse X U B (SCHEME_PREFIX @ body) = Inl SecretKeyRefused"
    by (simp add: nip21_parse_def strip_scheme_prefix)
next
  fix body d
  assume "bech32_check B body = Inr (''ncryptsec'', d) \<and> body \<noteq> [] \<and> length body \<le> MAX_NIP19_LENGTH"
  then show "nip21_parse X U B (SCHEME_PREFIX @ body) = Inl (Nip21Decode (UnknownHrp ''ncryptsec''))"
    by (simp add: nip21_parse_def strip_scheme_prefix entity_from_bech32_def decode_bech32_def to_ascii_lower_def
        NPUB_def NSEC_def NOTE_def NPROFILE_def NEVENT_def NADDR_def)
qed

theorem nip21_uris_witness:
  "\<exists>uri. to_nostr_uri sample_bech32 (UriProfile sample_profile) = Inr uri \<and>
     nip21_parse sample_crates sample_url sample_bech32 uri = Inr (UriProfile sample_profile)"
proof -
  obtain s where s: "entity_to_bech32 sample_bech32 (EntityProfile sample_profile) = Inr s" and "length s \<le> 200"
    by (rule sample_profile_text)
  then have "to_nostr_uri sample_bech32 (UriProfile sample_profile) = Inr (SCHEME_PREFIX @ s) \<and>
      length (SCHEME_PREFIX @ s) \<le> length SCHEME_PREFIX + MAX_NIP19_LENGTH"
    by (simp add: to_nostr_uri_def MAX_NIP19_LENGTH_def)
  moreover have "entity_wf sample_crates sample_url sample_bech32 (entity_of_nip21 (UriProfile sample_profile))"
    using sample_profile_wf by (simp only: entity_of_nip21.simps)
  ultimately show ?thesis
    using nip21_uris [OF sample_bech32_laws, of sample_crates sample_url] by blast
qed

end
