(* ===== verification/Relay_Lists.thy ===== *)
theory Relay_Lists
  imports Byte_Codec
begin

text \<open>
  Which relays a user announces and which of them may be used: the relay list of NIP-65 (nips/nip65.rs), the
  list of message relays of NIP-17 (nips/nip17.rs) and the address policy of the router (nula-gossip,
  options.rs). The policy reads host names with the parsers of \<open>Ipv4Addr\<close> and \<open>Ipv6Addr\<close>, which are
  modelled as the standard library has them: readers that consume a prefix of the text.
\<close>

section \<open>Addresses\<close>

definition to_digit :: "nat \<Rightarrow> char \<Rightarrow> nat option" where
  "to_digit radix c =
     (let n = of_char c;
          d = (if 48 \<le> n \<and> n \<le> 57 then n - 48
               else if 97 \<le> n \<and> n \<le> 122 then n - 87
               else if 65 \<le> n \<and> n \<le> 90 then n - 55
               else radix)
      in if d < radix then Some d else None)"

fun read_digits :: "nat \<Rightarrow> nat \<Rightarrow> nat \<Rightarrow> nat \<Rightarrow> string \<Rightarrow> (nat \<times> nat \<times> string) option" where
  "read_digits radix max_digits acc digit_count [] = Some (acc, digit_count, [])"
| "read_digits radix max_digits acc digit_count (c # s) =
     (case to_digit radix c of
        None \<Rightarrow> Some (acc, digit_count, c # s)
      | Some d \<Rightarrow>
          if digit_count + 1 > max_digits then None
          else read_digits radix max_digits (acc * radix + d) (digit_count + 1) s)"

definition read_number :: "nat \<Rightarrow> nat \<Rightarrow> bool \<Rightarrow> nat \<Rightarrow> string \<Rightarrow> (nat \<times> string) option" where
  "read_number radix max_digits allow_zero_prefix mx s =
     Option.bind (read_digits radix max_digits 0 0 s) (\<lambda>(n, digit_count, rest).
       if digit_count = 0 then None
       else if \<not> allow_zero_prefix \<and> take 1 s = ''0'' \<and> digit_count > 1 then None
       else if n > mx then None
       else Some (n, rest))"

definition read_separator ::
  "char \<Rightarrow> nat \<Rightarrow> (string \<Rightarrow> ('a \<times> string) option) \<Rightarrow> string \<Rightarrow> ('a \<times> string) option" where
  "read_separator sep index inner s =
     (if index > 0 then (case s of c # rest \<Rightarrow> if c = sep then inner rest else None | [] \<Rightarrow> None)
      else inner s)"

definition read_octet :: "nat \<Rightarrow> string \<Rightarrow> (nat \<times> string) option" where
  "read_octet i s = read_separator CHR ''.'' i (read_number 10 3 False 255) s"

definition read_ipv4_addr :: "string \<Rightarrow> (nat list \<times> string) option" where
  "read_ipv4_addr s =
     Option.bind (read_octet 0 s) (\<lambda>(a, s1).
     Option.bind (read_octet 1 s1) (\<lambda>(b, s2).
     Option.bind (read_octet 2 s2) (\<lambda>(c, s3).
     Option.bind (read_octet 3 s3) (\<lambda>(d, s4). Some ([a, b, c, d], s4)))))"

fun read_groups :: "nat \<Rightarrow> nat \<Rightarrow> string \<Rightarrow> nat list \<times> bool \<times> string" where
  "read_groups 0 i s = ([], False, s)"
| "read_groups (Suc k) i s =
     (case (if k > 0 then read_separator CHR '':'' i read_ipv4_addr s else None) of
        Some (o4, s') \<Rightarrow> ([o4 ! 0 * 256 + o4 ! 1, o4 ! 2 * 256 + o4 ! 3], True, s')
      | None \<Rightarrow>
          (case read_separator CHR '':'' i (read_number 16 4 True 65535) s of
             None \<Rightarrow> ([], False, s)
           | Some (g, s') \<Rightarrow> (let (gs, v4, s'') = read_groups k (Suc i) s' in (g # gs, v4, s''))))"

definition read_ipv6_addr :: "string \<Rightarrow> (nat list \<times> string) option" where
  "read_ipv6_addr s =
     (let (head, head_ipv4, s1) = read_groups 8 0 s in
      if length head = 8 then Some (head, s1)
      else if head_ipv4 then None
      else if take 2 s1 \<noteq> ''::'' then None
      else let (tail, _, s2) = read_groups (8 - (length head + 1)) 0 (drop 2 s1)
           in Some (head @ replicate (8 - length head - length tail) 0 @ tail, s2))"

definition parse_with :: "(string \<Rightarrow> ('a \<times> string) option) \<Rightarrow> string \<Rightarrow> 'a option" where
  "parse_with inner s = Option.bind (inner s) (\<lambda>(x, rest). if rest = [] then Some x else None)"

definition ipv4_from_str :: "string \<Rightarrow> nat list option" where
  "ipv4_from_str s = (if length s > 15 then None else parse_with read_ipv4_addr s)"

definition ipv6_from_str :: "string \<Rightarrow> nat list option" where
  "ipv6_from_str s = parse_with read_ipv6_addr s"

definition ipv4_is_loopback :: "nat list \<Rightarrow> bool" where
  "ipv4_is_loopback o4 \<longleftrightarrow> o4 ! 0 = 127"

definition ipv4_is_private :: "nat list \<Rightarrow> bool" where
  "ipv4_is_private o4 \<longleftrightarrow>
     o4 ! 0 = 10 \<or> o4 ! 0 = 172 \<and> 16 \<le> o4 ! 1 \<and> o4 ! 1 \<le> 31 \<or> o4 ! 0 = 192 \<and> o4 ! 1 = 168"

definition ipv6_is_loopback :: "nat list \<Rightarrow> bool" where
  "ipv6_is_loopback g \<longleftrightarrow> g = [0, 0, 0, 0, 0, 0, 0, 1]"

section \<open>The address policy\<close>

record allowed_relays =
  al_onion :: bool
  al_local :: bool
  al_insecure :: bool

definition allowed_default :: allowed_relays where
  "allowed_default = \<lparr>al_onion = True, al_local = False, al_insecure = True\<rparr>"

definition locked_down :: allowed_relays where
  "locked_down = \<lparr>al_onion = False, al_local = False, al_insecure = False\<rparr>"

definition permissive :: allowed_relays where
  "permissive = \<lparr>al_onion = True, al_local = True, al_insecure = True\<rparr>"

definition str_ends_with :: "string \<Rightarrow> string \<Rightarrow> bool" where
  "str_ends_with s suffix_text \<longleftrightarrow>
     length suffix_text \<le> length s \<and> drop (length s - length suffix_text) s = suffix_text"

definition relay_host :: "url_crate \<Rightarrow> relay_url \<Rightarrow> string" where
  "relay_host U url = (case url_host_str U url of Some h \<Rightarrow> h | None \<Rightarrow> [])"

definition relay_is_secure :: "url_crate \<Rightarrow> relay_url \<Rightarrow> bool" where
  "relay_is_secure U url \<longleftrightarrow> url_scheme U url = ''wss''"

definition relay_is_onion :: "url_crate \<Rightarrow> relay_url \<Rightarrow> bool" where
  "relay_is_onion U url \<longleftrightarrow> str_ends_with (relay_host U url) ''.onion''"

definition is_local_addr :: "url_crate \<Rightarrow> relay_url \<Rightarrow> bool" where
  "is_local_addr U url =
     (let host = relay_host U url in
      if host = ''localhost'' then True
      else case ipv4_from_str host of
             Some ipv4 \<Rightarrow> ipv4_is_loopback ipv4 \<or> ipv4_is_private ipv4
           | None \<Rightarrow>
               (case ipv6_from_str host of
                  Some ipv6 \<Rightarrow> ipv6_is_loopback ipv6 \<or> ipv6 ! 0 div 512 = 126
                | None \<Rightarrow> False))"

definition is_allowed :: "url_crate \<Rightarrow> allowed_relays \<Rightarrow> relay_url \<Rightarrow> bool" where
  "is_allowed U p url =
     (if \<not> al_onion p \<and> relay_is_onion U url then False
      else if \<not> al_local p \<and> is_local_addr U url then False
      else if \<not> al_insecure p \<and> \<not> relay_is_secure U url then False
      else True)"

section \<open>Relay lists (NIP-65)\<close>

definition RELAY_LIST :: kind where "RELAY_LIST = 10002"
definition DM_RELAYS :: kind where "DM_RELAYS = 10050"
definition GIFT_WRAP :: kind where "GIFT_WRAP = 1059"

datatype relay_marker = ReadWrite | Read | Write

datatype relay_marker_error = UnknownMarker string

datatype relay_list_error =
    RelayListUnexpectedKind kind kind
  | RelayListMissingUrl
  | RelayListInvalidUrl relay_url_error
  | RelayListInvalidMarker relay_marker_error

type_synonym relay_list = "(relay_url, relay_marker) btree_map"

fun marker_as_wire :: "relay_marker \<Rightarrow> string option" where
  "marker_as_wire ReadWrite = None"
| "marker_as_wire Read = Some ''read''"
| "marker_as_wire Write = Some ''write''"

definition is_read :: "relay_marker \<Rightarrow> bool" where
  "is_read m \<longleftrightarrow> m = Read \<or> m = ReadWrite"

definition is_write :: "relay_marker \<Rightarrow> bool" where
  "is_write m \<longleftrightarrow> m = Write \<or> m = ReadWrite"

definition marker_to_string :: "relay_marker \<Rightarrow> string" where
  "marker_to_string m = (case marker_as_wire m of Some s \<Rightarrow> s | None \<Rightarrow> ''read+write'')"

definition marker_from_str :: "string \<Rightarrow> relay_marker_error + relay_marker" where
  "marker_from_str s =
     (if s = ''read'' then Inr Read else if s = ''write'' then Inr Write else Inl (UnknownMarker s))"

definition relay_list_insert :: "relay_url \<Rightarrow> relay_marker \<Rightarrow> relay_list \<Rightarrow> relay_list \<times> relay_marker option" where
  "relay_list_insert url m l = (bt_insert url m l, map_of l url)"

definition relay_list_remove :: "relay_url \<Rightarrow> relay_list \<Rightarrow> relay_list \<times> relay_marker option" where
  "relay_list_remove url l = (bt_remove url l, map_of l url)"

definition read_relays :: "relay_list \<Rightarrow> relay_url list" where
  "read_relays l = map fst (filter (\<lambda>e. is_read (snd e)) l)"

definition write_relays :: "relay_list \<Rightarrow> relay_url list" where
  "write_relays l = map fst (filter (\<lambda>e. is_write (snd e)) l)"

definition build_r_tag :: "relay_url \<Rightarrow> relay_marker \<Rightarrow> tag" where
  "build_r_tag url m =
     tag_with (tag_kind_from_wire ''r'') (url # (case marker_as_wire m of Some extra \<Rightarrow> [extra] | None \<Rightarrow> []))"

definition relay_list_to_tags :: "relay_list \<Rightarrow> tag list" where
  "relay_list_to_tags l = map (\<lambda>(url, m). build_r_tag url m) l"

definition relay_list_to_event_builder :: "relay_list \<Rightarrow> event_builder" where
  "relay_list_to_event_builder l = builder_tags (relay_list_to_tags l) (builder_new RELAY_LIST [])"

definition is_relay_tag :: "tag_kind \<Rightarrow> bool" where
  "is_relay_tag k \<longleftrightarrow> tag_kind_as_str k = ''r''"

fun relay_list_loop :: "url_crate \<Rightarrow> tag list \<Rightarrow> relay_list \<Rightarrow> relay_list_error + relay_list" where
  "relay_list_loop U [] l = Inr l"
| "relay_list_loop U (t # ts) l =
     (if \<not> is_relay_tag (tag_head t) then relay_list_loop U ts l
      else case drop 1 (tag_values t) of
             [] \<Rightarrow> Inl RelayListMissingUrl
           | url_str # args \<Rightarrow>
               res_bind (map_err RelayListInvalidUrl (relay_url_parse U url_str)) (\<lambda>url.
               res_bind (case args of
                   s # _ \<Rightarrow> if s \<noteq> [] then map_err RelayListInvalidMarker (marker_from_str s) else Inr ReadWrite
                 | [] \<Rightarrow> Inr ReadWrite) (\<lambda>m.
               relay_list_loop U ts (fst (relay_list_insert url m l)))))"

definition relay_list_from_event :: "url_crate \<Rightarrow> event \<Rightarrow> relay_list_error + relay_list" where
  "relay_list_from_event U e =
     (if ev_kind e \<noteq> RELAY_LIST then Inl (RelayListUnexpectedKind RELAY_LIST (ev_kind e))
      else relay_list_loop U (ev_tags e) [])"

section \<open>Message relays (NIP-17)\<close>

datatype dm_relays_error = DmUnexpectedKind kind | DmMissingUrl | DmInvalidUrl relay_url_error

definition build_dm_relays_event :: "relay_url list \<Rightarrow> event_builder" where
  "build_dm_relays_event relays =
     builder_tags (map (\<lambda>url. tag_with (tag_kind_from_wire ''relay'') [url]) relays) (builder_new DM_RELAYS [])"

fun dm_relays_loop :: "url_crate \<Rightarrow> tag list \<Rightarrow> relay_url list \<Rightarrow> dm_relays_error + relay_url list" where
  "dm_relays_loop U [] out = Inr out"
| "dm_relays_loop U (t # ts) out =
     (if tag_head t \<noteq> tag_kind_from_wire ''relay'' then dm_relays_loop U ts out
      else res_bind (ok_or DmMissingUrl (tag_get t 1)) (\<lambda>v.
           res_bind (map_err DmInvalidUrl (relay_url_parse U v)) (\<lambda>url.
           dm_relays_loop U ts (out @ [url]))))"

definition parse_dm_relays_event :: "url_crate \<Rightarrow> event \<Rightarrow> dm_relays_error + relay_url list" where
  "parse_dm_relays_event U e =
     (if ev_kind e \<noteq> DM_RELAYS then Inl (DmUnexpectedKind (ev_kind e))
      else dm_relays_loop U (ev_tags e) [])"

section \<open>Announced lists are read back\<close>

lemma bt_insert_append: "\<forall>e \<in> set m. fst e < k \<Longrightarrow> bt_insert k v m = m @ [(k, v)]"
  by (induction m) auto

lemma r_tag_head: "is_relay_tag (tag_head (build_r_tag url m))" "tag_values (build_r_tag url m) = ''r'' # url #
    (case marker_as_wire m of Some extra \<Rightarrow> [extra] | None \<Rightarrow> [])"
proof -
  have "tag_kind_as_str (tag_kind_from_wire ''r'') = ''r''" by code_simp
  then show "is_relay_tag (tag_head (build_r_tag url m))" "tag_values (build_r_tag url m) = ''r'' # url #
    (case marker_as_wire m of Some extra \<Rightarrow> [extra] | None \<Rightarrow> [])"
    by (simp_all add: build_r_tag_def is_relay_tag_def tag_head_def tag_with_def)
qed

lemma relay_list_loop_tags:
  assumes "bt_invar (acc @ l)" and "\<forall>e \<in> set l. relay_url_parse U (fst e) = Inr (fst e)"
  shows "relay_list_loop U (relay_list_to_tags l) acc = Inr (acc @ l)"
  using assms
proof (induction l arbitrary: acc)
  case (Cons e l)
  obtain url m where e: "e = (url, m)" by fastforce
  have "\<forall>x \<in> set acc. fst x < url"
    using Cons.prems(1) by (auto simp: e bt_invar_def sorted_wrt_append)
  then have ins: "bt_insert url m acc = acc @ [e]" by (simp add: e bt_insert_append)
  have "relay_list_loop U (relay_list_to_tags l) (acc @ [e]) = Inr ((acc @ [e]) @ l)"
    using Cons.prems by (intro Cons.IH) simp_all
  then show ?case using Cons.prems(2) ins
    by (cases m) (simp_all add: e relay_list_to_tags_def r_tag_head relay_list_insert_def marker_from_str_def)
qed (simp add: relay_list_to_tags_def)

lemma relay_list_loop_invar:
  "relay_list_loop U ts l = Inr l' \<Longrightarrow> bt_invar l \<Longrightarrow> bt_invar l'"
proof (induction U ts l rule: relay_list_loop.induct)
  case (2 U t ts l)
  then show ?case
    by (auto simp: res_bind_Inr_iff relay_list_insert_def bt_invar_insert split: if_splits list.splits)
qed simp

lemma dm_relays_loop_tags:
  assumes "list_all (\<lambda>r. relay_url_parse U r = Inr r) rs"
  shows "dm_relays_loop U (map (\<lambda>url. tag_with (tag_kind_from_wire ''relay'') [url]) rs) out = Inr (out @ rs)"
proof -
  have "tag_kind_as_str (tag_kind_from_wire ''relay'') = ''relay''" by code_simp
  then show ?thesis using assms
    by (induction rs arbitrary: out) (simp_all add: tag_head_def tag_with_def tag_get_def)
qed

section \<open>Which addresses are local\<close>

text \<open>A reader that starts with a bracket reads nothing.\<close>

lemma read_number_bracket: "read_number radix n z mx (CHR ''['' # s) = None" if "radix \<le> 16"
proof -
  have "to_digit radix CHR ''['' = None" by (simp add: to_digit_def Let_def)
  then show ?thesis by (simp add: read_number_def)
qed

lemma ipv4_bracket: "ipv4_from_str (CHR ''['' # s) = None"
  by (simp add: ipv4_from_str_def parse_with_def read_ipv4_addr_def read_octet_def read_separator_def read_number_bracket)

lemma read_groups_bracket: "read_groups (Suc k) 0 (CHR ''['' # s) = ([], False, CHR ''['' # s)"
  by (simp add: read_separator_def read_ipv4_addr_def read_octet_def read_number_bracket)

lemma ipv6_bracket: "ipv6_from_str (CHR ''['' # s) = None"
proof -
  have "(8 :: nat) = Suc 7" by simp
  then have "read_groups 8 0 (CHR ''['' # s) = ([], False, CHR ''['' # s)" by (simp only: read_groups_bracket)
  then show ?thesis by (simp add: ipv6_from_str_def parse_with_def read_ipv6_addr_def)
qed

lemma bracketed_not_local: "relay_host U url = CHR ''['' # h \<Longrightarrow> \<not> is_local_addr U url"
  by (simp add: is_local_addr_def ipv4_bracket ipv6_bracket)

text \<open>The dotted form of four octets reads back as the octets.\<close>

lemma to_digit_digit_char [simp]: "d < 10 \<Longrightarrow> to_digit 10 (digit_char d) = Some d"
  by (simp add: to_digit_def Let_def digit_char_def)

lemma digit_char_zero: "d < 10 \<Longrightarrow> digit_char d = CHR ''0'' \<longleftrightarrow> d = 0"
proof -
  assume "d < 10"
  moreover have "to_digit 10 CHR ''0'' = Some 0" by code_simp
  moreover have "digit_char 0 = CHR ''0''" by code_simp
  ultimately show ?thesis using to_digit_digit_char [of d] by (metis option.inject)
qed

definition stops :: "string \<Rightarrow> bool" where
  "stops rest \<longleftrightarrow> rest = [] \<or> to_digit 10 (hd rest) = None"

lemma read_digits_stops: "stops rest \<Longrightarrow> read_digits 10 m acc k rest = Some (acc, k, rest)"
  by (cases rest) (auto simp: stops_def)

lemma show_nat_small:
  "n < 10 \<Longrightarrow> show_nat n = [digit_char n]"
  "10 \<le> n \<Longrightarrow> n < 100 \<Longrightarrow> show_nat n = [digit_char (n div 10), digit_char (n mod 10)]"
  "100 \<le> n \<Longrightarrow> n < 1000 \<Longrightarrow> show_nat n = [digit_char (n div 100), digit_char (n div 10 mod 10), digit_char (n mod 10)]"
proof -
  show "n < 10 \<Longrightarrow> show_nat n = [digit_char n]" for n by (simp add: show_nat.simps [of n])
  then show two: "10 \<le> n \<Longrightarrow> n < 100 \<Longrightarrow> show_nat n = [digit_char (n div 10), digit_char (n mod 10)]" for n
    by (simp add: show_nat.simps [of n])
  assume n: "100 \<le> n" "n < 1000"
  then have "10 \<le> n div 10" "n div 10 < 100" by simp_all
  with n show "show_nat n = [digit_char (n div 100), digit_char (n div 10 mod 10), digit_char (n mod 10)]"
    using two [of "n div 10"] by (simp add: show_nat.simps [of n] div_mult2_eq [symmetric])
qed

lemma read_octet_text:
  assumes "n \<le> 255" and "stops rest"
  shows "read_number 10 3 False 255 (show_nat n @ rest) = Some (n, rest)"
proof -
  consider "n < 10" | "10 \<le> n \<and> n < 100" | "100 \<le> n \<and> n < 1000" using assms(1) by linarith
  then show ?thesis
  proof cases
    case 1
    then show ?thesis
      by (simp add: read_number_def show_nat_small(1) read_digits_stops [OF assms(2)] assms(1))
  next
    case 2
    then have "n div 10 * 10 + n mod 10 = n" and "n div 10 < 10" and "n div 10 \<noteq> 0" by auto
    with 2 show ?thesis
      by (simp add: read_number_def show_nat_small(2) read_digits_stops [OF assms(2)] digit_char_zero assms(1))
  next
    case 3
    moreover have "n div 100 = n div 10 div 10" by (simp add: div_mult2_eq [symmetric])
    ultimately have "(n div 100 * 10 + n div 10 mod 10) * 10 + n mod 10 = n" and "n div 100 < 10" and "n div 100 \<noteq> 0"
      by (simp_all only: div_mult_mod_eq) auto
    with 3 assms(1) show ?thesis
      by (simp add: read_number_def show_nat_small(3) read_digits_stops [OF assms(2)] digit_char_zero)
  qed
qed

definition dotted :: "nat \<Rightarrow> nat \<Rightarrow> nat \<Rightarrow> nat \<Rightarrow> string" where
  "dotted a b c d = show_nat a @ ''.'' @ show_nat b @ ''.'' @ show_nat c @ ''.'' @ show_nat d"

lemma length_octet_text: "n \<le> 255 \<Longrightarrow> length (show_nat n) \<le> 3"
proof -
  assume "n \<le> 255"
  then consider "n < 10" | "10 \<le> n \<and> n < 100" | "100 \<le> n \<and> n < 1000" by linarith
  then show ?thesis by cases (simp_all add: show_nat_small)
qed

lemma ipv4_dotted:
  assumes "a \<le> 255" "b \<le> 255" "c \<le> 255" "d \<le> 255"
  shows "ipv4_from_str (dotted a b c d) = Some [a, b, c, d]"
proof -
  have dot: "stops (CHR ''.'' # s)" and nil: "stops []" for s by (simp_all add: stops_def to_digit_def Let_def)
  have "read_ipv4_addr (dotted a b c d) = Some ([a, b, c, d], [])"
    using read_octet_text [OF assms(1) dot] read_octet_text [OF assms(2) dot] read_octet_text [OF assms(3) dot]
      read_octet_text [OF assms(4) nil]
    by (simp add: read_ipv4_addr_def read_octet_def read_separator_def dotted_def)
  moreover have "length (dotted a b c d) \<le> 15"
    using assms [THEN length_octet_text] by (simp add: dotted_def)
  ultimately show ?thesis by (simp add: ipv4_from_str_def parse_with_def)
qed

lemma dotted_not_localhost: "dotted a b c d \<noteq> ''localhost''"
proof -
  have "CHR ''.'' \<in> set (dotted a b c d)" by (simp add: dotted_def)
  moreover have "CHR ''.'' \<notin> set ''localhost''" by simp
  ultimately show ?thesis by metis
qed

lemma dotted_local:
  assumes "relay_host U url = dotted a b c d" and "a \<le> 255" "b \<le> 255" "c \<le> 255" "d \<le> 255"
  shows "is_local_addr U url \<longleftrightarrow> a = 127 \<or> a = 10 \<or> a = 172 \<and> 16 \<le> b \<and> b \<le> 31 \<or> a = 192 \<and> b = 168"
  using ipv4_dotted [OF assms(2-5)]
  by (auto simp: is_local_addr_def assms(1) dotted_not_localhost ipv4_is_loopback_def ipv4_is_private_def)

end
