(* ===== verification/Gossip_Routing.thy ===== *)
theory Gossip_Routing
  imports Relay_Lists Relay_Connection
begin

text \<open>
  The router of the outbox model (nula-gossip): the signals kept per user (routes.rs), the selection of relays
  (selection.rs), the splitting of filters (filter.rs), the targets of an event (event.rs), and the
  handle with ingestion, freshness and refresh (gossip.rs, ttl.rs, refresher.rs). A \<open>HashSet\<close> of relays is
  a list without duplicates, a \<open>HashMap\<close> an association list: their order stands for an arbitrary
  iteration order. The database is the record of its operations, the clock and the answers of the relay
  pool are arguments. A lock is held for one step; durations are in seconds, which is all the code reads.
\<close>

section \<open>Options (options.rs)\<close>

record gossip_limits =
  gl_read :: u8
  gl_write :: u8
  gl_hint :: u8
  gl_most_received :: u8
  gl_dm :: u8

definition limits_default :: gossip_limits where
  "limits_default = \<lparr>gl_read = 3, gl_write = 3, gl_hint = 2, gl_most_received = 2, gl_dm = 3\<rparr>"

record gossip_options =
  go_list_ttl :: u64
  go_min_fetch_interval :: u64
  go_refresher_interval :: "u64 option"
  go_refresher_batch :: nat
  go_limits :: gossip_limits
  go_allowed :: allowed_relays

definition gossip_options_default :: gossip_options where
  "gossip_options_default =
     \<lparr>go_list_ttl = 43200, go_min_fetch_interval = 30, go_refresher_interval = Some 60,
      go_refresher_batch = 32, go_limits = limits_default, go_allowed = allowed_default\<rparr>"

datatype list_kind = Nip65 | Nip17

fun list_event_kind :: "list_kind \<Rightarrow> kind" where
  "list_event_kind Nip65 = RELAY_LIST"
| "list_event_kind Nip17 = DM_RELAYS"

section \<open>Routes (routes.rs)\<close>

type_synonym histogram = "(relay_url, u32) btree_map"

record user_routes =
  ur_nip65 :: "relay_list option"
  ur_nip65_event_at :: "timestamp option"
  ur_nip65_fetched_at :: "timestamp option"
  ur_nip17 :: "relay_url list"
  ur_nip17_event_at :: "timestamp option"
  ur_nip17_fetched_at :: "timestamp option"
  ur_hints :: histogram
  ur_most_received :: histogram

definition routes_default :: user_routes where
  "routes_default =
     \<lparr>ur_nip65 = None, ur_nip65_event_at = None, ur_nip65_fetched_at = None, ur_nip17 = [],
      ur_nip17_event_at = None, ur_nip17_fetched_at = None, ur_hints = [], ur_most_received = []\<rparr>"

definition list_event_at :: "user_routes \<Rightarrow> list_kind \<Rightarrow> timestamp option" where
  "list_event_at r k = (case k of Nip65 \<Rightarrow> ur_nip65_event_at r | Nip17 \<Rightarrow> ur_nip17_event_at r)"

definition list_fetched_at :: "user_routes \<Rightarrow> list_kind \<Rightarrow> timestamp option" where
  "list_fetched_at r k = (case k of Nip65 \<Rightarrow> ur_nip65_fetched_at r | Nip17 \<Rightarrow> ur_nip17_fetched_at r)"

definition bump :: "histogram \<Rightarrow> relay_url \<Rightarrow> histogram" where
  "bump m relay =
     (case map_of m relay of
        Some n \<Rightarrow> (let n' = saturating_add n 1 in if n' = 0 then m else bt_insert relay n' m)
      | None \<Rightarrow> bt_insert relay 1 m)"

definition bump_hint :: "relay_url \<Rightarrow> user_routes \<Rightarrow> user_routes" where
  "bump_hint relay r = r\<lparr>ur_hints := bump (ur_hints r) relay\<rparr>"

definition bump_most_received :: "relay_url \<Rightarrow> user_routes \<Rightarrow> user_routes" where
  "bump_most_received relay r = r\<lparr>ur_most_received := bump (ur_most_received r) relay\<rparr>"

section \<open>Selection (selection.rs)\<close>

record selection_limits =
  sl_read :: u8
  sl_write :: u8
  sl_hint :: u8
  sl_most_received :: u8

definition limits_from_gossip :: "gossip_limits \<Rightarrow> selection_limits" where
  "limits_from_gossip g =
     \<lparr>sl_read = gl_read g, sl_write = gl_write g, sl_hint = gl_hint g, sl_most_received = gl_most_received g\<rparr>"

text \<open>The loop over the list: the limit is tested after each entry.\<close>

fun take_marked :: "(relay_marker \<Rightarrow> bool) \<Rightarrow> nat \<Rightarrow> relay_list \<Rightarrow> relay_url list \<Rightarrow> relay_url list" where
  "take_marked wanted limit [] out = out"
| "take_marked wanted limit ((url, marker) # rest) out =
     (let out' = (if wanted marker then push_new out url else out)
      in if length out' \<ge> limit then out' else take_marked wanted limit rest out')"

definition rank_before :: "relay_url \<times> u32 \<Rightarrow> relay_url \<times> u32 \<Rightarrow> bool" where
  "rank_before a b \<longleftrightarrow> snd b < snd a \<or> snd a = snd b \<and> fst a \<le> fst b"

text \<open>\<open>sort_by\<close> with a total order: insertion sort gives the same list.\<close>

fun rank_insert :: "relay_url \<times> u32 \<Rightarrow> (relay_url \<times> u32) list \<Rightarrow> (relay_url \<times> u32) list" where
  "rank_insert a [] = [a]"
| "rank_insert a (b # bs) = (if rank_before a b then a # b # bs else b # rank_insert a bs)"

definition rank :: "histogram \<Rightarrow> (relay_url \<times> u32) list" where
  "rank h = foldr rank_insert h []"

definition extend_from_histogram :: "relay_url list \<Rightarrow> histogram \<Rightarrow> u8 \<Rightarrow> relay_url list" where
  "extend_from_histogram out h limit =
     (if h = [] then out else extend_new out (map fst (take (unat limit) (rank h))))"

definition apply_policy :: "url_crate \<Rightarrow> relay_url list \<Rightarrow> allowed_relays \<Rightarrow> relay_url list" where
  "apply_policy U urls policy = filter (is_allowed U policy) urls"

definition outbox :: "url_crate \<Rightarrow> user_routes \<Rightarrow> selection_limits \<Rightarrow> allowed_relays \<Rightarrow> relay_url list" where
  "outbox U routes limits policy =
     (let out = (case ur_nip65 routes of
            Some l \<Rightarrow> take_marked is_write (unat (sl_write limits)) l []
          | None \<Rightarrow> []);
          out = extend_from_histogram out (ur_hints routes) (sl_hint limits);
          out = extend_from_histogram out (ur_most_received routes) (sl_most_received limits)
      in apply_policy U out policy)"

definition inbox :: "url_crate \<Rightarrow> user_routes \<Rightarrow> selection_limits \<Rightarrow> allowed_relays \<Rightarrow> relay_url list" where
  "inbox U routes limits policy =
     (let out = (case ur_nip65 routes of
            Some l \<Rightarrow> take_marked (\<lambda>m. is_read m \<or> m = ReadWrite) (unat (sl_read limits)) l []
          | None \<Rightarrow> []);
          out = extend_from_histogram out (ur_hints routes) (sl_hint limits);
          out = extend_from_histogram out (ur_most_received routes) (sl_most_received limits)
      in apply_policy U out policy)"

definition dm_relays :: "url_crate \<Rightarrow> user_routes \<Rightarrow> u8 \<Rightarrow> allowed_relays \<Rightarrow> relay_url list" where
  "dm_relays U routes limit policy = apply_policy U (extend_new [] (take (unat limit) (ur_nip17 routes))) policy"

section \<open>The handle (inner.rs, gossip.rs)\<close>

record 's gossip =
  g_options :: gossip_options
  g_db :: 's
  g_routes :: "(public_key, user_routes) hash_map"

datatype gossip_error =
    GossipPool string
  | GossipStorage storage_error
  | NoDiscoveryRelays
  | GossipNotFound public_key list_kind
  | MissingDatabase

definition gossip_build :: "gossip_options \<Rightarrow> 's option \<Rightarrow> gossip_error + 's gossip" where
  "gossip_build opts db =
     res_bind (ok_or MissingDatabase db) (\<lambda>s. Inr \<lparr>g_options = opts, g_db = s, g_routes = []\<rparr>)"

definition harvest_tag :: "url_crate \<Rightarrow> allowed_relays \<Rightarrow> user_routes \<Rightarrow> tag \<Rightarrow> user_routes" where
  "harvest_tag U allowed entry t =
     (if tag_head t \<noteq> SingleLetter (lowercase_tag L_R) then entry
      else case tag_content t of
             None \<Rightarrow> entry
           | Some v \<Rightarrow>
               (case relay_url_parse U v of
                  Inl _ \<Rightarrow> entry
                | Inr url \<Rightarrow> if is_allowed U allowed url then bump_hint url entry else entry))"

definition harvest_relay_hints :: "url_crate \<Rightarrow> event \<Rightarrow> user_routes \<Rightarrow> allowed_relays \<Rightarrow> user_routes" where
  "harvest_relay_hints U e entry allowed = foldl (harvest_tag U allowed) entry (ev_tags e)"

definition newer :: "timestamp option \<Rightarrow> timestamp \<Rightarrow> bool" where
  "newer seen created_at = (case seen of None \<Rightarrow> True | Some prev \<Rightarrow> prev < created_at)"

definition apply_event_to_entry :: "url_crate \<Rightarrow> event \<Rightarrow> user_routes \<Rightarrow> allowed_relays \<Rightarrow> user_routes" where
  "apply_event_to_entry U e entry allowed =
     (if ev_kind e = RELAY_LIST then
        (case relay_list_from_event U e of
           Inr l \<Rightarrow> if newer (ur_nip65_event_at entry) (ev_created_at e)
                   then entry\<lparr>ur_nip65 := Some l, ur_nip65_event_at := Some (ev_created_at e)\<rparr> else entry
         | Inl _ \<Rightarrow> entry)
      else if ev_kind e = DM_RELAYS then
        (case parse_dm_relays_event U e of
           Inr relays \<Rightarrow> if newer (ur_nip17_event_at entry) (ev_created_at e)
                        then entry\<lparr>ur_nip17 := filter (is_allowed U allowed) relays,
                                   ur_nip17_event_at := Some (ev_created_at e)\<rparr> else entry
         | Inl _ \<Rightarrow> entry)
      else harvest_relay_hints U e entry allowed)"

definition process_entry :: "url_crate \<Rightarrow> allowed_relays \<Rightarrow> event \<Rightarrow> relay_url option \<Rightarrow> user_routes \<Rightarrow> user_routes" where
  "process_entry U allowed e source_relay entry =
     (let entry' = apply_event_to_entry U e entry allowed
      in case source_relay of
           Some relay \<Rightarrow> if is_allowed U allowed relay then bump_most_received relay entry' else entry'
         | None \<Rightarrow> entry')"

definition gossip_process ::
  "url_crate \<Rightarrow> 's database \<Rightarrow> event \<Rightarrow> relay_url option \<Rightarrow> 's gossip \<Rightarrow> 's gossip" where
  "gossip_process U D e source_relay g =
     (let needs_persist = (ev_kind e = RELAY_LIST \<or> ev_kind e = DM_RELAYS);
          allowed = go_allowed (g_options g);
          g1 = g\<lparr>g_routes := hm_entry routes_default (ev_pubkey e) (process_entry U allowed e source_relay) (g_routes g)\<rparr>
      in if needs_persist then g1\<lparr>g_db := fst (db_save_event D e (g_db g1))\<rparr> else g1)"

definition outbox_relays :: "url_crate \<Rightarrow> 's gossip \<Rightarrow> public_key \<Rightarrow> relay_url list" where
  "outbox_relays U g user =
     (case map_of (g_routes g) user of
        None \<Rightarrow> []
      | Some r \<Rightarrow> outbox U r (limits_from_gossip (go_limits (g_options g))) (go_allowed (g_options g)))"

definition inbox_relays :: "url_crate \<Rightarrow> 's gossip \<Rightarrow> public_key \<Rightarrow> relay_url list" where
  "inbox_relays U g user =
     (case map_of (g_routes g) user of
        None \<Rightarrow> []
      | Some r \<Rightarrow> inbox U r (limits_from_gossip (go_limits (g_options g))) (go_allowed (g_options g)))"

definition gossip_dm_relays :: "url_crate \<Rightarrow> 's gossip \<Rightarrow> public_key \<Rightarrow> relay_url list" where
  "gossip_dm_relays U g user =
     (case map_of (g_routes g) user of
        None \<Rightarrow> []
      | Some r \<Rightarrow> dm_relays U r (gl_dm (go_limits (g_options g))) (go_allowed (g_options g)))"

section \<open>Freshness (ttl.rs)\<close>

datatype public_key_status = Missing | Updated | Outdated timestamp

definition gossip_status :: "'s gossip \<Rightarrow> timestamp option \<Rightarrow> public_key \<Rightarrow> list_kind \<Rightarrow> public_key_status" where
  "gossip_status g clock user k =
     (case map_of (g_routes g) user of
        None \<Rightarrow> Missing
      | Some r \<Rightarrow>
          (case list_event_at r k of
             None \<Rightarrow> Missing
           | Some observed_at \<Rightarrow>
               (case clock of
                  None \<Rightarrow> Outdated observed_at
                | Some now \<Rightarrow> if saturating_sub now observed_at > go_list_ttl (g_options g)
                              then Outdated observed_at else Updated)))"

datatype outdated_key = OutdatedKey (ok_public_key: public_key) (ok_observed_at: "timestamp option")

definition outdated_rank :: "outdated_key \<Rightarrow> nat \<times> timestamp \<times> public_key" where
  "outdated_rank k = (case ok_observed_at k of None \<Rightarrow> (0, 0, ok_public_key k) | Some t \<Rightarrow> (1, t, ok_public_key k))"

instantiation outdated_key :: linorder
begin

definition less_eq_outdated_key :: "outdated_key \<Rightarrow> outdated_key \<Rightarrow> bool" where
  "less_eq_outdated_key a b \<longleftrightarrow>
     (case (ok_observed_at a, ok_observed_at b) of
        (None, None) \<Rightarrow> ok_public_key a \<le> ok_public_key b
      | (None, Some _) \<Rightarrow> True
      | (Some _, None) \<Rightarrow> False
      | (Some s, Some t) \<Rightarrow> s < t \<or> s = t \<and> ok_public_key a \<le> ok_public_key b)"

definition less_outdated_key :: "outdated_key \<Rightarrow> outdated_key \<Rightarrow> bool" where
  "less_outdated_key a b \<longleftrightarrow>
     (case (ok_observed_at a, ok_observed_at b) of
        (None, None) \<Rightarrow> ok_public_key a < ok_public_key b
      | (None, Some _) \<Rightarrow> True
      | (Some _, None) \<Rightarrow> False
      | (Some s, Some t) \<Rightarrow> s < t \<or> s = t \<and> ok_public_key a < ok_public_key b)"

instance
  by standard (auto simp: less_eq_outdated_key_def less_outdated_key_def outdated_key.expand split: option.splits)

end

text \<open>The loop over the map of routes, which stops at the limit.\<close>

fun outdated_loop ::
  "list_kind \<Rightarrow> timestamp \<Rightarrow> u64 \<Rightarrow> nat \<Rightarrow> (public_key \<times> user_routes) list \<Rightarrow> outdated_key btree_set \<Rightarrow>
   outdated_key btree_set" where
  "outdated_loop k now ttl limit [] out = out"
| "outdated_loop k now ttl limit ((pk, r) # rest) out =
     (let out' = (case list_event_at r k of
            Some observed_at \<Rightarrow> if saturating_sub now observed_at > ttl
                               then bs_insert (OutdatedKey pk (Some observed_at)) out else out
          | None \<Rightarrow> out)
      in if length out' \<ge> limit then out' else outdated_loop k now ttl limit rest out')"

definition gossip_outdated :: "'s gossip \<Rightarrow> timestamp option \<Rightarrow> list_kind \<Rightarrow> nat \<Rightarrow> outdated_key btree_set" where
  "gossip_outdated g clock k limit =
     (case clock of
        None \<Rightarrow> []
      | Some now \<Rightarrow> outdated_loop k now (go_list_ttl (g_options g)) limit (g_routes g) [])"

section \<open>Refreshing\<close>

definition list_filter :: "public_key \<Rightarrow> list_kind \<Rightarrow> nostr_filter" where
  "list_filter user k = filter_limit 1 (filter_kind (list_event_kind k) (filter_author user filter_new))"

text \<open>The stream of the pool is a list of items, each an event or an error.\<close>

fun newest_loop :: "public_key \<Rightarrow> list_kind \<Rightarrow> (relay_url \<times> (string + event)) list \<Rightarrow> event option \<Rightarrow> event option" where
  "newest_loop user k [] newest = newest"
| "newest_loop user k ((_, Inl _) # rest) newest = newest_loop user k rest newest"
| "newest_loop user k ((_, Inr e) # rest) newest =
     (if ev_kind e \<noteq> list_event_kind k \<or> ev_pubkey e \<noteq> user then newest_loop user k rest newest
      else if newer (map_option ev_created_at newest) (ev_created_at e) then newest_loop user k rest (Some e)
      else newest_loop user k rest newest)"

type_synonym relay_fetch =
  "relay_url list \<Rightarrow> nostr_filter list \<Rightarrow> string + (relay_url \<times> (string + event)) list"

definition pull_newest ::
  "relay_fetch \<Rightarrow> public_key \<Rightarrow> list_kind \<Rightarrow> relay_url list \<Rightarrow> gossip_error + event option" where
  "pull_newest pool user k discovery =
     res_bind (map_err GossipPool (pool discovery [list_filter user k])) (\<lambda>items.
     Inr (newest_loop user k items None))"

definition set_fetched_at :: "list_kind \<Rightarrow> timestamp \<Rightarrow> user_routes \<Rightarrow> user_routes" where
  "set_fetched_at k now r =
     (case k of Nip65 \<Rightarrow> r\<lparr>ur_nip65_fetched_at := Some now\<rparr> | Nip17 \<Rightarrow> r\<lparr>ur_nip17_fetched_at := Some now\<rparr>)"

definition allowed_to_fetch :: "'s gossip \<Rightarrow> timestamp option \<Rightarrow> public_key \<Rightarrow> list_kind \<Rightarrow> bool" where
  "allowed_to_fetch g clock user k =
     (case (Option.bind (map_of (g_routes g) user) (\<lambda>r. list_fetched_at r k), clock) of
        (Some prev, Some now) \<Rightarrow> saturating_sub now prev \<ge> go_min_fetch_interval (g_options g)
      | _ \<Rightarrow> True)"

definition gossip_refresh ::
  "url_crate \<Rightarrow> 's database \<Rightarrow> relay_fetch \<Rightarrow> timestamp option \<Rightarrow> public_key \<Rightarrow> list_kind \<Rightarrow> relay_url list \<Rightarrow>
   's gossip \<Rightarrow> 's gossip \<times> (gossip_error + unit)" where
  "gossip_refresh U D pool clock user k discovery g =
     (if discovery = [] then (g, Inl NoDiscoveryRelays)
      else if \<not> allowed_to_fetch g clock user k then (g, Inr ())
      else let g1 = (case clock of
                 Some now \<Rightarrow> g\<lparr>g_routes := hm_entry routes_default user (set_fetched_at k now) (g_routes g)\<rparr>
               | None \<Rightarrow> g)
           in case pull_newest pool user k discovery of
                Inl err \<Rightarrow> (g1, Inl err)
              | Inr None \<Rightarrow> (g1, Inl (GossipNotFound user k))
              | Inr (Some e) \<Rightarrow> (gossip_process U D e None g1, Inr ()))"

definition warm_up_one :: "'s database \<Rightarrow> 's gossip \<Rightarrow> public_key \<Rightarrow> list_kind \<Rightarrow> gossip_error + event option" where
  "warm_up_one D g pk k =
     res_bind (map_err GossipStorage (db_query D (list_filter pk k) (g_db g))) (\<lambda>es.
     Inr (case es of [] \<Rightarrow> None | e # _ \<Rightarrow> Some e))"

fun warm_up_lists ::
  "url_crate \<Rightarrow> 's database \<Rightarrow> public_key \<Rightarrow> list_kind list \<Rightarrow> 's gossip \<Rightarrow> 's gossip \<times> (gossip_error + unit)" where
  "warm_up_lists U D pk [] g = (g, Inr ())"
| "warm_up_lists U D pk (k # ks) g =
     (case warm_up_one D g pk k of
        Inl err \<Rightarrow> (g, Inl err)
      | Inr None \<Rightarrow> warm_up_lists U D pk ks g
      | Inr (Some e) \<Rightarrow> warm_up_lists U D pk ks (gossip_process U D e None g))"

definition warm_up_user ::
  "url_crate \<Rightarrow> 's database \<Rightarrow> public_key \<Rightarrow> 's gossip \<Rightarrow> 's gossip \<times> (gossip_error + unit)" where
  "warm_up_user U D pk g = warm_up_lists U D pk [Nip65, Nip17] g"

fun warm_up ::
  "url_crate \<Rightarrow> 's database \<Rightarrow> public_key list \<Rightarrow> 's gossip \<Rightarrow> 's gossip \<times> (gossip_error + unit)" where
  "warm_up U D [] g = (g, Inr ())"
| "warm_up U D (pk # users) g =
     (case warm_up_user U D pk g of
        (g', Inl err) \<Rightarrow> (g', Inl err)
      | (g', Inr _) \<Rightarrow> warm_up U D users g')"

text \<open>One tick of the refresher for one kind of list; each refresh reads the clock again.\<close>

fun refresh_keys ::
  "url_crate \<Rightarrow> 's database \<Rightarrow> relay_fetch \<Rightarrow> list_kind \<Rightarrow> relay_url list \<Rightarrow> (timestamp option \<times> outdated_key) list \<Rightarrow>
   's gossip \<Rightarrow> 's gossip" where
  "refresh_keys U D pool k discovery [] g = g"
| "refresh_keys U D pool k discovery ((clock, key) # rest) g =
     refresh_keys U D pool k discovery rest
       (fst (gossip_refresh U D pool clock (ok_public_key key) k discovery g))"

definition refresh_one_kind ::
  "url_crate \<Rightarrow> 's database \<Rightarrow> relay_fetch \<Rightarrow> timestamp option list \<Rightarrow> relay_url list \<Rightarrow> list_kind \<Rightarrow> 's gossip \<Rightarrow> 's gossip" where
  "refresh_one_kind U D pool clocks discovery k g =
     (case clocks of
        [] \<Rightarrow> g
      | clock # later \<Rightarrow>
          let out = gossip_outdated g clock k (max (go_refresher_batch (g_options g)) 1)
          in if out = [] then g else refresh_keys U D pool k discovery (zip later out) g)"

section \<open>Splitting filters (filter.rs)\<close>

datatype broken_down_filters =
    PerRelay "(relay_url, nostr_filter) hash_map"
  | OrphanFilter nostr_filter
  | GenericFilter nostr_filter

datatype direction = Outbox | Inbox

definition pattern_needs_dm :: "nostr_filter \<Rightarrow> bool" where
  "pattern_needs_dm f =
     (let p_present = (case map_of (f_generic_tags f) (lowercase_tag L_P) of Some v \<Rightarrow> v \<noteq> [] | None \<Rightarrow> False)
      in case f_kinds f of
           Some kinds \<Rightarrow> if GIFT_WRAP \<in> set kinds then True else if kinds = [] \<and> p_present then True else False
         | None \<Rightarrow> p_present)"

definition directional_relays :: "url_crate \<Rightarrow> gossip_options \<Rightarrow> bool \<Rightarrow> direction \<Rightarrow> user_routes \<Rightarrow> relay_url list" where
  "directional_relays U opts needs_dm dir r =
     (let limits = limits_from_gossip (go_limits opts);
          allowed = go_allowed opts;
          relays = (case dir of Outbox \<Rightarrow> outbox U r limits allowed | Inbox \<Rightarrow> inbox U r limits allowed)
      in if needs_dm then extend_new relays (dm_relays U r (gl_dm (go_limits opts)) allowed) else relays)"

definition add_relays ::
  "public_key \<times> relay_url list \<Rightarrow> (relay_url, public_key btree_set) hash_map \<Rightarrow> (relay_url, public_key btree_set) hash_map" where
  "add_relays pr m = foldl (\<lambda>m url. hm_entry [] url (bs_insert (fst pr)) m) m (snd pr)"

definition collect_directional ::
  "url_crate \<Rightarrow> 's gossip \<Rightarrow> public_key btree_set \<Rightarrow> bool \<Rightarrow> direction \<Rightarrow> (relay_url, public_key btree_set) hash_map" where
  "collect_directional U g keys needs_dm dir =
     (let snapshot = List.map_filter (\<lambda>pk. map_option (\<lambda>r. (pk, directional_relays U (g_options g) needs_dm dir r))
            (map_of (g_routes g) pk)) keys
      in foldl (\<lambda>m pr. add_relays pr m) [] snapshot)"

definition union_relays_of :: "url_crate \<Rightarrow> gossip_options \<Rightarrow> bool \<Rightarrow> user_routes \<Rightarrow> relay_url list" where
  "union_relays_of U opts needs_dm r =
     (let limits = limits_from_gossip (go_limits opts); allowed = go_allowed opts in
      outbox U r limits allowed @ inbox U r limits allowed @
      (if needs_dm then dm_relays U r (gl_dm (go_limits opts)) allowed else []))"

definition collect_union_relays ::
  "url_crate \<Rightarrow> 's gossip \<Rightarrow> public_key btree_set \<Rightarrow> bool \<Rightarrow> relay_url btree_set" where
  "collect_union_relays U g targets needs_dm =
     (let acc = concat (map (\<lambda>pk. case map_of (g_routes g) pk of
            Some r \<Rightarrow> union_relays_of U (g_options g) needs_dm r | None \<Rightarrow> []) targets)
      in foldl (\<lambda>s url. bs_insert url s) [] acc)"

definition narrow_authors ::
  "nostr_filter \<Rightarrow> (relay_url, public_key btree_set) hash_map \<Rightarrow> (relay_url, nostr_filter) hash_map" where
  "narrow_authors f per_relay = map (\<lambda>(url, pks). (url, f\<lparr>f_authors := Some pks\<rparr>)) per_relay"

definition narrow_p_tags ::
  "crates \<Rightarrow> nostr_filter \<Rightarrow> (relay_url, public_key btree_set) hash_map \<Rightarrow> (relay_url, nostr_filter) hash_map" where
  "narrow_p_tags X f per_relay =
     map (\<lambda>(url, pks). (url, f\<lparr>f_generic_tags :=
       hm_insert (lowercase_tag L_P) (map (public_key_to_hex X) pks) (f_generic_tags f)\<rparr>)) per_relay"

definition to_btree_set :: "'a::linorder list \<Rightarrow> 'a btree_set" where
  "to_btree_set xs = foldl (\<lambda>s x. bs_insert x s) [] xs"

definition break_down_filter :: "crates \<Rightarrow> url_crate \<Rightarrow> 's gossip \<Rightarrow> nostr_filter \<Rightarrow> broken_down_filters" where
  "break_down_filter X U g f =
     (let authors = map_option to_btree_set (f_authors f);
          p_pubkeys = map_option (\<lambda>vs. to_btree_set (List.map_filter (\<lambda>v. res_ok (public_key_parse X v)) vs))
            (map_of (f_generic_tags f) (lowercase_tag L_P));
          needs_dm = pattern_needs_dm f
      in case (authors, p_pubkeys) of
           (Some authors, None) \<Rightarrow>
             let per_relay = collect_directional U g authors needs_dm Outbox
             in if per_relay = [] then OrphanFilter f else PerRelay (narrow_authors f per_relay)
         | (None, Some p_set) \<Rightarrow>
             let per_relay = collect_directional U g p_set needs_dm Inbox
             in if per_relay = [] then OrphanFilter f else PerRelay (narrow_p_tags X f per_relay)
         | (Some authors, Some p_set) \<Rightarrow>
             let relays = collect_union_relays U g (foldl (\<lambda>s pk. bs_insert pk s) authors p_set) needs_dm
             in if relays = [] then OrphanFilter f else PerRelay (map (\<lambda>url. (url, f)) relays)
         | (None, None) \<Rightarrow> GenericFilter f)"

section \<open>Targets of an event (event.rs)\<close>

datatype event_route = Relays "relay_url list" | OrphanEvent bool

definition break_down_event :: "crates \<Rightarrow> url_crate \<Rightarrow> 's gossip \<Rightarrow> event \<Rightarrow> event_route" where
  "break_down_event X U g e =
     (let limits = limits_from_gossip (go_limits (g_options g));
          allowed = go_allowed (g_options g);
          dm_limit = gl_dm (go_limits (g_options g));
          recipients = to_btree_set (tags_public_keys X (ev_tags e))
      in if ev_kind e = GIFT_WRAP then
           let relays = foldl (\<lambda>out pk. case map_of (g_routes g) pk of
                 Some r \<Rightarrow> extend_new out (dm_relays U r dm_limit allowed) | None \<Rightarrow> out) [] recipients
           in if relays = [] then OrphanEvent True else Relays relays
         else
           let relays = (case map_of (g_routes g) (ev_pubkey e) of
                 None \<Rightarrow> [] | Some r \<Rightarrow> outbox U r limits allowed);
               relays = (if ev_kind e \<noteq> CONTACTS then
                   foldl (\<lambda>out pk. case map_of (g_routes g) pk of
                     Some r \<Rightarrow> extend_new out (inbox U r limits allowed) | None \<Rightarrow> out) relays recipients
                 else relays)
           in if relays = [] then OrphanEvent False else Relays relays)"

end
