(* ===== verification/Gossip_Lemmas.thy ===== *)
theory Gossip_Lemmas
  imports Gossip_Routing
begin

text \<open>
  Lemmas on the router: what a selection contains, in which order histograms are cut, how the maps of the
  filter splitting relate to the routes, and what ingestion keeps.
\<close>

section \<open>Selections\<close>

lemma length_push_new: "length (push_new out x) \<le> Suc (length out)"
  by (simp add: push_new_def)

lemma length_extend_new: "length (extend_new out xs) \<le> length out + length xs"
  unfolding extend_new_def
proof (induction xs arbitrary: out)
  case (Cons x xs)
  show ?case using Cons [of "push_new out x"] length_push_new [of out x] by simp
qed simp

lemma take_marked_set:
  "set (take_marked w n l out) \<subseteq> set out \<union> {url. \<exists>m. (url, m) \<in> set l \<and> w m}"
proof (induction w n l out rule: take_marked.induct)
  case (2 w n url m rest out)
  define out' where "out' = (if w m then push_new out url else out)"
  have eq: "take_marked w n ((url, m) # rest) out = (if n \<le> length out' then out' else take_marked w n rest out')"
    by (simp add: out'_def Let_def)
  have "set out' \<subseteq> set out \<union> {u. \<exists>x. (u, x) \<in> set ((url, m) # rest) \<and> w x}" by (auto simp: out'_def)
  moreover have "{u. \<exists>x. (u, x) \<in> set rest \<and> w x} \<subseteq> {u. \<exists>x. (u, x) \<in> set ((url, m) # rest) \<and> w x}" by auto
  moreover have "\<not> n \<le> length out' \<Longrightarrow> set (take_marked w n rest out') \<subseteq> set out' \<union> {u. \<exists>x. (u, x) \<in> set rest \<and> w x}"
    using 2 [OF out'_def] .
  ultimately show ?case unfolding eq by (cases "n \<le> length out'"; simp only: if_True if_False simp_thms; blast)
qed simp

lemma take_marked_distinct: "distinct out \<Longrightarrow> distinct (take_marked w n l out)"
  by (induction w n l out rule: take_marked.induct) (auto simp: Let_def)

lemma take_marked_length: "length out < n \<Longrightarrow> length (take_marked w n l out) \<le> n"
proof (induction w n l out rule: take_marked.induct)
  case (2 w n url m rest out)
  have "length (if w m then push_new out url else out) \<le> n" using 2(2) length_push_new [of out url] by auto
  then show ?case using 2(1) by (auto simp: Let_def)
qed simp

lemma take_marked_length_max: "length (take_marked w n l []) \<le> max 1 n"
proof (cases "n = 0")
  case True
  show ?thesis by (cases l) (auto simp: True Let_def push_new_def)
next
  case False
  then show ?thesis using take_marked_length [of "[]" n w l] by simp
qed

text \<open>Nothing is left out while there is room.\<close>

lemma take_marked_keeps: "set out \<subseteq> set (take_marked w n l out)"
  by (induction w n l out rule: take_marked.induct) (auto simp: Let_def)

lemma take_marked_complete:
  "length (take_marked w n l out) < n \<Longrightarrow> (url, m) \<in> set l \<Longrightarrow> w m \<Longrightarrow> url \<in> set (take_marked w n l out)"
proof (induction w n l out rule: take_marked.induct)
  case (2 w n url' m' rest out)
  then show ?case using take_marked_keeps by (fastforce simp: Let_def split: if_splits)
qed simp

lemma rank_before_total: "rank_before a b \<or> rank_before b a"
  by (auto simp: rank_before_def)

lemma rank_before_trans: "rank_before a b \<Longrightarrow> rank_before b c \<Longrightarrow> rank_before a c"
  by (auto simp: rank_before_def)

lemma set_rank_insert: "set (rank_insert a bs) = insert a (set bs)"
  by (induction bs) auto

lemma length_rank_insert: "length (rank_insert a bs) = Suc (length bs)"
  by (induction bs) auto

lemma sorted_rank_insert: "sorted_wrt rank_before bs \<Longrightarrow> sorted_wrt rank_before (rank_insert a bs)"
proof (induction bs)
  case (Cons b bs)
  then show ?case
    using rank_before_total [of a b] rank_before_trans by (auto simp: set_rank_insert)
qed simp

lemma set_rank [simp]: "set (rank h) = set h"
  unfolding rank_def by (induction h) (simp_all add: set_rank_insert)

lemma length_rank [simp]: "length (rank h) = length h"
  unfolding rank_def by (induction h) (simp_all add: length_rank_insert)

lemma sorted_rank: "sorted_wrt rank_before (rank h)"
  unfolding rank_def by (induction h) (simp_all add: sorted_rank_insert)

text \<open>What is cut off has no more events than what is kept.\<close>

lemma rank_top:
  assumes "a \<in> set (take k (rank h))" and "b \<in> set h" and "b \<notin> set (take k (rank h))"
  shows "snd b \<le> snd a"
proof -
  have "b \<in> set (drop k (rank h))"
    using assms(2,3) append_take_drop_id [of k "rank h"] by (metis Un_iff set_append set_rank)
  moreover have "sorted_wrt rank_before (take k (rank h) @ drop k (rank h))" using sorted_rank by simp
  ultimately have "rank_before a b" using assms(1) by (simp only: sorted_wrt_append)
  then show ?thesis by (auto simp: rank_before_def)
qed

lemma extend_from_histogram_set:
  "set (extend_from_histogram out h n) = set out \<union> fst ` set (take (unat n) (rank h))"
  by (simp add: extend_from_histogram_def rank_def)

lemma extend_from_histogram_distinct: "distinct out \<Longrightarrow> distinct (extend_from_histogram out h n)"
  by (simp add: extend_from_histogram_def)

lemma extend_from_histogram_length: "length (extend_from_histogram out h n) \<le> length out + unat n"
  using length_extend_new [of out "map fst (take (unat n) (rank h))"]
  by (simp add: extend_from_histogram_def min_def split: if_splits)

text \<open>
  The contract of a selection: the relays it picks are allowed, at most so many, without duplicates, and each
  has a reason in the routes.
\<close>

locale relay_selection =
  fixes select :: "user_routes \<Rightarrow> relay_url list"
    and allowed :: "relay_url \<Rightarrow> bool"
    and bound :: nat
    and reason :: "user_routes \<Rightarrow> relay_url \<Rightarrow> bool"
  assumes select_distinct: "distinct (select r)"
    and select_length: "length (select r) \<le> bound"
    and select_allowed: "url \<in> set (select r) \<Longrightarrow> allowed url"
    and select_reason: "url \<in> set (select r) \<Longrightarrow> reason r url"
begin

text \<open>Relays a set of users is reached at.\<close>

definition reached :: "(public_key \<rightharpoonup> user_routes) \<Rightarrow> public_key set \<Rightarrow> relay_url set" where
  "reached routes keys = {url. \<exists>pk \<in> keys. \<exists>r. routes pk = Some r \<and> url \<in> set (select r)}"

lemma reached_allowed: "url \<in> reached routes keys \<Longrightarrow> allowed url"
  by (auto simp: reached_def intro: select_allowed)

lemma reached_finite: "finite keys \<Longrightarrow> finite (reached routes keys)"
proof -
  assume "finite keys"
  have "reached routes keys \<subseteq> (\<Union>pk \<in> keys. case routes pk of Some r \<Rightarrow> set (select r) | None \<Rightarrow> {})"
    by (auto simp: reached_def split: option.splits)
  moreover have "finite (\<Union>pk \<in> keys. case routes pk of Some r \<Rightarrow> set (select r) | None \<Rightarrow> {})"
    using \<open>finite keys\<close> by (auto split: option.splits)
  ultimately show ?thesis by (rule finite_subset)
qed

lemma reached_card: "finite keys \<Longrightarrow> card (reached routes keys) \<le> bound * card keys"
proof (induction keys rule: finite_induct)
  case (insert pk keys)
  let ?new = "case routes pk of Some r \<Rightarrow> set (select r) | None \<Rightarrow> {}"
  have "reached routes (insert pk keys) = ?new \<union> reached routes keys"
    by (auto simp: reached_def split: option.splits)
  moreover have "card ?new \<le> bound"
    using select_length select_distinct by (simp add: distinct_card split: option.splits)
  ultimately show ?case
    using insert card_Un_le [of ?new "reached routes keys"] by simp
qed (simp add: reached_def)

end

definition marked_in :: "(relay_marker \<Rightarrow> bool) \<Rightarrow> user_routes \<Rightarrow> relay_url \<Rightarrow> bool" where
  "marked_in w r url \<longleftrightarrow> (\<exists>l m. ur_nip65 r = Some l \<and> (url, m) \<in> set l \<and> w m)"

definition counted_in :: "user_routes \<Rightarrow> relay_url \<Rightarrow> bool" where
  "counted_in r url \<longleftrightarrow> url \<in> fst ` set (ur_hints r) \<or> url \<in> fst ` set (ur_most_received r)"

definition limits_positive :: "gossip_limits \<Rightarrow> bool" where
  "limits_positive g \<longleftrightarrow> gl_read g \<noteq> 0 \<and> gl_write g \<noteq> 0 \<and> gl_hint g \<noteq> 0 \<and> gl_most_received g \<noteq> 0 \<and> gl_dm g \<noteq> 0"

text \<open>The limits are \<open>NonZeroU8\<close>; the loop over the list would read a zero as one.\<close>

lemma marked_part:
  fixes n :: u8
  defines "part \<equiv> \<lambda>w (r :: user_routes). case ur_nip65 r of Some l \<Rightarrow> take_marked w (unat n) l [] | None \<Rightarrow> []"
  shows "distinct (part w r)" and "length (part w r) \<le> max 1 (unat n)"
    and "url \<in> set (part w r) \<Longrightarrow> marked_in w r url"
proof -
  show "distinct (part w r)" by (simp add: part_def take_marked_distinct split: option.splits)
  show "length (part w r) \<le> max 1 (unat n)"
    using take_marked_length_max [of w "unat n"] by (simp add: part_def split: option.splits)
  show "marked_in w r url" if "url \<in> set (part w r)"
  proof (cases "ur_nip65 r")
    case (Some l)
    then show ?thesis
      using that take_marked_set [of w "unat n" l "[]"] by (auto simp: part_def marked_in_def)
  qed (use that in \<open>simp add: part_def\<close>)
qed

lemma allowed_part [simp]: "url \<in> set (apply_policy U out p) \<longleftrightarrow> url \<in> set out \<and> is_allowed U p url"
  by (auto simp: apply_policy_def)

lemma selection_parts:
  fixes U a b p and r :: user_routes
  assumes "distinct out" and "length out \<le> k" and "\<And>url. url \<in> set out \<Longrightarrow> P url"
  defines "sel \<equiv> apply_policy U (extend_from_histogram (extend_from_histogram out (ur_hints r) a)
      (ur_most_received r) b) p"
  shows "distinct sel" and "length sel \<le> k + unat a + unat b"
    and "url \<in> set sel \<Longrightarrow> is_allowed U p url" and "url \<in> set sel \<Longrightarrow> P url \<or> counted_in r url"
proof -
  show "distinct sel" using assms(1) by (simp add: sel_def apply_policy_def extend_from_histogram_distinct)
  have "length sel \<le> length (extend_from_histogram (extend_from_histogram out (ur_hints r) a) (ur_most_received r) b)"
    by (simp add: sel_def apply_policy_def)
  also have "\<dots> \<le> length out + unat a + unat b"
    by (metis add_le_mono1 extend_from_histogram_length le_trans)
  finally show "length sel \<le> k + unat a + unat b" using assms(2) by simp
  show "is_allowed U p url" if "url \<in> set sel" using that by (simp add: sel_def)
  show "P url \<or> counted_in r url" if "url \<in> set sel"
    using that assms(3) by (auto simp: sel_def extend_from_histogram_set counted_in_def dest!: in_set_takeD)
qed

lemma marked_selection:
  defines "sel \<equiv> \<lambda>w n a b U p (r :: user_routes). apply_policy U (extend_from_histogram (extend_from_histogram
      (case ur_nip65 r of Some l \<Rightarrow> take_marked w (unat (n :: u8)) l [] | None \<Rightarrow> []) (ur_hints r) a)
      (ur_most_received r) b) p"
  shows "relay_selection (sel w n a b U p) (is_allowed U p) (max 1 (unat n) + unat a + unat b)
    (\<lambda>r url. marked_in w r url \<or> counted_in r url)"
  unfolding sel_def
proof unfold_locales
  fix r :: user_routes and url
  let ?out = "case ur_nip65 r of Some l \<Rightarrow> take_marked w (unat n) l [] | None \<Rightarrow> []"
  let ?sel = "apply_policy U (extend_from_histogram (extend_from_histogram ?out (ur_hints r) a) (ur_most_received r) b) p"
  have reason: "x \<in> set ?out \<Longrightarrow> marked_in w r x" for x by (rule marked_part(3))
  note parts = selection_parts [where out = ?out and P = "marked_in w r", OF marked_part(1) marked_part(2) reason]
  show "distinct ?sel" by (rule parts(1))
  show "length ?sel \<le> max 1 (unat n) + unat a + unat b" by (rule parts(2))
  assume sel: "url \<in> set ?sel"
  show "is_allowed U p url" by (rule parts(3) [OF _ sel])
  show "marked_in w r url \<or> counted_in r url" by (rule parts(4) [OF _ sel])
qed

interpretation out: relay_selection "\<lambda>r. outbox U r (limits_from_gossip g) p" "is_allowed U p"
    "max 1 (unat (gl_write g)) + unat (gl_hint g) + unat (gl_most_received g)"
    "\<lambda>r url. marked_in is_write r url \<or> counted_in r url" for U g p
  unfolding outbox_def limits_from_gossip_def Let_def selection_limits.simps by (rule marked_selection)

interpretation inb: relay_selection "\<lambda>r. inbox U r (limits_from_gossip g) p" "is_allowed U p"
    "max 1 (unat (gl_read g)) + unat (gl_hint g) + unat (gl_most_received g)"
    "\<lambda>r url. marked_in (\<lambda>m. is_read m \<or> m = ReadWrite) r url \<or> counted_in r url" for U g p
  unfolding inbox_def limits_from_gossip_def Let_def selection_limits.simps by (rule marked_selection)

interpretation dm: relay_selection "\<lambda>r. dm_relays U r n p" "is_allowed U p" "unat n" "\<lambda>r url. url \<in> set (ur_nip17 r)"
  for U n p
proof unfold_locales
  show "length (dm_relays U r n p) \<le> unat n" for r
    using length_extend_new [of "[]" "take (unat n) (ur_nip17 r)"]
    by (simp add: dm_relays_def apply_policy_def) (meson length_filter_le order_trans min.cobounded2)
qed (auto simp: dm_relays_def apply_policy_def dest: in_set_takeD)

section \<open>Splitting filters\<close>

lemma set_fold_bs_insert: "set (foldl (\<lambda>s x. bs_insert x s) s xs) = set s \<union> set xs"
  by (induction xs arbitrary: s) auto

lemma set_to_btree_set [simp]: "set (to_btree_set xs) = set xs"
  by (simp add: to_btree_set_def set_fold_bs_insert)

lemma bs_invar_fold: "bs_invar s \<Longrightarrow> bs_invar (foldl (\<lambda>s x. bs_insert x s) s xs)"
  by (induction xs arbitrary: s) auto

lemma add_relays_sets:
  "hm_sets_invar m \<Longrightarrow> hm_sets_invar (add_relays (pk, urls) m) \<and>
   hm_set (add_relays (pk, urls) m) u = hm_set m u \<union> {p. p = pk \<and> u \<in> set urls}"
proof (induction urls arbitrary: m)
  case (Cons x urls)
  have "add_relays (pk, x # urls) m = add_relays (pk, urls) (hm_entry [] x (bs_insert pk) m)"
    by (simp add: add_relays_def)
  with Cons.IH [OF hm_sets_invar_insert [OF Cons.prems]] show ?case
    using hm_set_insert [OF Cons.prems] by auto
qed (simp add: add_relays_def)

lemma fold_add_relays:
  "hm_sets_invar m \<Longrightarrow> hm_sets_invar (foldl (\<lambda>m pr. add_relays pr m) m snapshot) \<and>
   hm_set (foldl (\<lambda>m pr. add_relays pr m) m snapshot) u =
   hm_set m u \<union> {pk. \<exists>urls. (pk, urls) \<in> set snapshot \<and> u \<in> set urls}"
proof (induction snapshot arbitrary: m)
  case (Cons pr snapshot)
  obtain pk urls where pr: "pr = (pk, urls)" by fastforce
  note step = add_relays_sets [OF Cons.prems, of pk urls]
  show ?case using Cons.IH [of "add_relays pr m"] step [of u] by (auto simp: pr)
qed simp

lemma collect_directional_sets:
  "hm_sets_invar (collect_directional U g keys needs_dm dir)"
  "hm_set (collect_directional U g keys needs_dm dir) u =
     {pk \<in> set keys. \<exists>r. map_of (g_routes g) pk = Some r \<and>
        u \<in> set (directional_relays U (g_options g) needs_dm dir r)}"
proof -
  have "hm_sets_invar []" by (simp add: hm_sets_invar_def hm_invar_def)
  note fold = fold_add_relays [OF this]
  show "hm_sets_invar (collect_directional U g keys needs_dm dir)"
    using fold by (simp add: collect_directional_def)
  show "hm_set (collect_directional U g keys needs_dm dir) u =
     {pk \<in> set keys. \<exists>r. map_of (g_routes g) pk = Some r \<and>
        u \<in> set (directional_relays U (g_options g) needs_dm dir r)}"
    using fold [of _ u] by (auto simp: collect_directional_def hm_set_def set_map_filter)
qed

lemma hm_sets_entries:
  assumes "hm_sets_invar m" and "(u, pks) \<in> set m"
  shows "set pks = hm_set m u" and "pks \<noteq> []"
proof -
  have "hm_invar m" using assms(1) by (simp add: hm_sets_invar_def)
  from hm.entries_iff [OF this] have "map_of m u = Some pks" using assms(2) by blast
  then show "set pks = hm_set m u" and "pks \<noteq> []"
    using assms(1) by (auto simp: hm_set_def hm_sets_invar_def)
qed

lemma hm_sets_entry_ex:
  assumes "hm_sets_invar m" and "pk \<in> hm_set m u"
  obtains pks where "(u, pks) \<in> set m" and "pk \<in> set pks"
  using assms(2) by (auto simp: hm_set_def split: option.splits intro: that dest: map_of_SomeD)

lemma directional_allowed:
  "url \<in> set (directional_relays U opts needs_dm dir r) \<Longrightarrow> is_allowed U (go_allowed opts) url"
  by (auto simp: directional_relays_def Let_def split: if_splits direction.splits
      dest: out.select_allowed inb.select_allowed dm.select_allowed)

text \<open>Narrowing one constraint to fewer values selects fewer events.\<close>

lemma narrow_authors_selects:
  assumes "f_authors f = Some authors" and "set pks \<subseteq> set authors"
  shows "filter_selects (f\<lparr>f_authors := Some pks\<rparr>) e \<longleftrightarrow> filter_selects f e \<and> ev_pubkey e \<in> set pks"
  using assms by (auto simp: filter_selects_def)

lemma has_tag_value_subset: "has_tag_value ts l vs \<Longrightarrow> set vs \<subseteq> set ws \<Longrightarrow> has_tag_value ts l ws"
  by (auto simp: has_tag_value_def)

lemma narrow_tag_selects:
  assumes "distinct (map fst (f_generic_tags f))" and "map_of (f_generic_tags f) l = Some ws" and "set vs \<subseteq> set ws"
  shows "filter_selects (f\<lparr>f_generic_tags := hm_insert l vs (f_generic_tags f)\<rparr>) e \<longleftrightarrow>
    filter_selects f e \<and> has_tag_value (ev_tags e) l vs"
proof -
  have inv: "hm_invar (f_generic_tags f)" using assms(1) by (simp add: hm_invar_def)
  have mem: "(l, ws) \<in> set (f_generic_tags f)" using assms(2) by (rule map_of_SomeD)
  have set: "set (hm_insert l vs (f_generic_tags f)) = insert (l, vs) {lv \<in> set (f_generic_tags f). fst lv \<noteq> l}"
    by (rule hm.set_ins [OF inv])
  have "(\<forall>lv \<in> set (hm_insert l vs (f_generic_tags f)). has_tag_value (ev_tags e) (fst lv) (snd lv)) \<longleftrightarrow>
      has_tag_value (ev_tags e) l vs \<and> (\<forall>lv \<in> set (f_generic_tags f). has_tag_value (ev_tags e) (fst lv) (snd lv))"
    (is "?L \<longleftrightarrow> ?R")
  proof
    assume L: ?L
    have "has_tag_value (ev_tags e) (fst lv) (snd lv)" if "lv \<in> set (f_generic_tags f)" for lv
    proof (cases "fst lv = l")
      case True
      then have "snd lv = ws" using that assms(1,2) by (metis map_of_eq_Some_iff option.inject prod.collapse)
      then show ?thesis using True L set has_tag_value_subset [OF _ assms(3)] by auto
    qed (use L set that in auto)
    then show ?R using L set by auto
  qed (auto simp: set)
  then show ?thesis by (auto simp: filter_selects_def)
qed

text \<open>The keys a filter names, and the outcome of the splitting by cases.\<close>

definition p_values :: "nostr_filter \<Rightarrow> string list option" where
  "p_values f = map_of (f_generic_tags f) (lowercase_tag L_P)"

definition p_keys :: "crates \<Rightarrow> string list \<Rightarrow> public_key set" where
  "p_keys X vs = {pk. \<exists>v \<in> set vs. public_key_parse X v = Inr pk}"

text \<open>Values of the tag constraint that are keys are in their canonical form, as the JSON decoder demands.\<close>

definition p_canonical :: "crates \<Rightarrow> nostr_filter \<Rightarrow> bool" where
  "p_canonical X f \<longleftrightarrow> distinct (map fst (f_generic_tags f)) \<and>
     opt_all (list_all (\<lambda>v. case public_key_parse X v of Inr pk \<Rightarrow> public_key_to_hex X pk = v | Inl _ \<Rightarrow> True)) (p_values f)"

lemma set_p_parse: "set (List.map_filter (\<lambda>v. res_ok (public_key_parse X v)) vs) = p_keys X vs"
proof -
  have "res_ok r = Some pk \<longleftrightarrow> r = Inr pk" for r :: "public_key_error + public_key" and pk
    by (cases r) simp_all
  then show ?thesis by (auto simp: set_map_filter p_keys_def)
qed

lemma p_keys_hex:
  assumes "p_canonical X f" and "p_values f = Some vs" and "pk \<in> p_keys X vs"
  shows "public_key_to_hex X pk \<in> set vs"
  using assms by (auto simp: p_canonical_def p_keys_def list_all_iff split: sum.splits)

lemma break_down_authors:
  assumes "f_authors f = Some authors" and "p_values f = None"
  shows "break_down_filter X U g f =
    (let m = collect_directional U g (to_btree_set authors) (pattern_needs_dm f) Outbox
     in if m = [] then OrphanFilter f else PerRelay (narrow_authors f m))"
  using assms by (simp add: break_down_filter_def Let_def p_values_def)

lemma break_down_p:
  assumes "f_authors f = None" and "p_values f = Some vs"
  shows "break_down_filter X U g f =
    (let m = collect_directional U g (to_btree_set (List.map_filter (\<lambda>v. res_ok (public_key_parse X v)) vs))
         (pattern_needs_dm f) Inbox
     in if m = [] then OrphanFilter f else PerRelay (narrow_p_tags X f m))"
  using assms by (simp add: break_down_filter_def Let_def p_values_def)

lemma set_case_route: "set (case x of Some r \<Rightarrow> f r | None \<Rightarrow> []) = {u. \<exists>r. x = Some r \<and> u \<in> set (f r)}"
  by (cases x) auto

lemma break_down_both:
  assumes "f_authors f = Some authors" and "p_values f = Some vs"
  shows "\<exists>relays. set relays = {url. \<exists>pk \<in> set authors \<union> p_keys X vs. \<exists>r. map_of (g_routes g) pk = Some r \<and>
        url \<in> set (union_relays_of U (g_options g) (pattern_needs_dm f) r)} \<and> distinct relays \<and>
      break_down_filter X U g f = (if relays = [] then OrphanFilter f else PerRelay (map (\<lambda>url. (url, f)) relays))"
proof -
  let ?keys = "foldl (\<lambda>s pk. bs_insert pk s) (to_btree_set authors)
      (to_btree_set (List.map_filter (\<lambda>v. res_ok (public_key_parse X v)) vs))"
  let ?relays = "collect_union_relays U g ?keys (pattern_needs_dm f)"
  have keys: "set ?keys = set authors \<union> p_keys X vs" by (simp add: set_fold_bs_insert set_p_parse)
  have "set ?relays = {url. \<exists>pk \<in> set authors \<union> p_keys X vs. \<exists>r. map_of (g_routes g) pk = Some r \<and>
        url \<in> set (union_relays_of U (g_options g) (pattern_needs_dm f) r)}"
    unfolding keys [symmetric] by (auto simp: collect_union_relays_def set_fold_bs_insert set_case_route)
  moreover have "bs_invar ?relays" by (simp add: collect_union_relays_def bs_invar_fold)
  then have "distinct ?relays" by (simp add: strict_sorted_iff)
  moreover have "break_down_filter X U g f =
      (if ?relays = [] then OrphanFilter f else PerRelay (map (\<lambda>url. (url, f)) ?relays))"
    using assms by (simp add: break_down_filter_def Let_def p_values_def)
  ultimately show ?thesis by blast
qed

lemma union_relays_allowed:
  "url \<in> set (union_relays_of U opts needs_dm r) \<Longrightarrow> is_allowed U (go_allowed opts) url"
  by (auto simp: union_relays_of_def Let_def split: if_splits
      dest: out.select_allowed inb.select_allowed dm.select_allowed)

text \<open>Which relays get a sub-filter, and what it selects.\<close>

lemma per_relay_authors:
  assumes "f_authors f = Some authors" and "p_values f = None" and "break_down_filter X U g f = PerRelay m"
    and "(url, f') \<in> set m"
  obtains pks where "f' = f\<lparr>f_authors := Some pks\<rparr>" and "pks \<noteq> []"
    and "set pks = {pk \<in> set authors. \<exists>r. map_of (g_routes g) pk = Some r \<and>
        url \<in> set (directional_relays U (g_options g) (pattern_needs_dm f) Outbox r)}"
proof -
  let ?m = "collect_directional U g (to_btree_set authors) (pattern_needs_dm f) Outbox"
  have "m = narrow_authors f ?m"
    using assms(3) by (simp add: break_down_authors [OF assms(1,2)] Let_def split: if_splits)
  then obtain pks where pks: "(url, pks) \<in> set ?m" and f': "f' = f\<lparr>f_authors := Some pks\<rparr>"
    using assms(4) by (auto simp: narrow_authors_def)
  note hm_sets_entries [OF collect_directional_sets(1) pks]
  with f' show thesis by (intro that) (simp_all add: collect_directional_sets(2))
qed

lemma per_relay_p:
  assumes "f_authors f = None" and "p_values f = Some vs" and "break_down_filter X U g f = PerRelay m"
    and "(url, f') \<in> set m"
  obtains pks where "f' = f\<lparr>f_generic_tags := hm_insert (lowercase_tag L_P) (map (public_key_to_hex X) pks) (f_generic_tags f)\<rparr>"
    and "pks \<noteq> []"
    and "set pks = {pk \<in> p_keys X vs. \<exists>r. map_of (g_routes g) pk = Some r \<and>
        url \<in> set (directional_relays U (g_options g) (pattern_needs_dm f) Inbox r)}"
proof -
  let ?m = "collect_directional U g (to_btree_set (List.map_filter (\<lambda>v. res_ok (public_key_parse X v)) vs))
      (pattern_needs_dm f) Inbox"
  have "m = narrow_p_tags X f ?m"
    using assms(3) by (simp add: break_down_p [OF assms(1,2)] Let_def split: if_splits)
  then obtain pks where pks: "(url, pks) \<in> set ?m"
    and f': "f' = f\<lparr>f_generic_tags := hm_insert (lowercase_tag L_P) (map (public_key_to_hex X) pks) (f_generic_tags f)\<rparr>"
    using assms(4) by (auto simp: narrow_p_tags_def)
  note hm_sets_entries [OF collect_directional_sets(1) pks]
  with f' show thesis by (intro that) (simp_all add: collect_directional_sets(2) set_p_parse)
qed

lemma break_down_sound:
  assumes "p_canonical X f" and "break_down_filter X U g f = PerRelay m" and "(url, f') \<in> set m"
  shows "is_allowed U (go_allowed (g_options g)) url" and "filter_selects f' e \<Longrightarrow> filter_selects f e"
proof -
  have "is_allowed U (go_allowed (g_options g)) url \<and> (filter_selects f' e \<longrightarrow> filter_selects f e)"
  proof (cases "f_authors f"; cases "p_values f")
    assume "f_authors f = None" and "p_values f = None"
    then show ?thesis using assms(2) by (simp add: break_down_filter_def Let_def p_values_def)
  next
    fix vs
    assume a: "f_authors f = None" "p_values f = Some vs"
    from per_relay_p [OF a assms(2,3)] obtain pks
      where f': "f' = f\<lparr>f_generic_tags := hm_insert (lowercase_tag L_P) (map (public_key_to_hex X) pks) (f_generic_tags f)\<rparr>"
        and pks: "pks \<noteq> []" "set pks = {pk \<in> p_keys X vs. \<exists>r. map_of (g_routes g) pk = Some r \<and>
          url \<in> set (directional_relays U (g_options g) (pattern_needs_dm f) Inbox r)}" .
    have "set (map (public_key_to_hex X) pks) \<subseteq> set vs"
      using pks(2) p_keys_hex [OF assms(1) a(2)] by auto
    then have "filter_selects f' e \<longrightarrow> filter_selects f e"
      using narrow_tag_selects [of f "lowercase_tag L_P" vs "map (public_key_to_hex X) pks" e] assms(1) a(2)
      by (simp add: f' p_canonical_def p_values_def)
    moreover obtain pk where "pk \<in> set pks" using pks(1) by (cases pks) auto
    ultimately show ?thesis using pks(2) directional_allowed by blast
  next
    fix authors
    assume a: "f_authors f = Some authors" "p_values f = None"
    from per_relay_authors [OF a assms(2,3)] obtain pks where f': "f' = f\<lparr>f_authors := Some pks\<rparr>"
      and pks: "pks \<noteq> []" "set pks = {pk \<in> set authors. \<exists>r. map_of (g_routes g) pk = Some r \<and>
        url \<in> set (directional_relays U (g_options g) (pattern_needs_dm f) Outbox r)}" .
    have "filter_selects f' e \<longrightarrow> filter_selects f e"
      using narrow_authors_selects [OF a(1), of pks e] pks(2) by (auto simp: f')
    moreover obtain pk where "pk \<in> set pks" using pks(1) by (cases pks) auto
    ultimately show ?thesis using pks(2) directional_allowed by blast
  next
    fix authors vs
    assume "f_authors f = Some authors" "p_values f = Some vs"
    from break_down_both [OF this, of X g U] obtain relays
      where rel: "set relays = {url. \<exists>pk \<in> set authors \<union> p_keys X vs. \<exists>r. map_of (g_routes g) pk = Some r \<and>
          url \<in> set (union_relays_of U (g_options g) (pattern_needs_dm f) r)}"
        and eq: "break_down_filter X U g f = (if relays = [] then OrphanFilter f else PerRelay (map (\<lambda>url. (url, f)) relays))"
      by blast
    have "f' = f" and "url \<in> set relays" using eq assms(2,3) by (auto split: if_splits)
    then show ?thesis using rel union_relays_allowed by blast
  qed
  then show "is_allowed U (go_allowed (g_options g)) url" and "filter_selects f' e \<Longrightarrow> filter_selects f e" by simp_all
qed

lemma outbox_directional:
  "url \<in> set (outbox_relays U g pk) \<Longrightarrow>
   \<exists>r. map_of (g_routes g) pk = Some r \<and> url \<in> set (directional_relays U (g_options g) needs_dm Outbox r)"
  by (cases "map_of (g_routes g) pk") (auto simp: outbox_relays_def directional_relays_def Let_def)

lemma inbox_directional:
  "url \<in> set (inbox_relays U g pk) \<Longrightarrow>
   \<exists>r. map_of (g_routes g) pk = Some r \<and> url \<in> set (directional_relays U (g_options g) needs_dm Inbox r)"
  by (cases "map_of (g_routes g) pk") (auto simp: inbox_relays_def directional_relays_def Let_def)

text \<open>Every relay a named key is routed to gets a sub-filter for that key.\<close>

lemma covers_authors:
  assumes "f_authors f = Some authors" and "p_values f = None" and "pk \<in> set authors"
    and "url \<in> set (outbox_relays U g pk)"
  obtains m f' where "break_down_filter X U g f = PerRelay m" and "(url, f') \<in> set m"
    and "\<And>e. filter_selects f e \<Longrightarrow> ev_pubkey e = pk \<Longrightarrow> filter_selects f' e"
proof -
  let ?m = "collect_directional U g (to_btree_set authors) (pattern_needs_dm f) Outbox"
  obtain r where "map_of (g_routes g) pk = Some r"
    and "url \<in> set (directional_relays U (g_options g) (pattern_needs_dm f) Outbox r)"
    using outbox_directional [OF assms(4)] by blast
  then have "pk \<in> hm_set ?m url" using assms(3) by (simp add: collect_directional_sets(2))
  then obtain pks where pks: "(url, pks) \<in> set ?m" "pk \<in> set pks"
    by (rule hm_sets_entry_ex [OF collect_directional_sets(1)])
  then have m: "break_down_filter X U g f = PerRelay (narrow_authors f ?m)"
    by (auto simp: break_down_authors [OF assms(1,2)] Let_def)
  have "set pks \<subseteq> set authors"
    using hm_sets_entries(1) [OF collect_directional_sets(1) pks(1)] by (auto simp: collect_directional_sets(2))
  then have "filter_selects (f\<lparr>f_authors := Some pks\<rparr>) e" if "filter_selects f e" "ev_pubkey e = pk" for e
    using that pks(2) by (simp add: narrow_authors_selects [OF assms(1)])
  moreover have "(url, f\<lparr>f_authors := Some pks\<rparr>) \<in> set (narrow_authors f ?m)"
    using pks(1) by (force simp: narrow_authors_def)
  ultimately show thesis using that m by blast
qed

lemma covers_p:
  assumes canon: "p_canonical X f" and "f_authors f = None" and vs: "p_values f = Some vs" and "pk \<in> p_keys X vs"
    and "url \<in> set (inbox_relays U g pk)"
  obtains m f' where "break_down_filter X U g f = PerRelay m" and "(url, f') \<in> set m"
    and "\<And>e. filter_selects f e \<Longrightarrow> has_tag_value (ev_tags e) (lowercase_tag L_P) [public_key_to_hex X pk] \<Longrightarrow>
      filter_selects f' e"
proof -
  let ?m = "collect_directional U g (to_btree_set (List.map_filter (\<lambda>v. res_ok (public_key_parse X v)) vs))
      (pattern_needs_dm f) Inbox"
  obtain r where "map_of (g_routes g) pk = Some r"
    and "url \<in> set (directional_relays U (g_options g) (pattern_needs_dm f) Inbox r)"
    using inbox_directional [OF assms(5)] by blast
  then have "pk \<in> hm_set ?m url" using assms(4) by (simp add: collect_directional_sets(2) set_p_parse)
  then obtain pks where pks: "(url, pks) \<in> set ?m" "pk \<in> set pks"
    by (rule hm_sets_entry_ex [OF collect_directional_sets(1)])
  then have m: "break_down_filter X U g f = PerRelay (narrow_p_tags X f ?m)"
    by (auto simp: break_down_p [OF assms(2,3)] Let_def)
  have "set pks \<subseteq> p_keys X vs"
    using hm_sets_entries(1) [OF collect_directional_sets(1) pks(1)]
    by (auto simp: collect_directional_sets(2) set_p_parse)
  then have sub: "set (map (public_key_to_hex X) pks) \<subseteq> set vs" using p_keys_hex [OF canon vs] by auto
  let ?f = "f\<lparr>f_generic_tags := hm_insert (lowercase_tag L_P) (map (public_key_to_hex X) pks) (f_generic_tags f)\<rparr>"
  have "filter_selects ?f e" if "filter_selects f e"
    and "has_tag_value (ev_tags e) (lowercase_tag L_P) [public_key_to_hex X pk]" for e
    using that pks(2) narrow_tag_selects [OF _ _ sub, of f "lowercase_tag L_P" e] canon vs
      has_tag_value_subset [OF that(2), of "map (public_key_to_hex X) pks"]
    by (simp add: p_canonical_def p_values_def)
  moreover have "(url, ?f) \<in> set (narrow_p_tags X f ?m)" using pks(1) by (force simp: narrow_p_tags_def)
  ultimately show thesis using that m by blast
qed

lemma unrouted_dropped:
  assumes "f_authors f = Some authors" and "p_values f = None" and "break_down_filter X U g f = PerRelay m"
    and "map_of (g_routes g) (ev_pubkey e) = None" and "(url, f') \<in> set m"
  shows "\<not> filter_selects f' e"
proof -
  obtain pks where "f' = f\<lparr>f_authors := Some pks\<rparr>" and "set pks = {pk \<in> set authors. \<exists>r. map_of (g_routes g) pk = Some r \<and>
        url \<in> set (directional_relays U (g_options g) (pattern_needs_dm f) Outbox r)}"
    using per_relay_authors [OF assms(1-3,5)] by blast
  then show ?thesis using assms(4) by (simp add: filter_selects_def)
qed

text \<open>The sub-filters ask for the canonical spelling of keys, whatever the spelling in the filter was.\<close>

lemma other_spelling_dropped:
  assumes "f_authors f = None" and "p_values f = Some vs" and "break_down_filter X U g f = PerRelay m" and "(url, f') \<in> set m"
    and "\<forall>pk\<in>p_keys X vs. \<not> has_tag_value (ev_tags e) (lowercase_tag L_P) [public_key_to_hex X pk]"
  shows "\<not> filter_selects f' e"
proof
  assume sel: "filter_selects f' e"
  obtain pks where f': "f' = f\<lparr>f_generic_tags := hm_insert (lowercase_tag L_P) (map (public_key_to_hex X) pks) (f_generic_tags f)\<rparr>"
    and "pks \<noteq> []" and "set pks = {pk \<in> p_keys X vs. \<exists>r. map_of (g_routes g) pk = Some r \<and>
      url \<in> set (directional_relays U (g_options g) (pattern_needs_dm f) Inbox r)}"
    by (rule per_relay_p [OF assms(1-4)])
  then have pks: "set pks \<subseteq> p_keys X vs" by simp
  have "map_of (f_generic_tags f') (lowercase_tag L_P) = Some (map (public_key_to_hex X) pks)"
    by (simp add: f' hm_insert_def update_conv')
  then have "(lowercase_tag L_P, map (public_key_to_hex X) pks) \<in> set (f_generic_tags f')" by (rule map_of_SomeD)
  then have "has_tag_value (ev_tags e) (lowercase_tag L_P) (map (public_key_to_hex X) pks)"
    using sel by (auto simp: filter_selects_def dest: bspec)
  then obtain t pk where "t \<in> set (ev_tags e)" "pk \<in> set pks" "tag_name t = slt_to_string (lowercase_tag L_P)"
    "tag_content t = Some (public_key_to_hex X pk)" by (auto simp: has_tag_value_def)
  moreover from this(2) have "pk \<in> p_keys X vs" using pks by blast
  ultimately show False using assms(5) unfolding has_tag_value_def by (metis list.set_intros(1))
qed

section \<open>Targets of an event\<close>

lemma fold_route_union:
  "set (foldl (\<lambda>out pk. case routes pk of Some r \<Rightarrow> extend_new out (sel r) | None \<Rightarrow> out) out pks) =
     set out \<union> (\<Union>pk \<in> set pks. set (case routes pk of Some r \<Rightarrow> sel r | None \<Rightarrow> []))"
proof (induction pks arbitrary: out)
  case (Cons pk pks)
  show ?case by (cases "routes pk") (auto simp: Cons)
qed simp

text \<open>Where an event belongs.\<close>

definition event_targets :: "crates \<Rightarrow> url_crate \<Rightarrow> 's gossip \<Rightarrow> event \<Rightarrow> relay_url set" where
  "event_targets X U g e =
     (let recipients = set (tags_public_keys X (ev_tags e)) in
      if ev_kind e = GIFT_WRAP then (\<Union>pk \<in> recipients. set (gossip_dm_relays U g pk))
      else set (outbox_relays U g (ev_pubkey e)) \<union>
        (if ev_kind e = CONTACTS then {} else (\<Union>pk \<in> recipients. set (inbox_relays U g pk))))"

lemma break_down_event_targets:
  "case break_down_event X U g e of
     Relays rs \<Rightarrow> rs \<noteq> [] \<and> set rs = event_targets X U g e
   | OrphanEvent private \<Rightarrow> (private \<longleftrightarrow> ev_kind e = GIFT_WRAP) \<and> event_targets X U g e = {}"
proof -
  let ?rec = "to_btree_set (tags_public_keys X (ev_tags e))"
  let ?L = "limits_from_gossip (go_limits (g_options g))" and ?p = "go_allowed (g_options g)"
  note dm_union = fold_route_union [where routes = "map_of (g_routes g)" and pks = ?rec
      and sel = "\<lambda>r. dm_relays U r (gl_dm (go_limits (g_options g))) ?p"]
    and in_union = fold_route_union [where routes = "map_of (g_routes g)" and pks = ?rec and sel = "\<lambda>r. inbox U r ?L ?p"]
  have views: "gossip_dm_relays U g pk = (case map_of (g_routes g) pk of
        Some r \<Rightarrow> dm_relays U r (gl_dm (go_limits (g_options g))) ?p | None \<Rightarrow> [])"
      "inbox_relays U g pk = (case map_of (g_routes g) pk of Some r \<Rightarrow> inbox U r ?L ?p | None \<Rightarrow> [])"
      "outbox_relays U g pk = (case map_of (g_routes g) pk of None \<Rightarrow> [] | Some r \<Rightarrow> outbox U r ?L ?p)" for pk
    by (simp_all add: gossip_dm_relays_def inbox_relays_def outbox_relays_def split: option.splits)
  show ?thesis
  proof (cases "ev_kind e = GIFT_WRAP")
    case True
    then show ?thesis using dm_union [of "[]"]
      by (auto simp: break_down_event_def Let_def event_targets_def views simp flip: set_empty)
  next
    case False
    then show ?thesis using in_union [of "outbox_relays U g (ev_pubkey e)"]
      by (auto simp: break_down_event_def Let_def event_targets_def views simp flip: set_empty)
  qed
qed

end
