(* ===== verification/Gossip_Ingest.thy ===== *)
theory Gossip_Ingest
  imports Gossip_Lemmas
begin

text \<open>
  What the router knows after a sequence of events: the newest lists and saturating histograms, per user, in
  terms of the events that were ingested.
\<close>

section \<open>Histograms\<close>

definition hist_count :: "histogram \<Rightarrow> relay_url \<Rightarrow> nat" where
  "hist_count m u = (case map_of m u of None \<Rightarrow> 0 | Some n \<Rightarrow> unat n)"

abbreviation u32_max :: nat where "u32_max \<equiv> 4294967295"

lemma hist_count_le: "hist_count m u \<le> u32_max"
proof (cases "map_of m u")
  case (Some n)
  have "unat n < 2 ^ LENGTH(32)" by (rule unsigned_less)
  then show ?thesis using Some by (simp add: hist_count_def)
qed (simp add: hist_count_def)

lemma bt_invar_bump: "bt_invar m \<Longrightarrow> bt_invar (bump m r)"
  by (simp add: bump_def Let_def bt_invar_insert split: option.splits)

lemma map_of_bump_other: "bt_invar m \<Longrightarrow> u \<noteq> r \<Longrightarrow> map_of (bump m r) u = map_of m u"
  by (simp add: bump_def Let_def bt.lookup_ins split: option.splits)

lemma hist_count_bump:
  assumes "bt_invar m"
  shows "hist_count (bump m r) u = min u32_max (hist_count m u + (if u = r then 1 else 0))"
proof (cases "u = r")
  case True
  show ?thesis
  proof (cases "map_of m r")
    case None
    then show ?thesis using True assms by (simp add: bump_def hist_count_def bt.lookup_ins)
  next
    case (Some n)
    have sat: "unat (saturating_add n 1) = min u32_max (unat n + 1)"
      by (simp add: unat_saturating_add)
    then have "saturating_add n 1 \<noteq> 0" by (metis unat_0 min_def add_is_0 zero_neq_numeral zero_neq_one)
    then show ?thesis using True Some sat assms by (simp add: bump_def hist_count_def Let_def bt.lookup_ins)
  qed
next
  case False
  then show ?thesis using map_of_bump_other [OF assms False] hist_count_le [of m u]
    by (simp add: hist_count_def)
qed

lemma foldl_bump:
  "bt_invar m \<Longrightarrow> bt_invar (foldl bump m us) \<and>
   hist_count (foldl bump m us) u = min u32_max (hist_count m u + count_list us u)"
proof (induction us arbitrary: m)
  case Nil
  then show ?case using hist_count_le [of m u] by simp
next
  case (Cons x us)
  show ?case
    using Cons.IH [OF bt_invar_bump [OF Cons.prems, of x]] hist_count_bump [OF Cons.prems, of x u]
    by (auto simp: min_def)
qed

section \<open>One entry\<close>

definition hint_url :: "url_crate \<Rightarrow> allowed_relays \<Rightarrow> tag \<Rightarrow> relay_url option" where
  "hint_url U allowed t =
     (if tag_head t \<noteq> SingleLetter (lowercase_tag L_R) then None
      else Option.bind (tag_content t) (\<lambda>v. Option.bind (res_ok (relay_url_parse U v)) (\<lambda>url.
        if is_allowed U allowed url then Some url else None)))"

definition hint_urls :: "url_crate \<Rightarrow> allowed_relays \<Rightarrow> event \<Rightarrow> relay_url list" where
  "hint_urls U allowed e =
     (if ev_kind e = RELAY_LIST \<or> ev_kind e = DM_RELAYS then []
      else List.map_filter (hint_url U allowed) (ev_tags e))"

definition source_urls :: "url_crate \<Rightarrow> allowed_relays \<Rightarrow> relay_url option \<Rightarrow> relay_url list" where
  "source_urls U allowed src = (case src of Some r \<Rightarrow> if is_allowed U allowed r then [r] else [] | None \<Rightarrow> [])"

lemma harvest_tag_eq:
  "harvest_tag U allowed r t = (case hint_url U allowed t of Some url \<Rightarrow> bump_hint url r | None \<Rightarrow> r)"
  by (simp add: harvest_tag_def hint_url_def split: option.splits sum.splits)

lemma harvest_fold:
  "foldl (harvest_tag U allowed) r ts = r\<lparr>ur_hints := foldl bump (ur_hints r) (List.map_filter (hint_url U allowed) ts)\<rparr>"
  by (induction ts arbitrary: r) (simp_all add: harvest_tag_eq bump_hint_def List.map_filter_def split: option.splits)

lemma harvest_eq:
  "harvest_relay_hints U e r allowed =
     r\<lparr>ur_hints := foldl bump (ur_hints r) (List.map_filter (hint_url U allowed) (ev_tags e))\<rparr>"
  by (simp add: harvest_relay_hints_def harvest_fold)

text \<open>A list of a user: what an event of the kind parses to.\<close>

definition list65 :: "url_crate \<Rightarrow> event \<Rightarrow> relay_list option" where
  "list65 U e = (if ev_kind e = RELAY_LIST then res_ok (relay_list_from_event U e) else None)"

definition list17 :: "url_crate \<Rightarrow> allowed_relays \<Rightarrow> event \<Rightarrow> relay_url list option" where
  "list17 U allowed e =
     (if ev_kind e = DM_RELAYS then map_option (filter (is_allowed U allowed)) (res_ok (parse_dm_relays_event U e)) else None)"

lemma kinds_differ [simp]: "RELAY_LIST \<noteq> DM_RELAYS" "DM_RELAYS \<noteq> RELAY_LIST"
  by (simp_all add: RELAY_LIST_def DM_RELAYS_def)

lemma process_entry_fields:
  "ur_hints (process_entry U a e src r) = foldl bump (ur_hints r) (hint_urls U a e)"
  "ur_most_received (process_entry U a e src r) = foldl bump (ur_most_received r) (source_urls U a src)"
  "(ur_nip65 (process_entry U a e src r), ur_nip65_event_at (process_entry U a e src r)) =
     (case list65 U e of
        Some l \<Rightarrow> if newer (ur_nip65_event_at r) (ev_created_at e) then (Some l, Some (ev_created_at e))
                 else (ur_nip65 r, ur_nip65_event_at r)
      | None \<Rightarrow> (ur_nip65 r, ur_nip65_event_at r))"
  "(ur_nip17 (process_entry U a e src r), ur_nip17_event_at (process_entry U a e src r)) =
     (case list17 U a e of
        Some l \<Rightarrow> if newer (ur_nip17_event_at r) (ev_created_at e) then (l, Some (ev_created_at e))
                 else (ur_nip17 r, ur_nip17_event_at r)
      | None \<Rightarrow> (ur_nip17 r, ur_nip17_event_at r))"
  by (auto simp: process_entry_def Let_def source_urls_def bump_most_received_def hint_urls_def list65_def list17_def
      apply_event_to_entry_def harvest_eq split: option.splits sum.splits)

section \<open>Sequences of events\<close>

text \<open>The value kept for a user is the one of a newest event that has one.\<close>

definition newest_kept :: "(event \<Rightarrow> 'a option) \<Rightarrow> event set \<Rightarrow> 'a option \<Rightarrow> timestamp option \<Rightarrow> bool" where
  "newest_kept parse E v seen \<longleftrightarrow>
     (case seen of
        None \<Rightarrow> v = None \<and> (\<forall>e \<in> E. parse e = None)
      | Some t \<Rightarrow> v \<noteq> None \<and> (\<exists>e \<in> E. parse e = v \<and> ev_created_at e = t) \<and>
          (\<forall>e \<in> E. parse e \<noteq> None \<longrightarrow> ev_created_at e \<le> t))"

lemma newest_kept_step:
  assumes "newest_kept parse E v seen"
  shows "newest_kept parse (insert e E)
    (if parse e \<noteq> None \<and> newer seen (ev_created_at e) then parse e else v)
    (if parse e \<noteq> None \<and> newer seen (ev_created_at e) then Some (ev_created_at e) else seen)"
  using assms by (auto simp: newest_kept_def newer_def split: option.splits)

definition ingest :: "url_crate \<Rightarrow> allowed_relays \<Rightarrow> (event \<times> relay_url option) list \<Rightarrow> user_routes" where
  "ingest U a xs = foldl (\<lambda>r x. process_entry U a (fst x) (snd x) r) routes_default xs"

lemma ingest_snoc: "ingest U a (xs @ [x]) = process_entry U a (fst x) (snd x) (ingest U a xs)"
  by (simp add: ingest_def)

lemma ingest_histograms:
  "ur_hints (ingest U a xs) = foldl bump [] (concat (map (\<lambda>x. hint_urls U a (fst x)) xs))"
  "ur_most_received (ingest U a xs) = foldl bump [] (concat (map (\<lambda>x. source_urls U a (snd x)) xs))"
proof (induction xs rule: rev_induct)
  case Nil
  { case 1 show ?case by (simp add: ingest_def routes_default_def) }
  { case 2 show ?case by (simp add: ingest_def routes_default_def) }
next
  case (snoc x xs)
  { case 1 show ?case using snoc(1) by (simp add: ingest_snoc process_entry_fields) }
  { case 2 show ?case using snoc(2) by (simp add: ingest_snoc process_entry_fields) }
qed

lemma ingest_lists:
  "newest_kept (list65 U) (fst ` set xs) (ur_nip65 (ingest U a xs)) (ur_nip65_event_at (ingest U a xs))"
  "newest_kept (list17 U a) (fst ` set xs)
     (if ur_nip17_event_at (ingest U a xs) = None then None else Some (ur_nip17 (ingest U a xs)))
     (ur_nip17_event_at (ingest U a xs))"
proof (induction xs rule: rev_induct)
  case Nil
  { case 1 show ?case by (simp add: ingest_def routes_default_def newest_kept_def) }
  { case 2 show ?case by (simp add: ingest_def routes_default_def newest_kept_def) }
next
  case (snoc x xs)
  { case 1 show ?case
      using newest_kept_step [OF snoc(1), of "fst x"] process_entry_fields(3) [of U a "fst x" "snd x" "ingest U a xs"]
      by (auto simp: ingest_snoc split: option.splits if_splits) }
  { case 2 show ?case
      using newest_kept_step [OF snoc(2), of "fst x"] process_entry_fields(4) [of U a "fst x" "snd x" "ingest U a xs"]
      by (auto simp: ingest_snoc split: option.splits if_splits) }
qed

fun gossip_run :: "url_crate \<Rightarrow> 's database \<Rightarrow> (event \<times> relay_url option) list \<Rightarrow> 's gossip \<Rightarrow> 's gossip" where
  "gossip_run U D [] g = g"
| "gossip_run U D (x # xs) g = gossip_run U D xs (gossip_process U D (fst x) (snd x) g)"

lemma gossip_run_append: "gossip_run U D (xs @ ys) g = gossip_run U D ys (gossip_run U D xs g)"
  by (induction xs arbitrary: g) simp_all

lemma gossip_process_fields:
  "g_options (gossip_process U D e src g) = g_options g"
  "g_routes (gossip_process U D e src g) =
     hm_entry routes_default (ev_pubkey e) (process_entry U (go_allowed (g_options g)) e src) (g_routes g)"
  "g_db (gossip_process U D e src g) =
     (if ev_kind e = RELAY_LIST \<or> ev_kind e = DM_RELAYS then fst (db_save_event D e (g_db g)) else g_db g)"
  by (simp_all add: gossip_process_def Let_def)

definition of_user :: "public_key \<Rightarrow> (event \<times> relay_url option) list \<Rightarrow> (event \<times> relay_url option) list" where
  "of_user pk xs = filter (\<lambda>x. ev_pubkey (fst x) = pk) xs"

lemma gossip_run_routes:
  assumes "g_routes g = []"
  shows "g_options (gossip_run U D xs g) = g_options g \<and> hm_invar (g_routes (gossip_run U D xs g)) \<and>
    map_of (g_routes (gossip_run U D xs g)) pk =
      (if of_user pk xs = [] then None else Some (ingest U (go_allowed (g_options g)) (of_user pk xs)))"
proof (induction xs rule: rev_induct)
  case Nil
  then show ?case using assms by (simp add: of_user_def hm.invar_empty)
next
  case (snoc x xs)
  then show ?case
    by (auto simp: gossip_run_append gossip_process_fields hm_entry_def hm.invar_ins hm.lookup_ins of_user_def
        ingest_snoc ingest_def)
qed

lemma gossip_run_db:
  "g_db (gossip_run U D xs g) = foldl (\<lambda>s e. fst (db_save_event D e s)) (g_db g)
     (filter (\<lambda>e. ev_kind e = RELAY_LIST \<or> ev_kind e = DM_RELAYS) (map fst xs))"
  by (induction xs arbitrary: g) (simp_all add: gossip_process_fields)

section \<open>Fetching\<close>

lemma newest_loop_event:
  "newest_loop user k stream newest = Some e \<Longrightarrow>
   newest = Some e \<or> (\<exists>u. (u, Inr e) \<in> set stream) \<and> ev_kind e = list_event_kind k \<and> ev_pubkey e = user"
  by (induction user k stream newest rule: newest_loop.induct) (auto split: if_splits)

lemma newest_loop_max:
  "newest_loop user k stream newest = r \<Longrightarrow>
   (\<forall>n. newest = Some n \<longrightarrow> (\<exists>e. r = Some e \<and> ev_created_at n \<le> ev_created_at e)) \<and>
   (\<forall>u x. (u, Inr x) \<in> set stream \<and> ev_kind x = list_event_kind k \<and> ev_pubkey x = user \<longrightarrow>
      (\<exists>e. r = Some e \<and> ev_created_at x \<le> ev_created_at e))"
proof (induction user k stream newest rule: newest_loop.induct)
  case (3 user k u x rest newest)
  then show ?case by (auto simp: newer_def split: if_splits option.splits)
qed auto

lemma process_entry_fetched:
  "list_fetched_at (process_entry U a e src r) k = list_fetched_at r k"
  by (auto simp: process_entry_def Let_def list_fetched_at_def bump_most_received_def apply_event_to_entry_def harvest_eq
      split: option.splits sum.splits list_kind.splits)

lemma set_fetched_at_self: "list_fetched_at (set_fetched_at k now r) k = Some now"
  by (cases k) (simp_all add: list_fetched_at_def set_fetched_at_def)

text \<open>An attempt is remembered whatever came of it.\<close>

lemma refresh_remembers:
  assumes "discovery \<noteq> []" and "allowed_to_fetch g (Some now) user k" and "hm_invar (g_routes g)"
    and "gossip_refresh U D pool (Some now) user k discovery g = (g1, res)"
  shows "g_options g1 = g_options g \<and> (\<exists>r. map_of (g_routes g1) user = Some r \<and> list_fetched_at r k = Some now)"
proof -
  let ?g = "g\<lparr>g_routes := hm_entry routes_default user (set_fetched_at k now) (g_routes g)\<rparr>"
  obtain r where r: "map_of (g_routes ?g) user = Some r" "list_fetched_at r k = Some now"
    using assms(3) by (simp add: hm_entry_def hm.lookup_ins set_fetched_at_self)
  have inv: "hm_invar (hm_entry routes_default user (set_fetched_at k now) (g_routes g))"
    using assms(3) by (simp add: hm_entry_def hm.invar_ins)
  have "g1 = ?g \<or> (\<exists>e. g1 = gossip_process U D e None ?g)"
    using assms(1,2,4) by (auto simp: gossip_refresh_def Let_def split: sum.splits option.splits)
  then show ?thesis
  proof
    assume "\<exists>e. g1 = gossip_process U D e None ?g"
    then obtain e where g1: "g1 = gossip_process U D e None ?g" ..
    show ?thesis
      using r by (auto simp: g1 gossip_process_fields hm_entry_def [of _ "ev_pubkey e"] hm.lookup_ins [OF inv]
          process_entry_fetched)
  qed (use r in simp)
qed

end
