(* ===== verification/Gossip_Theorems.thy ===== *)
theory Gossip_Theorems
  imports Gossip_Ingest Relay_Theorems Codec_Theorems
begin

text \<open>
  The properties of the router: which relays it may pick, where events and filters are sent, what it knows
  after a sequence of events, and when it fetches a list again.
\<close>

section \<open>Relay lists\<close>

text \<open>A published relay list is read back: the kind-10002 event a user signs for a list of relays, whose
  URLs are in normal form, parses to the same list with the same markers, and the kind-10050 event for
  message relays parses to the same relays in the same order.\<close>

theorem relay_lists_round_trip:
  assumes "schnorr_laws X" and "bt_invar l" and "list_all (\<lambda>entry. relay_url_parse U (fst entry) = Inr (fst entry)) l"
    and "list_all (\<lambda>r. relay_url_parse U r = Inr r) rs"
  shows "\<exists>e1 e2. builder_sign_with_keys X (Some now) (relay_list_to_event_builder l) (keys_from_secret_key X sk) = Inr e1 \<and>
    builder_sign_with_keys X (Some now) (build_dm_relays_event rs) (keys_from_secret_key X sk) = Inr e2 \<and>
    relay_list_from_event U e1 = Inr l \<and> parse_dm_relays_event U e2 = Inr rs"
proof -
  obtain e1 where e1: "builder_sign_with_keys X (Some now) (relay_list_to_event_builder l) (keys_from_secret_key X sk) = Inr e1"
    by (rule builder_sign_total [where b = "relay_list_to_event_builder l" and clock = "Some now"]) auto
  obtain e2 where e2: "builder_sign_with_keys X (Some now) (build_dm_relays_event rs) (keys_from_secret_key X sk) = Inr e2"
    by (rule builder_sign_total [where b = "build_dm_relays_event rs" and clock = "Some now"]) auto
  note f1 = builder_sign_fields [OF e1 assms(1)] and f2 = builder_sign_fields [OF e2 assms(1)]
  have "ev_kind e1 = RELAY_LIST" "ev_tags e1 = relay_list_to_tags l"
    using f1 by (simp_all add: relay_list_to_event_builder_def builder_tags_def builder_new_def tags_extend_def
        erase_indexes_def tags_new_def Let_def)
  moreover have "ev_kind e2 = DM_RELAYS" "ev_tags e2 = map (\<lambda>url. tag_with (tag_kind_from_wire ''relay'') [url]) rs"
    using f2 by (simp_all add: build_dm_relays_event_def builder_tags_def builder_new_def tags_extend_def
        erase_indexes_def tags_new_def Let_def)
  ultimately have "relay_list_from_event U e1 = Inr l \<and> parse_dm_relays_event U e2 = Inr rs"
    using relay_list_loop_tags [of "[]" l U] dm_relays_loop_tags [OF assms(4), of "[]"] assms(2,3)
    by (simp add: relay_list_from_event_def parse_dm_relays_event_def list_all_iff)
  with e1 e2 show ?thesis by blast
qed

theorem relay_lists_round_trip_witness:
  "\<exists>e1 e2. builder_sign_with_keys sample_crates (Some 500) (relay_list_to_event_builder [(''ws://a'', Read), (''ws://b'', ReadWrite)])
       (keys_from_secret_key sample_crates sample_pk) = Inr e1 \<and>
     relay_list_from_event sample_url e1 = Inr [(''ws://a'', Read), (''ws://b'', ReadWrite)] \<and>
     parse_dm_relays_event sample_url e2 = Inr [''ws://d'']"
proof -
  have "bt_invar [(''ws://a'', Read), (''ws://b'', ReadWrite)]" by code_simp
  moreover have "relay_url_parse sample_url s = Inr s" for s by (simp add: relay_url_parse_def sample_url_def)
  ultimately show ?thesis
    using relay_lists_round_trip [OF sample_schnorr_laws, of "[(''ws://a'', Read), (''ws://b'', ReadWrite)]" sample_url
        "[''ws://d'']" 500 sample_pk] by auto
qed

section \<open>Selection\<close>

text \<open>A selection is bounded, allowed and justified: the outbox, inbox and message relays of a user have no
  duplicates and no more relays than the configured limits add up to, every one of them passes the
  address policy, and each is in the user's list with the right marker or in a histogram (the message
  relays: in the user's kind-10050 list); of a histogram the relays with the most events are taken.\<close>

theorem gossip_selection:
  assumes "limits_positive g"
  shows "let L = limits_from_gossip g; h = unat (gl_hint g) + unat (gl_most_received g);
      ok = (\<lambda>urls n. distinct urls \<and> length urls \<le> n \<and> list_all (is_allowed U p) urls) in
    ok (outbox U r L p) (unat (gl_write g) + h) \<and> ok (inbox U r L p) (unat (gl_read g) + h) \<and>
    ok (dm_relays U r (gl_dm g) p) (unat (gl_dm g)) \<and>
    (\<forall>url \<in> set (outbox U r L p). marked_in is_write r url \<or> counted_in r url) \<and>
    (\<forall>url \<in> set (inbox U r L p). marked_in is_read r url \<or> counted_in r url) \<and>
    set (dm_relays U r (gl_dm g) p) \<subseteq> set (ur_nip17 r) \<and>
    (\<forall>k. \<forall>a \<in> set (take k (rank (ur_hints r))). \<forall>b \<in> set (ur_hints r) - set (take k (rank (ur_hints r))). snd b \<le> snd a)"
proof -
  have pos: "max (Suc 0) (unat (gl_write g)) = unat (gl_write g)" "max (Suc 0) (unat (gl_read g)) = unat (gl_read g)"
    using assms by (simp_all add: limits_positive_def max_def unat_gt_0 Suc_le_eq)
  have "(\<lambda>m. is_read m \<or> m = ReadWrite) = is_read" by (auto simp: is_read_def)
  then show ?thesis
    using out.select_length [where U = U and g = g and p = p and r = r] inb.select_length [where U = U and g = g and p = p and r = r] out.select_distinct [where U = U and g = g and p = p and r = r]
      inb.select_distinct [where U = U and g = g and p = p and r = r] dm.select_length [where U = U and n = "gl_dm g" and p = p and r = r] dm.select_distinct [where U = U and n = "gl_dm g" and p = p and r = r]
      out.select_allowed [where U = U and g = g and p = p and r = r] inb.select_allowed [where U = U and g = g and p = p and r = r] dm.select_allowed [where U = U and n = "gl_dm g" and p = p and r = r]
      out.select_reason [where U = U and g = g and p = p and r = r] inb.select_reason [where U = U and g = g and p = p and r = r] dm.select_reason [where U = U and n = "gl_dm g" and p = p and r = r]
      rank_top [where h = "ur_hints r"]
    by (simp add: Let_def pos list_all_iff add.assoc subset_iff)
qed

definition sample_routes :: user_routes where
  "sample_routes = routes_default\<lparr>ur_nip65 := Some [(''ws://a'', Write), (''ws://b'', Read)],
     ur_nip17 := [''ws://d''], ur_hints := [(''ws://h'', 1), (''ws://i'', 5)]\<rparr>"

lemma permissive_allows [simp]: "is_allowed U permissive url"
  by (simp add: is_allowed_def permissive_def)

lemma sample_outbox:
  "outbox sample_url sample_routes (limits_from_gossip limits_default) permissive = [''ws://a'', ''ws://i'', ''ws://h'']"
proof -
  have "rank (ur_hints sample_routes) = [(''ws://i'', 5), (''ws://h'', 1)]"
    by (simp add: rank_def sample_routes_def routes_default_def rank_before_def)
  then show ?thesis
    by (simp add: outbox_def limits_from_gossip_def limits_default_def Let_def apply_policy_def
        extend_from_histogram_def extend_new_def push_new_def is_write_def)
      (simp add: sample_routes_def routes_default_def is_write_def push_new_def)
qed

theorem gossip_selection_witness:
  "outbox sample_url sample_routes (limits_from_gossip limits_default) permissive = [''ws://a'', ''ws://i'', ''ws://h''] \<and>
   length (outbox sample_url sample_routes (limits_from_gossip limits_default) permissive) \<le> 7"
proof -
  have "limits_positive limits_default" by (simp add: limits_positive_def limits_default_def)
  from gossip_selection [OF this, where U = sample_url and r = sample_routes and p = permissive] sample_outbox
  show ?thesis by (simp add: Let_def limits_default_def)
qed

text \<open>Local addresses: a host that is a dotted IPv4 address is local exactly when it is in
  127.0.0.0/8, 10.0.0.0/8, 172.16.0.0/12 or 192.168.0.0/16; \<open>localhost\<close> is local; a host in brackets,
  which is how a URL renders every IPv6 address, is never recognised as local, so the policy that
  forbids local relays admits it.\<close>

theorem gossip_local_hosts:
  "(\<forall>a b c d. a \<le> 255 \<and> b \<le> 255 \<and> c \<le> 255 \<and> d \<le> 255 \<and> relay_host U url = dotted a b c d \<longrightarrow>
      (is_local_addr U url \<longleftrightarrow> a = 127 \<or> a = 10 \<or> a = 172 \<and> 16 \<le> b \<and> b \<le> 31 \<or> a = 192 \<and> b = 168)) \<and>
   (relay_host U url = ''localhost'' \<longrightarrow> is_local_addr U url) \<and>
   (\<forall>h. relay_host U url = CHR ''['' # h \<longrightarrow> \<not> is_local_addr U url \<and>
      is_allowed U allowed_default url)"
proof (intro conjI allI impI)
  fix a b c d
  assume "a \<le> 255 \<and> b \<le> 255 \<and> c \<le> 255 \<and> d \<le> 255 \<and> relay_host U url = dotted a b c d"
  then show "is_local_addr U url \<longleftrightarrow> a = 127 \<or> a = 10 \<or> a = 172 \<and> 16 \<le> b \<and> b \<le> 31 \<or> a = 192 \<and> b = 168"
    using dotted_local by blast
next
  assume "relay_host U url = ''localhost''"
  then show "is_local_addr U url" by (simp add: is_local_addr_def)
next
  fix h
  assume "relay_host U url = CHR ''['' # h"
  then show "\<not> is_local_addr U url" by (rule bracketed_not_local)
  then show "is_allowed U allowed_default url" by (simp add: is_allowed_def allowed_default_def)
qed

theorem gossip_local_hosts_witness:
  "is_local_addr sample_url (dotted 192 168 0 1) \<and> \<not> is_local_addr sample_url ''[::1]''"
proof -
  have host: "relay_host sample_url u = u" for u by (simp add: relay_host_def sample_url_def)
  have "is_local_addr sample_url (dotted 192 168 0 1)"
    using gossip_local_hosts [of sample_url "dotted 192 168 0 1", THEN conjunct1, rule_format, of 192 168 0 1]
    by (simp add: host)
  moreover have "\<not> is_local_addr sample_url ''[::1]''"
    using gossip_local_hosts [of sample_url "''[::1]''"] host [of "''[::1]''"] by auto
  ultimately show ?thesis by simp
qed

section \<open>Routing\<close>

text \<open>Splitting a filter never widens it and never leaves the policy: every relay that gets a sub-filter is
  allowed, and an event the sub-filter selects is selected by the filter the caller gave; what is not
  split is handed back unchanged, as generic when it names no key, as orphan otherwise.\<close>

theorem gossip_filter_sound:
  assumes "p_canonical X f"
  shows "case break_down_filter X U g f of
      PerRelay m \<Rightarrow> m \<noteq> [] \<and> (\<forall>url f'. (url, f') \<in> set m \<longrightarrow>
        is_allowed U (go_allowed (g_options g)) url \<and> (\<forall>e. filter_selects f' e \<longrightarrow> filter_selects f e))
    | OrphanFilter f' \<Rightarrow> f' = f \<and> (f_authors f \<noteq> None \<or> p_values f \<noteq> None)
    | GenericFilter f' \<Rightarrow> f' = f \<and> f_authors f = None \<and> p_values f = None"
proof (cases "break_down_filter X U g f")
  case (PerRelay m)
  then have "m \<noteq> []"
    by (auto simp: break_down_filter_def Let_def narrow_authors_def narrow_p_tags_def split: option.splits if_splits)
  with PerRelay break_down_sound [OF assms PerRelay] show ?thesis by auto
next
  case (OrphanFilter f')
  then show ?thesis
    by (auto simp: break_down_filter_def Let_def p_values_def split: option.splits if_splits)
next
  case (GenericFilter f')
  then show ?thesis
    by (auto simp: break_down_filter_def Let_def p_values_def split: option.splits if_splits)
qed

definition sample_gossip :: "unit gossip" where
  "sample_gossip = \<lparr>g_options = gossip_options_default\<lparr>go_allowed := permissive\<rparr>, g_db = (),
     g_routes = [(sample_pk, sample_routes)]\<rparr>"

definition sample_author_filter :: nostr_filter where
  "sample_author_filter = filter_author sample_pk filter_new"

lemma sample_filter_fields:
  "f_authors sample_author_filter = Some [sample_pk]" "p_values sample_author_filter = None"
  "\<not> pattern_needs_dm sample_author_filter"
  by (simp_all add: sample_author_filter_def filter_author_def filter_new_def p_values_def get_or_empty_def push_new_def
      pattern_needs_dm_def)

lemma sample_p_canonical: "p_canonical X sample_author_filter"
  by (simp add: p_canonical_def sample_filter_fields)
    (simp add: sample_author_filter_def filter_author_def filter_new_def)

lemma sample_collected:
  "collect_directional sample_url sample_gossip (to_btree_set [sample_pk]) False Outbox =
     [(''ws://a'', [sample_pk]), (''ws://i'', [sample_pk]), (''ws://h'', [sample_pk])]"
proof -
  have "directional_relays sample_url (g_options sample_gossip) False Outbox sample_routes =
      [''ws://a'', ''ws://i'', ''ws://h'']"
    using sample_outbox by (simp add: directional_relays_def sample_gossip_def gossip_options_default_def Let_def)
  then show ?thesis
    by (simp add: collect_directional_def to_btree_set_def List.map_filter_def add_relays_def hm_entry_def hm_insert_def
        Let_def) (simp add: sample_gossip_def add_relays_def hm_entry_def hm_insert_def)
qed

theorem gossip_filter_sound_witness:
  "\<exists>m. break_down_filter sample_crates sample_url sample_gossip sample_author_filter = PerRelay m \<and> m \<noteq> [] \<and>
     map fst m = [''ws://a'', ''ws://i'', ''ws://h'']"
proof -
  have "break_down_filter sample_crates sample_url sample_gossip sample_author_filter =
      PerRelay (narrow_authors sample_author_filter
        [(''ws://a'', [sample_pk]), (''ws://i'', [sample_pk]), (''ws://h'', [sample_pk])])"
    using sample_filter_fields by (simp add: break_down_authors Let_def sample_collected)
  with gossip_filter_sound [OF sample_p_canonical, where X = sample_crates and U = sample_url and g = sample_gossip]
  show ?thesis by (simp add: narrow_authors_def)
qed

text \<open>C35. What the split of a filter covers. An event a filter by authors selects is selected by the sub-filter of
  every outbox relay of its author. For a filter by \<open>#p\<close> whose keys are in the canonical form, 64 lowercase hex digits (the JSON decoder and
  the typed builders give no other, \<open>custom_tag\<close> takes any string), an event it selects that names a key it asks for in that form is selected by
  the sub-filter of every inbox relay of the key. An author without routes is dropped: once another author has a route, no sub-filter selects
  any event of the author without one. An event that names the keys in other spellings only, such as uppercase digits, is dropped too: no sub-filter
  selects it, even where the filter asked for just that spelling.\<close>

theorem gossip_filter_coverage:
  assumes "filter_selects f e"
  shows "(\<forall>authors url. f_authors f = Some authors \<and> p_values f = None \<and> url \<in> set (outbox_relays U g (ev_pubkey e)) \<longrightarrow>
      (\<exists>m f'. break_down_filter X U g f = PerRelay m \<and> (url, f') \<in> set m \<and> filter_selects f' e)) \<and>
    (\<forall>vs pk url. p_canonical X f \<and> f_authors f = None \<and> p_values f = Some vs \<and> pk \<in> p_keys X vs \<and>
      has_tag_value (ev_tags e) (lowercase_tag L_P) [public_key_to_hex X pk] \<and> url \<in> set (inbox_relays U g pk) \<longrightarrow>
      (\<exists>m f'. break_down_filter X U g f = PerRelay m \<and> (url, f') \<in> set m \<and> filter_selects f' e)) \<and>
    (\<forall>authors m. f_authors f = Some authors \<and> p_values f = None \<and> break_down_filter X U g f = PerRelay m \<and>
      map_of (g_routes g) (ev_pubkey e) = None \<longrightarrow> list_all (\<lambda>(url, f'). \<not> filter_selects f' e) m) \<and>
    (\<forall>vs m. f_authors f = None \<and> p_values f = Some vs \<and> break_down_filter X U g f = PerRelay m \<and>
      (\<forall>pk\<in>p_keys X vs. \<not> has_tag_value (ev_tags e) (lowercase_tag L_P) [public_key_to_hex X pk]) \<longrightarrow>
      list_all (\<lambda>(url, f'). \<not> filter_selects f' e) m)"
proof (intro conjI allI impI)
  fix authors url
  assume a: "f_authors f = Some authors \<and> p_values f = None \<and> url \<in> set (outbox_relays U g (ev_pubkey e))"
  then have "ev_pubkey e \<in> set authors" using assms by (simp add: filter_selects_def)
  then show "\<exists>m f'. break_down_filter X U g f = PerRelay m \<and> (url, f') \<in> set m \<and> filter_selects f' e"
    using a assms covers_authors [of f authors "ev_pubkey e" url U g X] by metis
next
  fix vs pk url
  assume a: "p_canonical X f \<and> f_authors f = None \<and> p_values f = Some vs \<and> pk \<in> p_keys X vs \<and>
    has_tag_value (ev_tags e) (lowercase_tag L_P) [public_key_to_hex X pk] \<and> url \<in> set (inbox_relays U g pk)"
  then have "p_canonical X f" by simp
  from covers_p [OF this, of vs pk url U g]
  show "\<exists>m f'. break_down_filter X U g f = PerRelay m \<and> (url, f') \<in> set m \<and> filter_selects f' e"
    using a assms by metis
next
  fix authors m
  assume "f_authors f = Some authors \<and> p_values f = None \<and> break_down_filter X U g f = PerRelay m \<and>
    map_of (g_routes g) (ev_pubkey e) = None"
  then show "list_all (\<lambda>(url, f'). \<not> filter_selects f' e) m"
    using unrouted_dropped [of f authors X U g m e] by (auto simp: list_all_iff)
next
  fix vs m
  assume "f_authors f = None \<and> p_values f = Some vs \<and> break_down_filter X U g f = PerRelay m \<and>
    (\<forall>pk\<in>p_keys X vs. \<not> has_tag_value (ev_tags e) (lowercase_tag L_P) [public_key_to_hex X pk])"
  then show "list_all (\<lambda>(url, f'). \<not> filter_selects f' e) m"
    using other_spelling_dropped [of f vs X U g m _ _ e] by (auto simp: list_all_iff)
qed

theorem gossip_filter_coverage_witness:
  "\<exists>m f'. break_down_filter sample_crates sample_url sample_gossip sample_author_filter = PerRelay m \<and>
     (''ws://a'', f') \<in> set m \<and> filter_selects f' sample_wire_event"
proof -
  have "ev_pubkey sample_wire_event = sample_pk" by code_simp
  then have sel: "filter_selects sample_author_filter sample_wire_event"
    by (simp add: filter_selects_def sample_author_filter_def filter_author_def filter_new_def get_or_empty_def push_new_def)
  have "outbox_relays sample_url sample_gossip sample_pk = [''ws://a'', ''ws://i'', ''ws://h'']"
    using sample_outbox by (simp add: outbox_relays_def sample_gossip_def gossip_options_default_def)
  with \<open>ev_pubkey sample_wire_event = sample_pk\<close> show ?thesis
    using gossip_filter_coverage [OF sel, where X = sample_crates and U = sample_url and g = sample_gossip]
      sample_filter_fields by auto
qed

text \<open>C34. An event is published where it belongs and nowhere else: a gift wrap goes to the message relays of its
  recipients only, a contact list to the outbox of its author only, every other event to the author's
  outbox and the inboxes of the keys it tags; when there is no such relay the router says so, and
  marks the event as a private message exactly for a gift wrap. All targets pass the address policy.\<close>

theorem gossip_event_targets:
  "(case break_down_event X U g e of
      Relays rs \<Rightarrow> rs \<noteq> [] \<and> set rs = event_targets X U g e
    | OrphanEvent private \<Rightarrow> (private \<longleftrightarrow> ev_kind e = GIFT_WRAP) \<and> event_targets X U g e = {}) \<and>
   event_targets X U g e \<subseteq> Collect (is_allowed U (go_allowed (g_options g)))"
proof -
  have "event_targets X U g e \<subseteq> Collect (is_allowed U (go_allowed (g_options g)))"
    by (auto simp: event_targets_def Let_def gossip_dm_relays_def inbox_relays_def outbox_relays_def
        split: if_splits option.splits dest: out.select_allowed inb.select_allowed dm.select_allowed)
  then show ?thesis using break_down_event_targets [of X U g e] by simp
qed

section \<open>Ingestion\<close>

lemma count_concat_distinct:
  "list_all (\<lambda>x. distinct (h x)) xs \<Longrightarrow> count_list (concat (map h xs)) u = length (filter (\<lambda>x. u \<in> set (h x)) xs)"
proof (induction xs)
  case (Cons x xs)
  have "distinct ys \<Longrightarrow> count_list ys u = of_bool (u \<in> set ys)" for ys by (induction ys) auto
  then have "count_list (h x) u = of_bool (u \<in> set (h x))" using Cons.prems by simp
  then show ?case using Cons by simp
qed simp

text \<open>C36. What the router knows is determined by the events it saw: after any sequence of events from any
  relays, a user has an entry exactly when one of the events is the user's; the relay list and the
  message relays kept are those of a newest well-formed list event of that user; the hint counter of a
  relay is the number of allowed references to it in the user's other events, which is the number of events that advertise it, as
  routes.rs documents the counter, only when no event refers to a relay twice; the delivery counter is the number of the user's events, list events included
  although the documentation of \<open>process\<close> leaves them out, that an allowed relay delivered; both saturate at the largest 32-bit
  number; and exactly the list events were passed to the database, in order.\<close>

theorem gossip_ingest:
  assumes "g_routes g = []"
  shows "let a = go_allowed (g_options g); g' = gossip_run U D xs g; own = of_user pk xs in
    g_db g' = foldl (\<lambda>s e. fst (db_save_event D e s)) (g_db g)
      (filter (\<lambda>e. ev_kind e = RELAY_LIST \<or> ev_kind e = DM_RELAYS) (map fst xs)) \<and>
    (case map_of (g_routes g') pk of
       None \<Rightarrow> own = []
     | Some r \<Rightarrow> own \<noteq> [] \<and>
         newest_kept (list65 U) (fst ` set own) (ur_nip65 r) (ur_nip65_event_at r) \<and>
         newest_kept (list17 U a) (fst ` set own)
           (if ur_nip17_event_at r = None then None else Some (ur_nip17 r)) (ur_nip17_event_at r) \<and>
         (\<forall>u. hist_count (ur_hints r) u =
            min u32_max (count_list (concat (map (\<lambda>x. hint_urls U a (fst x)) own)) u)) \<and>
         (list_all (\<lambda>x. distinct (hint_urls U a (fst x))) own \<longrightarrow>
            (\<forall>u. hist_count (ur_hints r) u = min u32_max (length (filter (\<lambda>x. u \<in> set (hint_urls U a (fst x))) own)))) \<and>
         (\<forall>u. hist_count (ur_most_received r) u =
            min u32_max (length (filter (\<lambda>x. u \<in> set (source_urls U a (snd x))) own))))"
proof -
  let ?a = "go_allowed (g_options g)" and ?own = "of_user pk xs"
  have empty: "bt_invar []" "hist_count [] u = 0" for u by (simp_all add: bt_invar_def hist_count_def)
  have hints: "hist_count (ur_hints (ingest U ?a ?own)) u =
      min u32_max (count_list (concat (map (\<lambda>x. hint_urls U ?a (fst x)) ?own)) u)"
    and src: "hist_count (ur_most_received (ingest U ?a ?own)) u =
      min u32_max (count_list (concat (map (\<lambda>x. source_urls U ?a (snd x)) ?own)) u)" for u
    using foldl_bump [OF empty(1)] by (simp_all add: ingest_histograms empty(2))
  have "list_all (\<lambda>x. distinct (source_urls U ?a (snd x))) ?own"
    by (simp add: list_all_iff source_urls_def split: option.splits)
  note src = src [unfolded count_concat_distinct [OF this]]
  have "list_all (\<lambda>x. distinct (hint_urls U ?a (fst x))) ?own \<longrightarrow>
      (\<forall>u. hist_count (ur_hints (ingest U ?a ?own)) u = min u32_max (length (filter (\<lambda>x. u \<in> set (hint_urls U ?a (fst x))) ?own)))"
    using count_concat_distinct [of "\<lambda>x. hint_urls U ?a (fst x)" ?own] by (simp add: hints)
  with hints src show ?thesis
    using gossip_run_routes [OF assms, of U D xs pk] gossip_run_db [of U D xs g] ingest_lists [where U = U and xs = ?own and a = ?a]
    by (simp add: Let_def)
qed

definition sample_gossip_db :: "unit database" where
  "sample_gossip_db = \<lparr>db_save_event = (\<lambda>e s. (s, Inr Success)), db_query = (\<lambda>f s. Inr []), db_count = (\<lambda>f s. Inr 0),
     db_negentropy_items = (\<lambda>f s. Inr [])\<rparr>"

theorem gossip_ingest_witness:
  "\<exists>r. map_of (g_routes (gossip_run sample_url sample_gossip_db [(sample_wire_event, Some ''ws://z''), (sample_wire_event, Some ''ws://z'')]
       (sample_gossip\<lparr>g_routes := []\<rparr>))) sample_pk = Some r \<and> hist_count (ur_most_received r) ''ws://z'' = 2"
proof -
  let ?xs = "[(sample_wire_event, Some ''ws://z''), (sample_wire_event, Some ''ws://z'')]"
  let ?g = "sample_gossip\<lparr>g_routes := []\<rparr>"
  have pk: "ev_pubkey sample_wire_event = sample_pk" by code_simp
  have allowed: "go_allowed (g_options sample_gossip) = permissive" by (simp add: sample_gossip_def)
  have "source_urls sample_url permissive (Some ''ws://z'') = [''ws://z'']" by (simp add: source_urls_def)
  then show ?thesis
    using gossip_ingest [of ?g sample_url sample_gossip_db ?xs sample_pk]
    by (auto simp: Let_def of_user_def pk allowed split: option.splits)
qed

section \<open>Refreshing\<close>

text \<open>Fetching is debounced and takes only the user's own newest list: after an attempt at time \<open>now\<close>, whatever
  came of it, a second one before the minimal interval has passed contacts no relay and changes nothing;
  an attempt that succeeds ingested an event of the right kind signed by the right key, one of the newest
  among those the relays returned; without relays to ask the attempt is refused.\<close>

theorem gossip_refresh_debounced:
  assumes "discovery \<noteq> []" and "allowed_to_fetch g (Some now) user k" and "hm_invar (g_routes g)"
    and "gossip_refresh U D pool (Some now) user k discovery g = (g1, res)"
    and "saturating_sub later now < go_min_fetch_interval (g_options g)"
  shows "gossip_refresh U D pool' (Some later) user k discovery' g1 =
      (g1, if discovery' = [] then Inl NoDiscoveryRelays else Inr ()) \<and>
    (res = Inr () \<longrightarrow> (\<exists>stream e u. pool discovery [list_filter user k] = Inr stream \<and> (u, Inr e) \<in> set stream \<and>
       ev_kind e = list_event_kind k \<and> ev_pubkey e = user \<and>
       list_all (\<lambda>(u, item). case item of Inr x \<Rightarrow> ev_kind x = list_event_kind k \<and> ev_pubkey x = user \<longrightarrow>
           ev_created_at x \<le> ev_created_at e | Inl _ \<Rightarrow> True) stream))"
proof (rule conjI)
  obtain r where "g_options g1 = g_options g" "map_of (g_routes g1) user = Some r" "list_fetched_at r k = Some now"
    using refresh_remembers [OF assms(1-4)] by blast
  then have "\<not> allowed_to_fetch g1 (Some later) user k" using assms(5) by (simp add: allowed_to_fetch_def not_le)
  then show "gossip_refresh U D pool' (Some later) user k discovery' g1 =
      (g1, if discovery' = [] then Inl NoDiscoveryRelays else Inr ())"
    by (simp add: gossip_refresh_def)
next
  show "res = Inr () \<longrightarrow> (\<exists>stream e u. pool discovery [list_filter user k] = Inr stream \<and> (u, Inr e) \<in> set stream \<and>
       ev_kind e = list_event_kind k \<and> ev_pubkey e = user \<and>
       list_all (\<lambda>(u, item). case item of Inr x \<Rightarrow> ev_kind x = list_event_kind k \<and> ev_pubkey x = user \<longrightarrow>
           ev_created_at x \<le> ev_created_at e | Inl _ \<Rightarrow> True) stream)"
  proof
    assume "res = Inr ()"
    then obtain e where "pull_newest pool user k discovery = Inr (Some e)"
      using assms(1,2,4) by (auto simp: gossip_refresh_def Let_def split: sum.splits option.splits)
    then obtain stream where s: "pool discovery [list_filter user k] = Inr stream"
      and e: "newest_loop user k stream None = Some e"
      by (auto simp: pull_newest_def res_bind_Inr_iff)
    from newest_loop_event [OF e] obtain u where "(u, Inr e) \<in> set stream" "ev_kind e = list_event_kind k" "ev_pubkey e = user"
      by auto
    moreover have "list_all (\<lambda>(u, item). case item of Inr x \<Rightarrow> ev_kind x = list_event_kind k \<and> ev_pubkey x = user \<longrightarrow>
           ev_created_at x \<le> ev_created_at e | Inl _ \<Rightarrow> True) stream"
      using newest_loop_max [OF e] by (fastforce simp: list_all_iff split: sum.splits)
    ultimately show "\<exists>stream e u. pool discovery [list_filter user k] = Inr stream \<and> (u, Inr e) \<in> set stream \<and>
       ev_kind e = list_event_kind k \<and> ev_pubkey e = user \<and>
       list_all (\<lambda>(u, item). case item of Inr x \<Rightarrow> ev_kind x = list_event_kind k \<and> ev_pubkey x = user \<longrightarrow>
           ev_created_at x \<le> ev_created_at e | Inl _ \<Rightarrow> True) stream"
      using s by blast
  qed
qed

theorem gossip_refresh_debounced_witness:
  "\<exists>g1. gossip_refresh sample_url sample_gossip_db (\<lambda>_ _. Inr []) (Some 100) sample_pk Nip65 [''ws://q''] sample_gossip =
       (g1, Inl (GossipNotFound sample_pk Nip65)) \<and>
     gossip_refresh sample_url sample_gossip_db (\<lambda>_ _. Inl ''down'') (Some 110) sample_pk Nip65 [''ws://q''] g1 = (g1, Inr ())"
proof -
  have allowed: "allowed_to_fetch sample_gossip (Some 100) sample_pk Nip65"
    by (simp add: allowed_to_fetch_def sample_gossip_def sample_routes_def routes_default_def list_fetched_at_def)
  then obtain g1 where g1: "gossip_refresh sample_url sample_gossip_db (\<lambda>_ _. Inr []) (Some 100) sample_pk Nip65 [''ws://q'']
      sample_gossip = (g1, Inl (GossipNotFound sample_pk Nip65))"
    by (simp add: gossip_refresh_def pull_newest_def Let_def)
  have "hm_invar (g_routes sample_gossip)" by (simp add: sample_gossip_def hm_invar_def)
  moreover have "saturating_sub 110 100 < go_min_fetch_interval (g_options sample_gossip)"
    by (simp add: sample_gossip_def gossip_options_default_def saturating_sub_def)
  ultimately show ?thesis
    using g1 gossip_refresh_debounced [OF _ allowed _ g1, of 110 "\<lambda>_ _. Inl ''down''" "[''ws://q'']"] by simp
qed

end
