(* ===== verification/Gift_Wrap.thy ===== *)
theory Gift_Wrap
  imports Encryption Bech32_Entities Relay_Lists
begin

text \<open>
  Gift-wrapped messages: the JSON form of an unsigned event (event/unsigned.rs, the derived
  \<open>Serialize\<close> and \<open>Deserialize\<close>), sealing, wrapping and unwrapping (nips/nip59.rs), and the private
  direct messages built on them (nips/nip17.rs; its relay lists are in \<open>Relay_Lists\<close>). The parser of
  JSON texts is the argument \<open>J\<close>; what the entropy source and the clock return are arguments.
  Serialising these types cannot fail, so \<open>try_to_json\<close> is the text.
\<close>

section \<open>Unsigned events in JSON\<close>

definition unsigned_serialize :: "unsigned_event \<Rightarrow> json" where
  "unsigned_serialize u = JObj
     [(''id'', JStr (fmt_lower (u_id u))),
      (''pubkey'', JStr (fmt_lower (u_pubkey u))),
      (''created_at'', JNum (uint (u_created_at u))),
      (''kind'', JNum (uint (u_kind u))),
      (''tags'', JArr (map tag_to_json (u_tags u))),
      (''content'', JStr (u_content u))]"

definition unsigned_visit_entry ::
  "crates \<Rightarrow> event_fields \<Rightarrow> string \<Rightarrow> json \<Rightarrow> de_error + event_fields" where
  "unsigned_visit_entry X f key v =
     (if key = ''id'' then
        res_bind (set_field key (ef_id f) (map_err DeValue (de_event_id X v)))
          (\<lambda>x. Inr (f\<lparr>ef_id := x\<rparr>))
      else if key = ''pubkey'' then
        res_bind (set_field key (ef_pubkey f) (map_err DeValue (de_public_key X v)))
          (\<lambda>x. Inr (f\<lparr>ef_pubkey := x\<rparr>))
      else if key = ''created_at'' then
        res_bind (set_field key (ef_created_at f) (map_err DeValue (de_u64 v)))
          (\<lambda>x. Inr (f\<lparr>ef_created_at := x\<rparr>))
      else if key = ''kind'' then
        res_bind (set_field key (ef_kind f) (map_err DeValue (de_u16 v)))
          (\<lambda>x. Inr (f\<lparr>ef_kind := x\<rparr>))
      else if key = ''tags'' then
        res_bind (set_field key (ef_tags f) (de_tags v)) (\<lambda>x. Inr (f\<lparr>ef_tags := x\<rparr>))
      else if key = ''content'' then
        res_bind (set_field key (ef_content f) (de_str v)) (\<lambda>x. Inr (f\<lparr>ef_content := x\<rparr>))
      else Inr f)"

fun unsigned_visit_map ::
  "crates \<Rightarrow> event_fields \<Rightarrow> (string \<times> json) list \<Rightarrow> de_error + event_fields" where
  "unsigned_visit_map X f [] = Inr f"
| "unsigned_visit_map X f (e # es) =
     res_bind (unsigned_visit_entry X f (fst e) (snd e)) (\<lambda>f'. unsigned_visit_map X f' es)"

definition unsigned_from_fields :: "event_fields \<Rightarrow> de_error + unsigned_event" where
  "unsigned_from_fields f =
     res_bind (ok_or (DeMissingField ''id'') (ef_id f)) (\<lambda>i.
     res_bind (ok_or (DeMissingField ''pubkey'') (ef_pubkey f)) (\<lambda>pk.
     res_bind (ok_or (DeMissingField ''created_at'') (ef_created_at f)) (\<lambda>at.
     res_bind (ok_or (DeMissingField ''kind'') (ef_kind f)) (\<lambda>k.
     res_bind (ok_or (DeMissingField ''tags'') (ef_tags f)) (\<lambda>ts.
     res_bind (ok_or (DeMissingField ''content'') (ef_content f)) (\<lambda>c.
     Inr \<lparr>u_id = i, u_pubkey = pk, u_created_at = at, u_kind = k, u_tags = ts, u_content = c\<rparr>))))))"

definition unsigned_visit_seq :: "crates \<Rightarrow> json list \<Rightarrow> de_error + unsigned_event \<times> json list" where
  "unsigned_visit_seq X seq =
     res_bind (next_element (DeInvalidLength 0) (\<lambda>j. map_err DeValue (de_event_id X j)) seq) (\<lambda>p1.
     res_bind (next_element (DeInvalidLength 1) (\<lambda>j. map_err DeValue (de_public_key X j)) (snd p1)) (\<lambda>p2.
     res_bind (next_element (DeInvalidLength 2) (\<lambda>j. map_err DeValue (de_u64 j)) (snd p2)) (\<lambda>p3.
     res_bind (next_element (DeInvalidLength 3) (\<lambda>j. map_err DeValue (de_u16 j)) (snd p3)) (\<lambda>p4.
     res_bind (next_element (DeInvalidLength 4) de_tags (snd p4)) (\<lambda>p5.
     res_bind (next_element (DeInvalidLength 5) de_str (snd p5)) (\<lambda>p6.
     Inr (\<lparr>u_id = fst p1, u_pubkey = fst p2, u_created_at = fst p3, u_kind = fst p4,
           u_tags = fst p5, u_content = fst p6\<rparr>, snd p6)))))))"

definition unsigned_deserialize :: "crates \<Rightarrow> json \<Rightarrow> de_error + unsigned_event" where
  "unsigned_deserialize X j =
     (case j of
        JObj es \<Rightarrow> res_bind (unsigned_visit_map X no_fields es) unsigned_from_fields
      | JArr js \<Rightarrow> end_seq (unsigned_visit_seq X js)
      | _ \<Rightarrow> Inl (DeValue DeType))"

section \<open>JSON texts\<close>

datatype json_error = JsonSyntax | JsonData de_error

definition event_to_json :: "crates \<Rightarrow> sig_text \<Rightarrow> event \<Rightarrow> string" where
  "event_to_json X Y e = json_to_string X (event_serialize Y e)"

definition event_from_json ::
  "crates \<Rightarrow> sig_text \<Rightarrow> (string \<Rightarrow> json option) \<Rightarrow> string \<Rightarrow> json_error + event" where
  "event_from_json X Y J s =
     res_bind (ok_or JsonSyntax (J s)) (\<lambda>j. map_err JsonData (event_deserialize X Y j))"

definition unsigned_to_json :: "crates \<Rightarrow> unsigned_event \<Rightarrow> string" where
  "unsigned_to_json X u = json_to_string X (unsigned_serialize u)"

definition unsigned_from_json ::
  "crates \<Rightarrow> (string \<Rightarrow> json option) \<Rightarrow> string \<Rightarrow> json_error + unsigned_event" where
  "unsigned_from_json X J s =
     res_bind (ok_or JsonSyntax (J s)) (\<lambda>j. map_err JsonData (unsigned_deserialize X j))"

section \<open>Gift wrap (NIP-59)\<close>

definition SEAL :: kind where "SEAL = 13"
definition PRIVATE_DIRECT_MESSAGE :: kind where "PRIVATE_DIRECT_MESSAGE = 14"
definition TWO_DAYS_SECS :: u64 where "TWO_DAYS_SECS = 2 * 24 * 60 * 60"

datatype nip59_error =
    GwClock
  | GwRng rng_error
  | GwNip44 nip44_error
  | GwJson json_error
  | GwInternal
  | GwEvent event_error
  | GwUnexpectedKind kind kind
  | GwPubkeyMismatch

definition build_rumor ::
  "crates \<Rightarrow> keys \<Rightarrow> kind \<Rightarrow> tag list \<Rightarrow> string \<Rightarrow> timestamp \<Rightarrow> unsigned_event" where
  "build_rumor X sender k tags content created_at =
     unsigned_new X (keys_public sender) created_at k tags content"

fun builder_failure :: "event_builder_error \<Rightarrow> nip59_error" where
  "builder_failure BuilderClock = GwClock"
| "builder_failure (BuilderSigner e) = GwInternal"

text \<open>\<open>nonce\<close> is the entropy the encryption draws. The builders carry their \<open>created_at\<close>, so the clock
  is not read.\<close>

definition create_seal ::
  "crates \<Rightarrow> cipher_crates \<Rightarrow> rng_error + bytes \<Rightarrow> keys \<Rightarrow> public_key \<Rightarrow> unsigned_event \<Rightarrow> timestamp \<Rightarrow>
   nip59_error + event" where
  "create_seal X E nonce sender recipient rumor seal_created_at =
     res_bind (map_err GwNip44 (nip44_encrypt E nonce (keys_secret sender) recipient (unsigned_to_json X rumor)))
       (\<lambda>ciphertext.
     map_err builder_failure
       (builder_sign_with_keys X None (builder_created_at seal_created_at (builder_new SEAL ciphertext)) sender))"

definition keys_generate :: "crates \<Rightarrow> bech32_crates \<Rightarrow> rng_error + bytes \<Rightarrow> secret_key_error + keys" where
  "keys_generate X B entropy =
     res_bind (secret_key_generate B entropy) (\<lambda>sk. Inr (keys_from_secret_key X sk))"

fun ephemeral_failure :: "secret_key_error \<Rightarrow> nip59_error" where
  "ephemeral_failure (SkRng r) = GwRng r"
| "ephemeral_failure _ = GwInternal"

record wrap_draws =
  wd_seal_nonce :: "rng_error + bytes"
  wd_ephemeral :: "rng_error + bytes"
  wd_wrap_nonce :: "rng_error + bytes"

definition gift_wrap_tag :: "crates \<Rightarrow> public_key \<Rightarrow> relay_url option \<Rightarrow> tag" where
  "gift_wrap_tag X recipient relay_hint =
     tag_with (SingleLetter (lowercase_tag L_P))
       (case relay_hint of
          None \<Rightarrow> [public_key_to_hex X recipient]
        | Some url \<Rightarrow> [public_key_to_hex X recipient, url])"

definition create_gift_wrap ::
  "crates \<Rightarrow> sig_text \<Rightarrow> bech32_crates \<Rightarrow> cipher_crates \<Rightarrow> rng_error + bytes \<Rightarrow> rng_error + bytes \<Rightarrow>
   event \<Rightarrow> public_key \<Rightarrow> relay_url option \<Rightarrow> timestamp \<Rightarrow> nip59_error + event" where
  "create_gift_wrap X Y B E entropy nonce seal recipient relay_hint wrap_created_at =
     res_bind (map_err ephemeral_failure (keys_generate X B entropy)) (\<lambda>ephemeral.
     res_bind (map_err GwNip44 (nip44_encrypt E nonce (keys_secret ephemeral) recipient (event_to_json X Y seal)))
       (\<lambda>ciphertext.
     map_err builder_failure
       (builder_sign_with_keys X None
          (builder_tag (gift_wrap_tag X recipient relay_hint)
             (builder_created_at wrap_created_at (builder_new GIFT_WRAP ciphertext))) ephemeral)))"

definition random_past_timestamp :: "timestamp option \<Rightarrow> rng_error + bytes \<Rightarrow> nip59_error + timestamp" where
  "random_past_timestamp clock draw =
     res_bind (ok_or GwClock clock) (\<lambda>now.
     res_bind (map_err GwRng draw) (\<lambda>bytes.
     let offset = of_nat (be_nat (rev bytes)) mod TWO_DAYS_SECS
     in Inr (saturating_sub now offset)))"

record timestamps =
  ts_rumor :: timestamp
  ts_seal :: timestamp
  ts_wrap :: timestamp

definition timestamps_all_at :: "timestamp \<Rightarrow> timestamps" where
  "timestamps_all_at ts = \<lparr>ts_rumor = ts, ts_seal = ts, ts_wrap = ts\<rparr>"

text \<open>The clock is read three times and the entropy source twice.\<close>

definition timestamps_random_past ::
  "timestamp option \<Rightarrow> timestamp option \<Rightarrow> timestamp option \<Rightarrow> rng_error + bytes \<Rightarrow> rng_error + bytes \<Rightarrow>
   nip59_error + timestamps" where
  "timestamps_random_past clock1 clock2 clock3 draw1 draw2 =
     res_bind (ok_or GwClock clock1) (\<lambda>rumor.
     res_bind (random_past_timestamp clock2 draw1) (\<lambda>seal.
     res_bind (random_past_timestamp clock3 draw2) (\<lambda>wrap.
     Inr \<lparr>ts_rumor = rumor, ts_seal = seal, ts_wrap = wrap\<rparr>)))"

definition gift_wrap ::
  "crates \<Rightarrow> sig_text \<Rightarrow> bech32_crates \<Rightarrow> cipher_crates \<Rightarrow> nip59_error + timestamp \<Rightarrow> nip59_error + timestamp \<Rightarrow>
   wrap_draws \<Rightarrow> keys \<Rightarrow> public_key \<Rightarrow> kind \<Rightarrow> tag list \<Rightarrow> string \<Rightarrow> timestamp \<Rightarrow> relay_url option \<Rightarrow>
   nip59_error + event" where
  "gift_wrap X Y B E past1 past2 d sender recipient k tags content rumor_created_at relay_hint =
     (let rumor = build_rumor X sender k tags content rumor_created_at in
      res_bind past1 (\<lambda>seal_at.
      res_bind (create_seal X E (wd_seal_nonce d) sender recipient rumor seal_at) (\<lambda>seal.
      res_bind past2 (\<lambda>wrap_at.
      create_gift_wrap X Y B E (wd_ephemeral d) (wd_wrap_nonce d) seal recipient relay_hint wrap_at))))"

definition wrap_with_timestamps ::
  "crates \<Rightarrow> sig_text \<Rightarrow> bech32_crates \<Rightarrow> cipher_crates \<Rightarrow> wrap_draws \<Rightarrow> keys \<Rightarrow> public_key \<Rightarrow> kind \<Rightarrow>
   tag list \<Rightarrow> string \<Rightarrow> timestamps \<Rightarrow> relay_url option \<Rightarrow> nip59_error + event" where
  "wrap_with_timestamps X Y B E d sender recipient k tags content ts relay_hint =
     (let rumor = build_rumor X sender k tags content (ts_rumor ts) in
      res_bind (create_seal X E (wd_seal_nonce d) sender recipient rumor (ts_seal ts)) (\<lambda>seal.
      create_gift_wrap X Y B E (wd_ephemeral d) (wd_wrap_nonce d) seal recipient relay_hint (ts_wrap ts)))"

definition gift_unwrap ::
  "crates \<Rightarrow> sig_text \<Rightarrow> (string \<Rightarrow> json option) \<Rightarrow> cipher_crates \<Rightarrow> keys \<Rightarrow> event \<Rightarrow>
   nip59_error + unsigned_event" where
  "gift_unwrap X Y J E recipient g =
     (if ev_kind g \<noteq> GIFT_WRAP then Inl (GwUnexpectedKind GIFT_WRAP (ev_kind g))
      else
        res_bind (map_err GwNip44 (nip44_decrypt E (keys_secret recipient) (ev_pubkey g) (ev_content g)))
          (\<lambda>seal_json.
        res_bind (map_err GwJson (event_from_json X Y J seal_json)) (\<lambda>seal.
        if ev_kind seal \<noteq> SEAL then Inl (GwUnexpectedKind SEAL (ev_kind seal))
        else
          res_bind (map_err GwEvent (verify X seal)) (\<lambda>_.
          res_bind (map_err GwNip44 (nip44_decrypt E (keys_secret recipient) (ev_pubkey seal) (ev_content seal)))
            (\<lambda>rumor_json.
          res_bind (map_err GwJson (unsigned_from_json X J rumor_json)) (\<lambda>rumor.
          if u_pubkey rumor \<noteq> ev_pubkey seal then Inl GwPubkeyMismatch else Inr rumor))))))"

section \<open>Private direct messages (NIP-17)\<close>

definition SUBJECT_TAG :: string where "SUBJECT_TAG = ''subject''"
definition REPLY_MARKER :: string where "REPLY_MARKER = ''reply''"

text \<open>The variants on relay lists and kinds are \<open>dm_relays_error\<close>.\<close>

datatype nip17_error =
    NoRecipients
  | DmList dm_relays_error
  | DmWrap nip59_error

record recipient =
  rc_public_key :: public_key
  rc_relay_hint :: "relay_url option"

definition recipient_new :: "public_key \<Rightarrow> recipient" where
  "recipient_new pk = \<lparr>rc_public_key = pk, rc_relay_hint = None\<rparr>"

definition with_relay_hint :: "relay_url \<Rightarrow> recipient \<Rightarrow> recipient" where
  "with_relay_hint relay r = r\<lparr>rc_relay_hint := Some relay\<rparr>"

record reply_to =
  rt_event_id :: event_id
  rt_relay_hint :: "relay_url option"

definition build_chat_message_rumor ::
  "crates \<Rightarrow> keys \<Rightarrow> recipient list \<Rightarrow> string \<Rightarrow> timestamp \<Rightarrow> string option \<Rightarrow> reply_to option \<Rightarrow> unsigned_event" where
  "build_chat_message_rumor X sender recipients message created_at subject reply =
     (let p_tags = map (\<lambda>r. tag_with (SingleLetter (lowercase_tag L_P))
            (case rc_relay_hint r of
               None \<Rightarrow> [public_key_to_hex X (rc_public_key r)]
             | Some url \<Rightarrow> [public_key_to_hex X (rc_public_key r), url])) recipients;
          e_tags = (case reply of
               None \<Rightarrow> []
             | Some r \<Rightarrow> [tag_with (SingleLetter (lowercase_tag L_E))
                 [event_id_to_hex X (rt_event_id r), case rt_relay_hint r of None \<Rightarrow> [] | Some url \<Rightarrow> url,
                  REPLY_MARKER]]);
          subject_tags = (case subject of
               None \<Rightarrow> []
             | Some title \<Rightarrow> [tag_with (tag_kind_from_wire SUBJECT_TAG) [title]])
      in unsigned_new X (keys_public sender) created_at PRIVATE_DIRECT_MESSAGE
           (p_tags @ e_tags @ subject_tags) message)"

definition wrap_for ::
  "crates \<Rightarrow> sig_text \<Rightarrow> bech32_crates \<Rightarrow> cipher_crates \<Rightarrow> wrap_draws \<Rightarrow> keys \<Rightarrow> recipient \<Rightarrow>
   unsigned_event \<Rightarrow> timestamps \<Rightarrow> nip17_error + event" where
  "wrap_for X Y B E d sender r rumor ts =
     res_bind (map_err DmWrap
       (create_seal X E (wd_seal_nonce d) sender (rc_public_key r) rumor (ts_seal ts))) (\<lambda>seal.
     map_err DmWrap (create_gift_wrap X Y B E (wd_ephemeral d) (wd_wrap_nonce d) seal (rc_public_key r)
       (rc_relay_hint r) (ts_wrap ts)))"

text \<open>The loop over the recipients; \<open>d n\<close> is the entropy of the \<open>n\<close>-th wrap.\<close>

fun wrap_loop ::
  "crates \<Rightarrow> sig_text \<Rightarrow> bech32_crates \<Rightarrow> cipher_crates \<Rightarrow> (nat \<Rightarrow> wrap_draws) \<Rightarrow> keys \<Rightarrow> unsigned_event \<Rightarrow>
   timestamps \<Rightarrow> nat \<Rightarrow> recipient list \<Rightarrow> event list \<Rightarrow> nip17_error + event list" where
  "wrap_loop X Y B E d sender rumor ts n [] wraps = Inr wraps"
| "wrap_loop X Y B E d sender rumor ts n (r # rs) wraps =
     res_bind (map_err DmWrap
       (create_seal X E (wd_seal_nonce (d n)) sender (rc_public_key r) rumor (ts_seal ts))) (\<lambda>seal.
     res_bind (map_err DmWrap (create_gift_wrap X Y B E (wd_ephemeral (d n)) (wd_wrap_nonce (d n)) seal
       (rc_public_key r) (rc_relay_hint r) (ts_wrap ts))) (\<lambda>w.
     wrap_loop X Y B E d sender rumor ts (Suc n) rs (wraps @ [w])))"

definition wrap_for_many ::
  "crates \<Rightarrow> sig_text \<Rightarrow> bech32_crates \<Rightarrow> cipher_crates \<Rightarrow> (nat \<Rightarrow> wrap_draws) \<Rightarrow> keys \<Rightarrow> recipient list \<Rightarrow>
   unsigned_event \<Rightarrow> timestamps \<Rightarrow> nip17_error + event list" where
  "wrap_for_many X Y B E d sender recipients rumor ts =
     (if recipients = [] then Inl NoRecipients
      else
        res_bind (map_err DmWrap
          (create_seal X E (wd_seal_nonce (d 0)) sender (keys_public sender) rumor (ts_seal ts))) (\<lambda>self_seal.
        res_bind (map_err DmWrap (create_gift_wrap X Y B E (wd_ephemeral (d 0)) (wd_wrap_nonce (d 0)) self_seal
          (keys_public sender) None (ts_wrap ts))) (\<lambda>w.
        wrap_loop X Y B E d sender rumor ts 1 recipients [w])))"

definition unwrap_chat_message ::
  "crates \<Rightarrow> sig_text \<Rightarrow> (string \<Rightarrow> json option) \<Rightarrow> cipher_crates \<Rightarrow> keys \<Rightarrow> event \<Rightarrow> nip17_error + unsigned_event" where
  "unwrap_chat_message X Y J E recipient g =
     res_bind (map_err DmWrap (gift_unwrap X Y J E recipient g)) (\<lambda>rumor.
     if u_kind rumor \<noteq> PRIVATE_DIRECT_MESSAGE then Inl (DmList (DmUnexpectedKind (u_kind rumor))) else Inr rumor)"

definition unwrap_dm_payload ::
  "crates \<Rightarrow> sig_text \<Rightarrow> (string \<Rightarrow> json option) \<Rightarrow> cipher_crates \<Rightarrow> keys \<Rightarrow> event \<Rightarrow> nip17_error + unsigned_event" where
  "unwrap_dm_payload X Y J E recipient g = map_err DmWrap (gift_unwrap X Y J E recipient g)"

section \<open>What the crates promise\<close>

text \<open>JSON documents that \<open>serde_json\<close> reads back as it wrote them: strings are UTF-8, numbers fit the
  integer types, no floats, and at most \<open>d\<close> levels of nesting (the parser stops at 127).\<close>

fun json_plain :: "nat \<Rightarrow> json \<Rightarrow> bool" where
  "json_plain d JNull = True"
| "json_plain d (JBool b) = True"
| "json_plain d (JNum n) = (- (2 ^ 63) \<le> n \<and> n < 2 ^ 64)"
| "json_plain d (JFloat s) = False"
| "json_plain d (JStr s) = str_wf s"
| "json_plain 0 (JArr js) = False"
| "json_plain (Suc d) (JArr js) = (\<forall>j \<in> set js. json_plain d j)"
| "json_plain 0 (JObj es) = False"
| "json_plain (Suc d) (JObj es) = (\<forall>e \<in> set es. str_wf (fst e) \<and> json_plain d (snd e))"

definition json_laws :: "crates \<Rightarrow> (string \<Rightarrow> json option) \<Rightarrow> bool" where
  "json_laws X J \<longleftrightarrow>
     (\<forall>j. json_plain 127 j \<longrightarrow>
        J (json_to_string X j) = Some j \<and> str_wf (json_to_string X j) \<and> json_to_string X j \<noteq> [])"

text \<open>The texts of signatures and of base64 are Rust strings; hashes, keys and signatures have their sizes.\<close>

definition size_laws :: "crates \<Rightarrow> sig_text \<Rightarrow> bech32_crates \<Rightarrow> cipher_crates \<Rightarrow> bool" where
  "size_laws X Y B E \<longleftrightarrow>
     (\<forall>s. str_wf (sig_to_string Y s)) \<and> (\<forall>b. str_wf (b64_encode E b)) \<and>
     (\<forall>b. length (sha256 X b) = 32) \<and>
     (\<forall>sk. secret_key_wf B sk \<longrightarrow> public_key_wf X (keypair_public X sk) \<and>
        (\<forall>m. length m = 32 \<longrightarrow> length (keypair_sign X sk m) = 64))"

definition envelope_laws ::
  "crates \<Rightarrow> sig_text \<Rightarrow> bech32_crates \<Rightarrow> cipher_crates \<Rightarrow> (string \<Rightarrow> json option) \<Rightarrow> bool" where
  "envelope_laws X Y B E J \<longleftrightarrow>
     hex_laws X \<and> schnorr_laws X \<and> sig_laws Y \<and> cipher_laws X E \<and> json_laws X J \<and> size_laws X Y B E"

lemma envelope_lawsD:
  assumes "envelope_laws X Y B E J"
  shows "hex_laws X" and "schnorr_laws X" and "sig_laws Y" and "cipher_laws X E" and "json_laws X J"
    and "size_laws X Y B E"
  using assms by (simp_all add: envelope_laws_def)

text \<open>What the types guarantee of an unsigned event.\<close>

definition unsigned_wf :: "crates \<Rightarrow> unsigned_event \<Rightarrow> bool" where
  "unsigned_wf X u \<longleftrightarrow> event_id_wf (u_id u) \<and> public_key_wf X (u_pubkey u) \<and> list_all tag_wf (u_tags u)"

definition tags_text :: "tag list \<Rightarrow> bool" where
  "tags_text ts \<longleftrightarrow> (\<forall>t \<in> set ts. \<forall>v \<in> set (tag_values t). str_wf v)"

definition wrap_draws_wf :: "bech32_crates \<Rightarrow> wrap_draws \<Rightarrow> bool" where
  "wrap_draws_wf B d \<longleftrightarrow>
     (\<exists>n1 sk n2. wd_seal_nonce d = Inr n1 \<and> wd_ephemeral d = Inr sk \<and> wd_wrap_nonce d = Inr n2 \<and>
        length n1 = NONCE_BYTES \<and> secret_key_wf B sk \<and> length n2 = NONCE_BYTES)"

section \<open>Lemmas on JSON texts\<close>

lemma str_wf_ascii: "(\<And>c. c \<in> set s \<Longrightarrow> (of_char c :: nat) < 128) \<Longrightarrow> str_wf s"
proof -
  have "\<forall>n \<in> set ns. n < 128 \<Longrightarrow> utf8_valid ns" for ns by (induction ns) simp_all
  then show "(\<And>c. c \<in> set s \<Longrightarrow> (of_char c :: nat) < 128) \<Longrightarrow> str_wf s" by (simp add: str_wf_def)
qed

lemma hex_digit_ascii: "d < 16 \<Longrightarrow> (of_char (hex_digit d) :: nat) < 128"
  by (simp add: hex_digit_def)

lemma str_wf_fmt_lower [simp]: "str_wf (fmt_lower bs)"
proof (rule str_wf_ascii)
  fix c assume "c \<in> set (fmt_lower bs)"
  then obtain b where "c \<in> set (byte_02x b)" by (auto simp: fmt_lower_def)
  moreover have "unat b div 16 < 16" using unsigned_less [of b, where ?'a = nat] by simp
  ultimately show "(of_char c :: nat) < 128" by (auto simp: byte_02x_def hex_digit_ascii)
qed

lemma json_plain_tags: "tags_text ts \<Longrightarrow> json_plain (Suc (Suc d)) (JArr (map tag_to_json ts))"
  by (auto simp: tags_text_def tag_to_json_def)

lemma uint_u64_bounds: "- (2 ^ 63) \<le> uint (w :: u64)" "uint w < 2 ^ 64"
  using uint_ge_0 [of w] uint_lt2p [of w] by (simp_all add: order_trans [of _ 0])

lemma uint_u16_bounds: "- (2 ^ 63) \<le> uint (w :: u16)" "uint w < 2 ^ 64"
  using uint_ge_0 [of w] uint_lt2p [of w] by (simp_all add: order_trans [of _ 0])

lemmas json_plain_simps = uint_u64_bounds [simplified] uint_u16_bounds [simplified]

lemma ascii_keys [simp]:
  "str_wf ''id''" "str_wf ''pubkey''" "str_wf ''created_at''" "str_wf ''kind''" "str_wf ''tags''"
  "str_wf ''content''" "str_wf ''sig''"
  by (rule str_wf_ascii; auto)+

lemma json_plain_object:
  "json_plain 127 (JObj es) \<longleftrightarrow> (\<forall>e \<in> set es. str_wf (fst e) \<and> json_plain 126 (snd e))"
  using json_plain.simps(9) [of 126 es] by simp

lemma unsigned_json_plain:
  "tags_text (u_tags u) \<Longrightarrow> str_wf (u_content u) \<Longrightarrow> json_plain 127 (unsigned_serialize u)"
  using json_plain_tags [of "u_tags u" 124]
  by (simp add: unsigned_serialize_def json_plain_simps json_plain_object)

lemma event_json_plain:
  "tags_text (ev_tags e) \<Longrightarrow> str_wf (ev_content e) \<Longrightarrow> str_wf (sig_to_string Y (ev_sig e)) \<Longrightarrow>
   json_plain 127 (event_serialize Y e)"
  using json_plain_tags [of "ev_tags e" 124]
  by (simp add: event_serialize_def json_plain_simps json_plain_object)

lemma unsigned_round_trip_aux:
  assumes "hex_laws X" and "unsigned_wf X u"
  shows "unsigned_deserialize X (unsigned_serialize u) = Inr u"
  using assms
  by (simp add: unsigned_deserialize_def unsigned_serialize_def unsigned_visit_entry_def set_field_def
      no_fields_def unsigned_from_fields_def unsigned_wf_def de_ids de_words de_tags_map de_str_def
      de_string_def)

lemma unsigned_json_round_trip:
  assumes "hex_laws X" and "json_laws X J" and "unsigned_wf X u" and "tags_text (u_tags u)" and "str_wf (u_content u)"
  shows "unsigned_from_json X J (unsigned_to_json X u) = Inr u" and "str_wf (unsigned_to_json X u)"
    and "1 \<le> length (unsigned_to_json X u)"
  using assms unsigned_json_plain [of u] unsigned_round_trip_aux [of X u]
  by (auto simp: unsigned_from_json_def unsigned_to_json_def json_laws_def ok_or_def Suc_le_eq)

lemma event_json_round_trip:
  assumes "hex_laws X" and "sig_laws Y" and "json_laws X J" and "event_wf X e" and "tags_text (ev_tags e)"
    and "str_wf (ev_content e)" and "str_wf (sig_to_string Y (ev_sig e))"
  shows "event_from_json X Y J (event_to_json X Y e) = Inr e" and "str_wf (event_to_json X Y e)"
    and "1 \<le> length (event_to_json X Y e)"
  using assms event_json_plain [of e Y] event_round_trip_aux [of X Y e]
  by (auto simp: event_from_json_def event_to_json_def json_laws_def ok_or_def Suc_le_eq)

lemma unsigned_visit_entry_wf:
  "unsigned_visit_entry X f key v = Inr f' \<Longrightarrow> fields_wf X f \<Longrightarrow> fields_wf X f'"
  by (auto simp: unsigned_visit_entry_def fields_wf_def res_bind_Inr_iff set_field_Inr map_err_Inr_iff
      split: if_splits dest: de_value_wf)

lemma unsigned_visit_map_wf: "unsigned_visit_map X f es = Inr f' \<Longrightarrow> fields_wf X f \<Longrightarrow> fields_wf X f'"
  by (induction es arbitrary: f) (auto simp: res_bind_Inr_iff dest: unsigned_visit_entry_wf)

lemma unsigned_from_json_wf:
  assumes "unsigned_from_json X J s = Inr u"
  shows "unsigned_wf X u"
proof -
  obtain j where j: "unsigned_deserialize X j = Inr u"
    using assms by (auto simp: unsigned_from_json_def res_bind_Inr_iff map_err_Inr_iff)
  then show ?thesis
  proof (cases j)
    case (JArr js)
    with j show ?thesis
      by (auto simp: unsigned_deserialize_def decode_iffs unsigned_visit_seq_def unsigned_wf_def dest: de_value_wf)
  next
    case (JObj es)
    then obtain f where "unsigned_visit_map X no_fields es = Inr f" and u: "unsigned_from_fields f = Inr u"
      using j by (auto simp: unsigned_deserialize_def res_bind_Inr_iff)
    then have "fields_wf X f"
      using unsigned_visit_map_wf [of X no_fields es f] by (simp add: fields_wf_def no_fields_def)
    with u show ?thesis
      by (auto simp: unsigned_from_fields_def unsigned_wf_def fields_wf_def res_bind_Inr_iff ok_or_def
          split: option.splits)
  qed (simp_all add: unsigned_deserialize_def)
qed

section \<open>Lemmas on seals and wraps\<close>

lemma nip44_both_ways:
  assumes "cipher_laws X E" and "str_wf s" and "1 \<le> length s" and "length s \<le> MAX_PLAINTEXT_BYTES"
    and "length nonce = NONCE_BYTES"
  obtains b where "nip44_encrypt E (Inr nonce) sk (keypair_public X r) s = Inr (b64_encode E b)"
    and "nip44_decrypt E r (keypair_public X sk) (b64_encode E b) = Inr s"
proof -
  let ?ck = "conversation_key E sk (keypair_public X r)"
  have "res_bind (encrypt_inner E ?ck s nonce) (decrypt_with_conversation_key E ?ck) = Inr s"
    using assms by (intro decrypt_encrypt_inner) (simp_all add: NONCE_BYTES_def)
  moreover obtain b where "encrypt_inner E ?ck s nonce = Inr (b64_encode E b)"
    using encrypt_inner_ok [OF assms(3,4)] by blast
  ultimately show thesis
    using conversation_key_symmetric [OF assms(1), of sk r]
    by (auto intro!: that simp: nip44_encrypt_def nip44_decrypt_def)
qed

lemma signed_event:
  assumes "hex_laws X" and "schnorr_laws X" and "size_laws X Y B E" and "secret_key_wf B sk"
    and "b_created_at b = Some at" and "list_all tag_wf (items (b_tags b))"
  obtains e where "builder_sign_with_keys X None b (keys_from_secret_key X sk) = Inr e"
    and "verify X e = Inr ()" and "event_wf X e" and "ev_pubkey e = keypair_public X sk"
    and "ev_kind e = b_kind b" and "ev_tags e = items (b_tags b)" and "ev_content e = b_content b"
    and "ev_created_at e = at"
proof -
  let ?ks = "keys_from_secret_key X sk"
  let ?u = "unsigned_new X (keypair_public X sk) at (b_kind b) (items (b_tags b)) (b_content b)"
  obtain e where e: "unsigned_sign_with_keys X ?u ?ks = Inr e"
    by (simp add: unsigned_sign_with_keys_def keys_from_secret_key_def unsigned_new_def Let_def)
  have "builder_sign_with_keys X None b ?ks = Inr e"
    using assms(5) e by (simp add: builder_sign_with_keys_def build_unsigned_def keys_from_secret_key_def)
  moreover have "event_wf X e" and "ev_kind e = b_kind b" and "ev_tags e = items (b_tags b)"
    and "ev_content e = b_content b" and "ev_created_at e = at"
    using e assms(3,4,6)
    by (auto simp: unsigned_sign_with_keys_def keys_from_secret_key_def unsigned_new_def Let_def event_wf_def
        event_id_wf_def EVENT_ID_SIZE_def compute_id_def compute_event_id_def compute_from_canonical_def
        size_laws_def keys_sign_schnorr_def)
  ultimately show thesis using that sign_verifies_aux [OF assms(2) e] by blast
qed

text \<open>A seal is made whenever the rumor's JSON fits, and what it is.\<close>

lemma create_seal_ok:
  assumes laws: "envelope_laws X Y B E J" and a: "secret_key_wf B a" and n: "length nonce = NONCE_BYTES"
    and u: "unsigned_wf X u" "tags_text (u_tags u)" "str_wf (u_content u)"
    and len: "length (unsigned_to_json X u) \<le> MAX_PLAINTEXT_BYTES"
  obtains seal where "create_seal X E (Inr nonce) (keys_from_secret_key X a) (keypair_public X r) u at = Inr seal"
    and "verify X seal = Inr ()" and "event_wf X seal" and "ev_pubkey seal = keypair_public X a"
    and "ev_kind seal = SEAL" and "ev_tags seal = []" and "ev_created_at seal = at" and "str_wf (ev_content seal)"
    and "nip44_decrypt E r (keypair_public X a) (ev_content seal) = Inr (unsigned_to_json X u)"
proof -
  note L = envelope_lawsD [OF laws]
  note js = unsigned_json_round_trip [OF L(1,5) u]
  obtain b where enc: "nip44_encrypt E (Inr nonce) a (keypair_public X r) (unsigned_to_json X u) = Inr (b64_encode E b)"
    and dec: "nip44_decrypt E r (keypair_public X a) (b64_encode E b) = Inr (unsigned_to_json X u)"
    by (rule nip44_both_ways [OF L(4) js(2,3) len n])
  let ?b = "builder_created_at at (builder_new SEAL (b64_encode E b))"
  obtain e where "builder_sign_with_keys X None ?b (keys_from_secret_key X a) = Inr e"
    and "verify X e = Inr ()" and "event_wf X e" and "ev_pubkey e = keypair_public X a"
    and "ev_kind e = b_kind ?b" and "ev_tags e = items (b_tags ?b)" and "ev_content e = b_content ?b"
    and "ev_created_at e = at"
    by (rule signed_event [OF L(1,2,6) a, of ?b at])
      (simp_all add: builder_created_at_def builder_new_def tags_new_def)
  moreover have "str_wf (b64_encode E b)" using L(6) by (simp add: size_laws_def)
  ultimately show thesis
    using enc dec that
    by (simp add: create_seal_def keys_from_secret_key_def builder_created_at_def builder_new_def tags_new_def)
qed

lemma create_gift_wrap_ok:
  assumes laws: "envelope_laws X Y B E J" and sk: "secret_key_wf B sk" and n: "length nonce = NONCE_BYTES"
    and seal: "event_wf X seal" "tags_text (ev_tags seal)" "str_wf (ev_content seal)"
    and len: "length (event_to_json X Y seal) \<le> MAX_PLAINTEXT_BYTES"
  obtains g where "create_gift_wrap X Y B E (Inr sk) (Inr nonce) seal (keypair_public X r) hint at = Inr g"
    and "verify X g = Inr ()" and "ev_pubkey g = keypair_public X sk" and "ev_kind g = GIFT_WRAP"
    and "ev_tags g = [gift_wrap_tag X (keypair_public X r) hint]" and "ev_created_at g = at"
    and "nip44_decrypt E r (keypair_public X sk) (ev_content g) = Inr (event_to_json X Y seal)"
proof -
  note L = envelope_lawsD [OF laws]
  have "str_wf (sig_to_string Y (ev_sig seal))" using L(6) by (simp add: size_laws_def)
  note js = event_json_round_trip [OF L(1,3,5) seal this]
  obtain b where enc: "nip44_encrypt E (Inr nonce) sk (keypair_public X r) (event_to_json X Y seal) = Inr (b64_encode E b)"
    and dec: "nip44_decrypt E r (keypair_public X sk) (b64_encode E b) = Inr (event_to_json X Y seal)"
    by (rule nip44_both_ways [OF L(4) js(2,3) len n])
  let ?t = "gift_wrap_tag X (keypair_public X r) hint"
  let ?b = "builder_tag ?t (builder_created_at at (builder_new GIFT_WRAP (b64_encode E b)))"
  have b: "b_created_at ?b = Some at" "items (b_tags ?b) = [?t]" "b_kind ?b = GIFT_WRAP" "b_content ?b = b64_encode E b"
    by (simp_all add: builder_tag_def builder_created_at_def builder_new_def tags_new_def tags_push_def
        erase_indexes_def Let_def)
  have "list_all tag_wf (items (b_tags ?b))"
    unfolding b(2) by (simp add: gift_wrap_tag_def tag_with_def tag_wf_def)
  then obtain e where "builder_sign_with_keys X None ?b (keys_from_secret_key X sk) = Inr e"
    and "verify X e = Inr ()" and "event_wf X e" and "ev_pubkey e = keypair_public X sk"
    and "ev_kind e = b_kind ?b" and "ev_tags e = items (b_tags ?b)" and "ev_content e = b_content ?b"
    and "ev_created_at e = at"
    by (rule signed_event [OF L(1,2,6) sk b(1)])
  moreover have "keys_generate X B (Inr sk) = Inr (keys_from_secret_key X sk)"
    using sk by (simp add: keys_generate_def secret_key_generate_def secret_key_from_byte_array_def secret_key_wf_def)
  ultimately show thesis
    using enc dec that unfolding b by (simp add: create_gift_wrap_def keys_from_secret_key_def)
qed

text \<open>Sealing and wrapping any rumor, then unwrapping it as the recipient.\<close>

lemma unwrap_wrapped:
  assumes laws: "envelope_laws X Y B E J" and a: "secret_key_wf B a" and d: "wrap_draws_wf B d"
    and u: "unsigned_wf X u" "tags_text (u_tags u)" "str_wf (u_content u)"
    and len: "length (unsigned_to_json X u) \<le> MAX_PLAINTEXT_BYTES"
    and fits: "\<And>seal. create_seal X E (wd_seal_nonce d) (keys_from_secret_key X a) (keypair_public X r) u sat = Inr seal \<Longrightarrow>
      length (event_to_json X Y seal) \<le> MAX_PLAINTEXT_BYTES"
  obtains seal g where
    "create_seal X E (wd_seal_nonce d) (keys_from_secret_key X a) (keypair_public X r) u sat = Inr seal"
    and "create_gift_wrap X Y B E (wd_ephemeral d) (wd_wrap_nonce d) seal (keypair_public X r) hint wat = Inr g"
    and "verify X g = Inr ()" and "ev_kind g = GIFT_WRAP" and "ev_created_at g = wat"
    and "\<exists>sk. wd_ephemeral d = Inr sk \<and> ev_pubkey g = keypair_public X sk"
    and "ev_tags g = [gift_wrap_tag X (keypair_public X r) hint]"
    and "gift_unwrap X Y J E (keys_from_secret_key X r) g =
      (if u_pubkey u = keypair_public X a then Inr u else Inl GwPubkeyMismatch)"
proof -
  note L = envelope_lawsD [OF laws]
  obtain n1 sk n2 where D: "wd_seal_nonce d = Inr n1" "wd_ephemeral d = Inr sk" "wd_wrap_nonce d = Inr n2"
    and n: "length n1 = NONCE_BYTES" "length n2 = NONCE_BYTES" and sk: "secret_key_wf B sk"
    using d by (auto simp: wrap_draws_wf_def)
  obtain seal where seal: "create_seal X E (Inr n1) (keys_from_secret_key X a) (keypair_public X r) u sat = Inr seal"
    "verify X seal = Inr ()" "event_wf X seal" "ev_pubkey seal = keypair_public X a"
    "ev_kind seal = SEAL" "ev_tags seal = []" "str_wf (ev_content seal)"
    "nip44_decrypt E r (keypair_public X a) (ev_content seal) = Inr (unsigned_to_json X u)"
    by (rule create_seal_ok [OF laws a n(1) u len])
  have t: "tags_text (ev_tags seal)" by (simp add: seal tags_text_def)
  have sig: "str_wf (sig_to_string Y (ev_sig seal))" using L(6) by (simp add: size_laws_def)
  have slen: "length (event_to_json X Y seal) \<le> MAX_PLAINTEXT_BYTES" using fits seal(1) D(1) by simp
  obtain g where g: "create_gift_wrap X Y B E (Inr sk) (Inr n2) seal (keypair_public X r) hint wat = Inr g"
    "verify X g = Inr ()" "ev_pubkey g = keypair_public X sk" "ev_kind g = GIFT_WRAP"
    "ev_tags g = [gift_wrap_tag X (keypair_public X r) hint]" "ev_created_at g = wat"
    "nip44_decrypt E r (keypair_public X sk) (ev_content g) = Inr (event_to_json X Y seal)"
    by (rule create_gift_wrap_ok [OF laws sk n(2) seal(3) t seal(7) slen])
  have "gift_unwrap X Y J E (keys_from_secret_key X r) g =
      (if u_pubkey u = keypair_public X a then Inr u else Inl GwPubkeyMismatch)"
    using g seal event_json_round_trip(1) [OF L(1,3,5) seal(3) t seal(7) sig]
      unsigned_json_round_trip(1) [OF L(1,5) u]
    by (simp add: gift_unwrap_def keys_from_secret_key_def)
  then show thesis by (intro that [of seal g]) (use g seal(1) D in simp_all)
qed

section \<open>Lemmas on messages to many\<close>

text \<open>The seal of a rumor must fit the second encryption.\<close>

definition seal_fits ::
  "crates \<Rightarrow> sig_text \<Rightarrow> cipher_crates \<Rightarrow> wrap_draws \<Rightarrow> secret_key \<Rightarrow> secret_key \<Rightarrow> unsigned_event \<Rightarrow> timestamp \<Rightarrow> bool" where
  "seal_fits X Y E d a r u sat \<longleftrightarrow>
     (case create_seal X E (wd_seal_nonce d) (keys_from_secret_key X a) (keypair_public X r) u sat of
        Inr seal \<Rightarrow> length (event_to_json X Y seal) \<le> MAX_PLAINTEXT_BYTES
      | Inl _ \<Rightarrow> True)"

definition ephemeral_key :: "crates \<Rightarrow> wrap_draws \<Rightarrow> public_key" where
  "ephemeral_key X d = (case wd_ephemeral d of Inr sk \<Rightarrow> keypair_public X sk | Inl _ \<Rightarrow> [])"

text \<open>\<open>g\<close> is a valid wrap for the key and relay hint \<open>p\<close>, and its recipient reads the rumor \<open>u\<close>.\<close>

definition delivered ::
  "crates \<Rightarrow> sig_text \<Rightarrow> (string \<Rightarrow> json option) \<Rightarrow> cipher_crates \<Rightarrow> unsigned_event \<Rightarrow> timestamp \<Rightarrow>
   secret_key \<times> relay_url option \<Rightarrow> event \<Rightarrow> bool" where
  "delivered X Y J E u wat p g \<longleftrightarrow>
     verify X g = Inr () \<and> ev_kind g = GIFT_WRAP \<and> ev_created_at g = wat \<and>
     ev_tags g = [gift_wrap_tag X (keypair_public X (fst p)) (snd p)] \<and>
     gift_unwrap X Y J E (keys_from_secret_key X (fst p)) g = Inr u"

definition recipient_of :: "crates \<Rightarrow> secret_key \<times> relay_url option \<Rightarrow> recipient" where
  "recipient_of X p = \<lparr>rc_public_key = keypair_public X (fst p), rc_relay_hint = snd p\<rparr>"

definition rumor_ok :: "crates \<Rightarrow> secret_key \<Rightarrow> unsigned_event \<Rightarrow> bool" where
  "rumor_ok X a u \<longleftrightarrow>
     unsigned_wf X u \<and> tags_text (u_tags u) \<and> str_wf (u_content u) \<and> u_pubkey u = keypair_public X a \<and>
     length (unsigned_to_json X u) \<le> MAX_PLAINTEXT_BYTES"

lemma wrap_delivered:
  assumes "envelope_laws X Y B E J" and "secret_key_wf B a" and "wrap_draws_wf B d" and "rumor_ok X a u"
    and "seal_fits X Y E d a (fst p) u sat"
  obtains seal g where
    "create_seal X E (wd_seal_nonce d) (keys_from_secret_key X a) (keypair_public X (fst p)) u sat = Inr seal"
    and "create_gift_wrap X Y B E (wd_ephemeral d) (wd_wrap_nonce d) seal (keypair_public X (fst p)) (snd p) wat = Inr g"
    and "delivered X Y J E u wat p g" and "ev_pubkey g = ephemeral_key X d"
proof -
  have u: "unsigned_wf X u" "tags_text (u_tags u)" "str_wf (u_content u)"
    "length (unsigned_to_json X u) \<le> MAX_PLAINTEXT_BYTES" and pk: "u_pubkey u = keypair_public X a"
    using assms(4) by (simp_all add: rumor_ok_def)
  obtain seal g where
    "create_seal X E (wd_seal_nonce d) (keys_from_secret_key X a) (keypair_public X (fst p)) u sat = Inr seal"
    and "create_gift_wrap X Y B E (wd_ephemeral d) (wd_wrap_nonce d) seal (keypair_public X (fst p)) (snd p) wat = Inr g"
    and "verify X g = Inr ()" and "ev_kind g = GIFT_WRAP" and "ev_created_at g = wat"
    and "\<exists>sk. wd_ephemeral d = Inr sk \<and> ev_pubkey g = keypair_public X sk"
    and "ev_tags g = [gift_wrap_tag X (keypair_public X (fst p)) (snd p)]"
    and "gift_unwrap X Y J E (keys_from_secret_key X (fst p)) g =
      (if u_pubkey u = keypair_public X a then Inr u else Inl GwPubkeyMismatch)"
    by (rule unwrap_wrapped [OF assms(1-3) u, where sat = sat and wat = wat and hint = "snd p" and r = "fst p"])
      (use assms(5) in \<open>simp_all add: seal_fits_def\<close>)
  then show thesis by (intro that) (auto simp: delivered_def pk ephemeral_key_def)
qed

lemma wrap_loop_delivered:
  assumes "envelope_laws X Y B E J" and "secret_key_wf B a" and "\<And>n. wrap_draws_wf B (d n)" and "rumor_ok X a u"
    and "\<And>n p. p \<in> set ps \<Longrightarrow> seal_fits X Y E (d n) a (fst p) u (ts_seal ts)"
  shows "\<exists>ws. wrap_loop X Y B E d (keys_from_secret_key X a) u ts n (map (recipient_of X) ps) acc = Inr (acc @ ws) \<and>
    list_all2 (delivered X Y J E u (ts_wrap ts)) ps ws \<and>
    map ev_pubkey ws = map (\<lambda>i. ephemeral_key X (d i)) [n..<n + length ps]"
  using assms(5)
proof (induction ps arbitrary: n acc)
  case (Cons p ps)
  obtain seal g where g:
    "create_seal X E (wd_seal_nonce (d n)) (keys_from_secret_key X a) (keypair_public X (fst p)) u (ts_seal ts) = Inr seal"
    "create_gift_wrap X Y B E (wd_ephemeral (d n)) (wd_wrap_nonce (d n)) seal (keypair_public X (fst p)) (snd p) (ts_wrap ts) = Inr g"
    "delivered X Y J E u (ts_wrap ts) p g" "ev_pubkey g = ephemeral_key X (d n)"
    by (rule wrap_delivered [OF assms(1-4), where p = p and sat = "ts_seal ts" and wat = "ts_wrap ts"])
      (use Cons.prems in simp_all)
  obtain ws where ws: "wrap_loop X Y B E d (keys_from_secret_key X a) u ts (Suc n) (map (recipient_of X) ps) (acc @ [g]) =
      Inr ((acc @ [g]) @ ws)" "list_all2 (delivered X Y J E u (ts_wrap ts)) ps ws"
    "map ev_pubkey ws = map (\<lambda>i. ephemeral_key X (d i)) [Suc n..<Suc n + length ps]"
    using Cons.IH [of "Suc n" "acc @ [g]"] Cons.prems by auto
  have "map ev_pubkey (g # ws) = map (\<lambda>i. ephemeral_key X (d i)) (n # [Suc n..<Suc n + length ps])"
    using g(4) ws(3) by (simp del: upt_Suc)
  also have "n # [Suc n..<Suc n + length ps] = [n..<n + length (p # ps)]" by (simp add: upt_rec)
  finally have "map ev_pubkey (g # ws) = map (\<lambda>i. ephemeral_key X (d i)) [n..<n + length (p # ps)]" .
  moreover have "rc_public_key (recipient_of X p) = keypair_public X (fst p)" "rc_relay_hint (recipient_of X p) = snd p"
    by (simp_all add: recipient_of_def)
  ultimately show ?case using g(1-3) ws(1,2) by (intro exI [of _ "g # ws"]) (simp del: upt_Suc)
qed simp

text \<open>The rumor of a chat message is typed, and its texts are Rust strings.\<close>

lemma chat_rumor:
  fixes at :: timestamp
  assumes "hex_laws X" and "size_laws X Y B E" and "secret_key_wf B a" and "str_wf message"
    and "\<And>r h. r \<in> set rs \<Longrightarrow> rc_relay_hint r = Some h \<Longrightarrow> str_wf h"
    and "\<And>s. subject = Some s \<Longrightarrow> str_wf s"
    and "\<And>r h. reply = Some r \<Longrightarrow> rt_relay_hint r = Some h \<Longrightarrow> str_wf h"
  defines "u \<equiv> build_chat_message_rumor X (keys_from_secret_key X a) rs message at subject reply"
  shows "unsigned_wf X u" and "tags_text (u_tags u)" and "str_wf (u_content u)"
    and "u_pubkey u = keypair_public X a" and "u_kind u = PRIVATE_DIRECT_MESSAGE"
proof -
  have heads: "str_wf (tag_kind_as_str (SingleLetter (lowercase_tag L_P)))"
    "str_wf (tag_kind_as_str (SingleLetter (lowercase_tag L_E)))" "str_wf SUBJECT_TAG" "str_wf REPLY_MARKER"
    by code_simp+
  have hex: "hex_string X b = fmt_lower b" for b using assms(1) by (simp add: hex_laws_def)
  have empty: "str_wf []" by (simp add: str_wf_def)
  show "unsigned_wf X u"
    using assms(2,3)
    by (auto simp: u_def build_chat_message_rumor_def Let_def unsigned_wf_def unsigned_new_def keys_from_secret_key_def
        size_laws_def event_id_wf_def EVENT_ID_SIZE_def compute_event_id_def compute_from_canonical_def list_all_iff tag_wf_def
        tag_with_def split: option.splits)
  show "tags_text (u_tags u)"
    using assms(5-7) heads empty
    by (auto simp: u_def build_chat_message_rumor_def Let_def unsigned_new_def tags_text_def tag_with_def
        public_key_to_hex_def event_id_to_hex_def hex_encode_def hex as_str_from_wire split: option.splits)
qed (use assms(4) in \<open>simp_all add: u_def build_chat_message_rumor_def Let_def unsigned_new_def keys_from_secret_key_def\<close>)

section \<open>Lemmas on drawn timestamps\<close>

lemma random_past_offset:
  assumes "length bytes = 8"
  shows "\<exists>t. random_past_timestamp (Some now) (Inr bytes) = Inr t \<and>
    unat t = unat now - be_nat (rev bytes) mod 172800"
proof -
  have "be_nat (rev bytes) < 2 ^ 64" using be_nat_less [of "rev bytes"] assms by simp
  then have "unat (of_nat (be_nat (rev bytes)) mod TWO_DAYS_SECS) = be_nat (rev bytes) mod 172800"
    by (simp add: unat_mod unat_of_nat TWO_DAYS_SECS_def)
  then show ?thesis by (simp add: random_past_timestamp_def ok_or_def Let_def unat_saturating_sub)
qed

end
