(* ===== verification/Sample_Json.thy ===== *)
theory Sample_Json
  imports Gift_Wrap Sample_Ciphers Protocol_Theorems
begin

text \<open>
  A concrete JSON crate for the gift-wrap theorems: a printer whose strings, arrays and objects carry
  their lengths, and the parser that reads them back.
\<close>

section \<open>Printing and reading\<close>

definition unary :: "nat \<Rightarrow> string" where
  "unary n = replicate n CHR ''1'' @ '':''"

definition put_str :: "string \<Rightarrow> string" where
  "put_str s = unary (length s) @ s"

fun put_json :: "json \<Rightarrow> string" where
  "put_json JNull = ''n''"
| "put_json (JBool b) = (if b then ''t'' else ''f'')"
| "put_json (JNum n) = (if n < 0 then ''-'' else ''+'') @ unary (nat \<bar>n\<bar>)"
| "put_json (JFloat s) = ''d'' @ put_str s"
| "put_json (JStr s) = ''s'' @ put_str s"
| "put_json (JArr js) = ''a'' @ unary (length js) @ concat (map put_json js)"
| "put_json (JObj es) = ''o'' @ unary (length es) @ concat (map (\<lambda>e. put_str (fst e) @ put_json (snd e)) es)"

definition get_nat :: "string \<Rightarrow> nat \<times> string" where
  "get_nat s = (length (takeWhile (\<lambda>c. c = CHR ''1'') s), drop 1 (dropWhile (\<lambda>c. c = CHR ''1'') s))"

definition get_str :: "string \<Rightarrow> string \<times> string" where
  "get_str s = (let p = get_nat s in (take (fst p) (snd p), drop (fst p) (snd p)))"

primrec get_many :: "(string \<Rightarrow> ('a \<times> string) option) \<Rightarrow> nat \<Rightarrow> string \<Rightarrow> ('a list \<times> string) option" where
  "get_many f 0 s = Some ([], s)"
| "get_many f (Suc n) s =
     Option.bind (f s) (\<lambda>p. map_option (\<lambda>q. (fst p # fst q, snd q)) (get_many f n (snd p)))"

fun get_json :: "nat \<Rightarrow> string \<Rightarrow> (json \<times> string) option" where
  "get_json d [] = None"
| "get_json 0 (c # s) = None"
| "get_json (Suc d) (c # s) =
     (if c = CHR ''n'' then Some (JNull, s)
      else if c = CHR ''t'' then Some (JBool True, s)
      else if c = CHR ''f'' then Some (JBool False, s)
      else if c = CHR ''+'' then (let p = get_nat s in Some (JNum (int (fst p)), snd p))
      else if c = CHR ''-'' then (let p = get_nat s in Some (JNum (- int (fst p)), snd p))
      else if c = CHR ''s'' then (let p = get_str s in Some (JStr (fst p), snd p))
      else if c = CHR ''a'' then
        (let p = get_nat s
         in map_option (\<lambda>q. (JArr (fst q), snd q)) (get_many (get_json d) (fst p) (snd p)))
      else if c = CHR ''o'' then
        (let p = get_nat s
         in map_option (\<lambda>q. (JObj (fst q), snd q))
              (get_many (\<lambda>t. let k = get_str t in map_option (\<lambda>q. ((fst k, fst q), snd q)) (get_json d (snd k)))
                 (fst p) (snd p)))
      else None)"

definition sample_json_crates :: crates where
  "sample_json_crates = sample_crates\<lparr>json_bytes := (\<lambda>j. body_bytes (put_json j))\<rparr>"

definition sample_reader :: "string \<Rightarrow> json option" where
  "sample_reader s = (case get_json 128 s of Some (j, []) \<Rightarrow> Some j | _ \<Rightarrow> None)"

section \<open>Reading back\<close>

lemma get_nat_unary [simp]: "get_nat (unary n @ r) = (n, r)"
  by (simp add: get_nat_def unary_def takeWhile_append dropWhile_append)

lemma get_str_put [simp]: "get_str (put_str s @ r) = (s, r)"
  by (simp add: get_str_def put_str_def)

lemma get_many_put:
  "(\<And>x r. x \<in> set xs \<Longrightarrow> f (g x @ r) = Some (x, r)) \<Longrightarrow>
   get_many f (length xs) (concat (map g xs) @ r) = Some (xs, r)"
  by (induction xs arbitrary: r) auto

lemma get_put_json: "json_plain d j \<Longrightarrow> get_json (Suc d) (put_json j @ r) = Some (j, r)"
proof (induction d arbitrary: j r)
  case 0
  then show ?case by (cases j) auto
next
  case (Suc d)
  show ?case
  proof (cases j)
    case (JArr js)
    then show ?thesis using Suc get_many_put [of js "get_json (Suc d)" put_json r] by simp
  next
    case (JObj es)
    then show ?thesis
      using Suc get_many_put [of es "\<lambda>t. let k = get_str t in map_option (\<lambda>q. ((fst k, fst q), snd q)) (get_json (Suc d) (snd k))"
          "\<lambda>e. put_str (fst e) @ put_json (snd e)" r]
      by simp
  qed (use Suc.prems in auto)
qed

lemma utf8_valid_append: "utf8_valid a \<Longrightarrow> utf8_valid b \<Longrightarrow> utf8_valid (a @ b)"
  by (induction a rule: utf8_valid.induct) (auto split: if_splits list.splits)

lemma str_wf_Nil [simp]: "str_wf []"
  by (simp add: str_wf_def)

lemma str_wf_append: "str_wf a \<Longrightarrow> str_wf b \<Longrightarrow> str_wf (a @ b)"
  by (simp add: str_wf_def utf8_valid_append)

lemma str_wf_concat: "(\<And>s. s \<in> set ss \<Longrightarrow> str_wf s) \<Longrightarrow> str_wf (concat ss)"
  by (induction ss) (auto simp: str_wf_append)

lemma str_wf_Cons: "(of_char c :: nat) < 128 \<Longrightarrow> str_wf s \<Longrightarrow> str_wf (c # s)"
  by (simp add: str_wf_def)

lemma str_wf_unary: "str_wf (unary n)"
  by (rule str_wf_ascii) (auto simp: unary_def)

lemma str_wf_put_str: "str_wf s \<Longrightarrow> str_wf (put_str s)"
  by (simp add: put_str_def str_wf_append str_wf_unary)

lemma str_wf_put_json: "json_plain d j \<Longrightarrow> str_wf (put_json j)"
proof (induction d j rule: json_plain.induct)
  case (7 d js)
  then show ?case by (auto intro!: str_wf_Cons str_wf_append str_wf_unary str_wf_concat)
next
  case (9 d es)
  then show ?case by (auto intro!: str_wf_Cons str_wf_append str_wf_unary str_wf_concat str_wf_put_str)
qed (auto intro!: str_wf_Cons str_wf_append str_wf_unary str_wf_put_str simp: str_wf_ascii)

lemma sample_json_laws: "json_laws sample_json_crates sample_reader"
proof -
  have printed: "json_to_string sample_json_crates j = put_json j" for j
    using bytes_string_bytes [of "put_json j"]
    by (simp add: json_to_string_def sample_json_crates_def bytes_string_def)
  have "put_json j \<noteq> []" for j by (cases j) auto
  moreover have "sample_reader (put_json j) = Some j" if "json_plain 127 j" for j
    using get_put_json [OF that, of "[]"] by (simp add: sample_reader_def)
  ultimately show ?thesis by (auto simp: json_laws_def printed str_wf_put_json)
qed

end
