(* ===== verification/Delegation.thy ===== *)
theory Delegation
  imports Relay_Http
begin

text \<open>
  Delegated event signing (nips/nip26.rs): condition strings, delegation tokens, and the check of the
  \<open>delegation\<close> tag of an event. The text form of a signature is the argument \<open>Y\<close>.
\<close>

section \<open>Conditions\<close>

datatype condition =
    CondKind kind
  | CreatedAfter timestamp
  | CreatedBefore timestamp

type_synonym conditions = "condition list"

datatype conditions_error = UnsupportedClause string | InvalidValue string

primrec condition_to_string :: "condition \<Rightarrow> string" where
  "condition_to_string (CondKind k) = ''kind='' @ show_word k"
| "condition_to_string (CreatedAfter ts) = ''created_at>'' @ show_word ts"
| "condition_to_string (CreatedBefore ts) = ''created_at<'' @ show_word ts"

definition conditions_new :: conditions where
  "conditions_new = []"

definition allow_kind :: "kind \<Rightarrow> conditions \<Rightarrow> conditions" where
  "allow_kind k cs = cs @ [CondKind k]"

definition cond_after :: "timestamp \<Rightarrow> conditions \<Rightarrow> conditions" where
  "cond_after ts cs = cs @ [CreatedAfter ts]"

definition cond_before :: "timestamp \<Rightarrow> conditions \<Rightarrow> conditions" where
  "cond_before ts cs = cs @ [CreatedBefore ts]"

definition conditions_is_empty :: "conditions \<Rightarrow> bool" where
  "conditions_is_empty cs \<longleftrightarrow> cs = []"

fun render_loop :: "nat \<Rightarrow> conditions \<Rightarrow> string \<Rightarrow> string" where
  "render_loop i [] out = out"
| "render_loop i (c # cs) out =
     render_loop (Suc i) cs ((if i > 0 then out @ ''&'' else out) @ condition_to_string c)"

definition conditions_render :: "conditions \<Rightarrow> string" where
  "conditions_render cs = render_loop 0 cs []"

text \<open>\<open>str::split\<close> at a character.\<close>

fun str_split :: "char \<Rightarrow> string \<Rightarrow> string list" where
  "str_split c [] = [[]]"
| "str_split c (x # xs) =
     (if x = c then [] # str_split c xs
      else case str_split c xs of [] \<Rightarrow> [[x]] | p # ps \<Rightarrow> (x # p) # ps)"

definition parse_one :: "string \<Rightarrow> conditions_error + condition" where
  "parse_one raw =
     (case strip_prefix ''kind='' raw of
        Some rest \<Rightarrow> map_err (\<lambda>_. InvalidValue raw) (res_bind (parse_u16 rest) (\<lambda>n. Inr (CondKind n)))
      | None \<Rightarrow>
     (case strip_prefix ''created_at>'' raw of
        Some rest \<Rightarrow> map_err (\<lambda>_. InvalidValue raw) (res_bind (parse_u64 rest) (\<lambda>n. Inr (CreatedAfter n)))
      | None \<Rightarrow>
     (case strip_prefix ''created_at<'' raw of
        Some rest \<Rightarrow> map_err (\<lambda>_. InvalidValue raw) (res_bind (parse_u64 rest) (\<lambda>n. Inr (CreatedBefore n)))
      | None \<Rightarrow> Inl (UnsupportedClause raw))))"

fun parse_clauses :: "string list \<Rightarrow> conditions \<Rightarrow> conditions_error + conditions" where
  "parse_clauses [] acc = Inr acc"
| "parse_clauses (raw # raws) acc = res_bind (parse_one raw) (\<lambda>c. parse_clauses raws (acc @ [c]))"

definition conditions_parse :: "string \<Rightarrow> conditions_error + conditions" where
  "conditions_parse s = (if s = [] then Inr conditions_new else parse_clauses (str_split CHR ''&'' s) [])"

definition conditions_matches :: "conditions \<Rightarrow> kind \<Rightarrow> timestamp \<Rightarrow> bool" where
  "conditions_matches cs k created_at =
     list_all (\<lambda>c. case c of
        CondKind k' \<Rightarrow> k' = k
      | CreatedAfter ts \<Rightarrow> created_at > ts
      | CreatedBefore ts \<Rightarrow> created_at < ts) cs"

section \<open>Tokens\<close>

definition delegation_message :: "crates \<Rightarrow> public_key \<Rightarrow> conditions \<Rightarrow> string" where
  "delegation_message X delegatee cs =
     ''nostr:delegation:'' @ public_key_to_hex X delegatee @ '':'' @ conditions_render cs"

definition delegation_hash :: "crates \<Rightarrow> public_key \<Rightarrow> conditions \<Rightarrow> bytes" where
  "delegation_hash X delegatee cs = sha256 X (body_bytes (delegation_message X delegatee cs))"

definition sign_delegation :: "crates \<Rightarrow> keys \<Rightarrow> public_key \<Rightarrow> conditions \<Rightarrow> signature" where
  "sign_delegation X delegator delegatee cs = keys_sign_schnorr X delegator (delegation_hash X delegatee cs)"

definition verify_delegation :: "crates \<Rightarrow> public_key \<Rightarrow> public_key \<Rightarrow> conditions \<Rightarrow> signature \<Rightarrow> bool" where
  "verify_delegation X delegator delegatee cs token =
     verify_schnorr_ok X token (delegation_hash X delegatee cs) delegator"

definition DELEGATION_TAG_KEY :: string where "DELEGATION_TAG_KEY = ''delegation''"

definition tag_delegation :: "crates \<Rightarrow> sig_text \<Rightarrow> public_key \<Rightarrow> conditions \<Rightarrow> signature \<Rightarrow> tag" where
  "tag_delegation X Y delegator cs token =
     tag_with (Custom DELEGATION_TAG_KEY) [public_key_to_hex X delegator, conditions_render cs, sig_to_string Y token]"

record delegation =
  dg_delegator :: public_key
  dg_conditions :: conditions
  dg_token :: signature

datatype delegation_error =
    DelegationMissing
  | DelegationPubkey public_key_error
  | DelegationConditions conditions_error
  | DelegationToken
  | DelegationInvalidSignature
  | ConditionsViolated

definition is_delegation_tag :: "tag_kind \<Rightarrow> bool" where
  "is_delegation_tag k = (case k of Custom s \<Rightarrow> s = DELEGATION_TAG_KEY | _ \<Rightarrow> False)"

fun parse_delegation :: "crates \<Rightarrow> sig_text \<Rightarrow> tag list \<Rightarrow> delegation_error + delegation" where
  "parse_delegation X Y [] = Inl DelegationMissing"
| "parse_delegation X Y (t # ts) =
     (if \<not> is_delegation_tag (tag_head t) then parse_delegation X Y ts
      else let values = tag_values t in
        if length values \<le> 3 then Inl DelegationMissing
        else
          res_bind (map_err DelegationPubkey (public_key_parse X (values ! 1))) (\<lambda>delegator.
          res_bind (map_err DelegationConditions (conditions_parse (values ! 2))) (\<lambda>cs.
          res_bind (ok_or DelegationToken (sig_from_str Y (values ! 3))) (\<lambda>token.
          Inr \<lparr>dg_delegator = delegator, dg_conditions = cs, dg_token = token\<rparr>))))"

definition verify_event_delegation :: "crates \<Rightarrow> sig_text \<Rightarrow> event \<Rightarrow> delegation_error + delegation" where
  "verify_event_delegation X Y e =
     res_bind (parse_delegation X Y (ev_tags e)) (\<lambda>d.
     if \<not> verify_delegation X (dg_delegator d) (ev_pubkey e) (dg_conditions d) (dg_token d)
     then Inl DelegationInvalidSignature
     else if \<not> conditions_matches (dg_conditions d) (ev_kind e) (ev_created_at e) then Inl ConditionsViolated
     else Inr d)"

section \<open>Lemmas on conditions\<close>

lemma str_split_plain: "c \<notin> set p \<Longrightarrow> str_split c p = [p]"
  by (induction p) auto

lemma str_split_at: "c \<notin> set p \<Longrightarrow> str_split c (p @ c # s) = p # str_split c s"
  by (induction p) auto

lemma show_word_plain: "\<not> is_ascii_digit c \<Longrightarrow> c \<notin> set (show_word w)"
  using show_word_chars by blast

lemma condition_plain: "CHR ''&'' \<notin> set (condition_to_string c)" "condition_to_string c \<noteq> []"
  by (cases c; simp add: show_word_plain is_ascii_digit_def)+

lemma strip_prefix_append [simp]: "strip_prefix p (p @ s) = Some s"
  by (simp add: strip_prefix_def)

lemma parse_one_condition: "parse_one (condition_to_string c) = Inr c"
  by (cases c) (simp_all add: parse_one_def strip_prefix_def)

lemma render_loop_later:
  "0 < i \<Longrightarrow> render_loop i cs out = out @ concat (map (\<lambda>c. CHR ''&'' # condition_to_string c) cs)"
  by (induction i cs out rule: render_loop.induct) auto

lemma conditions_render_simps:
  "conditions_render [] = []"
  "conditions_render (c # cs) = condition_to_string c @ concat (map (\<lambda>c. CHR ''&'' # condition_to_string c) cs)"
  by (simp_all add: conditions_render_def render_loop_later)

lemma split_render: "str_split CHR ''&'' (conditions_render (c # cs)) = map condition_to_string (c # cs)"
  by (induction cs arbitrary: c) (simp_all add: conditions_render_simps str_split_plain str_split_at condition_plain)

lemma parse_clauses_conditions: "parse_clauses (map condition_to_string cs) acc = Inr (acc @ cs)"
  by (induction cs arbitrary: acc) (simp_all add: parse_one_condition)

lemma conditions_parse_render: "conditions_parse (conditions_render cs) = Inr cs"
proof (cases cs)
  case (Cons c ds)
  then have "conditions_render cs \<noteq> []" by (simp add: conditions_render_simps condition_plain)
  then show ?thesis by (simp add: conditions_parse_def Cons split_render parse_clauses_conditions del: list.map)
qed (simp add: conditions_parse_def conditions_render_simps conditions_new_def)

section \<open>Lemmas on delegation tags\<close>

lemma delegation_tag_head: "is_delegation_tag (tag_head (tag_delegation X Y p cs s))"
  by (simp add: is_delegation_tag_def tag_delegation_def tag_head_def tag_with_def DELEGATION_TAG_KEY_def
      tag_kind_as_str_def from_wire_two)

lemma parse_delegation_skip:
  "\<forall>t \<in> set pre. \<not> is_delegation_tag (tag_head t) \<Longrightarrow> parse_delegation X Y (pre @ ts) = parse_delegation X Y ts"
  by (induction pre) auto

lemma parse_delegation_tag:
  assumes "hex_laws X" and "sig_laws Y" and "public_key_wf X p" and "length s = 64"
  shows "parse_delegation X Y (tag_delegation X Y p cs s # ts) =
    Inr \<lparr>dg_delegator = p, dg_conditions = cs, dg_token = s\<rparr>"
  using assms delegation_tag_head [of X Y p cs s] public_key_parse_hex [OF assms(1,3)]
  by (simp add: tag_delegation_def tag_with_def conditions_parse_render sig_laws_def ok_or_def)

lemma parse_delegation_Inr:
  assumes "parse_delegation X Y ts = Inr d"
  obtains pre t post where "ts = pre @ t # post" and "\<forall>t' \<in> set pre. \<not> is_delegation_tag (tag_head t')"
    and "is_delegation_tag (tag_head t)" and "3 < length (tag_values t)"
    and "public_key_parse X (tag_values t ! 1) = Inr (dg_delegator d)"
    and "conditions_parse (tag_values t ! 2) = Inr (dg_conditions d)"
    and "sig_from_str Y (tag_values t ! 3) = Some (dg_token d)"
  using assms
proof (induction ts arbitrary: thesis)
  case (Cons t ts)
  show ?case
  proof (cases "is_delegation_tag (tag_head t)")
    case True
    with Cons.prems(2) show ?thesis
      by (intro Cons.prems(1) [of "[]" t ts])
        (auto simp: Let_def res_bind_Inr_iff map_err_Inr_iff ok_or_Inr_iff split: if_splits)
  next
    case False
    with Cons.prems(2) have "parse_delegation X Y ts = Inr d" by simp
    then show ?thesis
    proof (rule Cons.IH [rotated])
      fix pre t' post
      assume *: "ts = pre @ t' # post" "\<forall>t'\<in>set pre. \<not> is_delegation_tag (tag_head t')"
        "is_delegation_tag (tag_head t')" "3 < length (tag_values t')"
        "public_key_parse X (tag_values t' ! 1) = Inr (dg_delegator d)"
        "conditions_parse (tag_values t' ! 2) = Inr (dg_conditions d)"
        "sig_from_str Y (tag_values t' ! 3) = Some (dg_token d)"
      show ?thesis by (rule Cons.prems(1) [of "t # pre" t' post]) (use * False in simp_all)
    qed
  qed
qed simp

end
