(* ===== verification/Threads.thy ===== *)
theory Threads
  imports Bech32_Entities
begin

text \<open>
  Replies and mentions in text notes (nips/nip10.rs): markers, references to events, the thread context of
  a note, its tags and the markers inferred for notes of the positional form.
\<close>

section \<open>Markers and references\<close>

datatype note_marker = RootMarker | ReplyMarker | MentionMarker

datatype note_marker_error = UnknownNoteMarker string

primrec note_marker_as_str :: "note_marker \<Rightarrow> string" where
  "note_marker_as_str RootMarker = ''root''"
| "note_marker_as_str ReplyMarker = ''reply''"
| "note_marker_as_str MentionMarker = ''mention''"

definition note_marker_from_str :: "string \<Rightarrow> note_marker_error + note_marker" where
  "note_marker_from_str s =
     (if s = ''root'' then Inr RootMarker
      else if s = ''reply'' then Inr ReplyMarker
      else if s = ''mention'' then Inr MentionMarker
      else Inl (UnknownNoteMarker s))"

record event_reference =
  er_event_id :: event_id
  er_relay_hint :: "relay_url option"
  er_marker :: "note_marker option"
  er_author_hint :: "public_key option"

definition event_reference_new :: "event_id \<Rightarrow> event_reference" where
  "event_reference_new i = \<lparr>er_event_id = i, er_relay_hint = None, er_marker = None, er_author_hint = None\<rparr>"

definition er_with_relay_hint :: "relay_url \<Rightarrow> event_reference \<Rightarrow> event_reference" where
  "er_with_relay_hint relay r = r\<lparr>er_relay_hint := Some relay\<rparr>"

definition er_with_marker :: "note_marker \<Rightarrow> event_reference \<Rightarrow> event_reference" where
  "er_with_marker m r = r\<lparr>er_marker := Some m\<rparr>"

definition er_with_author_hint :: "public_key \<Rightarrow> event_reference \<Rightarrow> event_reference" where
  "er_with_author_hint author r = r\<lparr>er_author_hint := Some author\<rparr>"

record thread_context =
  tc_events :: "event_reference list"
  tc_mentioned_pubkeys :: "public_key list"

definition thread_new :: thread_context where
  "thread_new = \<lparr>tc_events = [], tc_mentioned_pubkeys = []\<rparr>"

definition thread_reference :: "event_reference \<Rightarrow> thread_context \<Rightarrow> thread_context" where
  "thread_reference r tc = tc\<lparr>tc_events := tc_events tc @ [r]\<rparr>"

definition thread_mention :: "public_key \<Rightarrow> thread_context \<Rightarrow> thread_context" where
  "thread_mention pk tc = tc\<lparr>tc_mentioned_pubkeys := tc_mentioned_pubkeys tc @ [pk]\<rparr>"

definition thread_root :: "thread_context \<Rightarrow> event_reference option" where
  "thread_root tc = find (\<lambda>r. er_marker r = Some RootMarker) (tc_events tc)"

definition thread_reply :: "thread_context \<Rightarrow> event_reference option" where
  "thread_reply tc = find (\<lambda>r. er_marker r = Some ReplyMarker) (tc_events tc)"

definition thread_mentions :: "thread_context \<Rightarrow> event_reference list" where
  "thread_mentions tc = filter (\<lambda>r. er_marker r = Some MentionMarker) (tc_events tc)"

section \<open>Inferred markers\<close>

definition assign_marker :: "nat \<Rightarrow> note_marker \<Rightarrow> event_reference list \<Rightarrow> event_reference list" where
  "assign_marker idx m rs = (if idx < length rs then rs[idx := (rs ! idx)\<lparr>er_marker := Some m\<rparr>] else rs)"

definition unmarked :: "event_reference list \<Rightarrow> nat list" where
  "unmarked rs = filter (\<lambda>i. er_marker (rs ! i) = None) [0..<length rs]"

definition infer_legacy_markers :: "thread_context \<Rightarrow> thread_context" where
  "infer_legacy_markers tc =
     (case unmarked (tc_events tc) of
        [] \<Rightarrow> tc
      | [i] \<Rightarrow> tc\<lparr>tc_events := assign_marker i RootMarker (tc_events tc)\<rparr>
      | i # j # js \<Rightarrow>
          let middle = butlast (j # js); final = last (j # js);
              rs = assign_marker final ReplyMarker (assign_marker i RootMarker (tc_events tc))
          in tc\<lparr>tc_events := fold (\<lambda>k. assign_marker k MentionMarker) middle rs\<rparr>)"

section \<open>Tags\<close>

definition build_e_tag :: "crates \<Rightarrow> event_reference \<Rightarrow> tag" where
  "build_e_tag X r =
     (let event_id = event_id_to_hex X (er_event_id r);
          relay = (case er_relay_hint r of Some u \<Rightarrow> u | None \<Rightarrow> []);
          marker = (case er_marker r of Some m \<Rightarrow> note_marker_as_str m | None \<Rightarrow> []);
          author = (case er_author_hint r of Some pk \<Rightarrow> public_key_to_hex X pk | None \<Rightarrow> []);
          e_kind = SingleLetter (lowercase_tag L_E)
      in if author \<noteq> [] then tag_with e_kind [event_id, relay, marker, author]
         else if marker \<noteq> [] then tag_with e_kind [event_id, relay, marker]
         else if relay \<noteq> [] then tag_with e_kind [event_id, relay]
         else tag_with e_kind [event_id])"

definition thread_to_tags :: "crates \<Rightarrow> thread_context \<Rightarrow> tag list" where
  "thread_to_tags X tc =
     map (build_e_tag X) (tc_events tc) @
     map (\<lambda>pk. tag_with (SingleLetter (lowercase_tag L_P)) [public_key_to_hex X pk]) (tc_mentioned_pubkeys tc)"

datatype thread_error =
    NotEventTag string
  | MissingEventId
  | ThreadInvalidEventId event_id_error
  | ThreadInvalidRelay relay_url_error
  | ThreadInvalidMarker note_marker_error
  | ThreadInvalidAuthor public_key_error

text \<open>\<open>values.next()\<close> on the values after the head: the \<open>n\<close>-th, when it is there and not empty.\<close>

definition some_value :: "nat \<Rightarrow> string list \<Rightarrow> string option" where
  "some_value n vs = (if n < length vs \<and> vs ! n \<noteq> [] then Some (vs ! n) else None)"

definition parse_optional :: "(string \<Rightarrow> thread_error + 'a) \<Rightarrow> string option \<Rightarrow> thread_error + 'a option" where
  "parse_optional p v = (case v of None \<Rightarrow> Inr None | Some s \<Rightarrow> res_bind (p s) (\<lambda>x. Inr (Some x)))"

definition event_reference_from_tag ::
  "crates \<Rightarrow> url_crate \<Rightarrow> tag \<Rightarrow> thread_error + event_reference" where
  "event_reference_from_tag X U t =
     (if tag_head t \<noteq> SingleLetter (lowercase_tag L_E) then Inl (NotEventTag (tag_kind_as_str (tag_head t)))
      else let vs = tl (tag_values t) in
        if vs = [] then Inl MissingEventId
        else
          res_bind (map_err ThreadInvalidEventId (event_id_parse X (vs ! 0))) (\<lambda>i.
          res_bind (parse_optional (\<lambda>s. map_err ThreadInvalidRelay (relay_url_parse U s)) (some_value 1 vs)) (\<lambda>relay.
          res_bind (parse_optional (\<lambda>s. map_err ThreadInvalidMarker (note_marker_from_str s)) (some_value 2 vs)) (\<lambda>m.
          res_bind (parse_optional (\<lambda>s. map_err ThreadInvalidAuthor (public_key_parse X s)) (some_value 3 vs)) (\<lambda>author.
          Inr \<lparr>er_event_id = i, er_relay_hint = relay, er_marker = m, er_author_hint = author\<rparr>)))))"

definition thread_add_tag :: "crates \<Rightarrow> url_crate \<Rightarrow> tag \<Rightarrow> thread_context \<Rightarrow> thread_context" where
  "thread_add_tag X U t tc =
     (case (if tag_head t = SingleLetter (lowercase_tag L_E) then res_ok (event_reference_from_tag X U t) else None) of
        Some r \<Rightarrow> thread_reference r tc
      | None \<Rightarrow>
          (case (if tag_head t = SingleLetter (lowercase_tag L_P) \<and> 1 < length (tag_values t)
                 then res_ok (public_key_parse X (tag_values t ! 1)) else None) of
             Some pk \<Rightarrow> thread_mention pk tc
           | None \<Rightarrow> tc))"

definition thread_from_event :: "crates \<Rightarrow> url_crate \<Rightarrow> event \<Rightarrow> thread_context" where
  "thread_from_event X U e = fold (thread_add_tag X U) (ev_tags e) thread_new"

definition note_with_context :: "crates \<Rightarrow> string \<Rightarrow> thread_context \<Rightarrow> event_builder" where
  "note_with_context X content tc = builder_tags (thread_to_tags X tc) (builder_new TEXT_NOTE content)"

section \<open>Lemmas\<close>

interpretation note_marker_wire: wire_format note_marker_as_str note_marker_from_str
proof
  show "note_marker_from_str (note_marker_as_str m) = Inr m" for m
    by (cases m) (simp_all add: note_marker_from_str_def)
qed

text \<open>What the types guarantee of a reference; a relay URL is never empty.\<close>

definition event_reference_wf :: "crates \<Rightarrow> url_crate \<Rightarrow> event_reference \<Rightarrow> bool" where
  "event_reference_wf X U r \<longleftrightarrow>
     event_id_wf (er_event_id r) \<and> opt_all (\<lambda>u. u \<noteq> [] \<and> relay_url_parse U u = Inr u) (er_relay_hint r) \<and>
     opt_all (public_key_wf X) (er_author_hint r)"

definition thread_wf :: "crates \<Rightarrow> url_crate \<Rightarrow> thread_context \<Rightarrow> bool" where
  "thread_wf X U tc \<longleftrightarrow>
     (\<forall>r \<in> set (tc_events tc). event_reference_wf X U r) \<and> (\<forall>pk \<in> set (tc_mentioned_pubkeys tc). public_key_wf X pk)"

lemma note_marker_nonempty [simp]: "note_marker_as_str m \<noteq> []"
  by (cases m) simp_all

lemma some_value_simps [simp]:
  "some_value 0 (v # vs) = (if v = [] then None else Some v)" "some_value (Suc n) (v # vs) = some_value n vs"
  "some_value n [] = None"
  by (simp_all add: some_value_def)

lemma build_e_tag_head [simp]: "tag_head (build_e_tag X r) = SingleLetter (lowercase_tag L_E)"
  by (simp add: build_e_tag_def Let_def)

lemma public_key_hex_nonempty: "hex_laws X \<Longrightarrow> public_key_wf X pk \<Longrightarrow> public_key_to_hex X pk \<noteq> []"
proof -
  assume "hex_laws X" and "public_key_wf X pk"
  then have "length (public_key_to_hex X pk) = 64"
    by (simp add: public_key_to_hex_def hex_encode_def hex_laws_def public_key_wf_def PUBLIC_KEY_SIZE_def)
  then show ?thesis by auto
qed

lemma event_reference_round_trip:
  assumes "hex_laws X" and "event_reference_wf X U r"
  shows "event_reference_from_tag X U (build_e_tag X r) = Inr r"
proof -
  let ?f = "event_reference_from_tag X U"
  have i: "event_id_parse X (event_id_to_hex X (er_event_id r)) = Inr (er_event_id r)"
    using assms by (intro event_id_parse_hex) (simp_all add: event_reference_wf_def)
  have relay: "parse_optional (\<lambda>s. map_err ThreadInvalidRelay (relay_url_parse U s))
      (let v = case er_relay_hint r of Some u \<Rightarrow> u | None \<Rightarrow> [] in if v = [] then None else Some v) = Inr (er_relay_hint r)"
    using assms(2) by (auto simp: event_reference_wf_def parse_optional_def split: option.splits)
  have marker: "parse_optional (\<lambda>s. map_err ThreadInvalidMarker (note_marker_from_str s))
      (let v = case er_marker r of Some m \<Rightarrow> note_marker_as_str m | None \<Rightarrow> [] in if v = [] then None else Some v) = Inr (er_marker r)"
    by (auto simp: parse_optional_def note_marker_wire.round_trip split: option.splits)
  have author: "parse_optional (\<lambda>s. map_err ThreadInvalidAuthor (public_key_parse X s))
      (let v = case er_author_hint r of Some pk \<Rightarrow> public_key_to_hex X pk | None \<Rightarrow> [] in if v = [] then None else Some v) =
      Inr (er_author_hint r)"
    using assms public_key_hex_nonempty public_key_parse_hex
    by (auto simp: event_reference_wf_def parse_optional_def split: option.splits)
  have none: "parse_optional p None = Inr None" for p by (simp add: parse_optional_def)
  have "?f (tag_with (SingleLetter (lowercase_tag L_E)) (event_id_to_hex X (er_event_id r) # vs)) =
    res_bind (parse_optional (\<lambda>s. map_err ThreadInvalidRelay (relay_url_parse U s)) (some_value 0 vs)) (\<lambda>relay.
          res_bind (parse_optional (\<lambda>s. map_err ThreadInvalidMarker (note_marker_from_str s)) (some_value 1 vs)) (\<lambda>m.
          res_bind (parse_optional (\<lambda>s. map_err ThreadInvalidAuthor (public_key_parse X s)) (some_value 2 vs)) (\<lambda>author.
          Inr \<lparr>er_event_id = er_event_id r, er_relay_hint = relay, er_marker = m, er_author_hint = author\<rparr>)))" for vs
    using i by (simp add: event_reference_from_tag_def tag_with_def [of "SingleLetter (lowercase_tag L_E)"] numeral_2_eq_2 numeral_3_eq_3
        tag_head_with_letter [unfolded tag_with_def])
  then show ?thesis
    using relay marker author
    by (cases r) (auto simp: build_e_tag_def Let_def none numeral_2_eq_2 split: if_splits)
qed

lemma fold_e_tags:
  assumes "hex_laws X" and "\<forall>r \<in> set rs. event_reference_wf X U r"
  shows "fold (thread_add_tag X U) (map (build_e_tag X) rs) tc = tc\<lparr>tc_events := tc_events tc @ rs\<rparr>"
  using assms(2)
proof (induction rs arbitrary: tc)
  case (Cons r rs)
  then have "thread_add_tag X U (build_e_tag X r) tc = thread_reference r tc"
    using event_reference_round_trip [OF assms(1), of U r] by (simp add: thread_add_tag_def)
  with Cons show ?case by (simp add: thread_reference_def)
qed simp

lemma fold_p_tags:
  assumes "hex_laws X" and "\<forall>pk \<in> set pks. public_key_wf X pk"
  shows "fold (thread_add_tag X U) (map (\<lambda>pk. tag_with (SingleLetter (lowercase_tag L_P)) [public_key_to_hex X pk]) pks) tc =
    tc\<lparr>tc_mentioned_pubkeys := tc_mentioned_pubkeys tc @ pks\<rparr>"
  using assms(2)
proof (induction pks arbitrary: tc)
  case (Cons pk pks)
  then have "thread_add_tag X U (tag_with (SingleLetter (lowercase_tag L_P)) [public_key_to_hex X pk]) tc = thread_mention pk tc"
    using public_key_parse_hex [OF assms(1), of pk] by (simp add: thread_add_tag_def) (simp add: tag_with_def)
  with Cons show ?case by (simp add: thread_mention_def)
qed simp

abbreviation thread_tag :: "tag \<Rightarrow> bool" where
  "thread_tag t \<equiv> tag_head t = SingleLetter (lowercase_tag L_E) \<or> tag_head t = SingleLetter (lowercase_tag L_P)"

lemma fold_thread_filter: "fold (thread_add_tag X U) (filter thread_tag ts) tc = fold (thread_add_tag X U) ts tc"
proof (induction ts arbitrary: tc)
  case (Cons t ts)
  have "\<not> thread_tag t \<Longrightarrow> thread_add_tag X U t tc = tc" by (auto simp: thread_add_tag_def)
  with Cons show ?case by auto
qed simp

lemma thread_from_tags:
  assumes "hex_laws X" and "thread_wf X U tc"
  shows "fold (thread_add_tag X U) (thread_to_tags X tc) thread_new = tc"
  using assms by (simp add: thread_to_tags_def thread_wf_def fold_e_tags fold_p_tags thread_new_def)

section \<open>Lemmas on inferred markers\<close>

lemma length_assign_marker [simp]: "length (assign_marker i m rs) = length rs"
  by (simp add: assign_marker_def)

lemma nth_assign_marker:
  "j < length rs \<Longrightarrow> assign_marker i m rs ! j = (if i = j then (rs ! j)\<lparr>er_marker := Some m\<rparr> else rs ! j)"
  by (auto simp: assign_marker_def)

lemma fold_assign_marker:
  "length (fold (\<lambda>k. assign_marker k m) ks rs) = length rs"
  "j < length rs \<Longrightarrow> fold (\<lambda>k. assign_marker k m) ks rs ! j =
     (if j \<in> set ks then (rs ! j)\<lparr>er_marker := Some m\<rparr> else rs ! j)"
  by (induction ks arbitrary: rs) (auto simp: nth_assign_marker)

lemma set_unmarked: "set (unmarked rs) = {i. i < length rs \<and> er_marker (rs ! i) = None}"
  by (auto simp: unmarked_def)

lemma unmarked_sorted: "sorted_wrt (<) (unmarked rs)"
  unfolding unmarked_def by (intro sorted_wrt_filter) simp

text \<open>The marker of the reference at \<open>i\<close> by the rule of the positional form.\<close>

definition positional_marker :: "event_reference list \<Rightarrow> nat \<Rightarrow> note_marker" where
  "positional_marker rs i =
     (if \<forall>j < i. er_marker (rs ! j) \<noteq> None then RootMarker
      else if \<forall>j \<in> {i<..<length rs}. er_marker (rs ! j) \<noteq> None then ReplyMarker
      else MentionMarker)"

lemma infer_events:
  assumes "i < length (tc_events tc)"
  shows "length (tc_events (infer_legacy_markers tc)) = length (tc_events tc)"
    and "tc_events (infer_legacy_markers tc) ! i =
      (case er_marker (tc_events tc ! i) of
         Some m \<Rightarrow> tc_events tc ! i
       | None \<Rightarrow> (tc_events tc ! i)\<lparr>er_marker := Some (positional_marker (tc_events tc) i)\<rparr>)"
proof -
  let ?rs = "tc_events tc"
  note un = set_unmarked [of ?rs] and so = unmarked_sorted [of ?rs]
  consider "unmarked ?rs = []" | k where "unmarked ?rs = [k]" | k j js where "unmarked ?rs = k # j # js"
    by (metis neq_Nil_conv)
  then have "length (tc_events (infer_legacy_markers tc)) = length ?rs \<and>
    tc_events (infer_legacy_markers tc) ! i = (case er_marker (?rs ! i) of
         Some m \<Rightarrow> ?rs ! i | None \<Rightarrow> (?rs ! i)\<lparr>er_marker := Some (positional_marker ?rs i)\<rparr>)"
  proof cases
    case 1
    then show ?thesis using un assms by (auto simp: infer_legacy_markers_def split: option.splits)
  next
    case (2 k)
    have k: "er_marker (?rs ! j) = None \<longleftrightarrow> j = k" if "j < length ?rs" for j using un that 2 by auto
    have "k \<in> set (unmarked ?rs)" by (simp add: 2)
    then have "k < length ?rs" by (simp add: un)
    then have "positional_marker ?rs k = RootMarker"
      using k by (auto simp: positional_marker_def simp flip: not_None_eq)
    then show ?thesis
      using assms k [OF assms]
      by (cases "er_marker (?rs ! i)") (auto simp: infer_legacy_markers_def 2 nth_assign_marker)
  next
    case (3 k j js)
    define mid fin where "mid = butlast (j # js)" and "fin = last (j # js)"
    have split: "unmarked ?rs = k # mid @ [fin]" by (simp add: 3 mid_def fin_def)
    have ord: "k < fin" "\<forall>x \<in> set mid. k < x \<and> x < fin"
      using so by (auto simp: split sorted_wrt_append)
    have none: "er_marker (?rs ! x) = None \<longleftrightarrow> x = k \<or> x \<in> set mid \<or> x = fin" if "x < length ?rs" for x
      using un that by (auto simp: split)
    have bounds: "k < length ?rs" "fin < length ?rs" using un by (auto simp: split)
    have root: "positional_marker ?rs k = RootMarker"
      using none bounds ord by (auto simp: positional_marker_def simp flip: not_None_eq)
    have final: "positional_marker ?rs fin = ReplyMarker"
      using none bounds ord by (auto simp: positional_marker_def simp flip: not_None_eq)
    have middle: "positional_marker ?rs x = MentionMarker" if "x \<in> set mid" for x
      using none bounds ord that by (auto simp: positional_marker_def)
    have "tc_events (infer_legacy_markers tc) =
      fold (\<lambda>k. assign_marker k MentionMarker) mid (assign_marker fin ReplyMarker (assign_marker k RootMarker ?rs))"
      by (simp add: infer_legacy_markers_def 3 Let_def mid_def fin_def)
    then show ?thesis
      using assms none [OF assms] ord root final middle
      by (cases "er_marker (?rs ! i)") (auto simp: fold_assign_marker nth_assign_marker)
  qed
  then show "length (tc_events (infer_legacy_markers tc)) = length ?rs"
    and "tc_events (infer_legacy_markers tc) ! i = (case er_marker (?rs ! i) of
         Some m \<Rightarrow> ?rs ! i | None \<Rightarrow> (?rs ! i)\<lparr>er_marker := Some (positional_marker ?rs i)\<rparr>)" by simp_all
qed

end
