(* ===== verification/Envelope_Theorems.thy ===== *)
theory Envelope_Theorems
  imports Sample_Json Codec_Theorems Delegation Threads
begin

text \<open>
  The properties of gift wraps and private messages (NIP-59, NIP-17) of delegations (NIP-26) and of threads (NIP-10).
\<close>

section \<open>Sample data\<close>

lemma sample_envelope_laws:
  "envelope_laws sample_json_crates sample_sig_text sample_bech32 sample_ciphers sample_reader"
proof -
  have ascii: "(of_char c :: nat) < 128" if "c \<in> set base64_alphabet" for c
  proof -
    have "\<forall>c \<in> set base64_alphabet. (of_char c :: nat) < 128" by code_simp
    with that show ?thesis by blast
  qed
  have "set (base64_encode b) \<subseteq> insert CHR ''='' (set base64_alphabet)" for b
    by (induction b rule: base64_encode.induct)
      (auto simp: digits64_def digit64_in dest!: in_set_takeD)
  then have b64: "str_wf (base64_encode b)" for b
    using ascii by (intro str_wf_ascii) fastforce
  have "hex_laws sample_json_crates" and "schnorr_laws sample_json_crates" and "cipher_laws sample_json_crates sample_ciphers"
    using sample_hex_laws sample_schnorr_laws sample_cipher_laws
    by (simp_all add: hex_laws_def schnorr_laws_def cipher_laws_def sample_json_crates_def sample_crates_def)
  moreover have "size_laws sample_json_crates sample_sig_text sample_bech32 sample_ciphers"
    using b64
    by (simp add: size_laws_def sample_json_crates_def sample_crates_def sample_sig_text_def sample_ciphers_def
        sample_digest_def secret_key_wf_def SECRET_KEY_SIZE_def public_key_wf_def PUBLIC_KEY_SIZE_def)
  ultimately show ?thesis by (simp add: envelope_laws_def sample_sig_laws sample_json_laws)
qed

abbreviation sample_a :: secret_key where "sample_a \<equiv> replicate 32 1"
abbreviation sample_r :: secret_key where "sample_r \<equiv> replicate 32 2"

definition sample_draws :: wrap_draws where
  "sample_draws = \<lparr>wd_seal_nonce = Inr (replicate 32 7), wd_ephemeral = Inr (replicate 32 3),
     wd_wrap_nonce = Inr (replicate 32 9)\<rparr>"

lemma sample_draws_wf: "wrap_draws_wf sample_bech32 sample_draws"
  by (simp add: wrap_draws_wf_def sample_draws_def NONCE_BYTES_def secret_key_wf_def SECRET_KEY_SIZE_def sample_bech32_def)

lemma sample_secret_wf: "secret_key_wf sample_bech32 sample_a" "secret_key_wf sample_bech32 sample_r"
  by (simp_all add: secret_key_wf_def SECRET_KEY_SIZE_def sample_bech32_def)

lemma sample_printed: "json_to_string sample_json_crates j = put_json j"
  using bytes_string_bytes [of "put_json j"]
  by (simp add: json_to_string_def sample_json_crates_def bytes_string_def)

lemma length_unary [simp]: "length (unary n) = Suc n"
  by (simp add: unary_def)

lemma length_put_str [simp]: "length (put_str s) = Suc (2 * length s)"
  by (simp add: put_str_def)

lemma sample_seal_fits:
  assumes "length (unsigned_to_json sample_json_crates u) \<le> 4000"
  shows "seal_fits sample_json_crates sample_sig_text sample_ciphers sample_draws sample_a r u 5"
proof (cases "create_seal sample_json_crates sample_ciphers (wd_seal_nonce sample_draws)
    (keys_from_secret_key sample_json_crates sample_a) (keypair_public sample_json_crates r) u 5")
  case (Inr seal)
  let ?s = "unsigned_to_json sample_json_crates u"
  let ?ck = "conversation_key sample_ciphers sample_a r"
  have pub: "keypair_public sample_json_crates sk = sk" for sk by (simp add: sample_json_crates_def sample_crates_def)
  have pos: "1 \<le> length ?s"
    by (simp add: unsigned_to_json_def sample_printed unsigned_serialize_def)
  have fits: "length ?s \<le> MAX_PLAINTEXT_BYTES" using assms by (simp add: MAX_PLAINTEXT_BYTES_def)
  define pad where "pad = to_be 2 (length ?s) @ body_bytes ?s @ replicate (padded_length (length ?s) - length ?s) 0"
  define c where "c = b64_encode sample_ciphers (sealed_bytes sample_ciphers ?ck (replicate 32 7) pad)"
  have "nip44_encrypt sample_ciphers (Inr (replicate 32 7)) sample_a r ?s = Inr c"
    using encrypt_inner_ok [OF pos fits] by (simp add: nip44_encrypt_def c_def pad_def)
  then have seal: "ev_content seal = c" "ev_kind seal = 13" "ev_created_at seal = 5" "ev_tags seal = []"
    "length (ev_id seal) = 32" "length (ev_pubkey seal) = 32" "length (ev_sig seal) = 64"
    using Inr
    by (auto simp: create_seal_def sample_draws_def keys_from_secret_key_def pub builder_sign_with_keys_def
        build_unsigned_def builder_created_at_def builder_new_def tags_new_def unsigned_new_def SEAL_def
        unsigned_sign_with_keys_def Let_def compute_id_def compute_event_id_def compute_from_canonical_def
        sample_json_crates_def sample_crates_def sample_digest_def keys_sign_schnorr_def)
  have "length pad = 2 + padded_length (length ?s)"
    using padded_length_bounds(1) [OF pos fits] by (simp add: pad_def)
  then have "length pad < 5034"
    using padded_length_bounds(5) [OF pos fits] assms by (auto simp: max_def split: if_splits)
  moreover have "length c = 4 * ((length pad + 67) div 3)"
    using sample_cipher_laws length_sealed_bytes [OF sample_cipher_laws, of "replicate 32 7" ?ck pad]
    by (simp add: c_def cipher_laws_def)
  moreover have "4 * ((length pad + 67) div 3) \<le> 4 * (5101 div 3)" using \<open>length pad < 5034\<close> by (intro mult_le_mono div_le_mono) simp_all
  ultimately have "length c \<le> 6800" by simp
  then have "length (event_to_json sample_json_crates sample_sig_text seal) \<le> 20000"
    by (simp add: event_to_json_def sample_printed event_serialize_def seal sample_sig_text_def tag_to_json_def)
  then show ?thesis using Inr by (simp add: seal_fits_def MAX_PLAINTEXT_BYTES_def)
qed (simp add: seal_fits_def)

section \<open>Gift wraps\<close>

text \<open>C38. A gift wrap reaches its recipient and nobody is named on it but the recipient: for every kind, tags and
  content whose JSON fits the encryption, \<open>wrap_with_timestamps\<close> succeeds; the wrap has kind 1059, the
  chosen timestamp, one \<open>p\<close> tag with the recipient's key, is validly signed by the ephemeral key, and the
  recipient's \<open>unwrap\<close> returns exactly the rumor the sender built.\<close>

theorem gift_wrap_round_trip:
  assumes "envelope_laws X Y B E J" and "secret_key_wf B a" and "wrap_draws_wf B d"
    and "list_all tag_wf tags" and "tags_text tags" and "str_wf content"
    and "length (unsigned_to_json X (build_rumor X (keys_from_secret_key X a) k tags content (ts_rumor ts))) \<le> MAX_PLAINTEXT_BYTES"
    and "seal_fits X Y E d a r (build_rumor X (keys_from_secret_key X a) k tags content (ts_rumor ts)) (ts_seal ts)"
  shows "\<exists>g. wrap_with_timestamps X Y B E d (keys_from_secret_key X a) (keypair_public X r) k tags content ts hint = Inr g \<and>
    verify X g = Inr () \<and> ev_kind g = GIFT_WRAP \<and> ev_created_at g = ts_wrap ts \<and> ev_pubkey g = ephemeral_key X d \<and>
    ev_tags g = [gift_wrap_tag X (keypair_public X r) hint] \<and>
    gift_unwrap X Y J E (keys_from_secret_key X r) g =
      Inr (build_rumor X (keys_from_secret_key X a) k tags content (ts_rumor ts))"
proof -
  let ?u = "build_rumor X (keys_from_secret_key X a) k tags content (ts_rumor ts)"
  have "rumor_ok X a ?u"
    using assms(2,4-7) envelope_lawsD(6) [OF assms(1)]
    by (simp add: rumor_ok_def build_rumor_def unsigned_new_def unsigned_wf_def keys_from_secret_key_def size_laws_def
        event_id_wf_def EVENT_ID_SIZE_def compute_event_id_def compute_from_canonical_def)
  then obtain seal g where
    "create_seal X E (wd_seal_nonce d) (keys_from_secret_key X a) (keypair_public X r) ?u (ts_seal ts) = Inr seal"
    and "create_gift_wrap X Y B E (wd_ephemeral d) (wd_wrap_nonce d) seal (keypair_public X r) hint (ts_wrap ts) = Inr g"
    and "delivered X Y J E ?u (ts_wrap ts) (r, hint) g" and "ev_pubkey g = ephemeral_key X d"
    using wrap_delivered [OF assms(1-3), where p = "(r, hint)" and u = ?u and sat = "ts_seal ts" and wat = "ts_wrap ts"]
      assms(8) by auto
  then show ?thesis by (auto simp: wrap_with_timestamps_def Let_def delivered_def)
qed

lemma sample_rumor_length:
  "length (unsigned_to_json sample_json_crates (build_rumor sample_json_crates
     (keys_from_secret_key sample_json_crates sk) 1 [] ''hi'' 5)) \<le> 4000"
  if "length sk = 32"
proof -
  have "length (compute_event_id sample_json_crates p at k ts c) = 32" "keypair_public sample_json_crates sk = sk" for p at k ts c
    by (simp_all add: compute_event_id_def compute_from_canonical_def sample_json_crates_def sample_crates_def sample_digest_def)
  then show ?thesis using that
    by (simp add: unsigned_to_json_def sample_printed unsigned_serialize_def build_rumor_def unsigned_new_def
        keys_from_secret_key_def)
qed

theorem gift_wrap_round_trip_witness:
  "\<exists>g. wrap_with_timestamps sample_json_crates sample_sig_text sample_bech32 sample_ciphers sample_draws
       (keys_from_secret_key sample_json_crates sample_a) (keypair_public sample_json_crates sample_r) 1 [] ''hi''
       (timestamps_all_at 5) None = Inr g \<and>
     gift_unwrap sample_json_crates sample_sig_text sample_reader sample_ciphers
       (keys_from_secret_key sample_json_crates sample_r) g =
       Inr (build_rumor sample_json_crates (keys_from_secret_key sample_json_crates sample_a) 1 [] ''hi'' 5)"
proof -
  have "str_wf ''hi''" by code_simp
  then show ?thesis
    using gift_wrap_round_trip [OF sample_envelope_laws sample_secret_wf(1) sample_draws_wf, of "[]" "''hi''" 1
        "timestamps_all_at 5" sample_r None]
      sample_rumor_length [of sample_a] sample_seal_fits [OF sample_rumor_length [of sample_a], of sample_r]
    by (auto simp: timestamps_all_at_def tags_text_def MAX_PLAINTEXT_BYTES_def)
qed

text \<open>C39. What \<open>unwrap\<close> returns is attributed to the key that signed it: an accepted wrap has kind 1059 and decrypts
  with the recipient's key to the JSON of a kind 13 seal whose id is the digest of its content and whose signature
  is valid for the rumor's author; the seal decrypts, under that author's key, to the JSON of the rumor
  returned, which is well typed.\<close>

theorem gift_unwrap_authentic:
  assumes "gift_unwrap X Y J E recipient g = Inr u"
  shows "\<exists>seal_json seal rumor_json. ev_kind g = GIFT_WRAP \<and>
    nip44_decrypt E (keys_secret recipient) (ev_pubkey g) (ev_content g) = Inr seal_json \<and>
    event_from_json X Y J seal_json = Inr seal \<and> ev_kind seal = SEAL \<and>
    ev_id seal = compute_event_id X (u_pubkey u) (ev_created_at seal) SEAL (ev_tags seal) (ev_content seal) \<and>
    verify_schnorr_ok X (ev_sig seal) (ev_id seal) (u_pubkey u) \<and>
    nip44_decrypt E (keys_secret recipient) (u_pubkey u) (ev_content seal) = Inr rumor_json \<and>
    unsigned_from_json X J rumor_json = Inr u \<and> unsigned_wf X u"
proof -
  obtain sj seal rj where s: "ev_kind g = GIFT_WRAP"
    "nip44_decrypt E (keys_secret recipient) (ev_pubkey g) (ev_content g) = Inr sj"
    "event_from_json X Y J sj = Inr seal" "ev_kind seal = SEAL" "verify X seal = Inr ()"
    "nip44_decrypt E (keys_secret recipient) (ev_pubkey seal) (ev_content seal) = Inr rj"
    "unsigned_from_json X J rj = Inr u" "u_pubkey u = ev_pubkey seal"
    using assms by (auto simp: gift_unwrap_def res_bind_Inr_iff map_err_Inr_iff split: if_splits)
  moreover have "ev_id seal = compute_event_id X (ev_pubkey seal) (ev_created_at seal) SEAL (ev_tags seal) (ev_content seal)"
    and "verify_schnorr_ok X (ev_sig seal) (ev_id seal) (ev_pubkey seal)"
    using s(4,5) by (auto simp: verify_def verify_id_def verify_signature_def split: if_splits)
  moreover have "unsigned_wf X u" using s(7) by (rule unsigned_from_json_wf)
  ultimately show ?thesis by (intro exI [of _ sj] exI [of _ seal] exI [of _ rj]) simp
qed

theorem gift_unwrap_authentic_witness:
  "\<exists>g u. gift_unwrap sample_json_crates sample_sig_text sample_reader sample_ciphers
       (keys_from_secret_key sample_json_crates sample_r) g = Inr u \<and> u_content u = ''hi'' \<and>
     (\<exists>seal :: event. ev_kind seal = SEAL \<and> verify_schnorr_ok sample_json_crates (ev_sig seal) (ev_id seal) (u_pubkey u))"
proof -
  let ?u = "build_rumor sample_json_crates (keys_from_secret_key sample_json_crates sample_a) 1 [] ''hi'' 5"
  have u: "u_tags ?u = []" "u_content ?u = ''hi''" "u_pubkey ?u = keypair_public sample_json_crates sample_a"
    by (simp_all add: build_rumor_def unsigned_new_def keys_from_secret_key_def)
  have "str_wf ''hi''" by code_simp
  then have ok: "rumor_ok sample_json_crates sample_a ?u"
    using envelope_lawsD(6) [OF sample_envelope_laws] sample_secret_wf(1) sample_rumor_length [of sample_a]
    by (simp add: rumor_ok_def build_rumor_def unsigned_new_def unsigned_wf_def keys_from_secret_key_def size_laws_def
        event_id_wf_def EVENT_ID_SIZE_def compute_event_id_def compute_from_canonical_def tags_text_def MAX_PLAINTEXT_BYTES_def)
  have fits: "seal_fits sample_json_crates sample_sig_text sample_ciphers sample_draws sample_a (fst (sample_r, None)) ?u 5"
    using sample_seal_fits [OF sample_rumor_length [of sample_a], of sample_r] by simp
  obtain g where g: "gift_unwrap sample_json_crates sample_sig_text sample_reader sample_ciphers
      (keys_from_secret_key sample_json_crates sample_r) g = Inr ?u"
    using wrap_delivered [OF sample_envelope_laws sample_secret_wf(1) sample_draws_wf ok fits, where wat = 5]
    by (auto simp: delivered_def)
  obtain seal :: event where "ev_kind seal = SEAL" and "verify_schnorr_ok sample_json_crates (ev_sig seal) (ev_id seal) (u_pubkey ?u)"
    using gift_unwrap_authentic [OF g] by blast
  with g u(2) show ?thesis by blast
qed

text \<open>A rumor cannot be put in another author's mouth: when a sender seals and wraps (\<open>wrap_for\<close>) a rumor that
  carries a public key other than the sender's own, the wrap is made, and the recipient's \<open>unwrap\<close>
  answers \<open>PubkeyMismatch\<close>; with the sender's own key it answers the rumor.\<close>

theorem gift_wrap_impersonation:
  assumes "envelope_laws X Y B E J" and "secret_key_wf B a" and "wrap_draws_wf B d"
    and "unsigned_wf X u" and "tags_text (u_tags u)" and "str_wf (u_content u)"
    and "length (unsigned_to_json X u) \<le> MAX_PLAINTEXT_BYTES" and "seal_fits X Y E d a r u (ts_seal ts)"
  shows "\<exists>g. wrap_for X Y B E d (keys_from_secret_key X a) (recipient_of X (r, hint)) u ts = Inr g \<and>
    gift_unwrap X Y J E (keys_from_secret_key X r) g =
      (if u_pubkey u = keypair_public X a then Inr u else Inl GwPubkeyMismatch)"
  by (rule unwrap_wrapped [OF assms(1-7), where sat = "ts_seal ts" and wat = "ts_wrap ts" and hint = hint and r = r])
    (use assms(8) in \<open>auto simp: seal_fits_def wrap_for_def recipient_of_def\<close>)

theorem gift_wrap_impersonation_witness:
  "\<exists>u g. u_pubkey u = sample_r \<and>
     wrap_for sample_json_crates sample_sig_text sample_bech32 sample_ciphers sample_draws
       (keys_from_secret_key sample_json_crates sample_a) (recipient_of sample_json_crates (sample_r, None)) u
       (timestamps_all_at 5) = Inr g \<and>
     gift_unwrap sample_json_crates sample_sig_text sample_reader sample_ciphers
       (keys_from_secret_key sample_json_crates sample_r) g = Inl GwPubkeyMismatch"
proof -
  let ?u = "build_rumor sample_json_crates (keys_from_secret_key sample_json_crates sample_r) 1 [] ''hi'' 5"
  have pub: "keypair_public sample_json_crates sk = sk" for sk by (simp add: sample_json_crates_def sample_crates_def)
  have u: "u_tags ?u = []" "u_content ?u = ''hi''" "u_pubkey ?u = sample_r"
    by (simp_all add: build_rumor_def unsigned_new_def keys_from_secret_key_def pub)
  have "str_wf ''hi''" by code_simp
  moreover have "unsigned_wf sample_json_crates ?u"
    using envelope_lawsD(6) [OF sample_envelope_laws] sample_secret_wf(2)
    by (simp add: build_rumor_def unsigned_new_def unsigned_wf_def keys_from_secret_key_def size_laws_def
        event_id_wf_def EVENT_ID_SIZE_def compute_event_id_def compute_from_canonical_def)
  ultimately show ?thesis
    using gift_wrap_impersonation [OF sample_envelope_laws sample_secret_wf(1) sample_draws_wf, of ?u sample_r
        "timestamps_all_at 5" None]
      sample_rumor_length [of sample_r] sample_seal_fits [OF sample_rumor_length [of sample_r], of sample_r]
    by (intro exI [of _ ?u]) (auto simp: u tags_text_def MAX_PLAINTEXT_BYTES_def timestamps_all_at_def pub)
qed

section \<open>Private messages\<close>

text \<open>A private message is delivered to everyone and copied to its sender: for one or more recipients,
  \<open>wrap_for_many\<close> returns a wrap for the sender followed by one per recipient in order; each is validly
  signed by its own ephemeral key, carries only the \<open>p\<close> tag of its addressee (with the relay hint), and
  its addressee's \<open>unwrap_chat_message\<close> returns the one rumor. With no recipients it is an error.\<close>

theorem dm_delivery:
  assumes "envelope_laws X Y B E J" and "secret_key_wf B a" and "\<forall>n. wrap_draws_wf B (d n)"
    and "u = build_chat_message_rumor X (keys_from_secret_key X a) (map (recipient_of X) peers) message at subject reply"
    and "rumor_ok X a u" and "\<forall>n. \<forall>r \<in> insert a (fst ` set peers). seal_fits X Y E (d n) a r u (ts_seal ts)"
  shows "if peers = []
    then wrap_for_many X Y B E d (keys_from_secret_key X a) (map (recipient_of X) peers) u ts = Inl NoRecipients
    else \<exists>ws. wrap_for_many X Y B E d (keys_from_secret_key X a) (map (recipient_of X) peers) u ts = Inr ws \<and>
      list_all2 (delivered X Y J E u (ts_wrap ts)) ((a, None) # peers) ws \<and>
      list_all2 (\<lambda>p g. unwrap_chat_message X Y J E (keys_from_secret_key X (fst p)) g = Inr u) ((a, None) # peers) ws \<and>
      map ev_pubkey ws = map (\<lambda>i. ephemeral_key X (d i)) [0..<Suc (length peers)]"
proof (cases "peers = []")
  case False
  have draws: "wrap_draws_wf B (d n)" for n using assms(3) by simp
  have kind: "u_kind u = PRIVATE_DIRECT_MESSAGE"
    by (simp add: assms(4) build_chat_message_rumor_def Let_def unsigned_new_def)
  obtain seal g where g: "create_seal X E (wd_seal_nonce (d 0)) (keys_from_secret_key X a) (keypair_public X a) u (ts_seal ts) = Inr seal"
    "create_gift_wrap X Y B E (wd_ephemeral (d 0)) (wd_wrap_nonce (d 0)) seal (keypair_public X a) None (ts_wrap ts) = Inr g"
    "delivered X Y J E u (ts_wrap ts) (a, None) g" "ev_pubkey g = ephemeral_key X (d 0)"
    using wrap_delivered [OF assms(1,2) draws assms(5), where p = "(a, None)" and sat = "ts_seal ts" and wat = "ts_wrap ts"]
      assms(6) by auto
  have "seal_fits X Y E (d n) a (fst p) u (ts_seal ts)" if "p \<in> set peers" for n p using assms(6) that by simp
  then obtain ws where ws: "wrap_loop X Y B E d (keys_from_secret_key X a) u ts 1 (map (recipient_of X) peers) [g] = Inr ([g] @ ws)"
    "list_all2 (delivered X Y J E u (ts_wrap ts)) peers ws"
    "map ev_pubkey ws = map (\<lambda>i. ephemeral_key X (d i)) [1..<1 + length peers]"
    using wrap_loop_delivered [where d = d and ps = peers and ts = ts and n = 1 and acc = "[g]", OF assms(1,2) draws assms(5)] by blast
  have many: "wrap_for_many X Y B E d (keys_from_secret_key X a) (map (recipient_of X) peers) u ts = Inr (g # ws)"
    using False g(1,2) ws(1) by (simp add: wrap_for_many_def keys_from_secret_key_def)
  have all: "list_all2 (delivered X Y J E u (ts_wrap ts)) ((a, None) # peers) (g # ws)" using g(3) ws(2) by simp
  then have "list_all2 (\<lambda>p g. unwrap_chat_message X Y J E (keys_from_secret_key X (fst p)) g = Inr u) ((a, None) # peers) (g # ws)"
    by (rule list_all2_mono) (simp add: delivered_def unwrap_chat_message_def kind)
  moreover have "map ev_pubkey (g # ws) = map (\<lambda>i. ephemeral_key X (d i)) [0..<Suc (length peers)]"
    using g(4) ws(3) by (simp add: upt_conv_Cons del: upt_Suc)
  ultimately show ?thesis using False many all by auto
qed (simp add: wrap_for_many_def)

theorem dm_delivery_witness:
  "\<exists>u ws. wrap_for_many sample_json_crates sample_sig_text sample_bech32 sample_ciphers (\<lambda>_. sample_draws)
       (keys_from_secret_key sample_json_crates sample_a) [recipient_of sample_json_crates (sample_r, None)] u
       (timestamps_all_at 5) = Inr ws \<and> length ws = 2 \<and> u_content u = ''hi'' \<and>
     unwrap_chat_message sample_json_crates sample_sig_text sample_reader sample_ciphers
       (keys_from_secret_key sample_json_crates sample_r) (ws ! 1) = Inr u"
proof -
  let ?X = sample_json_crates
  let ?u = "build_chat_message_rumor ?X (keys_from_secret_key ?X sample_a) [recipient_of ?X (sample_r, None)] ''hi'' 5 None None"
  note L = envelope_lawsD [OF sample_envelope_laws]
  have "str_wf ''hi''" by code_simp
  note c = chat_rumor [OF L(1,6) sample_secret_wf(1) this, where rs = "[recipient_of ?X (sample_r, None)]" and at = 5
      and subject = None and reply = None]
  have sizes: "length (compute_event_id ?X p at k ts s) = 32" "keypair_public ?X sk = sk"
    "length (public_key_to_hex ?X p) = 2 * length p" for p at k ts s sk
    using L(1) by (simp_all add: compute_event_id_def compute_from_canonical_def sample_json_crates_def sample_crates_def
        sample_digest_def public_key_to_hex_def hex_encode_def)
  have len: "length (unsigned_to_json ?X ?u) \<le> 4000"
    by (simp add: unsigned_to_json_def sample_printed unsigned_serialize_def build_chat_message_rumor_def unsigned_new_def
        keys_from_secret_key_def recipient_of_def tag_with_def tag_to_json_def tag_kind_as_str_def single_letter_str_def
        as_char_def sizes PRIVATE_DIRECT_MESSAGE_def Let_def)
  have ok: "rumor_ok ?X sample_a ?u"
    using c len by (simp add: rumor_ok_def recipient_of_def MAX_PLAINTEXT_BYTES_def)
  have content: "u_content ?u = ''hi''" by (simp add: build_chat_message_rumor_def unsigned_new_def Let_def)
  show ?thesis
    using dm_delivery [OF sample_envelope_laws sample_secret_wf(1), where d = "\<lambda>_. sample_draws" and peers = "[(sample_r, None)]"
        and u = ?u and message = "''hi''" and at = 5 and subject = None and reply = None and ts = "timestamps_all_at 5"]
      sample_draws_wf ok sample_seal_fits [OF len] content
    by (intro exI [of _ ?u]) (auto simp: timestamps_all_at_def list_all2_Cons1)
qed

text \<open>The drawn timestamps: \<open>random_past_timestamp\<close> returns a time of the last two days, that is at most the
  clock and less than 172800 seconds before it (zero at the earliest), whatever eight bytes are drawn; every such
  time is drawn for some bytes, and the time exactly two days ago for none.\<close>

theorem gift_wrap_timestamps:
  assumes "172800 \<le> unat now"
  shows "(\<forall>bytes. length bytes = 8 \<longrightarrow> (\<exists>t. random_past_timestamp (Some now) (Inr bytes) = Inr t \<and>
      unat t \<le> unat now \<and> unat now < unat t + 172800)) \<and>
    (\<forall>t. unat t \<le> unat now \<and> unat now < unat t + 172800 \<longrightarrow>
      (\<exists>bytes. length bytes = 8 \<and> random_past_timestamp (Some now) (Inr bytes) = Inr t)) \<and>
    (\<forall>bytes. length bytes = 8 \<longrightarrow> random_past_timestamp (Some now) (Inr bytes) \<noteq> Inr (now - TWO_DAYS_SECS))"
proof (intro conjI allI impI)
  fix bytes :: bytes assume len: "length bytes = 8"
  let ?k = "be_nat (rev bytes) mod 172800"
  obtain t where t: "random_past_timestamp (Some now) (Inr bytes) = Inr t" "unat t = unat now - ?k"
    using random_past_offset [OF len] by blast
  have k: "?k < 172800" by simp
  with t assms show "\<exists>t. random_past_timestamp (Some now) (Inr bytes) = Inr t \<and> unat t \<le> unat now \<and> unat now < unat t + 172800"
    by auto
  have "TWO_DAYS_SECS \<le> now" using assms by (simp add: word_le_nat_alt TWO_DAYS_SECS_def)
  then have "unat (now - TWO_DAYS_SECS) = unat now - 172800" by (simp add: unat_sub TWO_DAYS_SECS_def)
  with t k assms show "random_past_timestamp (Some now) (Inr bytes) \<noteq> Inr (now - TWO_DAYS_SECS)" by auto
next
  fix t :: timestamp assume t: "unat t \<le> unat now \<and> unat now < unat t + 172800"
  define bytes where "bytes = rev (to_be 8 (unat now - unat t))"
  have "length bytes = 8" by (simp add: bytes_def)
  moreover have "unat now - unat t < 172800" using t by linarith
  then have "be_nat (rev bytes) mod 172800 = unat now - unat t" by (simp add: bytes_def be_nat_to_be)
  ultimately show "\<exists>bytes. length bytes = 8 \<and> random_past_timestamp (Some now) (Inr bytes) = Inr t"
    using random_past_offset [of bytes now] t by (metis diff_diff_cancel word_unat_eq_iff)
qed

theorem gift_wrap_timestamps_witness:
  "\<exists>t. random_past_timestamp (Some 1000000) (Inr (replicate 8 255)) = Inr t \<and> unat t \<le> 1000000 \<and> 1000000 < unat t + 172800"
proof -
  have "172800 \<le> unat (1000000 :: u64)" by simp
  note * = gift_wrap_timestamps [OF this, THEN conjunct1, rule_format, of "replicate 8 255"]
  show ?thesis using * by simp
qed

section \<open>Delegations\<close>

text \<open>Conditions survive their text form: every list of conditions is rendered to a string that parses to the same
  list, in the same order. The converse fails: \<open>kind=01\<close> and \<open>kind=+1\<close> parse and render as \<open>kind=1\<close>, so the
  string a token was signed over is not always the string the token is checked against.\<close>

theorem delegation_conditions:
  "(\<forall>cs. conditions_parse (conditions_render cs) = Inr cs) \<and>
   conditions_parse ''kind=01'' = Inr [CondKind 1] \<and> conditions_parse ''kind=+1'' = Inr [CondKind 1] \<and>
   conditions_render [CondKind 1] = ''kind=1'' \<and>
   conditions_parse ''kind=1&'' = Inl (UnsupportedClause []) \<and>
   conditions_parse ''kind=65536'' = Inl (InvalidValue ''kind=65536'')"
proof (intro conjI allI)
  show "conditions_parse (conditions_render cs) = Inr cs" for cs by (rule conditions_parse_render)
  show "conditions_render [CondKind 1] = ''kind=1''" by code_simp
qed (simp_all add: conditions_parse_def parse_one_def strip_prefix_def parse_u16_def parse_uint_def is_ascii_digit_def
    digit_value_def conditions_render_simps show_word_def show_nat.simps digit_char_def)

text \<open>A delegation is honoured exactly within its conditions: an event whose first \<open>delegation\<close> tag was made from a
  token the delegator signed for the event's author is accepted when its kind and time satisfy every
  condition, with the delegator, conditions and token of the tag, and is answered \<open>ConditionsViolated\<close>
  otherwise.\<close>

theorem delegation_verifies:
  assumes "hex_laws X" and "sig_laws Y" and "schnorr_laws X" and "public_key_wf X (keypair_public X sk)"
    and "length (sign_delegation X (keys_from_secret_key X sk) (ev_pubkey e) cs) = 64"
    and "ev_tags e = pre @ tag_delegation X Y (keypair_public X sk) cs
      (sign_delegation X (keys_from_secret_key X sk) (ev_pubkey e) cs) # post"
    and "\<forall>t \<in> set pre. \<not> is_delegation_tag (tag_head t)"
  shows "verify_event_delegation X Y e =
    (if \<forall>c \<in> set cs. case c of CondKind k \<Rightarrow> ev_kind e = k | CreatedAfter t \<Rightarrow> t < ev_created_at e
         | CreatedBefore t \<Rightarrow> ev_created_at e < t
     then Inr \<lparr>dg_delegator = keypair_public X sk, dg_conditions = cs,
            dg_token = sign_delegation X (keys_from_secret_key X sk) (ev_pubkey e) cs\<rparr>
     else Inl ConditionsViolated)"
proof -
  have "conditions_matches cs (ev_kind e) (ev_created_at e) \<longleftrightarrow>
    (\<forall>c \<in> set cs. case c of CondKind k \<Rightarrow> ev_kind e = k | CreatedAfter t \<Rightarrow> t < ev_created_at e
         | CreatedBefore t \<Rightarrow> ev_created_at e < t)"
    by (auto simp: conditions_matches_def list_all_iff split: condition.splits)
  moreover have "verify_delegation X (keypair_public X sk) (ev_pubkey e) cs
      (sign_delegation X (keys_from_secret_key X sk) (ev_pubkey e) cs)"
    using assms(3) by (simp add: verify_delegation_def sign_delegation_def keys_sign_schnorr_def keys_from_secret_key_def
        schnorr_laws_def)
  moreover have "parse_delegation X Y (ev_tags e) = Inr \<lparr>dg_delegator = keypair_public X sk, dg_conditions = cs,
      dg_token = sign_delegation X (keys_from_secret_key X sk) (ev_pubkey e) cs\<rparr>"
    unfolding assms(6) parse_delegation_skip [OF assms(7)] by (rule parse_delegation_tag [OF assms(1,2,4,5)])
  ultimately show ?thesis by (simp add: verify_event_delegation_def)
qed

definition sample_delegated :: event where
  "sample_delegated = sample_wire_event\<lparr>ev_tags :=
     [tag_delegation sample_crates sample_sig_text sample_pk [CondKind 1]
        (sign_delegation sample_crates (keys_from_secret_key sample_crates sample_pk) sample_pk [CondKind 1])]\<rparr>"

lemma sample_delegated_facts:
  "public_key_wf sample_crates (keypair_public sample_crates sample_pk)"
  "length (sign_delegation sample_crates (keys_from_secret_key sample_crates sample_pk) (ev_pubkey sample_delegated) [CondKind 1]) = 64"
  "keypair_public sample_crates sample_pk = sample_pk" "ev_pubkey sample_delegated = sample_pk" "ev_kind sample_delegated = 1"
  by (simp_all add: sample_delegated_def sample_wire_event_def public_key_wf_def PUBLIC_KEY_SIZE_def sample_crates_def
      sign_delegation_def keys_sign_schnorr_def delegation_hash_def sample_digest_def keys_from_secret_key_def sample_pk_def)

theorem delegation_verifies_witness:
  "\<exists>d. verify_event_delegation sample_crates sample_sig_text sample_delegated = Inr d \<and>
     dg_delegator d = sample_pk \<and> dg_conditions d = [CondKind 1]"
  using delegation_verifies [OF sample_hex_laws sample_sig_laws sample_schnorr_laws sample_delegated_facts(1,2),
      where pre = "[]" and post = "[]"]
  by (simp add: sample_delegated_facts) (simp add: sample_delegated_def)

text \<open>An accepted delegation is the delegator's word: the token of the first \<open>delegation\<close> tag is a valid
  signature of the delegator over the canonical message for the event's author, and the event satisfies
  every condition of that message.\<close>

theorem delegation_sound:
  assumes "verify_event_delegation X Y e = Inr d"
  shows "verify_schnorr_ok X (dg_token d)
      (sha256 X (body_bytes (''nostr:delegation:'' @ public_key_to_hex X (ev_pubkey e) @ '':'' @
         conditions_render (dg_conditions d)))) (dg_delegator d) \<and>
    conditions_matches (dg_conditions d) (ev_kind e) (ev_created_at e) \<and> public_key_wf X (dg_delegator d)"
proof -
  have p: "parse_delegation X Y (ev_tags e) = Inr d"
    and v: "verify_delegation X (dg_delegator d) (ev_pubkey e) (dg_conditions d) (dg_token d)"
    and m: "conditions_matches (dg_conditions d) (ev_kind e) (ev_created_at e)"
    using assms by (auto simp: verify_event_delegation_def res_bind_Inr_iff split: if_splits)
  from p have "public_key_wf X (dg_delegator d)"
    by (rule parse_delegation_Inr) (auto dest: public_key_parse_wf)
  then show ?thesis using v m by (simp add: verify_delegation_def delegation_hash_def delegation_message_def)
qed

section \<open>Threads\<close>

text \<open>A thread survives its tags: the context rendered by \<open>to_tags\<close> is what \<open>from_event\<close> reads back, references and
  mentioned keys in order, from any event whose \<open>e\<close> and \<open>p\<close> tags are those tags, whatever other tags stand
  between them.\<close>

theorem thread_round_trip:
  assumes "hex_laws X" and "thread_wf X U tc"
    and "filter (\<lambda>t. tag_head t \<in> {SingleLetter (lowercase_tag L_E), SingleLetter (lowercase_tag L_P)}) (ev_tags e) =
      thread_to_tags X tc"
  shows "thread_from_event X U e = tc"
proof -
  have "thread_from_event X U e = fold (thread_add_tag X U) (filter thread_tag (ev_tags e)) thread_new"
    by (simp add: thread_from_event_def fold_thread_filter)
  also have "filter thread_tag (ev_tags e) = thread_to_tags X tc" using assms(3) by simp
  finally show ?thesis using thread_from_tags [OF assms(1,2)] by simp
qed

definition sample_thread :: thread_context where
  "sample_thread = thread_mention sample_pk
     (thread_reference (er_with_marker ReplyMarker (event_reference_new (replicate 32 5)))
       (thread_reference (er_with_author_hint sample_pk (event_reference_new (replicate 32 4))) thread_new))"

theorem thread_round_trip_witness:
  "thread_from_event sample_crates sample_url (sample_wire_event\<lparr>ev_tags := thread_to_tags sample_crates sample_thread\<rparr>) =
     sample_thread"
proof (rule thread_round_trip [OF sample_hex_laws])
  show "thread_wf sample_crates sample_url sample_thread"
    by (simp add: thread_wf_def sample_thread_def thread_mention_def thread_reference_def er_with_marker_def
        er_with_author_hint_def event_reference_new_def thread_new_def event_reference_wf_def event_id_wf_def
        EVENT_ID_SIZE_def public_key_wf_def PUBLIC_KEY_SIZE_def sample_pk_def sample_crates_def)
qed (auto simp: thread_to_tags_def filter_id_conv)

text \<open>Markers of the positional form are inferred as NIP-10 reads them: every reference that has a marker is
  unchanged; of the others the first becomes the root, the last of two or more the reply and those between
  mentions. Nothing but markers changes, none is missing afterwards, and inferring again changes nothing.\<close>

theorem thread_legacy_markers:
  "length (tc_events (infer_legacy_markers tc)) = length (tc_events tc) \<and>
   tc_mentioned_pubkeys (infer_legacy_markers tc) = tc_mentioned_pubkeys tc \<and>
   (\<forall>i < length (tc_events tc). tc_events (infer_legacy_markers tc) ! i =
      (tc_events tc ! i)\<lparr>er_marker := Some (case er_marker (tc_events tc ! i) of
         Some m \<Rightarrow> m
       | None \<Rightarrow> if \<forall>j < i. er_marker (tc_events tc ! j) \<noteq> None then RootMarker
           else if \<forall>j. i < j \<and> j < length (tc_events tc) \<longrightarrow> er_marker (tc_events tc ! j) \<noteq> None then ReplyMarker
           else MentionMarker)\<rparr>) \<and>
   infer_legacy_markers (infer_legacy_markers tc) = infer_legacy_markers tc" for tc :: thread_context
proof (intro conjI allI impI)
  let ?rs = "tc_events tc" and ?tc = "infer_legacy_markers tc"
  have empty: "?rs = [] \<Longrightarrow> ?tc = tc" by (simp add: infer_legacy_markers_def unmarked_def)
  show len: "length (tc_events ?tc) = length ?rs"
    using infer_events(1) [of 0 tc] empty by (cases "?rs = []") auto
  show "tc_mentioned_pubkeys ?tc = tc_mentioned_pubkeys tc"
    by (simp add: infer_legacy_markers_def Let_def split: list.splits)
  have marked: "er_marker (tc_events ?tc ! i) \<noteq> None" if "i < length ?rs" for i
    using infer_events(2) [OF that] by (simp split: option.splits)
  then have "set (unmarked (tc_events ?tc)) = {}" unfolding set_unmarked using len by fastforce
  then have "unmarked (tc_events ?tc) = []" by simp
  then show "infer_legacy_markers ?tc = ?tc" by (simp add: infer_legacy_markers_def [of ?tc])
  fix i assume i: "i < length ?rs"
  have same: "r = r\<lparr>er_marker := Some m\<rparr>" if "er_marker r = Some m" for m and r :: event_reference
    using that by simp
  show "tc_events ?tc ! i = (?rs ! i)\<lparr>er_marker := Some (case er_marker (?rs ! i) of
         Some m \<Rightarrow> m
       | None \<Rightarrow> if \<forall>j < i. er_marker (?rs ! j) \<noteq> None then RootMarker
           else if \<forall>j. i < j \<and> j < length ?rs \<longrightarrow> er_marker (?rs ! j) \<noteq> None then ReplyMarker
           else MentionMarker)\<rparr>"
  proof (cases "er_marker (?rs ! i)")
    case (Some m)
    then show ?thesis using infer_events(2) [OF i] same [OF Some] by simp
  next
    case None
    then show ?thesis using infer_events(2) [OF i] by (simp add: positional_marker_def Ball_def)
  qed
qed

definition sample_legacy :: thread_context where
  "sample_legacy = thread_reference (event_reference_new (replicate 32 3))
     (thread_reference (event_reference_new (replicate 32 2))
       (thread_reference (event_reference_new (replicate 32 1)) thread_new))"

theorem thread_legacy_markers_witness:
  "er_marker (tc_events (infer_legacy_markers sample_legacy) ! 0) = Some RootMarker \<and>
   er_marker (tc_events (infer_legacy_markers sample_legacy) ! 1) = Some MentionMarker \<and>
   er_marker (tc_events (infer_legacy_markers sample_legacy) ! 2) = Some ReplyMarker"
proof -
  let ?rs = "tc_events sample_legacy"
  have none: "er_marker (?rs ! 0) = None" "er_marker (?rs ! 1) = None" "er_marker (?rs ! 2) = None" and len: "length ?rs = 3"
    by (simp_all add: sample_legacy_def thread_reference_def thread_new_def event_reference_new_def)
  have later: "\<not> (\<forall>j. 1 < j \<and> j < 3 \<longrightarrow> er_marker (?rs ! j) \<noteq> None)" using none(3) by (intro notI) (auto dest: spec [of _ 2])
  have earlier: "\<not> (\<forall>j < i. er_marker (?rs ! j) \<noteq> None)" if "0 < i" for i using none(1) that by blast
  have final: "\<forall>j. 2 < j \<and> j < 3 \<longrightarrow> er_marker (?rs ! j) \<noteq> None" by (intro allI impI) linarith
  note step = thread_legacy_markers [of sample_legacy, THEN conjunct2, THEN conjunct2, THEN conjunct1, rule_format, unfolded len]
  have "er_marker (tc_events (infer_legacy_markers sample_legacy) ! 0) = Some RootMarker"
    using step [of 0] none(1) by simp
  moreover have "er_marker (tc_events (infer_legacy_markers sample_legacy) ! 1) = Some MentionMarker"
    using step [of 1] none(2) later earlier [of 1] by simp
  moreover have "er_marker (tc_events (infer_legacy_markers sample_legacy) ! 2) = Some ReplyMarker"
    using step [of 2] none(3) final earlier [of 2] by simp
  ultimately show ?thesis by blast
qed

end
