(* ===== verification/Redb_Codec.thy ===== *)
theory Redb_Codec
  imports Byte_Codec
begin

text \<open>
  The bytes of the redb backend (nula-storage, redb/keys.rs and redb/codec.rs): the keys of the indexes and
  their order, the bounds of a range scan, and the stored form of an event with its two partial
  decoders. The postcard crate is the argument \<open>P\<close>.
\<close>

section \<open>Keys\<close>

definition ID_LEN :: nat where "ID_LEN = 32"
definition PUBKEY_LEN :: nat where "PUBKEY_LEN = 32"
definition TS_LEN :: nat where "TS_LEN = 8"
definition KIND_LEN :: nat where "KIND_LEN = 2"

definition ts_be :: "timestamp \<Rightarrow> bytes" where
  "ts_be ts = to_be 8 (unat ts)"

definition kind_be2 :: "kind \<Rightarrow> bytes" where
  "kind_be2 k = to_be 2 (unat k)"

definition key_created_at :: "timestamp \<Rightarrow> event_id \<Rightarrow> bytes" where
  "key_created_at ts i = ts_be ts @ i"

definition key_author_ts :: "public_key \<Rightarrow> timestamp \<Rightarrow> event_id \<Rightarrow> bytes" where
  "key_author_ts pubkey ts i = pubkey @ ts_be ts @ i"

definition key_kind_author_ts :: "kind \<Rightarrow> public_key \<Rightarrow> timestamp \<Rightarrow> event_id \<Rightarrow> bytes" where
  "key_kind_author_ts k pubkey ts i = kind_be2 k @ pubkey @ ts_be ts @ i"

definition key_coordinate :: "kind \<Rightarrow> public_key \<Rightarrow> string \<Rightarrow> bytes" where
  "key_coordinate k pubkey identifier = kind_be2 k @ pubkey @ body_bytes identifier"

definition kind_author_prefix :: "kind \<Rightarrow> public_key \<Rightarrow> bytes" where
  "kind_author_prefix k pubkey = kind_be2 k @ pubkey"

definition author_prefix :: "public_key \<Rightarrow> bytes" where
  "author_prefix pubkey = pubkey"

text \<open>The loop over the bytes from the last to the first.\<close>

fun bump_last :: "bytes \<Rightarrow> bytes option" where
  "bump_last [] = None"
| "bump_last (b # bs) = (if b = 0xFF then map_option ((#) 0) (bump_last bs) else Some ((b + 1) # bs))"

definition upper_bound :: "bytes \<Rightarrow> bytes option" where
  "upper_bound prefix = map_option rev (bump_last (rev prefix))"

section \<open>Stored events\<close>

record postcard =
  pc_to_vec :: "event \<Rightarrow> string + bytes"
  pc_from_bytes :: "bytes \<Rightarrow> string + event"
  pc_take_times :: "bytes \<Rightarrow> string + string \<times> string \<times> timestamp"
  pc_take_match :: "bytes \<Rightarrow> string + string \<times> string \<times> timestamp \<times> kind \<times> string list list"

datatype redb_error =
    RedbEngine
  | RedbIo
  | RedbEncode string
  | RedbDecode string
  | UnsupportedCodecVersion u8
  | EmptyPayload
  | CorruptRecord string
  | RedbJoin

definition STORED_EVENT_VERSION :: u8 where "STORED_EVENT_VERSION = 1"

definition codec_encode :: "postcard \<Rightarrow> event \<Rightarrow> redb_error + bytes" where
  "codec_encode P e =
     res_bind (map_err RedbEncode (pc_to_vec P e)) (\<lambda>body. Inr (STORED_EVENT_VERSION # body))"

definition codec_decode :: "postcard \<Rightarrow> bytes \<Rightarrow> redb_error + event" where
  "codec_decode P bytes =
     (case bytes of
        [] \<Rightarrow> Inl EmptyPayload
      | version # rest \<Rightarrow>
          if version = STORED_EVENT_VERSION then map_err RedbDecode (pc_from_bytes P rest)
          else Inl (UnsupportedCodecVersion version))"

definition decode_created_at :: "postcard \<Rightarrow> bytes \<Rightarrow> redb_error + timestamp" where
  "decode_created_at P bytes =
     (case bytes of
        [] \<Rightarrow> Inl EmptyPayload
      | version # rest \<Rightarrow>
          if version \<noteq> STORED_EVENT_VERSION then Inl (UnsupportedCodecVersion version)
          else res_bind (map_err RedbDecode (pc_take_times P rest)) (\<lambda>(i, p, created_at). Inr created_at))"

record event_view =
  vw_id :: bytes
  vw_pubkey :: bytes
  vw_created_at :: timestamp
  vw_kind :: kind
  vw_tags :: "string list list"

definition decode_match_view :: "crates \<Rightarrow> postcard \<Rightarrow> bytes \<Rightarrow> redb_error + event_view" where
  "decode_match_view X P bytes =
     (case bytes of
        [] \<Rightarrow> Inl EmptyPayload
      | version # rest \<Rightarrow>
          if version \<noteq> STORED_EVENT_VERSION then Inl (UnsupportedCodecVersion version)
          else res_bind (map_err RedbDecode (pc_take_match P rest)) (\<lambda>(id_hex, pubkey_hex, created_at, k, tags).
          res_bind (map_err (\<lambda>_. CorruptRecord ''event id is not hex'') (hex_decode_to_slice X id_hex 32)) (\<lambda>i.
          res_bind (map_err (\<lambda>_. CorruptRecord ''pubkey is not hex'') (hex_decode_to_slice X pubkey_hex 32)) (\<lambda>pk.
          Inr \<lparr>vw_id = i, vw_pubkey = pk, vw_created_at = created_at, vw_kind = k, vw_tags = tags\<rparr>))))"

definition view_has_tag :: "event_view \<Rightarrow> single_letter_tag \<Rightarrow> string list \<Rightarrow> bool" where
  "view_has_tag v letter values =
     list_ex (\<lambda>t. (case t of [] \<Rightarrow> None | head # _ \<Rightarrow> res_ok (slt_from_str head)) = Some letter \<and>
        1 < length t \<and> t ! 1 \<in> set values) (vw_tags v)"

definition view_expiration_of :: "event_view \<Rightarrow> timestamp option" where
  "view_expiration_of v =
     Option.bind (find (\<lambda>t. t \<noteq> [] \<and> hd t = ''expiration'') (vw_tags v)) (\<lambda>t.
     if 1 < length t then res_ok (parse_u64 (t ! 1)) else None)"

definition view_matchable :: "event_view matchable" where
  "view_matchable = \<lparr>
     matchable_id = vw_id,
     matchable_pubkey_bytes = vw_pubkey,
     matchable_kind = vw_kind,
     matchable_created_at = vw_created_at,
     matchable_has_tag = view_has_tag,
     matchable_expiration = view_expiration_of\<rparr>"

section \<open>The order of keys\<close>

lemma append_less:
  fixes a b x y :: "'a::linorder list"
  assumes "length a = length b"
  shows "a @ x < b @ y \<longleftrightarrow> a < b \<or> a = b \<and> x < y"
  using assms by (induction a b rule: list_induct2) auto

lemma digits_less:
  fixes a b r s :: nat
  assumes "r < 256" and "s < 256"
  shows "a * 256 + r < b * 256 + s \<longleftrightarrow> a < b \<or> a = b \<and> r < s"
  using assms by (cases a b rule: linorder_cases) auto

lemma u8_unat_less: "unat (b :: u8) < 256"
  using unsigned_less [of b, where ?'a = nat] by simp

lemma to_be_less:
  assumes "m < 256 ^ k" and "n < 256 ^ k"
  shows "to_be k m < to_be k n \<longleftrightarrow> m < n"
  using assms
proof (induction k arbitrary: m n)
  case (Suc k)
  have d: "m div 256 < 256 ^ k" "n div 256 < 256 ^ k"
    using Suc.prems by (simp_all add: less_mult_imp_div_less mult.commute)
  have inj: "to_be k (m div 256) = to_be k (n div 256) \<longleftrightarrow> m div 256 = n div 256"
    using be_nat_to_be [of k "m div 256"] be_nat_to_be [of k "n div 256"] d by (metis mod_less)
  have low: "(of_nat (m mod 256) :: u8) < of_nat (n mod 256) \<longleftrightarrow> m mod 256 < n mod 256"
    by (simp add: word_less_nat_alt unat_of_nat)
  have "m < n \<longleftrightarrow> m div 256 < n div 256 \<or> m div 256 = n div 256 \<and> m mod 256 < n mod 256"
    using digits_less [of "m mod 256" "n mod 256" "m div 256" "n div 256"] by simp
  then show ?case by (simp add: append_less Suc.IH [OF d] inj low)
qed simp

lemma length_ts_be [simp]: "length (ts_be ts) = 8" by (simp add: ts_be_def)
lemma length_kind_be2 [simp]: "length (kind_be2 k) = 2" by (simp add: kind_be2_def)

lemma ts_be_less: "ts_be s < ts_be t \<longleftrightarrow> s < t"
  using unsigned_less [of s, where ?'a = nat] unsigned_less [of t, where ?'a = nat]
  by (simp add: ts_be_def to_be_less word_less_nat_alt)

lemma ts_be_inject [simp]: "ts_be s = ts_be t \<longleftrightarrow> s = t"
  using ts_be_less [of s t] ts_be_less [of t s] by auto

lemma kind_be2_inject [simp]: "kind_be2 k = kind_be2 l \<longleftrightarrow> k = l"
proof -
  have "to_be 2 (unat k) < to_be 2 (unat l) \<longleftrightarrow> k < l" for k l :: kind
    using unsigned_less [of k, where ?'a = nat] unsigned_less [of l, where ?'a = nat]
    by (simp add: to_be_less word_less_nat_alt)
  then show ?thesis unfolding kind_be2_def by (metis less_irrefl linorder_neqE)
qed

lemma body_bytes_inject [simp]: "body_bytes s = body_bytes t \<longleftrightarrow> s = t"
  by (metis bytes_string_bytes)

lemma key_coordinate_inject:
  "length a = length b \<Longrightarrow> key_coordinate k a d = key_coordinate l b d' \<longleftrightarrow> k = l \<and> a = b \<and> d = d'"
  by (simp add: key_coordinate_def)

section \<open>Range scans\<close>

lemma bump_last_append:
  "bump_last (xs @ ys) = (case bump_last xs of
     Some zs \<Rightarrow> Some (zs @ ys) | None \<Rightarrow> map_option ((@) (replicate (length xs) 0)) (bump_last ys))"
  by (cases "bump_last ys"; induction xs) (auto split: option.splits)

lemma upper_bound_Cons:
  "upper_bound (b # p) = (case upper_bound p of
     Some hi \<Rightarrow> Some (b # hi)
   | None \<Rightarrow> if b = 0xFF then None else Some ((b + 1) # replicate (length p) 0))"
  by (auto simp: upper_bound_def bump_last_append split: option.splits)

lemma not_less_zeros: "n \<le> length (k :: bytes) \<Longrightarrow> \<not> k < replicate n 0"
proof (induction n arbitrary: k)
  case (Suc n)
  then obtain c k' where "k = c # k'" by (cases k) auto
  with Suc show ?case by simp
qed simp

lemma u8_bump:
  assumes "(b :: u8) \<noteq> 0xFF"
  shows "c < b + 1 \<longleftrightarrow> c \<le> b"
proof -
  have "unat b \<noteq> unat (0xFF :: u8)" using assms by (simp only: word_unat_eq_iff [symmetric]) simp
  then have "unat b + 1 < 256" using u8_unat_less [of b] by simp
  then have "unat (b + 1) = unat b + 1" by (simp add: unat_word_ariths)
  then show ?thesis by (simp add: word_less_nat_alt word_le_nat_alt less_Suc_eq_le)
qed

text \<open>Between a prefix and its bound lie exactly the keys with that prefix, among those at least as long.\<close>

lemma range_prefix:
  fixes p k :: bytes
  assumes "length p \<le> length k"
  shows "p \<le> k \<and> (case upper_bound p of None \<Rightarrow> True | Some hi \<Rightarrow> k < hi) \<longleftrightarrow> take (length p) k = p"
  using assms
proof (induction p arbitrary: k)
  case Nil
  then show ?case by (simp add: upper_bound_def)
next
  case (Cons b p)
  then obtain c k' where k: "k = c # k'" "length p \<le> length k'" by (cases k) auto
  note IH = Cons.IH [OF k(2)]
  have top: "\<not> (0xFF :: u8) < c" using u8_unat_less [of c] by (simp add: word_less_nat_alt)
  show ?case
  proof (cases "upper_bound p")
    case (Some hi)
    then show ?thesis using IH by (auto simp: upper_bound_Cons k(1))
  next
    case None
    then show ?thesis
      using IH top not_less_zeros [OF k(2)] u8_bump [of b c]
      by (auto simp: upper_bound_Cons k(1))
  qed
qed

section \<open>What the codec promises\<close>

text \<open>Strings of Rust are UTF-8.\<close>

definition stored_wf :: "crates \<Rightarrow> event \<Rightarrow> bool" where
  "stored_wf X e \<longleftrightarrow> event_wf X e \<and> str_wf (ev_content e) \<and>
     (\<forall>t \<in> set (ev_tags e). \<forall>v \<in> set (tag_values t). str_wf v)"

text \<open>What is relied on of postcard: an event is read back, and a tuple of leading fields reads those fields,
  ids and keys as the hex text their serialisers write.\<close>

definition postcard_laws :: "crates \<Rightarrow> postcard \<Rightarrow> bool" where
  "postcard_laws X P \<longleftrightarrow> (\<forall>e. stored_wf X e \<longrightarrow> (\<exists>b. pc_to_vec P e = Inr b \<and> pc_from_bytes P b = Inr e \<and>
     pc_take_times P b = Inr (fmt_lower (ev_id e), fmt_lower (ev_pubkey e), ev_created_at e) \<and>
     pc_take_match P b = Inr (fmt_lower (ev_id e), fmt_lower (ev_pubkey e), ev_created_at e, ev_kind e,
       map tag_values (ev_tags e))))"

definition view_of :: "event \<Rightarrow> event_view" where
  "view_of e = \<lparr>vw_id = ev_id e, vw_pubkey = ev_pubkey e, vw_created_at = ev_created_at e, vw_kind = ev_kind e,
     vw_tags = map tag_values (ev_tags e)\<rparr>"

definition event_of_view :: "event_view \<Rightarrow> event" where
  "event_of_view v = \<lparr>ev_id = vw_id v, ev_pubkey = vw_pubkey v, ev_created_at = vw_created_at v, ev_kind = vw_kind v,
     ev_tags = map Tag (vw_tags v), ev_content = [], ev_sig = []\<rparr>"

section \<open>Lemmas on stored events\<close>

lemma view_tag_head:
  "(case vs of [] \<Rightarrow> None | head # _ \<Rightarrow> res_ok (slt_from_str head)) = Some letter \<and> 1 < length vs \<and> vs ! 1 \<in> set values \<longleftrightarrow>
   (\<exists>v \<in> set values. tag_name (Tag vs) = slt_to_string letter \<and> tag_content (Tag vs) = Some v)"
proof (cases vs)
  case Nil
  then show ?thesis by (simp add: tag_content_def tag_get_def)
next
  case (Cons h ws)
  have "tag_name (Tag (h # ws)) = h" by (simp add: tag_name_def)
  moreover have "tag_content (Tag (h # ws)) = (if ws = [] then None else Some (hd ws))"
    by (cases ws) (simp_all add: tag_content_def tag_get_def)
  ultimately show ?thesis
    by (cases ws) (auto simp: Cons res_ok_Some_iff slt_from_str_iff)
qed

lemma expiration_head: "tag_head (Tag t) = Custom ''expiration'' \<longleftrightarrow> t \<noteq> [] \<and> hd t = ''expiration''"
proof -
  have "Custom ''expiration'' = tag_kind_from_wire ''expiration''" by (simp add: from_wire_two)
  then show ?thesis by (cases t) (auto simp: tag_head_def from_wire_inject)
qed

lemma find_map_tag:
  "Option.bind (find (\<lambda>t. tag_head t = Custom ''expiration'') (map Tag ts)) (\<lambda>t. Option.bind (tag_content t) g) =
   Option.bind (find (\<lambda>t. t \<noteq> [] \<and> hd t = ''expiration'') ts) (\<lambda>t. if 1 < length t then g (t ! 1) else None)"
  by (induction ts) (auto simp: expiration_head tag_content_def tag_get_def)

interpretation stored_view: matchable_view view_matchable event_of_view
proof
  fix v :: event_view and l vs
  show "matchable_has_tag view_matchable v l vs = has_tag_value (ev_tags (event_of_view v)) l vs"
    by (simp add: view_matchable_def view_has_tag_def has_tag_value_def event_of_view_def list_ex_iff view_tag_head
        del: One_nat_def)
  show "matchable_expiration view_matchable v = tags_expiration (ev_tags (event_of_view v))"
    by (simp add: view_matchable_def view_expiration_of_def tags_expiration_def event_of_view_def find_first_def
        find_map_tag)
qed (simp_all add: view_matchable_def event_of_view_def)

lemma event_of_view_of: "event_of_view (view_of e) = e\<lparr>ev_content := [], ev_sig := []\<rparr>"
  by (simp add: event_of_view_def view_of_def map_idI)

lemma view_matches: "match_event view_matchable f (view_of e) match_options_new \<longleftrightarrow> filter_selects f e"
  unfolding stored_view.match_event_view_selects event_of_view_of
  by (simp add: opts_admit_def match_options_new_def filter_selects_def)

lemma hex_slice: "hex_laws X \<Longrightarrow> length b = 32 \<Longrightarrow> hex_decode_to_slice X (fmt_lower b) 32 = Inr b"
  by (simp add: hex_decode_to_slice_def hex_laws_def)

lemma codec_stored:
  assumes "hex_laws X" and "postcard_laws X P" and "stored_wf X e"
  obtains b where "codec_encode P e = Inr b" and "codec_decode P b = Inr e"
    and "decode_created_at P b = Inr (ev_created_at e)" and "decode_match_view X P b = Inr (view_of e)"
proof -
  obtain b where "pc_to_vec P e = Inr b" and "pc_from_bytes P b = Inr e"
    and "pc_take_times P b = Inr (fmt_lower (ev_id e), fmt_lower (ev_pubkey e), ev_created_at e)"
    and "pc_take_match P b = Inr (fmt_lower (ev_id e), fmt_lower (ev_pubkey e), ev_created_at e, ev_kind e,
       map tag_values (ev_tags e))"
    using assms(2,3) unfolding postcard_laws_def by blast
  moreover have "length (ev_id e) = 32" "length (ev_pubkey e) = 32"
    using assms(3) by (simp_all add: stored_wf_def event_wf_def event_id_wf_def public_key_wf_def EVENT_ID_SIZE_def PUBLIC_KEY_SIZE_def)
  ultimately show thesis
    by (intro that [of "STORED_EVENT_VERSION # b"])
      (simp_all add: codec_encode_def codec_decode_def decode_created_at_def decode_match_view_def view_of_def
        hex_slice [OF assms(1)])
qed

end
