(* ===== verification/Redb_Store.thy ===== *)
theory Redb_Store
  imports Redb_Codec Database_Interface
begin

text \<open>
  The redb backend (nula-storage, redb/store.rs, redb/options.rs and redb/database.rs): the seven tables as maps and sets
  sorted by the bytes of their keys, the write rules of \<open>save_event\<close>, index scans and queries. A write
  transaction is a function on the tables that may fail; what fails or is rejected is not committed. The
  engine itself (files, pages, MVCC) is outside: the argument \<open>fault\<close> says that one of its calls failed, which
  aborts the transaction. A reader sees the tables of one commit.
\<close>

section \<open>Tables\<close>

record redb_options =
  ro_process_nip09 :: bool
  ro_process_nip62 :: bool

definition redb_options_new :: redb_options where
  "redb_options_new = \<lparr>ro_process_nip09 = True, ro_process_nip62 = True\<rparr>"

definition redb_with_process_nip09 :: "bool \<Rightarrow> redb_options \<Rightarrow> redb_options" where
  "redb_with_process_nip09 enabled opts = opts\<lparr>ro_process_nip09 := enabled\<rparr>"

definition redb_with_process_nip62 :: "bool \<Rightarrow> redb_options \<Rightarrow> redb_options" where
  "redb_with_process_nip62 enabled opts = opts\<lparr>ro_process_nip62 := enabled\<rparr>"

record redb_tables =
  rt_events :: "(bytes, bytes) btree_map"
  rt_by_created_at :: "bytes btree_set"
  rt_by_author_ts :: "bytes btree_set"
  rt_by_kind_author_ts :: "bytes btree_set"
  rt_by_coordinate :: "(bytes, bytes) btree_map"
  rt_deleted_ids :: "(bytes, u64) btree_map"
  rt_deleted_coordinates :: "(bytes, u64) btree_map"

record redb_store =
  rs_options :: redb_options
  rs_tables :: redb_tables

definition redb_empty :: redb_tables where
  "redb_empty = \<lparr>rt_events = [], rt_by_created_at = [], rt_by_author_ts = [], rt_by_kind_author_ts = [],
     rt_by_coordinate = [], rt_deleted_ids = [], rt_deleted_coordinates = []\<rparr>"

text \<open>Opening a fresh file creates the empty tables.\<close>

definition redb_open :: "redb_options \<Rightarrow> redb_store" where
  "redb_open opts = \<lparr>rs_options = opts, rs_tables = redb_empty\<rparr>"

text \<open>\<open>Table::range\<close>: ascending from a key, up to a bound.\<close>

definition table_range :: "bytes \<Rightarrow> bytes option \<Rightarrow> bytes btree_set \<Rightarrow> bytes list" where
  "table_range lo hi tbl = filter (\<lambda>k. lo \<le> k \<and> (case hi of None \<Rightarrow> True | Some h \<Rightarrow> k < h)) tbl"

section \<open>Writing\<close>

definition addressable_identifier :: "event \<Rightarrow> string option" where
  "addressable_identifier e =
     (if \<not> is_addressable (ev_kind e) then None
      else Some (case tags_identifier (ev_tags e) of None \<Rightarrow> [] | Some d \<Rightarrow> d))"

definition pick_loser_id :: "timestamp \<Rightarrow> event_id \<Rightarrow> event \<Rightarrow> event_id" where
  "pick_loser_id incumbent_ts incumbent_id challenger =
     (if incumbent_ts > ev_created_at challenger then ev_id challenger
      else if incumbent_ts < ev_created_at challenger then incumbent_id
      else if incumbent_id \<le> ev_id challenger then ev_id challenger else incumbent_id)"

definition insert_event_inner :: "postcard \<Rightarrow> event \<Rightarrow> redb_tables \<Rightarrow> redb_error + redb_tables" where
  "insert_event_inner P e t =
     res_bind (codec_encode P e) (\<lambda>encoded.
     let t1 = t\<lparr>rt_events := bt_insert (ev_id e) encoded (rt_events t),
                rt_by_created_at := bs_insert (key_created_at (ev_created_at e) (ev_id e)) (rt_by_created_at t),
                rt_by_author_ts :=
                  bs_insert (key_author_ts (ev_pubkey e) (ev_created_at e) (ev_id e)) (rt_by_author_ts t),
                rt_by_kind_author_ts :=
                  bs_insert (key_kind_author_ts (ev_kind e) (ev_pubkey e) (ev_created_at e) (ev_id e))
                    (rt_by_kind_author_ts t)\<rparr>
     in Inr (case addressable_identifier e of
               None \<Rightarrow> t1
             | Some d \<Rightarrow> t1\<lparr>rt_by_coordinate :=
                 bt_insert (key_coordinate (ev_kind e) (ev_pubkey e) d) (ev_id e) (rt_by_coordinate t1)\<rparr>))"

definition remove_event_inner :: "postcard \<Rightarrow> event_id \<Rightarrow> redb_tables \<Rightarrow> redb_error + redb_tables" where
  "remove_event_inner P i t =
     (case map_of (rt_events t) i of
        None \<Rightarrow> Inr t
      | Some payload \<Rightarrow>
          res_bind (codec_decode P payload) (\<lambda>e.
          let t1 = t\<lparr>rt_events := bt_remove i (rt_events t),
                     rt_by_created_at := bs_remove (key_created_at (ev_created_at e) (ev_id e)) (rt_by_created_at t),
                     rt_by_author_ts :=
                       bs_remove (key_author_ts (ev_pubkey e) (ev_created_at e) (ev_id e)) (rt_by_author_ts t),
                     rt_by_kind_author_ts :=
                       bs_remove (key_kind_author_ts (ev_kind e) (ev_pubkey e) (ev_created_at e) (ev_id e))
                         (rt_by_kind_author_ts t)\<rparr>
          in Inr (case addressable_identifier e of
                    None \<Rightarrow> t1
                  | Some d \<Rightarrow>
                      let coord_key = key_coordinate (ev_kind e) (ev_pubkey e) d
                      in if map_of (rt_by_coordinate t1) coord_key = Some i
                         then t1\<lparr>rt_by_coordinate := bt_remove coord_key (rt_by_coordinate t1)\<rparr>
                         else t1)))"

text \<open>The newest entry of a scan over the keys of one kind and author: a later one wins only when it is strictly newer.\<close>

fun scan_newest :: "nat \<Rightarrow> bytes list \<Rightarrow> (timestamp \<times> event_id) option \<Rightarrow> (timestamp \<times> event_id) option" where
  "scan_newest prefix_len [] best = best"
| "scan_newest prefix_len (key # ks) best =
     (if length key \<noteq> prefix_len + TS_LEN + ID_LEN then scan_newest prefix_len ks best
      else let ts = of_nat (be_nat (take TS_LEN (drop prefix_len key))); i = drop (prefix_len + TS_LEN) key
        in scan_newest prefix_len ks
             (case best of
                None \<Rightarrow> Some (ts, i)
              | Some (cur_ts, cur_id) \<Rightarrow> if ts > cur_ts then Some (ts, i) else best))"

definition redb_resolve_replaceable :: "redb_tables \<Rightarrow> event \<Rightarrow> event_id option" where
  "redb_resolve_replaceable t e =
     (let prefix = kind_author_prefix (ev_kind e) (ev_pubkey e);
          ks = table_range prefix (upper_bound prefix) (rt_by_kind_author_ts t)
      in map_option (\<lambda>(ts, i). pick_loser_id ts i e) (scan_newest (KIND_LEN + PUBKEY_LEN) ks None))"

definition redb_resolve_addressable :: "postcard \<Rightarrow> redb_tables \<Rightarrow> event \<Rightarrow> redb_error + event_id option" where
  "redb_resolve_addressable P t e =
     (case addressable_identifier e of
        None \<Rightarrow> Inr None
      | Some d \<Rightarrow>
          (case map_of (rt_by_coordinate t) (key_coordinate (ev_kind e) (ev_pubkey e) d) of
             None \<Rightarrow> Inr None
           | Some existing \<Rightarrow>
               if length existing \<noteq> ID_LEN then Inr None
               else
                 (case map_of (rt_events t) existing of
                    None \<Rightarrow> Inr None
                  | Some payload \<Rightarrow>
                      res_bind (decode_created_at P payload) (\<lambda>at. Inr (Some (pick_loser_id at existing e))))))"

text \<open>Step 6: nothing, or the loser of the conflict; the loser is removed unless it is the new event.\<close>

definition redb_resolve_conflict :: "postcard \<Rightarrow> redb_tables \<Rightarrow> event \<Rightarrow> redb_error + redb_tables option" where
  "redb_resolve_conflict P t e =
     (if is_replaceable (ev_kind e) then
        (case redb_resolve_replaceable t e of
           None \<Rightarrow> Inr (Some t)
         | Some loser \<Rightarrow>
             if loser = ev_id e then Inr None else res_bind (remove_event_inner P loser t) (\<lambda>t'. Inr (Some t')))
      else if is_addressable (ev_kind e) then
        res_bind (redb_resolve_addressable P t e) (\<lambda>r.
          case r of
            None \<Rightarrow> Inr (Some t)
          | Some loser \<Rightarrow>
              if loser = ev_id e then Inr None else res_bind (remove_event_inner P loser t) (\<lambda>t'. Inr (Some t')))
      else Inr (Some t))"

text \<open>The two sets a deletion collects before it writes, as duplicate-free lists.\<close>

fun collect_targets ::
  "postcard \<Rightarrow> event \<Rightarrow> redb_tables \<Rightarrow> event_id list \<Rightarrow> event_id list \<Rightarrow> event_id list \<Rightarrow>
   redb_error + event_id list \<times> event_id list" where
  "collect_targets P e t [] to_remove to_tombstone = Inr (to_remove, to_tombstone)"
| "collect_targets P e t (i # is) to_remove to_tombstone =
     (case map_of (rt_events t) i of
        None \<Rightarrow> collect_targets P e t is to_remove (push_new to_tombstone i)
      | Some payload \<Rightarrow>
          res_bind (codec_decode P payload) (\<lambda>x.
          if ev_pubkey x = ev_pubkey e
          then collect_targets P e t is (push_new to_remove i) (push_new to_tombstone i)
          else collect_targets P e t is to_remove to_tombstone))"

fun remove_all_inner :: "postcard \<Rightarrow> event_id list \<Rightarrow> redb_tables \<Rightarrow> redb_error + redb_tables" where
  "remove_all_inner P [] t = Inr t"
| "remove_all_inner P (i # is) t = res_bind (remove_event_inner P i t) (remove_all_inner P is)"

definition tombstone_ids :: "u64 \<Rightarrow> event_id list \<Rightarrow> redb_tables \<Rightarrow> redb_tables" where
  "tombstone_ids at is t = t\<lparr>rt_deleted_ids := fold (\<lambda>i. bt_insert i at) is (rt_deleted_ids t)\<rparr>"

definition redb_delete_coordinate ::
  "postcard \<Rightarrow> event \<Rightarrow> coordinate \<Rightarrow> redb_tables \<Rightarrow> redb_error + redb_tables" where
  "redb_delete_coordinate P e c t =
     (if c_author c \<noteq> ev_pubkey e then Inr t
      else
        let coord_key = key_coordinate (c_kind c) (c_author c) (c_identifier c);
            existing = (case map_of (rt_by_coordinate t) coord_key of
              Some v \<Rightarrow> if length v = ID_LEN then Some v else None | None \<Rightarrow> None)
        in res_bind
             (case existing of
                None \<Rightarrow> Inr t
              | Some i \<Rightarrow>
                  (case map_of (rt_events t) i of
                     None \<Rightarrow> Inr t
                   | Some payload \<Rightarrow>
                       res_bind (decode_created_at P payload) (\<lambda>at.
                       if at \<le> ev_created_at e then remove_event_inner P i t else Inr t)))
             (\<lambda>t1. Inr (if (case map_of (rt_deleted_coordinates t1) coord_key of
                              None \<Rightarrow> True | Some p \<Rightarrow> p < ev_created_at e)
                        then t1\<lparr>rt_deleted_coordinates :=
                          bt_insert coord_key (ev_created_at e) (rt_deleted_coordinates t1)\<rparr>
                        else t1)))"

fun redb_delete_coordinates ::
  "postcard \<Rightarrow> event \<Rightarrow> coordinate list \<Rightarrow> redb_tables \<Rightarrow> redb_error + redb_tables" where
  "redb_delete_coordinates P e [] t = Inr t"
| "redb_delete_coordinates P e (c # cs) t =
     res_bind (redb_delete_coordinate P e c t) (redb_delete_coordinates P e cs)"

definition redb_apply_deletion ::
  "crates \<Rightarrow> postcard \<Rightarrow> event \<Rightarrow> redb_tables \<Rightarrow> redb_error + redb_tables" where
  "redb_apply_deletion X P e t =
     (case deletion_from_event X e of
        Inl _ \<Rightarrow> Inr t
      | Inr request \<Rightarrow>
          res_bind (collect_targets P e t (dr_event_ids request) [] []) (\<lambda>p.
          res_bind (remove_all_inner P (fst p) t) (\<lambda>t1.
          redb_delete_coordinates P e (dr_coordinates request) (tombstone_ids (ev_created_at e) (snd p) t1))))"

text \<open>Steps 1 to 5: the checks that refuse an event.\<close>

definition redb_refusal :: "redb_tables \<Rightarrow> event \<Rightarrow> timestamp \<Rightarrow> rejected_reason option" where
  "redb_refusal t e now =
     (if is_ephemeral (ev_kind e) then Some Ephemeral
      else if is_expired e now = Inr True then Some Expired
      else if map_of (rt_deleted_ids t) (ev_id e) \<noteq> None then Some Deleted
      else if (case addressable_identifier e of
                 None \<Rightarrow> False
               | Some d \<Rightarrow>
                   (case map_of (rt_deleted_coordinates t) (key_coordinate (ev_kind e) (ev_pubkey e) d) of
                      None \<Rightarrow> False | Some stamp \<Rightarrow> ev_created_at e \<le> stamp)) then Some Deleted
      else if map_of (rt_events t) (ev_id e) \<noteq> None then Some Duplicate
      else None)"

definition save_with ::
  "crates \<Rightarrow> postcard \<Rightarrow> redb_options \<Rightarrow> event \<Rightarrow> timestamp \<Rightarrow> redb_tables \<Rightarrow>
   redb_error + redb_tables \<times> save_event_status" where
  "save_with X P opts e now t =
     (case redb_refusal t e now of
        Some reason \<Rightarrow> Inr (t, Rejected reason)
      | None \<Rightarrow>
          res_bind (redb_resolve_conflict P t e) (\<lambda>r.
          case r of
            None \<Rightarrow> Inr (t, Rejected Replaced)
          | Some t1 \<Rightarrow>
              res_bind (if ro_process_nip09 opts \<and> ev_kind e = EVENT_DELETION
                        then redb_apply_deletion X P e t1 else Inr t1) (\<lambda>t2.
              res_bind (insert_event_inner P e t2) (\<lambda>t3. Inr (t3, Success)))))"

definition redb_save_event ::
  "crates \<Rightarrow> postcard \<Rightarrow> bool \<Rightarrow> event \<Rightarrow> timestamp \<Rightarrow> redb_store \<Rightarrow>
   redb_store \<times> (redb_error + save_event_status)" where
  "redb_save_event X P fault e now s =
     (if fault then (s, Inl RedbEngine)
      else
        (case save_with X P (rs_options s) e now (rs_tables s) of
           Inl err \<Rightarrow> (s, Inl err)
         | Inr (t, outcome) \<Rightarrow>
             (if outcome = Success then s\<lparr>rs_tables := t\<rparr> else s, Inr outcome)))"

section \<open>Reading\<close>

definition redb_check_id :: "redb_store \<Rightarrow> event_id \<Rightarrow> database_event_status" where
  "redb_check_id s i =
     (if map_of (rt_events (rs_tables s)) i \<noteq> None then StatusSaved
      else if map_of (rt_deleted_ids (rs_tables s)) i \<noteq> None then StatusDeleted
      else StatusNotExistent)"

definition redb_event_by_id :: "postcard \<Rightarrow> redb_store \<Rightarrow> event_id \<Rightarrow> redb_error + event option" where
  "redb_event_by_id P s i =
     (case map_of (rt_events (rs_tables s)) i of
        None \<Rightarrow> Inr None
      | Some payload \<Rightarrow> res_bind (codec_decode P payload) (\<lambda>e. Inr (Some e)))"

text \<open>The ids of the keys of one length, newest first.\<close>

definition scan_ids :: "nat \<Rightarrow> bytes list \<Rightarrow> event_id list" where
  "scan_ids prefix_len ks =
     rev (map (drop prefix_len) (filter (\<lambda>k. length k = prefix_len + ID_LEN) ks))"

definition scan_author :: "bytes btree_set \<Rightarrow> public_key \<Rightarrow> event_id list" where
  "scan_author tbl pubkey =
     (let prefix = author_prefix pubkey
      in scan_ids (PUBKEY_LEN + TS_LEN) (table_range prefix (upper_bound prefix) tbl))"

definition scan_kind_author :: "bytes btree_set \<Rightarrow> kind \<Rightarrow> public_key \<Rightarrow> event_id list" where
  "scan_kind_author tbl k pubkey =
     (let prefix = kind_author_prefix k pubkey
      in scan_ids (KIND_LEN + PUBKEY_LEN + TS_LEN) (table_range prefix (upper_bound prefix) tbl))"

definition only_one :: "'a list option \<Rightarrow> 'a option" where
  "only_one v = (case v of Some [x] \<Rightarrow> Some x | _ \<Rightarrow> None)"

definition candidate_ids :: "redb_tables \<Rightarrow> nostr_filter \<Rightarrow> event_id list" where
  "candidate_ids t f =
     (case f_ids f of
        Some (i # is) \<Rightarrow> i # is
      | _ \<Rightarrow>
          (case (only_one (f_authors f), only_one (f_kinds f)) of
             (Some author, Some k) \<Rightarrow> scan_kind_author (rt_by_kind_author_ts t) k author
           | (Some author, None) \<Rightarrow> scan_author (rt_by_author_ts t) author
           | _ \<Rightarrow> scan_ids TS_LEN (rt_by_created_at t)))"

text \<open>The loop of the reads: candidates in order until the limit, kept when the stored projection matches;
  \<open>g\<close> makes the result of a kept payload.\<close>

fun read_loop ::
  "crates \<Rightarrow> postcard \<Rightarrow> redb_tables \<Rightarrow> nostr_filter \<Rightarrow> nat option \<Rightarrow> (event_id \<Rightarrow> event_view \<Rightarrow> bytes \<Rightarrow> redb_error + 'a) \<Rightarrow>
   event_id list \<Rightarrow> 'a list \<Rightarrow> redb_error + 'a list" where
  "read_loop X P t f limit g [] out = Inr out"
| "read_loop X P t f limit g (i # is) out =
     (if (case limit of None \<Rightarrow> False | Some n \<Rightarrow> n \<le> length out) then Inr out
      else
        (case map_of (rt_events t) i of
           None \<Rightarrow> read_loop X P t f limit g is out
         | Some payload \<Rightarrow>
             res_bind (decode_match_view X P payload) (\<lambda>view.
             if match_event view_matchable f view match_options_new
             then res_bind (g i view payload) (\<lambda>x. read_loop X P t f limit g is (out @ [x]))
             else read_loop X P t f limit g is out)))"

definition redb_query :: "crates \<Rightarrow> postcard \<Rightarrow> redb_store \<Rightarrow> nostr_filter \<Rightarrow> redb_error + event list" where
  "redb_query X P s f =
     read_loop X P (rs_tables s) f (f_limit f) (\<lambda>_ _ payload. codec_decode P payload)
       (candidate_ids (rs_tables s) f) []"

definition redb_count :: "crates \<Rightarrow> postcard \<Rightarrow> redb_store \<Rightarrow> nostr_filter \<Rightarrow> redb_error + nat" where
  "redb_count X P s f =
     res_bind (read_loop X P (rs_tables s) f (f_limit f) (\<lambda>_ _ _. Inr ()) (candidate_ids (rs_tables s) f) [])
       (\<lambda>out. Inr (length out))"

definition redb_negentropy_items ::
  "crates \<Rightarrow> postcard \<Rightarrow> redb_store \<Rightarrow> nostr_filter \<Rightarrow> redb_error + (event_id \<times> timestamp) list" where
  "redb_negentropy_items X P s f =
     read_loop X P (rs_tables s) f (f_limit f) (\<lambda>_ view _. Inr (vw_id view, vw_created_at view))
       (candidate_ids (rs_tables s) f) []"

definition redb_database_query :: "crates \<Rightarrow> postcard \<Rightarrow> redb_store \<Rightarrow> nostr_filter \<Rightarrow> redb_error + events" where
  "redb_database_query X P s f = res_bind (redb_query X P s f) (\<lambda>es. Inr (events_from_unsorted es))"

text \<open>The ids are collected in a read transaction, without the limit, then removed in a write transaction.\<close>

definition redb_delete_matching ::
  "crates \<Rightarrow> postcard \<Rightarrow> bool \<Rightarrow> nostr_filter \<Rightarrow> redb_store \<Rightarrow> redb_store \<times> (redb_error + unit)" where
  "redb_delete_matching X P fault f s =
     (case read_loop X P (rs_tables s) f None (\<lambda>i _ _. Inr i) (candidate_ids (rs_tables s) f) [] of
        Inl err \<Rightarrow> (s, Inl err)
      | Inr to_remove \<Rightarrow>
          if to_remove = [] then (s, Inr ())
          else if fault then (s, Inl RedbEngine)
          else
            (case remove_all_inner P to_remove (rs_tables s) of
               Inl err \<Rightarrow> (s, Inl err)
             | Inr t \<Rightarrow> (s\<lparr>rs_tables := t\<rparr>, Inr ())))"

definition redb_wipe :: "bool \<Rightarrow> redb_store \<Rightarrow> redb_store \<times> (redb_error + unit)" where
  "redb_wipe fault s = (if fault then (s, Inl RedbEngine) else (s\<lparr>rs_tables := redb_empty\<rparr>, Inr ()))"

end
