(* ===== verification/Redb_Invariant.thy ===== *)
theory Redb_Invariant
  imports Redb_Store
begin

text \<open>
  The invariant of the redb tables and its preservation. \<open>tables_ok X P t L\<close> says that the seven tables
  represent exactly the set \<open>L\<close> of stored events: the payloads are their encodings, every secondary
  index holds the keys of just these events, in order, and a coordinate points to its event. Inserting
  and removing an event are set insertion and removal on \<open>L\<close>, as they are for the in-memory store.
\<close>

section \<open>The invariant\<close>

definition redb_env :: "crates \<Rightarrow> postcard \<Rightarrow> bool" where
  "redb_env X P \<longleftrightarrow> hex_laws X \<and> postcard_laws X P"

definition time_key :: "event \<Rightarrow> bytes" where
  "time_key e = key_created_at (ev_created_at e) (ev_id e)"

definition author_key :: "event \<Rightarrow> bytes" where
  "author_key e = key_author_ts (ev_pubkey e) (ev_created_at e) (ev_id e)"

definition kind_author_key :: "event \<Rightarrow> bytes" where
  "kind_author_key e = key_kind_author_ts (ev_kind e) (ev_pubkey e) (ev_created_at e) (ev_id e)"

definition coord_bytes :: "coord_key \<Rightarrow> bytes" where
  "coord_bytes c = key_coordinate (fst c) (fst (snd c)) (snd (snd c))"

definition coord_at :: "event \<Rightarrow> bytes \<Rightarrow> bool" where
  "coord_at e k \<longleftrightarrow> map_option coord_bytes (addressable_coord e) = Some k"

definition payload_of :: "postcard \<Rightarrow> event \<Rightarrow> bytes" where
  "payload_of P e = (case codec_encode P e of Inr b \<Rightarrow> b | Inl _ \<Rightarrow> [])"

definition payloads_ok :: "postcard \<Rightarrow> redb_tables \<Rightarrow> event set \<Rightarrow> bool" where
  "payloads_ok P t L \<longleftrightarrow> bt_invar (rt_events t) \<and> inj_on ev_id L \<and>
     (\<forall>i b. map_of (rt_events t) i = Some b \<longleftrightarrow> (\<exists>e \<in> L. ev_id e = i \<and> payload_of P e = b))"

definition index_ok :: "(event \<Rightarrow> bytes) \<Rightarrow> bytes btree_set \<Rightarrow> event set \<Rightarrow> bool" where
  "index_ok key tbl L \<longleftrightarrow> bs_invar tbl \<and> set tbl = key ` L"

definition coords_ok :: "redb_tables \<Rightarrow> event set \<Rightarrow> bool" where
  "coords_ok t L \<longleftrightarrow> bt_invar (rt_by_coordinate t) \<and>
     (\<forall>k i. map_of (rt_by_coordinate t) k = Some i \<longleftrightarrow>
        (\<exists>e \<in> L. coord_at e k \<and> ev_id e = i))"

definition tables_ok :: "crates \<Rightarrow> postcard \<Rightarrow> redb_tables \<Rightarrow> event set \<Rightarrow> bool" where
  [inv_simps]: "tables_ok X P t L \<longleftrightarrow> (\<forall>e \<in> L. stored_wf X e) \<and> payloads_ok P t L \<and>
     index_ok time_key (rt_by_created_at t) L \<and> index_ok author_key (rt_by_author_ts t) L \<and>
     index_ok kind_author_key (rt_by_kind_author_ts t) L \<and> coords_ok t L"

section \<open>Keys of stored events\<close>

lemma stored_lengths:
  "stored_wf X e \<Longrightarrow> length (ev_id e) = 32 \<and> length (ev_pubkey e) = 32"
  by (simp add: stored_wf_def event_wf_def event_id_wf_def public_key_wf_def EVENT_ID_SIZE_def PUBLIC_KEY_SIZE_def)

lemma inj_time_key: "inj_on ev_id L \<Longrightarrow> inj_on time_key L"
  by (auto simp: inj_on_def time_key_def key_created_at_def)

lemma author_key_id:
  "stored_wf X x \<Longrightarrow> stored_wf X y \<Longrightarrow> author_key x = author_key y \<Longrightarrow> ev_id x = ev_id y"
  using stored_lengths [of X x] stored_lengths [of X y] by (simp add: author_key_def key_author_ts_def)

lemma kind_author_key_id:
  "stored_wf X x \<Longrightarrow> stored_wf X y \<Longrightarrow> kind_author_key x = kind_author_key y \<Longrightarrow> ev_id x = ev_id y"
  using stored_lengths [of X x] stored_lengths [of X y] by (simp add: kind_author_key_def key_kind_author_ts_def)

lemma inj_author_key:
  "\<forall>e \<in> L. stored_wf X e \<Longrightarrow> inj_on ev_id L \<Longrightarrow> inj_on author_key L"
  using author_key_id unfolding inj_on_def by blast

lemma inj_kind_author_key:
  "\<forall>e \<in> L. stored_wf X e \<Longrightarrow> inj_on ev_id L \<Longrightarrow> inj_on kind_author_key L"
  using kind_author_key_id unfolding inj_on_def by blast

lemma addressable_identifier_coord:
  "addressable_identifier e = map_option (\<lambda>c. snd (snd c)) (addressable_coord e)"
  by (simp add: addressable_identifier_def addressable_coord_def)

lemma addressable_coord_fields:
  "addressable_coord e = Some c \<Longrightarrow> c = (ev_kind e, ev_pubkey e, snd (snd c))"
  by (auto simp: addressable_coord_def split: if_splits)

lemma identifier_key:
  "addressable_coord e = Some c \<Longrightarrow> key_coordinate (ev_kind e) (ev_pubkey e) (snd (snd c)) = coord_bytes c"
  using addressable_coord_fields [of e c] by (metis coord_bytes_def fst_conv snd_conv)

lemma coord_bytes_inject:
  "length (fst (snd c)) = length (fst (snd d)) \<Longrightarrow> coord_bytes c = coord_bytes d \<longleftrightarrow> c = d"
  by (auto simp: coord_bytes_def key_coordinate_inject prod_eq_iff)

lemma coord_of_stored:
  "stored_wf X e \<Longrightarrow> addressable_coord e = Some c \<Longrightarrow> length (fst (snd c)) = 32"
  using stored_lengths addressable_coord_fields by (metis fst_conv snd_conv)

lemma coord_bytes_coord:
  assumes "stored_wf X e" and "length (fst (snd c)) = 32"
  shows "coord_at e (coord_bytes c) \<longleftrightarrow> addressable_coord e = Some c"
  using assms coord_of_stored [OF assms(1)] coord_bytes_inject unfolding coord_at_def by (cases "addressable_coord e") auto

section \<open>Reading the tables\<close>

lemma payload:
  assumes "redb_env X P" and "stored_wf X e"
  shows "codec_encode P e = Inr (payload_of P e)" and "codec_decode P (payload_of P e) = Inr e"
    and "decode_created_at P (payload_of P e) = Inr (ev_created_at e)"
    and "decode_match_view X P (payload_of P e) = Inr (view_of e)"
proof -
  obtain b where "codec_encode P e = Inr b" "codec_decode P b = Inr e"
    "decode_created_at P b = Inr (ev_created_at e)" "decode_match_view X P b = Inr (view_of e)"
    using codec_stored assms unfolding redb_env_def by blast
  then show "codec_encode P e = Inr (payload_of P e)" and "codec_decode P (payload_of P e) = Inr e"
    and "decode_created_at P (payload_of P e) = Inr (ev_created_at e)"
    and "decode_match_view X P (payload_of P e) = Inr (view_of e)"
    by (simp_all add: payload_of_def)
qed

lemma tables_ok_wf: "tables_ok X P t L \<Longrightarrow> e \<in> L \<Longrightarrow> stored_wf X e"
  by (simp add: tables_ok_def)

lemma tables_ok_inj: "tables_ok X P t L \<Longrightarrow> inj_on ev_id L"
  by (simp add: tables_ok_def payloads_ok_def)

lemma events_lookup:
  assumes "tables_ok X P t L" and "e \<in> L"
  shows "map_of (rt_events t) (ev_id e) = Some (payload_of P e)"
  using assms unfolding tables_ok_def payloads_ok_def by blast

lemma events_None: "tables_ok X P t L \<Longrightarrow> map_of (rt_events t) i = None \<longleftrightarrow> (\<forall>e \<in> L. ev_id e \<noteq> i)"
  unfolding tables_ok_def payloads_ok_def by (cases "map_of (rt_events t) i"; simp; metis option.distinct(1))

lemma events_Some:
  assumes "tables_ok X P t L" and "map_of (rt_events t) i = Some b"
  obtains e where "e \<in> L" and "ev_id e = i" and "b = payload_of P e"
  using assms by (auto simp: tables_ok_def payloads_ok_def)

lemma tables_ok_finite: "tables_ok X P t L \<Longrightarrow> finite L"
  unfolding tables_ok_def index_ok_def
  by (metis List.finite_set finite_imageD inj_time_key payloads_ok_def)

lemma coords_lookup:
  assumes "tables_ok X P t L" and "length (fst (snd c)) = 32"
  shows "map_of (rt_by_coordinate t) (coord_bytes c) = Some i \<longleftrightarrow>
    (\<exists>e \<in> L. addressable_coord e = Some c \<and> ev_id e = i)"
proof -
  have "map_of (rt_by_coordinate t) (coord_bytes c) = Some i \<longleftrightarrow>
      (\<exists>e \<in> L. coord_at e (coord_bytes c) \<and> ev_id e = i)"
    using assms(1) by (simp add: tables_ok_def coords_ok_def)
  then show ?thesis using coord_bytes_coord [OF tables_ok_wf [OF assms(1)] assms(2)] by blast
qed

text \<open>The coordinate index holds at most one event per coordinate.\<close>

lemma coords_unique:
  assumes "tables_ok X P t L" and "x \<in> L" and "y \<in> L" and "addressable_coord x = Some c" and "addressable_coord y = Some c"
  shows "x = y"
proof -
  have "length (fst (snd c)) = 32" using coord_of_stored tables_ok_wf assms(1,2,4) by blast
  then have "map_of (rt_by_coordinate t) (coord_bytes c) = Some (ev_id x)"
    "map_of (rt_by_coordinate t) (coord_bytes c) = Some (ev_id y)"
    using coords_lookup [OF assms(1)] assms by blast+
  then show ?thesis using tables_ok_inj [OF assms(1)] assms(2,3) by (simp add: inj_on_def)
qed

lemma tables_ok_empty: "tables_ok X P redb_empty {}"
  by (simp add: tables_ok_def payloads_ok_def index_ok_def coords_ok_def redb_empty_def bt.invar_empty)

text \<open>The tombstones are not read by the invariant.\<close>

lemma tables_ok_fields [simp]:
  "tables_ok X P (t\<lparr>rt_deleted_ids := d\<rparr>) L = tables_ok X P t L"
  "tables_ok X P (t\<lparr>rt_deleted_coordinates := dc\<rparr>) L = tables_ok X P t L"
  by (simp_all add: tables_ok_def payloads_ok_def coords_ok_def)

section \<open>Removal\<close>

lemma index_remove:
  assumes "index_ok key tbl L" and "inj_on key L" and "e \<in> L"
  shows "index_ok key (bs_remove (key e) tbl) (L - {e})"
  using assms by (auto simp: index_ok_def dest: inj_onD)

lemma payloads_remove:
  assumes "payloads_ok P t L" and "e \<in> L" and "rt_events t' = bt_remove (ev_id e) (rt_events t)"
  shows "payloads_ok P t' (L - {e})"
  using assms unfolding payloads_ok_def assms(3)
  by (auto simp: bt.invar_del bt.lookup_del inj_on_def split: if_splits)

lemma coords_remove:
  assumes ok: "tables_ok X P t L" and "e \<in> L"
    and "rt_by_coordinate t' = (case addressable_coord e of
      None \<Rightarrow> rt_by_coordinate t | Some c \<Rightarrow> bt_remove (coord_bytes c) (rt_by_coordinate t))"
  shows "coords_ok t' (L - {e})"
proof (cases "addressable_coord e")
  case None
  then have "coord_at x k \<Longrightarrow> x \<noteq> e" for x k by (auto simp: coord_at_def)
  then have "(\<exists>x \<in> L - {e}. coord_at x k \<and> ev_id x = i) \<longleftrightarrow>
      (\<exists>x \<in> L. coord_at x k \<and> ev_id x = i)" for k i by blast
  with assms None show ?thesis by (simp add: tables_ok_def coords_ok_def)
next
  case (Some c)
  have inv: "bt_invar (rt_by_coordinate t)" using ok by (simp add: tables_ok_def coords_ok_def)
  have look: "map_of (rt_by_coordinate t) k = Some i \<longleftrightarrow>
      (\<exists>x \<in> L. coord_at x k \<and> ev_id x = i)" for k i
    using ok by (simp add: tables_ok_def coords_ok_def)
  have only: "x \<in> L \<Longrightarrow> coord_at x (coord_bytes c) \<Longrightarrow> x = e" for x
    using coords_unique [OF ok _ assms(2) _ Some] coord_of_stored [OF tables_ok_wf [OF ok assms(2)] Some]
      coord_bytes_coord tables_ok_wf [OF ok] by blast
  have "map_of (rt_by_coordinate t') k = Some i \<longleftrightarrow>
      (\<exists>x \<in> L - {e}. coord_at x k \<and> ev_id x = i)" for k i
  proof (cases "k = coord_bytes c")
    case True
    then show ?thesis using only assms(3) Some by (auto simp: bt.lookup_del [OF inv])
  next
    case False
    then have "coord_at x k \<Longrightarrow> x \<noteq> e" for x using Some by (auto simp: coord_at_def)
    then show ?thesis using look [of k i] assms(3) Some False by (auto simp: bt.lookup_del [OF inv])
  qed
  with inv assms(3) Some show ?thesis by (simp add: coords_ok_def bt.invar_del)
qed

lemma remove_stored:
  assumes env: "redb_env X P" and ok: "tables_ok X P t L" and e: "e \<in> L"
  obtains t' where "remove_event_inner P (ev_id e) t = Inr t'" and "tables_ok X P t' (L - {e})"
    and "rt_deleted_ids t' = rt_deleted_ids t" and "rt_deleted_coordinates t' = rt_deleted_coordinates t"
proof -
  define t1 where "t1 = t\<lparr>rt_events := bt_remove (ev_id e) (rt_events t),
    rt_by_created_at := bs_remove (time_key e) (rt_by_created_at t),
    rt_by_author_ts := bs_remove (author_key e) (rt_by_author_ts t),
    rt_by_kind_author_ts := bs_remove (kind_author_key e) (rt_by_kind_author_ts t)\<rparr>"
  define t2 where "t2 = t1\<lparr>rt_by_coordinate := (case addressable_coord e of
      None \<Rightarrow> rt_by_coordinate t | Some c \<Rightarrow> bt_remove (coord_bytes c) (rt_by_coordinate t))\<rparr>"
  have wf: "stored_wf X e" using tables_ok_wf [OF ok e] .
  have here: "map_of (rt_by_coordinate t) (coord_bytes c) = Some (ev_id e)" if "addressable_coord e = Some c" for c
    using coords_lookup [OF ok coord_of_stored [OF wf that]] e that by blast
  have step: "remove_event_inner P (ev_id e) t = Inr t2"
    using here by (cases "addressable_coord e")
      (simp_all add: remove_event_inner_def events_lookup [OF ok e] payload [OF env wf] t2_def t1_def Let_def
        time_key_def author_key_def kind_author_key_def addressable_identifier_coord identifier_key)
  note inj = tables_ok_inj [OF ok]
  have all: "\<forall>x \<in> L. stored_wf X x" using tables_ok_wf [OF ok] by blast
  have "tables_ok X P t2 (L - {e})"
    using ok e all inj inj_time_key [OF inj] inj_author_key [OF all inj] inj_kind_author_key [OF all inj]
      payloads_remove [of P t L e t2] coords_remove [OF ok e, of t2]
    by (simp add: tables_ok_def index_remove t2_def t1_def)
  with step that [of t2] show thesis by (simp add: t2_def t1_def)
qed

lemma minus_by_id: "inj_on ev_id L \<Longrightarrow> e \<in> L \<Longrightarrow> L - {e} = {x \<in> L. ev_id x \<noteq> ev_id e}"
  by (auto dest: inj_onD)

lemma remove_any:
  assumes env: "redb_env X P" and ok: "tables_ok X P t L"
  obtains t' where "remove_event_inner P i t = Inr t'" and "tables_ok X P t' {e \<in> L. ev_id e \<noteq> i}"
    and "rt_deleted_ids t' = rt_deleted_ids t" and "rt_deleted_coordinates t' = rt_deleted_coordinates t"
proof (cases "map_of (rt_events t) i")
  case None
  then have "{e \<in> L. ev_id e \<noteq> i} = L" using events_None [OF ok, of i] by auto
  with None ok that show thesis by (simp add: remove_event_inner_def)
next
  case (Some b)
  then obtain e where e: "e \<in> L" "ev_id e = i" by (rule events_Some [OF ok])
  from remove_stored [OF env ok e(1)] minus_by_id [OF tables_ok_inj [OF ok] e(1)] e(2) that show thesis by metis
qed

lemma remove_all_any:
  assumes env: "redb_env X P" and "tables_ok X P t L"
  shows "\<exists>t'. remove_all_inner P is t = Inr t' \<and> tables_ok X P t' {e \<in> L. ev_id e \<notin> set is} \<and>
    rt_deleted_ids t' = rt_deleted_ids t \<and> rt_deleted_coordinates t' = rt_deleted_coordinates t"
  using assms(2)
proof (induction "is" arbitrary: t L)
  case (Cons i "is")
  obtain t1 where t1: "remove_event_inner P i t = Inr t1" "tables_ok X P t1 {e \<in> L. ev_id e \<noteq> i}"
    "rt_deleted_ids t1 = rt_deleted_ids t" "rt_deleted_coordinates t1 = rt_deleted_coordinates t"
    by (rule remove_any [OF env Cons.prems])
  have "{e \<in> {e \<in> L. ev_id e \<noteq> i}. ev_id e \<notin> set is} = {e \<in> L. ev_id e \<notin> set (i # is)}" by auto
  with Cons.IH [OF t1(2)] t1 show ?case by simp
qed simp

section \<open>Insertion\<close>

lemma index_insert: "index_ok key tbl L \<Longrightarrow> index_ok key (bs_insert (key e) tbl) (insert e L)"
  by (simp add: index_ok_def)

lemma payloads_insert:
  assumes "payloads_ok P t L" and "\<And>x. x \<in> L \<Longrightarrow> ev_id x \<noteq> ev_id e"
    and "rt_events t' = bt_insert (ev_id e) (payload_of P e) (rt_events t)"
  shows "payloads_ok P t' (insert e L)"
proof -
  have inv: "bt_invar (rt_events t)" and inj: "inj_on ev_id L"
    and look: "map_of (rt_events t) i = Some b \<longleftrightarrow> (\<exists>x \<in> L. ev_id x = i \<and> payload_of P x = b)" for i b
    using assms(1) unfolding payloads_ok_def by blast+
  have "map_of (rt_events t') i = Some b \<longleftrightarrow> (\<exists>x \<in> insert e L. ev_id x = i \<and> payload_of P x = b)" for i b
    using look [of i b] assms(2) by (cases "i = ev_id e") (auto simp: assms(3) bt.lookup_ins [OF inv])
  moreover have "inj_on ev_id (insert e L)" using inj assms(2) by (force simp: inj_on_def)
  ultimately show ?thesis using inv by (simp add: payloads_ok_def assms(3) bt.invar_ins)
qed

lemma coords_insert:
  assumes ok: "tables_ok X P t L" and wf: "stored_wf X e"
    and free: "\<And>x. x \<in> L \<Longrightarrow> addressable_coord e \<noteq> None \<Longrightarrow> addressable_coord x \<noteq> addressable_coord e"
    and t': "rt_by_coordinate t' = (case addressable_coord e of
      None \<Rightarrow> rt_by_coordinate t | Some c \<Rightarrow> bt_insert (coord_bytes c) (ev_id e) (rt_by_coordinate t))"
  shows "coords_ok t' (insert e L)"
proof (cases "addressable_coord e")
  case None
  with ok t' show ?thesis by (simp add: tables_ok_def coords_ok_def coord_at_def)
next
  case (Some c)
  have inv: "bt_invar (rt_by_coordinate t)" using ok by (simp add: tables_ok_def coords_ok_def)
  have look: "map_of (rt_by_coordinate t) k = Some i \<longleftrightarrow>
      (\<exists>x \<in> L. coord_at x k \<and> ev_id x = i)" for k i
    using ok by (simp add: tables_ok_def coords_ok_def)
  have other: "x \<in> L \<Longrightarrow> \<not> coord_at x (coord_bytes c)" for x
    using free [of x] Some coord_bytes_coord [OF tables_ok_wf [OF ok] coord_of_stored [OF wf Some]] by auto
  have "map_of (rt_by_coordinate t') k = Some i \<longleftrightarrow>
      (\<exists>x \<in> insert e L. coord_at x k \<and> ev_id x = i)" for k i
  proof (cases "k = coord_bytes c")
    case True
    then have "coord_at e k" using Some by (simp add: coord_at_def)
    then show ?thesis using other Some t' True by (auto simp: bt.lookup_ins [OF inv])
  next
    case False
    then have "\<not> coord_at e k" using Some by (auto simp: coord_at_def)
    then show ?thesis using look [of k i] Some t' False by (simp add: bt.lookup_ins [OF inv])
  qed
  with inv t' Some show ?thesis by (simp add: coords_ok_def bt.invar_ins)
qed

lemma insert_stored:
  assumes env: "redb_env X P" and ok: "tables_ok X P t L" and wf: "stored_wf X e"
    and fresh: "\<And>x. x \<in> L \<Longrightarrow> ev_id x \<noteq> ev_id e"
    and free: "\<And>x. x \<in> L \<Longrightarrow> addressable_coord e \<noteq> None \<Longrightarrow> addressable_coord x \<noteq> addressable_coord e"
  obtains t' where "insert_event_inner P e t = Inr t'" and "tables_ok X P t' (insert e L)"
    and "rt_deleted_ids t' = rt_deleted_ids t" and "rt_deleted_coordinates t' = rt_deleted_coordinates t"
proof -
  define t' where "t' = t\<lparr>rt_events := bt_insert (ev_id e) (payload_of P e) (rt_events t),
    rt_by_created_at := bs_insert (time_key e) (rt_by_created_at t),
    rt_by_author_ts := bs_insert (author_key e) (rt_by_author_ts t),
    rt_by_kind_author_ts := bs_insert (kind_author_key e) (rt_by_kind_author_ts t),
    rt_by_coordinate := (case addressable_coord e of
      None \<Rightarrow> rt_by_coordinate t | Some c \<Rightarrow> bt_insert (coord_bytes c) (ev_id e) (rt_by_coordinate t))\<rparr>"
  have "insert_event_inner P e t = Inr t'"
    by (cases "addressable_coord e")
      (simp_all add: insert_event_inner_def payload [OF env wf] t'_def Let_def
        time_key_def author_key_def kind_author_key_def addressable_identifier_coord identifier_key)
  moreover have "tables_ok X P t' (insert e L)"
    using ok wf payloads_insert [of P t L e t', OF _ fresh] coords_insert [OF ok wf free, of t']
    by (simp add: tables_ok_def index_insert t'_def)
  ultimately show thesis using that [of t'] by (simp add: t'_def)
qed

end
