(* ===== verification/Redb_Refinement.thy ===== *)
theory Redb_Refinement
  imports Redb_Invariant
begin

text \<open>
  The redb backend refines the same abstract store as the in-memory one: deletion requests, conflicts and
  \<open>save_event\<close> as a whole act on the abstraction of the tables as the specification says, with no
  capacity and no vanished authors, which this backend does not have.
\<close>

section \<open>The abstraction\<close>

definition redb_live :: "postcard \<Rightarrow> redb_tables \<Rightarrow> event set" where
  "redb_live P t = {e. \<exists>i b. map_of (rt_events t) i = Some b \<and> codec_decode P b = Inr e}"

text \<open>Authors are 32 bytes, so only such coordinates can be dead.\<close>

definition redb_stamps :: "redb_tables \<Rightarrow> coord_key \<Rightarrow> timestamp option" where
  "redb_stamps t c =
     (if length (fst (snd c)) = 32 then map_of (rt_deleted_coordinates t) (coord_bytes c) else None)"

definition redb_abs :: "postcard \<Rightarrow> redb_tables \<Rightarrow> store_spec" where
  "redb_abs P t = \<lparr>sp_live = redb_live P t, sp_dead_ids = dom (map_of (rt_deleted_ids t)),
     sp_dead_coords = redb_stamps t, sp_vanished = {}\<rparr>"

definition redb_rel :: "crates \<Rightarrow> postcard \<Rightarrow> redb_tables \<Rightarrow> store_spec \<Rightarrow> bool" where
  [inv_simps]: "redb_rel X P t A \<longleftrightarrow> tables_ok X P t (sp_live A) \<and> bt_invar (rt_deleted_ids t) \<and>
     bt_invar (rt_deleted_coordinates t) \<and> A = redb_abs P t"

lemma redb_live_eq:
  assumes env: "redb_env X P" and ok: "tables_ok X P t L"
  shows "redb_live P t = L"
proof (intro equalityI subsetI)
  fix e
  assume "e \<in> redb_live P t"
  then obtain i b where b: "map_of (rt_events t) i = Some b" "codec_decode P b = Inr e" by (auto simp: redb_live_def)
  then obtain x where x: "x \<in> L" "b = payload_of P x" by (blast elim: events_Some [OF ok])
  with b(2) payload(2) [OF env tables_ok_wf [OF ok x(1)]] show "e \<in> L" by simp
next
  fix e
  assume "e \<in> L"
  then show "e \<in> redb_live P t"
    using events_lookup [OF ok] payload(2) [OF env tables_ok_wf [OF ok]] unfolding redb_live_def by blast
qed

lemma redb_relI:
  assumes "redb_env X P" and "tables_ok X P t L" and "bt_invar (rt_deleted_ids t)" and "bt_invar (rt_deleted_coordinates t)"
    and "sp_live A = L" and "sp_dead_ids A = dom (map_of (rt_deleted_ids t))" and "sp_dead_coords A = redb_stamps t"
    and "sp_vanished A = {}"
  shows "redb_rel X P t A"
  using assms redb_live_eq [OF assms(1,2)] by (simp add: redb_rel_def redb_abs_def)

lemma redb_relD:
  assumes "redb_rel X P t A"
  shows "tables_ok X P t (sp_live A)" "bt_invar (rt_deleted_ids t)" "bt_invar (rt_deleted_coordinates t)"
    "sp_live A = redb_live P t" "sp_dead_ids A = dom (map_of (rt_deleted_ids t))" "sp_dead_coords A = redb_stamps t"
    "sp_vanished A = {}"
proof -
  have "A = redb_abs P t" using assms by (simp add: redb_rel_def)
  then show "sp_live A = redb_live P t" "sp_dead_ids A = dom (map_of (rt_deleted_ids t))"
    "sp_dead_coords A = redb_stamps t" "sp_vanished A = {}"
    by (simp_all add: redb_abs_def)
qed (use assms in \<open>unfold redb_rel_def, blast+\<close>)

section \<open>Deletion\<close>

lemma collect_targets_spec:
  assumes env: "redb_env X P" and ok: "tables_ok X P t L"
    and own: "\<And>i. own i \<longleftrightarrow> (\<exists>x \<in> L. ev_id x = i \<and> ev_pubkey x = ev_pubkey e)"
    and free: "\<And>i. free i \<longleftrightarrow> (\<forall>x \<in> L. ev_id x = i \<longrightarrow> ev_pubkey x = ev_pubkey e)"
  shows "\<exists>r d. collect_targets P e t is r0 d0 = Inr (r, d) \<and> set r = set r0 \<union> {i \<in> set is. own i} \<and>
    set d = set d0 \<union> {i \<in> set is. free i}"
proof (induction "is" arbitrary: r0 d0)
  case (Cons i "is")
  show ?case
  proof (cases "map_of (rt_events t) i")
    case None
    then have "\<forall>x \<in> L. ev_id x \<noteq> i" using events_None [OF ok] by blast
    then have "\<not> own i" "free i" unfolding own free by blast+
    with None Cons.IH [of r0 "push_new d0 i"] show ?thesis by (auto simp: set_push_new)
  next
    case (Some b)
    then obtain x where x: "x \<in> L" "ev_id x = i" "b = payload_of P x" by (rule events_Some [OF ok])
    have only: "y = x" if "y \<in> L" "ev_id y = i" for y
      using that x tables_ok_inj [OF ok] by (auto dest: inj_onD)
    have dec: "codec_decode P b = Inr x" using payload(2) [OF env tables_ok_wf [OF ok x(1)]] x(3) by simp
    have "own i \<longleftrightarrow> ev_pubkey x = ev_pubkey e" unfolding own using only x(1,2) by metis
    moreover have "free i \<longleftrightarrow> ev_pubkey x = ev_pubkey e" unfolding free using only x(1,2) by metis
    ultimately show ?thesis
      using Some dec Cons.IH [of "push_new r0 i" "push_new d0 i"] Cons.IH [of r0 d0]
      by (cases "own i") (auto simp: set_push_new)
  qed
qed simp

lemma tombstone_fold:
  "bt_invar m \<Longrightarrow> bt_invar (fold (\<lambda>i. bt_insert i at) is m) \<and>
     dom (map_of (fold (\<lambda>i. bt_insert i at) is m)) = dom (map_of m) \<union> set is"
proof (induction "is" arbitrary: m)
  case (Cons i "is")
  have "dom (map_of (bt_insert i at m)) = insert i (dom (map_of m))" using Cons.prems by (auto simp: bt.lookup_ins)
  with Cons.IH [OF bt.invar_ins [OF Cons.prems]] show ?case by simp
qed simp

lemma redb_stamps_cong:
  "rt_deleted_coordinates t = rt_deleted_coordinates t' \<Longrightarrow> redb_stamps t = redb_stamps t'"
  by (simp add: redb_stamps_def fun_eq_iff)

lemma redb_delete_ids_refines:
  assumes env: "redb_env X P" and r: "redb_rel X P t A"
  shows "\<exists>p t1. collect_targets P e t is [] [] = Inr p \<and> remove_all_inner P (fst p) t = Inr t1 \<and>
    redb_rel X P (tombstone_ids at (snd p) t1) (spec_delete_ids e is A)"
proof -
  note d = redb_relD [OF r]
  let ?L = "sp_live A"
  obtain rm ts where p: "collect_targets P e t is [] [] = Inr (rm, ts)"
    and rm: "set rm = {i \<in> set is. \<exists>x \<in> ?L. ev_id x = i \<and> ev_pubkey x = ev_pubkey e}"
    and ts: "set ts = {i \<in> set is. \<forall>x \<in> ?L. ev_id x = i \<longrightarrow> ev_pubkey x = ev_pubkey e}"
    using collect_targets_spec [OF env d(1) refl refl, of e "is" "[]" "[]"] by auto
  obtain t1 where t1: "remove_all_inner P rm t = Inr t1" "tables_ok X P t1 {x \<in> ?L. ev_id x \<notin> set rm}"
    "rt_deleted_ids t1 = rt_deleted_ids t" "rt_deleted_coordinates t1 = rt_deleted_coordinates t"
    using remove_all_any [OF env d(1), of rm] by blast
  have "x \<in> ?L \<Longrightarrow> ev_id x \<in> set rm \<longleftrightarrow> ev_id x \<in> set is \<and> ev_pubkey x = ev_pubkey e" for x
    using tables_ok_inj [OF d(1)] unfolding rm by (auto dest: inj_onD)
  then have L: "{x \<in> ?L. ev_id x \<notin> set rm} = {x \<in> ?L. \<not> (ev_id x \<in> set is \<and> ev_pubkey x = ev_pubkey e)}" by blast
  have "redb_rel X P (tombstone_ids at ts t1) (spec_delete_ids e is A)"
    using d t1 L tombstone_fold [OF d(2), of at ts] ts env redb_stamps_cong [of "tombstone_ids at ts t1" t]
    by (intro redb_relI [where L = "{x \<in> ?L. ev_id x \<notin> set rm}"])
      (simp_all add: tombstone_ids_def spec_delete_ids_def)
  with p t1(1) show ?thesis by auto
qed

lemma redb_stamps_insert:
  assumes "bt_invar (rt_deleted_coordinates t)" and "length (fst (snd c)) = 32"
    and "rt_deleted_coordinates t1 = bt_insert (coord_bytes c) v (rt_deleted_coordinates t)"
  shows "redb_stamps t1 = (redb_stamps t)(c \<mapsto> v)"
proof
  fix d
  show "redb_stamps t1 d = ((redb_stamps t)(c \<mapsto> v)) d"
    using coord_bytes_inject [of d c] assms by (auto simp: redb_stamps_def bt.lookup_ins)
qed

lemma incumbent_cases:
  assumes env: "redb_env X P" and ok: "tables_ok X P t L" and len: "length (fst (snd c)) = 32"
  obtains (none) "map_of (rt_by_coordinate t) (coord_bytes c) = None" "\<And>x. x \<in> L \<Longrightarrow> addressable_coord x \<noteq> Some c"
  | (one) w where "w \<in> L" "addressable_coord w = Some c" "\<And>x. x \<in> L \<Longrightarrow> addressable_coord x = Some c \<Longrightarrow> x = w"
    "map_of (rt_by_coordinate t) (coord_bytes c) = Some (ev_id w)" "length (ev_id w) = ID_LEN"
    "map_of (rt_events t) (ev_id w) = Some (payload_of P w)"
    "decode_created_at P (payload_of P w) = Inr (ev_created_at w)"
proof (cases "map_of (rt_by_coordinate t) (coord_bytes c)")
  case None
  then show thesis using coords_lookup [OF ok len] none by auto
next
  case (Some i)
  then obtain w where w: "w \<in> L" "addressable_coord w = Some c" "ev_id w = i"
    using coords_lookup [OF ok len] by auto
  note wf = tables_ok_wf [OF ok w(1)]
  show thesis
  proof (rule one [of w])
    show "x \<in> L \<Longrightarrow> addressable_coord x = Some c \<Longrightarrow> x = w" for x
      using coords_unique [OF ok _ w(1) _ w(2)] by blast
    show "length (ev_id w) = ID_LEN" using stored_lengths [OF wf] by (simp add: ID_LEN_def)
  qed (use Some w events_lookup [OF ok w(1)] payload(3) [OF env wf] in simp_all)
qed

lemma redb_delete_coordinate_refines:
  assumes env: "redb_env X P" and r: "redb_rel X P t A" and wf: "stored_wf X e"
  shows "\<exists>t'. redb_delete_coordinate P e c t = Inr t' \<and> redb_rel X P t' (spec_delete_coords e [c] A)"
proof (cases "c_author c = ev_pubkey e")
  case False
  then show ?thesis using r by (simp add: redb_delete_coordinate_def spec_delete_coords_def)
next
  case own: True
  note d = redb_relD [OF r]
  let ?k = "coord_key_of c" and ?L = "sp_live A"
  define L' where "L' = {x \<in> ?L. \<not> (addressable_coord x = Some ?k \<and> ev_created_at x \<le> ev_created_at e)}"
  have key: "key_coordinate (c_kind c) (ev_pubkey e) (c_identifier c) = coord_bytes ?k"
    using own by (simp add: coord_bytes_def coord_key_of_def)
  have len: "length (fst (snd ?k)) = 32" using stored_lengths [OF wf] own by (simp add: coord_key_of_def)
  define stamp where "stamp = (case map_of (rt_deleted_coordinates t) (coord_bytes ?k) of
    None \<Rightarrow> True | Some p \<Rightarrow> p < ev_created_at e)"
  obtain t1 where t1: "tables_ok X P t1 L'" "rt_deleted_ids t1 = rt_deleted_ids t"
      "rt_deleted_coordinates t1 = rt_deleted_coordinates t"
    and step: "redb_delete_coordinate P e c t = Inr (if stamp then t1\<lparr>rt_deleted_coordinates :=
        bt_insert (coord_bytes ?k) (ev_created_at e) (rt_deleted_coordinates t)\<rparr> else t1)"
  proof (cases rule: incumbent_cases [OF env d(1) len])
    case 1
    then have "L' = ?L" by (auto simp: L'_def)
    with 1 d(1) own that [of t] show thesis by (simp add: redb_delete_coordinate_def Let_def key stamp_def)
  next
    case (2 w)
    show thesis
    proof (cases "ev_created_at w \<le> ev_created_at e")
      case True
      then have "L' = ?L - {w}" using 2(1-3) unfolding L'_def by blast
      moreover obtain t1 where "remove_event_inner P (ev_id w) t = Inr t1" "tables_ok X P t1 (?L - {w})"
          "rt_deleted_ids t1 = rt_deleted_ids t" "rt_deleted_coordinates t1 = rt_deleted_coordinates t"
        by (rule remove_stored [OF env d(1) 2(1)])
      ultimately show thesis using 2(4-7) True own that [of t1]
        by (simp add: redb_delete_coordinate_def Let_def key stamp_def)
    next
      case False
      then have "L' = ?L" using 2(3) unfolding L'_def by blast
      with 2(4-7) False d(1) own that [of t] show thesis
        by (simp add: redb_delete_coordinate_def Let_def key stamp_def)
    qed
  qed
  define A' where "A' = spec_delete_coords e [c] A"
  have live: "sp_live A' = L'" and ids: "sp_dead_ids A' = sp_dead_ids A" and van: "sp_vanished A' = {}"
    using own d(7) by (simp_all add: A'_def spec_delete_coords_def L'_def)
  have stamps: "sp_dead_coords A' = (redb_stamps t)(?k \<mapsto> case redb_stamps t ?k of
      None \<Rightarrow> ev_created_at e | Some p \<Rightarrow> max p (ev_created_at e))"
    unfolding A'_def spec_delete_coords_def d(6) using own by (simp add: fun_upd_def, intro ext, simp)
  have at: "redb_stamps t ?k = map_of (rt_deleted_coordinates t) (coord_bytes ?k)" using len by (simp add: redb_stamps_def)
  show ?thesis
  proof (cases stamp)
    case True
    have st: "redb_stamps (t1\<lparr>rt_deleted_coordinates :=
        bt_insert (coord_bytes ?k) (ev_created_at e) (rt_deleted_coordinates t)\<rparr>) = (redb_stamps t)(?k \<mapsto> ev_created_at e)"
      by (rule redb_stamps_insert [OF d(3) len]) simp
    have "(case redb_stamps t ?k of None \<Rightarrow> ev_created_at e | Some p \<Rightarrow> max p (ev_created_at e)) = ev_created_at e"
      using True unfolding stamp_def at by (auto simp: max_def split: option.splits)
    then show ?thesis using True step t1 d live ids van stamps st env
      by (auto simp: A'_def [symmetric] bt.invar_ins intro!: redb_relI [where L = L'])
  next
    case False
    then obtain p where p: "redb_stamps t ?k = Some p" "ev_created_at e \<le> p"
      unfolding stamp_def at by (auto split: option.splits)
    have "redb_stamps t1 = redb_stamps t" using t1(3) by (rule redb_stamps_cong)
    moreover have "(redb_stamps t)(?k \<mapsto> max p (ev_created_at e)) = redb_stamps t"
      using p by (auto simp: max_def fun_eq_iff)
    ultimately show ?thesis using False step t1 d live ids van stamps p env
      by (auto simp: A'_def [symmetric] intro!: redb_relI [where L = L'])
  qed
qed

lemma redb_delete_coordinates_refines:
  assumes env: "redb_env X P" and "redb_rel X P t A" and wf: "stored_wf X e"
  shows "\<exists>t'. redb_delete_coordinates P e cs t = Inr t' \<and> redb_rel X P t' (spec_delete_coords e cs A)"
  using assms(2)
proof (induction cs arbitrary: t A)
  case Nil
  then show ?case by (simp add: spec_delete_coords_def)
next
  case (Cons c cs)
  then show ?case
    using redb_delete_coordinate_refines [OF env Cons.prems wf, of c] spec_delete_coords_Cons [of e c cs A] by auto
qed

lemma redb_deletion_refines:
  assumes env: "redb_env X P" and r: "redb_rel X P t A" and wf: "stored_wf X e"
  shows "\<exists>t'. redb_apply_deletion X P e t = Inr t' \<and> redb_rel X P t' (spec_deletion X e A)"
proof (cases "deletion_from_event X e")
  case (Inl a)
  then show ?thesis using r by (simp add: redb_apply_deletion_def spec_deletion_def)
next
  case (Inr q)
  obtain p t1 where "collect_targets P e t (dr_event_ids q) [] [] = Inr p" "remove_all_inner P (fst p) t = Inr t1"
    "redb_rel X P (tombstone_ids (ev_created_at e) (snd p) t1) (spec_delete_ids e (dr_event_ids q) A)"
    using redb_delete_ids_refines [OF env r] by blast
  with Inr redb_delete_coordinates_refines [OF env _ wf] show ?thesis
    by (simp add: redb_apply_deletion_def spec_deletion_def)
qed

section \<open>Range scans\<close>

lemma table_range_prefix:
  assumes "\<And>k. k \<in> set tbl \<Longrightarrow> length p \<le> length k"
  shows "table_range p (upper_bound p) tbl = filter (\<lambda>k. take (length p) k = p) tbl"
  unfolding table_range_def using range_prefix assms by (intro filter_cong) auto

lemma kind_author_key_prefix:
  assumes "stored_wf X x" and "length a = 32"
  shows "length (kind_author_key x) = 74"
    and "take (length (kind_author_prefix k a)) (kind_author_key x) = kind_author_prefix k a \<longleftrightarrow>
      ev_kind x = k \<and> ev_pubkey x = a"
    and "drop 34 (kind_author_key x) = time_key x"
  using stored_lengths [OF assms(1)] assms(2)
  by (simp_all add: kind_author_key_def key_kind_author_ts_def kind_author_prefix_def time_key_def key_created_at_def)

lemma author_key_prefix:
  assumes "stored_wf X x" and "length a = 32"
  shows "length (author_key x) = 72"
    and "take (length (author_prefix a)) (author_key x) = author_prefix a \<longleftrightarrow> ev_pubkey x = a"
    and "drop 32 (author_key x) = time_key x"
  using stored_lengths [OF assms(1)] assms(2)
  by (simp_all add: author_key_def key_author_ts_def author_prefix_def time_key_def key_created_at_def)

text \<open>The keys of one kind and author are found by the scan of their prefix.\<close>

lemma scan_kind_author_keys:
  fixes k :: kind
  assumes ok: "tables_ok X P t L" and len: "length a = 32"
  defines "p \<equiv> kind_author_prefix k a"
  shows "sorted_wrt (<) (table_range p (upper_bound p) (rt_by_kind_author_ts t))"
    and "set (table_range p (upper_bound p) (rt_by_kind_author_ts t)) =
      kind_author_key ` {x \<in> L. ev_kind x = k \<and> ev_pubkey x = a}"
proof -
  have tbl: "bs_invar (rt_by_kind_author_ts t)" "set (rt_by_kind_author_ts t) = kind_author_key ` L"
    using ok by (simp_all add: tables_ok_def index_ok_def)
  have pre: "length (kind_author_key x) = 74"
    "take (length p) (kind_author_key x) = p \<longleftrightarrow> ev_kind x = k \<and> ev_pubkey x = a" if "x \<in> L" for x
    using kind_author_key_prefix [OF tables_ok_wf [OF ok that] len] unfolding p_def by blast+
  have "length p = 34" using len by (simp add: p_def kind_author_prefix_def)
  then have "y \<in> set (rt_by_kind_author_ts t) \<Longrightarrow> length p \<le> length y" for y using tbl(2) pre(1) by auto
  then have eq: "table_range p (upper_bound p) (rt_by_kind_author_ts t) =
      filter (\<lambda>y. take (length p) y = p) (rt_by_kind_author_ts t)"
    by (rule table_range_prefix)
  show "sorted_wrt (<) (table_range p (upper_bound p) (rt_by_kind_author_ts t))"
    unfolding eq using tbl(1) by (rule sorted_wrt_filter)
  show "set (table_range p (upper_bound p) (rt_by_kind_author_ts t)) =
      kind_author_key ` {x \<in> L. ev_kind x = k \<and> ev_pubkey x = a}"
    unfolding eq set_filter tbl(2) using pre(2) by auto
qed

lemma scan_author_keys:
  assumes ok: "tables_ok X P t L" and len: "length a = 32"
  defines "p \<equiv> author_prefix a"
  shows "sorted_wrt (<) (table_range p (upper_bound p) (rt_by_author_ts t))"
    and "set (table_range p (upper_bound p) (rt_by_author_ts t)) = author_key ` {x \<in> L. ev_pubkey x = a}"
proof -
  have tbl: "bs_invar (rt_by_author_ts t)" "set (rt_by_author_ts t) = author_key ` L"
    using ok by (simp_all add: tables_ok_def index_ok_def)
  have pre: "length (author_key x) = 72" "take (length p) (author_key x) = p \<longleftrightarrow> ev_pubkey x = a" if "x \<in> L" for x
    using author_key_prefix [OF tables_ok_wf [OF ok that] len] unfolding p_def by blast+
  have "length p = 32" using len by (simp add: p_def author_prefix_def)
  then have "y \<in> set (rt_by_author_ts t) \<Longrightarrow> length p \<le> length y" for y using tbl(2) pre(1) by auto
  then have eq: "table_range p (upper_bound p) (rt_by_author_ts t) =
      filter (\<lambda>y. take (length p) y = p) (rt_by_author_ts t)"
    by (rule table_range_prefix)
  show "sorted_wrt (<) (table_range p (upper_bound p) (rt_by_author_ts t))"
    unfolding eq using tbl(1) by (rule sorted_wrt_filter)
  show "set (table_range p (upper_bound p) (rt_by_author_ts t)) = author_key ` {x \<in> L. ev_pubkey x = a}"
    unfolding eq set_filter tbl(2) using pre(2) by auto
qed

section \<open>Conflicts\<close>

lemma pick_loser_id_event: "pick_loser_id (ev_created_at x) (ev_id x) e = pick_loser x e"
  by (simp add: pick_loser_id_def pick_loser_def)

lemma ts_be_nat: "(of_nat (be_nat (ts_be ts)) :: timestamp) = ts"
  using unsigned_less [of ts, where ?'a = nat] by (simp add: ts_be_def be_nat_to_be)

lemma scan_newest_one:
  assumes "stored_wf X x"
  shows "scan_newest 34 [kind_author_key x] None = Some (ev_created_at x, ev_id x)"
  using stored_lengths [OF assms]
  by (simp add: kind_author_key_def key_kind_author_ts_def TS_LEN_def ID_LEN_def Let_def ts_be_nat)

lemma redb_rivals_replaceable:
  assumes ok: "tables_ok X P t L" and wf: "stored_wf X e" and uniq: "replaceable_unique L"
    and rep: "is_replaceable (ev_kind e)"
  shows "redb_resolve_replaceable t e = None \<and> rivals L e = {} \<or>
    (\<exists>x. redb_resolve_replaceable t e = Some (pick_loser x e) \<and> rivals L e = {x})"
proof -
  let ?p = "kind_author_prefix (ev_kind e) (ev_pubkey e)"
  let ?ks = "table_range ?p (upper_bound ?p) (rt_by_kind_author_ts t)"
  have riv: "rivals L e = {x \<in> L. ev_kind x = ev_kind e \<and> ev_pubkey x = ev_pubkey e}"
    using rep by (auto simp: rivals_def same_slot_def)
  have "length (ev_pubkey e) = 32" using stored_lengths [OF wf] by simp
  note scan = scan_kind_author_keys [OF ok this, of "ev_kind e"]
  show ?thesis
  proof (cases "rivals L e = {}")
    case True
    then have "set ?ks = {}" using scan(2) riv by simp
    with True show ?thesis by (simp add: redb_resolve_replaceable_def)
  next
    case False
    then obtain x where x: "x \<in> rivals L e" by blast
    then have one: "rivals L e = {x}" using uniq rep unfolding riv replaceable_unique_def by auto
    then have "set ?ks = {kind_author_key x}" using scan(2) unfolding riv [symmetric] by simp
    then have "?ks = [kind_author_key x]"
      by (intro sorted_list_eq scan(1)) simp_all
    moreover have "scan_newest (KIND_LEN + PUBKEY_LEN) [kind_author_key x] None = Some (ev_created_at x, ev_id x)"
      using scan_newest_one [OF tables_ok_wf [OF ok]] x by (simp add: KIND_LEN_def PUBKEY_LEN_def rivals_def del: scan_newest.simps)
    ultimately show ?thesis using one
      by (simp add: redb_resolve_replaceable_def pick_loser_id_event del: scan_newest.simps)
  qed
qed

lemma redb_rivals_addressable:
  assumes env: "redb_env X P" and ok: "tables_ok X P t L" and wf: "stored_wf X e" and adr: "is_addressable (ev_kind e)"
  shows "redb_resolve_addressable P t e = Inr None \<and> rivals L e = {} \<or>
    (\<exists>x. redb_resolve_addressable P t e = Inr (Some (pick_loser x e)) \<and> rivals L e = {x})"
proof -
  obtain c where c: "addressable_coord e = Some c" using adr by (simp add: addressable_coord_def)
  have riv: "rivals L e = {x \<in> L. addressable_coord x = Some c}"
    using adr c kinds_disjoint [of "ev_kind e"]
    by (auto simp: rivals_def same_slot_def addressable_coord_def split: if_splits)
  note key = identifier_key [OF c] addressable_identifier_coord [of e]
  show ?thesis
  proof (cases rule: incumbent_cases [OF env ok coord_of_stored [OF wf c]])
    case 1
    then show ?thesis using c riv by (simp add: redb_resolve_addressable_def key)
  next
    case (2 w)
    then have "rivals L e = {w}" unfolding riv by blast
    with 2(4-7) c show ?thesis by (simp add: redb_resolve_addressable_def key pick_loser_id_event)
  qed
qed

text \<open>Both resolvers as one.\<close>

lemma redb_conflict_cases:
  assumes env: "redb_env X P" and ok: "tables_ok X P t L" and wf: "stored_wf X e" and uniq: "replaceable_unique L"
  shows "redb_resolve_conflict P t e = Inr (Some t) \<and> rivals L e = {} \<or>
    (\<exists>x. redb_resolve_conflict P t e = (if pick_loser x e = ev_id e then Inr None
        else res_bind (remove_event_inner P (pick_loser x e) t) (\<lambda>t'. Inr (Some t'))) \<and>
      rivals L e = {x})"
proof -
  consider "is_replaceable (ev_kind e)" | "is_addressable (ev_kind e)" "\<not> is_replaceable (ev_kind e)"
    | "\<not> is_replaceable (ev_kind e)" "\<not> is_addressable (ev_kind e)" by blast
  then show ?thesis
  proof cases
    case 1
    then show ?thesis using redb_rivals_replaceable [OF ok wf uniq 1] by (auto simp: redb_resolve_conflict_def)
  next
    case 2
    then show ?thesis using redb_rivals_addressable [OF env ok wf 2(1)] by (auto simp: redb_resolve_conflict_def)
  next
    case 3
    then show ?thesis by (auto simp: redb_resolve_conflict_def rivals_def same_slot_def)
  qed
qed

lemma redb_conflict_spec:
  assumes env: "redb_env X P" and ok: "tables_ok X P t L" and wf: "stored_wf X e" and uniq: "replaceable_unique L"
    and fresh: "\<And>x. x \<in> L \<Longrightarrow> ev_id x \<noteq> ev_id e"
  obtains (lost) "redb_resolve_conflict P t e = Inr None" "\<exists>x \<in> L. same_slot e x \<and> key_from_event x < key_from_event e"
  | (won) t1 where "redb_resolve_conflict P t e = Inr (Some t1)" "tables_ok X P t1 {x \<in> L. \<not> same_slot e x}"
    "rt_deleted_ids t1 = rt_deleted_ids t" "rt_deleted_coordinates t1 = rt_deleted_coordinates t"
    "\<not> (\<exists>x \<in> L. same_slot e x \<and> key_from_event x < key_from_event e)"
proof -
  have riv: "x \<in> rivals L e \<longleftrightarrow> x \<in> L \<and> same_slot e x" for x by (simp add: rivals_def)
  consider (none) "redb_resolve_conflict P t e = Inr (Some t)" "rivals L e = {}"
    | (one) x where "redb_resolve_conflict P t e = (if pick_loser x e = ev_id e then Inr None
        else res_bind (remove_event_inner P (pick_loser x e) t) (\<lambda>t'. Inr (Some t')))" "rivals L e = {x}"
    using redb_conflict_cases [OF env ok wf uniq] by blast
  then show thesis
  proof cases
    case none
    then have "{x \<in> L. \<not> same_slot e x} = L" using riv by blast
    then show thesis using none ok riv by (intro won [of t]) auto
  next
    case (one x)
    then have x: "x \<in> L" "same_slot e x" and only: "y \<in> L \<Longrightarrow> same_slot e y \<Longrightarrow> y = x" for y using riv by blast+
    note pick = pick_loser_challenger [OF fresh [OF x(1)]] pick_loser_cases [of x e]
    show thesis
    proof (cases "pick_loser x e = ev_id e")
      case True
      then show thesis using one(1) pick(1) x by (intro lost) auto
    next
      case False
      then have lose: "pick_loser x e = ev_id x" using pick(2) by simp
      have "{y \<in> L. \<not> same_slot e y} = L - {x}" using x only by blast
      moreover obtain t1 where "remove_event_inner P (ev_id x) t = Inr t1" "tables_ok X P t1 (L - {x})"
        "rt_deleted_ids t1 = rt_deleted_ids t" "rt_deleted_coordinates t1 = rt_deleted_coordinates t"
        by (rule remove_stored [OF env ok x(1)])
      moreover have "\<not> (\<exists>y \<in> L. same_slot e y \<and> key_from_event y < key_from_event e)"
        using only pick(1) False by blast
      ultimately show thesis using one(1) False lose by (intro won [of t1]) simp_all
    qed
  qed
qed

section \<open>Saving\<close>

text \<open>What the options of this backend mean for the specification: no capacity, and NIP-62 is not processed
  whatever the option says.\<close>

definition redb_spec_options :: "redb_options \<Rightarrow> memory_options" where
  "redb_spec_options opts = \<lparr>max_events = None, process_nip09 = ro_process_nip09 opts, process_nip62 = False\<rparr>"

lemma redb_refusal_refines:
  assumes r: "redb_rel X P t A" and wf: "stored_wf X e"
  shows "spec_refusal (redb_spec_options opts) A e now =
    (case redb_refusal t e now of
       Some r \<Rightarrow> Some r
     | None \<Rightarrow> if \<exists>x \<in> sp_live A. same_slot e x \<and> key_from_event x < key_from_event e
         then Some Replaced else None)"
proof -
  note d = redb_relD [OF r]
  have dup: "map_of (rt_events t) (ev_id e) \<noteq> None \<longleftrightarrow> (\<exists>x \<in> sp_live A. ev_id x = ev_id e)"
    unfolding events_None [OF d(1)] by simp
  have dead: "map_of (rt_deleted_ids t) (ev_id e) \<noteq> None \<longleftrightarrow> ev_id e \<in> sp_dead_ids A"
    unfolding d(5) by (simp add: domIff)
  have tomb: "(case addressable_identifier e of None \<Rightarrow> False
      | Some i \<Rightarrow> (case map_of (rt_deleted_coordinates t) (key_coordinate (ev_kind e) (ev_pubkey e) i) of
          None \<Rightarrow> False | Some stamp \<Rightarrow> ev_created_at e \<le> stamp)) \<longleftrightarrow>
      (\<exists>c s. addressable_coord e = Some c \<and> sp_dead_coords A c = Some s \<and> ev_created_at e \<le> s)"
  proof (cases "addressable_coord e")
    case None
    then show ?thesis by (simp add: addressable_identifier_coord)
  next
    case (Some c)
    then show ?thesis using coord_of_stored [OF wf Some]
      by (simp add: addressable_identifier_coord identifier_key d(6) redb_stamps_def split: option.splits)
  qed
  show ?thesis unfolding spec_refusal_def redb_refusal_def tomb [symmetric] dup [symmetric] dead [symmetric]
    by (simp add: redb_spec_options_def)
qed

lemma redb_save_refines_aux:
  assumes env: "redb_env X P" and r: "redb_rel X P t A" and uniq: "replaceable_unique (sp_live A)" and wf: "stored_wf X e"
  shows "\<exists>t' A' st. save_with X P opts e now t = Inr (t', st) \<and>
    spec_save X (redb_spec_options opts) e now A = (A', st) \<and>
    redb_rel X P t' A' \<and> replaceable_unique (sp_live A')"
proof (cases "redb_refusal t e now")
  case (Some reason)
  then show ?thesis using r uniq by (simp add: save_with_def spec_save_def redb_refusal_refines [OF r wf])
next
  case no: None
  note d = redb_relD [OF r]
  have "map_of (rt_events t) (ev_id e) = None" using no by (auto simp: redb_refusal_def split: if_splits)
  then have fresh: "x \<in> sp_live A \<Longrightarrow> ev_id x \<noteq> ev_id e" for x using events_None [OF d(1)] by blast
  show ?thesis
  proof (cases rule: redb_conflict_spec [OF env d(1) wf uniq fresh])
    case 2
    then have "spec_refusal (redb_spec_options opts) A e now = Some Replaced"
      unfolding redb_refusal_refines [OF r wf] no by simp
    then show ?thesis using no 2(1) r uniq by (simp add: save_with_def spec_save_def)
  next
    case (3 t1)
    define A1 where "A1 = A\<lparr>sp_live := {x \<in> sp_live A. \<not> same_slot e x}\<rparr>"
    define A2 where "A2 = (if ro_process_nip09 opts \<and> ev_kind e = EVENT_DELETION then spec_deletion X e A1 else A1)"
    have r1: "redb_rel X P t1 A1"
      using 3 d env redb_stamps_cong [OF 3(4)] by (intro redb_relI [where L = "sp_live A1"]) (simp_all add: A1_def)
    obtain t2 where t2: "(if ro_process_nip09 opts \<and> ev_kind e = EVENT_DELETION
        then redb_apply_deletion X P e t1 else Inr t1) = Inr t2" "redb_rel X P t2 A2"
      using redb_deletion_refines [OF env r1 wf] r1 unfolding A2_def
      by (cases "ro_process_nip09 opts \<and> ev_kind e = EVENT_DELETION") (simp_all, blast)
    note d2 = redb_relD [OF t2(2)]
    have sub: "sp_live A2 \<subseteq> {x \<in> sp_live A. \<not> same_slot e x}"
      using spec_deletion_live [of X e A1] by (auto simp: A2_def A1_def)
    have "addressable_coord x \<noteq> addressable_coord e" if "x \<in> sp_live A2" "addressable_coord e \<noteq> None" for x
      using same_slot_coord [of e _ x] sub that by auto
    then obtain t3 where t3: "insert_event_inner P e t2 = Inr t3" "tables_ok X P t3 (insert e (sp_live A2))"
      "rt_deleted_ids t3 = rt_deleted_ids t2" "rt_deleted_coordinates t3 = rt_deleted_coordinates t2"
      using insert_stored [OF env d2(1) wf] fresh sub by blast
    let ?A = "A2\<lparr>sp_live := insert e (sp_live A2)\<rparr>"
    have "redb_rel X P t3 ?A"
      using t3 d2 redb_stamps_cong [OF t3(4)] by (intro redb_relI [OF env t3(2)]) simp_all
    moreover have "spec_refusal (redb_spec_options opts) A e now = None"
      using 3(5) unfolding redb_refusal_refines [OF r wf] no by simp
    then have "spec_save X (redb_spec_options opts) e now A = (?A, Success)"
      by (simp add: spec_save_def spec_accept_def spec_effects_def redb_spec_options_def spec_cap_def A2_def A1_def Let_def)
    moreover have "save_with X P opts e now t = Inr (t3, Success)"
      using no 3(1) t2(1) t3(1) by (simp add: save_with_def)
    moreover have "replaceable_unique (sp_live ?A)"
      using sub uniq by (auto intro!: replaceable_unique_insert intro: replaceable_unique_subset)
    ultimately show ?thesis by blast
  qed
qed

definition redb_inv :: "crates \<Rightarrow> postcard \<Rightarrow> redb_store \<Rightarrow> bool" where
  [inv_simps]: "redb_inv X P s \<longleftrightarrow> redb_rel X P (rs_tables s) (redb_abs P (rs_tables s)) \<and>
     replaceable_unique (redb_live P (rs_tables s))"

lemma redb_save_refines:
  assumes env: "redb_env X P" and inv: "redb_inv X P s" and wf: "stored_wf X e"
  obtains s' st where "redb_save_event X P False e now s = (s', Inr st)" and "redb_inv X P s'"
    and "rs_options s' = rs_options s"
    and "spec_save X (redb_spec_options (rs_options s)) e now (redb_abs P (rs_tables s)) = (redb_abs P (rs_tables s'), st)"
proof -
  let ?A = "redb_abs P (rs_tables s)"
  obtain t' A' st where sv: "save_with X P (rs_options s) e now (rs_tables s) = Inr (t', st)"
    "spec_save X (redb_spec_options (rs_options s)) e now ?A = (A', st)" "redb_rel X P t' A'"
    "replaceable_unique (sp_live A')"
    using redb_save_refines_aux [OF env, of "rs_tables s" ?A e "rs_options s" now] inv wf
    by (auto simp: redb_inv_def redb_abs_def)
  have A': "A' = redb_abs P t'" using sv(3) by (simp add: redb_rel_def)
  show thesis
  proof (cases "st = Success")
    case True
    then show thesis using sv A' that [of "s\<lparr>rs_tables := t'\<rparr>" st]
      by (simp add: redb_save_event_def redb_inv_def redb_abs_def)
  next
    case False
    then have "A' = ?A" using sv(2) by (auto simp: spec_save_def split: option.splits)
    then show thesis using sv False inv that [of s st] by (simp add: redb_save_event_def)
  qed
qed

end
