(* ===== verification/Redb_Query.thy ===== *)
theory Redb_Query
  imports Redb_Refinement
begin

text \<open>
  Reading the redb tables: the loop of the reads keeps the candidates that the filter selects, the index scans
  produce the stored events of their prefix newest first, and every plan finds every event the filter selects.
\<close>

section \<open>The read loop\<close>

text \<open>The stored events of a list of ids, in the order of the list.\<close>

definition redb_events :: "postcard \<Rightarrow> redb_tables \<Rightarrow> event_id list \<Rightarrow> event list" where
  "redb_events P t is =
     List.map_filter (\<lambda>i. Option.bind (map_of (rt_events t) i) (\<lambda>b. res_ok (codec_decode P b))) is"

definition redb_matches :: "postcard \<Rightarrow> redb_tables \<Rightarrow> nostr_filter \<Rightarrow> event list" where
  "redb_matches P t f = filter (filter_selects f) (redb_events P t (candidate_ids t f))"

lemma redb_events_Nil [simp]: "redb_events P t [] = []"
  by (simp add: redb_events_def map_filter_simps)

lemma redb_events_None: "map_of (rt_events t) i = None \<Longrightarrow> redb_events P t (i # is) = redb_events P t is"
  by (simp add: redb_events_def map_filter_simps)

lemma redb_events_stored:
  assumes "redb_env X P" and "tables_ok X P t L" and "e \<in> L"
  shows "redb_events P t (ev_id e # is) = e # redb_events P t is"
  using events_lookup [OF assms(2,3)] payload(2) [OF assms(1) tables_ok_wf [OF assms(2,3)]]
  by (simp add: redb_events_def map_filter_simps res_ok_def)

lemma redb_events_map:
  assumes "redb_env X P" and "tables_ok X P t L" and "set es \<subseteq> L"
  shows "redb_events P t (map ev_id es) = es"
  using assms(3) by (induction es) (simp_all add: redb_events_stored [OF assms(1,2)])

lemma redb_events_set:
  assumes "redb_env X P" and "tables_ok X P t L"
  shows "set (redb_events P t is) = {e \<in> L. ev_id e \<in> set is}"
proof (induction "is")
  case (Cons i "is")
  show ?case
  proof (cases "map_of (rt_events t) i")
    case None
    then show ?thesis using Cons events_None [OF assms(2), of i] by (auto simp: redb_events_None)
  next
    case (Some b)
    then obtain e where "e \<in> L" "ev_id e = i" by (rule events_Some [OF assms(2)])
    then show ?thesis using Cons redb_events_stored [OF assms, of e "is"] tables_ok_inj [OF assms(2)]
      by (auto dest: inj_onD)
  qed
qed simp

lemma read_loop_spec:
  assumes env: "redb_env X P" and ok: "tables_ok X P t L"
    and g: "\<And>e. e \<in> L \<Longrightarrow> g (ev_id e) (view_of e) (payload_of P e) = Inr (h e)"
  shows "read_loop X P t f limit g is out =
    Inr (out @ (let ms = map h (filter (filter_selects f) (redb_events P t is))
       in case limit of None \<Rightarrow> ms | Some n \<Rightarrow> take (n - length out) ms))"
proof (induction "is" arbitrary: out)
  case Nil
  show ?case by (simp add: Let_def split: option.splits)
next
  case (Cons i "is")
  show ?case
  proof (cases "map_of (rt_events t) i")
    case None
    then show ?thesis using Cons by (simp add: redb_events_None Let_def split: option.splits)
  next
    case (Some b)
    then obtain e where e: "e \<in> L" "ev_id e = i" "b = payload_of P e" by (rule events_Some [OF ok])
    have view: "decode_match_view X P b = Inr (view_of e)"
      using payload(4) [OF env tables_ok_wf [OF ok e(1)]] e(3) by simp
    have "redb_events P t (i # is) = e # redb_events P t is"
      using redb_events_stored [OF env ok e(1)] e(2) by simp
    then show ?thesis using Cons Some view g [OF e(1)] e(2,3) view_matches [of f e]
      by (cases limit) (auto simp: Let_def Suc_diff_le not_le take_Cons' split: option.splits)
  qed
qed

lemma read_loop_start:
  assumes "redb_env X P" and "tables_ok X P t L"
    and "\<And>e. e \<in> L \<Longrightarrow> g (ev_id e) (view_of e) (payload_of P e) = Inr (h e)"
  shows "read_loop X P t f limit g (candidate_ids t f) [] = Inr (map h (take_limit limit (redb_matches P t f)))"
  using read_loop_spec [of X P t L g h f limit "candidate_ids t f" "[]", OF assms]
  by (cases limit) (simp_all add: Let_def take_limit_def take_map redb_matches_def)

lemma redb_query_matches:
  assumes "redb_env X P" and "tables_ok X P (rs_tables s) L"
  shows "redb_query X P s f = Inr (take_limit (f_limit f) (redb_matches P (rs_tables s) f))"
    and "redb_count X P s f = Inr (length (take_limit (f_limit f) (redb_matches P (rs_tables s) f)))"
    and "redb_negentropy_items X P s f =
      Inr (map (\<lambda>e. (ev_id e, ev_created_at e)) (take_limit (f_limit f) (redb_matches P (rs_tables s) f)))"
proof -
  have g: "codec_decode P (payload_of P e) = Inr (id e)" if "e \<in> L" for e
    using payload(2) [OF assms(1) tables_ok_wf [OF assms(2) that]] by simp
  show "redb_query X P s f = Inr (take_limit (f_limit f) (redb_matches P (rs_tables s) f))"
    unfolding redb_query_def using read_loop_start [where g = "\<lambda>_ _ b. codec_decode P b" and h = id, OF assms g] by simp
  show "redb_count X P s f = Inr (length (take_limit (f_limit f) (redb_matches P (rs_tables s) f)))"
    unfolding redb_count_def using read_loop_start [OF assms, of "\<lambda>_ _ _. Inr ()" "\<lambda>_. ()"] by simp
  have v: "(Inr (vw_id (view_of e), vw_created_at (view_of e)) :: redb_error + _) = Inr (ev_id e, ev_created_at e)" for e
    by (simp add: view_of_def)
  show "redb_negentropy_items X P s f =
      Inr (map (\<lambda>e. (ev_id e, ev_created_at e)) (take_limit (f_limit f) (redb_matches P (rs_tables s) f)))"
    unfolding redb_negentropy_items_def by (rule read_loop_start [where g = "\<lambda>_ v _. Inr (vw_id v, vw_created_at v)", OF assms v])
qed

section \<open>The plans\<close>

lemma time_key_less:
  "time_key x < time_key y \<longleftrightarrow> ev_created_at x < ev_created_at y \<or> ev_created_at x = ev_created_at y \<and> ev_id x < ev_id y"
  by (simp add: time_key_def key_created_at_def append_less ts_be_less)

text \<open>Keys that consist of a common prefix and the time key, in ascending order: the scan of them gives the
  ids of their events, latest first.\<close>

lemma list_preimage: "set ks \<subseteq> f ` M \<Longrightarrow> \<exists>es. ks = map f es \<and> set es \<subseteq> M"
proof (induction ks)
  case (Cons k ks)
  then obtain es where "ks = map f es" "set es \<subseteq> M" by auto
  moreover obtain x where "x \<in> M" "k = f x" using Cons.prems by auto
  ultimately show ?case by (intro exI [of _ "x # es"]) simp
qed simp

lemma scan_ids_events:
  assumes sorted: "sorted_wrt (<) ks" and set: "set ks = key ` M" and key: "\<And>x. x \<in> M \<Longrightarrow> key x = p @ time_key x"
    and wf: "\<And>x. x \<in> M \<Longrightarrow> stored_wf X x" and inj: "inj_on ev_id M" and n: "n = length p + TS_LEN"
  obtains es where "scan_ids n ks = map ev_id es" and "set es = M" and "sorted_wrt (\<lambda>x y. time_key y < time_key x) es"
proof -
  obtain es where es: "ks = map key es" "set es \<subseteq> M"
    using set list_preimage [of ks key M] by blast
  have "inj_on key M" using inj_time_key [OF inj] key by (simp add: inj_on_def)
  then have M: "set es = M" using set es by (metis image_set inj_on_image_eq_iff order_refl)
  have len: "length (key x) = n + ID_LEN" "drop n (key x) = ev_id x" if "x \<in> M" for x
    using stored_lengths [OF wf [OF that]] key [OF that]
    by (simp_all add: n TS_LEN_def ID_LEN_def time_key_def key_created_at_def)
  have "filter (\<lambda>k. length k = n + ID_LEN) ks = ks" using len(1) es by (auto simp: filter_id_conv)
  then have ids: "scan_ids n ks = map ev_id (rev es)" using len(2) es by (auto simp: scan_ids_def rev_map)
  have less: "key x < key y \<longleftrightarrow> time_key x < time_key y" if "x \<in> set es" "y \<in> set es" for x y
    using key that es(2) by (simp add: append_less subset_eq)
  have "sorted_wrt (\<lambda>x y. time_key x < time_key y) es"
    using sorted less unfolding es(1) sorted_wrt_map by (metis (mono_tags, lifting) sorted_wrt_mono_rel)
  then show thesis using that [of "rev es"] ids M by (simp add: sorted_wrt_rev)
qed

lemma kind_author_key_split: "kind_author_key x = kind_author_prefix (ev_kind x) (ev_pubkey x) @ time_key x"
  by (simp add: kind_author_key_def key_kind_author_ts_def kind_author_prefix_def time_key_def key_created_at_def)

lemma author_key_split: "author_key x = author_prefix (ev_pubkey x) @ time_key x"
  by (simp add: author_key_def key_author_ts_def author_prefix_def time_key_def key_created_at_def)

text \<open>The candidates of a filter without ids.\<close>

definition plan_scope :: "nostr_filter \<Rightarrow> event set \<Rightarrow> event set" where
  "plan_scope f L =
     (case (only_one (f_authors f), only_one (f_kinds f)) of
        (Some a, Some k) \<Rightarrow> {x \<in> L. ev_kind x = k \<and> ev_pubkey x = a}
      | (Some a, None) \<Rightarrow> {x \<in> L. ev_pubkey x = a}
      | _ \<Rightarrow> L)"

lemma only_one_Some: "only_one v = Some x \<longleftrightarrow> v = Some [x]"
  by (auto simp: only_one_def split: option.splits list.splits)

lemma plan_scope_selected: "selected (plan_scope f L) f = selected L f"
  by (auto simp: plan_scope_def selected_def filter_selects_def only_one_Some split: option.splits)

lemma candidates_scan:
  assumes ok: "tables_ok X P t L" and wf: "filter_wf X f" and no_ids: "get_or_empty (f_ids f) = []"
  obtains es where "candidate_ids t f = map ev_id es" and "set es = plan_scope f L"
    and "sorted_wrt (\<lambda>x y. time_key y < time_key x) es"
proof -
  have author: "length a = 32" if "only_one (f_authors f) = Some a" for a
    using that wf by (simp add: only_one_Some filter_wf_def public_key_wf_def PUBLIC_KEY_SIZE_def)
  have sub: "inj_on ev_id M" "\<And>x. x \<in> M \<Longrightarrow> stored_wf X x" if "M \<subseteq> L" for M
    using that tables_ok_inj [OF ok] tables_ok_wf [OF ok] by (auto intro: inj_on_subset)
  have cands: "candidate_ids t f = (case (only_one (f_authors f), only_one (f_kinds f)) of
      (Some author, Some k) \<Rightarrow> scan_kind_author (rt_by_kind_author_ts t) k author
    | (Some author, None) \<Rightarrow> scan_author (rt_by_author_ts t) author
    | _ \<Rightarrow> scan_ids TS_LEN (rt_by_created_at t))"
    using no_ids by (auto simp: candidate_ids_def get_or_empty_def split: option.splits list.splits)
  consider (ka) a k where "only_one (f_authors f) = Some a" "only_one (f_kinds f) = Some k"
    | (au) a where "only_one (f_authors f) = Some a" "only_one (f_kinds f) = None"
    | (all) "only_one (f_authors f) = None" by fastforce
  then show thesis
  proof cases
    case ka
    let ?M = "{x \<in> L. ev_kind x = k \<and> ev_pubkey x = a}"
    have M: "?M \<subseteq> L" by blast
    have n: "KIND_LEN + PUBKEY_LEN + TS_LEN = length (kind_author_prefix k a) + TS_LEN"
      using author [OF ka(1)] by (simp add: KIND_LEN_def PUBKEY_LEN_def kind_author_prefix_def)
    have "x \<in> ?M \<Longrightarrow> kind_author_key x = kind_author_prefix k a @ time_key x" for x by (auto simp: kind_author_key_split)
    from scan_ids_events [OF scan_kind_author_keys [OF ok author [OF ka(1)]] this sub(2) [OF M] sub(1) [OF M] n] that
    show thesis using ka by (auto simp: cands scan_kind_author_def Let_def plan_scope_def)
  next
    case au
    let ?M = "{x \<in> L. ev_pubkey x = a}"
    have M: "?M \<subseteq> L" by blast
    have n: "PUBKEY_LEN + TS_LEN = length (author_prefix a) + TS_LEN"
      using author [OF au(1)] by (simp add: PUBKEY_LEN_def author_prefix_def)
    have "x \<in> ?M \<Longrightarrow> author_key x = author_prefix a @ time_key x" for x by (auto simp: author_key_split)
    from scan_ids_events [OF scan_author_keys [OF ok author [OF au(1)]] this sub(2) [OF M] sub(1) [OF M] n] that
    show thesis using au by (auto simp: cands scan_author_def Let_def plan_scope_def)
  next
    case all
    have tbl: "sorted_wrt (<) (rt_by_created_at t)" "set (rt_by_created_at t) = time_key ` L"
      using ok by (simp_all add: tables_ok_def index_ok_def)
    obtain es where "scan_ids TS_LEN (rt_by_created_at t) = map ev_id es" "set es = L"
      "sorted_wrt (\<lambda>x y. time_key y < time_key x) es"
      by (rule scan_ids_events [OF tbl, of "[]" X TS_LEN]) (use sub [OF order_refl] in simp_all)
    with that all show thesis by (simp add: cands plan_scope_def)
  qed
qed

text \<open>Without ids, the matches are the selected events, latest first.\<close>

lemma redb_matches_scan:
  assumes env: "redb_env X P" and ok: "tables_ok X P t L" and "filter_wf X f" and "get_or_empty (f_ids f) = []"
  shows "set (redb_matches P t f) = selected L f"
    and "sorted_wrt (\<lambda>x y. time_key y < time_key x) (redb_matches P t f)"
proof -
  obtain es where es: "candidate_ids t f = map ev_id es" "set es = plan_scope f L"
    "sorted_wrt (\<lambda>x y. time_key y < time_key x) es"
    by (rule candidates_scan [OF assms(2-4)])
  have "plan_scope f L \<subseteq> L" by (auto simp: plan_scope_def split: option.splits)
  then have m: "redb_matches P t f = filter (filter_selects f) es"
    using redb_events_map [OF env ok] es(1,2) by (simp add: redb_matches_def)
  show "sorted_wrt (\<lambda>x y. time_key y < time_key x) (redb_matches P t f)"
    unfolding m using es(3) by (rule sorted_wrt_filter)
  have "set (redb_matches P t f) = selected (plan_scope f L) f" by (auto simp: m es(2) selected_def)
  then show "set (redb_matches P t f) = selected L f" by (simp add: plan_scope_selected)
qed

text \<open>With ids, they are the selected events in the order of the ids.\<close>

lemma redb_matches_ids:
  assumes "f_ids f = Some (i # is)"
  shows "redb_matches P t f = filter (filter_selects f) (redb_events P t (i # is))"
  by (simp add: redb_matches_def candidate_ids_def assms)

lemma redb_matches_set:
  assumes env: "redb_env X P" and ok: "tables_ok X P t L" and wf: "filter_wf X f"
  shows "set (redb_matches P t f) = selected L f"
proof (cases "get_or_empty (f_ids f) = []")
  case True
  then show ?thesis by (rule redb_matches_scan(1) [OF env ok wf])
next
  case False
  then obtain i "is" where "f_ids f = Some (i # is)"
    by (auto simp: get_or_empty_def neq_Nil_conv split: option.splits)
  then show ?thesis
    by (auto simp: redb_matches_ids redb_events_set [OF env ok] selected_def filter_selects_def)
qed

section \<open>Deleting by filter\<close>

lemma redb_delete_matching_refines:
  assumes env: "redb_env X P" and inv: "redb_inv X P s" and wf: "filter_wf X f"
  obtains s' where "redb_delete_matching X P False f s = (s', Inr ())" and "redb_inv X P s'"
    and "rs_options s' = rs_options s"
    and "redb_abs P (rs_tables s') = (redb_abs P (rs_tables s))
      \<lparr>sp_live := {x \<in> redb_live P (rs_tables s). \<not> filter_selects f x}\<rparr>"
proof -
  let ?t = "rs_tables s" and ?L = "redb_live P (rs_tables s)"
  have r: "redb_rel X P ?t (redb_abs P ?t)" and uniq: "replaceable_unique ?L" using inv by (simp_all add: redb_inv_def)
  have ok: "tables_ok X P ?t ?L" using redb_relD(1) [OF r] by (simp add: redb_abs_def)
  have loop: "read_loop X P ?t f None (\<lambda>i _ _. Inr i) (candidate_ids ?t f) [] = Inr (map ev_id (redb_matches P ?t f))"
    using read_loop_start [OF env ok, of "\<lambda>i _ _. Inr i" ev_id f None] by (simp add: take_limit_def)
  have gone: "{x \<in> ?L. ev_id x \<notin> set (map ev_id (redb_matches P ?t f))} = {x \<in> ?L. \<not> filter_selects f x}"
    using tables_ok_inj [OF ok] by (auto simp: redb_matches_set [OF env ok wf] selected_def dest: inj_onD)
  obtain t' where t': "remove_all_inner P (map ev_id (redb_matches P ?t f)) ?t = Inr t'"
    "tables_ok X P t' {x \<in> ?L. \<not> filter_selects f x}" "rt_deleted_ids t' = rt_deleted_ids ?t"
    "rt_deleted_coordinates t' = rt_deleted_coordinates ?t"
    using remove_all_any [OF env ok, of "map ev_id (redb_matches P ?t f)"] unfolding gone by blast
  have abs': "redb_abs P t' = (redb_abs P ?t)\<lparr>sp_live := {x \<in> ?L. \<not> filter_selects f x}\<rparr>"
    using redb_live_eq [OF env t'(2)] t'(3) redb_stamps_cong [OF t'(4)] by (simp add: redb_abs_def)
  have "redb_rel X P t' (redb_abs P t')"
    using t' redb_relD [OF r] redb_live_eq [OF env t'(2)] by (simp add: redb_rel_def redb_abs_def)
  moreover have "replaceable_unique (redb_live P t')"
    unfolding redb_live_eq [OF env t'(2)] using uniq by (auto intro: replaceable_unique_subset)
  ultimately have inv': "redb_inv X P (s\<lparr>rs_tables := t'\<rparr>)" by (simp add: redb_inv_def)
  show thesis
  proof (cases "redb_matches P ?t f = []")
    case True
    then have "t' = ?t" using t'(1) by simp
    with True loop inv abs' that [of s] show thesis by (simp add: redb_delete_matching_def)
  next
    case False
    with loop t'(1) inv' abs' that [of "s\<lparr>rs_tables := t'\<rparr>"] show thesis by (simp add: redb_delete_matching_def)
  qed
qed

lemma redb_inv_open:
  assumes "redb_env X P"
  shows "redb_inv X P (redb_open opts)" and "redb_abs P redb_empty =
    \<lparr>sp_live = {}, sp_dead_ids = {}, sp_dead_coords = (\<lambda>_. None), sp_vanished = {}\<rparr>"
proof -
  have L: "redb_live P redb_empty = {}" by (rule redb_live_eq [OF assms tables_ok_empty])
  show "redb_abs P redb_empty = \<lparr>sp_live = {}, sp_dead_ids = {}, sp_dead_coords = (\<lambda>_. None), sp_vanished = {}\<rparr>"
    using L by (simp add: redb_abs_def redb_stamps_def fun_eq_iff) (simp add: redb_empty_def)
  show "redb_inv X P (redb_open opts)"
    using L tables_ok_empty [of X P] bt.invar_empty
    by (simp add: redb_inv_def redb_rel_def redb_open_def redb_abs_def replaceable_unique_def) (simp add: redb_empty_def)
qed

end
