(* ===== verification/Redb_Theorems.thy ===== *)
theory Redb_Theorems
  imports Redb_Query Sample_Json
begin

text \<open>
  The theorems on the redb backend: saving refines the specification of the in-memory store, the two backends
  give the same answers after the same calls, queries return the latest matching events, and three places where
  this backend differs from what its documentation says. The interface of both backends is the locale
  \<open>typed_database\<close>, and \<open>database_pair\<close> compares two of them.
\<close>

section \<open>Backends for well-formed events\<close>

text \<open>A sequence of saves, each with its time; a save that fails stops it.\<close>

fun run_saves ::
  "(event \<Rightarrow> timestamp \<Rightarrow> 's \<Rightarrow> ('s \<times> save_event_status) option) \<Rightarrow> (event \<times> timestamp) list \<Rightarrow> 's \<Rightarrow>
   ('s \<times> save_event_status list) option" where
  "run_saves save [] s = Some (s, [])"
| "run_saves save (h # hs) s =
     Option.bind (save (fst h) (snd h) s) (\<lambda>r.
     Option.bind (run_saves save hs (fst r)) (\<lambda>q. Some (fst q, snd r # snd q)))"

fun spec_run ::
  "crates \<Rightarrow> memory_options \<Rightarrow> (event \<times> timestamp) list \<Rightarrow> store_spec \<Rightarrow> store_spec \<times> save_event_status list" where
  "spec_run X opts [] A = (A, [])"
| "spec_run X opts (h # hs) A =
     (let r = spec_save X opts (fst h) (snd h) A; q = spec_run X opts hs (fst r) in (fst q, snd r # snd q))"

locale typed_database =
  fixes save :: "event \<Rightarrow> timestamp \<Rightarrow> 's \<Rightarrow> ('s \<times> save_event_status) option"
    and lookup :: "'s \<Rightarrow> event_id \<Rightarrow> event option"
    and status :: "'s \<Rightarrow> event_id \<Rightarrow> database_event_status"
    and inv :: "'s \<Rightarrow> bool"
    and abstr :: "'s \<Rightarrow> store_spec"
    and opts :: "'s \<Rightarrow> memory_options"
    and ok :: "event \<Rightarrow> bool"
    and X :: crates
  assumes save_law: "inv s \<Longrightarrow> ok e \<Longrightarrow> \<exists>s' st. save e now s = Some (s', st) \<and> inv s' \<and> opts s' = opts s \<and>
      spec_save X (opts s) e now (abstr s) = (abstr s', st)"
    and lookup_law: "inv s \<Longrightarrow> lookup s i = Some x \<longleftrightarrow> x \<in> sp_live (abstr s) \<and> ev_id x = i"
    and status_law: "inv s \<Longrightarrow> status s i = (if \<exists>x \<in> sp_live (abstr s). ev_id x = i then StatusSaved
      else if i \<in> sp_dead_ids (abstr s) then StatusDeleted else StatusNotExistent)"
begin

lemma run_saves_spec:
  "inv s \<Longrightarrow> list_all (\<lambda>h. ok (fst h)) hs \<Longrightarrow> \<exists>s'. run_saves save hs s = Some (s', snd (spec_run X (opts s) hs (abstr s))) \<and>
    inv s' \<and> opts s' = opts s \<and> abstr s' = fst (spec_run X (opts s) hs (abstr s))"
proof (induction hs arbitrary: s)
  case (Cons h hs)
  then obtain s1 st where s1: "save (fst h) (snd h) s = Some (s1, st)" "inv s1" "opts s1 = opts s"
    "spec_save X (opts s) (fst h) (snd h) (abstr s) = (abstr s1, st)"
    using save_law [of s "fst h" "snd h"] by auto
  with Cons.IH [of s1] Cons.prems show ?case by (auto simp: Let_def)
qed simp

end

locale database_pair =
  a: typed_database save_a lookup_a status_a inv_a abstr_a opts_a ok X +
  b: typed_database save_b lookup_b status_b inv_b abstr_b opts_b ok X
  for save_a lookup_a status_a inv_a abstr_a opts_a save_b lookup_b status_b inv_b abstr_b opts_b ok X
begin

text \<open>Two backends that start from the same abstract store cannot be told apart by saves and lookups.\<close>

lemma same_answers:
  assumes inv: "inv_a s" "inv_b r" and start: "opts_a s = opts_b r" "abstr_a s = abstr_b r"
    and ok: "list_all (\<lambda>h. ok (fst h)) hs"
  obtains s' r' sts where "run_saves save_a hs s = Some (s', sts)" and "run_saves save_b hs r = Some (r', sts)"
    and "inv_a s'" and "inv_b r'" and "abstr_a s' = abstr_b r'"
    and "\<And>i. lookup_a s' i = lookup_b r' i \<and> status_a s' i = status_b r' i"
proof -
  obtain s' r' where s': "run_saves save_a hs s = Some (s', snd (spec_run X (opts_b r) hs (abstr_b r)))" "inv_a s'"
      "abstr_a s' = fst (spec_run X (opts_b r) hs (abstr_b r))"
    and r': "run_saves save_b hs r = Some (r', snd (spec_run X (opts_b r) hs (abstr_b r)))" "inv_b r'"
      "abstr_b r' = fst (spec_run X (opts_b r) hs (abstr_b r))"
    using a.run_saves_spec [OF inv(1) ok] b.run_saves_spec [OF inv(2) ok] start by auto
  then have same: "abstr_a s' = abstr_b r'" by simp
  have "lookup_a s' i = Some x \<longleftrightarrow> lookup_b r' i = Some x" for i x
    using a.lookup_law [OF s'(2)] b.lookup_law [OF r'(2)] same by simp
  then have "lookup_a s' i = lookup_b r' i" for i by (metis option.exhaust)
  moreover have "status_a s' i = status_b r' i" for i
    using a.status_law [OF s'(2)] b.status_law [OF r'(2)] same by simp
  ultimately show thesis using that [OF s'(1) r'(1) s'(2) r'(2) same] by blast
qed

end

section \<open>The two instances\<close>

definition redb_save :: "crates \<Rightarrow> postcard \<Rightarrow> event \<Rightarrow> timestamp \<Rightarrow> redb_store \<Rightarrow> (redb_store \<times> save_event_status) option" where
  "redb_save X P e now s =
     (case redb_save_event X P False e now s of (s', Inr st) \<Rightarrow> Some (s', st) | (s', Inl err) \<Rightarrow> None)"

definition redb_lookup :: "postcard \<Rightarrow> redb_store \<Rightarrow> event_id \<Rightarrow> event option" where
  "redb_lookup P s i = Option.bind (res_ok (redb_event_by_id P s i)) id"

lemma redb_invD:
  assumes "redb_inv X P s"
  shows "tables_ok X P (rs_tables s) (redb_live P (rs_tables s))"
  using assms by (simp add: redb_inv_def redb_rel_def redb_abs_def)

lemma redb_event_by_id_live:
  assumes env: "redb_env X P" and inv: "redb_inv X P s"
  shows "\<exists>r. redb_event_by_id P s i = Inr r \<and> (r = Some x \<longleftrightarrow> x \<in> redb_live P (rs_tables s) \<and> ev_id x = i)"
proof -
  note ok = redb_invD [OF inv]
  show ?thesis
  proof (cases "map_of (rt_events (rs_tables s)) i")
    case None
    then show ?thesis using events_None [OF ok, of i] by (auto simp: redb_event_by_id_def)
  next
    case (Some b)
    then obtain e where e: "e \<in> redb_live P (rs_tables s)" "ev_id e = i" "b = payload_of P e" by (rule events_Some [OF ok])
    then have "redb_event_by_id P s i = Inr (Some e)"
      using Some payload(2) [OF env tables_ok_wf [OF ok e(1)]] by (simp add: redb_event_by_id_def)
    moreover have "e = x \<longleftrightarrow> x \<in> redb_live P (rs_tables s) \<and> ev_id x = i"
      using e tables_ok_inj [OF ok] by (auto dest: inj_onD)
    ultimately show ?thesis by simp
  qed
qed

lemma redb_lookup_Inr:
  "redb_env X P \<Longrightarrow> redb_inv X P s \<Longrightarrow> redb_event_by_id P s i = Inr (redb_lookup P s i)"
  using redb_event_by_id_live [of X P s i undefined] by (auto simp: redb_lookup_def res_ok_def)

interpretation mem_redb: database_pair "save_event X" event_by_id check_id store_inv store_abs ms_options
  "redb_save X P" "redb_lookup P" redb_check_id "\<lambda>s. redb_env X P \<and> redb_inv X P s" "\<lambda>s. redb_abs P (rs_tables s)"
  "\<lambda>s. redb_spec_options (rs_options s)" "stored_wf X" X
  for X P
proof (unfold_locales, goal_cases)
  case (1 s e now)
  then show ?case using mem.save_law by blast
next
  case (2 s i x)
  then show ?case by (rule mem.lookup_law)
next
  case (3 s i)
  then have ids: "ids_idx s (live s)" by (simp add: store_inv_def idx_ok_def)
  show ?case using ids_idx_None [OF ids, of i] by (auto simp: check_id_def store_abs_def)
next
  case (4 s e now)
  then obtain s' st where "redb_save_event X P False e now s = (s', Inr st)" "redb_inv X P s'"
    "rs_options s' = rs_options s"
    "spec_save X (redb_spec_options (rs_options s)) e now (redb_abs P (rs_tables s)) = (redb_abs P (rs_tables s'), st)"
    by (blast elim: redb_save_refines)
  with 4 show ?case by (simp add: redb_save_def)
next
  case (5 s i x)
  then obtain r where "redb_event_by_id P s i = Inr r" "r = Some x \<longleftrightarrow> x \<in> redb_live P (rs_tables s) \<and> ev_id x = i"
    using redb_event_by_id_live [of X P s i x] by blast
  then show ?case by (simp add: redb_lookup_def res_ok_def redb_abs_def)
next
  case (6 s i)
  then have ok: "tables_ok X P (rs_tables s) (redb_live P (rs_tables s))" using redb_invD by blast
  show ?case using events_None [OF ok, of i] by (auto simp: redb_check_id_def redb_abs_def)
qed

section \<open>Result sets of the two backends\<close>

lemma events_by_key:
  assumes "inj_on key_from_event (set xs \<union> set ys)" and "sorted_wrt (<) (map key_from_event xs)"
    and "sorted_wrt (<) (map key_from_event ys)" and "set xs = set ys"
  shows "xs = ys"
proof -
  have "map key_from_event xs = map key_from_event ys"
    using assms(2-4) by (intro sorted_list_eq) simp_all
  then show ?thesis using assms(1) map_inj_on by blast
qed

lemma redb_database_query_live:
  assumes env: "redb_env X P" and inv: "redb_inv X P s" and wf: "filter_wf X f" and lim: "f_limit f = None"
  obtains E where "redb_database_query X P s f = Inr E" and "events_wf E"
    and "set (ev_inner E) = selected (redb_live P (rs_tables s)) f"
proof -
  note ok = redb_invD [OF inv]
  let ?m = "redb_matches P (rs_tables s) f"
  have set: "set ?m = selected (redb_live P (rs_tables s)) f" by (rule redb_matches_set [OF env ok wf])
  have q: "redb_database_query X P s f = Inr (events_from_unsorted ?m)"
    using redb_query_matches(1) [OF env ok, of f] lim by (simp add: redb_database_query_def take_limit_def)
  have "set (unseen {} ?m) = set ?m"
  proof (rule equalityI [OF unseen_subset])
    show "set ?m \<subseteq> set (unseen {} ?m)"
    proof
      fix x
      assume x: "x \<in> set ?m"
      then have "ev_id x \<in> ev_id ` set (unseen {} ?m)" by (simp add: unseen_ids)
      then obtain y where y: "y \<in> set (unseen {} ?m)" "ev_id x = ev_id y" by blast
      moreover have "y \<in> set ?m" using y(1) unseen_subset [of "{}" ?m] by blast
      ultimately have "x = y" using x set tables_ok_inj [OF ok] by (auto simp: selected_def dest: inj_onD)
      with y(1) show "x \<in> set (unseen {} ?m)" by simp
    qed
  qed
  then have "set (ev_inner (events_from_unsorted ?m)) = selected (redb_live P (rs_tables s)) f"
    by (simp add: events_from_unsorted_def set)
  with q from_unsorted_wf [of ?m] that show thesis by blast
qed

lemma memory_database_query_live:
  assumes inv: "store_inv s" and exact: "plan_exact (live s) f" and lim: "f_limit f = None"
  shows "events_wf (database_query s f)" and "set (ev_inner (database_query s f)) = selected (live s) f"
proof -
  have ok: "idx_ok s (live s)" using inv by (simp add: store_inv_def)
  then have ids: "ids_idx s (live s)" by (simp add: idx_ok_def)
  have keys: "map key_from_event (query_owned s f) = answer (live s) f"
    using query_owned_keys(1) [OF ok] query_keys_answer [OF ok exact] by simp
  then show "events_wf (database_query s f)"
    using answer_sorted by (simp add: events_wf_def database_query_def events_from_sorted_def)
  have "finite (key_from_event ` selected (live s) f)" using idx_ok_finite [OF ok] by (simp add: selected_def)
  then have "key_from_event ` set (query_owned s f) = key_from_event ` selected (live s) f"
    using keys lim by (metis answer_def list.set_map option.simps(4) set_sorted_list_of_set take_limit_def)
  moreover have "set (query_owned s f) \<subseteq> selected (live s) f" by (rule query_owned_keys(2) [OF ok])
  moreover have "inj_on key_from_event (selected (live s) f)"
    using key_inj [OF ids] by (auto simp: inj_on_def selected_def)
  ultimately have "set (query_owned s f) = selected (live s) f" by (metis inj_on_image_eq_iff order_refl)
  then show "set (ev_inner (database_query s f)) = selected (live s) f"
    by (simp add: database_query_def events_from_sorted_def)
qed

section \<open>A concrete codec\<close>

text \<open>Events stored as the bytes of their JSON; the partial decoders read the whole event.\<close>

definition sample_load :: "bytes \<Rightarrow> string + event" where
  "sample_load b =
     (case sample_reader (bytes_string b) of
        None \<Rightarrow> Inl ''text''
      | Some j \<Rightarrow> map_err (\<lambda>_. ''fields'') (event_deserialize sample_crates sample_sig_text j))"

definition sample_postcard :: postcard where
  "sample_postcard = \<lparr>
     pc_to_vec = (\<lambda>e. Inr (body_bytes (put_json (event_serialize sample_sig_text e)))),
     pc_from_bytes = sample_load,
     pc_take_times = (\<lambda>b. res_bind (sample_load b) (\<lambda>e.
       Inr (fmt_lower (ev_id e), fmt_lower (ev_pubkey e), ev_created_at e))),
     pc_take_match = (\<lambda>b. res_bind (sample_load b) (\<lambda>e.
       Inr (fmt_lower (ev_id e), fmt_lower (ev_pubkey e), ev_created_at e, ev_kind e, map tag_values (ev_tags e))))\<rparr>"

lemma sample_env_laws: "hex_laws sample_crates" "postcard_laws sample_crates sample_postcard"
proof -
  have "sample_load (body_bytes (put_json (event_serialize sample_sig_text e))) = Inr e" if wf: "stored_wf sample_crates e" for e
  proof -
    have "str_wf (sig_to_string sample_sig_text (ev_sig e))" by (simp add: sample_sig_text_def)
    then have "json_plain 127 (event_serialize sample_sig_text e)"
      using wf by (intro event_json_plain) (simp_all add: stored_wf_def tags_text_def)
    then have "sample_reader (put_json (event_serialize sample_sig_text e)) = Some (event_serialize sample_sig_text e)"
      using get_put_json [of 127 "event_serialize sample_sig_text e" "[]"] by (simp add: sample_reader_def)
    moreover have "event_deserialize sample_crates sample_sig_text (event_serialize sample_sig_text e) = Inr e"
      using wf by (intro event_round_trip_aux sample_hex_laws sample_sig_laws) (simp add: stored_wf_def)
    ultimately show ?thesis by (simp add: sample_load_def)
  qed
  then show "postcard_laws sample_crates sample_postcard" by (simp add: postcard_laws_def sample_postcard_def)
qed (rule sample_hex_laws)

definition sample_row :: "u8 \<Rightarrow> u8 \<Rightarrow> u64 \<Rightarrow> kind \<Rightarrow> tag list \<Rightarrow> event" where
  "sample_row i a t k ts = \<lparr>ev_id = replicate 32 i, ev_pubkey = replicate 32 a, ev_created_at = t, ev_kind = k,
     ev_tags = ts, ev_content = [], ev_sig = replicate 64 0\<rparr>"

lemma sample_row_wf [simp]: "stored_wf sample_crates (sample_row i a t k [])"
  by (simp add: stored_wf_def event_wf_def event_id_wf_def EVENT_ID_SIZE_def public_key_wf_def PUBLIC_KEY_SIZE_def
      sample_row_def sample_crates_def)

lemma plain_not_expired: "ev_tags e = [] \<Longrightarrow> is_expired e now \<noteq> Inr True"
  by (simp add: is_expired_def parse_expiration_def find_first_def)

text \<open>Saving a plain note whose id is new adds it.\<close>

lemma redb_save_note:
  assumes env: "redb_env sample_crates P" and inv: "redb_inv sample_crates P s"
    and fresh: "\<forall>x \<in> redb_live P (rs_tables s). ev_id x \<noteq> replicate 32 i" "sp_dead_ids (redb_abs P (rs_tables s)) = {}"
  obtains s' where "redb_save_event sample_crates P False (sample_row i a t 1 []) now s = (s', Inr Success)"
    and "redb_inv sample_crates P s'"
    and "redb_abs P (rs_tables s') = (redb_abs P (rs_tables s))
      \<lparr>sp_live := insert (sample_row i a t 1 []) (redb_live P (rs_tables s))\<rparr>"
proof -
  let ?e = "sample_row i a t 1 []" and ?A = "redb_abs P (rs_tables s)" and ?o = "redb_spec_options (rs_options s)"
  have k: "ev_kind ?e = 1" "ev_tags ?e = []" "ev_id ?e = replicate 32 i" by (simp_all add: sample_row_def)
  have kinds: "\<not> is_ephemeral 1" "(1 :: kind) \<noteq> EVENT_DELETION" "\<not> is_replaceable 1" "\<not> is_addressable 1"
    by code_simp+
  note exp = plain_not_expired [OF k(2)]
  have live: "sp_live ?A = redb_live P (rs_tables s)" "sp_vanished ?A = {}" by (simp_all add: redb_abs_def)
  have coord: "addressable_coord ?e = None" using k kinds by (simp add: addressable_coord_def)
  have slot: "\<not> same_slot ?e x" for x using k kinds by (simp add: same_slot_def)
  have "spec_refusal ?o ?A ?e now = None"
    using k kinds exp fresh live coord slot by (simp add: spec_refusal_def)
  moreover have "spec_accept sample_crates ?o ?e ?A = ?A\<lparr>sp_live := insert ?e (redb_live P (rs_tables s))\<rparr>"
    using k kinds slot live by (simp add: spec_accept_def spec_effects_def spec_cap_def Let_def redb_spec_options_def)
  ultimately have spec: "spec_save sample_crates ?o ?e now ?A = (?A\<lparr>sp_live := insert ?e (redb_live P (rs_tables s))\<rparr>, Success)"
    by (simp add: spec_save_def)
  obtain s' st where s': "redb_save_event sample_crates P False ?e now s = (s', Inr st)" "redb_inv sample_crates P s'"
    "spec_save sample_crates ?o ?e now ?A = (redb_abs P (rs_tables s'), st)"
    by (rule redb_save_refines [OF env inv sample_row_wf, of i a t 1 now])
  with spec that show thesis by simp
qed

lemma sample_redb_env: "redb_env sample_crates sample_postcard"
  using sample_env_laws by (simp add: redb_env_def)

text \<open>A store with two notes of one author.\<close>

lemma sample_two_notes:
  assumes "i \<noteq> j"
  obtains s where "redb_inv sample_crates sample_postcard s"
    and "sp_dead_ids (redb_abs sample_postcard (rs_tables s)) = {}"
    and "redb_live sample_postcard (rs_tables s) = {sample_row i 7 t 1 [], sample_row j 7 u 1 []}"
proof -
  let ?s = "redb_open redb_options_new"
  have new: "redb_inv sample_crates sample_postcard ?s" "redb_live sample_postcard (rs_tables ?s) = {}"
    "sp_dead_ids (redb_abs sample_postcard (rs_tables ?s)) = {}"
    using redb_inv_open [OF sample_redb_env] by (simp_all add: redb_open_def redb_abs_def)
  obtain s1 where s1: "redb_inv sample_crates sample_postcard s1"
    "redb_abs sample_postcard (rs_tables s1) = (redb_abs sample_postcard (rs_tables ?s))\<lparr>sp_live := {sample_row i 7 t 1 []}\<rparr>"
    by (rule redb_save_note [OF sample_redb_env new(1), where i = i and a = 7 and t = t and now = 0])
      (use new in simp_all)
  then have live: "redb_live sample_postcard (rs_tables s1) = {sample_row i 7 t 1 []}"
    "sp_dead_ids (redb_abs sample_postcard (rs_tables s1)) = {}"
    using new(3) by (simp_all add: redb_abs_def)
  have other: "ev_id (sample_row i 7 t 1 []) \<noteq> replicate 32 j" using assms by (simp add: sample_row_def)
  obtain s2 where "redb_inv sample_crates sample_postcard s2"
    "redb_abs sample_postcard (rs_tables s2) = (redb_abs sample_postcard (rs_tables s1))
       \<lparr>sp_live := {sample_row j 7 u 1 [], sample_row i 7 t 1 []}\<rparr>"
    by (rule redb_save_note [OF sample_redb_env s1(1), where i = j and a = 7 and t = u and now = 0])
      (use live other in simp_all)
  with that [of s2] live(2) show thesis by (simp add: redb_abs_def insert_commute)
qed

lemma descending_pair:
  fixes k :: "'a \<Rightarrow> 'b::linorder"
  assumes "sorted_wrt (\<lambda>x y. k y < k x) m" and "set m = {x, y}" and "k x < k y"
  shows "m = [y, x]"
proof -
  have "distinct m" using assms(1) by (induction m) auto
  then have "length m = 2" using assms(2,3) by (simp add: distinct_card [symmetric] card_insert_if) auto
  then obtain a b where "m = [a, b]" by (auto simp: length_Suc_conv numeral_2_eq_2)
  with assms show ?thesis by (auto simp: doubleton_eq_iff)
qed

section \<open>Theorems\<close>

text \<open>C5. Saving to redb refines the abstract store of the in-memory backend. On tables that represent a set of
  events, with an engine that does not fail, saving a well-formed event always succeeds in giving a status,
  leaves tables that represent a set of events again, and status and new contents are those of the
  specification with NIP-62 switched off and no capacity. Event ids, coordinates, deletions by id and by coordinate,
  replaceable and addressable conflicts are all covered, through the byte keys and the range scans.\<close>

theorem redb_save_refinement:
  assumes "hex_laws X" and "postcard_laws X P" and "redb_inv X P s" and "stored_wf X e"
  shows "\<exists>s' st. redb_save_event X P False e now s = (s', Inr st) \<and> redb_inv X P s' \<and> rs_options s' = rs_options s \<and>
    spec_save X \<lparr>max_events = None, process_nip09 = ro_process_nip09 (rs_options s), process_nip62 = False\<rparr> e now
      (redb_abs P (rs_tables s)) = (redb_abs P (rs_tables s'), st)"
  using redb_save_refines [of X P s e now] assms by (metis redb_env_def redb_spec_options_def)

theorem redb_save_refinement_witness:
  "\<exists>s st. redb_save_event sample_crates sample_postcard False (sample_row 1 7 100 1 []) 1000 (redb_open redb_options_new) =
      (s, Inr st) \<and> redb_inv sample_crates sample_postcard s"
  using redb_save_refinement [OF sample_env_laws redb_inv_open(1) [OF sample_redb_env] sample_row_wf,
      of 1 7 100 1 1000 redb_options_new] by auto

text \<open>C6. The two backends agree. Start an in-memory store without capacity and a fresh redb file with the same
  treatment of NIP-09, NIP-62 off in memory, and give both the same well-formed events at the same times. Every save then
  gets the same status, and afterwards every lookup of an id, every status of an id and every query
  without limit (where the in-memory plan is exact) gives the same answer, in the same order.\<close>

theorem redb_matches_memory:
  assumes "hex_laws X" and "postcard_laws X P" and "list_all (\<lambda>h. stored_wf X (fst h)) hs"
  shows "\<exists>m r sts.
    run_saves (save_event X) hs (store_new \<lparr>max_events = None, process_nip09 = d, process_nip62 = False\<rparr>) = Some (m, sts) \<and>
    run_saves (redb_save X P) hs (redb_open \<lparr>ro_process_nip09 = d, ro_process_nip62 = v\<rparr>) = Some (r, sts) \<and>
    (\<forall>i. redb_event_by_id P r i = Inr (event_by_id m i) \<and> redb_check_id r i = check_id m i) \<and>
    (\<forall>f. filter_wf X f \<and> f_limit f = None \<and> plan_exact (live m) f \<longrightarrow>
       redb_database_query X P r f = Inr (database_query m f))"
proof -
  let ?m = "store_new \<lparr>max_events = None, process_nip09 = d, process_nip62 = False\<rparr>"
  let ?r = "redb_open \<lparr>ro_process_nip09 = d, ro_process_nip62 = v\<rparr>"
  have env: "redb_env X P" using assms by (simp add: redb_env_def)
  have start: "ms_options ?m = redb_spec_options (rs_options ?r)" "store_abs ?m = redb_abs P (rs_tables ?r)"
    using redb_inv_open(2) [OF env]
    by (simp_all add: store_new_def redb_open_def redb_spec_options_def store_abs_def live_def)
  obtain m r sts where runs: "run_saves (save_event X) hs ?m = Some (m, sts)" "run_saves (redb_save X P) hs ?r = Some (r, sts)"
      and inv: "store_inv m" "redb_inv X P r" and abs: "store_abs m = redb_abs P (rs_tables r)"
      and same: "\<And>i. event_by_id m i = redb_lookup P r i \<and> check_id m i = redb_check_id r i"
    by (rule mem_redb.same_answers [where X = X and P = P, OF store_inv_empty [OF idx_ok_new] conjI
            [OF env redb_inv_open(1) [OF env]] start assms(3)])
      (auto simp: store_new_def)
  have live: "live m = redb_live P (rs_tables r)" using abs by (simp add: store_abs_def redb_abs_def)
  have "redb_database_query X P r f = Inr (database_query m f)"
    if f: "filter_wf X f" "f_limit f = None" "plan_exact (live m) f" for f
  proof -
    obtain E where E: "redb_database_query X P r f = Inr E" "events_wf E" "set (ev_inner E) = selected (live m) f"
      using redb_database_query_live [OF env inv(2) f(1,2)] unfolding live by blast
    note M = memory_database_query_live [OF inv(1) f(3,2)]
    have "ids_idx m (live m)" using inv(1) by (simp add: store_inv_def idx_ok_def)
    then have "inj_on key_from_event (selected (live m) f)"
      using key_inj by (auto simp: inj_on_def selected_def)
    then have "ev_inner E = ev_inner (database_query m f)"
      using E(2,3) M by (intro events_by_key) (simp_all add: events_wf_def)
    then have "E = database_query m f" by simp
    with E(1) show ?thesis by simp
  qed
  moreover have "redb_event_by_id P r i = Inr (event_by_id m i) \<and> redb_check_id r i = check_id m i" for i
    using same [of i] redb_lookup_Inr [OF env inv(2), of i] by simp
  ultimately show ?thesis using runs by blast
qed

theorem redb_matches_memory_witness:
  "\<exists>m r. run_saves (save_event sample_crates) [(sample_row 1 7 100 0 [], 500), (sample_row 2 7 110 0 [], 501)]
      (store_new \<lparr>max_events = None, process_nip09 = True, process_nip62 = False\<rparr>) = Some (m, [Success, Success]) \<and>
    run_saves (redb_save sample_crates sample_postcard) [(sample_row 1 7 100 0 [], 500), (sample_row 2 7 110 0 [], 501)]
      (redb_open redb_options_new) = Some (r, [Success, Success]) \<and>
    redb_event_by_id sample_postcard r (replicate 32 1) = Inr None"
proof -
  let ?hs = "[(sample_row 1 7 100 0 [], 500), (sample_row 2 7 110 0 [], 501)]"
  let ?m = "store_new \<lparr>max_events = None, process_nip09 = True, process_nip62 = False\<rparr>"
  have run: "map_option (\<lambda>p. (event_by_id (fst p) (replicate 32 1), snd p)) (run_saves (save_event sample_crates) ?hs ?m) =
      Some (None, [Success, Success])"
    by code_simp
  obtain m r sts where
    "run_saves (save_event sample_crates) ?hs ?m = Some (m, sts)"
    "run_saves (redb_save sample_crates sample_postcard) ?hs (redb_open \<lparr>ro_process_nip09 = True, ro_process_nip62 = True\<rparr>) = Some (r, sts)"
    "\<forall>i. redb_event_by_id sample_postcard r i = Inr (event_by_id m i)"
    using redb_matches_memory [OF sample_env_laws, of ?hs True True] by auto
  with run show ?thesis by (auto simp: redb_options_new_def)
qed

text \<open>C7. A redb query whose filter lists no ids returns the matching events latest first, and cuts at the limit: there is a
  list of all stored events the filter selects, strictly descending by creation time and, at equal times, by id, and the query
  returns its first \<open>limit\<close> elements. The count is the length of that answer and the reconciliation items are its
  ids and times. This holds for all three index plans, so their range scans miss and add nothing.\<close>

theorem redb_query_latest:
  assumes "hex_laws X" and "postcard_laws X P" and "redb_inv X P s" and "filter_wf X f" and "get_or_empty (f_ids f) = []"
  shows "\<exists>es. set es = {e \<in> redb_live P (rs_tables s). filter_selects f e} \<and>
    sorted_wrt (\<lambda>x y. ev_created_at y < ev_created_at x \<or> ev_created_at y = ev_created_at x \<and> ev_id y < ev_id x) es \<and>
    redb_query X P s f = Inr (take_limit (f_limit f) es) \<and>
    redb_count X P s f = Inr (length (take_limit (f_limit f) es)) \<and>
    redb_negentropy_items X P s f = Inr (map (\<lambda>e. (ev_id e, ev_created_at e)) (take_limit (f_limit f) es))"
proof -
  have env: "redb_env X P" using assms by (simp add: redb_env_def)
  note ok = redb_invD [OF assms(3)]
  show ?thesis
    using redb_query_matches [OF env ok, of f] redb_matches_scan [OF env ok assms(4,5)]
    by (intro exI [of _ "redb_matches P (rs_tables s) f"]) (simp add: selected_def time_key_less)
qed

theorem redb_query_latest_witness:
  "\<exists>s. redb_query sample_crates sample_postcard s (filter_new\<lparr>f_authors := Some [replicate 32 7], f_limit := Some 1\<rparr>) =
     Inr [sample_row 2 7 110 1 []]"
proof -
  let ?x = "sample_row 1 7 100 1 []" and ?y = "sample_row 2 7 110 1 []"
  let ?f = "filter_new\<lparr>f_authors := Some [replicate 32 7], f_limit := Some 1\<rparr>"
  obtain s where s: "redb_inv sample_crates sample_postcard s" "redb_live sample_postcard (rs_tables s) = {?x, ?y}"
    by (rule sample_two_notes [of 1 2 100 110]) simp_all
  have wf: "filter_wf sample_crates ?f" "get_or_empty (f_ids ?f) = []"
    by (simp_all add: filter_wf_def filter_new_def get_or_empty_def public_key_wf_def PUBLIC_KEY_SIZE_def sample_crates_def)
  obtain es where es: "set es = {e \<in> {?x, ?y}. filter_selects ?f e}"
      "sorted_wrt (\<lambda>x y. ev_created_at y < ev_created_at x \<or> ev_created_at y = ev_created_at x \<and> ev_id y < ev_id x) es"
      "redb_query sample_crates sample_postcard s ?f = Inr (take_limit (f_limit ?f) es)"
    using redb_query_latest [OF sample_env_laws s(1) wf] s(2) by auto
  have sel: "filter_selects ?f ?x" "filter_selects ?f ?y"
    by (simp_all add: filter_selects_def filter_new_def sample_row_def)
  have time: "ev_created_at ?x = 100" "ev_created_at ?y = 110" by (simp_all add: sample_row_def)
  obtain e es' where c: "es = e # es'" using es(1) sel by (cases es) auto
  have "e = ?y"
  proof (rule ccontr)
    assume "e \<noteq> ?y"
    then have "e = ?x" "?y \<in> set es'" using es(1) sel c by auto
    with es(2) c time show False by auto
  qed
  with es(3) c show ?thesis by (auto simp: take_limit_def filter_new_def)
qed

text \<open>The limit of a redb query does not always keep the newest events, although the candidates are documented as newest
  first and result sets are ordered by time and then by ascending id. When the filter lists ids, the limit keeps the
  event listed first, whatever its time; and of two events of the same time an unrestricted query with limit one
  returns the one with the greater id, which result sets order second.\<close>

theorem redb_limit_order:
  assumes "hex_laws X" and "postcard_laws X P" and "redb_inv X P s"
    and "x \<in> redb_live P (rs_tables s)" and "y \<in> redb_live P (rs_tables s)"
  shows "redb_query X P s (filter_new\<lparr>f_ids := Some [ev_id x, ev_id y], f_limit := Some 1\<rparr>) = Inr [x] \<and>
    (redb_live P (rs_tables s) = {x, y} \<and> ev_created_at x = ev_created_at y \<and> ev_id x < ev_id y \<longrightarrow>
      key_from_event x < key_from_event y \<and> redb_query X P s (filter_new\<lparr>f_limit := Some 1\<rparr>) = Inr [y])"
proof (intro conjI impI)
  have env: "redb_env X P" using assms by (simp add: redb_env_def)
  note ok = redb_invD [OF assms(3)]
  let ?f = "filter_new\<lparr>f_ids := Some [ev_id x, ev_id y], f_limit := Some 1\<rparr>"
  have "redb_matches P (rs_tables s) ?f = [x, y]"
    using redb_events_stored [OF env ok assms(4)] redb_events_stored [OF env ok assms(5)]
      redb_matches_ids [of ?f "ev_id x" "[ev_id y]" P "rs_tables s"]
    by (simp add: filter_selects_def filter_new_def)
  then show "redb_query X P s ?f = Inr [x]"
    using redb_query_matches(1) [OF env ok, of ?f] by (simp add: take_limit_def)
  assume two: "redb_live P (rs_tables s) = {x, y} \<and> ev_created_at x = ev_created_at y \<and> ev_id x < ev_id y"
  then show "key_from_event x < key_from_event y" by (simp add: less_event_key_def)
  let ?g = "filter_new\<lparr>f_limit := Some 1\<rparr>"
  let ?m = "redb_matches P (rs_tables s) ?g"
  have wf: "filter_wf X ?g" "get_or_empty (f_ids ?g) = []" by (simp_all add: filter_wf_def filter_new_def get_or_empty_def)
  have sel: "selected {x, y} ?g = {x, y}" by (auto simp: selected_def filter_selects_def filter_new_def)
  have m: "set ?m = {x, y}" "sorted_wrt (\<lambda>x y. time_key y < time_key x) ?m"
    using redb_matches_scan [OF env ok wf] sel two by simp_all
  have "time_key x < time_key y" using two by (simp add: time_key_less)
  then have "?m = [y, x]" by (rule descending_pair [OF m(2,1)])
  then show "redb_query X P s ?g = Inr [y]"
    using redb_query_matches(1) [OF env ok, of ?g] by (simp add: take_limit_def)
qed

theorem redb_limit_order_witness:
  "\<exists>s. redb_query sample_crates sample_postcard s
     (filter_new\<lparr>f_ids := Some [replicate 32 1, replicate 32 2], f_limit := Some 1\<rparr>) = Inr [sample_row 1 7 100 1 []] \<and>
   sample_row 2 7 110 1 [] \<in> redb_live sample_postcard (rs_tables s)"
proof -
  obtain s where s: "redb_inv sample_crates sample_postcard s"
    "redb_live sample_postcard (rs_tables s) = {sample_row 1 7 100 1 [], sample_row 2 7 110 1 []}"
    by (rule sample_two_notes [of 1 2 100 110]) simp_all
  have "ev_id (sample_row 1 7 100 1 []) = replicate 32 1" "ev_id (sample_row 2 7 110 1 []) = replicate 32 2"
    by (simp_all add: sample_row_def)
  with redb_limit_order [OF sample_env_laws s(1), of "sample_row 1 7 100 1 []" "sample_row 2 7 110 1 []"] s(2)
  show ?thesis by (intro exI [of _ s]) (simp only: insertI1 insertI2)
qed

text \<open>The redb backend does not process requests to vanish: whatever its option \<open>process_nip62\<close> says,
  an accepted request of kind 62 is stored and every other event, those of its author included, stays.\<close>

theorem redb_vanish_ignored:
  assumes "hex_laws X" and "postcard_laws X P" and "redb_inv X P s" and "stored_wf X e"
    and "ev_kind e = REQUEST_TO_VANISH" and "redb_save_event X P fault e now s = (s', Inr Success)"
  shows "redb_live P (rs_tables s') = insert e (redb_live P (rs_tables s))"
proof -
  have env: "redb_env X P" using assms by (simp add: redb_env_def)
  have nf: "\<not> fault" using assms(6) by (auto simp: redb_save_event_def split: if_splits)
  obtain s1 st where s1: "redb_save_event X P False e now s = (s1, Inr st)"
    "spec_save X (redb_spec_options (rs_options s)) e now (redb_abs P (rs_tables s)) = (redb_abs P (rs_tables s1), st)"
    by (rule redb_save_refines [OF env assms(3,4), of now])
  then have "spec_accept X (redb_spec_options (rs_options s)) e (redb_abs P (rs_tables s)) = redb_abs P (rs_tables s')"
    using assms(6) nf by (auto simp: spec_save_def split: option.splits)
  moreover have "\<not> is_replaceable REQUEST_TO_VANISH" "\<not> is_addressable REQUEST_TO_VANISH" "REQUEST_TO_VANISH \<noteq> EVENT_DELETION"
    by code_simp+
  then have "sp_live (spec_accept X (redb_spec_options (rs_options s)) e (redb_abs P (rs_tables s))) =
      insert e (sp_live (redb_abs P (rs_tables s)))"
    using assms(5) by (simp add: spec_accept_def spec_effects_def redb_spec_options_def spec_cap_def same_slot_def Let_def)
  ultimately show ?thesis by (simp add: redb_abs_def)
qed

theorem redb_vanish_ignored_witness:
  "\<exists>s s'. redb_live sample_postcard (rs_tables s) = {sample_row 1 7 100 1 [], sample_row 2 7 110 1 []} \<and>
     redb_save_event sample_crates sample_postcard False (sample_row 3 7 200 62 []) 1000 s = (s', Inr Success) \<and>
     sample_row 1 7 100 1 [] \<in> redb_live sample_postcard (rs_tables s')"
proof -
  let ?e = "sample_row 3 7 200 62 []"
  obtain s where s: "redb_inv sample_crates sample_postcard s" "sp_dead_ids (redb_abs sample_postcard (rs_tables s)) = {}"
    "redb_live sample_postcard (rs_tables s) = {sample_row 1 7 100 1 [], sample_row 2 7 110 1 []}"
    by (rule sample_two_notes [of 1 2 100 110]) simp_all
  have k: "ev_kind ?e = REQUEST_TO_VANISH" "ev_id ?e = replicate 32 3" "ev_tags ?e = []"
    by (simp_all add: sample_row_def REQUEST_TO_VANISH_def)
  have kinds: "\<not> is_ephemeral REQUEST_TO_VANISH" "\<not> is_replaceable REQUEST_TO_VANISH" "\<not> is_addressable REQUEST_TO_VANISH"
    by code_simp+
  have "spec_refusal (redb_spec_options (rs_options s)) (redb_abs sample_postcard (rs_tables s)) ?e 1000 = None"
    using s(2,3) k kinds plain_not_expired [OF k(3)]
    by (auto simp: spec_refusal_def redb_abs_def redb_spec_options_def same_slot_def addressable_coord_def sample_row_def)
  then obtain s' where s': "redb_save_event sample_crates sample_postcard False ?e 1000 s = (s', Inr Success)"
    using redb_save_refines [OF sample_redb_env s(1) sample_row_wf, of 3 7 200 62 1000]
    by (auto simp: spec_save_def)
  with redb_vanish_ignored [OF sample_env_laws s(1) sample_row_wf k(1) s'] s(3) show ?thesis by auto
qed

text \<open>Deleting by filter removes every stored event the filter selects and no other, keeps the tables consistent and the
  tombstones as they are. The limit of the filter plays no role here, while the in-memory store deletes
  only as many events as the limit says.\<close>

theorem redb_delete_exact:
  assumes "hex_laws X" and "postcard_laws X P" and "redb_inv X P s" and "filter_wf X f"
  shows "\<exists>s'. redb_delete_matching X P False f s = (s', Inr ()) \<and> redb_inv X P s' \<and>
    redb_live P (rs_tables s') = {e \<in> redb_live P (rs_tables s). \<not> filter_selects f e} \<and>
    sp_dead_ids (redb_abs P (rs_tables s')) = sp_dead_ids (redb_abs P (rs_tables s)) \<and>
    sp_dead_coords (redb_abs P (rs_tables s')) = sp_dead_coords (redb_abs P (rs_tables s))"
proof -
  have env: "redb_env X P" using assms by (simp add: redb_env_def)
  obtain s' where "redb_delete_matching X P False f s = (s', Inr ())" "redb_inv X P s'"
    and abs: "redb_abs P (rs_tables s') = (redb_abs P (rs_tables s))
      \<lparr>sp_live := {x \<in> redb_live P (rs_tables s). \<not> filter_selects f x}\<rparr>"
    by (rule redb_delete_matching_refines [OF env assms(3,4)])
  moreover from abs have "redb_live P (rs_tables s') = {x \<in> redb_live P (rs_tables s). \<not> filter_selects f x}"
    by (simp add: redb_abs_def)
  ultimately show ?thesis by auto
qed

theorem redb_delete_exact_witness:
  "\<exists>s s'. redb_live sample_postcard (rs_tables s) = {sample_row 1 7 100 1 [], sample_row 2 7 110 1 []} \<and>
     redb_delete_matching sample_crates sample_postcard False
       (filter_new\<lparr>f_authors := Some [replicate 32 7], f_limit := Some 1\<rparr>) s = (s', Inr ()) \<and>
     redb_live sample_postcard (rs_tables s') = {}"
proof -
  let ?x = "sample_row 1 7 100 1 []" and ?y = "sample_row 2 7 110 1 []"
  let ?f = "filter_new\<lparr>f_authors := Some [replicate 32 7], f_limit := Some 1\<rparr>"
  obtain s where s: "redb_inv sample_crates sample_postcard s" "redb_live sample_postcard (rs_tables s) = {?x, ?y}"
    by (rule sample_two_notes [of 1 2 100 110]) simp_all
  have wf: "filter_wf sample_crates ?f"
    by (simp add: filter_wf_def filter_new_def public_key_wf_def PUBLIC_KEY_SIZE_def sample_crates_def)
  have "filter_selects ?f ?x" "filter_selects ?f ?y"
    by (simp_all add: filter_selects_def filter_new_def sample_row_def)
  then have "{e \<in> {?x, ?y}. \<not> filter_selects ?f e} = {}" by blast
  with redb_delete_exact [OF sample_env_laws s(1) wf] s(2) show ?thesis by auto
qed

end
