(* ===== verification/Client_Actor.thy ===== *)
theory Client_Actor
  imports Relay_Connection
begin

text \<open>
  The relay client (nula-relay: inner/, options.rs, limits.rs, policy.rs, status.rs, stats.rs, subscription.rs, relay.rs). The task that owns
  the socket is the record \<open>actor\<close>; one turn of its \<open>select!\<close> loop is \<open>actor_step\<close>, on the wakeup that was ready. The
  channels to the callers are logs: \<open>ac_answers\<close> is what was sent on the reply slots of commands, named by numbers, \<open>ac_dropped\<close> the
  slots that were dropped without an answer (the caller then sees \<open>Error::Shutdown\<close>, relay.rs), \<open>ac_items\<close> what
  went to the streams of subscriptions, \<open>ac_notes\<close> the notifications. Durations and instants are nanoseconds, and
  adding them does not overflow. What the
  transport, the clocks and the entropy source return is the environment of a wakeup. The sink holds messages; \<open>encode_client\<close>
  is the text that goes out for one. The crate is taken with its \<open>nip42\<close> feature.
\<close>

section \<open>Options, policy, status\<close>

datatype relay_status = Initialized | Connecting | Connected | Disconnected | Terminated

definition status_is_connected :: "relay_status \<Rightarrow> bool" where
  "status_is_connected s = (s = Connected)"

definition status_is_terminated :: "relay_status \<Rightarrow> bool" where
  "status_is_terminated s = (s = Terminated)"

datatype reconnect_policy = PolicyNever | PolicyConstant nat | PolicyExponential nat nat

definition policy_default :: reconnect_policy where
  "policy_default = PolicyExponential 500000000 60000000000"

text \<open>\<open>u128\<close> arithmetic saturates; the remainder is at most a \<open>u64\<close>.\<close>

definition full_jitter :: "nat \<Rightarrow> nat \<Rightarrow> 32 word \<Rightarrow> u64 \<Rightarrow> nat" where
  "full_jitter base cap attempts rand =
     (let shift = min (unat attempts) 32;
          ex = min (base * 2 ^ shift) (2 ^ 128 - 1);
          upper = min ex cap
      in if upper = 0 then 0 else min (unat rand mod upper) (2 ^ 64 - 1))"

definition next_delay :: "reconnect_policy \<Rightarrow> 32 word \<Rightarrow> u64 \<Rightarrow> nat option" where
  "next_delay p attempts rand =
     (case p of
        PolicyNever \<Rightarrow> None
      | PolicyConstant d \<Rightarrow> Some d
      | PolicyExponential base cap \<Rightarrow> Some (full_jitter base cap attempts rand))"

record client_limits =
  cl_max_message_bytes :: nat
  cl_max_subscriptions :: nat
  cl_max_pending_publishes :: nat

definition client_limits_default :: client_limits where
  "client_limits_default = \<lparr>cl_max_message_bytes = 5 * 1024 * 1024, cl_max_subscriptions = 512,
     cl_max_pending_publishes = 1024\<rparr>"

definition with_max_message_bytes :: "nat \<Rightarrow> client_limits \<Rightarrow> client_limits" where
  "with_max_message_bytes n l = l\<lparr>cl_max_message_bytes := n\<rparr>"

definition with_max_subscriptions :: "nat \<Rightarrow> client_limits \<Rightarrow> client_limits" where
  "with_max_subscriptions n l = l\<lparr>cl_max_subscriptions := n\<rparr>"

definition with_max_pending_publishes :: "nat \<Rightarrow> client_limits \<Rightarrow> client_limits" where
  "with_max_pending_publishes n l = l\<lparr>cl_max_pending_publishes := n\<rparr>"

text \<open>The connection mode, which only the transport reads, is left out.\<close>

record client_options =
  co_reconnect_policy :: reconnect_policy
  co_connect_timeout :: nat
  co_publish_timeout :: nat
  co_limits :: client_limits

definition client_options_default :: client_options where
  "client_options_default = \<lparr>co_reconnect_policy = policy_default, co_connect_timeout = 30000000000,
     co_publish_timeout = 60000000000, co_limits = client_limits_default\<rparr>"

definition with_reconnect_policy :: "reconnect_policy \<Rightarrow> client_options \<Rightarrow> client_options" where
  "with_reconnect_policy p Q = Q\<lparr>co_reconnect_policy := p\<rparr>"

definition with_connect_timeout :: "nat \<Rightarrow> client_options \<Rightarrow> client_options" where
  "with_connect_timeout d Q = Q\<lparr>co_connect_timeout := d\<rparr>"

definition with_publish_timeout :: "nat \<Rightarrow> client_options \<Rightarrow> client_options" where
  "with_publish_timeout d Q = Q\<lparr>co_publish_timeout := d\<rparr>"

definition with_limits :: "client_limits \<Rightarrow> client_options \<Rightarrow> client_options" where
  "with_limits l Q = Q\<lparr>co_limits := l\<rparr>"

record subscribe_options =
  so_close_on_eose :: bool

definition subscribe_options_new :: subscribe_options where
  "subscribe_options_new = \<lparr>so_close_on_eose = False\<rparr>"

definition with_close_on_eose :: "bool \<Rightarrow> subscribe_options \<Rightarrow> subscribe_options" where
  "with_close_on_eose b opts = opts\<lparr>so_close_on_eose := b\<rparr>"

record publish_options =
  po_timeout :: "nat option"

definition publish_options_new :: publish_options where
  "publish_options_new = \<lparr>po_timeout = None\<rparr>"

definition with_timeout :: "nat \<Rightarrow> publish_options \<Rightarrow> publish_options" where
  "with_timeout d opts = opts\<lparr>po_timeout := Some d\<rparr>"

datatype client_error =
    CeTransport
  | CeMalformedRelayMessage
  | CeSerializeClientMessage
  | CeJson
  | CePublishRejected event_id string
  | CePublishTimeout event_id nat
  | CeSubscriptionClosed subscription_id string
  | CeShutdown
  | CeConnectTimeout nat
  | CeNotConnected
  | CeTooManySubscriptions nat
  | CeTooManyPendingPublishes nat
  | CeDuplicateSubscription subscription_id
  | CeMissingTransport

datatype relay_notification = NoteStatus relay_status | NoteNotice string | NoteAuthChallenge string | NoteShutdown

datatype subscription_item =
    ItemEvent event
  | ItemEndOfStoredEvents
  | ItemClosed string
  | ItemNegMsg string
  | ItemNegErr string

record close_frame =
  cf_code :: "16 word"
  cf_reason :: string

datatype ws_message = MsgText string | MsgBinary bytes | MsgPing bytes | MsgPong bytes | MsgClose "close_frame option"

definition is_data :: "ws_message \<Rightarrow> bool" where
  "is_data m = (case m of MsgText _ \<Rightarrow> True | MsgBinary _ \<Rightarrow> True | _ \<Rightarrow> False)"

definition is_control :: "ws_message \<Rightarrow> bool" where
  "is_control m = (case m of MsgPing _ \<Rightarrow> True | MsgPong _ \<Rightarrow> True | MsgClose _ \<Rightarrow> True | _ \<Rightarrow> False)"

section \<open>State\<close>

type_synonym reply = nat
type_synonym item_channel = nat

record subscription_entry =
  se_filters :: "nostr_filter list"
  se_options :: subscribe_options
  se_sink :: item_channel
  se_skip_reissue :: bool

record pending_publish =
  pp_reply :: reply
  pp_deadline :: nat
  pp_timeout :: nat

record client_sink =
  ck_sent :: "client_message list"
  ck_left :: "nat option"

record client_stats =
  cs_connect_attempts :: u64
  cs_connect_successes :: u64
  cs_bytes_sent :: u64
  cs_bytes_received :: u64
  cs_events_published :: u64
  cs_events_received :: u64
  cs_last_handshake_nanos :: u64

definition last_handshake :: "client_stats \<Rightarrow> nat option" where
  "last_handshake s = (if cs_last_handshake_nanos s = 0 then None else Some (unat (cs_last_handshake_nanos s)))"

record actor =
  ac_status :: relay_status
  ac_stats :: client_stats
  ac_sink :: "client_sink option"
  ac_stream :: bool
  ac_subscriptions :: "(subscription_id, subscription_entry) hash_map"
  ac_pending_publishes :: "(event_id, pending_publish) hash_map"
  ac_reconnect_attempts :: "32 word"
  ac_reconnect_deadline :: "nat option"
  ac_running :: bool
  ac_notes :: "relay_notification list"
  ac_answers :: "(reply \<times> (client_error + unit)) list"
  ac_dropped :: "reply list"
  ac_items :: "(item_channel \<times> subscription_item) list"

definition actor_new :: actor where
  "actor_new = \<lparr>ac_status = Initialized,
     ac_stats = \<lparr>cs_connect_attempts = 0, cs_connect_successes = 0, cs_bytes_sent = 0, cs_bytes_received = 0,
       cs_events_published = 0, cs_events_received = 0, cs_last_handshake_nanos = 0\<rparr>,
     ac_sink = None, ac_stream = False, ac_subscriptions = [], ac_pending_publishes = [], ac_reconnect_attempts = 0,
     ac_reconnect_deadline = None, ac_running = True, ac_notes = [], ac_answers = [], ac_dropped = [], ac_items = []\<rparr>"

text \<open>What the transport answers to a connect: a socket whose sink accepts that many sends, an error, or nothing in time.\<close>

datatype connect_result = ConnectOk "nat option" | ConnectErr | ConnectTimedOut

record wake_env =
  we_connect :: connect_result
  we_elapsed :: nat
  we_now :: nat
  we_sweep :: nat
  we_rand :: u64

datatype actor_command =
    CmdConnect reply
  | CmdDisconnect reply
  | CmdSubscribe subscription_id "nostr_filter list" subscribe_options item_channel reply
  | CmdSubscribeNeg subscription_id nostr_filter string item_channel reply
  | CmdPublish event publish_options reply
  | CmdAuthenticate event reply
  | CmdSendMsg client_message reply
  | CmdShutdown

datatype frame_outcome = FrameContinue | FrameDisconnected

datatype wakeup =
    WakeCommand "actor_command option"
  | WakeDrop subscription_id
  | WakeFrame "(client_error + ws_message) option"
  | WakeReconnect
  | WakePublishTimeout

section \<open>Sending\<close>

definition encode_client :: "crates \<Rightarrow> sig_text \<Rightarrow> client_message \<Rightarrow> string" where
  "encode_client X Y m = json_to_string X (client_serialize X Y m)"

definition client_send :: "client_message \<Rightarrow> client_sink \<Rightarrow> client_sink \<times> (client_error + unit)" where
  "client_send m k =
     (case ck_left k of
        None \<Rightarrow> (k\<lparr>ck_sent := ck_sent k @ [m]\<rparr>, Inr ())
      | Some 0 \<Rightarrow> (k, Inl CeTransport)
      | Some (Suc n) \<Rightarrow> (k\<lparr>ck_sent := ck_sent k @ [m], ck_left := Some n\<rparr>, Inr ()))"

definition send_req :: "subscription_id \<Rightarrow> nostr_filter list \<Rightarrow> client_sink \<Rightarrow> client_sink \<times> (client_error + unit)" where
  "send_req i fs k = client_send (CReq i fs) k"

definition send_close :: "subscription_id \<Rightarrow> client_sink \<Rightarrow> client_sink \<times> (client_error + unit)" where
  "send_close i k = client_send (CClose i) k"

definition send_event :: "event \<Rightarrow> client_sink \<Rightarrow> client_sink \<times> (client_error + unit)" where
  "send_event e k = client_send (CEvent e) k"

definition send_auth :: "event \<Rightarrow> client_sink \<Rightarrow> client_sink \<times> (client_error + unit)" where
  "send_auth e k = client_send (CAuth e) k"

text \<open>Sending on the live socket, when there is one.\<close>

definition on_sink ::
  "(client_sink \<Rightarrow> client_sink \<times> (client_error + unit)) \<Rightarrow> actor \<Rightarrow> actor \<times> (client_error + unit) option" where
  "on_sink snd_fn a =
     (case ac_sink a of
        None \<Rightarrow> (a, None)
      | Some k \<Rightarrow> (let r = snd_fn k in (a\<lparr>ac_sink := Some (fst r)\<rparr>, Some (snd r))))"

definition answer_slot :: "reply \<Rightarrow> client_error + unit \<Rightarrow> actor \<Rightarrow> actor" where
  "answer_slot slot r a = a\<lparr>ac_answers := ac_answers a @ [(slot, r)]\<rparr>"

definition drop_slot :: "reply \<Rightarrow> actor \<Rightarrow> actor" where
  "drop_slot slot a = a\<lparr>ac_dropped := ac_dropped a @ [slot]\<rparr>"

definition give_item :: "item_channel \<Rightarrow> subscription_item \<Rightarrow> actor \<Rightarrow> actor" where
  "give_item ch it a = a\<lparr>ac_items := ac_items a @ [(ch, it)]\<rparr>"

definition notify :: "relay_notification \<Rightarrow> actor \<Rightarrow> actor" where
  "notify n a = a\<lparr>ac_notes := ac_notes a @ [n]\<rparr>"

definition set_status :: "relay_status \<Rightarrow> actor \<Rightarrow> actor" where
  "set_status new a =
     (if ac_status a = new then a else notify (NoteStatus new) (a\<lparr>ac_status := new\<rparr>))"

definition is_connected :: "actor \<Rightarrow> bool" where
  "is_connected a \<longleftrightarrow> ac_sink a \<noteq> None \<and> ac_stream a"

definition drop_socket :: "actor \<Rightarrow> actor" where
  "drop_socket a = a\<lparr>ac_sink := None, ac_stream := False\<rparr>"

definition earliest_publish_deadline :: "actor \<Rightarrow> nat option" where
  "earliest_publish_deadline a =
     (case map (\<lambda>e. pp_deadline (snd e)) (ac_pending_publishes a) of
        [] \<Rightarrow> None | d # ds \<Rightarrow> Some (foldl min d ds))"

section \<open>Connecting\<close>

definition perform_connect :: "client_options \<Rightarrow> wake_env \<Rightarrow> actor \<Rightarrow> actor \<times> (client_error + unit)" where
  "perform_connect Q v a =
     (let a1 = set_status Connecting a;
          a2 = a1\<lparr>ac_stats := (ac_stats a1)\<lparr>cs_connect_attempts := cs_connect_attempts (ac_stats a1) + 1\<rparr>\<rparr>
      in case we_connect v of
           ConnectErr \<Rightarrow> (set_status Disconnected a2, Inl CeTransport)
         | ConnectTimedOut \<Rightarrow> (set_status Disconnected a2, Inl (CeConnectTimeout (co_connect_timeout Q)))
         | ConnectOk room \<Rightarrow>
             let nanos = (if we_elapsed v < 2 ^ 64 then of_nat (we_elapsed v) else - 1)
             in (set_status Connected (a2\<lparr>
                   ac_stats := (ac_stats a2)\<lparr>cs_last_handshake_nanos := nanos,
                     cs_connect_successes := cs_connect_successes (ac_stats a2) + 1\<rparr>,
                   ac_sink := Some \<lparr>ck_sent = [], ck_left = room\<rparr>, ac_stream := True,
                   ac_reconnect_attempts := 0\<rparr>), Inr ()))"

text \<open>Send errors are dropped and the loop goes on.\<close>

fun reissue_loop :: "(subscription_id \<times> subscription_entry) list \<Rightarrow> client_sink \<Rightarrow> client_sink" where
  "reissue_loop [] k = k"
| "reissue_loop (p # ps) k =
     reissue_loop ps (if se_skip_reissue (snd p) then k else fst (send_req (fst p) (se_filters (snd p)) k))"

definition reissue_subscriptions :: "actor \<Rightarrow> actor" where
  "reissue_subscriptions a =
     (case ac_sink a of
        None \<Rightarrow> a
      | Some k \<Rightarrow> a\<lparr>ac_sink := Some (reissue_loop (ac_subscriptions a) k)\<rparr>)"

definition handle_connect :: "client_options \<Rightarrow> wake_env \<Rightarrow> reply \<Rightarrow> actor \<Rightarrow> actor" where
  "handle_connect Q v slot a =
     (if ac_status a = Connected then answer_slot slot (Inr ()) a
      else
        let p = perform_connect Q v a
        in answer_slot slot (snd p) (if snd p = Inr () then reissue_subscriptions (fst p) else fst p))"

definition handle_disconnect :: "actor \<Rightarrow> actor" where
  "handle_disconnect a = set_status Disconnected (drop_socket a)"

definition schedule_reconnect :: "client_options \<Rightarrow> wake_env \<Rightarrow> actor \<Rightarrow> nat option" where
  "schedule_reconnect Q v a =
     map_option (\<lambda>d. we_now v + d) (next_delay (co_reconnect_policy Q) (ac_reconnect_attempts a) (we_rand v))"

definition run_reconnect :: "client_options \<Rightarrow> wake_env \<Rightarrow> actor \<Rightarrow> actor" where
  "run_reconnect Q v a =
     (let p = perform_connect Q v (a\<lparr>ac_reconnect_attempts := saturating_add (ac_reconnect_attempts a) 1\<rparr>)
      in if snd p = Inr () then reissue_subscriptions (fst p) else fst p)"

section \<open>Commands\<close>

definition subscribe_refusal :: "client_options \<Rightarrow> subscription_id \<Rightarrow> actor \<Rightarrow> client_error option" where
  "subscribe_refusal Q i a =
     (if map_of (ac_subscriptions a) i \<noteq> None then Some (CeDuplicateSubscription i)
      else if cl_max_subscriptions (co_limits Q) \<le> length (ac_subscriptions a)
        then Some (CeTooManySubscriptions (cl_max_subscriptions (co_limits Q)))
      else None)"

definition handle_subscribe ::
  "client_options \<Rightarrow> subscription_id \<Rightarrow> nostr_filter list \<Rightarrow> subscribe_options \<Rightarrow> item_channel \<Rightarrow> reply \<Rightarrow> actor \<Rightarrow> actor" where
  "handle_subscribe Q i fs opts ch slot a =
     (case subscribe_refusal Q i a of
        Some err \<Rightarrow> answer_slot slot (Inl err) a
      | None \<Rightarrow>
          let a1 = a\<lparr>ac_subscriptions := hm_insert i
                 \<lparr>se_filters = fs, se_options = opts, se_sink = ch, se_skip_reissue = False\<rparr> (ac_subscriptions a)\<rparr>;
              p = on_sink (send_req i fs) a1
          in answer_slot slot (case snd p of Some (Inl err) \<Rightarrow> Inl err | _ \<Rightarrow> Inr ()) (fst p))"

definition handle_subscribe_neg ::
  "client_options \<Rightarrow> subscription_id \<Rightarrow> nostr_filter \<Rightarrow> string \<Rightarrow> item_channel \<Rightarrow> reply \<Rightarrow> actor \<Rightarrow> actor" where
  "handle_subscribe_neg Q i f initial ch slot a =
     (case subscribe_refusal Q i a of
        Some err \<Rightarrow> answer_slot slot (Inl err) a
      | None \<Rightarrow>
          let a1 = a\<lparr>ac_subscriptions := hm_insert i
                 \<lparr>se_filters = [f], se_options = subscribe_options_new, se_sink = ch, se_skip_reissue = True\<rparr>
                 (ac_subscriptions a)\<rparr>;
              p = on_sink (client_send (CNegOpen i f initial)) a1;
              gone = (fst p)\<lparr>ac_subscriptions := hm_remove i (ac_subscriptions (fst p))\<rparr>
          in case snd p of
               None \<Rightarrow> answer_slot slot (Inl CeNotConnected) gone
             | Some (Inl err) \<Rightarrow> answer_slot slot (Inl err) gone
             | Some (Inr _) \<Rightarrow> answer_slot slot (Inr ()) (fst p))"

definition handle_drop_subscription :: "subscription_id \<Rightarrow> actor \<Rightarrow> actor" where
  "handle_drop_subscription i a =
     (if map_of (ac_subscriptions a) i \<noteq> None
      then fst (on_sink (send_close i) (a\<lparr>ac_subscriptions := hm_remove i (ac_subscriptions a)\<rparr>))
      else a)"

text \<open>\<open>HashMap::insert\<close> drops the entry it replaces, and with it the reply slot of an earlier publish of the same event.\<close>

definition insert_pending :: "event_id \<Rightarrow> pending_publish \<Rightarrow> actor \<Rightarrow> actor" where
  "insert_pending i p a =
     (let a1 = (case map_of (ac_pending_publishes a) i of
                  None \<Rightarrow> a | Some old \<Rightarrow> drop_slot (pp_reply old) a)
      in a1\<lparr>ac_pending_publishes := hm_insert i p (ac_pending_publishes a1)\<rparr>)"

definition handle_publish ::
  "client_options \<Rightarrow> wake_env \<Rightarrow> event \<Rightarrow> publish_options \<Rightarrow> reply \<Rightarrow> actor \<Rightarrow> actor" where
  "handle_publish Q v e opts slot a =
     (if \<not> is_connected a then answer_slot slot (Inl CeNotConnected) a
      else if cl_max_pending_publishes (co_limits Q) \<le> length (ac_pending_publishes a)
        then answer_slot slot (Inl (CeTooManyPendingPublishes (cl_max_pending_publishes (co_limits Q)))) a
      else
        let timeout = (case po_timeout opts of Some t \<Rightarrow> t | None \<Rightarrow> co_publish_timeout Q);
            p = on_sink (send_event e) a
        in case snd p of
             Some (Inl err) \<Rightarrow> answer_slot slot (Inl err) (fst p)
           | _ \<Rightarrow>
               insert_pending (ev_id e) \<lparr>pp_reply = slot, pp_deadline = we_now v + timeout, pp_timeout = timeout\<rparr>
                 ((fst p)\<lparr>ac_stats := (ac_stats (fst p))\<lparr>
                    cs_events_published := cs_events_published (ac_stats (fst p)) + 1\<rparr>\<rparr>))"

definition handle_send ::
  "(client_sink \<Rightarrow> client_sink \<times> (client_error + unit)) \<Rightarrow> reply \<Rightarrow> actor \<Rightarrow> actor" where
  "handle_send snd_fn slot a =
     (let p = on_sink snd_fn a
      in answer_slot slot (case snd p of Some r \<Rightarrow> r | None \<Rightarrow> Inl CeNotConnected) (fst p))"

definition handle_authenticate :: "event \<Rightarrow> reply \<Rightarrow> actor \<Rightarrow> actor" where
  "handle_authenticate e slot a = handle_send (send_auth e) slot a"

definition handle_send_msg :: "client_message \<Rightarrow> reply \<Rightarrow> actor \<Rightarrow> actor" where
  "handle_send_msg m slot a = handle_send (client_send m) slot a"

definition handle_command :: "client_options \<Rightarrow> wake_env \<Rightarrow> actor_command \<Rightarrow> actor \<Rightarrow> actor" where
  "handle_command Q v c a =
     (case c of
        CmdConnect slot \<Rightarrow> (handle_connect Q v slot a)\<lparr>ac_reconnect_deadline := None\<rparr>
      | CmdDisconnect slot \<Rightarrow> answer_slot slot (Inr ()) ((handle_disconnect a)\<lparr>ac_reconnect_deadline := None\<rparr>)
      | CmdSubscribe i fs opts ch slot \<Rightarrow> handle_subscribe Q i fs opts ch slot a
      | CmdSubscribeNeg i f initial ch slot \<Rightarrow> handle_subscribe_neg Q i f initial ch slot a
      | CmdPublish e opts slot \<Rightarrow> handle_publish Q v e opts slot a
      | CmdAuthenticate e slot \<Rightarrow> handle_authenticate e slot a
      | CmdSendMsg m slot \<Rightarrow> handle_send_msg m slot a
      | CmdShutdown \<Rightarrow> a)"

section \<open>Frames\<close>

definition to_subscription :: "subscription_id \<Rightarrow> subscription_item \<Rightarrow> actor \<Rightarrow> actor" where
  "to_subscription i it a =
     (case map_of (ac_subscriptions a) i of None \<Rightarrow> a | Some s \<Rightarrow> give_item (se_sink s) it a)"

definition end_subscription :: "subscription_id \<Rightarrow> subscription_item \<Rightarrow> actor \<Rightarrow> actor" where
  "end_subscription i it a =
     (case map_of (ac_subscriptions a) i of
        None \<Rightarrow> a
      | Some s \<Rightarrow> give_item (se_sink s) it (a\<lparr>ac_subscriptions := hm_remove i (ac_subscriptions a)\<rparr>))"

definition dispatch_relay_message :: "relay_message \<Rightarrow> actor \<Rightarrow> actor" where
  "dispatch_relay_message m a =
     (case m of
        REvent i e \<Rightarrow>
          to_subscription i (ItemEvent e)
            (a\<lparr>ac_stats := (ac_stats a)\<lparr>cs_events_received := cs_events_received (ac_stats a) + 1\<rparr>\<rparr>)
      | REndOfStoredEvents i \<Rightarrow>
          (case map_of (ac_subscriptions a) i of
             None \<Rightarrow> a
           | Some s \<Rightarrow>
               if so_close_on_eose (se_options s) then end_subscription i ItemEndOfStoredEvents a
               else to_subscription i ItemEndOfStoredEvents a)
      | RClosed i msg \<Rightarrow> end_subscription i (ItemClosed msg) a
      | ROk i accepted msg \<Rightarrow>
          (case map_of (ac_pending_publishes a) i of
             None \<Rightarrow> a
           | Some p \<Rightarrow>
               answer_slot (pp_reply p) (if accepted then Inr () else Inl (CePublishRejected i msg))
                 (a\<lparr>ac_pending_publishes := hm_remove i (ac_pending_publishes a)\<rparr>))
      | RNotice msg \<Rightarrow> notify (NoteNotice msg) a
      | RAuth challenge \<Rightarrow> notify (NoteAuthChallenge challenge) a
      | RCount _ _ \<Rightarrow> a
      | RNegMsg i msg \<Rightarrow> to_subscription i (ItemNegMsg msg) a
      | RNegErr i msg \<Rightarrow> end_subscription i (ItemNegErr msg) a)"

definition relay_from_json :: "crates \<Rightarrow> sig_text \<Rightarrow> wire_crate \<Rightarrow> string \<Rightarrow> relay_message option" where
  "relay_from_json X Y W text = Option.bind (wc_json W text) (\<lambda>j. res_ok (relay_deserialize X Y j))"

definition handle_text_frame ::
  "crates \<Rightarrow> sig_text \<Rightarrow> wire_crate \<Rightarrow> client_options \<Rightarrow> string \<Rightarrow> actor \<Rightarrow> actor" where
  "handle_text_frame X Y W Q text a =
     (if cl_max_message_bytes (co_limits Q) < length text then a
      else
        let a1 = a\<lparr>ac_stats := (ac_stats a)\<lparr>
              cs_bytes_received := cs_bytes_received (ac_stats a) + of_nat (length text)\<rparr>\<rparr>
        in case relay_from_json X Y W text of None \<Rightarrow> a1 | Some m \<Rightarrow> dispatch_relay_message m a1)"

definition handle_frame ::
  "crates \<Rightarrow> sig_text \<Rightarrow> wire_crate \<Rightarrow> client_options \<Rightarrow> client_error + ws_message \<Rightarrow> actor \<Rightarrow> actor \<times> frame_outcome" where
  "handle_frame X Y W Q frame a =
     (case frame of
        Inl _ \<Rightarrow> (a, FrameDisconnected)
      | Inr (MsgText text) \<Rightarrow> (handle_text_frame X Y W Q text a, FrameContinue)
      | Inr (MsgBinary _) \<Rightarrow> (a, FrameContinue)
      | Inr (MsgPing _) \<Rightarrow> (a, FrameContinue)
      | Inr (MsgPong _) \<Rightarrow> (a, FrameContinue)
      | Inr (MsgClose _) \<Rightarrow> (a, FrameDisconnected))"

section \<open>The loop\<close>

fun expire_loop :: "event_id list \<Rightarrow> actor \<Rightarrow> actor" where
  "expire_loop [] a = a"
| "expire_loop (i # is) a =
     expire_loop is
       (case map_of (ac_pending_publishes a) i of
          None \<Rightarrow> a
        | Some p \<Rightarrow>
            answer_slot (pp_reply p) (Inl (CePublishTimeout i (pp_timeout p)))
              (a\<lparr>ac_pending_publishes := hm_remove i (ac_pending_publishes a)\<rparr>))"

definition expire_pending_publishes :: "nat \<Rightarrow> actor \<Rightarrow> actor" where
  "expire_pending_publishes now a =
     expire_loop (map fst (filter (\<lambda>e. pp_deadline (snd e) \<le> now) (ac_pending_publishes a))) a"

text \<open>Leaving the loop: the state is dropped, with the reply slots of the pending publishes and the streams.\<close>

definition actor_stop :: "actor \<Rightarrow> actor" where
  "actor_stop a =
     (let a1 = notify NoteShutdown (drop_socket (set_status Terminated a))
      in a1\<lparr>ac_running := False, ac_reconnect_deadline := None,
            ac_dropped := ac_dropped a1 @ map (\<lambda>e. pp_reply (snd e)) (ac_pending_publishes a1),
            ac_pending_publishes := [], ac_subscriptions := []\<rparr>)"

definition command_reply :: "actor_command \<Rightarrow> reply option" where
  "command_reply c =
     (case c of
        CmdConnect slot \<Rightarrow> Some slot
      | CmdDisconnect slot \<Rightarrow> Some slot
      | CmdSubscribe _ _ _ _ slot \<Rightarrow> Some slot
      | CmdSubscribeNeg _ _ _ _ slot \<Rightarrow> Some slot
      | CmdPublish _ _ slot \<Rightarrow> Some slot
      | CmdAuthenticate _ slot \<Rightarrow> Some slot
      | CmdSendMsg _ slot \<Rightarrow> Some slot
      | CmdShutdown \<Rightarrow> None)"

text \<open>A command to an actor that is gone is dropped with its slot.\<close>

definition refuse_command :: "actor_command \<Rightarrow> actor \<Rightarrow> actor" where
  "refuse_command c a = (case command_reply c of None \<Rightarrow> a | Some slot \<Rightarrow> drop_slot slot a)"

definition actor_step ::
  "crates \<Rightarrow> sig_text \<Rightarrow> wire_crate \<Rightarrow> client_options \<Rightarrow> wake_env \<Rightarrow> wakeup \<Rightarrow> actor \<Rightarrow> actor" where
  "actor_step X Y W Q v w a =
     (if \<not> ac_running a then (case w of WakeCommand (Some c) \<Rightarrow> refuse_command c a | _ \<Rightarrow> a)
      else
        case w of
          WakeCommand None \<Rightarrow> actor_stop a
        | WakeCommand (Some c) \<Rightarrow>
            if c = CmdShutdown then actor_stop a
            else expire_pending_publishes (we_sweep v) (handle_command Q v c a)
        | WakeDrop i \<Rightarrow> expire_pending_publishes (we_sweep v) (handle_drop_subscription i a)
        | WakeFrame frame \<Rightarrow>
            (let p = (case frame of None \<Rightarrow> (a, FrameDisconnected) | Some f \<Rightarrow> handle_frame X Y W Q f a);
                 a1 = (case snd p of
                         FrameContinue \<Rightarrow> fst p
                       | FrameDisconnected \<Rightarrow>
                           let d = handle_disconnect (fst p) in d\<lparr>ac_reconnect_deadline := schedule_reconnect Q v d\<rparr>)
             in expire_pending_publishes (we_sweep v) a1)
        | WakeReconnect \<Rightarrow>
            (let a1 = run_reconnect Q v (a\<lparr>ac_reconnect_deadline := None\<rparr>);
                 a2 = (if \<not> is_connected a1 \<and> ac_status a1 \<noteq> Terminated
                       then a1\<lparr>ac_reconnect_deadline := schedule_reconnect Q v a1\<rparr> else a1)
             in expire_pending_publishes (we_sweep v) a2)
        | WakePublishTimeout \<Rightarrow> expire_pending_publishes (we_sweep v) a)"

text \<open>Which wakeups can be ready: frames need a socket and a timer an elapsed deadline.\<close>

definition wake_ready :: "wake_env \<Rightarrow> wakeup \<Rightarrow> actor \<Rightarrow> bool" where
  "wake_ready v w a =
     (case w of
        WakeCommand _ \<Rightarrow> True
      | WakeDrop _ \<Rightarrow> True
      | WakeFrame _ \<Rightarrow> ac_stream a
      | WakeReconnect \<Rightarrow> (case ac_reconnect_deadline a of None \<Rightarrow> False | Some d \<Rightarrow> d \<le> we_now v)
      | WakePublishTimeout \<Rightarrow> (case earliest_publish_deadline a of None \<Rightarrow> False | Some d \<Rightarrow> d \<le> we_now v))"

text \<open>The states of an actor after a history of wakeups.\<close>

inductive actor_trace ::
  "crates \<Rightarrow> sig_text \<Rightarrow> wire_crate \<Rightarrow> client_options \<Rightarrow> (wake_env \<times> wakeup) list \<Rightarrow> actor \<Rightarrow> bool" for X Y W Q where
  trace_new: "actor_trace X Y W Q [] actor_new"
| trace_step: "actor_trace X Y W Q ws a \<Longrightarrow> wake_ready v w a \<Longrightarrow>
    actor_trace X Y W Q (ws @ [(v, w)]) (actor_step X Y W Q v w a)"

end
