(* ===== verification/Client_Invariant.thy ===== *)
theory Client_Invariant
  imports Client_Actor "HOL-Library.Multiset"
begin

text \<open>
  The invariant of the relay client and the bookkeeping of its reply slots. \<open>actor_ok\<close> ties the socket, the status, the timer and
  the two maps together; \<open>slots\<close> is the multiset of the reply slots that were answered, were dropped or still wait in the map of pending publishes, and
  every handler adds exactly the slot of its command to it. Both are shown for every handler, then for every wakeup.
\<close>

section \<open>Maps as multisets\<close>

lemma hm_remove_None: "map_of m k = None \<Longrightarrow> hm_remove k m = m"
  by (induction m) (auto simp: hm_remove_def AList.delete_eq split: if_splits)

lemma mset_hm_remove:
  assumes "hm_invar m" and "map_of m k = Some v"
  shows "mset m = add_mset (k, v) (mset (hm_remove k m))"
  using assms
proof (induction m)
  case (Cons e m)
  have inv: "hm_invar m" "fst e \<notin> fst ` set m" using Cons.prems(1) by (simp_all add: hm_invar_def)
  show ?case
  proof (cases "fst e = k")
    case True
    then have "hm_remove k m = m" using inv(2) by (intro hm_remove_None) (simp add: map_of_eq_None_iff)
    then show ?thesis using True Cons.prems(2) by (cases e) (simp add: hm_remove_def AList.delete_eq)
  next
    case False
    then show ?thesis using Cons.IH [OF inv(1)] Cons.prems(2) by (cases e) (auto simp: hm_remove_def AList.delete_eq)
  qed
qed simp

lemma mset_hm_insert:
  assumes "hm_invar m"
  shows "mset (hm_insert k v m) = add_mset (k, v) (mset (hm_remove k m))"
  using assms
proof (induction m)
  case (Cons e m)
  have inv: "hm_invar m" "fst e \<notin> fst ` set m" using Cons.prems(1) by (simp_all add: hm_invar_def)
  show ?case
  proof (cases "fst e = k")
    case True
    then have "hm_remove k m = m" using inv(2) by (intro hm_remove_None) (simp add: map_of_eq_None_iff)
    then show ?thesis using True by (cases e) (simp add: hm_insert_def hm_remove_def AList.delete_eq)
  next
    case False
    then show ?thesis using Cons.IH [OF inv(1)] by (cases e) (auto simp: hm_insert_def hm_remove_def AList.delete_eq)
  qed
qed (simp add: hm_insert_def hm_remove_def)

section \<open>Reply slots\<close>

definition waiting :: "(event_id, pending_publish) hash_map \<Rightarrow> reply multiset" where
  "waiting m = image_mset (\<lambda>e. pp_reply (snd e)) (mset m)"

definition answered :: "actor \<Rightarrow> reply multiset" where
  "answered a = mset (map fst (ac_answers a))"

definition slots :: "actor \<Rightarrow> reply multiset" where
  "slots a = answered a + waiting (ac_pending_publishes a) + mset (ac_dropped a)"

definition command_slots :: "actor_command \<Rightarrow> reply multiset" where
  "command_slots c = (case command_reply c of None \<Rightarrow> {#} | Some slot \<Rightarrow> {#slot#})"

fun wake_slots :: "wakeup \<Rightarrow> reply multiset" where
  "wake_slots (WakeCommand (Some c)) = command_slots c"
| "wake_slots w = {#}"

lemma waiting_remove:
  "hm_invar m \<Longrightarrow> map_of m i = Some p \<Longrightarrow> waiting m = add_mset (pp_reply p) (waiting (hm_remove i m))"
  using mset_hm_remove [of m i p] by (simp add: waiting_def)

lemma waiting_insert:
  "hm_invar m \<Longrightarrow> waiting (hm_insert i p m) = add_mset (pp_reply p) (waiting (hm_remove i m))"
  by (simp add: waiting_def mset_hm_insert)

lemma slots_answer [simp]: "slots (answer_slot slot r a) = add_mset slot (slots a)"
  by (simp add: slots_def answered_def answer_slot_def)

lemma slots_drop [simp]: "slots (drop_slot slot a) = add_mset slot (slots a)"
  by (simp add: slots_def answered_def drop_slot_def)

lemma slots_take:
  assumes "hm_invar (ac_pending_publishes a)" and "map_of (ac_pending_publishes a) i = Some p"
  shows "slots (answer_slot (pp_reply p) r (a\<lparr>ac_pending_publishes := hm_remove i (ac_pending_publishes a)\<rparr>)) = slots a"
  using waiting_remove [OF assms] by (simp add: slots_def answered_def answer_slot_def)

lemma slots_insert_pending:
  assumes "hm_invar (ac_pending_publishes a)"
  shows "slots (insert_pending i p a) = add_mset (pp_reply p) (slots a)"
proof (cases "map_of (ac_pending_publishes a) i")
  case None
  then show ?thesis using waiting_insert [OF assms, of i p] hm_remove_None [OF None]
    by (simp add: insert_pending_def Let_def slots_def answered_def)
next
  case (Some old)
  then show ?thesis using waiting_insert [OF assms, of i p] waiting_remove [OF assms Some]
    by (simp add: insert_pending_def Let_def slots_def answered_def drop_slot_def)
qed

text \<open>What does not touch answers and pending publishes.\<close>

lemma slots_cong:
  "ac_answers a' = ac_answers a \<Longrightarrow> ac_pending_publishes a' = ac_pending_publishes a \<Longrightarrow> ac_dropped a' = ac_dropped a \<Longrightarrow>
     slots a' = slots a"
  by (simp add: slots_def answered_def)

lemma on_sink_fields [simp]:
  "ac_answers (fst (on_sink g a)) = ac_answers a"
  "ac_dropped (fst (on_sink g a)) = ac_dropped a"
  "ac_pending_publishes (fst (on_sink g a)) = ac_pending_publishes a"
  "ac_subscriptions (fst (on_sink g a)) = ac_subscriptions a"
  "ac_status (fst (on_sink g a)) = ac_status a"
  "ac_stream (fst (on_sink g a)) = ac_stream a"
  "ac_running (fst (on_sink g a)) = ac_running a"
  "ac_reconnect_deadline (fst (on_sink g a)) = ac_reconnect_deadline a"
  "ac_items (fst (on_sink g a)) = ac_items a"
  "ac_notes (fst (on_sink g a)) = ac_notes a"
  "ac_stats (fst (on_sink g a)) = ac_stats a"
  "ac_sink (fst (on_sink g a)) = None \<longleftrightarrow> ac_sink a = None"
  by (simp_all add: on_sink_def Let_def split: option.splits)

lemma slots_frame [simp]:
  "slots (fst (on_sink g a)) = slots a"
  "slots (a\<lparr>ac_stats := s\<rparr>) = slots a"
  "slots (a\<lparr>ac_reconnect_deadline := d\<rparr>) = slots a"
  "slots (a\<lparr>ac_subscriptions := m\<rparr>) = slots a"
  by (auto intro: slots_cong)

lemma set_status_fields [simp]:
  "ac_answers (set_status s a) = ac_answers a"
  "ac_dropped (set_status s a) = ac_dropped a"
  "ac_pending_publishes (set_status s a) = ac_pending_publishes a"
  "ac_subscriptions (set_status s a) = ac_subscriptions a"
  "ac_status (set_status s a) = s"
  "ac_stream (set_status s a) = ac_stream a"
  "ac_sink (set_status s a) = ac_sink a"
  "ac_running (set_status s a) = ac_running a"
  "ac_reconnect_deadline (set_status s a) = ac_reconnect_deadline a"
  "ac_items (set_status s a) = ac_items a"
  "ac_stats (set_status s a) = ac_stats a"
  by (simp_all add: set_status_def notify_def)

lemma answer_slot_fields [simp]:
  "ac_answers (answer_slot slot r a) = ac_answers a @ [(slot, r)]"
  "ac_dropped (answer_slot slot r a) = ac_dropped a"
  "ac_pending_publishes (answer_slot slot r a) = ac_pending_publishes a"
  "ac_subscriptions (answer_slot slot r a) = ac_subscriptions a"
  "ac_status (answer_slot slot r a) = ac_status a"
  "ac_stream (answer_slot slot r a) = ac_stream a"
  "ac_sink (answer_slot slot r a) = ac_sink a"
  "ac_running (answer_slot slot r a) = ac_running a"
  "ac_reconnect_deadline (answer_slot slot r a) = ac_reconnect_deadline a"
  "ac_items (answer_slot slot r a) = ac_items a"
  "ac_notes (answer_slot slot r a) = ac_notes a"
  by (simp_all add: answer_slot_def)

lemma drop_slot_fields [simp]:
  "ac_answers (drop_slot slot a) = ac_answers a"
  "ac_dropped (drop_slot slot a) = ac_dropped a @ [slot]"
  "ac_pending_publishes (drop_slot slot a) = ac_pending_publishes a"
  "ac_subscriptions (drop_slot slot a) = ac_subscriptions a"
  "ac_status (drop_slot slot a) = ac_status a"
  "ac_stream (drop_slot slot a) = ac_stream a"
  "ac_sink (drop_slot slot a) = ac_sink a"
  "ac_running (drop_slot slot a) = ac_running a"
  "ac_reconnect_deadline (drop_slot slot a) = ac_reconnect_deadline a"
  "ac_items (drop_slot slot a) = ac_items a"
  by (simp_all add: drop_slot_def)

lemma reissue_fields [simp]:
  "ac_answers (reissue_subscriptions a) = ac_answers a"
  "ac_dropped (reissue_subscriptions a) = ac_dropped a"
  "ac_pending_publishes (reissue_subscriptions a) = ac_pending_publishes a"
  "ac_subscriptions (reissue_subscriptions a) = ac_subscriptions a"
  "ac_status (reissue_subscriptions a) = ac_status a"
  "ac_stream (reissue_subscriptions a) = ac_stream a"
  "ac_running (reissue_subscriptions a) = ac_running a"
  "ac_reconnect_deadline (reissue_subscriptions a) = ac_reconnect_deadline a"
  "ac_items (reissue_subscriptions a) = ac_items a"
  "ac_sink (reissue_subscriptions a) = None \<longleftrightarrow> ac_sink a = None"
  by (simp_all add: reissue_subscriptions_def split: option.splits)

section \<open>The invariant\<close>

definition actor_ok :: "client_options \<Rightarrow> actor \<Rightarrow> bool" where
  [inv_simps]: "actor_ok Q a \<longleftrightarrow>
     hm_invar (ac_subscriptions a) \<and> hm_invar (ac_pending_publishes a) \<and>
     length (ac_subscriptions a) \<le> cl_max_subscriptions (co_limits Q) \<and>
     length (ac_pending_publishes a) \<le> cl_max_pending_publishes (co_limits Q) \<and>
     (ac_sink a = None \<longleftrightarrow> ac_status a \<noteq> Connected) \<and> (ac_stream a \<longleftrightarrow> ac_status a = Connected) \<and>
     ac_status a \<noteq> Connecting \<and> (ac_reconnect_deadline a \<noteq> None \<longrightarrow> ac_status a = Disconnected) \<and>
     (ac_running a \<longleftrightarrow> ac_status a \<noteq> Terminated) \<and>
     (\<not> ac_running a \<longrightarrow> ac_pending_publishes a = [] \<and> ac_subscriptions a = [])"

lemma actor_ok_new: "actor_ok Q actor_new"
  by (simp add: actor_ok_def actor_new_def hm.invar_empty)

lemma actor_ok_answer [simp]:
  "actor_ok Q (answer_slot slot r a) \<longleftrightarrow> actor_ok Q a" "actor_ok Q (drop_slot slot a) \<longleftrightarrow> actor_ok Q a"
  by (simp_all add: actor_ok_def)

lemma hm_remove_length: "hm_invar m \<Longrightarrow> length (hm_remove k m) \<le> length m"
  by (simp add: hm.length_del)

lemma perform_connect_fields:
  "ac_answers (fst (perform_connect Q v a)) = ac_answers a"
  "ac_dropped (fst (perform_connect Q v a)) = ac_dropped a"
  "ac_pending_publishes (fst (perform_connect Q v a)) = ac_pending_publishes a"
  "ac_subscriptions (fst (perform_connect Q v a)) = ac_subscriptions a"
  "ac_running (fst (perform_connect Q v a)) = ac_running a"
  "ac_reconnect_deadline (fst (perform_connect Q v a)) = ac_reconnect_deadline a"
  "ac_items (fst (perform_connect Q v a)) = ac_items a"
  by (simp_all add: perform_connect_def Let_def split: connect_result.splits)

lemma perform_connect_result:
  "(case we_connect v of
      ConnectOk room \<Rightarrow> snd (perform_connect Q v a) = Inr () \<and> ac_status (fst (perform_connect Q v a)) = Connected \<and>
        ac_sink (fst (perform_connect Q v a)) = Some \<lparr>ck_sent = [], ck_left = room\<rparr> \<and> ac_stream (fst (perform_connect Q v a))
    | _ \<Rightarrow> snd (perform_connect Q v a) \<noteq> Inr () \<and> ac_status (fst (perform_connect Q v a)) = Disconnected \<and>
        ac_sink (fst (perform_connect Q v a)) = ac_sink a \<and> ac_stream (fst (perform_connect Q v a)) = ac_stream a)"
  by (simp add: perform_connect_def Let_def split: connect_result.splits)

lemma actor_ok_connect:
  assumes ok: "actor_ok Q a" and run: "ac_running a"
  shows "actor_ok Q ((handle_connect Q v slot a)\<lparr>ac_reconnect_deadline := None\<rparr>)"
    and "slots (handle_connect Q v slot a) = add_mset slot (slots a)"
proof -
  have "ac_sink a = None \<and> \<not> ac_stream a" if "ac_status a \<noteq> Connected" using ok that by (simp add: actor_ok_def)
  then show "actor_ok Q ((handle_connect Q v slot a)\<lparr>ac_reconnect_deadline := None\<rparr>)"
    using ok run perform_connect_fields [of Q v a] perform_connect_result [where v = v and Q = Q and a = a]
    by (auto simp: handle_connect_def actor_ok_def Let_def split: connect_result.splits)
  show "slots (handle_connect Q v slot a) = add_mset slot (slots a)"
    using perform_connect_fields [of Q v a] slots_cong [of "reissue_subscriptions (fst (perform_connect Q v a))" a]
      slots_cong [of "fst (perform_connect Q v a)" a]
    by (simp add: handle_connect_def Let_def)
qed

lemma actor_ok_disconnect:
  assumes "actor_ok Q a" and "ac_running a"
  shows "actor_ok Q ((handle_disconnect a)\<lparr>ac_reconnect_deadline := d\<rparr>)" and "slots (handle_disconnect a) = slots a"
  using assms by (auto simp: handle_disconnect_def drop_socket_def actor_ok_def intro: slots_cong)

lemma actor_ok_reconnect:
  fixes v :: wake_env
  assumes ok: "actor_ok Q a" and run: "ac_running a" and d: "ac_reconnect_deadline a \<noteq> None"
  defines "a1 \<equiv> run_reconnect Q v (a\<lparr>ac_reconnect_deadline := None\<rparr>)"
  shows "actor_ok Q (if \<not> is_connected a1 \<and> ac_status a1 \<noteq> Terminated
      then a1\<lparr>ac_reconnect_deadline := schedule_reconnect Q v a1\<rparr> else a1)"
    and "slots a1 = slots a"
proof -
  let ?b = "a\<lparr>ac_reconnect_deadline := None, ac_reconnect_attempts := saturating_add (ac_reconnect_attempts a) 1\<rparr>"
  have st: "ac_sink a = None" "\<not> ac_stream a" "ac_status a = Disconnected" using ok d by (auto simp: actor_ok_def)
  have a1: "a1 = (let p = perform_connect Q v ?b in if snd p = Inr () then reissue_subscriptions (fst p) else fst p)"
    by (simp add: a1_def run_reconnect_def)
  show "actor_ok Q (if \<not> is_connected a1 \<and> ac_status a1 \<noteq> Terminated
      then a1\<lparr>ac_reconnect_deadline := schedule_reconnect Q v a1\<rparr> else a1)"
    using ok run st perform_connect_fields [of Q v ?b] perform_connect_result [where v = v and Q = Q and a = ?b]
    by (auto simp: a1 actor_ok_def is_connected_def Let_def split: connect_result.splits)
  show "slots a1 = slots a"
    unfolding a1 Let_def using perform_connect_fields [of Q v ?b] by (auto intro: slots_cong)
qed

lemma subscribe_refusal_None:
  "subscribe_refusal Q i a = None \<longleftrightarrow> map_of (ac_subscriptions a) i = None \<and>
     length (ac_subscriptions a) < cl_max_subscriptions (co_limits Q)"
  by (auto simp: subscribe_refusal_def)

lemma actor_ok_subscribe:
  assumes "actor_ok Q a" and "ac_running a"
  shows "actor_ok Q (handle_subscribe Q i fs opts ch slot a)"
    and "slots (handle_subscribe Q i fs opts ch slot a) = add_mset slot (slots a)"
  using assms
  by (auto simp: handle_subscribe_def actor_ok_def Let_def subscribe_refusal_None hm.invar_ins hm.length_ins
      split: option.splits intro: slots_cong)

lemma actor_ok_subscribe_neg:
  assumes "actor_ok Q a" and "ac_running a"
  shows "actor_ok Q (handle_subscribe_neg Q i f m ch slot a)"
    and "slots (handle_subscribe_neg Q i f m ch slot a) = add_mset slot (slots a)"
  using assms
  by (auto simp: handle_subscribe_neg_def actor_ok_def Let_def subscribe_refusal_None hm.invar_ins hm.invar_del
      hm.length_ins hm.length_del hm.lookup_ins split: option.splits sum.splits intro: slots_cong)

lemma actor_ok_drop:
  assumes "actor_ok Q a"
  shows "actor_ok Q (handle_drop_subscription i a)" and "slots (handle_drop_subscription i a) = slots a"
  using assms le_trans [OF hm_remove_length [of "ac_subscriptions a" i]]
  by (auto simp: handle_drop_subscription_def actor_ok_def hm.invar_del intro: slots_cong)

lemma insert_pending_fields [simp]:
  "ac_subscriptions (insert_pending i p a) = ac_subscriptions a"
  "ac_status (insert_pending i p a) = ac_status a"
  "ac_stream (insert_pending i p a) = ac_stream a"
  "ac_sink (insert_pending i p a) = ac_sink a"
  "ac_running (insert_pending i p a) = ac_running a"
  "ac_reconnect_deadline (insert_pending i p a) = ac_reconnect_deadline a"
  "ac_items (insert_pending i p a) = ac_items a"
  "ac_answers (insert_pending i p a) = ac_answers a"
  "ac_pending_publishes (insert_pending i p a) = hm_insert i p (ac_pending_publishes a)"
  by (simp_all add: insert_pending_def Let_def split: option.splits)

lemma actor_ok_publish:
  assumes ok: "actor_ok Q a" and run: "ac_running a"
  shows "actor_ok Q (handle_publish Q v e opts slot a)"
    and "slots (handle_publish Q v e opts slot a) = add_mset slot (slots a)"
proof -
  have inv: "hm_invar (ac_pending_publishes a)" using ok by (simp add: actor_ok_def)
  let ?b = "(fst (on_sink (send_event e) a))\<lparr>ac_stats := s\<rparr>"
  have b: "slots ((fst (on_sink (send_event e) a))\<lparr>ac_stats := s\<rparr>) = slots a" for s by (rule slots_cong) simp_all
  show "actor_ok Q (handle_publish Q v e opts slot a)"
    using ok run
    by (auto simp: handle_publish_def actor_ok_def Let_def hm.invar_ins hm.length_ins split: option.splits sum.splits)
  show "slots (handle_publish Q v e opts slot a) = add_mset slot (slots a)"
    using inv b slots_cong [of "fst (on_sink (send_event e) a)" a]
    by (auto simp: handle_publish_def Let_def slots_insert_pending split: option.splits sum.splits)
qed

lemma actor_ok_send:
  assumes "actor_ok Q a"
  shows "actor_ok Q (handle_send g slot a)" and "slots (handle_send g slot a) = add_mset slot (slots a)"
  using assms by (auto simp: handle_send_def actor_ok_def Let_def intro: slots_cong)

lemma actor_ok_command:
  assumes "actor_ok Q a" and "ac_running a"
  shows "actor_ok Q (handle_command Q v c a) \<and> slots (handle_command Q v c a) = command_slots c + slots a"
  using actor_ok_connect [OF assms] actor_ok_disconnect [OF assms] actor_ok_subscribe [OF assms]
    actor_ok_subscribe_neg [OF assms] actor_ok_publish [OF assms] actor_ok_send [OF assms(1)] assms
  by (cases c) (simp_all add: handle_command_def command_slots_def command_reply_def handle_authenticate_def
    handle_send_msg_def)

section \<open>Frames and timers\<close>

lemma notify_fields [simp]:
  "ac_answers (notify n a) = ac_answers a"
  "ac_dropped (notify n a) = ac_dropped a"
  "ac_pending_publishes (notify n a) = ac_pending_publishes a"
  "ac_subscriptions (notify n a) = ac_subscriptions a"
  "ac_status (notify n a) = ac_status a"
  "ac_stream (notify n a) = ac_stream a"
  "ac_sink (notify n a) = ac_sink a"
  "ac_running (notify n a) = ac_running a"
  "ac_reconnect_deadline (notify n a) = ac_reconnect_deadline a"
  "ac_items (notify n a) = ac_items a"
  by (simp_all add: notify_def)

lemma give_item_fields [simp]:
  "ac_answers (give_item ch it a) = ac_answers a"
  "ac_dropped (give_item ch it a) = ac_dropped a"
  "ac_pending_publishes (give_item ch it a) = ac_pending_publishes a"
  "ac_subscriptions (give_item ch it a) = ac_subscriptions a"
  "ac_status (give_item ch it a) = ac_status a"
  "ac_stream (give_item ch it a) = ac_stream a"
  "ac_sink (give_item ch it a) = ac_sink a"
  "ac_running (give_item ch it a) = ac_running a"
  "ac_reconnect_deadline (give_item ch it a) = ac_reconnect_deadline a"
  "ac_items (give_item ch it a) = ac_items a @ [(ch, it)]"
  by (simp_all add: give_item_def)

lemma actor_ok_frames [simp]:
  "actor_ok Q (notify n a) \<longleftrightarrow> actor_ok Q a"
  "actor_ok Q (give_item ch it a) \<longleftrightarrow> actor_ok Q a"
  "actor_ok Q (a\<lparr>ac_stats := s\<rparr>) \<longleftrightarrow> actor_ok Q a"
  by (simp_all add: actor_ok_def)

lemma slots_frames [simp]:
  "slots (notify n a) = slots a"
  "slots (give_item ch it a) = slots a"
  by (auto intro: slots_cong)

lemma actor_ok_remove_subscription:
  "actor_ok Q a \<Longrightarrow> actor_ok Q (a\<lparr>ac_subscriptions := hm_remove i (ac_subscriptions a)\<rparr>)"
  using hm_remove_length [of "ac_subscriptions a" i] hm_remove_None [of "[]" i]
  by (auto simp: actor_ok_def hm.invar_del)

lemma actor_ok_remove_pending:
  "actor_ok Q a \<Longrightarrow> actor_ok Q (a\<lparr>ac_pending_publishes := hm_remove i (ac_pending_publishes a)\<rparr>)"
  using hm_remove_length [of "ac_pending_publishes a" i] hm_remove_None [of "[]" i]
  by (auto simp: actor_ok_def hm.invar_del)

lemma actor_ok_items:
  assumes "actor_ok Q a"
  shows "actor_ok Q (to_subscription i it a) \<and> slots (to_subscription i it a) = slots a"
    and "actor_ok Q (end_subscription i it a) \<and> slots (end_subscription i it a) = slots a"
  using assms actor_ok_remove_subscription
  by (auto simp: to_subscription_def end_subscription_def split: option.splits)

lemma actor_ok_dispatch:
  assumes ok: "actor_ok Q a"
  shows "actor_ok Q (dispatch_relay_message m a) \<and> slots (dispatch_relay_message m a) = slots a"
proof -
  have inv: "hm_invar (ac_pending_publishes a)" using ok by (simp add: actor_ok_def)
  have ok': "actor_ok Q (a\<lparr>ac_stats := s\<rparr>)" for s using ok by simp
  show ?thesis
    using ok actor_ok_items [OF ok] actor_ok_items(1) [OF ok'] actor_ok_remove_pending [OF ok] slots_take [OF inv]
    by (cases m) (auto simp: dispatch_relay_message_def split: option.splits)
qed

lemma actor_ok_text:
  assumes "actor_ok Q a"
  shows "actor_ok Q (handle_text_frame X Y W Q txt a) \<and> slots (handle_text_frame X Y W Q txt a) = slots a"
proof -
  have ok': "actor_ok Q (a\<lparr>ac_stats := s\<rparr>)" for s using assms by simp
  show ?thesis using assms actor_ok_dispatch [OF ok'] by (simp add: handle_text_frame_def Let_def split: option.splits)
qed

lemma actor_ok_frame:
  assumes "actor_ok Q a"
  shows "actor_ok Q (fst (handle_frame X Y W Q f a)) \<and> slots (fst (handle_frame X Y W Q f a)) = slots a"
  using assms actor_ok_text [OF assms] by (simp add: handle_frame_def split: sum.splits ws_message.splits)

text \<open>What the two item operations, the dispatcher and the sweep leave alone.\<close>

lemma item_ops_fields [simp]:
  "ac_answers (to_subscription i it a) = ac_answers a"
  "ac_dropped (to_subscription i it a) = ac_dropped a"
  "ac_pending_publishes (to_subscription i it a) = ac_pending_publishes a"
  "ac_status (to_subscription i it a) = ac_status a"
  "ac_sink (to_subscription i it a) = ac_sink a"
  "ac_running (to_subscription i it a) = ac_running a"
  "ac_subscriptions (to_subscription i it a) = ac_subscriptions a"
  "ac_answers (end_subscription i it a) = ac_answers a"
  "ac_dropped (end_subscription i it a) = ac_dropped a"
  "ac_pending_publishes (end_subscription i it a) = ac_pending_publishes a"
  "ac_status (end_subscription i it a) = ac_status a"
  "ac_sink (end_subscription i it a) = ac_sink a"
  "ac_running (end_subscription i it a) = ac_running a"
  by (simp_all add: to_subscription_def end_subscription_def split: option.splits)

lemma frame_fields [simp]:
  "ac_status (dispatch_relay_message m a) = ac_status a"
  "ac_sink (dispatch_relay_message m a) = ac_sink a"
  "ac_running (dispatch_relay_message m a) = ac_running a"
  "ac_status (fst (handle_frame X Y W Q f a)) = ac_status a"
  "ac_sink (fst (handle_frame X Y W Q f a)) = ac_sink a"
  "ac_running (fst (handle_frame X Y W Q f a)) = ac_running a"
proof -
  show d: "ac_status (dispatch_relay_message m a) = ac_status a" "ac_sink (dispatch_relay_message m a) = ac_sink a"
    "ac_running (dispatch_relay_message m a) = ac_running a" for m a
    by (simp_all add: dispatch_relay_message_def split: relay_message.splits option.splits)
  show "ac_status (fst (handle_frame X Y W Q f a)) = ac_status a" "ac_sink (fst (handle_frame X Y W Q f a)) = ac_sink a"
    "ac_running (fst (handle_frame X Y W Q f a)) = ac_running a"
    by (simp_all add: handle_frame_def handle_text_frame_def Let_def d split: sum.splits ws_message.splits option.splits)
qed

lemma expire_loop_fields [simp]:
  "ac_status (expire_loop is a) = ac_status a"
  "ac_sink (expire_loop is a) = ac_sink a"
  "ac_stream (expire_loop is a) = ac_stream a"
  "ac_running (expire_loop is a) = ac_running a"
  "ac_subscriptions (expire_loop is a) = ac_subscriptions a"
  "ac_items (expire_loop is a) = ac_items a"
  by (induction "is" a rule: expire_loop.induct) (simp_all split: option.splits)

lemma expire_fields [simp]:
  "ac_status (expire_pending_publishes t a) = ac_status a"
  "ac_sink (expire_pending_publishes t a) = ac_sink a"
  "ac_stream (expire_pending_publishes t a) = ac_stream a"
  "ac_running (expire_pending_publishes t a) = ac_running a"
  "ac_subscriptions (expire_pending_publishes t a) = ac_subscriptions a"
  "ac_items (expire_pending_publishes t a) = ac_items a"
  by (simp_all add: expire_pending_publishes_def)

lemma actor_ok_expire_loop:
  "actor_ok Q a \<Longrightarrow> actor_ok Q (expire_loop is a) \<and> slots (expire_loop is a) = slots a"
proof (induction "is" arbitrary: a)
  case (Cons i "is")
  let ?b = "case map_of (ac_pending_publishes a) i of None \<Rightarrow> a
     | Some p \<Rightarrow> answer_slot (pp_reply p) (Inl (CePublishTimeout i (pp_timeout p)))
         (a\<lparr>ac_pending_publishes := hm_remove i (ac_pending_publishes a)\<rparr>)"
  have inv: "hm_invar (ac_pending_publishes a)" using Cons.prems by (simp add: actor_ok_def)
  have "actor_ok Q ?b" using Cons.prems actor_ok_remove_pending [OF Cons.prems, of i] by (simp split: option.splits)
  moreover have "slots ?b = slots a" using slots_take [OF inv] by (simp split: option.splits)
  ultimately show ?case using Cons.IH [of ?b] by simp
qed simp

lemma actor_ok_expire:
  "actor_ok Q a \<Longrightarrow> actor_ok Q (expire_pending_publishes t a) \<and> slots (expire_pending_publishes t a) = slots a"
  by (simp add: expire_pending_publishes_def actor_ok_expire_loop)

lemma actor_ok_stop:
  assumes "actor_ok Q a"
  shows "actor_ok Q (actor_stop a) \<and> slots (actor_stop a) = slots a"
proof -
  have "mset (map (\<lambda>x. pp_reply (snd x)) (ac_pending_publishes a)) = waiting (ac_pending_publishes a)"
    by (simp add: waiting_def)
  then show ?thesis using assms
    by (simp add: actor_stop_def actor_ok_def Let_def drop_socket_def slots_def answered_def waiting_def hm.invar_empty o_def)
qed

section \<open>Every wakeup\<close>

theorem actor_step_ok:
  assumes ok: "actor_ok Q a" and ready: "wake_ready v w a"
  shows "actor_ok Q (actor_step X Y W Q v w a) \<and> slots (actor_step X Y W Q v w a) = wake_slots w + slots a"
proof (cases "ac_running a")
  case False
  then show ?thesis using ok
    by (auto simp: actor_step_def refuse_command_def command_slots_def split: wakeup.splits option.splits)
next
  case run: True
  note expire = actor_ok_expire [of Q _ "we_sweep v"]
  show ?thesis
  proof (cases w)
    case (WakeCommand c)
    then show ?thesis
      using run expire actor_ok_command [OF ok run] actor_ok_stop [OF ok]
      by (cases c) (auto simp: actor_step_def command_slots_def command_reply_def)
  next
    case (WakeDrop i)
    then show ?thesis using run expire [OF actor_ok_drop(1) [OF ok, of i]] actor_ok_drop(2) [OF ok, of i]
      by (simp add: actor_step_def)
  next
    case (WakeFrame f)
    define p where "p = (case f of None \<Rightarrow> (a, FrameDisconnected) | Some f \<Rightarrow> handle_frame X Y W Q f a)"
    have p: "actor_ok Q (fst p)" "slots (fst p) = slots a" "ac_running (fst p)"
      using ok run actor_ok_frame [OF ok] by (auto simp: p_def split: option.splits)
    show ?thesis using run WakeFrame expire p actor_ok_disconnect [OF p(1,3)]
      by (auto simp: actor_step_def Let_def p_def [symmetric] split: frame_outcome.splits)
  next
    case WakeReconnect
    then have "ac_reconnect_deadline a \<noteq> None" using ready by (auto simp: wake_ready_def split: option.splits)
    from actor_ok_reconnect [OF ok run this, of v] show ?thesis
      using run WakeReconnect expire by (auto simp: actor_step_def Let_def)
  next
    case WakePublishTimeout
    then show ?thesis using run expire [OF ok] by (simp add: actor_step_def)
  qed
qed

definition trace_slots :: "(wake_env \<times> wakeup) list \<Rightarrow> reply multiset" where
  "trace_slots ws = sum_list (map (\<lambda>e. wake_slots (snd e)) ws)"

theorem actor_trace_ok:
  "actor_trace X Y W Q ws a \<Longrightarrow> actor_ok Q a \<and> slots a = trace_slots ws"
proof (induction rule: actor_trace.induct)
  case trace_new
  have "slots actor_new = {#}" by (simp add: actor_new_def slots_def answered_def waiting_def)
  then show ?case by (simp add: actor_ok_new trace_slots_def)
next
  case (trace_step ws a v w)
  then show ?case using actor_step_ok [of Q a v w X Y W] by (simp add: trace_slots_def)
qed

end
