(* ===== verification/Client_History.thy ===== *)
theory Client_History
  imports Client_Invariant
begin

text \<open>
  What reached a caller and why. The locale \<open>registry\<close> is the contract of a table of registrations: entries come only from a
  registering wakeup, stay until a wakeup that ends them, and an output is either direct or delivered to an entry that is registered. Its
  lemma finds the registration of every output. The client interprets it twice: for the pending publishes, whose outputs are the
  successful answers, and for the subscriptions, whose outputs are the items of their streams.
\<close>

section \<open>Registrations\<close>

locale registry =
  fixes reach :: "'w list \<Rightarrow> 's \<Rightarrow> bool"
    and entries :: "'s \<Rightarrow> ('k \<times> 'c) set"
    and outputs :: "'s \<Rightarrow> 'x set"
    and registers :: "'w \<Rightarrow> 'k \<Rightarrow> 'c \<Rightarrow> bool"
    and ends :: "'w \<Rightarrow> 'k \<Rightarrow> bool"
    and direct :: "'w \<Rightarrow> 'x \<Rightarrow> bool"
    and delivers :: "'w \<Rightarrow> 'k \<Rightarrow> 'c \<Rightarrow> 'x \<Rightarrow> bool"
  assumes reach_init: "reach [] s \<Longrightarrow> entries s = {} \<and> outputs s = {}"
    and reach_prev: "reach (ws @ [w]) s' \<Longrightarrow> \<exists>s. reach ws s \<and>
      (\<forall>k c. (k, c) \<in> entries s' \<longrightarrow> (k, c) \<in> entries s \<and> \<not> ends w k \<or> registers w k c) \<and>
      (\<forall>x. x \<in> outputs s' \<longrightarrow> x \<in> outputs s \<or> direct w x \<or> (\<exists>k c. (k, c) \<in> entries s \<and> delivers w k c x))"
begin

lemma entry_registered:
  "reach ws s \<Longrightarrow> (k, c) \<in> entries s \<Longrightarrow> \<exists>us w vs. ws = us @ w # vs \<and> registers w k c \<and> (\<forall>x\<in>set vs. \<not> ends x k)"
proof (induction ws arbitrary: s rule: rev_induct)
  case Nil
  then show ?case using reach_init by auto
next
  case (snoc w ws)
  from reach_prev [OF snoc.prems(1)] obtain s0 where s0: "reach ws s0"
    "(k, c) \<in> entries s0 \<and> \<not> ends w k \<or> registers w k c" using snoc.prems(2) by blast
  show ?case
  proof (cases "registers w k c")
    case True
    then have "ws @ [w] = ws @ w # [] \<and> registers w k c \<and> (\<forall>x\<in>set []. \<not> ends x k)" by simp
    then show ?thesis by blast
  next
    case False
    with s0(2) have e: "(k, c) \<in> entries s0" "\<not> ends w k" by auto
    from snoc.IH [OF s0(1) e(1)] obtain us u vs where
      "ws = us @ u # vs" "registers u k c" "\<forall>x\<in>set vs. \<not> ends x k" by blast
    then have "ws @ [w] = us @ u # (vs @ [w]) \<and> registers u k c \<and> (\<forall>x\<in>set (vs @ [w]). \<not> ends x k)" using e(2) by simp
    then show ?thesis by blast
  qed
qed

lemma output_explained:
  "reach ws s \<Longrightarrow> x \<in> outputs s \<Longrightarrow>
     (\<exists>w\<in>set ws. direct w x) \<or>
     (\<exists>us w vs u zs k c. ws = us @ w # vs @ u # zs \<and> registers w k c \<and> (\<forall>y\<in>set vs. \<not> ends y k) \<and> delivers u k c x)"
proof (induction ws arbitrary: s rule: rev_induct)
  case Nil
  then show ?case using reach_init by auto
next
  case (snoc w ws)
  from reach_prev [OF snoc.prems(1)] obtain s0 where s0: "reach ws s0"
    "x \<in> outputs s0 \<or> direct w x \<or> (\<exists>k c. (k, c) \<in> entries s0 \<and> delivers w k c x)" using snoc.prems(2) by blast
  from s0(2) consider (old) "x \<in> outputs s0" | (dir) "direct w x" | (new) k c where "(k, c) \<in> entries s0" "delivers w k c x"
    by blast
  then show ?case
  proof cases
    case old
    from snoc.IH [OF s0(1) old] show ?thesis
    proof
      assume "\<exists>w\<in>set ws. direct w x" then show ?thesis by auto
    next
      assume "\<exists>us w vs u zs k c. ws = us @ w # vs @ u # zs \<and> registers w k c \<and> (\<forall>y\<in>set vs. \<not> ends y k) \<and> delivers u k c x"
      then obtain us r vs u zs k c where "ws = us @ r # vs @ u # zs" "registers r k c" "\<forall>y\<in>set vs. \<not> ends y k" "delivers u k c x"
        by blast
      then have "ws @ [w] = us @ r # vs @ u # (zs @ [w]) \<and> registers r k c \<and> (\<forall>y\<in>set vs. \<not> ends y k) \<and> delivers u k c x" by simp
      then show ?thesis by blast
    qed
  next
    case dir then show ?thesis by auto
  next
    case new
    from entry_registered [OF s0(1) new(1)] obtain us r vs where
      "ws = us @ r # vs" "registers r k c" "\<forall>x\<in>set vs. \<not> ends x k" by blast
    then have "ws @ [w] = us @ r # vs @ w # [] \<and> registers r k c \<and> (\<forall>y\<in>set vs. \<not> ends y k) \<and> delivers w k c x" using new(2) by simp
    then show ?thesis by blast
  qed
qed

end

section \<open>What a frame says\<close>

definition frame_message ::
  "crates \<Rightarrow> sig_text \<Rightarrow> wire_crate \<Rightarrow> client_options \<Rightarrow> wakeup \<Rightarrow> relay_message option" where
  "frame_message X Y W Q w =
     (case w of
        WakeFrame (Some (Inr (MsgText txt))) \<Rightarrow>
          if cl_max_message_bytes (co_limits Q) < length txt then None else relay_from_json X Y W txt
      | _ \<Rightarrow> None)"

definition carries :: "subscription_id \<Rightarrow> subscription_item \<Rightarrow> relay_message \<Rightarrow> bool" where
  "carries i it m =
     (case it of
        ItemEvent e \<Rightarrow> m = REvent i e
      | ItemEndOfStoredEvents \<Rightarrow> m = REndOfStoredEvents i
      | ItemClosed msg \<Rightarrow> m = RClosed i msg
      | ItemNegMsg msg \<Rightarrow> m = RNegMsg i msg
      | ItemNegErr msg \<Rightarrow> m = RNegErr i msg)"

text \<open>The messages after which a subscription is gone.\<close>

definition closes :: "subscription_id \<Rightarrow> relay_message \<Rightarrow> bool" where
  "closes i m = (case m of RClosed j _ \<Rightarrow> j = i | RNegErr j _ \<Rightarrow> j = i | _ \<Rightarrow> False)"

definition answers_publish :: "event_id \<Rightarrow> relay_message \<Rightarrow> bool" where
  "answers_publish i m = (case m of ROk j _ _ \<Rightarrow> j = i | _ \<Rightarrow> False)"

definition publishes :: "wakeup \<Rightarrow> event_id \<Rightarrow> reply \<Rightarrow> bool" where
  "publishes w i slot = (case w of WakeCommand (Some (CmdPublish e _ s)) \<Rightarrow> ev_id e = i \<and> s = slot | _ \<Rightarrow> False)"

definition subscribes :: "wakeup \<Rightarrow> subscription_id \<Rightarrow> item_channel \<Rightarrow> bool" where
  "subscribes w i ch =
     (case w of
        WakeCommand (Some (CmdSubscribe j _ _ c _)) \<Rightarrow> j = i \<and> c = ch
      | WakeCommand (Some (CmdSubscribeNeg j _ _ c _)) \<Rightarrow> j = i \<and> c = ch
      | _ \<Rightarrow> False)"

definition other_command :: "wakeup \<Rightarrow> reply \<Rightarrow> bool" where
  "other_command w slot =
     (case w of
        WakeCommand (Some c) \<Rightarrow> command_reply c = Some slot \<and> (case c of CmdPublish _ _ _ \<Rightarrow> False | _ \<Rightarrow> True)
      | _ \<Rightarrow> False)"

definition pending_slots :: "actor \<Rightarrow> (event_id \<times> reply) set" where
  "pending_slots a = (\<lambda>e. (fst e, pp_reply (snd e))) ` set (ac_pending_publishes a)"

definition confirmed_slots :: "actor \<Rightarrow> reply set" where
  "confirmed_slots a = {slot. (slot, Inr ()) \<in> set (ac_answers a)}"

definition open_channels :: "actor \<Rightarrow> (subscription_id \<times> item_channel) set" where
  "open_channels a = (\<lambda>e. (fst e, se_sink (snd e))) ` set (ac_subscriptions a)"

lemma set_hm_remove: "set (hm_remove k m) = {e \<in> set m. fst e \<noteq> k}"
  by (auto simp: hm_remove_def AList.delete_eq)

lemma set_hm_insert: "hm_invar m \<Longrightarrow> set (hm_insert k v m) = insert (k, v) {e \<in> set m. fst e \<noteq> k}"
  using arg_cong [OF mset_hm_insert [of m k v], of set_mset] by (simp add: set_hm_remove)

lemmas outcome_defs = pending_slots_def confirmed_slots_def open_channels_def set_hm_remove

section \<open>Commands, frames and timers\<close>

lemma pending_slots_cong: "ac_pending_publishes a' = ac_pending_publishes a \<Longrightarrow> pending_slots a' = pending_slots a"
  by (simp add: pending_slots_def)

lemma command_pending:
  assumes "hm_invar (ac_pending_publishes a)" and "(i, slot) \<in> pending_slots (handle_command Q v c a)"
  shows "(i, slot) \<in> pending_slots a \<or> publishes (WakeCommand (Some c)) i slot"
  using assms
  by (cases c) (auto simp: pending_slots_def publishes_def handle_command_def handle_connect_def handle_disconnect_def
      drop_socket_def handle_subscribe_def handle_subscribe_neg_def handle_publish_def handle_authenticate_def handle_send_msg_def
      handle_send_def perform_connect_fields Let_def set_hm_insert split: if_splits option.splits sum.splits)

lemma command_confirmed:
  assumes "slot \<in> confirmed_slots (handle_command Q v c a)"
  shows "slot \<in> confirmed_slots a \<or> other_command (WakeCommand (Some c)) slot"
  using assms
  by (cases c) (auto simp: confirmed_slots_def other_command_def command_reply_def handle_command_def handle_connect_def
      handle_disconnect_def drop_socket_def handle_subscribe_def handle_subscribe_neg_def handle_publish_def
      handle_authenticate_def handle_send_msg_def handle_send_def perform_connect_fields Let_def
      split: if_splits option.splits sum.splits)

lemma command_channels:
  assumes "hm_invar (ac_subscriptions a)" and "(i, ch) \<in> open_channels (handle_command Q v c a)"
  shows "(i, ch) \<in> open_channels a \<or> subscribes (WakeCommand (Some c)) i ch"
  using assms
  by (cases c) (auto simp: open_channels_def subscribes_def handle_command_def handle_connect_def handle_disconnect_def
      drop_socket_def handle_subscribe_def handle_subscribe_neg_def handle_publish_def handle_authenticate_def handle_send_msg_def
      handle_send_def perform_connect_fields Let_def set_hm_insert set_hm_remove split: if_splits option.splits sum.splits)

lemma command_items: "ac_items (handle_command Q v c a) = ac_items a"
  by (cases c) (auto simp: handle_command_def handle_connect_def handle_disconnect_def drop_socket_def handle_subscribe_def
      handle_subscribe_neg_def handle_publish_def handle_authenticate_def handle_send_msg_def handle_send_def
      perform_connect_fields Let_def split: option.splits sum.splits)

lemma dispatch_pending:
  "pending_slots (dispatch_relay_message m a) \<subseteq> {e \<in> pending_slots a. \<not> answers_publish (fst e) m}"
  by (cases m) (auto simp: outcome_defs dispatch_relay_message_def answers_publish_def map_of_eq_None_iff
      rev_image_eqI split: option.splits)

lemma dispatch_confirmed:
  assumes "slot \<in> confirmed_slots (dispatch_relay_message m a)"
  shows "slot \<in> confirmed_slots a \<or> (\<exists>i msg. (i, slot) \<in> pending_slots a \<and> m = ROk i True msg)"
  using assms
  by (cases m) (force simp: outcome_defs dispatch_relay_message_def dest: map_of_SomeD split: option.splits if_splits)+

lemma dispatch_channels:
  "open_channels (dispatch_relay_message m a) \<subseteq> {e \<in> open_channels a. \<not> closes (fst e) m}"
  by (cases m) (auto simp: outcome_defs dispatch_relay_message_def end_subscription_def closes_def map_of_eq_None_iff
      rev_image_eqI split: option.splits if_splits)

lemma dispatch_items:
  assumes "(ch, it) \<in> set (ac_items (dispatch_relay_message m a))"
  shows "(ch, it) \<in> set (ac_items a) \<or> (\<exists>i. (i, ch) \<in> open_channels a \<and> carries i it m)"
  using assms
  by (cases m) (force simp: outcome_defs dispatch_relay_message_def to_subscription_def end_subscription_def carries_def
      dest: map_of_SomeD split: option.splits if_splits)+

text \<open>A frame is the dispatch of its message, up to counters.\<close>

lemma frame_dispatch:
  assumes "f = Some g"
  shows "\<exists>st. (case frame_message X Y W Q (WakeFrame f) of
     None \<Rightarrow> fst (handle_frame X Y W Q g a) = a\<lparr>ac_stats := st\<rparr>
   | Some m \<Rightarrow> fst (handle_frame X Y W Q g a) = dispatch_relay_message m (a\<lparr>ac_stats := st\<rparr>))"
proof (cases "\<exists>txt. g = Inr (MsgText txt) \<and> length txt \<le> cl_max_message_bytes (co_limits Q)")
  case True
  then obtain tx where "g = Inr (MsgText tx)" "length tx \<le> cl_max_message_bytes (co_limits Q)" by blast
  then show ?thesis using assms
    by (intro exI [of _ "(ac_stats a)\<lparr>cs_bytes_received := cs_bytes_received (ac_stats a) + of_nat (length tx)\<rparr>"])
      (simp add: handle_frame_def handle_text_frame_def frame_message_def Let_def split: option.splits)
next
  case False
  then show ?thesis using assms
    by (intro exI [of _ "ac_stats a"])
      (auto simp: handle_frame_def handle_text_frame_def frame_message_def split: sum.splits ws_message.splits)
qed

lemma outcome_stats [simp]:
  "pending_slots (a\<lparr>ac_stats := s\<rparr>) = pending_slots a"
  "confirmed_slots (a\<lparr>ac_stats := s\<rparr>) = confirmed_slots a"
  "open_channels (a\<lparr>ac_stats := s\<rparr>) = open_channels a"
  "pending_slots (a\<lparr>ac_reconnect_deadline := d\<rparr>) = pending_slots a"
  "confirmed_slots (a\<lparr>ac_reconnect_deadline := d\<rparr>) = confirmed_slots a"
  "open_channels (a\<lparr>ac_reconnect_deadline := d\<rparr>) = open_channels a"
  by (simp_all add: outcome_defs)

lemma outcome_disconnect [simp]:
  "pending_slots (handle_disconnect a) = pending_slots a"
  "confirmed_slots (handle_disconnect a) = confirmed_slots a"
  "open_channels (handle_disconnect a) = open_channels a"
  "ac_items (handle_disconnect a) = ac_items a"
  by (simp_all add: outcome_defs handle_disconnect_def drop_socket_def)

lemma outcome_reconnect [simp]:
  "pending_slots (run_reconnect Q v a) = pending_slots a"
  "confirmed_slots (run_reconnect Q v a) = confirmed_slots a"
  "open_channels (run_reconnect Q v a) = open_channels a"
  "ac_items (run_reconnect Q v a) = ac_items a"
  by (simp_all add: outcome_defs run_reconnect_def perform_connect_fields Let_def)

lemma outcome_drop [simp]:
  "pending_slots (handle_drop_subscription i a) = pending_slots a"
  "confirmed_slots (handle_drop_subscription i a) = confirmed_slots a"
  "open_channels (handle_drop_subscription i a) = {e \<in> open_channels a. fst e \<noteq> i}"
  "ac_items (handle_drop_subscription i a) = ac_items a"
  by (simp_all add: pending_slots_def confirmed_slots_def handle_drop_subscription_def)
    (force simp: open_channels_def set_hm_remove handle_drop_subscription_def map_of_eq_None_iff)+

lemma expire_loop_pending:
  "set (ac_pending_publishes (expire_loop is a)) = {e \<in> set (ac_pending_publishes a). fst e \<notin> set is}"
  by (induction "is" a rule: expire_loop.induct) (auto simp: set_hm_remove map_of_eq_None_iff rev_image_eqI split: option.splits)

lemma expire_pending:
  "set (ac_pending_publishes (expire_pending_publishes t a)) \<subseteq> {e \<in> set (ac_pending_publishes a). t < pp_deadline (snd e)}"
  by (auto simp: expire_pending_publishes_def expire_loop_pending rev_image_eqI)

lemma expire_loop_confirmed: "confirmed_slots (expire_loop is a) = confirmed_slots a"
  by (induction "is" a rule: expire_loop.induct) (auto simp: confirmed_slots_def split: option.splits)

lemma outcome_expire:
  "pending_slots (expire_pending_publishes t a) \<subseteq> pending_slots a"
  "confirmed_slots (expire_pending_publishes t a) = confirmed_slots a"
  "open_channels (expire_pending_publishes t a) = open_channels a"
  using expire_pending [of t a] by (auto simp: pending_slots_def open_channels_def expire_pending_publishes_def expire_loop_confirmed)

lemma outcome_stop:
  "pending_slots (actor_stop a) = {}" "confirmed_slots (actor_stop a) = confirmed_slots a"
  "open_channels (actor_stop a) = {}" "ac_items (actor_stop a) = ac_items a"
  by (auto simp: outcome_defs actor_stop_def drop_socket_def Let_def)

section \<open>Every wakeup\<close>

definition ends_publish :: "crates \<Rightarrow> sig_text \<Rightarrow> wire_crate \<Rightarrow> client_options \<Rightarrow> wakeup \<Rightarrow> event_id \<Rightarrow> bool" where
  "ends_publish X Y W Q w i =
     (w = WakeCommand None \<or> w = WakeCommand (Some CmdShutdown) \<or>
      (case frame_message X Y W Q w of None \<Rightarrow> False | Some m \<Rightarrow> answers_publish i m))"

definition ends_subscription :: "crates \<Rightarrow> sig_text \<Rightarrow> wire_crate \<Rightarrow> client_options \<Rightarrow> wakeup \<Rightarrow> subscription_id \<Rightarrow> bool" where
  "ends_subscription X Y W Q w i =
     (w = WakeCommand None \<or> w = WakeCommand (Some CmdShutdown) \<or> w = WakeDrop i \<or>
      (case frame_message X Y W Q w of None \<Rightarrow> False | Some m \<Rightarrow> closes i m))"

text \<open>The state a frame leaves before the sweep.\<close>

lemma wake_frame_state:
  assumes "ac_running a"
  obtains st d b where
    "actor_step X Y W Q v (WakeFrame f) a = expire_pending_publishes (we_sweep v) b"
    "pending_slots b = pending_slots (case frame_message X Y W Q (WakeFrame f) of None \<Rightarrow> a | Some m \<Rightarrow> dispatch_relay_message m (a\<lparr>ac_stats := st\<rparr>))"
    "confirmed_slots b = confirmed_slots (case frame_message X Y W Q (WakeFrame f) of None \<Rightarrow> a | Some m \<Rightarrow> dispatch_relay_message m (a\<lparr>ac_stats := st\<rparr>))"
    "open_channels b = open_channels (case frame_message X Y W Q (WakeFrame f) of None \<Rightarrow> a | Some m \<Rightarrow> dispatch_relay_message m (a\<lparr>ac_stats := st\<rparr>))"
    "ac_items b = ac_items (case frame_message X Y W Q (WakeFrame f) of None \<Rightarrow> a | Some m \<Rightarrow> dispatch_relay_message m (a\<lparr>ac_stats := st\<rparr>))"
proof -
  define p where "p = (case f of None \<Rightarrow> (a, FrameDisconnected) | Some f \<Rightarrow> handle_frame X Y W Q f a)"
  define b where "b = (case snd p of FrameContinue \<Rightarrow> fst p
      | FrameDisconnected \<Rightarrow> let d = handle_disconnect (fst p) in d\<lparr>ac_reconnect_deadline := schedule_reconnect Q v d\<rparr>)"
  have step: "actor_step X Y W Q v (WakeFrame f) a = expire_pending_publishes (we_sweep v) b"
    using assms by (simp add: actor_step_def Let_def b_def flip: p_def)
  have b: "pending_slots b = pending_slots (fst p)" "confirmed_slots b = confirmed_slots (fst p)"
    "open_channels b = open_channels (fst p)" "ac_items b = ac_items (fst p)"
    by (simp_all add: b_def Let_def split: frame_outcome.splits)
  obtain st where "case frame_message X Y W Q (WakeFrame f) of
      None \<Rightarrow> fst p = a\<lparr>ac_stats := st\<rparr> | Some m \<Rightarrow> fst p = dispatch_relay_message m (a\<lparr>ac_stats := st\<rparr>)"
  proof (cases f)
    case None
    then have "fst p = a\<lparr>ac_stats := ac_stats a\<rparr>" "frame_message X Y W Q (WakeFrame f) = None"
      by (simp_all add: p_def frame_message_def)
    then show ?thesis using that [of "ac_stats a"] by simp
  next
    case (Some g)
    then have "fst p = fst (handle_frame X Y W Q g a)" by (simp add: p_def)
    then show ?thesis using that frame_dispatch [OF Some, of X Y W Q a] unfolding \<open>fst p = _\<close> by blast
  qed
  then show ?thesis using that [OF step, of st] b by (auto split: option.splits)
qed

lemma step_stopped:
  assumes "\<not> ac_running a" and "actor_ok Q a"
  shows "pending_slots (actor_step X Y W Q v w a) = {}" and "open_channels (actor_step X Y W Q v w a) = {}"
    and "confirmed_slots (actor_step X Y W Q v w a) = confirmed_slots a" and "ac_items (actor_step X Y W Q v w a) = ac_items a"
  using assms by (auto simp: actor_ok_def actor_step_def refuse_command_def outcome_defs split: wakeup.splits option.splits)

lemma step_command_cases:
  assumes "ac_running a"
  obtains (stop) "c = None \<or> c = Some CmdShutdown" "actor_step X Y W Q v (WakeCommand c) a = actor_stop a"
    | (handle) d where "c = Some d" "d \<noteq> CmdShutdown"
      "actor_step X Y W Q v (WakeCommand c) a = expire_pending_publishes (we_sweep v) (handle_command Q v d a)"
  using assms by (cases c) (auto simp: actor_step_def split: if_splits)

lemma step_publishes:
  assumes ok: "actor_ok Q a"
  shows "(i, slot) \<in> pending_slots (actor_step X Y W Q v w a) \<Longrightarrow>
           (i, slot) \<in> pending_slots a \<and> \<not> ends_publish X Y W Q w i \<or> publishes w i slot"
    and "slot \<in> confirmed_slots (actor_step X Y W Q v w a) \<Longrightarrow>
           slot \<in> confirmed_slots a \<or> other_command w slot \<or>
           (\<exists>i msg. (i, slot) \<in> pending_slots a \<and> frame_message X Y W Q w = Some (ROk i True msg))"
proof -
  have inv: "hm_invar (ac_pending_publishes a)" using ok by (simp add: actor_ok_def)
  note sweep = outcome_expire [of "we_sweep v"]
  have "((i, slot) \<in> pending_slots (actor_step X Y W Q v w a) \<longrightarrow>
           (i, slot) \<in> pending_slots a \<and> \<not> ends_publish X Y W Q w i \<or> publishes w i slot) \<and>
        (slot \<in> confirmed_slots (actor_step X Y W Q v w a) \<longrightarrow>
           slot \<in> confirmed_slots a \<or> other_command w slot \<or>
           (\<exists>i msg. (i, slot) \<in> pending_slots a \<and> frame_message X Y W Q w = Some (ROk i True msg)))"
  proof (cases "ac_running a")
    case False
    then show ?thesis using step_stopped [OF False ok] by auto
  next
    case run: True
    show ?thesis
    proof (cases w)
      case (WakeCommand c)
      from run show ?thesis
      proof (cases rule: step_command_cases [of a c X Y W Q v])
        case stop
        then show ?thesis by (simp add: WakeCommand outcome_stop)
      next
        case (handle d)
        then show ?thesis using command_pending [OF inv, of i slot Q v d] command_confirmed [of slot Q v d a]
          sweep(1,2) [of "handle_command Q v d a"] by (auto simp: WakeCommand ends_publish_def frame_message_def)
      qed
    next
      case (WakeFrame f)
      from wake_frame_state [OF run, of X Y W Q v f] obtain st b where b:
        "actor_step X Y W Q v (WakeFrame f) a = expire_pending_publishes (we_sweep v) b"
        "pending_slots b = pending_slots (case frame_message X Y W Q (WakeFrame f) of None \<Rightarrow> a
           | Some m \<Rightarrow> dispatch_relay_message m (a\<lparr>ac_stats := st\<rparr>))"
        "confirmed_slots b = confirmed_slots (case frame_message X Y W Q (WakeFrame f) of None \<Rightarrow> a
           | Some m \<Rightarrow> dispatch_relay_message m (a\<lparr>ac_stats := st\<rparr>))" by metis
      show ?thesis
      proof (cases "frame_message X Y W Q (WakeFrame f)")
        case None
        then show ?thesis using b sweep [of b] WakeFrame by (auto simp: ends_publish_def)
      next
        case (Some m)
        then show ?thesis using b sweep [of b] WakeFrame dispatch_pending [of m "a\<lparr>ac_stats := st\<rparr>"]
          dispatch_confirmed [of slot m "a\<lparr>ac_stats := st\<rparr>"] by (auto simp: ends_publish_def)
      qed
    qed (use run in \<open>auto simp: actor_step_def Let_def ends_publish_def frame_message_def sweep(2) dest!: subsetD [OF sweep(1)]
      split: if_splits\<close>)
  qed
  then show "(i, slot) \<in> pending_slots (actor_step X Y W Q v w a) \<Longrightarrow>
           (i, slot) \<in> pending_slots a \<and> \<not> ends_publish X Y W Q w i \<or> publishes w i slot"
    and "slot \<in> confirmed_slots (actor_step X Y W Q v w a) \<Longrightarrow>
           slot \<in> confirmed_slots a \<or> other_command w slot \<or>
           (\<exists>i msg. (i, slot) \<in> pending_slots a \<and> frame_message X Y W Q w = Some (ROk i True msg))" by blast+
qed

lemma step_channels:
  assumes ok: "actor_ok Q a"
  shows "((i, ch) \<in> open_channels (actor_step X Y W Q v w a) \<longrightarrow>
           (i, ch) \<in> open_channels a \<and> \<not> ends_subscription X Y W Q w i \<or> subscribes w i ch) \<and>
         ((ch, it) \<in> set (ac_items (actor_step X Y W Q v w a)) \<longrightarrow>
           (ch, it) \<in> set (ac_items a) \<or>
           (\<exists>i m. (i, ch) \<in> open_channels a \<and> frame_message X Y W Q w = Some m \<and> carries i it m))"
proof (cases "ac_running a")
  case False
  then show ?thesis using step_stopped [OF False ok] by auto
next
  case run: True
  have inv: "hm_invar (ac_subscriptions a)" using ok by (simp add: actor_ok_def)
  note sweep = outcome_expire(3) [of "we_sweep v"]
  show ?thesis
  proof (cases w)
    case (WakeCommand c)
    from run show ?thesis
    proof (cases rule: step_command_cases [of a c X Y W Q v])
      case stop
      then show ?thesis by (simp add: WakeCommand outcome_stop)
    next
      case (handle d)
      then show ?thesis using command_channels [OF inv, of i ch Q v d]
        by (auto simp: WakeCommand ends_subscription_def frame_message_def sweep command_items)
    qed
  next
    case (WakeFrame f)
    from wake_frame_state [OF run, of X Y W Q v f] obtain st b where b:
      "actor_step X Y W Q v (WakeFrame f) a = expire_pending_publishes (we_sweep v) b"
      "open_channels b = open_channels (case frame_message X Y W Q (WakeFrame f) of None \<Rightarrow> a
         | Some m \<Rightarrow> dispatch_relay_message m (a\<lparr>ac_stats := st\<rparr>))"
      "ac_items b = ac_items (case frame_message X Y W Q (WakeFrame f) of None \<Rightarrow> a
         | Some m \<Rightarrow> dispatch_relay_message m (a\<lparr>ac_stats := st\<rparr>))" by metis
    show ?thesis
    proof (cases "frame_message X Y W Q (WakeFrame f)")
      case None
      then show ?thesis using b WakeFrame by (auto simp: ends_subscription_def sweep)
    next
      case (Some m)
      then show ?thesis using b WakeFrame dispatch_channels [of m "a\<lparr>ac_stats := st\<rparr>"]
        dispatch_items [of ch it m "a\<lparr>ac_stats := st\<rparr>"] by (auto simp: ends_subscription_def sweep)
    qed
  qed (use run in \<open>auto simp: actor_step_def Let_def ends_subscription_def frame_message_def sweep\<close>)
qed

section \<open>The two registries of the client\<close>

inductive_cases actor_trace_NilE: "actor_trace X Y W Q [] a"
inductive_cases actor_trace_snocE: "actor_trace X Y W Q (ws @ [w]) a"

lemma actor_trace_prev:
  assumes "actor_trace X Y W Q (ws @ [e]) a'"
  obtains a where "actor_trace X Y W Q ws a" "actor_ok Q a" "wake_ready (fst e) (snd e) a"
    "a' = actor_step X Y W Q (fst e) (snd e) a"
  using assms actor_trace_ok by (auto elim!: actor_trace_snocE)

interpretation publish_registry: registry "actor_trace X Y W Q" pending_slots confirmed_slots
  "\<lambda>e. publishes (snd e)" "\<lambda>e. ends_publish X Y W Q (snd e)" "\<lambda>e. other_command (snd e)"
  "\<lambda>e i s slot. s = slot \<and> (\<exists>msg. frame_message X Y W Q (snd e) = Some (ROk i True msg))"
  for X Y W Q
proof unfold_locales
  fix s assume "actor_trace X Y W Q [] s"
  then show "pending_slots s = {} \<and> confirmed_slots s = {}"
    by (auto elim!: actor_trace_NilE simp: actor_new_def outcome_defs)
next
  fix ws e s' assume "actor_trace X Y W Q (ws @ [e]) s'"
  from actor_trace_prev [OF this] obtain a where a: "actor_trace X Y W Q ws a" "actor_ok Q a"
    "s' = actor_step X Y W Q (fst e) (snd e) a" by metis
  show "\<exists>s. actor_trace X Y W Q ws s \<and>
      (\<forall>k c. (k, c) \<in> pending_slots s' \<longrightarrow> (k, c) \<in> pending_slots s \<and> \<not> ends_publish X Y W Q (snd e) k \<or> publishes (snd e) k c) \<and>
      (\<forall>x. x \<in> confirmed_slots s' \<longrightarrow> x \<in> confirmed_slots s \<or> other_command (snd e) x \<or>
        (\<exists>k c. (k, c) \<in> pending_slots s \<and> c = x \<and> (\<exists>msg. frame_message X Y W Q (snd e) = Some (ROk k True msg))))"
  proof (intro exI conjI allI impI)
    show "actor_trace X Y W Q ws a" by fact
    show "(k, c) \<in> pending_slots a \<and> \<not> ends_publish X Y W Q (snd e) k \<or> publishes (snd e) k c"
      if "(k, c) \<in> pending_slots s'" for k c
      using step_publishes(1) [OF a(2) that [unfolded a(3)]] .
    show "x \<in> confirmed_slots a \<or> other_command (snd e) x \<or>
        (\<exists>k c. (k, c) \<in> pending_slots a \<and> c = x \<and> (\<exists>msg. frame_message X Y W Q (snd e) = Some (ROk k True msg)))"
      if "x \<in> confirmed_slots s'" for x
      using step_publishes(2) [OF a(2) that [unfolded a(3)]] by blast
  qed
qed

interpretation channel_registry: registry "actor_trace X Y W Q" open_channels "\<lambda>a. set (ac_items a)"
  "\<lambda>e. subscribes (snd e)" "\<lambda>e. ends_subscription X Y W Q (snd e)" "\<lambda>_ _. False"
  "\<lambda>e i ch x. fst x = ch \<and> (\<exists>m. frame_message X Y W Q (snd e) = Some m \<and> carries i (snd x) m)"
  for X Y W Q
proof unfold_locales
  fix s assume "actor_trace X Y W Q [] s"
  then show "open_channels s = {} \<and> set (ac_items s) = {}"
    by (auto elim!: actor_trace_NilE simp: actor_new_def outcome_defs)
next
  fix ws e s' assume "actor_trace X Y W Q (ws @ [e]) s'"
  from actor_trace_prev [OF this] obtain a where a: "actor_trace X Y W Q ws a" "actor_ok Q a"
    "s' = actor_step X Y W Q (fst e) (snd e) a" by metis
  have st: "(k, c) \<in> open_channels s' \<longrightarrow> (k, c) \<in> open_channels a \<and> \<not> ends_subscription X Y W Q (snd e) k \<or> subscribes (snd e) k c"
    "x \<in> set (ac_items s') \<longrightarrow> x \<in> set (ac_items a) \<or>
       (\<exists>i m. (i, fst x) \<in> open_channels a \<and> frame_message X Y W Q (snd e) = Some m \<and> carries i (snd x) m)" for k c x
    using step_channels [OF a(2), of k c X Y W "fst e" "snd e"]
      step_channels [OF a(2), of _ "fst x" X Y W "fst e" "snd e" "snd x"] unfolding a(3) by auto
  show "\<exists>s. actor_trace X Y W Q ws s \<and>
      (\<forall>k c. (k, c) \<in> open_channels s' \<longrightarrow> (k, c) \<in> open_channels s \<and> \<not> ends_subscription X Y W Q (snd e) k \<or> subscribes (snd e) k c) \<and>
      (\<forall>x. x \<in> set (ac_items s') \<longrightarrow> x \<in> set (ac_items s) \<or> False \<or>
        (\<exists>k c. (k, c) \<in> open_channels s \<and> fst x = c \<and> (\<exists>m. frame_message X Y W Q (snd e) = Some m \<and> carries k (snd x) m)))"
  proof (intro exI conjI allI)
    show "actor_trace X Y W Q ws a" by fact
  qed (use st in auto)
qed

end
