(* ===== verification/Relay_Pool.thy ===== *)
theory Relay_Pool
  imports Client_History
begin

text \<open>
  The pool of relay clients (nula-relay: pool/). The record \<open>relay_pool\<close> is \<open>Inner\<close>: the registered relays with their capabilities and
  options, the shutdown flag and, as a log, what was broadcast. A fan-out asks relays concurrently; what each relay answers and the order in which
  the answers arrive are arguments (the actors of \<open>Client_Actor\<close> give the answers), and every call returns the requests it made to relay clients
  with its result. The driver of an event stream is the record
  \<open>stream_driver\<close>, with a log of what it saved and sent, and \<open>driver_step\<close> one turn of its loop. The \<open>lru\<close> crate is the argument \<open>L\<close>. The texts of errors are the
  argument \<open>rt\<close>. The crate is taken with its \<open>nip42\<close> and \<open>default-transport\<close> features, so a relay can always be built.
\<close>

section \<open>Capabilities\<close>

type_synonym relay_capabilities = u8

definition CAP_READ :: relay_capabilities where "CAP_READ = 1"
definition CAP_WRITE :: relay_capabilities where "CAP_WRITE = 2"
definition CAP_DISCOVERY :: relay_capabilities where "CAP_DISCOVERY = 4"
definition CAP_GOSSIP :: relay_capabilities where "CAP_GOSSIP = 8"

unbundle bit_operations_syntax

definition caps_default :: relay_capabilities where
  "caps_default = CAP_READ OR CAP_WRITE"

definition has_any :: "relay_capabilities \<Rightarrow> relay_capabilities \<Rightarrow> bool" where
  "has_any c other \<longleftrightarrow> c AND other \<noteq> 0"

definition caps_truncate :: "u8 \<Rightarrow> relay_capabilities" where
  "caps_truncate b = b AND (CAP_READ OR CAP_WRITE OR CAP_DISCOVERY OR CAP_GOSSIP)"

definition caps_load :: "u8 \<Rightarrow> relay_capabilities" where
  "caps_load cell = caps_truncate cell"

definition caps_store :: "relay_capabilities \<Rightarrow> u8 \<Rightarrow> u8 \<times> relay_capabilities" where
  "caps_store new cell = (new, caps_truncate cell)"

definition caps_add :: "relay_capabilities \<Rightarrow> u8 \<Rightarrow> u8" where
  "caps_add c cell = cell OR c"

definition caps_remove :: "relay_capabilities \<Rightarrow> u8 \<Rightarrow> u8" where
  "caps_remove c cell = cell AND NOT c"

section \<open>Results of a fan-out\<close>

record 'a pool_output =
  out_value :: 'a
  out_success :: "relay_url list"
  out_failed :: "(relay_url, string) hash_map"

definition output_new :: "'a \<Rightarrow> 'a pool_output" where
  "output_new x = \<lparr>out_value = x, out_success = [], out_failed = []\<rparr>"

definition is_full_success :: "'a pool_output \<Rightarrow> bool" where
  "is_full_success out \<longleftrightarrow> out_success out \<noteq> [] \<and> out_failed out = []"

definition is_partial_success :: "'a pool_output \<Rightarrow> bool" where
  "is_partial_success out \<longleftrightarrow> out_success out \<noteq> [] \<and> out_failed out \<noteq> []"

definition is_total_failure :: "'a pool_output \<Rightarrow> bool" where
  "is_total_failure out \<longleftrightarrow> out_success out = []"

definition output_map :: "('a \<Rightarrow> 'b) \<Rightarrow> 'a pool_output \<Rightarrow> 'b pool_output" where
  "output_map g out = \<lparr>out_value = g (out_value out), out_success = out_success out, out_failed = out_failed out\<rparr>"

definition record_result :: "relay_url \<times> (string + unit) \<Rightarrow> 'a pool_output \<Rightarrow> 'a pool_output" where
  "record_result r out =
     (case snd r of
        Inr _ \<Rightarrow> out\<lparr>out_success := List.insert (fst r) (out_success out)\<rparr>
      | Inl err \<Rightarrow> out\<lparr>out_failed := hm_insert (fst r) err (out_failed out)\<rparr>)"

fun collect_results :: "(relay_url \<times> (string + unit)) list \<Rightarrow> 'a pool_output \<Rightarrow> 'a pool_output" where
  "collect_results [] out = out"
| "collect_results (r # rs) out = collect_results rs (record_result r out)"

section \<open>Options and state\<close>

record pool_options =
  pl_max_relays :: "nat option"
  pl_notification_channel_size :: nat
  pl_dedup_cache_size :: nat
  pl_auto_save_events :: bool
  pl_relay_options :: client_options

definition pool_options_default :: pool_options where
  "pool_options_default = \<lparr>pl_max_relays = None, pl_notification_channel_size = 4096, pl_dedup_cache_size = 100000,
     pl_auto_save_events = True, pl_relay_options = client_options_default\<rparr>"

definition with_max_relays :: "nat option \<Rightarrow> pool_options \<Rightarrow> pool_options" where
  "with_max_relays m opts = opts\<lparr>pl_max_relays := m\<rparr>"

definition with_notification_channel_size :: "nat \<Rightarrow> pool_options \<Rightarrow> pool_options" where
  "with_notification_channel_size n opts = opts\<lparr>pl_notification_channel_size := n\<rparr>"

definition with_dedup_cache_size :: "nat \<Rightarrow> pool_options \<Rightarrow> pool_options" where
  "with_dedup_cache_size n opts = opts\<lparr>pl_dedup_cache_size := n\<rparr>"

definition with_auto_save_events :: "bool \<Rightarrow> pool_options \<Rightarrow> pool_options" where
  "with_auto_save_events b opts = opts\<lparr>pl_auto_save_events := b\<rparr>"

definition with_relay_options :: "client_options \<Rightarrow> pool_options \<Rightarrow> pool_options" where
  "with_relay_options Q opts = opts\<lparr>pl_relay_options := Q\<rparr>"

datatype pool_error =
    PeShutdown
  | PeRelayNotFound relay_url
  | PeTooManyRelays nat
  | PeNoRelaysSpecified
  | PeRelay client_error
  | PeStorage
  | PeMissingDatabase
  | PeMissingTransport

datatype pool_notification =
    PoolRelayAdded relay_url
  | PoolRelayRemoved relay_url
  | PoolStatus relay_url relay_status
  | PoolNotice relay_url string
  | PoolShutdown

record pool_entry =
  pe_capabilities :: u8
  pe_options :: client_options

record relay_pool =
  rp_options :: pool_options
  rp_relays :: "(relay_url, pool_entry) hash_map"
  rp_notes :: "pool_notification list"
  rp_shutdown :: bool

definition pool_new :: "pool_options \<Rightarrow> relay_pool" where
  "pool_new opts = \<lparr>rp_options = opts, rp_relays = [], rp_notes = [], rp_shutdown = False\<rparr>"

definition pool_build :: "'d option \<Rightarrow> pool_options \<Rightarrow> pool_error + 'd \<times> relay_pool" where
  "pool_build db opts = (case db of None \<Rightarrow> Inl PeMissingDatabase | Some d \<Rightarrow> Inr (d, pool_new opts))"

definition broadcast :: "pool_notification \<Rightarrow> relay_pool \<Rightarrow> relay_pool" where
  "broadcast n p = p\<lparr>rp_notes := rp_notes p @ [n]\<rparr>"

definition mark_shutdown :: "relay_pool \<Rightarrow> relay_pool" where
  "mark_shutdown p = (if rp_shutdown p then p else broadcast PoolShutdown (p\<lparr>rp_shutdown := True\<rparr>))"

definition drain_relays :: "relay_pool \<Rightarrow> relay_pool" where
  "drain_relays p = foldl (\<lambda>q e. broadcast (PoolRelayRemoved (fst e)) q) (p\<lparr>rp_relays := []\<rparr>) (rp_relays p)"

definition pool_shutdown :: "relay_pool \<Rightarrow> relay_pool" where
  "pool_shutdown p = drain_relays (mark_shutdown p)"

text \<open>Dropping a handle while \<open>handles\<close> of them exist.\<close>

definition pool_drop :: "nat \<Rightarrow> relay_pool \<Rightarrow> relay_pool" where
  "pool_drop handles p = (if handles > 1 then p else drain_relays (mark_shutdown p))"

section \<open>Notifications of the relays\<close>

definition translate_note :: "relay_url \<Rightarrow> relay_notification \<Rightarrow> pool_notification option" where
  "translate_note url item =
     (case item of
        NoteStatus s \<Rightarrow> Some (PoolStatus url s)
      | NoteNotice m \<Rightarrow> Some (PoolNotice url m)
      | NoteShutdown \<Rightarrow> Some (PoolRelayRemoved url)
      | NoteAuthChallenge _ \<Rightarrow> None)"

text \<open>The forwarder of a relay on what the relay sends; it ends at the first terminal notification.\<close>

fun forwarder :: "relay_url \<Rightarrow> relay_notification list \<Rightarrow> relay_pool \<Rightarrow> relay_pool" where
  "forwarder url [] p = p"
| "forwarder url (n # ns) p =
     (case translate_note url n of
        None \<Rightarrow> forwarder url ns p
      | Some msg \<Rightarrow>
          (let q = broadcast msg p
           in case msg of PoolRelayRemoved _ \<Rightarrow> q | _ \<Rightarrow> forwarder url ns q))"

section \<open>Registering relays\<close>

text \<open>The part under the write lock, after the shutdown flag was read.\<close>

definition add_relay_locked ::
  "relay_url \<Rightarrow> relay_capabilities \<Rightarrow> client_options \<Rightarrow> relay_pool \<Rightarrow> relay_pool \<times> (pool_error + bool)" where
  "add_relay_locked url caps Q p =
     (case map_of (rp_relays p) url of
        Some e \<Rightarrow> (p\<lparr>rp_relays := hm_insert url (e\<lparr>pe_capabilities := caps_add caps (pe_capabilities e)\<rparr>) (rp_relays p)\<rparr>, Inr False)
      | None \<Rightarrow>
          if (case pl_max_relays (rp_options p) of None \<Rightarrow> False | Some m \<Rightarrow> m \<le> length (rp_relays p))
          then (p, Inl (PeTooManyRelays (the (pl_max_relays (rp_options p)))))
          else (broadcast (PoolRelayAdded url)
                  (p\<lparr>rp_relays := hm_insert url \<lparr>pe_capabilities = caps, pe_options = Q\<rparr> (rp_relays p)\<rparr>), Inr True))"

definition add_relay_with_options ::
  "relay_url \<Rightarrow> relay_capabilities \<Rightarrow> client_options \<Rightarrow> relay_pool \<Rightarrow> relay_pool \<times> (pool_error + bool)" where
  "add_relay_with_options url caps Q p = (if rp_shutdown p then (p, Inl PeShutdown) else add_relay_locked url caps Q p)"

definition add_relay :: "relay_url \<Rightarrow> relay_capabilities \<Rightarrow> relay_pool \<Rightarrow> relay_pool \<times> (pool_error + bool)" where
  "add_relay url caps p = add_relay_with_options url caps (pl_relay_options (rp_options p)) p"

definition remove_relay :: "relay_url \<Rightarrow> relay_pool \<Rightarrow> relay_pool \<times> (pool_error + unit)" where
  "remove_relay url p =
     (case map_of (rp_relays p) url of
        None \<Rightarrow> (p, Inl (PeRelayNotFound url))
      | Some _ \<Rightarrow> (broadcast (PoolRelayRemoved url) (p\<lparr>rp_relays := hm_remove url (rp_relays p)\<rparr>), Inr ()))"

definition pool_relay :: "relay_url \<Rightarrow> relay_pool \<Rightarrow> pool_entry option" where
  "pool_relay url p = map_of (rp_relays p) url"

definition relays_with_any_capability :: "relay_capabilities \<Rightarrow> relay_pool \<Rightarrow> relay_url list" where
  "relays_with_any_capability caps p =
     map fst (filter (\<lambda>e. has_any (caps_load (pe_capabilities (snd e))) caps) (rp_relays p))"

section \<open>Fan-out\<close>

type_synonym relay_answer = "client_error + unit"

datatype pool_request =
    AskConnect
  | AskDisconnect
  | AskPublish event
  | AskSubscribe subscription_id "nostr_filter list" subscribe_options
  | AskSend client_message

type_synonym pool_calls = "(relay_url \<times> pool_request) list"

text \<open>Polling futures: each makes its request, and the answers arrive in some order.\<close>

definition run_futures ::
  "(relay_url \<Rightarrow> string + unit) \<Rightarrow> (relay_url list \<Rightarrow> relay_url list) \<Rightarrow> pool_calls \<Rightarrow> 'a \<Rightarrow> pool_calls \<times> 'a pool_output" where
  "run_futures result arrive fs x =
     (fs, collect_results (map (\<lambda>u. (u, result u)) (arrive (map fst fs))) (output_new x))"

definition relay_result :: "(client_error \<Rightarrow> string) \<Rightarrow> (relay_url \<Rightarrow> relay_answer) \<Rightarrow> relay_url \<Rightarrow> string + unit" where
  "relay_result rt ans u = map_err rt (ans u)"

definition connect_one ::
  "(client_error \<Rightarrow> string) \<Rightarrow> (nat \<Rightarrow> string) \<Rightarrow> nat option \<Rightarrow> nat \<times> relay_answer \<Rightarrow> string + unit" where
  "connect_one rt tt per_attempt ans =
     (case per_attempt of
        None \<Rightarrow> map_err rt (snd ans)
      | Some d \<Rightarrow> if fst ans \<le> d then map_err rt (snd ans) else Inl (tt d))"

definition try_connect ::
  "(client_error \<Rightarrow> string) \<Rightarrow> (nat \<Rightarrow> string) \<Rightarrow> nat option \<Rightarrow> (relay_url \<Rightarrow> nat \<times> relay_answer) \<Rightarrow>
   (relay_url list \<Rightarrow> relay_url list) \<Rightarrow> relay_pool \<Rightarrow> pool_calls \<times> unit pool_output" where
  "try_connect rt tt per_attempt ans arrive p =
     run_futures (\<lambda>u. connect_one rt tt per_attempt (ans u)) arrive (map (\<lambda>e. (fst e, AskConnect)) (rp_relays p)) ()"

definition pool_disconnect ::
  "(client_error \<Rightarrow> string) \<Rightarrow> (relay_url \<Rightarrow> relay_answer) \<Rightarrow> (relay_url list \<Rightarrow> relay_url list) \<Rightarrow> relay_pool \<Rightarrow>
   pool_calls \<times> unit pool_output" where
  "pool_disconnect rt ans arrive p =
     run_futures (relay_result rt ans) arrive (map (\<lambda>e. (fst e, AskDisconnect)) (rp_relays p)) ()"

text \<open>The loop that makes the futures, which are not polled yet: it returns at a relay that is not in the pool.\<close>

fun push_futures :: "relay_pool \<Rightarrow> pool_request \<Rightarrow> relay_url list \<Rightarrow> pool_calls \<Rightarrow> pool_error + pool_calls" where
  "push_futures p q [] fs = Inr fs"
| "push_futures p q (u # us) fs =
     (case pool_relay u p of
        None \<Rightarrow> Inl (PeRelayNotFound u)
      | Some _ \<Rightarrow> push_futures p q us (fs @ [(u, q)]))"

text \<open>The relays named are a set without duplicates.\<close>

definition fan_out_to ::
  "(client_error \<Rightarrow> string) \<Rightarrow> (relay_url \<Rightarrow> relay_answer) \<Rightarrow> (relay_url list \<Rightarrow> relay_url list) \<Rightarrow> relay_url list \<Rightarrow> pool_request \<Rightarrow> 'a \<Rightarrow>
   relay_pool \<Rightarrow> pool_calls \<times> (pool_error + 'a pool_output)" where
  "fan_out_to rt ans arrive urls q x p =
     (if urls = [] then ([], Inl PeNoRelaysSpecified)
      else case push_futures p q (remdups urls) [] of
             Inl err \<Rightarrow> ([], Inl err)
           | Inr fs \<Rightarrow> (let r = run_futures (relay_result rt ans) arrive fs x in (fst r, Inr (snd r))))"

definition send_event_to ::
  "(client_error \<Rightarrow> string) \<Rightarrow> (relay_url \<Rightarrow> relay_answer) \<Rightarrow> (relay_url list \<Rightarrow> relay_url list) \<Rightarrow> relay_url list \<Rightarrow> event \<Rightarrow>
   relay_pool \<Rightarrow> pool_calls \<times> (pool_error + event_id pool_output)" where
  "send_event_to rt ans arrive urls e p = fan_out_to rt ans arrive urls (AskPublish e) (ev_id e) p"

definition pool_send_event ::
  "(client_error \<Rightarrow> string) \<Rightarrow> (relay_url \<Rightarrow> relay_answer) \<Rightarrow> (relay_url list \<Rightarrow> relay_url list) \<Rightarrow> event \<Rightarrow>
   relay_pool \<Rightarrow> pool_calls \<times> (pool_error + event_id pool_output)" where
  "pool_send_event rt ans arrive e p = send_event_to rt ans arrive (relays_with_any_capability CAP_WRITE p) e p"

text \<open>The handles a subscribe returns are dropped at once.\<close>

definition subscribe_to ::
  "(client_error \<Rightarrow> string) \<Rightarrow> (relay_url \<Rightarrow> relay_answer) \<Rightarrow> (relay_url list \<Rightarrow> relay_url list) \<Rightarrow> relay_url list \<Rightarrow>
   subscription_id \<Rightarrow> nostr_filter list \<Rightarrow> subscribe_options \<Rightarrow> relay_pool \<Rightarrow> pool_calls \<times> (pool_error + subscription_id pool_output)" where
  "subscribe_to rt ans arrive urls i fs opts p = fan_out_to rt ans arrive urls (AskSubscribe i fs opts) i p"

definition pool_subscribe ::
  "(client_error \<Rightarrow> string) \<Rightarrow> (relay_url \<Rightarrow> relay_answer) \<Rightarrow> (relay_url list \<Rightarrow> relay_url list) \<Rightarrow>
   subscription_id \<Rightarrow> nostr_filter list \<Rightarrow> subscribe_options \<Rightarrow> relay_pool \<Rightarrow> pool_calls \<times> (pool_error + subscription_id pool_output)" where
  "pool_subscribe rt ans arrive i fs opts p = subscribe_to rt ans arrive (relays_with_any_capability CAP_READ p) i fs opts p"

text \<open>A message goes to the relays one after the other.\<close>

definition pool_send_msg ::
  "(client_error \<Rightarrow> string) \<Rightarrow> (relay_url \<Rightarrow> relay_answer) \<Rightarrow> client_message \<Rightarrow> relay_pool \<Rightarrow> pool_calls \<times> unit pool_output" where
  "pool_send_msg rt ans m p = run_futures (relay_result rt ans) id (map (\<lambda>e. (fst e, AskSend m)) (rp_relays p)) ()"

definition pool_unsubscribe :: "relay_pool \<Rightarrow> unit pool_output" where
  "pool_unsubscribe p = (output_new ())\<lparr>out_success := map fst (rp_relays p)\<rparr>"

section \<open>Event streams\<close>

text \<open>Opening the subscriptions of a stream: \<open>gen\<close> is the id drawn for a relay, \<open>ans\<close> its answer. The first failure ends the loop.\<close>

fun open_streams ::
  "(relay_url \<Rightarrow> subscription_id option) \<Rightarrow> (relay_url \<Rightarrow> relay_answer) \<Rightarrow> relay_pool \<Rightarrow> nostr_filter list \<Rightarrow> subscribe_options \<Rightarrow>
   relay_url list \<Rightarrow> (relay_url \<times> subscription_id) list \<Rightarrow> pool_calls \<times> (pool_error + (relay_url \<times> subscription_id) list)" where
  "open_streams gen ans p fs opts [] handles = ([], Inr handles)"
| "open_streams gen ans p fs opts (u # us) handles =
     (if pool_relay u p = None then ([], Inl (PeRelayNotFound u))
      else case gen u of
             None \<Rightarrow> ([], Inl PeShutdown)
           | Some i \<Rightarrow>
               (case ans u of
                  Inl err \<Rightarrow> ([(u, AskSubscribe i fs opts)], Inl (PeRelay err))
                | Inr _ \<Rightarrow>
                    (let r = open_streams gen ans p fs opts us (handles @ [(u, i)])
                     in ((u, AskSubscribe i fs opts) # fst r, snd r))))"

record 'c lru =
  lru_new :: "nat \<Rightarrow> 'c"
  lru_put :: "event_id \<Rightarrow> 'c \<Rightarrow> 'c \<times> bool"

text \<open>What the driver does that others can see.\<close>

datatype stream_act = ActSave event | ActSend "relay_url \<times> (client_error + event)"

record ('c, 's) stream_driver =
  sd_seen :: 'c
  sd_store :: 's
  sd_log :: "stream_act list"
  sd_running :: bool

definition sd_sent :: "('c, 's) stream_driver \<Rightarrow> (relay_url \<times> (client_error + event)) list" where
  "sd_sent d = List.map_filter (\<lambda>x. case x of ActSend y \<Rightarrow> Some y | ActSave _ \<Rightarrow> None) (sd_log d)"

text \<open>A wakeup of the driver. An item comes with what \<open>tx.send\<close> would return: false once the receiver is gone.\<close>

datatype driver_wake =
    WakeReceiverClosed
  | WakeDeadline
  | WakeStreamsEnded
  | WakeItem relay_url subscription_id subscription_item bool

definition driver_start :: "'c lru \<Rightarrow> nat \<Rightarrow> 's \<Rightarrow> ('c, 's) stream_driver" where
  "driver_start L n s = \<lparr>sd_seen = lru_new L n, sd_store = s, sd_log = [], sd_running = True\<rparr>"

definition stream_send ::
  "bool \<Rightarrow> relay_url \<times> (client_error + event) \<Rightarrow> ('c, 's) stream_driver \<Rightarrow> ('c, 's) stream_driver \<times> bool" where
  "stream_send open_rx x d = (if open_rx then (d\<lparr>sd_log := sd_log d @ [ActSend x]\<rparr>, True) else (d, False))"

definition stream_save :: "'s database option \<Rightarrow> event \<Rightarrow> ('c, 's) stream_driver \<Rightarrow> ('c, 's) stream_driver" where
  "stream_save db e d =
     (case db of
        None \<Rightarrow> d
      | Some D \<Rightarrow> d\<lparr>sd_store := fst (db_save_event D e (sd_store d)), sd_log := sd_log d @ [ActSave e]\<rparr>)"

definition forward_item ::
  "'c lru \<Rightarrow> 's database option \<Rightarrow> relay_url \<Rightarrow> subscription_id \<Rightarrow> subscription_item \<Rightarrow> bool \<Rightarrow>
   ('c, 's) stream_driver \<Rightarrow> ('c, 's) stream_driver \<times> bool" where
  "forward_item L db url i it open_rx d =
     (case it of
        ItemEvent e \<Rightarrow>
          (let r = lru_put L (ev_id e) (sd_seen d); d1 = d\<lparr>sd_seen := fst r\<rparr>
           in if snd r then (d1, True) else stream_send open_rx (url, Inr e) (stream_save db e d1))
      | ItemClosed m \<Rightarrow> stream_send open_rx (url, Inl (CeSubscriptionClosed i m)) d
      | _ \<Rightarrow> (d, True))"

definition driver_step :: "'c lru \<Rightarrow> 's database option \<Rightarrow> driver_wake \<Rightarrow> ('c, 's) stream_driver \<Rightarrow> ('c, 's) stream_driver" where
  "driver_step L db w d =
     (if \<not> sd_running d then d
      else case w of
             WakeReceiverClosed \<Rightarrow> d\<lparr>sd_running := False\<rparr>
           | WakeDeadline \<Rightarrow> d\<lparr>sd_running := False\<rparr>
           | WakeStreamsEnded \<Rightarrow> d\<lparr>sd_running := False\<rparr>
           | WakeItem url i it open_rx \<Rightarrow>
               (let r = forward_item L db url i it open_rx d
                in if snd r then fst r else (fst r)\<lparr>sd_running := False\<rparr>))"

definition driver_run :: "'c lru \<Rightarrow> 's database option \<Rightarrow> driver_wake list \<Rightarrow> ('c, 's) stream_driver \<Rightarrow> ('c, 's) stream_driver" where
  "driver_run L db ws d = foldl (\<lambda>d w. driver_step L db w d) d ws"

definition stream_events_to ::
  "'c lru \<Rightarrow> (relay_url \<Rightarrow> subscription_id option) \<Rightarrow> (relay_url \<Rightarrow> relay_answer) \<Rightarrow> relay_url list \<Rightarrow> nostr_filter list \<Rightarrow>
   subscribe_options \<Rightarrow> 's \<Rightarrow> relay_pool \<Rightarrow>
   pool_calls \<times> (pool_error + (relay_url \<times> subscription_id) list \<times> ('c, 's) stream_driver)" where
  "stream_events_to L gen ans urls fs opts s p =
     (if urls = [] then ([], Inl PeNoRelaysSpecified)
      else
        let r = open_streams gen ans p fs opts (remdups urls) []
        in (fst r, res_bind (snd r) (\<lambda>hs. Inr (hs, driver_start L (pl_dedup_cache_size (rp_options p)) s))))"

definition stream_events ::
  "'c lru \<Rightarrow> (relay_url \<Rightarrow> subscription_id option) \<Rightarrow> (relay_url \<Rightarrow> relay_answer) \<Rightarrow> nostr_filter list \<Rightarrow> subscribe_options \<Rightarrow> 's \<Rightarrow>
   relay_pool \<Rightarrow> pool_calls \<times> (pool_error + (relay_url \<times> subscription_id) list \<times> ('c, 's) stream_driver)" where
  "stream_events L gen ans fs opts s p = stream_events_to L gen ans (relays_with_any_capability CAP_READ p) fs opts s p"

text \<open>The database the driver saves to.\<close>

definition auto_save_db :: "'s database \<Rightarrow> relay_pool \<Rightarrow> 's database option" where
  "auto_save_db D p = (if pl_auto_save_events (rp_options p) then Some D else None)"

end
