(* ===== verification/Sync_Driver.thy ===== *)
theory Sync_Driver
  imports Relay_Pool Sync_Session Result_Set
begin

text \<open>
  NIP-77 reconciliation on the client: the initiator of nula-sync/src/session.rs and the driver of nula/src/sync.rs with the admission
  policy of nula/src/policy.rs, the builder's choice about saving (nula/src/builder.rs) and the fetch it downloads with (nula/src/client.rs).
  The negentropy crate is the argument \<open>N\<close>, the lru crate \<open>L\<close>. What the relay answers and sends is the record \<open>sync_peer\<close>; the
  database is \<open>D\<close> with a lookup by id. What the driver asked the client of the relay to send, and the
  streams it let go (the client then sends what \<open>Client_Actor\<close> says), is a log. A timeout of the whole call, which drops
  the driver where it waits, is left out; \<open>rt\<close> and \<open>st\<close> are the texts of relay and storage errors.
\<close>

section \<open>The initiator\<close>

record ('v, 'r) neg_initiator = "('v, 'r) negentropy" +
  ng_initiate :: "'r \<Rightarrow> 'r \<times> (string + bytes)"
  ng_reconcile_with_ids :: "'r \<Rightarrow> bytes \<Rightarrow> 'r \<times> (string + bytes list \<times> bytes list \<times> bytes option)"

record reconcile_outcome =
  ro_have :: "event_id list"
  ro_need :: "event_id list"
  ro_next_message :: "bytes option"

definition outcome_is_complete :: "reconcile_outcome \<Rightarrow> bool" where
  "outcome_is_complete r \<longleftrightarrow> ro_next_message r = None"

definition next_message_hex :: "crates \<Rightarrow> reconcile_outcome \<Rightarrow> string option" where
  "next_message_hex X r = map_option (hex_encode X) (ro_next_message r)"

record 'r reconciliation =
  rc_inner :: 'r
  rc_opening :: bytes

definition reconciliation_initiate :: "('v, 'r) neg_initiator \<Rightarrow> 'v \<Rightarrow> u64 \<Rightarrow> sync_error + 'r reconciliation" where
  "reconciliation_initiate N v limit =
     res_bind (map_err Algorithm (ng_owned N v limit)) (\<lambda>r.
       let a = ng_initiate N r
       in res_bind (map_err Algorithm (snd a)) (\<lambda>opening. Inr \<lparr>rc_inner = fst a, rc_opening = opening\<rparr>))"

definition reconciliation_with_defaults :: "('v, 'r) neg_initiator \<Rightarrow> 'v \<Rightarrow> sync_error + 'r reconciliation" where
  "reconciliation_with_defaults N v = reconciliation_initiate N v DEFAULT_FRAME_SIZE_LIMIT"

definition opening_message_hex :: "crates \<Rightarrow> 'r reconciliation \<Rightarrow> string" where
  "opening_message_hex X rc = hex_encode X (rc_opening rc)"

definition reconciliation_reconcile ::
  "('v, 'r) neg_initiator \<Rightarrow> 'r reconciliation \<Rightarrow> bytes \<Rightarrow> 'r reconciliation \<times> (sync_error + reconcile_outcome)" where
  "reconciliation_reconcile N rc query =
     (let a = ng_reconcile_with_ids N (rc_inner rc) query
      in (rc\<lparr>rc_inner := fst a\<rparr>,
          res_bind (map_err Algorithm (snd a)) (\<lambda>(have, need, next).
            Inr \<lparr>ro_have = map neg_id_to_event_id have, ro_need = map neg_id_to_event_id need, ro_next_message = next\<rparr>)))"

definition reconciliation_reconcile_hex ::
  "crates \<Rightarrow> ('v, 'r) neg_initiator \<Rightarrow> 'r reconciliation \<Rightarrow> string \<Rightarrow> 'r reconciliation \<times> (sync_error + reconcile_outcome)" where
  "reconciliation_reconcile_hex X N rc query_hex =
     (case hex_decode_vec X query_hex of
        Inl e \<Rightarrow> (rc, Inl (SyncHex e))
      | Inr query \<Rightarrow> reconciliation_reconcile N rc query)"

section \<open>Options, summary, errors\<close>

datatype sync_direction = SyncUp | SyncDown | SyncBoth

definition do_up :: "sync_direction \<Rightarrow> bool" where
  "do_up d \<longleftrightarrow> d = SyncUp \<or> d = SyncBoth"

definition do_down :: "sync_direction \<Rightarrow> bool" where
  "do_down d \<longleftrightarrow> d = SyncDown \<or> d = SyncBoth"

record sync_progress =
  pg_total :: u64
  pg_current :: u64

record sync_options =
  sn_direction :: sync_direction
  sn_op_timeout :: "nat option"
  sn_dry_run :: bool
  sn_progress :: bool

definition sync_options_default :: sync_options where
  "sync_options_default = \<lparr>sn_direction = SyncDown, sn_op_timeout = None, sn_dry_run = False, sn_progress = False\<rparr>"

record sync_summary =
  sm_local :: "event_id list"
  sm_remote :: "event_id list"
  sm_sent :: "event_id list"
  sm_received :: "event_id list"
  sm_send_failures :: "(event_id, string) hash_map"
  sm_rejected :: "(event_id, string option) hash_map"

definition summary_new :: sync_summary where
  "summary_new = \<lparr>sm_local = [], sm_remote = [], sm_sent = [], sm_received = [], sm_send_failures = [], sm_rejected = []\<rparr>"

definition is_empty_exchange :: "sync_summary \<Rightarrow> bool" where
  "is_empty_exchange m \<longleftrightarrow> sm_sent m = [] \<and> sm_received m = [] \<and> sm_send_failures m = []"

definition hs_extend :: "'a list \<Rightarrow> 'a list \<Rightarrow> 'a list" where
  "hs_extend s xs = foldl (\<lambda>s x. List.insert x s) s xs"

definition hm_extend :: "('k, 'v) hash_map \<Rightarrow> ('k, 'v) hash_map \<Rightarrow> ('k, 'v) hash_map" where
  "hm_extend m es = foldl (\<lambda>m e. hm_insert (fst e) (snd e) m) m es"

definition summary_merge :: "sync_summary \<Rightarrow> sync_summary \<Rightarrow> sync_summary" where
  "summary_merge m other = \<lparr>
     sm_local = hs_extend (sm_local m) (sm_local other),
     sm_remote = hs_extend (sm_remote m) (sm_remote other),
     sm_sent = hs_extend (sm_sent m) (sm_sent other),
     sm_received = hs_extend (sm_received m) (sm_received other),
     sm_send_failures = hm_extend (sm_send_failures m) (sm_send_failures other),
     sm_rejected = hm_extend (sm_rejected m) (sm_rejected other)\<rparr>"

text \<open>The variants of \<open>Error\<close> this module returns.\<close>

datatype nula_error =
    NePool pool_error
  | NeRelay client_error
  | NeSync sync_error
  | NeSubscriptionIdGeneration subscription_id_error
  | NeUnknownRelay relay_url
  | NeSyncFailed string
  | NeSyncStreamClosed
  | NePolicyRejected string "string option"
  | NePolicy

datatype admit_status = AdmitSuccess | AdmitRejected "string option"

text \<open>A policy's verdict on an event; \<open>None\<close> is an error of its backend.\<close>

type_synonym admit_policy = "relay_url \<Rightarrow> subscription_id \<Rightarrow> event \<Rightarrow> admit_status option"

definition check_admit_event :: "admit_policy option \<Rightarrow> relay_url \<Rightarrow> subscription_id \<Rightarrow> event \<Rightarrow> nula_error + unit" where
  "check_admit_event pol url i e =
     (case pol of
        None \<Rightarrow> Inr ()
      | Some P \<Rightarrow>
          (case P url i e of
             None \<Rightarrow> Inl NePolicy
           | Some AdmitSuccess \<Rightarrow> Inr ()
           | Some (AdmitRejected reason) \<Rightarrow> Inl (NePolicyRejected ''event'' reason)))"

text \<open>The builder turns saving in the pool off when there is a policy.\<close>

definition builder_pool_options :: "admit_policy option \<Rightarrow> pool_options \<Rightarrow> pool_options" where
  "builder_pool_options pol opts = (if pol \<noteq> None then with_auto_save_events False opts else opts)"

section \<open>State\<close>

datatype sync_request = RequestMsg client_message | RequestDrop subscription_id

record 's sync_state =
  sy_store :: 's
  sy_summary :: sync_summary
  sy_progress :: sync_progress
  sy_requests :: "sync_request list"

record sync_peer =
  sp_subscribe_neg :: relay_answer
  sp_items :: "subscription_item list"
  sp_send :: "client_message \<Rightarrow> relay_answer"
  sp_publish :: "event \<Rightarrow> relay_answer"
  sp_fetch_id :: "subscription_id option"
  sp_fetch :: relay_answer
  sp_stream :: "driver_wake list"

definition tick_progress :: "sync_options \<Rightarrow> 's sync_state \<Rightarrow> 's sync_state" where
  "tick_progress opts a =
     (if sn_progress opts
      then a\<lparr>sy_progress := (sy_progress a)\<lparr>pg_current := saturating_add (pg_current (sy_progress a)) 1\<rparr>\<rparr> else a)"

fun sync_insert_all :: "event_id list \<Rightarrow> event_id list \<Rightarrow> event_id list \<times> u64" where
  "sync_insert_all [] target = (target, 0)"
| "sync_insert_all (i # is) target =
     (let r = sync_insert_all is (List.insert i target)
      in (fst r, (if i \<in> set target then 0 else 1) + snd r))"

definition fold_outcome :: "reconcile_outcome \<Rightarrow> sync_options \<Rightarrow> 's sync_state \<Rightarrow> 's sync_state" where
  "fold_outcome r opts a =
     (let up = (if do_up (sn_direction opts) then sync_insert_all (ro_have r) (sm_local (sy_summary a)) else (sm_local (sy_summary a), 0));
          down = (if do_down (sn_direction opts) then sync_insert_all (ro_need r) (sm_remote (sy_summary a)) else (sm_remote (sy_summary a), 0));
          delta = saturating_add (snd up) (snd down);
          a1 = a\<lparr>sy_summary := (sy_summary a)\<lparr>sm_local := fst up, sm_remote := fst down\<rparr>\<rparr>
      in if delta > 0 \<and> sn_progress opts
         then a1\<lparr>sy_progress := (sy_progress a1)\<lparr>pg_total := saturating_add (pg_total (sy_progress a1)) delta\<rparr>\<rparr>
         else a1)"

definition sync_ask :: "sync_request list \<Rightarrow> 's sync_state \<Rightarrow> 's sync_state" where
  "sync_ask qs a = a\<lparr>sy_requests := sy_requests a @ qs\<rparr>"

definition peer_send :: "sync_peer \<Rightarrow> client_message \<Rightarrow> 's sync_state \<Rightarrow> 's sync_state \<times> relay_answer" where
  "peer_send R m a = (sync_ask [RequestMsg m] a, sp_send R m)"

section \<open>The rounds\<close>

definition MAX_NEG_ROUNDS :: nat where "MAX_NEG_ROUNDS = 1024"

fun reconcile_rounds ::
  "crates \<Rightarrow> ('v, 'r) neg_initiator \<Rightarrow> sync_peer \<Rightarrow> subscription_id \<Rightarrow> sync_options \<Rightarrow> nat \<Rightarrow>
   subscription_item list \<Rightarrow> 'r reconciliation \<Rightarrow> 's sync_state \<Rightarrow> 's sync_state \<times> (nula_error + unit)" where
  "reconcile_rounds X N R i opts 0 its rc a = (a, Inl NeSyncStreamClosed)"
| "reconcile_rounds X N R i opts (Suc n) [] rc a = (a, Inl NeSyncStreamClosed)"
| "reconcile_rounds X N R i opts (Suc n) (it # its) rc a =
     (case it of
        ItemNegMsg m \<Rightarrow>
          (let p = reconciliation_reconcile_hex X N rc m
           in case snd p of
                Inl e \<Rightarrow> (a, Inl (NeSync e))
              | Inr outcome \<Rightarrow>
                  (let a1 = fold_outcome outcome opts a
                   in case next_message_hex X outcome of
                        None \<Rightarrow> (a1, Inr ())
                      | Some hex \<Rightarrow>
                          (let s = peer_send R (CNegMsg i hex) a1
                           in case snd s of
                                Inl e \<Rightarrow> (fst s, Inl (NeRelay e))
                              | Inr _ \<Rightarrow> reconcile_rounds X N R i opts n its (fst p) (fst s))))
      | ItemNegErr m \<Rightarrow> (a, Inl (NeSyncFailed m))
      | _ \<Rightarrow> reconcile_rounds X N R i opts n its rc a)"

text \<open>The stream of the session ends with the loop.\<close>

definition reconcile_loop ::
  "crates \<Rightarrow> ('v, 'r) neg_initiator \<Rightarrow> sync_peer \<Rightarrow> subscription_id \<Rightarrow> nostr_filter \<Rightarrow> string \<Rightarrow> sync_options \<Rightarrow>
   'r reconciliation \<Rightarrow> 's sync_state \<Rightarrow> 's sync_state \<times> (nula_error + unit)" where
  "reconcile_loop X N R i f opening opts rc a =
     (let a0 = sync_ask [RequestMsg (CNegOpen i f opening)] a
      in case sp_subscribe_neg R of
           Inl e \<Rightarrow> (a0, Inl (NeRelay e))
         | Inr _ \<Rightarrow>
             (let r = reconcile_rounds X N R i opts MAX_NEG_ROUNDS (sp_items R) rc a0
              in (sync_ask [RequestDrop i] (fst r), snd r)))"

section \<open>Upload and download\<close>

fun upload_loop ::
  "(client_error \<Rightarrow> string) \<Rightarrow> (event_id \<Rightarrow> 's \<Rightarrow> string + event option) \<Rightarrow> sync_peer \<Rightarrow> sync_options \<Rightarrow> event_id list \<Rightarrow>
   's sync_state \<Rightarrow> 's sync_state" where
  "upload_loop rt look R opts [] a = a"
| "upload_loop rt look R opts (i # is) a =
     (case look i (sy_store a) of
        Inr (Some e) \<Rightarrow>
          (let m = sy_summary a;
               m1 = (case sp_publish R e of
                       Inr _ \<Rightarrow> m\<lparr>sm_sent := List.insert i (sm_sent m)\<rparr>
                     | Inl err \<Rightarrow> m\<lparr>sm_send_failures := hm_insert i (rt err) (sm_send_failures m)\<rparr>)
           in upload_loop rt look R opts is (tick_progress opts ((sync_ask [RequestMsg (CEvent e)] a)\<lparr>sy_summary := m1\<rparr>)))
      | Inr None \<Rightarrow>
          upload_loop rt look R opts is
            (a\<lparr>sy_summary := (sy_summary a)\<lparr>sm_send_failures :=
               hm_insert i ''event not found in local database'' (sm_send_failures (sy_summary a))\<rparr>\<rparr>)
      | Inl err \<Rightarrow>
          upload_loop rt look R opts is
            (a\<lparr>sy_summary := (sy_summary a)\<lparr>sm_send_failures := hm_insert i err (sm_send_failures (sy_summary a))\<rparr>\<rparr>))"

definition upload_phase ::
  "(client_error \<Rightarrow> string) \<Rightarrow> (event_id \<Rightarrow> 's \<Rightarrow> string + event option) \<Rightarrow> sync_peer \<Rightarrow> sync_options \<Rightarrow>
   's sync_state \<Rightarrow> 's sync_state" where
  "upload_phase rt look R opts a = upload_loop rt look R opts (sm_local (sy_summary a)) a"

text \<open>The stream of a fetch from one relay, drained: its errors are dropped, the events sorted without duplicates.\<close>

definition collect_events :: "(relay_url \<times> (client_error + event)) list \<Rightarrow> event list" where
  "collect_events xs = ev_inner (events_from_unsorted (List.map_filter (\<lambda>x. res_ok (snd x)) xs))"

definition stream_requests :: "pool_calls \<Rightarrow> sync_request list" where
  "stream_requests calls = List.map_filter (\<lambda>c. case snd c of AskSubscribe i fs _ \<Rightarrow> Some (RequestMsg (CReq i fs)) | _ \<Rightarrow> None) calls"

definition fetch_events_from ::
  "'c lru \<Rightarrow> 's database \<Rightarrow> relay_pool \<Rightarrow> sync_peer \<Rightarrow> relay_url \<Rightarrow> nostr_filter \<Rightarrow> 's \<Rightarrow> 's \<times> sync_request list \<times> (nula_error + event list)" where
  "fetch_events_from L D p R url f s =
     (let so = with_close_on_eose True subscribe_options_new;
          r = stream_events_to L (\<lambda>_. sp_fetch_id R) (\<lambda>_. sp_fetch R) [url] [f] so s p
      in case snd r of
           Inl e \<Rightarrow> (s, stream_requests (fst r), Inl (NePool e))
         | Inr (hs, d) \<Rightarrow>
             (let d1 = driver_run L (auto_save_db D p) (sp_stream R) d
              in (sd_store d1, stream_requests (fst r) @ map (\<lambda>h. RequestDrop (snd h)) hs, Inr (collect_events (sd_sent d1)))))"

fun persist_loop ::
  "(storage_error \<Rightarrow> string) \<Rightarrow> 's database \<Rightarrow> admit_policy option \<Rightarrow> sync_options \<Rightarrow> relay_url \<Rightarrow> subscription_id \<Rightarrow> event list \<Rightarrow>
   's sync_state \<Rightarrow> 's sync_state \<times> (nula_error + unit)" where
  "persist_loop st D pol opts url i [] a = (a, Inr ())"
| "persist_loop st D pol opts url i (e # es) a =
     (case check_admit_event pol url i e of
        Inl (NePolicyRejected stage reason) \<Rightarrow>
          persist_loop st D pol opts url i es
            (tick_progress opts (a\<lparr>sy_summary := (sy_summary a)\<lparr>sm_rejected := hm_insert (ev_id e) reason (sm_rejected (sy_summary a))\<rparr>\<rparr>))
      | Inl err \<Rightarrow> (a, Inl err)
      | Inr _ \<Rightarrow>
          (let r = db_save_event D e (sy_store a);
               m = sy_summary a;
               m1 = (case snd r of
                       Inr _ \<Rightarrow> m\<lparr>sm_received := List.insert (ev_id e) (sm_received m)\<rparr>
                     | Inl err \<Rightarrow> m\<lparr>sm_send_failures := hm_insert (ev_id e) (st err) (sm_send_failures m)\<rparr>)
           in persist_loop st D pol opts url i es (tick_progress opts (a\<lparr>sy_store := fst r, sy_summary := m1\<rparr>))))"

definition download_phase ::
  "(storage_error \<Rightarrow> string) \<Rightarrow> 'c lru \<Rightarrow> 's database \<Rightarrow> relay_pool \<Rightarrow> admit_policy option \<Rightarrow> sync_peer \<Rightarrow> sync_options \<Rightarrow> relay_url \<Rightarrow>
   subscription_id \<Rightarrow> 's sync_state \<Rightarrow> 's sync_state \<times> (nula_error + unit)" where
  "download_phase st L D p pol R opts url i a =
     (let f = filter_ids (sm_remote (sy_summary a)) filter_new;
          r = fetch_events_from L D p R url f (sy_store a);
          a1 = sync_ask (fst (snd r)) (a\<lparr>sy_store := fst r\<rparr>)
      in case snd (snd r) of Inl e \<Rightarrow> (a1, Inl e) | Inr es \<Rightarrow> persist_loop st D pol opts url i es a1)"

section \<open>A sync\<close>

definition sync_start :: "'s \<Rightarrow> sync_progress \<Rightarrow> 's sync_state" where
  "sync_start s pg = \<lparr>sy_store = s, sy_summary = summary_new, sy_progress = pg, sy_requests = []\<rparr>"

definition sync_exchange ::
  "(client_error \<Rightarrow> string) \<Rightarrow> (storage_error \<Rightarrow> string) \<Rightarrow> 'c lru \<Rightarrow> 's database \<Rightarrow> (event_id \<Rightarrow> 's \<Rightarrow> string + event option) \<Rightarrow>
   relay_pool \<Rightarrow> admit_policy option \<Rightarrow> sync_peer \<Rightarrow> sync_options \<Rightarrow> relay_url \<Rightarrow> subscription_id \<Rightarrow>
   's sync_state \<Rightarrow> 's sync_state \<times> (nula_error + unit)" where
  "sync_exchange rt st L D look p pol R opts url i a =
     (if sn_dry_run opts then (a, Inr ())
      else
        let a1 = (if do_up (sn_direction opts) then upload_phase rt look R opts a else a)
        in if do_down (sn_direction opts) \<and> sm_remote (sy_summary a1) \<noteq> []
           then download_phase st L D p pol R opts url i a1 else (a1, Inr ()))"

definition run_sync_to_relay ::
  "crates \<Rightarrow> ('v, 'r) neg_initiator \<Rightarrow> (client_error \<Rightarrow> string) \<Rightarrow> (storage_error \<Rightarrow> string) \<Rightarrow> 'c lru \<Rightarrow> 's database \<Rightarrow>
   (event_id \<Rightarrow> 's \<Rightarrow> string + event option) \<Rightarrow> relay_pool \<Rightarrow> admit_policy option \<Rightarrow> sync_peer \<Rightarrow> rng_error + bytes \<Rightarrow> relay_url \<Rightarrow>
   nostr_filter \<Rightarrow> sync_options \<Rightarrow> 's sync_state \<Rightarrow> 's sync_state \<times> (nula_error + unit)" where
  "run_sync_to_relay X N rt st L D look p pol R os url f opts a =
     (if pool_relay url p = None then (a, Inl (NeUnknownRelay url))
      else case map_err NeSync (from_database (negentropy.truncate N) (map_err st (db_negentropy_items D f (sy_store a)))) of
             Inl e \<Rightarrow> (a, Inl e)
           | Inr v \<Rightarrow>
               (case map_err NeSync (reconciliation_with_defaults N v) of
                  Inl e \<Rightarrow> (a, Inl e)
                | Inr rc \<Rightarrow>
                    (case subscription_id_generate X os of
                       Inl e \<Rightarrow> (a, Inl (NeSubscriptionIdGeneration e))
                     | Inr i \<Rightarrow>
                         (let r = reconcile_loop X N R i f (opening_message_hex X rc) opts rc a; a1 = fst (peer_send R (CNegClose i) (fst r))
                          in case snd r of
                               Inl e \<Rightarrow> (a1, Inl e)
                             | Inr _ \<Rightarrow> sync_exchange rt st L D look p pol R opts url i a1))))"

text \<open>\<open>sync_with\<close> over relays with their peers and entropy, for a call without a timeout: the summaries are merged, the first error ends the loop.\<close>

fun sync_with_loop ::
  "crates \<Rightarrow> ('v, 'r) neg_initiator \<Rightarrow> (client_error \<Rightarrow> string) \<Rightarrow> (storage_error \<Rightarrow> string) \<Rightarrow> 'c lru \<Rightarrow> 's database \<Rightarrow>
   (event_id \<Rightarrow> 's \<Rightarrow> string + event option) \<Rightarrow> relay_pool \<Rightarrow> admit_policy option \<Rightarrow> nostr_filter \<Rightarrow> sync_options \<Rightarrow>
   (relay_url \<times> sync_peer \<times> (rng_error + bytes)) list \<Rightarrow> sync_summary \<Rightarrow> 's \<Rightarrow> sync_progress \<Rightarrow> 's \<times> (nula_error + sync_summary)" where
  "sync_with_loop X N rt st L D look p pol f opts [] merged s pg = (s, Inr merged)"
| "sync_with_loop X N rt st L D look p pol f opts (t # ts) merged s pg =
     (let r = run_sync_to_relay X N rt st L D look p pol (fst (snd t)) (snd (snd t)) (fst t) f opts (sync_start s pg)
      in case snd r of
           Inl e \<Rightarrow> (sy_store (fst r), Inl e)
         | Inr _ \<Rightarrow>
             sync_with_loop X N rt st L D look p pol f opts ts (summary_merge merged (sy_summary (fst r)))
               (sy_store (fst r)) (sy_progress (fst r)))"

end
