(* ===== verification/Client_Theorems.thy ===== *)
theory Client_Theorems
  imports Client_History Relay_Theorems
begin

text \<open>
  The properties of the relay client over every history of wakeups: commands are answered, a publish is confirmed only by the relay,
  items reach only the stream of their subscription, and a live socket was asked for every subscription. The sample history connects,
  subscribes, publishes, and receives an event and an acceptance.
\<close>

section \<open>Definitions the theorems use\<close>

definition stop_wake :: "wakeup \<Rightarrow> bool" where
  "stop_wake w \<longleftrightarrow> w = WakeCommand None \<or> w = WakeCommand (Some CmdShutdown)"

definition requested :: "(subscription_id, subscription_entry) hash_map \<Rightarrow> client_sink \<Rightarrow> bool" where
  "requested subs k \<longleftrightarrow> ck_left k = Some 0 \<or>
     list_all (\<lambda>e. se_skip_reissue (snd e) \<or> CReq (fst e) (se_filters (snd e)) \<in> set (ck_sent k)) subs"

definition all_requested :: "actor \<Rightarrow> bool" where
  "all_requested a = (case ac_sink a of None \<Rightarrow> True | Some k \<Rightarrow> requested (ac_subscriptions a) k)"

text \<open>The ids of the events a history publishes.\<close>

definition published_ids :: "(wake_env \<times> wakeup) list \<Rightarrow> event_id list" where
  "published_ids ws = List.map_filter (\<lambda>x. case snd x of WakeCommand (Some (CmdPublish e _ _)) \<Rightarrow> Some (ev_id e) | _ \<Rightarrow> None) ws"

text \<open>The history stopped the actor, and the slots that were pending then and of the commands since are the dropped ones.\<close>

definition dropped_at_stop ::
  "crates \<Rightarrow> sig_text \<Rightarrow> wire_crate \<Rightarrow> client_options \<Rightarrow> (wake_env \<times> wakeup) list \<Rightarrow> reply list \<Rightarrow> bool" where
  "dropped_at_stop X Y W Q ws ds \<longleftrightarrow> (\<exists>us v w zs b. ws = us @ (v, w) # zs \<and> stop_wake w \<and> actor_trace X Y W Q us b \<and> ac_running b \<and>
     mset ds = image_mset (\<lambda>e. pp_reply (snd e)) (mset (ac_pending_publishes b)) + trace_slots zs)"

text \<open>A history of wakeups run from a state, \<open>None\<close> when one of them cannot be ready.\<close>

fun actor_run ::
  "crates \<Rightarrow> sig_text \<Rightarrow> wire_crate \<Rightarrow> client_options \<Rightarrow> (wake_env \<times> wakeup) list \<Rightarrow> actor \<Rightarrow> actor option" where
  "actor_run X Y W Q [] a = Some a"
| "actor_run X Y W Q (e # ws) a =
     (if wake_ready (fst e) (snd e) a then actor_run X Y W Q ws (actor_step X Y W Q (fst e) (snd e) a) else None)"

definition sample_client_wire :: wire_crate where
  "sample_client_wire = \<lparr>
     wc_json = (\<lambda>t.
       if t = ''event'' then Some (relay_serialize sample_sig_text (REvent ''q'' sample_wire_event))
       else if t = ''ok'' then Some (relay_serialize sample_sig_text (ROk (ev_id sample_wire_event) True []))
       else None),
     wc_error_text = id\<rparr>"

definition sample_wake :: wake_env where
  "sample_wake = \<lparr>we_connect = ConnectOk None, we_elapsed = 10, we_now = 0, we_sweep = 1, we_rand = 7\<rparr>"

definition sample_history :: "(wake_env \<times> wakeup) list" where
  "sample_history = map (Pair sample_wake)
     [WakeCommand (Some (CmdConnect 0)),
      WakeCommand (Some (CmdSubscribe ''q'' [filter_new] \<lparr>so_close_on_eose = False\<rparr> 9 1)),
      WakeCommand (Some (CmdPublish sample_wire_event \<lparr>po_timeout = None\<rparr> 2)),
      WakeFrame (Some (Inr (MsgText ''event''))),
      WakeFrame (Some (Inr (MsgText ''ok'')))]"

section \<open>Running and stopping\<close>

lemma frame_message_text:
  "frame_message X Y W Q w = Some m \<longleftrightarrow> (\<exists>t. w = WakeFrame (Some (Inr (MsgText t))) \<and>
     length t \<le> cl_max_message_bytes (co_limits Q) \<and> relay_from_json X Y W t = Some m)"
  by (auto simp: frame_message_def split: wakeup.splits option.splits sum.splits ws_message.splits)

lemma actor_run_trace:
  "actor_trace X Y W Q us a \<Longrightarrow> actor_run X Y W Q ws a = Some b \<Longrightarrow> actor_trace X Y W Q (us @ ws) b"
proof (induction ws arbitrary: us a)
  case (Cons e ws)
  from Cons.prems(2) have "wake_ready (fst e) (snd e) a"
    and run: "actor_run X Y W Q ws (actor_step X Y W Q (fst e) (snd e) a) = Some b" by (simp_all split: if_splits)
  then show ?case using Cons.IH [OF _ run, of "us @ [e]"] trace_step [OF Cons.prems(1), of "fst e" "snd e"] by simp
qed simp

lemma command_running: "ac_running (handle_command Q v c a) = ac_running a"
  by (cases c) (simp_all add: handle_command_def handle_connect_def handle_disconnect_def drop_socket_def handle_subscribe_def
      handle_subscribe_neg_def handle_publish_def handle_authenticate_def handle_send_msg_def handle_send_def
      perform_connect_fields Let_def split: option.splits sum.splits)

lemma refuse_fields [simp]:
  "ac_running (refuse_command c a) = ac_running a" "ac_pending_publishes (refuse_command c a) = ac_pending_publishes a"
  "ac_sink (refuse_command c a) = ac_sink a" "ac_subscriptions (refuse_command c a) = ac_subscriptions a"
  by (simp_all add: refuse_command_def split: option.splits)

lemma refuse_dropped: "mset (ac_dropped (refuse_command c a)) = command_slots c + mset (ac_dropped a)"
  by (simp add: refuse_command_def command_slots_def split: option.splits)

lemma step_running: "ac_running (actor_step X Y W Q v w a) \<longleftrightarrow> ac_running a \<and> \<not> stop_wake w"
proof -
  have "\<not> ac_running (actor_stop a)" by (simp add: actor_stop_def Let_def)
  then show ?thesis
    by (cases w) (auto simp: actor_step_def stop_wake_def command_running handle_drop_subscription_def handle_disconnect_def
        drop_socket_def run_reconnect_def perform_connect_fields Let_def split: option.splits frame_outcome.splits)
qed

lemma trace_running:
  "actor_trace X Y W Q ws a \<Longrightarrow> ac_running a \<longleftrightarrow> \<not> list_ex (\<lambda>e. stop_wake (snd e)) ws"
  by (induction rule: actor_trace.induct) (auto simp: actor_new_def step_running list_ex_iff)

lemma step_deadlines:
  assumes "actor_ok Q a" and "e \<in> set (ac_pending_publishes (actor_step X Y W Q v w a))"
  shows "we_sweep v < pp_deadline (snd e)"
proof (cases "ac_running a \<and> \<not> stop_wake w")
  case True
  then have "\<exists>b. actor_step X Y W Q v w a = expire_pending_publishes (we_sweep v) b"
    by (cases w) (auto simp: actor_step_def stop_wake_def Let_def split: option.splits)
  then obtain b where "actor_step X Y W Q v w a = expire_pending_publishes (we_sweep v) b" by blast
  then show ?thesis using assms(2) expire_pending [of "we_sweep v" b] by auto
next
  case False
  then have "ac_pending_publishes (actor_step X Y W Q v w a) = []" using assms(1)
    by (auto simp: actor_step_def stop_wake_def actor_ok_def actor_stop_def Let_def split: wakeup.splits option.splits)
  then show ?thesis using assms(2) by simp
qed

section \<open>Dropped slots\<close>

lemma expire_dropped [simp]: "ac_dropped (expire_pending_publishes t a) = ac_dropped a"
proof -
  have "ac_dropped (expire_loop is a) = ac_dropped a" for "is"
    by (induction "is" a rule: expire_loop.induct) (simp_all split: option.splits)
  then show ?thesis by (simp add: expire_pending_publishes_def)
qed

lemma frame_dropped [simp]: "ac_dropped (fst (handle_frame X Y W Q f a)) = ac_dropped a"
proof -
  have "ac_dropped (dispatch_relay_message m b) = ac_dropped b" for m b
    by (simp add: dispatch_relay_message_def split: relay_message.splits option.splits)
  then show ?thesis
    by (simp add: handle_frame_def handle_text_frame_def Let_def split: sum.splits ws_message.splits option.splits)
qed

lemma command_dropped:
  assumes "\<And>e opts slot. c = CmdPublish e opts slot \<Longrightarrow> map_of (ac_pending_publishes a) (ev_id e) = None"
  shows "ac_dropped (handle_command Q v c a) = ac_dropped a"
  using assms
  by (cases c) (simp_all add: handle_command_def handle_connect_def handle_disconnect_def drop_socket_def handle_subscribe_def
      handle_subscribe_neg_def handle_publish_def insert_pending_def handle_authenticate_def handle_send_msg_def handle_send_def
      perform_connect_fields Let_def split: option.splits sum.splits)

lemma step_dropped:
  assumes "\<And>e opts slot. w = WakeCommand (Some (CmdPublish e opts slot)) \<Longrightarrow> map_of (ac_pending_publishes a) (ev_id e) = None"
  shows "mset (ac_dropped (actor_step X Y W Q v w a)) = mset (ac_dropped a) +
    (if \<not> ac_running a then wake_slots w
     else if stop_wake w then image_mset (\<lambda>e. pp_reply (snd e)) (mset (ac_pending_publishes a)) else {#})"
proof (cases "ac_running a")
  case False
  then show ?thesis by (auto simp: actor_step_def refuse_dropped split: wakeup.splits option.splits)
next
  case True
  have "ac_dropped (actor_stop a) = ac_dropped a @ map (\<lambda>e. pp_reply (snd e)) (ac_pending_publishes a)"
    by (simp add: actor_stop_def drop_socket_def Let_def)
  then show ?thesis using True assms command_dropped [of _ a Q v]
    by (cases w) (auto simp: actor_step_def stop_wake_def handle_drop_subscription_def handle_disconnect_def
        drop_socket_def run_reconnect_def perform_connect_fields Let_def split: option.splits frame_outcome.splits)
qed

lemma pending_published:
  assumes "actor_trace X Y W Q ws a" and "map_of (ac_pending_publishes a) i \<noteq> None"
  shows "i \<in> set (published_ids ws)"
proof -
  obtain p where "(i, p) \<in> set (ac_pending_publishes a)" using assms(2) by (auto dest: map_of_SomeD)
  then have "(i, pp_reply p) \<in> pending_slots a" by (force simp: pending_slots_def)
  from publish_registry.entry_registered [OF assms(1) this] obtain us r vs where "ws = us @ r # vs" "publishes (snd r) i (pp_reply p)"
    by blast
  then show ?thesis
    by (auto simp: published_ids_def publishes_def List.map_filter_def split: wakeup.splits option.splits actor_command.splits)
qed

lemma published_ids_snoc:
  "published_ids (ws @ [(v, WakeCommand (Some (CmdPublish e opts slot)))]) = published_ids ws @ [ev_id e]"
  by (simp add: published_ids_def List.map_filter_def)

lemma trace_dropped:
  "actor_trace X Y W Q ws a \<Longrightarrow> distinct (published_ids ws) \<Longrightarrow>
     (if ac_running a then ac_dropped a = [] else dropped_at_stop X Y W Q ws (ac_dropped a))"
proof (induction rule: actor_trace.induct)
  case trace_new
  show ?case by (simp add: actor_new_def)
next
  case (trace_step ws a v w)
  have dist: "distinct (published_ids ws)" using trace_step.prems by (simp add: published_ids_def List.map_filter_def)
  have "\<And>e opts slot. w = WakeCommand (Some (CmdPublish e opts slot)) \<Longrightarrow> map_of (ac_pending_publishes a) (ev_id e) = None"
    using trace_step.prems pending_published [OF trace_step.hyps(1)] by (fastforce simp: published_ids_snoc)
  note d = step_dropped [where w = w and a = a and X = X and Y = Y and W = W and Q = Q and v = v, OF this]
  show ?case
  proof (cases "ac_running a")
    case True
    then have none: "ac_dropped a = []" using trace_step.IH dist by simp
    have "dropped_at_stop X Y W Q (ws @ [(v, w)]) (ac_dropped (actor_step X Y W Q v w a))" if "stop_wake w"
      unfolding dropped_at_stop_def using d True none that trace_step.hyps(1)
      by (intro exI [of _ ws] exI [of _ v] exI [of _ w] exI [of _ "[]"] exI [of _ a]) (simp add: trace_slots_def)
    then show ?thesis using d True none by (auto simp: step_running)
  next
    case False
    then have "dropped_at_stop X Y W Q ws (ac_dropped a)" using trace_step.IH dist by simp
    then obtain us v' w' zs b where h: "ws = us @ (v', w') # zs" "stop_wake w'" "actor_trace X Y W Q us b" "ac_running b"
      "mset (ac_dropped a) = image_mset (\<lambda>e. pp_reply (snd e)) (mset (ac_pending_publishes b)) + trace_slots zs"
      by (auto simp: dropped_at_stop_def)
    have "dropped_at_stop X Y W Q (ws @ [(v, w)]) (ac_dropped (actor_step X Y W Q v w a))"
      unfolding dropped_at_stop_def using d False h
      by (intro exI [of _ us] exI [of _ v'] exI [of _ w'] exI [of _ "zs @ [(v, w)]"] exI [of _ b]) (simp add: trace_slots_def)
    then show ?thesis using False by (simp add: step_running)
  qed
qed

section \<open>What the socket was asked\<close>

lemma client_send_left:
  "ck_left (fst (client_send m k)) \<noteq> Some 0 \<Longrightarrow> ck_left k \<noteq> Some 0 \<and> ck_sent (fst (client_send m k)) = ck_sent k @ [m]"
  by (auto simp: client_send_def split: option.splits nat.splits)

lemma requested_send: "requested subs k \<Longrightarrow> requested subs (fst (client_send m k))"
  using client_send_left [of m k] by (auto simp: requested_def list_all_iff)

lemma requested_new:
  assumes "hm_invar subs" and "requested subs k" and "se_filters s = fs"
  shows "requested (hm_insert i s subs) (fst (client_send (CReq i fs) k))"
  using client_send_left [of "CReq i fs" k] assms by (auto simp: requested_def list_all_iff set_hm_insert)

lemma requested_less: "set subs' \<subseteq> set subs \<Longrightarrow> requested subs k \<Longrightarrow> requested subs' k"
  by (auto simp: requested_def list_all_iff)

lemma requested_skip: "hm_invar subs \<Longrightarrow> requested subs k \<Longrightarrow> se_skip_reissue s \<Longrightarrow> requested (hm_insert i s subs) k"
  by (auto simp: requested_def list_all_iff set_hm_insert)

lemma reissue_loop_left:
  "ck_left (reissue_loop ps k) \<noteq> Some 0 \<Longrightarrow> ck_left k \<noteq> Some 0 \<and> set (ck_sent k) \<subseteq> set (ck_sent (reissue_loop ps k))"
proof (induction ps arbitrary: k)
  case (Cons p ps)
  show ?case
  proof (cases "se_skip_reissue (snd p)")
    case False
    then show ?thesis using Cons.prems Cons.IH [of "fst (send_req (fst p) (se_filters (snd p)) k)"]
      client_send_left [of "CReq (fst p) (se_filters (snd p))" k] by (auto simp: send_req_def)
  qed (use Cons in simp)
qed simp

lemma reissue_loop_requested: "requested ps (reissue_loop ps k)"
proof (induction ps arbitrary: k)
  case (Cons p ps)
  let ?k = "if se_skip_reissue (snd p) then k else fst (send_req (fst p) (se_filters (snd p)) k)"
  show ?case
    using Cons.IH [of ?k] reissue_loop_left [of ps ?k] client_send_left [of "CReq (fst p) (se_filters (snd p))" k]
    by (auto simp: requested_def send_req_def split: if_splits)
qed (simp add: requested_def)

lemma all_requested_reissue: "all_requested (reissue_subscriptions a)"
  using reissue_loop_requested by (simp add: all_requested_def reissue_subscriptions_def split: option.splits)

lemma all_requested_cong:
  "ac_sink b = ac_sink a \<Longrightarrow> set (ac_subscriptions b) \<subseteq> set (ac_subscriptions a) \<Longrightarrow> all_requested a \<Longrightarrow> all_requested b"
  using requested_less by (auto simp: all_requested_def split: option.splits)

lemma all_requested_send: "all_requested a \<Longrightarrow> all_requested (fst (on_sink (client_send m) a))"
  using requested_send by (simp add: all_requested_def on_sink_def Let_def split: option.splits)

lemma send_eqs:
  "send_event e = client_send (CEvent e)" "send_auth e = client_send (CAuth e)" "send_close i = client_send (CClose i)"
  by (auto simp: send_event_def send_auth_def send_close_def)

lemma all_requested_connect:
  assumes "ac_sink a = None"
  shows "all_requested (if snd (perform_connect Q v a) = Inr () then reissue_subscriptions (fst (perform_connect Q v a))
    else fst (perform_connect Q v a))"
  using assms all_requested_reissue perform_connect_result [where v = v and Q = Q and a = a]
  by (auto simp: all_requested_def split: connect_result.splits)

lemma all_requested_frame [simp]:
  "all_requested (drop_slot slot a) = all_requested a"
  "all_requested (answer_slot slot r a) = all_requested a"
  "all_requested (a\<lparr>ac_reconnect_deadline := d\<rparr>) = all_requested a"
  "all_requested (a\<lparr>ac_stats := s\<rparr>) = all_requested a"
  "all_requested (insert_pending i p a) = all_requested a"
  "all_requested (handle_disconnect a)"
  "all_requested (expire_pending_publishes t a) = all_requested a"
  by (simp_all add: all_requested_def handle_disconnect_def drop_socket_def split: option.splits)

lemma all_requested_subscribe:
  assumes "hm_invar (ac_subscriptions a)" and "all_requested a"
  shows "all_requested (handle_subscribe Q i fs opts ch slot a)" and "all_requested (handle_subscribe_neg Q i f m ch slot a)"
proof -
  let ?s = "\<lparr>se_filters = fs, se_options = opts, se_sink = ch, se_skip_reissue = False\<rparr>"
  let ?n = "\<lparr>se_filters = [f], se_options = subscribe_options_new, se_sink = ch, se_skip_reissue = True\<rparr>"
  have new: "all_requested (fst (on_sink (send_req i fs) (a\<lparr>ac_subscriptions := hm_insert i ?s (ac_subscriptions a)\<rparr>)))"
    using assms requested_new [OF assms(1), of _ ?s fs i]
    by (simp add: all_requested_def on_sink_def send_req_def Let_def split: option.splits)
  have neg: "all_requested (a\<lparr>ac_subscriptions := hm_insert i ?n (ac_subscriptions a)\<rparr>)"
    using assms requested_skip [OF assms(1), of _ ?n i] by (simp add: all_requested_def split: option.splits)
  have drop: "all_requested (b\<lparr>ac_subscriptions := hm_remove i (ac_subscriptions b)\<rparr>)" if "all_requested b" for b
    by (rule all_requested_cong [OF _ _ that]) (auto simp: set_hm_remove)
  show "all_requested (handle_subscribe Q i fs opts ch slot a)"
    using new assms(2) by (simp add: handle_subscribe_def Let_def split: option.splits)
  show "all_requested (handle_subscribe_neg Q i f m ch slot a)"
    using assms(2) all_requested_send [OF neg, of "CNegOpen i f m"] drop [OF all_requested_send [OF neg, of "CNegOpen i f m"]]
    by (simp add: handle_subscribe_neg_def Let_def split: option.splits sum.splits)
qed

lemma all_requested_command:
  assumes ok: "actor_ok Q a" and req: "all_requested a"
  shows "all_requested (handle_command Q v c a)"
proof -
  have inv: "hm_invar (ac_subscriptions a)" and sink: "ac_status a \<noteq> Connected \<Longrightarrow> ac_sink a = None"
    using ok by (simp_all add: actor_ok_def)
  have con: "all_requested (handle_connect Q v slot a)" for slot
    using req all_requested_connect [OF sink, of Q v] by (simp add: handle_connect_def Let_def)
  show ?thesis
    using con req all_requested_subscribe [OF inv req] all_requested_send [OF req]
    by (cases c) (simp_all add: handle_command_def handle_publish_def handle_authenticate_def handle_send_msg_def
        handle_send_def send_eqs Let_def split: option.splits sum.splits)
qed

lemma dispatch_subscriptions: "set (ac_subscriptions (dispatch_relay_message m a)) \<subseteq> set (ac_subscriptions a)"
  by (cases m) (auto simp: dispatch_relay_message_def end_subscription_def set_hm_remove split: option.splits)

lemma all_requested_step:
  assumes ok: "actor_ok Q a" and ready: "wake_ready v w a" and req: "all_requested a"
  shows "all_requested (actor_step X Y W Q v w a)"
proof (cases "ac_running a")
  case False
  then show ?thesis using req by (auto simp: actor_step_def refuse_command_def split: wakeup.splits option.splits)
next
  case run: True
  show ?thesis
  proof (cases w)
    case (WakeCommand c)
    moreover have "all_requested (actor_stop a)" by (simp add: all_requested_def actor_stop_def drop_socket_def Let_def)
    ultimately show ?thesis using run all_requested_command [OF ok req] by (simp add: actor_step_def split: option.splits)
  next
    case (WakeDrop i)
    have "all_requested (a\<lparr>ac_subscriptions := hm_remove i (ac_subscriptions a)\<rparr>)"
      by (rule all_requested_cong [OF _ _ req]) (auto simp: set_hm_remove)
    then show ?thesis using run WakeDrop req all_requested_send
      by (simp add: actor_step_def handle_drop_subscription_def send_eqs)
  next
    case (WakeFrame f)
    have "all_requested (fst (handle_frame X Y W Q g a))" for g
    proof -
      obtain st where "case frame_message X Y W Q (WakeFrame (Some g)) of None \<Rightarrow> fst (handle_frame X Y W Q g a) = a\<lparr>ac_stats := st\<rparr>
          | Some m \<Rightarrow> fst (handle_frame X Y W Q g a) = dispatch_relay_message m (a\<lparr>ac_stats := st\<rparr>)"
        using frame_dispatch [OF refl, of X Y W Q g a] by blast
      then have "set (ac_subscriptions (fst (handle_frame X Y W Q g a))) \<subseteq> set (ac_subscriptions a)"
        using dispatch_subscriptions [of _ "a\<lparr>ac_stats := st\<rparr>"] by (auto split: option.splits)
      then show ?thesis by (intro all_requested_cong [OF _ _ req]) simp_all
    qed
    then show ?thesis using run WakeFrame req by (auto simp: actor_step_def Let_def split: option.splits frame_outcome.splits)
  next
    case WakeReconnect
    then have "ac_sink a = None" using ok ready by (auto simp: actor_ok_def wake_ready_def split: option.splits)
    then have "all_requested (run_reconnect Q v (a\<lparr>ac_reconnect_deadline := None\<rparr>))"
      by (simp add: run_reconnect_def Let_def all_requested_connect del: if_split_asm if_split)
    then show ?thesis using run WakeReconnect by (simp add: actor_step_def Let_def)
  next
    case WakePublishTimeout
    then show ?thesis using run req by (simp add: actor_step_def)
  qed
qed

lemma trace_requested: "actor_trace X Y W Q ws a \<Longrightarrow> all_requested a"
proof (induction rule: actor_trace.induct)
  case trace_new
  show ?case by (simp add: actor_new_def all_requested_def)
next
  case (trace_step ws a v w)
  then show ?case using actor_trace_ok [OF trace_step.hyps(1)] all_requested_step by blast
qed

section \<open>The sample history\<close>

lemma sample_client_json:
  "relay_from_json sample_crates sample_sig_text sample_client_wire ''event'' = Some (REvent ''q'' sample_wire_event)"
  "relay_from_json sample_crates sample_sig_text sample_client_wire ''ok'' = Some (ROk (ev_id sample_wire_event) True [])"
proof -
  have "subscription_id_wf ''q''" by code_simp
  then show "relay_from_json sample_crates sample_sig_text sample_client_wire ''event'' = Some (REvent ''q'' sample_wire_event)"
    "relay_from_json sample_crates sample_sig_text sample_client_wire ''ok'' = Some (ROk (ev_id sample_wire_event) True [])"
    using relay_round_trip_aux [OF sample_hex_laws sample_sig_laws, of "REvent ''q'' sample_wire_event"]
      relay_round_trip_aux [OF sample_hex_laws sample_sig_laws, of "ROk (ev_id sample_wire_event) True []"] sample_wire_event_wf
    by (simp_all add: relay_from_json_def sample_client_wire_def event_wf_def)
qed

lemma sample_client_run:
  "case actor_run sample_crates sample_sig_text sample_client_wire client_options_default sample_history actor_new of
     None \<Rightarrow> False
   | Some a \<Rightarrow> ac_answers a = [(0, Inr ()), (1, Inr ()), (2, Inr ())] \<and> ac_items a = [(9, ItemEvent sample_wire_event)] \<and>
       ac_sink a = Some \<lparr>ck_sent = [CReq ''q'' [filter_new], CEvent sample_wire_event], ck_left = None\<rparr> \<and>
       ac_subscriptions a = [(''q'', \<lparr>se_filters = [filter_new], se_options = \<lparr>so_close_on_eose = False\<rparr>, se_sink = 9,
         se_skip_reissue = False\<rparr>)] \<and> ac_pending_publishes a = []"
  by (simp add: sample_history_def sample_wake_def actor_new_def wake_ready_def actor_step_def handle_command_def
      handle_connect_def perform_connect_def set_status_def notify_def reissue_subscriptions_def answer_slot_def
      expire_pending_publishes_def handle_subscribe_def subscribe_refusal_def client_options_default_def
      client_limits_default_def on_sink_def send_req_def client_send_def handle_publish_def is_connected_def send_event_def
      insert_pending_def handle_frame_def handle_text_frame_def sample_client_json dispatch_relay_message_def
      to_subscription_def give_item_def hm_insert_def hm_remove_def Let_def)

lemma sample_client_trace:
  obtains a where "actor_trace sample_crates sample_sig_text sample_client_wire client_options_default sample_history a"
    "ac_answers a = [(0, Inr ()), (1, Inr ()), (2, Inr ())]" "ac_items a = [(9, ItemEvent sample_wire_event)]"
    "ac_sink a = Some \<lparr>ck_sent = [CReq ''q'' [filter_new], CEvent sample_wire_event], ck_left = None\<rparr>"
    "(''q'', \<lparr>se_filters = [filter_new], se_options = \<lparr>so_close_on_eose = False\<rparr>, se_sink = 9, se_skip_reissue = False\<rparr>)
      \<in> set (ac_subscriptions a)" "ac_pending_publishes a = []"
  using sample_client_run actor_run_trace [OF trace_new, of sample_crates sample_sig_text sample_client_wire client_options_default sample_history]
  by (auto split: option.splits)

lemma sample_client_sub:
  obtains a k s where "actor_trace sample_crates sample_sig_text sample_client_wire client_options_default sample_history a"
    "ac_sink a = Some k" "ck_left k = None" "(''q'', s) \<in> set (ac_subscriptions a)" "\<not> se_skip_reissue s"
  by (rule sample_client_trace) fastforce

section \<open>Properties\<close>

text \<open>C10. No command is answered twice and every reply slot is accounted for. After any history of wakeups the reply slots that were answered, those of the
  publishes still pending and those dropped without an answer are together exactly the slots of the commands the actor took, each as often as it was
  passed. If the history publishes no event twice, nothing is dropped while the actor runs, so every command but a pending publish has been
  answered exactly once; and once it is stopped the dropped slots are those of the publishes pending at the stop and of the commands
  that came after it. A publish stays pending only while its deadline is after the last sweep, and once the actor is stopped nothing is pending. The
  actor stops exactly at a shutdown command or when all handles are gone; a lost connection does not stop it under any reconnect policy, although
  policy.rs and status.rs document that it does when reconnection is disabled. Throughout, a socket exists exactly in the status
  \<open>Connected\<close>, the reconnect timer only while disconnected, and the two maps are within their limits.\<close>

theorem client_replies:
  assumes "actor_trace X Y W Q ws a"
  shows "mset (map fst (ac_answers a)) + image_mset (\<lambda>e. pp_reply (snd e)) (mset (ac_pending_publishes a)) + mset (ac_dropped a) = trace_slots ws \<and>
    (distinct (published_ids ws) \<longrightarrow>
       (if ac_running a then ac_dropped a = [] else dropped_at_stop X Y W Q ws (ac_dropped a))) \<and>
    (\<forall>e\<in>set (ac_pending_publishes a). we_sweep (fst (last ws)) < pp_deadline (snd e)) \<and>
    (\<not> ac_running a \<longrightarrow> ac_pending_publishes a = []) \<and>
    (ac_running a \<longleftrightarrow> \<not> list_ex (\<lambda>e. stop_wake (snd e)) ws) \<and> actor_ok Q a"
proof -
  have ok: "actor_ok Q a" "slots a = trace_slots ws" using actor_trace_ok [OF assms] by auto
  have "we_sweep (fst (last ws)) < pp_deadline (snd e)" if "e \<in> set (ac_pending_publishes a)" for e
    using assms
  proof cases
    case trace_new
    then show ?thesis using that by (simp add: actor_new_def)
  next
    case (trace_step us b v w)
    then show ?thesis using step_deadlines [of Q b e X Y W v w] actor_trace_ok [OF trace_step(3)] that by simp
  qed
  moreover have "distinct (published_ids ws) \<longrightarrow> (if ac_running a then ac_dropped a = [] else dropped_at_stop X Y W Q ws (ac_dropped a))"
    using trace_dropped [OF assms] by blast
  moreover have "mset (map fst (ac_answers a)) + image_mset (\<lambda>e. pp_reply (snd e)) (mset (ac_pending_publishes a)) + mset (ac_dropped a) = trace_slots ws"
    using ok(2) by (simp add: slots_def answered_def waiting_def)
  ultimately show ?thesis using ok(1) trace_running [OF assms] by (auto simp: actor_ok_def)
qed

theorem client_replies_witness:
  "\<exists>a. actor_trace sample_crates sample_sig_text sample_client_wire client_options_default sample_history a \<and>
     mset (map fst (ac_answers a)) = {#0, 1, 2#} \<and> trace_slots sample_history = {#0, 1, 2#} \<and>
     distinct (published_ids sample_history) \<and> ac_running a \<and> ac_dropped a = []"
proof -
  obtain a where a: "actor_trace sample_crates sample_sig_text sample_client_wire client_options_default sample_history a"
    "ac_answers a = [(0, Inr ()), (1, Inr ()), (2, Inr ())]" "ac_pending_publishes a = []" by (rule sample_client_trace)
  have "distinct (published_ids sample_history)" "ac_running a"
    using client_replies [OF a(1)] by (simp_all add: sample_history_def published_ids_def List.map_filter_def stop_wake_def)
  then show ?thesis using a client_replies [OF a(1)]
    by (auto simp: sample_history_def trace_slots_def command_slots_def command_reply_def intro!: exI [of _ a])
qed

text \<open>Publishing an event again while the answer for it is outstanding drops the slot of the first publish: the actor still runs, and the
  first caller is told of a shutdown.\<close>

lemma republish_drops:
  assumes "map_of (ac_pending_publishes a) (ev_id e) = Some old" and "is_connected a" and "ac_sink a = Some \<lparr>ck_sent = ms, ck_left = None\<rparr>"
    and "length (ac_pending_publishes a) < cl_max_pending_publishes (co_limits Q)"
  shows "ac_dropped (handle_publish Q v e opts slot a) = ac_dropped a @ [pp_reply old] \<and>
    ac_answers (handle_publish Q v e opts slot a) = ac_answers a \<and> ac_running (handle_publish Q v e opts slot a) = ac_running a"
  using assms by (simp add: handle_publish_def on_sink_def send_event_def client_send_def insert_pending_def Let_def)

text \<open>C11. A publish is reported successful only on the word of the relay. When a reply slot that no other command carries is answered with
  success, the history has the publish of an event with that slot and, later, a text frame within the size limit
  that decodes to an acceptance of that very event id; between the two no other answer for the id arrived and the actor was not
  stopped. So a timeout, a rejection, a lost connection or an acceptance of another event is never reported as success.\<close>

theorem client_publish_confirmed:
  assumes "actor_trace X Y W Q ws a" and "(slot, Inr ()) \<in> set (ac_answers a)"
    and "list_all (\<lambda>e. \<not> other_command (snd e) slot) ws"
  shows "\<exists>us v e opts vs u t zs msg.
    ws = us @ (v, WakeCommand (Some (CmdPublish e opts slot))) # vs @ (u, WakeFrame (Some (Inr (MsgText t)))) # zs \<and>
    length t \<le> cl_max_message_bytes (co_limits Q) \<and> relay_from_json X Y W t = Some (ROk (ev_id e) True msg) \<and>
    list_all (\<lambda>y. \<not> ends_publish X Y W Q (snd y) (ev_id e)) vs"
proof -
  have "slot \<in> confirmed_slots a" using assms(2) by (simp add: confirmed_slots_def)
  from publish_registry.output_explained [OF assms(1) this] assms(3)
  obtain us p vs u zs i msg where h: "ws = us @ p # vs @ u # zs" "publishes (snd p) i slot"
    "\<forall>y\<in>set vs. \<not> ends_publish X Y W Q (snd y) i" "frame_message X Y W Q (snd u) = Some (ROk i True msg)"
    by (auto simp: list_all_iff)
  from h(2) obtain v e opts where p: "p = (v, WakeCommand (Some (CmdPublish e opts slot)))" "ev_id e = i"
    by (cases p) (auto simp: publishes_def split: wakeup.splits option.splits actor_command.splits)
  from h(4) obtain u' t where t: "u = (u', WakeFrame (Some (Inr (MsgText t))))" "length t \<le> cl_max_message_bytes (co_limits Q)"
    "relay_from_json X Y W t = Some (ROk i True msg)" by (cases u) (auto simp: frame_message_text)
  have "ws = us @ (v, WakeCommand (Some (CmdPublish e opts slot))) # vs @ (u', WakeFrame (Some (Inr (MsgText t)))) # zs \<and>
    length t \<le> cl_max_message_bytes (co_limits Q) \<and> relay_from_json X Y W t = Some (ROk (ev_id e) True msg) \<and>
    list_all (\<lambda>y. \<not> ends_publish X Y W Q (snd y) (ev_id e)) vs" using h(1,3) p t by (simp add: list_all_iff)
  then show ?thesis by blast
qed

theorem client_publish_confirmed_witness:
  "\<exists>a us v e opts vs u t zs msg.
     actor_trace sample_crates sample_sig_text sample_client_wire client_options_default sample_history a \<and>
     (2, Inr ()) \<in> set (ac_answers a) \<and>
     sample_history = us @ (v, WakeCommand (Some (CmdPublish e opts 2))) # vs @ (u, WakeFrame (Some (Inr (MsgText t)))) # zs \<and>
     relay_from_json sample_crates sample_sig_text sample_client_wire t = Some (ROk (ev_id e) True msg)"
proof -
  obtain a where a: "actor_trace sample_crates sample_sig_text sample_client_wire client_options_default sample_history a"
    "ac_answers a = [(0, Inr ()), (1, Inr ()), (2, Inr ())]" by (rule sample_client_trace)
  have "list_all (\<lambda>e. \<not> other_command (snd e) 2) sample_history"
    by (simp add: sample_history_def other_command_def command_reply_def)
  with client_publish_confirmed [OF a(1), of 2] a show ?thesis by fastforce
qed

text \<open>C12. Streams get only what was sent to them. Every item a subscription's stream received comes from a text frame within the
  size limit whose message names the subscription id that the stream was registered under and carries
  exactly that item; the registration came before, and in between the subscription was neither dropped, closed by the relay, nor
  ended by a stop.\<close>

theorem client_routing:
  assumes "actor_trace X Y W Q ws a" and "(ch, it) \<in> set (ac_items a)"
  shows "\<exists>us v w vs u t zs i m.
    ws = us @ (v, w) # vs @ (u, WakeFrame (Some (Inr (MsgText t)))) # zs \<and> subscribes w i ch \<and>
    length t \<le> cl_max_message_bytes (co_limits Q) \<and> relay_from_json X Y W t = Some m \<and> carries i it m \<and>
    list_all (\<lambda>y. \<not> ends_subscription X Y W Q (snd y) i) vs"
proof -
  from channel_registry.output_explained [OF assms]
  obtain us p vs u zs i m where h: "ws = us @ p # vs @ u # zs" "subscribes (snd p) i ch"
    "\<forall>y\<in>set vs. \<not> ends_subscription X Y W Q (snd y) i" "frame_message X Y W Q (snd u) = Some m" "carries i it m"
    by auto
  from h(4) obtain u' t where t: "u = (u', WakeFrame (Some (Inr (MsgText t))))" "length t \<le> cl_max_message_bytes (co_limits Q)"
    "relay_from_json X Y W t = Some m" by (cases u) (auto simp: frame_message_text)
  have "ws = us @ (fst p, snd p) # vs @ (u', WakeFrame (Some (Inr (MsgText t)))) # zs \<and> subscribes (snd p) i ch \<and>
    length t \<le> cl_max_message_bytes (co_limits Q) \<and> relay_from_json X Y W t = Some m \<and> carries i it m \<and>
    list_all (\<lambda>y. \<not> ends_subscription X Y W Q (snd y) i) vs" using h t by (simp add: list_all_iff)
  then show ?thesis by blast
qed

theorem client_routing_witness:
  "\<exists>a us v w vs u t zs i m.
     actor_trace sample_crates sample_sig_text sample_client_wire client_options_default sample_history a \<and>
     (9, ItemEvent sample_wire_event) \<in> set (ac_items a) \<and>
     sample_history = us @ (v, w) # vs @ (u, WakeFrame (Some (Inr (MsgText t)))) # zs \<and> subscribes w i 9 \<and>
     relay_from_json sample_crates sample_sig_text sample_client_wire t = Some m \<and> carries i (ItemEvent sample_wire_event) m"
proof -
  obtain a where a: "actor_trace sample_crates sample_sig_text sample_client_wire client_options_default sample_history a"
    "ac_items a = [(9, ItemEvent sample_wire_event)]" by (rule sample_client_trace)
  with client_routing [OF a(1), of 9 "ItemEvent sample_wire_event"] show ?thesis by fastforce
qed

text \<open>C13. A live socket knows every subscription. Whenever the client has a socket on which no send was refused, a request with the
  filters of each registered subscription was sent on that very socket, however often the connection was lost
  and made anew before; only negentropy sessions are left out.\<close>

theorem client_reissue:
  assumes "actor_trace X Y W Q ws a" and "ac_sink a = Some k" and "ck_left k \<noteq> Some 0"
    and "(i, s) \<in> set (ac_subscriptions a)" and "\<not> se_skip_reissue s"
  shows "CReq i (se_filters s) \<in> set (ck_sent k)"
  using trace_requested [OF assms(1)] assms(2-5) by (force simp: all_requested_def requested_def list_all_iff)

theorem client_reissue_witness:
  "\<exists>a k s. actor_trace sample_crates sample_sig_text sample_client_wire client_options_default sample_history a \<and>
     ac_sink a = Some k \<and> (''q'', s) \<in> set (ac_subscriptions a) \<and> CReq ''q'' (se_filters s) \<in> set (ck_sent k)"
proof -
  obtain a k s where a: "actor_trace sample_crates sample_sig_text sample_client_wire client_options_default sample_history a"
    "ac_sink a = Some k" "ck_left k = None" "(''q'', s) \<in> set (ac_subscriptions a)" "\<not> se_skip_reissue s"
    by (rule sample_client_sub)
  with client_reissue [OF a(1,2) _ a(4,5)] show ?thesis by fastforce
qed

text \<open>The delay before a reconnect is below the doubled base and the cap, so the attempts are spaced by at most the cap, and a
  policy that never reconnects gives none.\<close>

lemma next_delay_bounds:
  assumes "next_delay (PolicyExponential base cap) n r = Some d" and "0 < base" and "0 < cap"
  shows "d < cap \<and> d < base * 2 ^ min (unat n) 32"
proof -
  define upper where "upper = min (min (base * 2 ^ min (unat n) 32) (2 ^ 128 - 1)) cap"
  have up: "0 < upper" using assms by (simp add: upper_def)
  have "d = full_jitter base cap n r" using assms(1) by (simp add: next_delay_def)
  also have "\<dots> = (if upper = 0 then 0 else min (unat r mod upper) (2 ^ 64 - 1))" unfolding full_jitter_def Let_def upper_def ..
  also have "\<dots> \<le> unat r mod upper" by (simp only: min.cobounded1 split: if_split) simp
  also have "\<dots> < upper" using up by simp
  finally show ?thesis by (simp add: upper_def)
qed

end
