(* ===== verification/Pool_Theorems.thy ===== *)
theory Pool_Theorems
  imports Relay_Pool Client_Theorems
begin

text \<open>
  The properties of the pool: what a fan-out reports, which relays are registered after a sequence of calls, and what a stream
  delivers. The cache of seen ids is characterised as the most recently seen distinct ids.
\<close>

section \<open>Definitions the theorems use\<close>

text \<open>\<open>r\<close> is what an actor answered on a slot that only publishes of \<open>e\<close> carry.\<close>

definition publish_call ::
  "crates \<Rightarrow> sig_text \<Rightarrow> wire_crate \<Rightarrow> client_options \<Rightarrow> event \<Rightarrow> (wake_env \<times> wakeup) list \<Rightarrow> actor \<Rightarrow> reply \<Rightarrow> relay_answer \<Rightarrow> bool" where
  "publish_call X Y W Q e ws a slot r \<longleftrightarrow> actor_trace X Y W Q ws a \<and> (slot, r) \<in> set (ac_answers a) \<and>
     list_all (\<lambda>x. \<not> other_command (snd x) slot \<and> (\<forall>j. publishes (snd x) j slot \<longrightarrow> j = ev_id e)) ws"

definition accepts :: "crates \<Rightarrow> sig_text \<Rightarrow> wire_crate \<Rightarrow> client_options \<Rightarrow> event_id \<Rightarrow> wakeup \<Rightarrow> bool" where
  "accepts X Y W Q i w = (case frame_message X Y W Q w of Some (ROk j b _) \<Rightarrow> j = i \<and> b | _ \<Rightarrow> False)"

text \<open>What is relied on of \<open>FuturesUnordered\<close>: every future is yielded once.\<close>

definition arrival_order :: "(relay_url list \<Rightarrow> relay_url list) \<Rightarrow> bool" where
  "arrival_order arrive \<longleftrightarrow> (\<forall>us. mset (arrive us) = mset us)"

text \<open>What is relied on of the \<open>lru\<close> crate: \<open>put\<close> tells whether the key was held, makes it the most recent one, and keeps at most the
  capacity of most recent keys.\<close>

definition lru_laws :: "'c lru \<Rightarrow> ('c \<Rightarrow> nat) \<Rightarrow> ('c \<Rightarrow> event_id list) \<Rightarrow> bool" where
  "lru_laws L cap ks \<longleftrightarrow> (\<forall>n. cap (lru_new L n) = n \<and> ks (lru_new L n) = []) \<and>
     (\<forall>k c. cap (fst (lru_put L k c)) = cap c \<and> snd (lru_put L k c) = (k \<in> set (ks c)) \<and>
       ks (fst (lru_put L k c)) = take (cap c) (k # filter (\<lambda>j. j \<noteq> k) (ks c)))"

definition sample_lru :: "(nat \<times> event_id list) lru" where
  "sample_lru = \<lparr>lru_new = (\<lambda>n. (n, [])),
     lru_put = (\<lambda>k c. ((fst c, take (fst c) (k # filter (\<lambda>j. j \<noteq> k) (snd c))), k \<in> set (snd c)))\<rparr>"

text \<open>The most recently seen distinct ids after a history, the latest first.\<close>

definition recent :: "nat \<Rightarrow> event_id list \<Rightarrow> event_id list" where
  "recent n h = take n (rev (remdups h))"

text \<open>What a stream is to do on its wakeups when it knew the whole history of ids \<open>h\<close> instead of a cache: an event that is not among the recent ones
  is saved when saving is on and then sent, a closing is sent, and the stream ends at a failed send, the end of the relays' streams, the deadline
  and the departure of the receiver.\<close>

fun expected_log :: "nat \<Rightarrow> bool \<Rightarrow> event_id list \<Rightarrow> driver_wake list \<Rightarrow> stream_act list" where
  "expected_log n save h [] = []"
| "expected_log n save h (WakeItem u i (ItemEvent e) listening # ws) =
     (if ev_id e \<in> set (recent n h) then expected_log n save (h @ [ev_id e]) ws
      else (if save then [ActSave e] else []) @
        (if listening then ActSend (u, Inr e) # expected_log n save (h @ [ev_id e]) ws else []))"
| "expected_log n save h (WakeItem u i (ItemClosed m) listening # ws) =
     (if listening then ActSend (u, Inl (CeSubscriptionClosed i m)) # expected_log n save h ws else [])"
| "expected_log n save h (WakeItem u i it listening # ws) = expected_log n save h ws"
| "expected_log n save h (w # ws) = []"

text \<open>The events among wakeups, the wakeups that can end a stream, the events saved and delivered by a log, and the store its saves make.\<close>

definition wake_events :: "driver_wake list \<Rightarrow> (relay_url \<times> event) list" where
  "wake_events ws = List.map_filter (\<lambda>w. case w of WakeItem u _ (ItemEvent e) _ \<Rightarrow> Some (u, e) | _ \<Rightarrow> None) ws"

definition wake_ends :: "driver_wake \<Rightarrow> bool" where
  "wake_ends w = (case w of WakeItem _ _ _ listening \<Rightarrow> \<not> listening | _ \<Rightarrow> True)"

definition log_saved :: "stream_act list \<Rightarrow> event list" where
  "log_saved l = List.map_filter (\<lambda>x. case x of ActSave e \<Rightarrow> Some e | ActSend _ \<Rightarrow> None) l"

definition log_delivered :: "stream_act list \<Rightarrow> (relay_url \<times> event) list" where
  "log_delivered l = List.map_filter (\<lambda>x. case x of ActSend (u, Inr e) \<Rightarrow> Some (u, e) | _ \<Rightarrow> None) l"

definition log_store :: "'s database option \<Rightarrow> stream_act list \<Rightarrow> 's \<Rightarrow> 's" where
  "log_store db l s = (case db of None \<Rightarrow> s | Some D \<Rightarrow> foldl (\<lambda>s e. fst (db_save_event D e s)) s (log_saved l))"

definition sample_list_db :: "event list database" where
  "sample_list_db = \<lparr>db_save_event = (\<lambda>e s. (s @ [e], Inr Success)), db_query = (\<lambda>_ s. Inr s), db_count = (\<lambda>_ s. Inr (length s)),
     db_negentropy_items = (\<lambda>_ s. Inr (map (\<lambda>e. (ev_id e, ev_created_at e)) s))\<rparr>"

definition sample_wakes :: "driver_wake list" where
  "sample_wakes = [WakeItem ''a'' ''q'' (ItemEvent sample_wire_event) True, WakeItem ''b'' ''r'' (ItemEvent sample_wire_event) True,
     WakeDeadline, WakeItem ''b'' ''r'' (ItemEvent sample_low_id) True]"

datatype pool_call =
    CallAdd relay_url relay_capabilities client_options
  | CallRemove relay_url
  | CallShutdown
  | CallDrop nat
  | CallForward relay_url "relay_notification list"

fun pool_apply :: "pool_call \<Rightarrow> relay_pool \<Rightarrow> relay_pool" where
  "pool_apply (CallAdd u c Q) p = fst (add_relay_with_options u c Q p)"
| "pool_apply (CallRemove u) p = fst (remove_relay u p)"
| "pool_apply CallShutdown p = pool_shutdown p"
| "pool_apply (CallDrop n) p = pool_drop n p"
| "pool_apply (CallForward u ns) p = forwarder u ns p"

text \<open>A relay in the pool is not shut down, so its forwarder sees no shutdown.\<close>

definition call_ok :: "pool_call \<Rightarrow> bool" where
  "call_ok c = (case c of CallForward _ ns \<Rightarrow> NoteShutdown \<notin> set ns | _ \<Rightarrow> True)"

text \<open>What a listener that hears every notification believes.\<close>

fun hear :: "relay_url set \<Rightarrow> pool_notification \<Rightarrow> relay_url set" where
  "hear s (PoolRelayAdded u) = insert u s"
| "hear s (PoolRelayRemoved u) = s - {u}"
| "hear s (PoolStatus u st) = s"
| "hear s (PoolNotice u m) = s"
| "hear s PoolShutdown = s"

definition pool_ok :: "relay_pool \<Rightarrow> bool" where
  "pool_ok p \<longleftrightarrow> hm_invar (rp_relays p) \<and> (rp_shutdown p \<longrightarrow> rp_relays p = []) \<and>
     (case pl_max_relays (rp_options p) of None \<Rightarrow> True | Some m \<Rightarrow> length (rp_relays p) \<le> m) \<and>
     foldl hear {} (rp_notes p) = fst ` set (rp_relays p) \<and>
     (rp_shutdown p \<longleftrightarrow> PoolShutdown \<in> set (rp_notes p))"

definition sample_pool :: relay_pool where
  "sample_pool = \<lparr>rp_options = pool_options_default,
     rp_relays = [(''ws://r'', \<lparr>pe_capabilities = caps_default, pe_options = client_options_default\<rparr>)],
     rp_notes = [PoolRelayAdded ''ws://r''], rp_shutdown = False\<rparr>"

definition sample_pool_a :: relay_pool where
  "sample_pool_a = \<lparr>rp_options = pool_options_default,
     rp_relays = [(''a'', \<lparr>pe_capabilities = CAP_READ, pe_options = client_options_default\<rparr>)],
     rp_notes = [PoolRelayAdded ''a''], rp_shutdown = False\<rparr>"

section \<open>Fan-out\<close>

lemma collect_results_fields:
  "out_value (collect_results (map (\<lambda>u. (u, g u)) us) out) = out_value out \<and>
   set (out_success (collect_results (map (\<lambda>u. (u, g u)) us) out)) = set (out_success out) \<union> {u \<in> set us. g u = Inr ()} \<and>
   map_of (out_failed (collect_results (map (\<lambda>u. (u, g u)) us) out)) =
     (\<lambda>u. if u \<in> set us then (case g u of Inl err \<Rightarrow> Some err | Inr _ \<Rightarrow> map_of (out_failed out) u) else map_of (out_failed out) u)"
proof (induction us arbitrary: out)
  case (Cons u us)
  show ?case
    using Cons.IH [of "record_result (u, g u) out"]
    by (auto simp: record_result_def hm_insert_def update_conv' fun_eq_iff split: sum.splits)
qed simp

lemma run_futures_fields:
  assumes "set (arrive (map fst fs)) = set us"
  shows "fst (run_futures (relay_result rt ans) arrive fs x) = fs"
    and "out_value (snd (run_futures (relay_result rt ans) arrive fs x)) = x"
    and "set (out_success (snd (run_futures (relay_result rt ans) arrive fs x))) = {u \<in> set us. ans u = Inr ()}"
    and "map_of (out_failed (snd (run_futures (relay_result rt ans) arrive fs x))) =
      (\<lambda>u. if u \<in> set us then (case ans u of Inl err \<Rightarrow> Some (rt err) | Inr _ \<Rightarrow> None) else None)"
proof -
  have "map_err rt r = Inr () \<longleftrightarrow> r = Inr ()" for r :: relay_answer by (cases r) auto
  then show "fst (run_futures (relay_result rt ans) arrive fs x) = fs"
    "out_value (snd (run_futures (relay_result rt ans) arrive fs x)) = x"
    "set (out_success (snd (run_futures (relay_result rt ans) arrive fs x))) = {u \<in> set us. ans u = Inr ()}"
    "map_of (out_failed (snd (run_futures (relay_result rt ans) arrive fs x))) =
      (\<lambda>u. if u \<in> set us then (case ans u of Inl err \<Rightarrow> Some (rt err) | Inr _ \<Rightarrow> None) else None)"
    using assms collect_results_fields [of "relay_result rt ans" "arrive (map fst fs)" "output_new x"]
    by (auto simp: run_futures_def relay_result_def output_new_def fun_eq_iff split: sum.splits)
qed

lemma push_futures_cases:
  "case push_futures p q us fs of
     Inl err \<Rightarrow> (\<exists>u. u \<in> set us \<and> pool_relay u p = None \<and> err = PeRelayNotFound u)
   | Inr fs' \<Rightarrow> fs' = fs @ map (\<lambda>u. (u, q)) us \<and> (\<forall>u\<in>set us. pool_relay u p \<noteq> None)"
proof (induction us arbitrary: fs)
  case (Cons u us)
  show ?case
  proof (cases "pool_relay u p")
    case (Some en)
    then show ?thesis using Cons.IH [of "fs @ [(u, q)]"] by (auto split: sum.splits)
  qed simp
qed simp

lemma publish_call_accepted:
  assumes "publish_call X Y W Q e ws a slot (Inr ())"
  shows "list_ex (\<lambda>x. accepts X Y W Q (ev_id e) (snd x)) ws"
proof -
  have tr: "actor_trace X Y W Q ws a" and "slot \<in> confirmed_slots a"
    and own: "\<forall>x\<in>set ws. \<not> other_command (snd x) slot \<and> (\<forall>j. publishes (snd x) j slot \<longrightarrow> j = ev_id e)"
    using assms by (auto simp: publish_call_def confirmed_slots_def list_all_iff)
  from publish_registry.output_explained [OF this(1,2)] own
  obtain us r vs u zs i msg where h: "ws = us @ r # vs @ u # zs" "publishes (snd r) i slot"
    "frame_message X Y W Q (snd u) = Some (ROk i True msg)" by auto
  then have "i = ev_id e" "u \<in> set ws" using own by auto
  with h(3) show ?thesis by (auto simp: list_ex_iff accepts_def intro!: bexI [of _ u])
qed

section \<open>Membership\<close>

lemma broadcast_fields [simp]:
  "rp_options (broadcast n p) = rp_options p" "rp_relays (broadcast n p) = rp_relays p"
  "rp_shutdown (broadcast n p) = rp_shutdown p" "rp_notes (broadcast n p) = rp_notes p @ [n]"
  by (simp_all add: broadcast_def)

lemma drain_loop:
  "rp_options (foldl (\<lambda>q e. broadcast (PoolRelayRemoved (fst e)) q) p es) = rp_options p \<and>
   rp_relays (foldl (\<lambda>q e. broadcast (PoolRelayRemoved (fst e)) q) p es) = rp_relays p \<and>
   rp_shutdown (foldl (\<lambda>q e. broadcast (PoolRelayRemoved (fst e)) q) p es) = rp_shutdown p \<and>
   rp_notes (foldl (\<lambda>q e. broadcast (PoolRelayRemoved (fst e)) q) p es) = rp_notes p @ map (\<lambda>e. PoolRelayRemoved (fst e)) es"
  by (induction es arbitrary: p) simp_all

lemma hear_removed: "foldl hear s (map (\<lambda>e. PoolRelayRemoved (fst e)) es) = s - fst ` set es"
  by (induction es arbitrary: s) auto

lemma pool_ok_shutdown:
  assumes "pool_ok p"
  shows "pool_ok (drain_relays (mark_shutdown p))"
  using assms drain_loop [of "(mark_shutdown p)\<lparr>rp_relays := []\<rparr>" "rp_relays (mark_shutdown p)"]
  by (auto simp: pool_ok_def drain_relays_def mark_shutdown_def hear_removed hm.invar_empty split: option.splits)

lemma pool_ok_forwarder:
  "pool_ok p \<Longrightarrow> NoteShutdown \<notin> set ns \<Longrightarrow> pool_ok (forwarder u ns p)"
proof (induction ns arbitrary: p)
  case (Cons n ns)
  show ?case
  proof (cases "translate_note u n")
    case None
    then show ?thesis using Cons by simp
  next
    case (Some msg)
    then have msg: "\<And>v. msg \<noteq> PoolRelayRemoved v" "hear s msg = s" "msg \<noteq> PoolShutdown" for s
      using Cons.prems(2) by (auto simp: translate_note_def split: relay_notification.splits)
    have "pool_ok (broadcast msg p)" using Cons.prems(1) msg(2,3) by (auto simp: pool_ok_def split: option.splits)
    then have "pool_ok (forwarder u ns (broadcast msg p))" using Cons.IH Cons.prems(2) by simp
    then show ?thesis using Some msg(1) by (auto simp: Let_def split: pool_notification.splits)
  qed
qed simp

lemma pool_ok_add:
  assumes "pool_ok p"
  shows "pool_ok (fst (add_relay_with_options u c Q p))"
proof (cases "rp_shutdown p")
  case False
  have inv: "hm_invar (rp_relays p)" using assms by (simp add: pool_ok_def)
  show ?thesis
  proof (cases "map_of (rp_relays p) u")
    case None
    then have "u \<notin> fst ` set (rp_relays p)" by (simp add: map_of_eq_None_iff)
    then have "fst ` {e \<in> set (rp_relays p). fst e \<noteq> u} = fst ` set (rp_relays p)" by auto
    then show ?thesis using None False assms
      by (auto simp: add_relay_with_options_def add_relay_locked_def pool_ok_def hm.invar_ins hm.length_ins set_hm_insert [OF inv]
          split: if_splits option.split_asm option.split)
  next
    case (Some e)
    then have "u \<in> fst ` set (rp_relays p)" by (metis domI dom_map_of_conv_image_fst)
    then show ?thesis using Some False assms
      by (auto simp: add_relay_with_options_def add_relay_locked_def pool_ok_def hm.invar_ins hm.length_ins set_hm_insert [OF inv]
          split: option.splits)
  qed
qed (use assms in \<open>simp add: add_relay_with_options_def\<close>)

lemma pool_ok_remove:
  assumes "pool_ok p"
  shows "pool_ok (fst (remove_relay u p))"
proof (cases "map_of (rp_relays p) u")
  case (Some e)
  have "length (hm_remove u (rp_relays p)) \<le> length (rp_relays p)" using assms by (simp add: hm_remove_length pool_ok_def)
  moreover have "\<not> rp_shutdown p" using assms Some by (auto simp: pool_ok_def)
  ultimately show ?thesis using assms Some
    by (auto simp: remove_relay_def pool_ok_def hm.invar_del set_hm_remove split: option.splits)
qed (use assms in \<open>simp add: remove_relay_def\<close>)

lemma pool_ok_apply: "pool_ok p \<Longrightarrow> call_ok c \<Longrightarrow> pool_ok (pool_apply c p)"
  by (cases c) (simp_all add: pool_ok_add pool_ok_remove pool_ok_shutdown pool_ok_forwarder pool_shutdown_def pool_drop_def call_ok_def)

lemma pool_ok_calls: "list_all call_ok cs \<Longrightarrow> pool_ok p \<Longrightarrow> pool_ok (fold pool_apply cs p)"
  by (induction cs arbitrary: p) (simp_all add: pool_ok_apply)

section \<open>The window of a stream\<close>

lemma rev_remdups_snoc: "rev (remdups (h @ [x])) = x # filter (\<lambda>j. j \<noteq> x) (rev (remdups h))"
  by (induction h) auto

lemma filter_neq_length:
  assumes "distinct xs" and "x \<in> set xs"
  shows "length (filter (\<lambda>j. j \<noteq> x) xs) = length xs - 1"
proof -
  have "length (filter (\<lambda>j. j \<noteq> x) xs) = card (set xs - {x})"
    using distinct_card [of "filter (\<lambda>j. j \<noteq> x) xs"] assms(1) by (simp add: set_diff_eq)
  then show ?thesis using assms by (simp add: distinct_card)
qed

lemma recent_snoc:
  assumes "0 < n"
  shows "take n (x # filter (\<lambda>j. j \<noteq> x) (recent n h)) = recent n (h @ [x])"
proof -
  let ?r = "rev (remdups h)"
  obtain m where n: "n = Suc m" using assms by (cases n) auto
  have "take m (filter (\<lambda>j. j \<noteq> x) (take n ?r)) = take m (filter (\<lambda>j. j \<noteq> x) ?r)"
  proof (cases "x \<in> set (take n ?r) \<and> n \<le> length ?r")
    case True
    have d: "distinct (take n ?r)" by simp
    have "length (filter (\<lambda>j. j \<noteq> x) (take n ?r)) = length (take n ?r) - 1"
      using True d by (simp add: filter_neq_length)
    moreover have "filter (\<lambda>j. j \<noteq> x) ?r = filter (\<lambda>j. j \<noteq> x) (take n ?r) @ filter (\<lambda>j. j \<noteq> x) (drop n ?r)"
      by (metis append_take_drop_id filter_append)
    ultimately show ?thesis using n True by auto
  next
    case False
    then consider "length ?r < n" | "filter (\<lambda>j. j \<noteq> x) (take n ?r) = take n ?r" "n \<le> length ?r" by (fastforce simp: filter_id_conv)
    then show ?thesis
    proof cases
      case 2
      have "filter (\<lambda>j. j \<noteq> x) ?r = take n ?r @ filter (\<lambda>j. j \<noteq> x) (drop n ?r)"
        by (metis 2(1) append_take_drop_id filter_append)
      then show ?thesis using n 2 by simp
    qed simp
  qed
  then show ?thesis by (simp add: recent_def rev_remdups_snoc n)
qed

lemma driver_stopped: "\<not> sd_running d \<Longrightarrow> driver_run L db ws d = d"
  unfolding driver_run_def by (induction ws) (simp_all add: driver_step_def)

lemma driver_run_Cons: "driver_run L db (w # ws) d = driver_run L db ws (driver_step L db w d)"
  by (simp add: driver_run_def)

lemma log_parts [simp]:
  "log_saved [] = []" "log_saved (ActSave e # l) = e # log_saved l" "log_saved (ActSend y # l) = log_saved l"
  "log_delivered [] = []" "log_delivered (ActSave e # l) = log_delivered l"
  "log_delivered (ActSend (u, Inr e) # l) = (u, e) # log_delivered l" "log_delivered (ActSend (u, Inl err) # l) = log_delivered l"
  "log_store db [] s = s"
  by (simp_all add: log_saved_def log_delivered_def log_store_def map_filter_simps split: option.splits)

lemma log_store_Cons [simp]:
  "log_store (Some D) (ActSave e # l) s = log_store (Some D) l (fst (db_save_event D e s))"
  "log_store db (ActSend y # l) s = log_store db l s" "log_store None l s = s"
  by (simp_all add: log_store_def split: option.splits)

lemma stream_save_fields [simp]:
  "sd_running (stream_save db e d) = sd_running d" "sd_seen (stream_save db e d) = sd_seen d"
  "sd_log (stream_save db e d) = sd_log d @ (if db = None then [] else [ActSave e])"
  "sd_store (stream_save db e d) = log_store db [ActSave e] (sd_store d)"
  by (simp_all add: stream_save_def split: option.splits)

text \<open>The driver does what is expected when its cache holds the recent ids.\<close>

lemma driver_run_log:
  assumes "lru_laws L cap ks" and "0 < n" and "sd_running d" and "cap (sd_seen d) = n" and "ks (sd_seen d) = recent n h"
  shows "sd_log (driver_run L db ws d) = sd_log d @ expected_log n (db \<noteq> None) h ws \<and>
    sd_store (driver_run L db ws d) = log_store db (expected_log n (db \<noteq> None) h ws) (sd_store d)"
  using assms(3-5)
proof (induction ws arbitrary: d h)
  case Nil
  then show ?case by (simp add: driver_run_def)
next
  case (Cons w ws)
  show ?case
  proof (cases w)
    case W: (WakeItem u i it rx)
    show ?thesis
    proof (cases it)
      case E: (ItemEvent e)
      define c where "c = fst (lru_put L (ev_id e) (sd_seen d))"
      have put: "cap c = n" "snd (lru_put L (ev_id e) (sd_seen d)) = (ev_id e \<in> set (recent n h))" "ks c = recent n (h @ [ev_id e])"
        using assms(1) Cons.prems(2,3) recent_snoc [OF assms(2), of "ev_id e" h] by (simp_all add: lru_laws_def c_def)
      define d2 where "d2 = (let d1 = stream_save db e (d\<lparr>sd_seen := c\<rparr>) in d1\<lparr>sd_log := sd_log d1 @ [ActSend (u, Inr e)]\<rparr>)"
      show ?thesis
      proof (cases "ev_id e \<in> set (recent n h)")
        case True
        then have "driver_step L db w d = d\<lparr>sd_seen := c\<rparr>"
          using Cons.prems(1) put(2) by (simp add: W E driver_step_def forward_item_def Let_def c_def)
        then show ?thesis using True Cons.prems(1) Cons.IH [of "d\<lparr>sd_seen := c\<rparr>" "h @ [ev_id e]"] put
          by (simp add: W E driver_run_Cons)
      next
        case False
        show ?thesis
        proof (cases rx)
          case True
          then have "driver_step L db w d = d2"
            using False Cons.prems(1) put(2) by (simp add: W E driver_step_def forward_item_def stream_send_def Let_def c_def d2_def)
          moreover have "sd_running d2" "sd_seen d2 = c" "sd_log d2 = sd_log d @ (if db = None then [] else [ActSave e]) @ [ActSend (u, Inr e)]"
            "sd_store d2 = log_store db [ActSave e] (sd_store d)" using Cons.prems(1) by (simp_all add: d2_def Let_def)
          ultimately show ?thesis using True False Cons.IH [of d2 "h @ [ev_id e]"] put
            by (cases db) (simp_all add: W E driver_run_Cons)
        next
          case rx: False
          then have "driver_step L db w d = (stream_save db e (d\<lparr>sd_seen := c\<rparr>))\<lparr>sd_running := False\<rparr>"
            using False Cons.prems(1) put(2) by (simp add: W E driver_step_def forward_item_def stream_send_def Let_def c_def)
          then show ?thesis using rx False by (cases db) (simp_all add: W E driver_run_Cons driver_stopped)
        qed
      qed
    next
      case M: (ItemClosed m)
      then show ?thesis using Cons.prems Cons.IH [of "d\<lparr>sd_log := sd_log d @ [ActSend (u, Inl (CeSubscriptionClosed i m))]\<rparr>" h]
        by (cases rx) (simp_all add: W driver_run_Cons driver_step_def forward_item_def stream_send_def driver_stopped)
    qed (use Cons in \<open>simp_all add: W driver_run_Cons driver_step_def forward_item_def\<close>)
  qed (use Cons.prems(1) in \<open>simp_all add: driver_run_Cons driver_step_def driver_stopped\<close>)
qed

lemma expected_saved:
  "expected_log n True h ws = l1 @ ActSend (u, Inr e) # l2 \<Longrightarrow> \<exists>l. l1 = l @ [ActSave e]"
proof (induction n True h ws arbitrary: l1 rule: expected_log.induct)
  case (2 n h v i e' rx ws)
  show ?case
  proof (cases "ev_id e' \<in> set (recent n h)")
    case True
    then show ?thesis using "2.hyps"(1) "2.prems" by simp
  next
    case False
    then have eq: "ActSave e' # (if rx then ActSend (v, Inr e') # expected_log n True (h @ [ev_id e']) ws else []) = l1 @ ActSend (u, Inr e) # l2"
      using "2.prems" by simp
    then obtain l1' where l1: "l1 = ActSave e' # l1'" "rx" "ActSend (v, Inr e') # expected_log n True (h @ [ev_id e']) ws = l1' @ ActSend (u, Inr e) # l2"
      by (cases l1) (auto split: if_splits)
    show ?thesis
    proof (cases l1')
      case Nil
      then show ?thesis using l1 by simp
    next
      case (Cons x xs)
      then show ?thesis using l1 "2.hyps"(2) [OF False l1(2), of xs] by auto
    qed
  qed
next
  case (3 n h v i m rx ws)
  then show ?case by (cases l1) (auto split: if_splits)
qed auto

lemma recent_all: "card (set h) \<le> n \<Longrightarrow> set (recent n h) = set h"
  by (simp add: recent_def length_remdups_card_conv)

lemma wake_events_simps [simp]:
  "wake_events [] = []" "wake_events (WakeItem u i (ItemEvent e) rx # ws) = (u, e) # wake_events ws"
  "(\<And>e. it \<noteq> ItemEvent e) \<Longrightarrow> wake_events (WakeItem u i it rx # ws) = wake_events ws"
  by (auto simp: wake_events_def map_filter_simps split: subscription_item.splits)

lemma expected_once:
  "card (set h \<union> (ev_id \<circ> snd) ` set (wake_events ws)) \<le> n \<Longrightarrow>
     distinct (map (ev_id \<circ> snd) (log_delivered (expected_log n save h ws))) \<and>
     set (map (ev_id \<circ> snd) (log_delivered (expected_log n save h ws))) \<subseteq> (ev_id \<circ> snd) ` set (wake_events ws) - set h \<and>
     (list_all (\<lambda>w. \<not> wake_ends w) ws \<longrightarrow>
       set (map (ev_id \<circ> snd) (log_delivered (expected_log n save h ws))) = (ev_id \<circ> snd) ` set (wake_events ws) - set h)"
proof (induction n save h ws rule: expected_log.induct)
  case (2 n save h u i e rx ws)
  have "card (set h) \<le> card (set h \<union> (ev_id \<circ> snd) ` set (wake_events (WakeItem u i (ItemEvent e) rx # ws)))" by (rule card_mono) auto
  then have rec: "set (recent n h) = set h" using "2.prems" by (simp add: recent_all)
  have c: "card (set (h @ [ev_id e]) \<union> (ev_id \<circ> snd) ` set (wake_events ws)) \<le> n" using "2.prems" by simp
  show ?case
  proof (cases "ev_id e \<in> set h")
    case True
    then show ?thesis using "2.IH"(1) c rec by (auto simp: wake_ends_def)
  next
    case False
    then show ?thesis using "2.IH"(2) c rec by (cases rx; cases save) (auto simp: wake_ends_def)
  qed
next
  case (3 n save h u i m rx ws)
  then show ?case by (cases rx) (simp_all add: wake_ends_def)
qed (simp_all add: wake_ends_def)

section \<open>Properties\<close>

text \<open>C29. A publish to several relays asks each of them once and reports exactly what each answered. It is refused when no relay is named or a named
  relay is not in the pool, and then no relay client was asked anything. Otherwise every named relay, and no other, was asked once to publish the
  event; the report carries the event id, its successes are the relays whose client answered with success and its failures map every
  other named relay to the text of its error, in whatever order the answers arrive; and, the answers being those of relay clients,
  each relay reported as a success has sent an acceptance of this very event to the client that published it.\<close>

theorem pool_publish:
  assumes "arrival_order arrive" and "send_event_to rt ans arrive urls e p = (calls, r)"
    and "list_all (\<lambda>c. publish_call X Y W (Q (fst c)) e (hist (fst c)) (act (fst c)) (slot (fst c)) (ans (fst c))) calls"
  shows "case r of
      Inl err \<Rightarrow> calls = [] \<and>
        (urls = [] \<and> err = PeNoRelaysSpecified \<or> (\<exists>u. u \<in> set urls \<and> pool_relay u p = None \<and> err = PeRelayNotFound u))
    | Inr out \<Rightarrow>
        urls \<noteq> [] \<and> list_all (\<lambda>u. pool_relay u p \<noteq> None) urls \<and>
        distinct calls \<and> set calls = (\<lambda>u. (u, AskPublish e)) ` set urls \<and> out_value out = ev_id e \<and>
        set (out_success out) = {u. u \<in> set urls \<and> ans u = Inr ()} \<and>
        map_of (out_failed out) = (\<lambda>u. if u \<in> set urls then (case ans u of Inl err \<Rightarrow> Some (rt err) | Inr _ \<Rightarrow> None) else None) \<and>
        list_all (\<lambda>u. list_ex (\<lambda>x. accepts X Y W (Q u) (ev_id e) (snd x)) (hist u)) (out_success out)"
proof (cases "urls = []")
  case True
  then show ?thesis using assms(2) by (auto simp: send_event_to_def fan_out_to_def)
next
  case False
  note push = push_futures_cases [where p = p and q = "AskPublish e" and us = "remdups urls" and fs = "[]"]
  show ?thesis
  proof (cases "push_futures p (AskPublish e) (remdups urls) []")
    case (Inl err)
    then show ?thesis using False assms(2) push by (auto simp: send_event_to_def fan_out_to_def)
  next
    case (Inr fs)
    have fs: "fs = map (\<lambda>u. (u, AskPublish e)) (remdups urls)" "\<forall>u\<in>set urls. pool_relay u p \<noteq> None" using push Inr by simp_all
    have "map fst fs = remdups urls" by (simp add: fs(1) o_def)
    then have "mset (arrive (map fst fs)) = mset (remdups urls)" using assms(1) by (simp add: arrival_order_def)
    then have "set (arrive (map fst fs)) = set urls" by (metis set_mset_mset set_remdups)
    note F = run_futures_fields [where arrive = arrive and fs = fs and rt = rt and ans = ans and x = "ev_id e", OF this]
    have r: "calls = fs" "r = Inr (snd (run_futures (relay_result rt ans) arrive fs (ev_id e)))"
      using assms(2) False Inr F(1) by (auto simp: send_event_to_def fan_out_to_def Let_def)
    have "list_ex (\<lambda>x. accepts X Y W (Q u) (ev_id e) (snd x)) (hist u)" if "u \<in> set urls" "ans u = Inr ()" for u
      using assms(3) that publish_call_accepted [of X Y W "Q u" e "hist u" "act u" "slot u"] by (auto simp: list_all_iff r(1) fs(1))
    then show ?thesis using False fs F(2-) r by (auto simp: list_all_iff distinct_map inj_on_def)
  qed
qed

theorem pool_publish_witness:
  "\<exists>a out. publish_call sample_crates sample_sig_text sample_client_wire client_options_default sample_wire_event sample_history a 2 (Inr ()) \<and>
     send_event_to (\<lambda>_. []) (\<lambda>u. Inr ()) id [''ws://r''] sample_wire_event sample_pool =
       ([(''ws://r'', AskPublish sample_wire_event)], Inr out) \<and> set (out_success out) = {''ws://r''} \<and>
     list_ex (\<lambda>x. accepts sample_crates sample_sig_text sample_client_wire client_options_default (ev_id sample_wire_event) (snd x))
       sample_history"
proof -
  obtain a where a: "actor_trace sample_crates sample_sig_text sample_client_wire client_options_default sample_history a"
    "ac_answers a = [(0, Inr ()), (1, Inr ()), (2, Inr ())]" by (rule sample_client_trace)
  have c: "publish_call sample_crates sample_sig_text sample_client_wire client_options_default sample_wire_event sample_history a 2 (Inr ())"
    using a by (simp add: publish_call_def sample_history_def other_command_def command_reply_def publishes_def)
  have o: "arrival_order id" by (simp add: arrival_order_def)
  let ?calls = "[(''ws://r'', AskPublish sample_wire_event)]"
  obtain out where out: "send_event_to (\<lambda>_. []) (\<lambda>u. Inr ()) id [''ws://r''] sample_wire_event sample_pool = (?calls, Inr out)"
    by (simp add: send_event_to_def fan_out_to_def pool_relay_def sample_pool_def run_futures_def)
  have l: "list_all (\<lambda>x. publish_call sample_crates sample_sig_text sample_client_wire client_options_default sample_wire_event
      sample_history a 2 (Inr ())) ?calls" using c by simp
  from pool_publish [OF o out l]
  have "set (out_success out) = {''ws://r''} \<and> list_all (\<lambda>u. list_ex (\<lambda>x. accepts sample_crates sample_sig_text sample_client_wire
    client_options_default (ev_id sample_wire_event) (snd x)) sample_history) (out_success out)" by simp
  then have "set (out_success out) = {''ws://r''}" "list_ex (\<lambda>x. accepts sample_crates sample_sig_text sample_client_wire
    client_options_default (ev_id sample_wire_event) (snd x)) sample_history" unfolding list_all_iff by blast+
  with c out show ?thesis by blast
qed

text \<open>C31. The pool and its notifications agree. After any sequence of calls the registered relays are distinct, at most the
  configured number, and exactly those a listener believes registered who heard every notification: added and not removed
  since. Shutting down empties the pool, is announced exactly when it happens, and no call after it registers a relay.\<close>

theorem pool_membership:
  assumes "list_all call_ok cs"
  shows "pool_ok (fold pool_apply cs (pool_new opts))"
proof -
  have "pool_ok (pool_new opts)" by (simp add: pool_ok_def pool_new_def hm.invar_empty split: option.splits)
  then show ?thesis by (rule pool_ok_calls [OF assms])
qed

theorem pool_membership_witness:
  "pool_ok (fold pool_apply [CallAdd ''a'' CAP_READ client_options_default, CallForward ''a'' [NoteStatus Connected],
       CallAdd ''b'' CAP_WRITE client_options_default, CallAdd ''a'' CAP_WRITE client_options_default, CallRemove ''b'']
     (pool_new pool_options_default)) \<and>
   fold pool_apply [CallAdd ''a'' CAP_READ client_options_default] (pool_new pool_options_default) = sample_pool_a"
  using pool_membership [of "[CallAdd ''a'' CAP_READ client_options_default, CallForward ''a'' [NoteStatus Connected],
       CallAdd ''b'' CAP_WRITE client_options_default, CallAdd ''a'' CAP_WRITE client_options_default, CallRemove ''b'']"
     pool_options_default]
  by (simp add: call_ok_def sample_pool_a_def add_relay_with_options_def add_relay_locked_def pool_new_def pool_options_default_def
      broadcast_def hm_insert_def)

text \<open>Read under one lock the flag would suffice; it is read before the lock, and a registration that waits for it survives a shutdown.\<close>

lemma add_relay_race:
  "pl_max_relays (rp_options p) = None \<Longrightarrow> \<not> rp_shutdown p \<Longrightarrow>
     rp_relays (fst (add_relay_locked u c Q (pool_shutdown p))) = [(u, \<lparr>pe_capabilities = c, pe_options = Q\<rparr>)]"
  using drain_loop [of "(mark_shutdown p)\<lparr>rp_relays := []\<rparr>" "rp_relays (mark_shutdown p)"]
  by (simp add: add_relay_locked_def pool_shutdown_def drain_relays_def mark_shutdown_def hm_insert_def)

text \<open>C30. What a stream over several relays does, on any sequence of wakeups: it behaves as if it knew all ids that arrived, passing over an event exactly
  when its id is among the most recently seen distinct ids, as many as the cache holds, whichever relay it came from. Until the receiver leaves, a send
  fails, the deadline passes or the relays' streams end, every other event is delivered, and nothing is after that. The store is changed by
  the saves alone, and when saving is on each delivered event was saved immediately before it was sent. If the cache holds all the ids that
  arrive, no event is delivered twice, and if moreover nothing ended the stream each arriving event was delivered exactly once.\<close>

theorem pool_stream:
  assumes "lru_laws L cap ks" and "0 < n" and "d = driver_run L db ws (driver_start L n s)"
  shows "sd_log d = expected_log n (db \<noteq> None) [] ws \<and> sd_store d = log_store db (sd_log d) s \<and>
    (db \<noteq> None \<longrightarrow> (\<forall>l1 u e l2. sd_log d = l1 @ ActSend (u, Inr e) # l2 \<longrightarrow> (\<exists>l. l1 = l @ [ActSave e]))) \<and>
    (card ((ev_id \<circ> snd) ` set (wake_events ws)) \<le> n \<longrightarrow>
      distinct (map (ev_id \<circ> snd) (log_delivered (sd_log d))) \<and>
      (list_all (\<lambda>w. \<not> wake_ends w) ws \<longrightarrow>
         set (map (ev_id \<circ> snd) (log_delivered (sd_log d))) = (ev_id \<circ> snd) ` set (wake_events ws)))"
proof -
  let ?s = "driver_start L n s"
  have "sd_running ?s" "cap (sd_seen ?s) = n" "ks (sd_seen ?s) = recent n []" "sd_log ?s = []" "sd_store ?s = s"
    using assms(1) by (simp_all add: driver_start_def lru_laws_def recent_def)
  then have "sd_log d = expected_log n (db \<noteq> None) [] ws" "sd_store d = log_store db (expected_log n (db \<noteq> None) [] ws) s"
    using driver_run_log [OF assms(1,2), of ?s "[]" db ws] assms(3) by simp_all
  moreover have "db \<noteq> None \<longrightarrow> (\<forall>l1 u e l2. expected_log n (db \<noteq> None) [] ws = l1 @ ActSend (u, Inr e) # l2 \<longrightarrow> (\<exists>l. l1 = l @ [ActSave e]))"
    using expected_saved [of n "[]" ws] by auto
  ultimately show ?thesis using expected_once [of "[]" ws n "db \<noteq> None"] by simp
qed

lemma sample_lru_laws: "lru_laws sample_lru fst snd"
  by (simp add: lru_laws_def sample_lru_def)

theorem pool_stream_witness:
  "\<exists>d. d = driver_run sample_lru (Some sample_list_db) sample_wakes (driver_start sample_lru 2 []) \<and>
     sd_log d = [ActSave sample_wire_event, ActSend (''a'', Inr sample_wire_event)] \<and> sd_store d = [sample_wire_event] \<and>
     distinct (map (ev_id \<circ> snd) (log_delivered (sd_log d)))"
  using pool_stream [OF sample_lru_laws _ refl, of 2 "Some sample_list_db" sample_wakes "[]"]
  by (simp add: sample_wakes_def recent_def sample_list_db_def)

end
