(* ===== verification/Sync_Theorems.thy ===== *)
theory Sync_Theorems
  imports Sync_Driver Pool_Theorems
begin

text \<open>
  The properties of a sync: how it ends, that its summary is what the session and the two exchanges did, and that nothing enters the local
  database past the admission policy.
\<close>

section \<open>Definitions the theorems use\<close>

text \<open>The texts of the reconciliation messages among items, and the outcomes of a session that folds them one after the other.\<close>

definition neg_texts :: "subscription_item list \<Rightarrow> string list" where
  "neg_texts its = List.map_filter (\<lambda>it. case it of ItemNegMsg m \<Rightarrow> Some m | _ \<Rightarrow> None) its"

fun session_outcomes :: "crates \<Rightarrow> ('v, 'r) neg_initiator \<Rightarrow> 'r reconciliation \<Rightarrow> string list \<Rightarrow> reconcile_outcome list" where
  "session_outcomes X N rc [] = []"
| "session_outcomes X N rc (m # ms) =
     (let p = reconciliation_reconcile_hex X N rc m
      in case snd p of Inl _ \<Rightarrow> [] | Inr r \<Rightarrow> r # session_outcomes X N (fst p) ms)"

definition all_have :: "sync_options \<Rightarrow> reconcile_outcome list \<Rightarrow> event_id set" where
  "all_have opts rs = (if do_up (sn_direction opts) then \<Union>(set ` ro_have ` set rs) else {})"

definition all_need :: "sync_options \<Rightarrow> reconcile_outcome list \<Rightarrow> event_id set" where
  "all_need opts rs = (if do_down (sn_direction opts) then \<Union>(set ` ro_need ` set rs) else {})"

definition uploaded :: "(event_id \<Rightarrow> 's \<Rightarrow> string + event option) \<Rightarrow> sync_peer \<Rightarrow> 's \<Rightarrow> event_id \<Rightarrow> bool" where
  "uploaded look R s i = (case look i s of Inr (Some e) \<Rightarrow> sp_publish R e = Inr () | _ \<Rightarrow> False)"

text \<open>What the upload of ids and the download of ids ask the client of the relay for.\<close>

definition upload_requests :: "(event_id \<Rightarrow> 's \<Rightarrow> string + event option) \<Rightarrow> 's \<Rightarrow> event_id list \<Rightarrow> sync_request list" where
  "upload_requests look s is =
     List.map_filter (\<lambda>j. case look j s of Inr (Some e) \<Rightarrow> Some (RequestMsg (CEvent e)) | _ \<Rightarrow> None) is"

definition download_requests :: "sync_peer \<Rightarrow> event_id list \<Rightarrow> sync_request list" where
  "download_requests R is =
     (case sp_fetch_id R of
        None \<Rightarrow> []
      | Some j \<Rightarrow> [RequestMsg (CReq j [filter_ids is filter_new]), RequestDrop j])"

definition exchange_requests ::
  "(event_id \<Rightarrow> 's \<Rightarrow> string + event option) \<Rightarrow> sync_peer \<Rightarrow> sync_options \<Rightarrow> 's \<Rightarrow> sync_summary \<Rightarrow> sync_request list" where
  "exchange_requests look R opts s m =
     (if sn_dry_run opts then []
      else (if do_up (sn_direction opts) then upload_requests look s (sm_local m) else []) @
        (if do_down (sn_direction opts) \<and> sm_remote m \<noteq> [] then download_requests R (sm_remote m) else []))"

definition save_list :: "'s database \<Rightarrow> event list \<Rightarrow> 's \<Rightarrow> 's" where
  "save_list D es s = foldl (\<lambda>s e. fst (db_save_event D e s)) s es"

definition admitted :: "admit_policy option \<Rightarrow> relay_url \<Rightarrow> subscription_id \<Rightarrow> event \<Rightarrow> bool" where
  "admitted pol url i e \<longleftrightarrow> check_admit_event pol url i e = Inr ()"

text \<open>A sample: a database that keeps what is saved, a session that completes at the first message, and a relay that answers everything.\<close>

definition sample_initiator :: "(unit, unit) neg_initiator" where
  "sample_initiator = \<lparr>ng_vector = (), ng_insert = (\<lambda>_ _ _. Inr ()), ng_seal = Inr, ng_owned = (\<lambda>_ _. Inr ()),
     ng_reconcile = (\<lambda>_ bs. ((), Inr bs)), ng_initiate = (\<lambda>_. ((), Inr [97])),
     ng_reconcile_with_ids = (\<lambda>_ _. ((), Inr ([ev_id sample_wire_event], [ev_id sample_low_id], None)))\<rparr>"

definition sample_peer :: sync_peer where
  "sample_peer = \<lparr>sp_subscribe_neg = Inr (), sp_items = [ItemNegMsg []], sp_send = (\<lambda>_. Inr ()), sp_publish = (\<lambda>_. Inr ()),
     sp_fetch_id = Some ''f'', sp_fetch = Inr (), sp_stream = [WakeItem ''ws://r'' ''f'' (ItemEvent sample_low_id) True, WakeStreamsEnded]\<rparr>"

definition sample_lookup :: "event_id \<Rightarrow> event list \<Rightarrow> string + event option" where
  "sample_lookup i s = Inr (find (\<lambda>e. ev_id e = i) s)"

definition sample_policy :: admit_policy where
  "sample_policy url i e = Some (if ev_kind e = 1 then AdmitSuccess else AdmitRejected None)"

definition sample_sync_pool :: relay_pool where
  "sample_sync_pool = sample_pool\<lparr>rp_options := builder_pool_options (Some sample_policy) pool_options_default\<rparr>"

section \<open>Rounds\<close>

lemma sync_insert_all_set: "set (fst (sync_insert_all is t)) = set t \<union> set is"
  by (induction "is" t rule: sync_insert_all.induct) (auto simp: Let_def)

lemma fold_outcome_fields:
  "sy_store (fold_outcome r opts a) = sy_store a" "sy_requests (fold_outcome r opts a) = sy_requests a"
  "set (sm_local (sy_summary (fold_outcome r opts a))) = set (sm_local (sy_summary a)) \<union> all_have opts [r]"
  "set (sm_remote (sy_summary (fold_outcome r opts a))) = set (sm_remote (sy_summary a)) \<union> all_need opts [r]"
  "sm_sent (sy_summary (fold_outcome r opts a)) = sm_sent (sy_summary a)"
  "sm_received (sy_summary (fold_outcome r opts a)) = sm_received (sy_summary a)"
  "sm_send_failures (sy_summary (fold_outcome r opts a)) = sm_send_failures (sy_summary a)"
  "sm_rejected (sy_summary (fold_outcome r opts a)) = sm_rejected (sy_summary a)"
  by (simp_all add: fold_outcome_def Let_def all_have_def all_need_def sync_insert_all_set)

lemma all_have_need_Cons:
  "all_have opts (r # rs) = all_have opts [r] \<union> all_have opts rs" "all_need opts (r # rs) = all_need opts [r] \<union> all_need opts rs"
  by (auto simp: all_have_def all_need_def)

lemma peer_send_fields [simp]:
  "sy_store (fst (peer_send R m a)) = sy_store a" "sy_summary (fst (peer_send R m a)) = sy_summary a"
  "sy_requests (fst (peer_send R m a)) = sy_requests a @ [RequestMsg m]" "sy_progress (fst (peer_send R m a)) = sy_progress a"
  "snd (peer_send R m a) = sp_send R m"
  "sy_store (sync_ask qs a) = sy_store a" "sy_summary (sync_ask qs a) = sy_summary a" "sy_requests (sync_ask qs a) = sy_requests a @ qs"
  by (simp_all add: peer_send_def sync_ask_def)

text \<open>What a run of the rounds changes, whatever its result.\<close>

lemma reconcile_rounds_frame:
  "sy_store (fst (reconcile_rounds X N R i opts n its rc a)) = sy_store a \<and>
   sm_sent (sy_summary (fst (reconcile_rounds X N R i opts n its rc a))) = sm_sent (sy_summary a) \<and>
   sm_received (sy_summary (fst (reconcile_rounds X N R i opts n its rc a))) = sm_received (sy_summary a) \<and>
   sm_send_failures (sy_summary (fst (reconcile_rounds X N R i opts n its rc a))) = sm_send_failures (sy_summary a) \<and>
   sm_rejected (sy_summary (fst (reconcile_rounds X N R i opts n its rc a))) = sm_rejected (sy_summary a) \<and>
   (\<exists>hs. sy_requests (fst (reconcile_rounds X N R i opts n its rc a)) = sy_requests a @ map (\<lambda>h. RequestMsg (CNegMsg i h)) hs \<and> length hs \<le> n)"
proof (induction n arbitrary: its rc a)
  case (Suc n its0)
  show ?case
  proof (cases its0)
    case C: (Cons it its)
    show ?thesis
    proof (cases it)
    case (ItemNegMsg m)
    show ?thesis
    proof (cases "snd (reconciliation_reconcile_hex X N rc m)")
      case (Inl e)
      then show ?thesis using ItemNegMsg by (simp add: C Let_def)
    next
      case (Inr r)
      note msg = ItemNegMsg this
      show ?thesis
      proof (cases "next_message_hex X r")
        case None
        then show ?thesis using msg by (simp add: C Let_def fold_outcome_fields)
      next
        case (Some h)
        let ?a = "fst (peer_send R (CNegMsg i h) (fold_outcome r opts a))"
        let ?rc = "fst (reconciliation_reconcile_hex X N rc m)"
        show ?thesis
        proof (cases "sp_send R (CNegMsg i h)")
          case (Inl e)
          then have "reconcile_rounds X N R i opts (Suc n) (it # its) rc a = (?a, Inl (NeRelay e))"
            using msg Some by (simp add: Let_def)
          moreover have "sy_requests ?a = sy_requests a @ map (\<lambda>h. RequestMsg (CNegMsg i h)) [h] \<and> length [h] \<le> Suc n" by (simp add: fold_outcome_fields)
          ultimately show ?thesis by (auto simp: C fold_outcome_fields intro!: exI [of _ "[h]"])
        next
          case (Inr x)
          then have run: "reconcile_rounds X N R i opts (Suc n) (it # its) rc a = reconcile_rounds X N R i opts n its ?rc ?a"
            using msg Some by (simp add: Let_def)
          from Suc.IH [of its ?rc ?a]
          obtain hs where "sy_requests (fst (reconcile_rounds X N R i opts n its ?rc ?a)) = sy_requests ?a @ map (\<lambda>h. RequestMsg (CNegMsg i h)) hs"
            "length hs \<le> n" by auto
          then have "sy_requests (fst (reconcile_rounds X N R i opts n its ?rc ?a)) = sy_requests a @ map (\<lambda>h. RequestMsg (CNegMsg i h)) (h # hs) \<and>
            length (h # hs) \<le> Suc n" by (simp add: fold_outcome_fields)
          then have "\<exists>hs. sy_requests (fst (reconcile_rounds X N R i opts n its ?rc ?a)) = sy_requests a @ map (\<lambda>h. RequestMsg (CNegMsg i h)) hs \<and>
            length hs \<le> Suc n" by blast
          with Suc.IH [of its ?rc ?a] show ?thesis unfolding C run by (simp only: fold_outcome_fields peer_send_fields)
        qed
      qed
    qed
    qed (use Suc.IH [of its rc a] in \<open>auto simp: C intro: le_SucI\<close>)
  qed simp
qed simp

text \<open>A run that succeeds has folded the outcomes of a session over the messages of the items it read, the last of which completes.\<close>

lemma reconcile_rounds_exact:
  "snd (reconcile_rounds X N R i opts n its rc a) = Inr () \<Longrightarrow>
   \<exists>k rs. k \<le> n \<and> k \<le> length its \<and> rs = session_outcomes X N rc (neg_texts (take k its)) \<and>
     length rs = length (neg_texts (take k its)) \<and> rs \<noteq> [] \<and> outcome_is_complete (last rs) \<and>
     set (sm_local (sy_summary (fst (reconcile_rounds X N R i opts n its rc a)))) = set (sm_local (sy_summary a)) \<union> all_have opts rs \<and>
     set (sm_remote (sy_summary (fst (reconcile_rounds X N R i opts n its rc a)))) = set (sm_remote (sy_summary a)) \<union> all_need opts rs \<and>
     sy_requests (fst (reconcile_rounds X N R i opts n its rc a)) =
       sy_requests a @ map (\<lambda>h. RequestMsg (CNegMsg i h)) (List.map_filter (next_message_hex X) rs)"
proof (induction n arbitrary: its rc a)
  case (Suc n its0)
  then obtain it its where its0: "its0 = it # its" by (cases its0) auto
  note prems = Suc.prems [unfolded its0]
  show ?case
  proof (cases "\<exists>m. it = ItemNegMsg m")
    case True
    then obtain m where it: "it = ItemNegMsg m" by blast
    have tx: "neg_texts (it # xs) = m # neg_texts xs" for xs
      by (simp add: neg_texts_def map_filter_simps it)
    obtain r where r: "snd (reconciliation_reconcile_hex X N rc m) = Inr r"
      using prems it by (cases "snd (reconciliation_reconcile_hex X N rc m)") (auto simp: Let_def)
    let ?rc = "fst (reconciliation_reconcile_hex X N rc m)"
    show ?thesis
    proof (cases "next_message_hex X r")
      case None
      then have "outcome_is_complete r" by (simp add: next_message_hex_def outcome_is_complete_def)
      moreover have "neg_texts [it] = [m]" using tx [of "[]"] by (simp add: neg_texts_def map_filter_simps)
      ultimately show ?thesis using None it r
        by (intro exI [of _ 1] exI [of _ "[r]"]) (simp add: its0 Let_def fold_outcome_fields map_filter_simps)
    next
      case (Some h)
      let ?a = "fst (peer_send R (CNegMsg i h) (fold_outcome r opts a))"
      have run: "reconcile_rounds X N R i opts (Suc n) (it # its) rc a = reconcile_rounds X N R i opts n its ?rc ?a"
        using prems it r Some by (cases "sp_send R (CNegMsg i h)") (simp_all add: Let_def)
      have "\<exists>u. sp_send R (CNegMsg i h) = Inr u" using prems it r Some by (cases "sp_send R (CNegMsg i h)") (simp_all add: Let_def)
      then obtain u where "sp_send R (CNegMsg i h) = Inr u" ..
      from Suc.IH [OF prems [unfolded run]]
      obtain k rs where k: "k \<le> n" "k \<le> length its" "rs = session_outcomes X N ?rc (neg_texts (take k its))"
        "length rs = length (neg_texts (take k its))" "rs \<noteq> []" "outcome_is_complete (last rs)"
        "set (sm_local (sy_summary (fst (reconcile_rounds X N R i opts n its ?rc ?a)))) = set (sm_local (sy_summary ?a)) \<union> all_have opts rs"
        "set (sm_remote (sy_summary (fst (reconcile_rounds X N R i opts n its ?rc ?a)))) = set (sm_remote (sy_summary ?a)) \<union> all_need opts rs"
        "sy_requests (fst (reconcile_rounds X N R i opts n its ?rc ?a)) =
           sy_requests ?a @ map (\<lambda>h. RequestMsg (CNegMsg i h)) (List.map_filter (next_message_hex X) rs)"
        by auto
      show ?thesis unfolding its0 run
        using k r Some all_have_need_Cons [of opts r rs]
        by (intro exI [of _ "Suc k"] exI [of _ "r # rs"]) (auto simp: tx Let_def fold_outcome_fields map_filter_simps)
    qed
  next
    case False
    then have run: "reconcile_rounds X N R i opts (Suc n) (it # its) rc a = reconcile_rounds X N R i opts n its rc a"
      using prems by (cases it) auto
    have tx: "neg_texts (it # xs) = neg_texts xs" for xs
      using False by (auto simp: neg_texts_def map_filter_simps split: subscription_item.splits)
    from Suc.IH [OF prems [unfolded run]]
    obtain k rs where "k \<le> n" "k \<le> length its" "rs = session_outcomes X N rc (neg_texts (take k its))"
      "length rs = length (neg_texts (take k its))" "rs \<noteq> []" "outcome_is_complete (last rs)"
      "set (sm_local (sy_summary (fst (reconcile_rounds X N R i opts n its rc a)))) = set (sm_local (sy_summary a)) \<union> all_have opts rs"
      "set (sm_remote (sy_summary (fst (reconcile_rounds X N R i opts n its rc a)))) = set (sm_remote (sy_summary a)) \<union> all_need opts rs"
      "sy_requests (fst (reconcile_rounds X N R i opts n its rc a)) =
         sy_requests a @ map (\<lambda>h. RequestMsg (CNegMsg i h)) (List.map_filter (next_message_hex X) rs)"
      by blast
    then show ?thesis unfolding its0 run by (intro exI [of _ "Suc k"] exI [of _ rs]) (simp add: tx)
  qed
qed simp

section \<open>Upload and download\<close>

lemma tick_progress_fields [simp]:
  "sy_store (tick_progress opts a) = sy_store a" "sy_summary (tick_progress opts a) = sy_summary a"
  "sy_requests (tick_progress opts a) = sy_requests a"
  by (simp_all add: tick_progress_def)

lemma hm_insert_dom: "dom (map_of (hm_insert k v m)) = insert k (dom (map_of m))"
  by (auto simp: hm_insert_def update_conv')

lemma upload_loop_fields:
  "sy_store (upload_loop rt look R opts is a) = sy_store a \<and> sy_requests (upload_loop rt look R opts is a) = sy_requests a @ upload_requests look (sy_store a) is \<and>
   sm_local (sy_summary (upload_loop rt look R opts is a)) = sm_local (sy_summary a) \<and>
   sm_remote (sy_summary (upload_loop rt look R opts is a)) = sm_remote (sy_summary a) \<and>
   sm_received (sy_summary (upload_loop rt look R opts is a)) = sm_received (sy_summary a) \<and>
   sm_rejected (sy_summary (upload_loop rt look R opts is a)) = sm_rejected (sy_summary a) \<and>
   set (sm_sent (sy_summary (upload_loop rt look R opts is a))) =
     set (sm_sent (sy_summary a)) \<union> {i \<in> set is. uploaded look R (sy_store a) i} \<and>
   dom (map_of (sm_send_failures (sy_summary (upload_loop rt look R opts is a)))) =
     dom (map_of (sm_send_failures (sy_summary a))) \<union> {i \<in> set is. \<not> uploaded look R (sy_store a) i}"
proof (induction "is" arbitrary: a)
  case (Cons i "is")
  show ?case
  proof (cases "look i (sy_store a)")
    case (Inl err)
    then show ?thesis
      using Cons.IH [of "a\<lparr>sy_summary := (sy_summary a)\<lparr>sm_send_failures := hm_insert i err (sm_send_failures (sy_summary a))\<rparr>\<rparr>"]
      by (auto simp: uploaded_def hm_insert_dom upload_requests_def map_filter_simps)
  next
    case (Inr x)
    show ?thesis
    proof (cases x)
      case None
      then show ?thesis using Inr
        Cons.IH [of "a\<lparr>sy_summary := (sy_summary a)\<lparr>sm_send_failures :=
          hm_insert i ''event not found in local database'' (sm_send_failures (sy_summary a))\<rparr>\<rparr>"]
        by (auto simp: uploaded_def hm_insert_dom upload_requests_def map_filter_simps)
    next
      case (Some e)
      let ?b = "tick_progress opts ((sync_ask [RequestMsg (CEvent e)] a)\<lparr>sy_summary := (case sp_publish R e of
          Inr _ \<Rightarrow> (sy_summary a)\<lparr>sm_sent := List.insert i (sm_sent (sy_summary a))\<rparr>
        | Inl err \<Rightarrow> (sy_summary a)\<lparr>sm_send_failures := hm_insert i (rt err) (sm_send_failures (sy_summary a))\<rparr>)\<rparr>)"
      have "upload_loop rt look R opts (i # is) a = upload_loop rt look R opts is ?b" using Inr Some by (simp add: Let_def)
      then show ?thesis using Cons.IH [of ?b] Inr Some
        by (cases "sp_publish R e") (auto simp: uploaded_def hm_insert_dom upload_requests_def map_filter_simps)
    qed
  qed
qed (simp add: upload_requests_def map_filter_simps)

text \<open>What persisting \<open>es\<close> from \<open>a\<close> has done when it ends in \<open>r\<close>: exactly \<open>ds\<close> were saved.\<close>

definition persist_effect ::
  "'s database \<Rightarrow> admit_policy option \<Rightarrow> relay_url \<Rightarrow> subscription_id \<Rightarrow> event list \<Rightarrow> 's sync_state \<Rightarrow>
   's sync_state \<times> (nula_error + unit) \<Rightarrow> event list \<Rightarrow> bool" where
  "persist_effect D pol url i es a r ds \<longleftrightarrow>
     sy_store (fst r) = save_list D ds (sy_store a) \<and> set ds \<subseteq> {e \<in> set es. admitted pol url i e} \<and>
     set (sm_received (sy_summary (fst r))) \<subseteq> set (sm_received (sy_summary a)) \<union> ev_id ` set ds \<and>
     sy_requests (fst r) = sy_requests a \<and> sm_local (sy_summary (fst r)) = sm_local (sy_summary a) \<and>
     sm_remote (sy_summary (fst r)) = sm_remote (sy_summary a) \<and> sm_sent (sy_summary (fst r)) = sm_sent (sy_summary a) \<and>
     (snd r = Inr () \<longrightarrow> ds = filter (admitted pol url i) es \<and>
       dom (map_of (sm_rejected (sy_summary (fst r)))) =
         dom (map_of (sm_rejected (sy_summary a))) \<union> ev_id ` {e \<in> set es. \<not> admitted pol url i e})"

lemma persist_loop_effect: "\<exists>ds. persist_effect D pol url i es a (persist_loop st D pol opts url i es a) ds"
proof (induction es arbitrary: a)
  case (Cons e es)
  show ?case
  proof (cases "check_admit_event pol url i e")
    case (Inr u)
    define b where "b = tick_progress opts (a\<lparr>sy_store := fst (db_save_event D e (sy_store a)), sy_summary :=
      (case snd (db_save_event D e (sy_store a)) of
         Inr _ \<Rightarrow> (sy_summary a)\<lparr>sm_received := List.insert (ev_id e) (sm_received (sy_summary a))\<rparr>
       | Inl err \<Rightarrow> (sy_summary a)\<lparr>sm_send_failures := hm_insert (ev_id e) (st err) (sm_send_failures (sy_summary a))\<rparr>)\<rparr>)"
    define r where "r = persist_loop st D pol opts url i es b"
    have run: "persist_loop st D pol opts url i (e # es) a = r" using Inr by (simp add: Let_def b_def r_def)
    have b: "set (sm_received (sy_summary b)) \<subseteq> insert (ev_id e) (set (sm_received (sy_summary a)))"
      "sm_local (sy_summary b) = sm_local (sy_summary a)" "sm_remote (sy_summary b) = sm_remote (sy_summary a)"
      "sm_sent (sy_summary b) = sm_sent (sy_summary a)" "sm_rejected (sy_summary b) = sm_rejected (sy_summary a)"
      "sy_store b = fst (db_save_event D e (sy_store a))" "sy_requests b = sy_requests a"
      by (auto simp: b_def split: sum.splits)
    obtain ds where ds: "persist_effect D pol url i es b r ds" using Cons.IH [of b] by (auto simp: r_def)
    have adm: "admitted pol url i e" using Inr by (simp add: admitted_def)
    have "{x \<in> set (e # es). \<not> admitted pol url i x} = {x \<in> set es. \<not> admitted pol url i x}" using adm by auto
    then have "persist_effect D pol url i (e # es) a r (e # ds)"
      using ds b adm unfolding persist_effect_def save_list_def by auto
    then show ?thesis unfolding run by blast
  next
    case (Inl err)
    show ?thesis
    proof (cases "\<exists>s reason. err = NePolicyRejected s reason")
      case True
      then obtain s reason where err: "err = NePolicyRejected s reason" by blast
      define b where "b = tick_progress opts
        (a\<lparr>sy_summary := (sy_summary a)\<lparr>sm_rejected := hm_insert (ev_id e) reason (sm_rejected (sy_summary a))\<rparr>\<rparr>)"
      define r where "r = persist_loop st D pol opts url i es b"
      have run: "persist_loop st D pol opts url i (e # es) a = r" using Inl err by (simp add: b_def r_def)
      obtain ds where ds: "persist_effect D pol url i es b r ds" using Cons.IH [of b] by (auto simp: r_def)
      have adm: "\<not> admitted pol url i e" using Inl by (simp add: admitted_def)
      have "{x \<in> set (e # es). \<not> admitted pol url i x} = insert e {x \<in> set es. \<not> admitted pol url i x}" using adm by auto
      then have "persist_effect D pol url i (e # es) a r ds"
        using ds adm unfolding persist_effect_def by (auto simp: b_def hm_insert_dom)
      then show ?thesis unfolding run by blast
    next
      case False
      then have "persist_loop st D pol opts url i (e # es) a = (a, Inl err)" using Inl by (cases err) auto
      then show ?thesis by (intro exI [of _ "[]"]) (simp add: persist_effect_def save_list_def)
    qed
  qed
next
  case Nil
  show ?case by (intro exI [of _ "[]"]) (simp add: persist_effect_def save_list_def)
qed

lemma driver_run_unsaved: "sd_store (driver_run L None ws d) = sd_store d"
proof -
  have "sd_store (driver_step L None w d) = sd_store d" for w d
    by (simp add: driver_step_def forward_item_def stream_send_def Let_def split: driver_wake.splits subscription_item.splits)
  note step = this
  show ?thesis unfolding driver_run_def by (induction ws arbitrary: d) (simp_all add: step)
qed

section \<open>A whole sync\<close>

text \<open>A fetch from one relay: what it asks for, and that it leaves the store alone when saving is off.\<close>

lemma fetch_effect:
  "\<not> pl_auto_save_events (rp_options p) \<Longrightarrow> fst (fetch_events_from L D p R url f s) = s"
  "snd (snd (fetch_events_from L D p R url f s)) = Inr es \<Longrightarrow> fst (snd (fetch_events_from L D p R url f s)) =
     (case sp_fetch_id R of None \<Rightarrow> [] | Some j \<Rightarrow> [RequestMsg (CReq j [f]), RequestDrop j])"
  by (auto simp: fetch_events_from_def stream_events_to_def driver_start_def stream_requests_def auto_save_db_def driver_run_unsaved
      map_filter_simps Let_def split: sum.splits option.splits if_splits)

lemma download_effect:
  assumes "\<not> pl_auto_save_events (rp_options p)"
  shows "\<exists>es qs ds. persist_effect D pol url i es (sync_ask qs a) (download_phase st L D p pol R opts url i a) ds"
proof -
  define r where "r = fetch_events_from L D p R url (filter_ids (sm_remote (sy_summary a)) filter_new) (sy_store a)"
  have "fst r = sy_store a" using fetch_effect(1) [OF assms] by (simp add: r_def)
  then have same: "a\<lparr>sy_store := fst r\<rparr> = a" by simp
  show ?thesis
  proof (cases "snd (snd r)")
    case (Inl e)
    then have "download_phase st L D p pol R opts url i a = (sync_ask (fst (snd r)) a, Inl e)"
      using same by (simp add: download_phase_def Let_def r_def [symmetric])
    then show ?thesis by (intro exI [of _ "[]"] exI [of _ "fst (snd r)"]) (simp add: persist_effect_def save_list_def)
  next
    case (Inr es)
    then have "download_phase st L D p pol R opts url i a = persist_loop st D pol opts url i es (sync_ask (fst (snd r)) a)"
      using same by (simp add: download_phase_def Let_def r_def [symmetric])
    then show ?thesis using persist_loop_effect [of D pol url i es "sync_ask (fst (snd r)) a" st opts] by auto
  qed
qed

lemma sync_exchange_effect:
  assumes "\<not> pl_auto_save_events (rp_options p)"
  shows "\<exists>ds. sy_store (fst (sync_exchange rt st L D look p pol R opts url i a)) = save_list D ds (sy_store a) \<and>
     list_all (admitted pol url i) ds \<and>
     set (sm_received (sy_summary (fst (sync_exchange rt st L D look p pol R opts url i a)))) \<subseteq>
       set (sm_received (sy_summary a)) \<union> ev_id ` set ds"
proof -
  define b where "b = (if do_up (sn_direction opts) then upload_phase rt look R opts a else a)"
  have b: "sy_store b = sy_store a" "sm_received (sy_summary b) = sm_received (sy_summary a)"
    using upload_loop_fields [of rt look R opts "sm_local (sy_summary a)" a] by (simp_all add: b_def upload_phase_def)
  have run: "sync_exchange rt st L D look p pol R opts url i a = (if sn_dry_run opts then (a, Inr ())
      else if do_down (sn_direction opts) \<and> sm_remote (sy_summary b) \<noteq> [] then download_phase st L D p pol R opts url i b else (b, Inr ()))"
    by (simp add: sync_exchange_def Let_def b_def)
  obtain es qs ds where "persist_effect D pol url i es (sync_ask qs b) (download_phase st L D p pol R opts url i b) ds"
    using download_effect [OF assms, of D pol url i b st L R opts] by blast
  then have "sy_store (fst (download_phase st L D p pol R opts url i b)) = save_list D ds (sy_store a) \<and> list_all (admitted pol url i) ds \<and>
    set (sm_received (sy_summary (fst (download_phase st L D p pol R opts url i b)))) \<subseteq> set (sm_received (sy_summary a)) \<union> ev_id ` set ds"
    using b by (auto simp: persist_effect_def list_all_iff)
  moreover have "sy_store a = save_list D [] (sy_store a)" by (simp add: save_list_def)
  ultimately show ?thesis unfolding run using b
    by (cases "sn_dry_run opts"; cases "do_down (sn_direction opts) \<and> sm_remote (sy_summary b) \<noteq> []") (auto intro: exI [of _ ds] exI [of _ "[]"])
qed

lemma reconcile_loop_frame:
  "sy_store (fst (reconcile_loop X N R i f h opts rc a)) = sy_store a \<and>
   sm_received (sy_summary (fst (reconcile_loop X N R i f h opts rc a))) = sm_received (sy_summary a) \<and>
   sm_sent (sy_summary (fst (reconcile_loop X N R i f h opts rc a))) = sm_sent (sy_summary a)"
  using reconcile_rounds_frame [of X N R i opts MAX_NEG_ROUNDS "sp_items R" rc "sync_ask [RequestMsg (CNegOpen i f h)] a"]
  by (auto simp: reconcile_loop_def Let_def split: sum.splits)

lemma reconcile_loop_requests:
  "\<exists>hs ds. sy_requests (fst (reconcile_loop X N R i f h opts rc a)) =
     sy_requests a @ RequestMsg (CNegOpen i f h) # map (\<lambda>h. RequestMsg (CNegMsg i h)) hs @ ds \<and>
     length hs \<le> MAX_NEG_ROUNDS \<and> set ds \<subseteq> {RequestDrop i}"
proof (cases "sp_subscribe_neg R")
  case (Inl e)
  then show ?thesis by (intro exI [of _ "[]"]) (simp add: reconcile_loop_def)
next
  case (Inr u)
  from reconcile_rounds_frame [of X N R i opts MAX_NEG_ROUNDS "sp_items R" rc "sync_ask [RequestMsg (CNegOpen i f h)] a"]
  obtain hs where "sy_requests (fst (reconcile_rounds X N R i opts MAX_NEG_ROUNDS (sp_items R) rc (sync_ask [RequestMsg (CNegOpen i f h)] a))) =
     sy_requests a @ RequestMsg (CNegOpen i f h) # map (\<lambda>h. RequestMsg (CNegMsg i h)) hs" "length hs \<le> MAX_NEG_ROUNDS" by auto
  then show ?thesis using Inr by (intro exI [of _ hs] exI [of _ "[RequestDrop i]"]) (simp add: reconcile_loop_def Let_def)
qed

lemma download_frame:
  "sm_local (sy_summary (fst (download_phase st L D p pol R opts url i a))) = sm_local (sy_summary a) \<and>
   sm_remote (sy_summary (fst (download_phase st L D p pol R opts url i a))) = sm_remote (sy_summary a) \<and>
   sm_sent (sy_summary (fst (download_phase st L D p pol R opts url i a))) = sm_sent (sy_summary a) \<and>
   (\<exists>qs. sy_requests (fst (download_phase st L D p pol R opts url i a)) = sy_requests a @ qs) \<and>
   (snd (download_phase st L D p pol R opts url i a) = Inr () \<longrightarrow>
      sy_requests (fst (download_phase st L D p pol R opts url i a)) = sy_requests a @ download_requests R (sm_remote (sy_summary a)))"
proof -
  define f where "f = filter_ids (sm_remote (sy_summary a)) filter_new"
  define r where "r = fetch_events_from L D p R url f (sy_store a)"
  show ?thesis
  proof (cases "snd (snd r)")
    case (Inl e)
    then show ?thesis by (simp add: download_phase_def Let_def r_def f_def)
  next
    case (Inr es)
    then have q: "fst (snd r) = download_requests R (sm_remote (sy_summary a))"
      using fetch_effect(2) [of L D p R url f "sy_store a" es] unfolding r_def f_def download_requests_def by simp
    have "download_phase st L D p pol R opts url i a = persist_loop st D pol opts url i es (sync_ask (fst (snd r)) (a\<lparr>sy_store := fst r\<rparr>))"
      using Inr by (simp add: download_phase_def Let_def r_def f_def)
    then show ?thesis
      using q persist_loop_effect [of D pol url i es "sync_ask (fst (snd r)) (a\<lparr>sy_store := fst r\<rparr>)" st opts]
      by (auto simp: persist_effect_def)
  qed
qed

lemma sync_exchange_frame:
  "sm_local (sy_summary (fst (sync_exchange rt st L D look p pol R opts url i a))) = sm_local (sy_summary a) \<and>
   sm_remote (sy_summary (fst (sync_exchange rt st L D look p pol R opts url i a))) = sm_remote (sy_summary a) \<and>
   (\<exists>qs. sy_requests (fst (sync_exchange rt st L D look p pol R opts url i a)) = sy_requests a @ qs) \<and>
   set (sm_sent (sy_summary (fst (sync_exchange rt st L D look p pol R opts url i a)))) = set (sm_sent (sy_summary a)) \<union>
     (if sn_dry_run opts \<or> \<not> do_up (sn_direction opts) then {} else {j \<in> set (sm_local (sy_summary a)). uploaded look R (sy_store a) j}) \<and>
   (snd (sync_exchange rt st L D look p pol R opts url i a) = Inr () \<longrightarrow>
      sy_requests (fst (sync_exchange rt st L D look p pol R opts url i a)) =
        sy_requests a @ exchange_requests look R opts (sy_store a) (sy_summary a)) \<and>
   (sn_dry_run opts \<longrightarrow> fst (sync_exchange rt st L D look p pol R opts url i a) = a)"
proof -
  define b where "b = (if do_up (sn_direction opts) then upload_phase rt look R opts a else a)"
  have b: "sm_local (sy_summary b) = sm_local (sy_summary a)" "sm_remote (sy_summary b) = sm_remote (sy_summary a)"
    "sy_requests b = sy_requests a @ (if do_up (sn_direction opts) then upload_requests look (sy_store a) (sm_local (sy_summary a)) else [])"
    "set (sm_sent (sy_summary b)) = set (sm_sent (sy_summary a)) \<union>
      (if do_up (sn_direction opts) then {j \<in> set (sm_local (sy_summary a)). uploaded look R (sy_store a) j} else {})"
    using upload_loop_fields [of rt look R opts "sm_local (sy_summary a)" a] by (simp_all add: b_def upload_phase_def)
  have run: "sync_exchange rt st L D look p pol R opts url i a = (if sn_dry_run opts then (a, Inr ())
      else if do_down (sn_direction opts) \<and> sm_remote (sy_summary b) \<noteq> [] then download_phase st L D p pol R opts url i b else (b, Inr ()))"
    by (simp add: sync_exchange_def Let_def b_def)
  show ?thesis
  proof (cases "sn_dry_run opts")
    case True
    then show ?thesis by (simp add: run exchange_requests_def)
  next
    case False
    then show ?thesis using b download_frame [of st L D p pol R opts url i b]
      by (auto simp: run exchange_requests_def)
  qed
qed

text \<open>The four ways a run can end before a session is opened, and the session.\<close>

lemma run_sync_cases:
  obtains (early) e where "run_sync_to_relay X N rt st L D look p pol R os url f opts a = (a, Inl e)"
  | (session) v rc i where "from_database (negentropy.truncate N) (map_err st (db_negentropy_items D f (sy_store a))) = Inr v"
      "reconciliation_with_defaults N v = Inr rc" "subscription_id_generate X os = Inr i"
      "run_sync_to_relay X N rt st L D look p pol R os url f opts a =
        (let r = reconcile_loop X N R i f (opening_message_hex X rc) opts rc a; a1 = fst (peer_send R (CNegClose i) (fst r))
         in case snd r of Inl e \<Rightarrow> (a1, Inl e) | Inr _ \<Rightarrow> sync_exchange rt st L D look p pol R opts url i a1)"
proof (cases "pool_relay url p")
  case None
  then show ?thesis using early by (simp add: run_sync_to_relay_def)
next
  case rel: (Some q)
  show ?thesis
  proof (cases "from_database (negentropy.truncate N) (map_err st (db_negentropy_items D f (sy_store a)))")
    case (Inl e)
    then show ?thesis using early rel by (simp add: run_sync_to_relay_def)
  next
    case v: (Inr v)
    show ?thesis
    proof (cases "reconciliation_with_defaults N v")
      case (Inl e)
      then show ?thesis using early rel v by (simp add: run_sync_to_relay_def)
    next
      case rc: (Inr rc)
      show ?thesis using early session [OF v rc] rel v rc
        by (cases "subscription_id_generate X os") (simp_all add: run_sync_to_relay_def)
    qed
  qed
qed

section \<open>Properties\<close>

text \<open>However a sync ends, once it asked for anything it asked to open the session and then to close it, with at most the allowed number of messages in
  between.\<close>

lemma sync_closes:
  assumes "sy_requests (fst (run_sync_to_relay X N rt st L D look p pol R os url f opts a)) \<noteq> sy_requests a"
    and "subscription_id_generate X os = Inr i"
  shows "\<exists>h hs ds qs. sy_requests (fst (run_sync_to_relay X N rt st L D look p pol R os url f opts a)) =
      sy_requests a @ RequestMsg (CNegOpen i f h) # map (\<lambda>h. RequestMsg (CNegMsg i h)) hs @ ds @ RequestMsg (CNegClose i) # qs \<and>
      length hs \<le> MAX_NEG_ROUNDS \<and> set ds \<subseteq> {RequestDrop i}"
proof (cases rule: run_sync_cases [of X N rt st L D look p pol R os url f opts a])
  case (early e)
  then show ?thesis using assms(1) by simp
next
  case (session v rc j)
  then have j: "j = i" using assms(2) by simp
  define h where "h = opening_message_hex X rc"
  define r where "r = reconcile_loop X N R i f h opts rc a"
  define b where "b = fst (peer_send R (CNegClose i) (fst r))"
  obtain hs ds where "sy_requests (fst r) = sy_requests a @ RequestMsg (CNegOpen i f h) # map (\<lambda>h. RequestMsg (CNegMsg i h)) hs @ ds"
    "length hs \<le> MAX_NEG_ROUNDS" "set ds \<subseteq> {RequestDrop i}"
    using reconcile_loop_requests [of X N R i f h opts rc a] unfolding r_def by blast
  moreover have "run_sync_to_relay X N rt st L D look p pol R os url f opts a =
      (case snd r of Inl e \<Rightarrow> (b, Inl e) | Inr _ \<Rightarrow> sync_exchange rt st L D look p pol R opts url i b)"
    using session(4) unfolding j Let_def r_def b_def h_def .
  then obtain qs where "sy_requests (fst (run_sync_to_relay X N rt st L D look p pol R os url f opts a)) = sy_requests b @ qs"
    using sync_exchange_frame [of rt st L D look p pol R opts url i b] by (cases "snd r") auto
  moreover have "sy_requests b = sy_requests (fst r) @ [RequestMsg (CNegClose i)]" by (simp add: b_def)
  ultimately show ?thesis by (intro exI [of _ h] exI [of _ hs] exI [of _ ds] exI [of _ qs]) simp
qed

text \<open>C33. The summary of a sync is what happened, and the relay was asked for exactly what it takes. A sync that succeeds has folded the
  messages of the relay, within the allowed number of rounds, through a session over the ids of the local database, and the last outcome completed it.
  The ids reported as only local and only remote are exactly those of the outcomes, for the directions asked for; the ids
  reported as sent are exactly the local ones whose event the database had and the relay accepted. In this order the client of the relay was asked for:
  the opening of the session with the message of the algorithm for the local ids, the next message of every outcome that has one, the end of the
  session's stream and the close; then, unless it is a dry run, the upload of each local event the database had, and one request for
  exactly the remote ids, if there are any. A dry run changes nothing in the database.\<close>

theorem sync_exact:
  assumes "snd (run_sync_to_relay X N rt st L D look p pol R os url f opts (sync_start s pg)) = Inr ()"
    and "subscription_id_generate X os = Inr i"
  shows "let a = fst (run_sync_to_relay X N rt st L D look p pol R os url f opts (sync_start s pg)); m = sy_summary a in
    \<exists>v rc k rs. from_database (negentropy.truncate N) (map_err st (db_negentropy_items D f s)) = Inr v \<and>
      reconciliation_with_defaults N v = Inr rc \<and> k \<le> MAX_NEG_ROUNDS \<and>
      rs = session_outcomes X N rc (neg_texts (take k (sp_items R))) \<and> length rs = length (neg_texts (take k (sp_items R))) \<and>
      rs \<noteq> [] \<and> outcome_is_complete (last rs) \<and>
      set (sm_local m) = all_have opts rs \<and> set (sm_remote m) = all_need opts rs \<and>
      set (sm_sent m) = (if sn_dry_run opts then {} else {j. j \<in> set (sm_local m) \<and> uploaded look R s j}) \<and>
      sy_requests a = RequestMsg (CNegOpen i f (opening_message_hex X rc)) #
        map (\<lambda>h. RequestMsg (CNegMsg i h)) (List.map_filter (next_message_hex X) rs) @ [RequestDrop i, RequestMsg (CNegClose i)] @
        exchange_requests look R opts s m \<and>
      (sn_dry_run opts \<longrightarrow> sy_store a = s)"
proof (cases rule: run_sync_cases [of X N rt st L D look p pol R os url f opts "sync_start s pg"])
  case (early e)
  then show ?thesis using assms(1) by simp
next
  case (session v rc j)
  have j: "j = i" using session(3) assms(2) by simp
  define h where "h = opening_message_hex X rc"
  define a0 where "a0 = sync_ask [RequestMsg (CNegOpen i f h)] (sync_start s pg)"
  define r where "r = reconcile_loop X N R i f h opts rc (sync_start s pg)"
  define b where "b = fst (peer_send R (CNegClose i) (fst r))"
  have run: "run_sync_to_relay X N rt st L D look p pol R os url f opts (sync_start s pg) =
      (case snd r of Inl e \<Rightarrow> (b, Inl e) | Inr _ \<Rightarrow> sync_exchange rt st L D look p pol R opts url i b)"
    using session(4) unfolding j Let_def r_def b_def h_def .
  then have ok: "snd r = Inr ()" using assms(1) by (cases "snd r") auto
  then have "snd (reconcile_rounds X N R i opts MAX_NEG_ROUNDS (sp_items R) rc a0) = Inr ()"
    "fst r = sync_ask [RequestDrop i] (fst (reconcile_rounds X N R i opts MAX_NEG_ROUNDS (sp_items R) rc a0))"
    by (auto simp: r_def a0_def reconcile_loop_def Let_def split: sum.splits)
  from reconcile_rounds_exact [OF this(1)] this(2)
  obtain k rs where k: "k \<le> MAX_NEG_ROUNDS" "rs = session_outcomes X N rc (neg_texts (take k (sp_items R)))"
    "length rs = length (neg_texts (take k (sp_items R)))" "rs \<noteq> []" "outcome_is_complete (last rs)"
    "set (sm_local (sy_summary b)) = all_have opts rs" "set (sm_remote (sy_summary b)) = all_need opts rs"
    "sy_requests b = RequestMsg (CNegOpen i f h) # map (\<lambda>h. RequestMsg (CNegMsg i h)) (List.map_filter (next_message_hex X) rs) @
       [RequestDrop i, RequestMsg (CNegClose i)]"
    by (auto simp: b_def a0_def sync_start_def summary_new_def)
  have fr: "sy_store b = s" "sm_sent (sy_summary b) = []"
    using reconcile_loop_frame [of X N R i f h opts rc "sync_start s pg"] by (auto simp: b_def r_def sync_start_def summary_new_def)
  have up: "\<not> do_up (sn_direction opts) \<Longrightarrow> set (sm_local (sy_summary b)) = {}" using k(6) by (simp add: all_have_def)
  have eq: "run_sync_to_relay X N rt st L D look p pol R os url f opts (sync_start s pg) = sync_exchange rt st L D look p pol R opts url i b"
    using run ok by simp
  have same: "exchange_requests look R opts s (sy_summary (fst (sync_exchange rt st L D look p pol R opts url i b))) =
      exchange_requests look R opts s (sy_summary b)"
    using sync_exchange_frame [of rt st L D look p pol R opts url i b] by (simp add: exchange_requests_def)
  show ?thesis
    using session(1,2) k fr up assms(1) sync_exchange_frame [of rt st L D look p pol R opts url i b] unfolding Let_def eq same h_def
    by (intro exI [of _ v] exI [of _ rc] exI [of _ k] exI [of _ rs]) (auto simp: sync_start_def)
qed

definition sample_sync :: "sync_direction \<Rightarrow> event list sync_state \<times> (nula_error + unit)" where
  "sample_sync dir = run_sync_to_relay sample_crates sample_initiator (\<lambda>_. []) (\<lambda>_. []) sample_lru sample_list_db sample_lookup
     sample_sync_pool (Some sample_policy) sample_peer (Inr []) ''ws://r'' filter_new (sync_options_default\<lparr>sn_direction := dir\<rparr>)
     (sync_start [sample_wire_event] \<lparr>pg_total = 0, pg_current = 0\<rparr>)"

lemma sample_fetch:
  "fetch_events_from sample_lru sample_list_db sample_sync_pool sample_peer ''ws://r'' f s =
     (s, [RequestMsg (CReq ''f'' [f]), RequestDrop ''f''], Inr [sample_low_id])"
proof -
  have "pl_auto_save_events (rp_options sample_sync_pool) = False"
    by (simp add: sample_sync_pool_def builder_pool_options_def with_auto_save_events_def)
  moreover have "pool_relay ''ws://r'' sample_sync_pool \<noteq> None" by (simp add: sample_sync_pool_def sample_pool_def pool_relay_def)
  moreover have "collect_events [(''ws://r'', Inr sample_low_id)] = [sample_low_id]"
    by (simp add: collect_events_def events_from_unsorted_def map_filter_simps)
  ultimately show ?thesis
    by (simp add: fetch_events_from_def stream_events_to_def sample_peer_def auto_save_db_def driver_start_def driver_run_def driver_step_def
        forward_item_def stream_send_def stream_save_def sample_lru_def sd_sent_def stream_requests_def map_filter_simps Let_def)
qed

lemma sample_sync_run:
  "snd (sample_sync SyncBoth) = Inr ()" "sy_store (fst (sample_sync SyncBoth)) = [sample_wire_event, sample_low_id]"
  "sm_local (sy_summary (fst (sample_sync SyncBoth))) = [ev_id sample_wire_event]"
  "sm_remote (sy_summary (fst (sample_sync SyncBoth))) = [ev_id sample_low_id]"
proof -
  have dec: "hex_decode_vec sample_crates [] = Inr []" by code_simp
  have pol: "sample_policy u i sample_low_id = Some AdmitSuccess" for u i
  proof -
    have "ev_kind sample_low_id = 1" by code_simp
    then show ?thesis by (simp add: sample_policy_def)
  qed
  have ids: "neg_id_to_event_id (ev_id sample_wire_event) = ev_id sample_wire_event" "neg_id_to_event_id (ev_id sample_low_id) = ev_id sample_low_id"
    by (simp_all add: neg_id_to_event_id_def)
  have rel: "pool_relay ''ws://r'' sample_sync_pool \<noteq> None" by (simp add: sample_sync_pool_def sample_pool_def pool_relay_def)
  have peer: "sp_subscribe_neg sample_peer = Inr ()" "sp_items sample_peer = [ItemNegMsg []]" "sp_send sample_peer m = Inr ()"
    "sp_publish sample_peer e = Inr ()" for m e by (simp_all add: sample_peer_def)
  note defs = sample_sync_def run_sync_to_relay_def rel from_database_def prepare_storage_def
        sample_list_db_def sample_initiator_def negentropy.defs sync_start_def reconciliation_with_defaults_def
        reconciliation_initiate_def subscription_id_generate_def random_hex_string_def reconcile_loop_def peer
        MAX_NEG_ROUNDS_def eval_nat_numeral reconciliation_reconcile_hex_def dec reconciliation_reconcile_def next_message_hex_def
        sync_exchange_def sync_options_default_def do_up_def do_down_def upload_phase_def peer_send_def sync_ask_def Let_def
        fold_outcome_def ids summary_new_def sample_lookup_def download_phase_def sample_fetch [unfolded sample_list_db_def]
        check_admit_event_def pol tick_progress_def
  show "snd (sample_sync SyncBoth) = Inr ()" "sy_store (fst (sample_sync SyncBoth)) = [sample_wire_event, sample_low_id]"
    "sm_local (sy_summary (fst (sample_sync SyncBoth))) = [ev_id sample_wire_event]"
    "sm_remote (sy_summary (fst (sample_sync SyncBoth))) = [ev_id sample_low_id]"
    by (simp_all add: defs)
qed

theorem sync_exact_witness:
  "snd (sample_sync SyncBoth) = Inr () \<and> set (sm_sent (sy_summary (fst (sample_sync SyncBoth)))) = {ev_id sample_wire_event} \<and>
   (\<exists>h hs. sy_requests (fst (sample_sync SyncBoth)) =
      RequestMsg (CNegOpen (hex_encode sample_crates []) filter_new h) # map (\<lambda>h. RequestMsg (CNegMsg (hex_encode sample_crates []) h)) hs @
      [RequestDrop (hex_encode sample_crates []), RequestMsg (CNegClose (hex_encode sample_crates [])),
       RequestMsg (CEvent sample_wire_event), RequestMsg (CReq ''f'' [filter_ids [ev_id sample_low_id] filter_new]), RequestDrop ''f''])"
proof -
  have g: "subscription_id_generate sample_crates (Inr []) = Inr (hex_encode sample_crates [])"
    by (simp add: subscription_id_generate_def random_hex_string_def)
  have look: "sample_lookup (ev_id sample_wire_event) [sample_wire_event] = Inr (Some sample_wire_event)" by (simp add: sample_lookup_def)
  have up: "uploaded sample_lookup sample_peer [sample_wire_event] (ev_id sample_wire_event)"
    by (simp add: uploaded_def look sample_peer_def)
  have "exchange_requests sample_lookup sample_peer (sync_options_default\<lparr>sn_direction := SyncBoth\<rparr>) [sample_wire_event]
      (sy_summary (fst (sample_sync SyncBoth))) =
    [RequestMsg (CEvent sample_wire_event), RequestMsg (CReq ''f'' [filter_ids [ev_id sample_low_id] filter_new]), RequestDrop ''f'']"
    by (simp add: exchange_requests_def sync_options_default_def do_up_def do_down_def upload_requests_def download_requests_def sample_sync_run
        look map_filter_simps sample_peer_def)
  moreover have "\<not> sn_dry_run (sync_options_default\<lparr>sn_direction := SyncBoth\<rparr>)" by (simp add: sync_options_default_def)
  ultimately show ?thesis
    using sync_exact [OF sample_sync_run(1) [unfolded sample_sync_def] g, folded sample_sync_def] up
    by (auto simp: Let_def sample_sync_run)
qed

text \<open>C32. Nothing enters the local database past the admission policy. For a client built with a policy, whatever the relay sends and
  however the sync ends, the database afterwards is the database before with events saved one after the other that the policy admitted
  for this relay and session, and only such events are reported as received.\<close>

theorem sync_admission:
  assumes "rp_options p = builder_pool_options (Some P) opts0" and "subscription_id_generate X os = Inr i"
  shows "\<exists>ds. sy_store (fst (run_sync_to_relay X N rt st L D look p (Some P) R os url f opts (sync_start s pg))) = save_list D ds s \<and>
    list_all (\<lambda>e. P url i e = Some AdmitSuccess) ds \<and>
    set (sm_received (sy_summary (fst (run_sync_to_relay X N rt st L D look p (Some P) R os url f opts (sync_start s pg))))) \<subseteq> ev_id ` set ds"
proof (cases rule: run_sync_cases [of X N rt st L D look p "Some P" R os url f opts "sync_start s pg"])
  case (early e)
  then show ?thesis by (intro exI [of _ "[]"]) (simp add: sync_start_def save_list_def summary_new_def)
next
  case (session v rc j)
  have j: "j = i" using session(3) assms(2) by simp
  have off: "\<not> pl_auto_save_events (rp_options p)" using assms(1) by (simp add: builder_pool_options_def with_auto_save_events_def)
  have adm: "admitted (Some P) url i e \<longleftrightarrow> P url i e = Some AdmitSuccess" for e
    by (auto simp: admitted_def check_admit_event_def split: option.splits admit_status.splits)
  define r where "r = reconcile_loop X N R i f (opening_message_hex X rc) opts rc (sync_start s pg)"
  define b where "b = fst (peer_send R (CNegClose i) (fst r))"
  have b: "sy_store b = s" "sm_received (sy_summary b) = []"
    using reconcile_loop_frame [of X N R i f "opening_message_hex X rc" opts rc "sync_start s pg"] by (auto simp: b_def r_def sync_start_def summary_new_def)
  have run: "run_sync_to_relay X N rt st L D look p (Some P) R os url f opts (sync_start s pg) =
      (case snd r of Inl e \<Rightarrow> (b, Inl e) | Inr _ \<Rightarrow> sync_exchange rt st L D look p (Some P) R opts url i b)"
    using session(4) unfolding j Let_def r_def b_def .
  show ?thesis
  proof (cases "snd r")
    case (Inl e)
    then show ?thesis unfolding run using b by (intro exI [of _ "[]"]) (simp add: save_list_def)
  next
    case (Inr u)
    then show ?thesis unfolding run using b sync_exchange_effect [OF off, of rt st L D look "Some P" R opts url i b] by (auto simp: adm list_all_iff)
  qed
qed

theorem sync_admission_witness:
  "\<exists>ds. sy_store (fst (sample_sync SyncBoth)) = save_list sample_list_db ds [sample_wire_event] \<and> ds = [sample_low_id] \<and>
     list_all (\<lambda>e. sample_policy ''ws://r'' (hex_encode sample_crates []) e = Some AdmitSuccess) ds"
proof -
  have o: "rp_options sample_sync_pool = builder_pool_options (Some sample_policy) pool_options_default" by (simp add: sample_sync_pool_def)
  have g: "subscription_id_generate sample_crates (Inr []) = Inr (hex_encode sample_crates [])"
    by (simp add: subscription_id_generate_def random_hex_string_def)
  from sync_admission [OF o g, where N = sample_initiator and rt = "\<lambda>_. []" and st = "\<lambda>_. []" and L = sample_lru and D = sample_list_db
    and look = sample_lookup and R = sample_peer and url = "''ws://r''" and f = filter_new
    and opts = "sync_options_default\<lparr>sn_direction := SyncBoth\<rparr>" and s = "[sample_wire_event]" and pg = "\<lparr>pg_total = 0, pg_current = 0\<rparr>"]
  obtain ds where ds: "sy_store (fst (sample_sync SyncBoth)) = save_list sample_list_db ds [sample_wire_event]"
    "list_all (\<lambda>e. sample_policy ''ws://r'' (hex_encode sample_crates []) e = Some AdmitSuccess) ds"
    by (auto simp: sample_sync_def)
  have "save_list sample_list_db ds s = s @ ds" for s
    by (induction ds arbitrary: s) (simp_all add: save_list_def sample_list_db_def)
  then have "ds = [sample_low_id]" using ds(1) sample_sync_run(2) by simp
  with ds show ?thesis by blast
qed

end
