(* ===== verification/Spec2Isabelle.thy ===== *)
theory Spec2Isabelle
  imports Core_Theorems Store_Theorems Protocol_Theorems Relay_Theorems Codec_Theorems Gossip_Theorems
    Envelope_Theorems Redb_Theorems Sync_Theorems
begin

text \<open>
  \<^bold>\<open>The program.\<close> nula is a Nostr stack in Rust, a workspace under src/crates. \<open>nula-core\<close> holds the data
  model and one module per NIP; \<open>nula-storage\<close> the event databases; \<open>nula-relay\<close> a relay client, a
  pool of them and a relay server; \<open>nula-gossip\<close>, \<open>nula-sync\<close>, \<open>nula-signer\<close>, \<open>nula-nwc\<close> and \<open>nula\<close> build
  on these. Events are signed records with tags; clients publish them and subscribe with filters; a store
  keeps the live ones under the write rules of NIP-01 (replaceable and addressable events), NIP-09
  (deletion), NIP-40 (expiration) and NIP-62 (vanishing), and answers filters from indexes. A relay serves a
  store to its connections. This development models that core: the data model, the filters, the
  in-memory store and the redb store, the messages of the protocol, the relay server, the codings of keys and payloads, the
  router that decides which relays an event or a filter goes to, gift-wrapped messages, delegations and threads, and the
  client that keeps a connection to a relay with the pool of such clients.

  \<^bold>\<open>Theories, in import order.\<close>
  \<^item> \<open>Prelude\<close>: machine words, results, decimal parsing and printing of bounded integers, saturating
    arithmetic, \<open>splitn\<close>, UTF-8 characters; the collections \<open>res_simps\<close> and \<open>inv_simps\<close>.
  \<^item> \<open>Collections\<close>: \<open>HashMap\<close>, \<open>BTreeMap\<close> and \<open>BTreeSet\<close> as lists with their invariants. The locale \<open>kv_map\<close> is the
    map interface, interpreted on both maps (\<open>hm\<close>, \<open>bt\<close>); every index lemma rests on its facts.
  \<^item> \<open>Identifiers\<close>: \<open>Timestamp\<close>, \<open>Kind\<close>, hex, \<open>EventId\<close>, \<open>PublicKey\<close>, \<open>Coordinate\<close> (types/timestamp.rs, event/kind.rs,
    util/hex.rs, event/id.rs, key/public_key.rs, event/coordinate.rs). Code outside the repository is the record
    \<open>crates\<close>, a parameter of every definition that calls it (\<open>faster_hex\<close>, \<open>secp256k1\<close>, \<open>sha2\<close>, \<open>serde_json\<close>); what is
    relied on is stated in \<open>hex_laws\<close> and \<open>schnorr_laws\<close>. The locale \<open>wire_format\<close> is the round-trip contract of text
    forms.
  \<^item> \<open>Sample_Crates\<close>: a concrete instance of \<open>crates\<close> at which theorems with those laws are applied.
  \<^item> \<open>Tags\<close>: letters, tag heads, tags and the tag list with its lazily filled index cell (event/tag/).
  \<^item> \<open>Event_Model\<close>: events, canonical form, id, verification, signing, the builder, NIP-70, NIP-40, NIP-09.
  \<^item> \<open>Filter_Model\<close>: filter.rs. The trait \<open>MatchableEvent\<close> is the record \<open>matchable\<close> and the locale
    \<open>matchable_view\<close>. \<open>filter_selects\<close> is the declarative meaning of a filter.
  \<^item> \<open>Result_Set\<close>: status.rs, events.rs and the key order of the indexes (newest first, then by id).
  \<^item> \<open>Core_Theorems\<close>: the properties of the above.
  \<^item> \<open>Memory_Store\<close>: memory/options.rs, query.rs, store.rs, database.rs: the record \<open>memory_store\<close> has the fields of
    \<open>MemoryStore\<close>; \<open>save_event\<close> is the composition of \<open>refusal\<close> (steps 1 to 6 of the source), \<open>resolve_conflict\<close>,
    \<open>apply_deletion\<close>, \<open>apply_vanish\<close>, \<open>insert_event\<close>, \<open>enforce_capacity\<close>.
  \<^item> \<open>Memory_Invariant\<close>: \<open>idx_ok s L\<close>, every index of \<open>s\<close> represents the set \<open>L\<close> of live events; insertion and removal act
    on \<open>L\<close>.
  \<^item> \<open>Store_Spec\<close>: the abstract store, a set of live events with tombstones, and the refinement of deletion.
  \<^item> \<open>Store_Refinement\<close>: conflict resolution, vanishing, eviction and \<open>save_event\<close> refine it.
  \<^item> \<open>Store_Query\<close>: index plans against a scan of the live set.
  \<^item> \<open>Database_Interface\<close>: the \<open>NostrDatabase\<close> trait as the locale \<open>event_database\<close>, interpreted on the memory store
    (\<open>mem\<close>), and the reachable states of a handle.
  \<^item> \<open>Store_Convergence\<close>, \<open>Store_Theorems\<close>: consequences for histories and the properties of the store.
  \<^item> \<open>Messages\<close>: message/client.rs, relay.rs and subscription_id.rs: the messages of both directions, their encoders and
    decoders over JSON values, the machine-readable prefixes, and the derived JSON form of \<open>Event\<close>. The text form of a
    signature (\<open>secp256k1\<close>) is the argument \<open>Y\<close> with \<open>sig_laws\<close>.
  \<^item> \<open>Auth_Pow\<close>: types/relay_url.rs, nips/nip42.rs and nips/nip13.rs. The \<open>url\<close> crate is the argument \<open>U\<close>.
  \<^item> \<open>Relay_Policy\<close>: server/options.rs, policy.rs, management.rs and nips/nip86.rs; the abstract moderation state
    \<open>mgmt_spec\<close> and the refinement \<open>mgmt_abs\<close>.
  \<^item> \<open>Relay_Http\<close>: reading an HTTP request, NIP-98 (nips/nip98.rs) and the management endpoint of server/relay.rs. Base64 and
    the JSON text parser are the argument \<open>H\<close>; a socket is the list of the results of its reads.
  \<^item> \<open>Protocol_Theorems\<close>: the properties of the four theories above.
  \<^item> \<open>Sync_Session\<close>: the responder of a NIP-77 reconciliation and its storage (nula-sync); the \<open>negentropy\<close> crate is the argument \<open>N\<close>.
  \<^item> \<open>Relay_Connection\<close>: server/connection.rs. The record \<open>conn\<close> is the state of \<open>handle_connection\<close> with the shared store and
    channel; each handler is a function on it, \<open>conn_step\<close> is one turn of the loop, and \<open>conn_reachable\<close> interleaves it with
    other connections. The JSON text parser is the argument \<open>W\<close>; a send fails when the sink is full.
  \<^item> \<open>Relay_Invariant\<close>: what each handler may change, the invariant \<open>conn_inv\<close>, and where writes, messages and authenticated
    keys come from. \<open>Relay_Replies\<close>: the form of refusals and what an open socket is sent. \<open>Relay_Memory\<close>: the relay over
    \<open>MemoryDatabase\<close>, and the rate limiter over time.
  \<^item> \<open>Relay_Theorems\<close>: the properties of a connection.
  \<^item> \<open>Byte_Codec\<close>: big-endian integers, UTF-8 texts and the records of nips/nip19/tlv.rs.
  \<^item> \<open>Encryption\<close>: nips/nip44.rs over the ciphers, the argument \<open>E\<close> with \<open>cipher_laws\<close>; \<open>Sample_Ciphers\<close> is an instance with
    real base64.
  \<^item> \<open>Bech32_Entities\<close>: nips/nip19/, key/secret_key.rs and nips/nip21.rs over the bech32 crate, the argument \<open>B\<close> with
    \<open>bech32_laws\<close>. The locale \<open>text_codec\<close> is the contract of a text form with a length limit, interpreted on every entity
    type. \<open>Codec_Theorems\<close>: the properties of the codings.
  \<^item> \<open>Relay_Lists\<close>: nips/nip65.rs, the lists of nips/nip17.rs, and the address policy of nula-gossip with the address parsers
    of the standard library.
  \<^item> \<open>Gossip_Routing\<close>: nula-gossip. The record \<open>gossip\<close> is \<open>Inner\<close>; selection, filter splitting, event targets, ingestion,
    freshness and refresh are functions on it. \<open>Gossip_Lemmas\<close>: the locale \<open>relay_selection\<close>, the contract of a selection,
    interpreted on outbox, inbox and message relays, and the maps behind a split filter. \<open>Gossip_Ingest\<close>: routes in terms of the
    ingested events. \<open>Gossip_Theorems\<close>: the properties of the router.
  \<^item> \<open>Gift_Wrap\<close>: the JSON text of unsigned events, nips/nip59.rs and the messages of nips/nip17.rs. What the clock and the
    entropy source return are arguments; the JSON text parser is the argument \<open>J\<close>. \<open>envelope_laws\<close> collects what is relied on:
    JSON documents nested at most 127 deep are read back, and hashes, keys and signatures have their sizes.
    \<open>Sample_Json\<close>: a printer and parser that satisfy it.
  \<^item> \<open>Delegation\<close>: nips/nip26.rs. \<open>Threads\<close>: nips/nip10.rs. \<open>Envelope_Theorems\<close>: the properties of the three.
  \<^item> \<open>Redb_Codec\<close>: redb/keys.rs and redb/codec.rs: the byte keys with their order, the bound of a range scan, stored events.
    The postcard crate is the argument \<open>P\<close> with \<open>postcard_laws\<close>. \<open>Redb_Store\<close>: redb/store.rs, options.rs, builder.rs, database.rs: the
    seven tables, the write rules, plans and reads. A transaction that fails or rejects leaves the tables as they were.
  \<^item> \<open>Redb_Invariant\<close>: \<open>tables_ok X P t L\<close>, the tables represent the set \<open>L\<close>. \<open>Redb_Refinement\<close>: saving refines the abstract store of
    \<open>Store_Spec\<close>. \<open>Redb_Query\<close>: scans and reads. \<open>Redb_Theorems\<close>: the locale \<open>typed_database\<close>, a backend for well-formed
    events, \<open>database_pair\<close>, two of them side by side, interpreted on the in-memory and the redb store, and the properties.
  \<^item> \<open>Client_Actor\<close>: the relay client, nula-relay/src/inner/ with its options, limits, backoff policy and errors. The record \<open>actor\<close> is the state
    of the task, \<open>actor_step\<close> one turn of its loop on a wakeup, \<open>actor_trace\<close> the states after a history of wakeups. Channels to
    callers are logs, and a reply slot that is dropped without an answer is in a log of its own; what the transport, clocks and entropy return is the environment of a wakeup.
    \<open>Client_Invariant\<close>: \<open>actor_ok\<close> and the bookkeeping of reply slots. \<open>Client_History\<close>: the locale \<open>registry\<close>, the contract of a table
    of registrations, interpreted on pending publishes and on subscriptions. \<open>Client_Theorems\<close>: the properties of the client.
  \<^item> \<open>Relay_Pool\<close>: nula-relay/src/pool/. The record \<open>relay_pool\<close> is \<open>Inner\<close>; fan-outs take what the relays answer and the order of arrival as
    arguments and return the requests they make of the relays with their result; \<open>driver_step\<close> is one turn of the loop behind an event stream, with a log of saves and sends. The lru crate is the argument \<open>L\<close> with \<open>lru_laws\<close>.
    \<open>Pool_Theorems\<close>: the properties of the pool, and of its publishes over the histories of its clients.
  \<^item> \<open>Sync_Driver\<close>: the initiator of nula-sync/src/session.rs and the driver of nula/src/sync.rs, with the admission of events (nula/src/policy.rs,
    client.rs, builder.rs) and the fetch through the pool. What the relay sends and answers is the record \<open>sync_peer\<close>; what is
    asked of it, the opening, the rounds, the uploads, the close and the download, is the log \<open>sy_requests\<close>.
    \<open>Sync_Theorems\<close>: the properties of a sync.

  \<^bold>\<open>What is shown.\<close> For the data model: text and JSON round trips, saturation, classification of kinds, coherence of
  the tag index cache, equivalence of deduplication with its reference, signed events verify and ids bind
  their fields, the matcher decides the meaning of a filter, fingerprints ignore order. For the store:
  saving refines the abstract store and always returns; every reachable state has consistent indexes; queries return
  exactly the selected live events in order; replaceable events converge whatever their arrival order; foreign events
  are safe from deletion and vanishing; tombstones are permanent; the capacity bound holds and eviction keeps the newest.
  Three deviations of the code are theorems too: the coordinate plan ignores the limit, an event can be reported as
  saved and be gone, and ids nobody has stored can be blocked by anyone.
  For the protocol: messages survive the wire and decoded ones are typed; difficulty is a bound on the id as a number;
  mining ends with the first nonce that works; an authentication event answers one challenge at one relay; moderation refines
  its specification and only admins moderate. For a connection, over every run: only events that passed every gate are saved,
  an unauthenticated reader is told nothing when reads are gated, authenticated keys were proved on this connection, requests
  and live events are answered exactly, limits hold, and every refusal carries a machine-readable reason. Two more
  deviations are theorems: the relay stores events it did not verify, and a management header without a payload hash
  authorizes any body. For the codings: an encrypted message is read by its receiver and by nobody who cannot forge its code,
  padding is bounded, entities and URIs survive their text form and decode to typed values only, secret keys never enter a URI.
  For the router: selections are bounded and allowed, split filters select what the filter selects and cover every routed key,
  events go where they belong, routes are a function of the events seen, fetches are debounced. Two deviations are
  theorems: local IPv6 relays pass the policy, and keys without routes vanish from a split filter.
  For envelopes: a gift wrap shows only its addressee and an ephemeral author, and is read back exactly by the addressee; what
  is read was signed by the key it names; a private message reaches every recipient and the sender; timestamps are drawn
  from the last two days. Delegations hold within their conditions, conditions and threads survive their
  text forms, and missing thread markers are inferred by position. A condition string that is not in canonical form is not
  preserved, which is a theorem too.
  For the redb store: saving refines the same specification, both stores give the same statuses and answers after the same
  calls, and a query returns the latest matching events. That it ignores requests to vanish and where its limit does not keep
  the newest events are theorems.
  For the client, over every history: no reply slot is answered twice, and unless an event is published twice each command is answered or still waits before its deadline
  as long as the actor runs, success of a
  publish comes from the relay's acceptance of that event, streams get only the items addressed to their open
  subscription, a live socket was asked for every subscription, and nothing but a shutdown ends the actor. For the pool: a
  publish refuses before it asks any relay or asks each named relay once, reports what each answered, and its successes were accepted by the relay; the notifications determine the
  registered relays; a stream delivers an event unless its id is among the recently seen ones, and saves it first. For a sync: its
  summary is what the session and the exchange did, the requests made of the relay are stated in order, the session is always closed, and only admitted events are saved.

  \<^bold>\<open>Loops.\<close> The eviction loop is a \<open>partial_function\<close> into \<open>option\<close>; \<open>None\<close> would mean that it does not end, and it is proved
  to return on every store with consistent indexes. The nonce search and the splitting of HTTP headers are total functions
  with a termination proof: the nonce is a checked 64-bit counter. No fuel is used anywhere.

  \<^bold>\<open>Conventions.\<close> Errors are the left summand of a sum; error texts are kept where a relay sends them, and dropped elsewhere. Strings are lists of
  UTF-8 bytes as characters. \<open>usize\<close> counts are \<open>nat\<close>. The clock is an argument. The \<open>RwLock\<close> of the database handle makes
  each call one step, so a history is a sequence of calls. The order of a list that stands for a \<open>HashMap\<close> or
  \<open>HashSet\<close> is an arbitrary iteration order; no property depends on it.

  \<^bold>\<open>Not modelled, and the plan.\<close> Left for later are comments (NIP-22), the older encryptions (NIP-04, NIP-49) and the rest of the
  client facade. The accept loop
  and the NIP-11 document of the relay and the timer of the refresher are left out. Socket and file I/O, the operating system keyring, browser
  bindings, HTTP clients and the command line stay outside.
\<close>

end
